(* ===== verification/Xrdp_Base.thy ===== *)
theory Xrdp_Base
  imports Main "HOL-Library.Word" "HOL-Library.Monad_Syntax"
begin

text \<open>
  The prelude of the development: the fault monad the C code is modelled in, its
  weakest-precondition calculus, the C integer conversions and the byte-memory lemmas that
  every component shares.

  A C function is a HOL function whose result type is an \<open>option\<close>. \<open>None\<close> is a
  \<^emph>\<open>memory fault\<close>: the C code would access a byte outside the block it was given, or use
  the value of a byte that nobody has written. \<open>Some\<close> carries what the C function
  returns (its \<open>int\<close> return code included, so an error return is an ordinary value)
  together with the state it leaves behind. The \<open>do\<close> notation is the library's, for
  \<open>Option.bind\<close>.
\<close>

unbundle bit_operations_syntax

type_synonym byte = "8 word"

text \<open>A block of memory: \<open>None\<close> is a byte that was allocated and never written.\<close>

type_synonym memory = "int \<Rightarrow> byte option"

named_theorems wp_simps \<open>symbolic execution: weakest preconditions as rewrite rules\<close>
named_theorems c_int_simps \<open>C integer conversions on values that are in range\<close>

subsection \<open>Weakest preconditions\<close>

text \<open>\<open>wp m Q\<close>: the computation does not fault and its result satisfies \<open>Q\<close>.\<close>

definition wp :: "'a option \<Rightarrow> ('a \<Rightarrow> bool) \<Rightarrow> bool" where
  "wp m Q \<longleftrightarrow> (case m of None \<Rightarrow> False | Some x \<Rightarrow> Q x)"

lemma wp_Some [wp_simps, simp]: "wp (Some x) Q \<longleftrightarrow> Q x"
  by (simp add: wp_def)

lemma wp_None [wp_simps, simp]: "\<not> wp None Q"
  by (simp add: wp_def)

lemma wp_bind [wp_simps]: "wp (Option.bind m f) Q \<longleftrightarrow> wp m (\<lambda>x. wp (f x) Q)"
  by (cases m) (auto simp: wp_def)

lemma wp_if [wp_simps]:
  "wp (if b then m else m') Q \<longleftrightarrow> (b \<longrightarrow> wp m Q) \<and> (\<not> b \<longrightarrow> wp m' Q)"
  by simp

lemma wp_mono: "wp m P \<Longrightarrow> (\<And>x. P x \<Longrightarrow> Q x) \<Longrightarrow> wp m Q"
  by (cases m) auto

lemma wp_conjI: "wp m P \<Longrightarrow> wp m Q \<Longrightarrow> wp m (\<lambda>x. P x \<and> Q x)"
  by (cases m) auto

lemma wp_exists: "wp m Q \<longleftrightarrow> (\<exists>x. m = Some x \<and> Q x)"
  by (cases m) auto

lemma wpD: "wp m Q \<Longrightarrow> m = Some x \<Longrightarrow> Q x"
  by simp

lemma wp_bindI: "wp m P \<Longrightarrow> (\<And>x. P x \<Longrightarrow> wp (f x) Q) \<Longrightarrow> wp (Option.bind m f) Q"
  by (cases m) auto

lemma bind_eq_Some: "Option.bind m f = Some y \<longleftrightarrow> (\<exists>x. m = Some x \<and> f x = Some y)"
  by (cases m) auto

subsection \<open>C integers\<close>

text \<open>
  A C \<open>int\<close> is an \<open>int\<close> here; where a value is converted to a narrower or signed
  type the conversion is written out with one of these.
\<close>

definition u8 :: "int \<Rightarrow> int" where "u8 v = v mod 256"

definition u16 :: "int \<Rightarrow> int" where "u16 v = v mod 65536"

definition u32 :: "int \<Rightarrow> int" where "u32 v = v mod 4294967296"

definition s32 :: "int \<Rightarrow> int" where
  "s32 v = (v + 2147483648) mod 4294967296 - 2147483648"

lemma u8_id [c_int_simps]: "0 \<le> v \<Longrightarrow> v < 256 \<Longrightarrow> u8 v = v"
  by (simp add: u8_def)

lemma u16_id [c_int_simps]: "0 \<le> v \<Longrightarrow> v < 65536 \<Longrightarrow> u16 v = v"
  by (simp add: u16_def)

lemma u32_id [c_int_simps]: "0 \<le> v \<Longrightarrow> v < 4294967296 \<Longrightarrow> u32 v = v"
  by (simp add: u32_def)

lemma s32_id [c_int_simps]: "-2147483648 \<le> v \<Longrightarrow> v < 2147483648 \<Longrightarrow> s32 v = v"
  by (simp add: s32_def)

lemma s32_range: "-2147483648 \<le> s32 v \<and> s32 v < 2147483648"
  by (simp add: s32_def)

lemma s32_eq_signed_take_bit: "s32 v = signed_take_bit 31 v"
  by (simp add: s32_def signed_take_bit_eq_take_bit_shift take_bit_eq_mod)

lemma u8_range: "0 \<le> u8 v \<and> u8 v < 256" by (simp add: u8_def)
lemma u16_range: "0 \<le> u16 v \<and> u16 v < 65536" by (simp add: u16_def)
lemma u32_range: "0 \<le> u32 v \<and> u32 v < 4294967296" by (simp add: u32_def)

lemma uint_byte_range: "0 \<le> uint (b :: byte) \<and> uint b < 256"
  using uint_range_size [of b] by (simp add: word_size)

lemma uint_byte_of_int: "uint (word_of_int v :: byte) = v mod 256"
  by (simp add: uint_word_of_int)

text \<open>Testing and setting single bits of small values.\<close>

lemma and_bit_iff: "(v :: int) AND 2 ^ n \<noteq> 0 \<longleftrightarrow> odd (v div 2 ^ n)"
  by (simp add: and_exp_eq_0_iff_not_bit bit_iff_odd)

lemma and_128: "0 \<le> v \<Longrightarrow> v < 256 \<Longrightarrow> (v :: int) AND 128 \<noteq> 0 \<longleftrightarrow> 128 \<le> v"
proof -
  assume "0 \<le> v" "v < 256"
  then have "v div 128 = (if 128 \<le> v then 1 else 0)"
    by (auto simp: div_pos_pos_trivial intro: int_div_pos_eq [of v 128 1 "v - 128"])
  with and_bit_iff [of v 7] show ?thesis by simp
qed

lemma or_high_bit: "0 \<le> v \<Longrightarrow> v < 2 ^ n \<Longrightarrow> (v :: int) OR 2 ^ n = v + 2 ^ n"
proof -
  assume "0 \<le> v" "v < 2 ^ n"
  then have "v AND 2 ^ n = 0" using and_bit_iff [of v n] by (auto simp: div_pos_pos_trivial)
  with plus_and_or [of v "2 ^ n"] show ?thesis by simp
qed

subsection \<open>Byte memory\<close>

fun bytes_at :: "memory \<Rightarrow> int \<Rightarrow> byte list \<Rightarrow> bool" where
  "bytes_at m i [] \<longleftrightarrow> True"
| "bytes_at m i (b # bs) \<longleftrightarrow> m i = Some b \<and> bytes_at m (i + 1) bs"

fun write_bytes :: "memory \<Rightarrow> int \<Rightarrow> byte list \<Rightarrow> memory" where
  "write_bytes m i [] = m"
| "write_bytes m i (b # bs) = write_bytes (m(i := Some b)) (i + 1) bs"

fun read_bytes :: "memory \<Rightarrow> int \<Rightarrow> nat \<Rightarrow> byte list option" where
  "read_bytes m i 0 = Some []"
| "read_bytes m i (Suc n) = do { b \<leftarrow> m i; bs \<leftarrow> read_bytes m (i + 1) n; Some (b # bs) }"

text \<open>Every byte of \<open>[a, b)\<close> has been written.\<close>

definition written :: "memory \<Rightarrow> int \<Rightarrow> int \<Rightarrow> bool" where
  "written m a b \<longleftrightarrow> (\<forall>i. a \<le> i \<and> i < b \<longrightarrow> m i \<noteq> None)"

lemma writtenD: "written m a b \<Longrightarrow> a \<le> i \<Longrightarrow> i < b \<Longrightarrow> \<exists>v. m i = Some v"
  by (auto simp: written_def)

lemma written_mono: "written m a b \<Longrightarrow> a \<le> a' \<Longrightarrow> b' \<le> b \<Longrightarrow> written m a' b'"
  by (auto simp: written_def)

lemma written_empty [simp]: "b \<le> a \<Longrightarrow> written m a b"
  by (auto simp: written_def)

lemma write_bytes_below: "j < i \<Longrightarrow> write_bytes m i bs j = m j"
  by (induction m i bs rule: write_bytes.induct) auto

lemma write_bytes_above: "i + int (length bs) \<le> j \<Longrightarrow> write_bytes m i bs j = m j"
  by (induction m i bs rule: write_bytes.induct) auto

lemma write_bytes_at:
  "i \<le> j \<Longrightarrow> j < i + int (length bs) \<Longrightarrow> write_bytes m i bs j = Some (bs ! nat (j - i))"
proof (induction bs arbitrary: m i)
  case (Cons b bs)
  show ?case
  proof (cases "j = i")
    case True
    then show ?thesis by (simp add: write_bytes_below)
  next
    case False
    with Cons.prems have "nat (j - i) = Suc (nat (j - (i + 1)))" by linarith
    with False Cons show ?thesis by simp
  qed
qed simp

lemma write_bytes_append:
  "write_bytes m i (as @ bs) = write_bytes (write_bytes m i as) (i + int (length as)) bs"
  by (induction as arbitrary: m i) (simp_all add: add.assoc)

lemma bytes_at_nth:
  "bytes_at m i bs \<longleftrightarrow> (\<forall>k < length bs. m (i + int k) = Some (bs ! k))"
proof (induction bs arbitrary: i)
  case (Cons b bs)
  show ?case
    by (simp add: Cons.IH All_less_Suc2 add.assoc)
qed simp

lemma bytes_at_append:
  "bytes_at m i (as @ bs) \<longleftrightarrow> bytes_at m i as \<and> bytes_at m (i + int (length as)) bs"
  by (induction m i as rule: bytes_at.induct) (auto simp: algebra_simps)

lemma bytes_at_write_bytes: "bytes_at (write_bytes m i bs) i bs"
  by (auto simp: bytes_at_nth write_bytes_at)

lemma bytes_at_cong:
  "bytes_at m i bs \<Longrightarrow> (\<And>j. i \<le> j \<Longrightarrow> j < i + int (length bs) \<Longrightarrow> m' j = m j) \<Longrightarrow> bytes_at m' i bs"
  by (auto simp: bytes_at_nth)

lemma bytes_at_written: "bytes_at m i bs \<Longrightarrow> written m i (i + int (length bs))"
proof (unfold written_def, intro allI impI)
  fix j assume "bytes_at m i bs" and "i \<le> j \<and> j < i + int (length bs)"
  moreover from this have "nat (j - i) < length bs" "i + int (nat (j - i)) = j" by auto
  ultimately show "m j \<noteq> None" unfolding bytes_at_nth by (metis option.distinct(1))
qed

lemma read_bytes_at: "bytes_at m i bs \<Longrightarrow> read_bytes m i (length bs) = Some bs"
  by (induction m i bs rule: bytes_at.induct) auto

lemma read_bytes_written:
  "written m i (i + int n) \<Longrightarrow> \<exists>bs. read_bytes m i n = Some bs \<and> length bs = n \<and> bytes_at m i bs"
proof (induction n arbitrary: i)
  case 0
  then show ?case by simp
next
  case (Suc n)
  then obtain b where b: "m i = Some b"
    using writtenD [of m i "i + int (Suc n)" i] by auto
  from Suc.prems have "written m (i + 1) (i + 1 + int n)"
    by (rule written_mono) auto
  from Suc.IH [OF this] obtain bs
    where "read_bytes m (i + 1) n = Some bs" "length bs = n" "bytes_at m (i + 1) bs"
    by blast
  with b show ?case by (intro exI [of _ "b # bs"]) simp
qed

lemma read_bytes_SomeD: "read_bytes m i n = Some bs \<Longrightarrow> length bs = n \<and> bytes_at m i bs"
  by (induction m i n arbitrary: bs rule: read_bytes.induct) (auto simp: bind_eq_Some)

lemma written_write_bytes:
  "written m a b \<Longrightarrow> written (write_bytes m i bs) a b"
  unfolding written_def
proof (intro allI impI)
  fix j assume *: "\<forall>j. a \<le> j \<and> j < b \<longrightarrow> m j \<noteq> None" and j: "a \<le> j \<and> j < b"
  consider "j < i" | "i + int (length bs) \<le> j" | "i \<le> j" "j < i + int (length bs)" by linarith
  then show "write_bytes m i bs j \<noteq> None"
    using * j by cases (simp_all add: write_bytes_below write_bytes_above write_bytes_at)
qed

lemma written_extend:
  "written m a i \<Longrightarrow> written (write_bytes m i bs) a (i + int (length bs))"
  by (auto simp: written_def) (metis linorder_not_less option.distinct(1) write_bytes_at write_bytes_below)

end
