(* ===== verification/Array_Lists.thy ===== *)
theory Array_Lists
  imports Xrdp_Base
begin

text \<open>
  The growable arrays of \<open>common/list.c\<close> (items are machine words that usually hold
  pointers; \<open>None\<close> is the zero word) and \<open>common/list16.c\<close> (16-bit items with four
  slots embedded in the structure). Both are modelled with their backing store, their shifting
  loops and their growth, and both implement the contract \<open>indexed_list\<close>: the abstract
  value is the list of the first \<open>count\<close> items.
\<close>

subsection \<open>C arrays\<close>

definition arr_get :: "'a list \<Rightarrow> int \<Rightarrow> 'a option" where
  "arr_get xs i = (if 0 \<le> i \<and> i < int (length xs) then Some (xs ! nat i) else None)"

definition arr_set :: "'a list \<Rightarrow> int \<Rightarrow> 'a \<Rightarrow> 'a list option" where
  "arr_set xs i v = (if 0 \<le> i \<and> i < int (length xs) then Some (xs[nat i := v]) else None)"

text \<open>\<open>g_malloc (sizeof item * n, 1)\<close> followed by \<open>g_memcpy (p, old, sizeof item * i)\<close>.\<close>

definition arr_grow :: "'a \<Rightarrow> 'a list \<Rightarrow> int \<Rightarrow> int \<Rightarrow> 'a list option" where
  "arr_grow zero old i n =
     (if 0 \<le> i \<and> i \<le> int (length old) \<and> i \<le> n
      then Some (take (nat i) old @ replicate (nat (n - i)) zero) else None)"

text \<open>\<open>for (i = index; i < lim; i++) items[i] = items[i + 1];\<close>\<close>

function shift_down :: "'a list \<Rightarrow> int \<Rightarrow> int \<Rightarrow> 'a list option" where
  "shift_down items i lim =
     (if i < lim then do {
        v \<leftarrow> arr_get items (i + 1);
        items \<leftarrow> arr_set items i v;
        shift_down items (i + 1) lim }
      else Some items)"
  by pat_completeness auto
termination
  by (relation "measure (\<lambda>(items, i, lim). nat (lim - i))") auto

text \<open>\<open>for (i = start; i >= index; i--) items[i + 1] = items[i];\<close>\<close>

function shift_up :: "'a list \<Rightarrow> int \<Rightarrow> int \<Rightarrow> 'a list option" where
  "shift_up items i index =
     (if index \<le> i then do {
        v \<leftarrow> arr_get items i;
        items \<leftarrow> arr_set items (i + 1) v;
        shift_up items (i - 1) index }
      else Some items)"
  by pat_completeness auto
termination
  by (relation "measure (\<lambda>(items, i, index). nat (i - index + 1))") auto

declare shift_down.simps [simp del] shift_up.simps [simp del]

text \<open>\<open>for (i = 0; i < count; i++) if (items[i] == item) return i; return -1;\<close>\<close>

function index_from :: "'a list \<Rightarrow> int \<Rightarrow> int \<Rightarrow> 'a \<Rightarrow> int option" where
  "index_from items i count item =
     (if i < count then do {
        v \<leftarrow> arr_get items i;
        if v = item then Some i else index_from items (i + 1) count item }
      else Some (-1))"
  by pat_completeness auto
termination
  by (relation "measure (\<lambda>(items, i, count, item). nat (count - i))") auto

declare index_from.simps [simp del]

subsection \<open>What the loops compute\<close>

lemma shift_down_split:
  "shift_down (xs @ y # ys @ zs) (int (length xs)) (int (length xs) + int (length ys))
     = Some (xs @ ys @ last (y # ys) # zs)"
proof (induction ys arbitrary: xs y)
  case Nil
  then show ?case by (simp add: shift_down.simps)
next
  case (Cons w ws)
  have "shift_down (xs @ y # (w # ws) @ zs) (int (length xs)) (int (length xs) + int (length (w # ws)))
     = shift_down ((xs @ [w]) @ w # ws @ zs) (int (length (xs @ [w])))
         (int (length (xs @ [w])) + int (length ws))"
    by (subst shift_down.simps) (simp add: arr_get_def arr_set_def nth_append nat_add_distrib add.commute add.left_commute)
  also have "\<dots> = Some ((xs @ [w]) @ ws @ last (w # ws) # zs)"
    by (rule Cons.IH)
  finally show ?case by simp
qed

lemma shift_up_split:
  "shift_up (xs @ ys @ z # zs) (int (length xs) + int (length ys) - 1) (int (length xs))
     = Some (xs @ hd (ys @ [z]) # ys @ zs)"
proof (induction ys arbitrary: z zs rule: rev_induct)
  case Nil
  then show ?case by (simp add: shift_up.simps)
next
  case (snoc w ws)
  have "shift_up (xs @ (ws @ [w]) @ z # zs) (int (length xs) + int (length (ws @ [w])) - 1) (int (length xs))
     = shift_up (xs @ ws @ w # (w # zs)) (int (length xs) + int (length ws) - 1) (int (length xs))"
    by (subst shift_up.simps)
      (simp add: arr_get_def arr_set_def nth_append list_update_append nat_add_distrib)
  also have "\<dots> = Some (xs @ hd (ws @ [w]) # ws @ w # zs)"
    by (rule snoc.IH)
  finally show ?case by (cases ws) simp_all
qed

text \<open>The reference for the linear search.\<close>

fun first_index :: "'a list \<Rightarrow> 'a \<Rightarrow> int \<Rightarrow> int" where
  "first_index [] item i = -1"
| "first_index (x # xs) item i = (if x = item then i else first_index xs item (i + 1))"

lemma index_from_first_index:
  "index_from (ps @ xs @ zs) (int (length ps)) (int (length ps) + int (length xs)) item
     = Some (first_index xs item (int (length ps)))"
proof (induction xs arbitrary: ps)
  case Nil
  then show ?case by (simp add: index_from.simps)
next
  case (Cons x xs)
  have "index_from (ps @ (x # xs) @ zs) (int (length ps) + 1) (int (length ps) + 1 + int (length xs)) item
      = Some (first_index xs item (int (length ps) + 1))"
    using Cons.IH [of "ps @ [x]"] by (simp add: add.commute)
  then show ?case
    by (subst index_from.simps) (simp add: arr_get_def nth_append ac_simps)
qed

lemma first_index_range:
  "0 \<le> i \<Longrightarrow> first_index xs item i = -1 \<or> i \<le> first_index xs item i \<and> first_index xs item i < i + int (length xs)"
proof (induction xs arbitrary: i)
  case (Cons x xs)
  show ?case using Cons.IH [of "i + 1"] Cons.prems by auto
qed simp

lemma first_index_sound:
  "0 \<le> i \<Longrightarrow> first_index xs item i \<noteq> -1 \<Longrightarrow> xs ! nat (first_index xs item i - i) = item"
proof (induction xs arbitrary: i)
  case (Cons x xs)
  show ?case
  proof (cases "x = item")
    case False
    with Cons.prems have "first_index xs item (i + 1) \<noteq> -1" by simp
    with Cons.prems first_index_range [of "i + 1" xs item]
    have "nat (first_index xs item (i + 1) - i) = Suc (nat (first_index xs item (i + 1) - (i + 1)))"
      by auto
    with Cons.IH [of "i + 1"] Cons.prems False show ?thesis by simp
  qed simp
qed simp

lemma first_index_none: "0 \<le> i \<Longrightarrow> first_index xs item i = -1 \<longleftrightarrow> item \<notin> set xs"
proof (induction xs arbitrary: i)
  case (Cons x xs)
  then show ?case using Cons.IH [of "i + 1"] by auto
qed simp

subsection \<open>The contract of an indexed list\<close>

text \<open>A sequence of changes, on an abstract list and on an implementation.\<close>

datatype 'a list_op = Op_Add 'a | Op_Insert int 'a | Op_Remove int

fun op_spec :: "'a list \<Rightarrow> 'a list_op \<Rightarrow> 'a list" where
  "op_spec xs (Op_Add x) = xs @ [x]"
| "op_spec xs (Op_Insert i x) =
     (if 0 \<le> i \<and> i \<le> int (length xs) then take (nat i) xs @ x # drop (nat i) xs else xs)"
| "op_spec xs (Op_Remove i) =
     (if 0 \<le> i \<and> i < int (length xs) then take (nat i) xs @ drop (Suc (nat i)) xs else xs)"

fun run_ops :: "('l \<Rightarrow> 'a \<Rightarrow> 'l option) \<Rightarrow> ('l \<Rightarrow> int \<Rightarrow> 'a \<Rightarrow> 'l option) \<Rightarrow> ('l \<Rightarrow> int \<Rightarrow> 'l option)
    \<Rightarrow> 'l \<Rightarrow> 'a list_op list \<Rightarrow> 'l option" where
  "run_ops add ins rem l [] = Some l"
| "run_ops add ins rem l (op # ops) =
     Option.bind (case op of Op_Add x \<Rightarrow> add l x | Op_Insert i x \<Rightarrow> ins l i x | Op_Remove i \<Rightarrow> rem l i)
       (\<lambda>l. run_ops add ins rem l ops)"

text \<open>
  What a client of \<open>struct list\<close> or \<open>struct list16\<close> relies on: \<open>abs\<close> gives
  the sequence of items, and no operation ever faults while \<open>inv\<close> holds.
\<close>

locale indexed_list =
  fixes inv :: "'l \<Rightarrow> bool"
    and abs :: "'l \<Rightarrow> 'a list"
    and zero :: 'a
    and add :: "'l \<Rightarrow> 'a \<Rightarrow> 'l option"
    and get :: "'l \<Rightarrow> int \<Rightarrow> 'a option"
    and remove :: "'l \<Rightarrow> int \<Rightarrow> 'l option"
    and insert :: "'l \<Rightarrow> int \<Rightarrow> 'a \<Rightarrow> 'l option"
    and index_of :: "'l \<Rightarrow> 'a \<Rightarrow> int option"
  assumes add_law: "inv l \<Longrightarrow> wp (add l x) (\<lambda>l'. inv l' \<and> abs l' = abs l @ [x])"
    and get_law: "inv l \<Longrightarrow>
      get l i = Some (if 0 \<le> i \<and> i < int (length (abs l)) then abs l ! nat i else zero)"
    and remove_law: "inv l \<Longrightarrow> wp (remove l i) (\<lambda>l'. inv l' \<and>
      abs l' = (if 0 \<le> i \<and> i < int (length (abs l))
                then take (nat i) (abs l) @ drop (Suc (nat i)) (abs l) else abs l))"
    and insert_law: "inv l \<Longrightarrow> wp (insert l i x) (\<lambda>l'. inv l' \<and>
      abs l' = (if 0 \<le> i \<and> i \<le> int (length (abs l))
                then take (nat i) (abs l) @ x # drop (nat i) (abs l) else abs l))"
    and index_of_law: "inv l \<Longrightarrow> index_of l x = Some (first_index (abs l) x 0)"
begin

lemma op_law:
  assumes "inv l"
  shows "wp (case op of Op_Add x \<Rightarrow> add l x | Op_Insert i x \<Rightarrow> insert l i x | Op_Remove i \<Rightarrow> remove l i)
    (\<lambda>l'. inv l' \<and> abs l' = op_spec (abs l) op)"
  using assms by (cases op) (simp_all add: add_law insert_law remove_law)

text \<open>Any sequence of changes computes what it computes on abstract lists.\<close>

lemma run_law:
  "inv l \<Longrightarrow> wp (run_ops add insert remove l ops) (\<lambda>l'. inv l' \<and> abs l' = foldl op_spec (abs l) ops)"
proof (induction ops arbitrary: l)
  case (Cons op ops)
  show ?case
    unfolding run_ops.simps
  proof (rule wp_bindI [OF op_law [OF Cons.prems]])
    fix l1 assume l1: "inv l1 \<and> abs l1 = op_spec (abs l) op"
    with Cons.IH [of l1] show "wp (run_ops add insert remove l1 ops)
        (\<lambda>l'. inv l' \<and> abs l' = foldl op_spec (abs l) (op # ops))" by simp
  qed
qed simp

text \<open>Adding a sequence of items one by one.\<close>

fun add_all :: "'l \<Rightarrow> 'a list \<Rightarrow> 'l option" where
  "add_all l [] = Some l"
| "add_all l (x # xs) = Option.bind (add l x) (\<lambda>l. add_all l xs)"

lemma add_all_law: "inv l \<Longrightarrow> wp (add_all l xs) (\<lambda>l'. inv l' \<and> abs l' = abs l @ xs)"
proof (induction xs arbitrary: l)
  case (Cons x xs)
  show ?case
    unfolding add_all.simps
  proof (rule wp_bindI [OF add_law [OF Cons.prems]])
    fix l' assume l': "inv l' \<and> abs l' = abs l @ [x]"
    with Cons.IH [of l'] show "wp (add_all l' xs) (\<lambda>l''. inv l'' \<and> abs l'' = abs l @ x # xs)"
      by simp
  qed
qed simp

lemma insert_then_remove:
  assumes "inv l" "0 \<le> i" "i \<le> int (length (abs l))"
  shows "wp (Option.bind (insert l i x) (\<lambda>l. remove l i)) (\<lambda>l'. inv l' \<and> abs l' = abs l)"
proof (rule wp_bindI [OF insert_law [OF assms(1)]])
  fix l' assume "inv l' \<and> abs l' = (if 0 \<le> i \<and> i \<le> int (length (abs l))
      then take (nat i) (abs l) @ x # drop (nat i) (abs l) else abs l)"
  with assms have l': "inv l'" "abs l' = take (nat i) (abs l) @ x # drop (nat i) (abs l)" by simp_all
  from assms(2,3) have le: "nat i \<le> length (abs l)" by linarith
  from remove_law [OF l'(1), of i] show "wp (remove l' i) (\<lambda>l''. inv l'' \<and> abs l'' = abs l)"
    using assms le by (auto simp: l'(2) min_def elim!: wp_mono)
qed

lemma insert_then_get:
  assumes "inv l" "0 \<le> i" "i \<le> int (length (abs l))"
  shows "wp (Option.bind (insert l i x) (\<lambda>l. get l i)) (\<lambda>y. y = x)"
proof (rule wp_bindI [OF insert_law [OF assms(1)]])
  fix l' assume "inv l' \<and> abs l' = (if 0 \<le> i \<and> i \<le> int (length (abs l))
      then take (nat i) (abs l) @ x # drop (nat i) (abs l) else abs l)"
  with assms have l': "inv l'" "abs l' = take (nat i) (abs l) @ x # drop (nat i) (abs l)" by simp_all
  from assms(2,3) have "nat i \<le> length (abs l)" by linarith
  with assms show "wp (get l' i) (\<lambda>y. y = x)"
    by (simp add: get_law [OF l'(1)] l'(2) nth_append)
qed

lemma index_of_get:
  assumes "inv l" "index_of l x = Some i" "i \<noteq> -1"
  shows "get l i = Some x"
  using assms first_index_range [of 0 "abs l" x] first_index_sound [of 0 "abs l" x]
  by (auto simp: index_of_law get_law)

lemma index_of_absent: "inv l \<Longrightarrow> index_of l x = Some (-1) \<longleftrightarrow> x \<notin> set (abs l)"
  by (simp add: index_of_law first_index_none)

end

subsection \<open>common/list.c\<close>

text \<open>
  \<open>xfreed\<close> records, in order, the items handed to \<open>g_free\<close>; the C structure has no
  such field, but the effect of \<open>auto_free\<close> is on the heap and has to appear somewhere.
\<close>

record 'a xlist =
  xitems :: "'a option list"
  xcount :: int
  alloc_size :: int
  grow_by :: int
  auto_free :: bool
  xfreed :: "'a option list"

definition list_create :: "'a xlist" where
  "list_create = \<lparr>xitems = replicate 10 None, xcount = 0, alloc_size = 10, grow_by = 10,
     auto_free = False, xfreed = []\<rparr>"

text \<open>\<open>for (i = 0; i < count; i++) { g_free (items[i]); items[i] = 0; }\<close>\<close>

function free_items :: "'a xlist \<Rightarrow> int \<Rightarrow> 'a xlist option" where
  "free_items self i =
     (if i < xcount self then do {
        v \<leftarrow> arr_get (xitems self) i;
        items \<leftarrow> arr_set (xitems self) i None;
        free_items (self\<lparr>xitems := items, xfreed := xfreed self @ [v]\<rparr>) (i + 1) }
      else Some self)"
  by pat_completeness auto
termination
  by (relation "measure (\<lambda>(self, i). nat (xcount self - i))") auto

declare free_items.simps [simp del]

text \<open>\<open>list_delete\<close> leaves nothing behind but the frees it made.\<close>

definition list_delete :: "'a xlist \<Rightarrow> 'a option list option" where
  "list_delete self =
     (if auto_free self then do { self \<leftarrow> free_items self 0; Some (xfreed self) }
      else Some (xfreed self))"

definition list_grow :: "'a xlist \<Rightarrow> 'a xlist option" where
  "list_grow self = do {
     p \<leftarrow> arr_grow None (xitems self) (alloc_size self) (alloc_size self + grow_by self);
     Some (self\<lparr>alloc_size := alloc_size self + grow_by self, xitems := p\<rparr>) }"

definition list_add_item :: "'a xlist \<Rightarrow> 'a option \<Rightarrow> 'a xlist option" where
  "list_add_item self item = do {
     self \<leftarrow> (if xcount self \<ge> alloc_size self then list_grow self else Some self);
     items \<leftarrow> arr_set (xitems self) (xcount self) item;
     Some (self\<lparr>xitems := items, xcount := xcount self + 1\<rparr>) }"

definition list_get_item :: "'a xlist \<Rightarrow> int \<Rightarrow> 'a option option" where
  "list_get_item self index =
     (if index < 0 \<or> index \<ge> xcount self then Some None else arr_get (xitems self) index)"

definition list_clear :: "'a xlist \<Rightarrow> 'a xlist option" where
  "list_clear self = do {
     self \<leftarrow> (if auto_free self then free_items self 0 else Some self);
     Some (self\<lparr>xcount := 0, grow_by := 10, alloc_size := 10, xitems := replicate 10 None\<rparr>) }"

definition list_index_of :: "'a xlist \<Rightarrow> 'a option \<Rightarrow> int option" where
  "list_index_of self item = index_from (xitems self) 0 (xcount self) item"

definition list_remove_item :: "'a xlist \<Rightarrow> int \<Rightarrow> 'a xlist option" where
  "list_remove_item self index =
     (if index \<ge> 0 \<and> index < xcount self then do {
        self \<leftarrow> (if auto_free self then do {
            v \<leftarrow> arr_get (xitems self) index;
            items \<leftarrow> arr_set (xitems self) index None;
            Some (self\<lparr>xitems := items, xfreed := xfreed self @ [v]\<rparr>) }
          else Some self);
        items \<leftarrow> shift_down (xitems self) index (xcount self - 1);
        Some (self\<lparr>xitems := items, xcount := xcount self - 1\<rparr>) }
      else Some self)"

definition list_insert_item :: "'a xlist \<Rightarrow> int \<Rightarrow> 'a option \<Rightarrow> 'a xlist option" where
  "list_insert_item self index item =
     (if index = xcount self then list_add_item self item
      else if index \<ge> 0 \<and> index < xcount self then do {
        self \<leftarrow> Some (self\<lparr>xcount := xcount self + 1\<rparr>);
        self \<leftarrow> (if xcount self > alloc_size self then list_grow self else Some self);
        items \<leftarrow> shift_up (xitems self) (xcount self - 2) index;
        items \<leftarrow> arr_set items index item;
        Some (self\<lparr>xitems := items\<rparr>) }
      else Some self)"

text \<open>
  \<open>g_strdup\<close> is the argument \<open>dup\<close>: the copy of a string is a fresh pointer, and
  \<open>g_strdup (0)\<close> is 0.
\<close>

function list_append_list_strdup ::
  "('a option \<Rightarrow> 'a option) \<Rightarrow> 'a xlist \<Rightarrow> 'a xlist \<Rightarrow> int \<Rightarrow> 'a xlist option" where
  "list_append_list_strdup dup self dest index =
     (if index < xcount self then do {
        item \<leftarrow> list_get_item self index;
        dest \<leftarrow> list_add_item dest (dup item);
        list_append_list_strdup dup self dest (index + 1) }
      else Some dest)"
  by pat_completeness auto
termination
  by (relation "measure (\<lambda>(dup, self, dest, index). nat (xcount self - index))") auto

declare list_append_list_strdup.simps [simp del]

definition list_inv :: "'a xlist \<Rightarrow> bool" where
  "list_inv self \<longleftrightarrow> 0 \<le> xcount self \<and> xcount self \<le> alloc_size self
     \<and> int (length (xitems self)) = alloc_size self \<and> 0 < grow_by self"

definition list_abs :: "'a xlist \<Rightarrow> 'a option list" where
  "list_abs self = take (nat (xcount self)) (xitems self)"

lemma list_abs_length: "list_inv l \<Longrightarrow> int (length (list_abs l)) = xcount l"
  by (auto simp: list_inv_def list_abs_def)

lemma list_create_law: "list_inv list_create" "list_abs list_create = []"
  by (simp_all add: list_create_def list_inv_def list_abs_def)

text \<open>The backing store splits into the live items and the spare slots.\<close>

lemma list_store_split:
  assumes "list_inv l"
  obtains spare where "xitems l = list_abs l @ spare"
    "int (length spare) = alloc_size l - xcount l"
  using assms that [of "drop (nat (xcount l)) (xitems l)"]
  by (auto simp: list_inv_def list_abs_def of_nat_diff)

lemma list_grow_law:
  assumes "list_inv l"
  shows "wp (list_grow l) (\<lambda>l'. list_inv l' \<and> list_abs l' = list_abs l \<and> xcount l' = xcount l
     \<and> alloc_size l < alloc_size l' \<and> auto_free l' = auto_free l \<and> xfreed l' = xfreed l)"
  using assms by (simp add: list_grow_def arr_grow_def list_inv_def list_abs_def nat_le_iff)

lemma list_store_item:
  assumes "list_inv l" "xcount l < alloc_size l"
  shows "wp (do { items \<leftarrow> arr_set (xitems l) (xcount l) x;
                  Some (l\<lparr>xitems := items, xcount := xcount l + 1\<rparr>) })
     (\<lambda>l'. list_inv l' \<and> list_abs l' = list_abs l @ [x])"
  using assms
  by (simp add: arr_set_def list_inv_def list_abs_def nat_add_distrib take_Suc_conv_app_nth nat_less_iff)

lemma list_add_item_law:
  assumes inv: "list_inv l"
  shows "wp (list_add_item l x) (\<lambda>l'. list_inv l' \<and> list_abs l' = list_abs l @ [x])"
proof (cases "xcount l \<ge> alloc_size l")
  case True
  from list_grow_law [OF inv] obtain g where "list_grow l = Some g" "list_inv g"
    "list_abs g = list_abs l" "xcount g = xcount l" "alloc_size l < alloc_size g"
    by (auto simp: wp_exists)
  with True inv list_store_item [of g x] show ?thesis
    by (simp add: list_add_item_def list_inv_def)
next
  case False
  with inv list_store_item [of l x] show ?thesis by (simp add: list_add_item_def)
qed

lemma list_get_item_law:
  assumes "list_inv l"
  shows "list_get_item l i =
     Some (if 0 \<le> i \<and> i < int (length (list_abs l)) then list_abs l ! nat i else None)"
  using assms list_abs_length [OF assms]
  by (auto simp: list_get_item_def arr_get_def list_inv_def list_abs_def)

lemma list_index_of_law:
  assumes "list_inv l"
  shows "list_index_of l x = Some (first_index (list_abs l) x 0)"
proof -
  obtain spare where "xitems l = list_abs l @ spare" using list_store_split [OF assms] by blast
  with index_from_first_index [of "[]" "list_abs l" spare x] list_abs_length [OF assms]
  show ?thesis by (simp add: list_index_of_def)
qed

text \<open>Splitting the live items at an index.\<close>

lemma abs_split_at:
  assumes "0 \<le> i" "i < int (length xs)"
  obtains as y bs where "xs = as @ y # bs" "int (length as) = i"
proof
  show "xs = take (nat i) xs @ xs ! nat i # drop (Suc (nat i)) xs"
    using assms by (simp add: id_take_nth_drop [symmetric] nat_less_iff)
  show "int (length (take (nat i) xs)) = i" using assms by simp
qed

lemma list_remove_item_law:
  assumes inv: "list_inv l" and i: "0 \<le> i" "i < xcount l"
  shows "wp (list_remove_item l i) (\<lambda>l'. list_inv l'
     \<and> list_abs l' = take (nat i) (list_abs l) @ drop (Suc (nat i)) (list_abs l)
     \<and> auto_free l' = auto_free l
     \<and> xfreed l' = xfreed l @ (if auto_free l then [list_abs l ! nat i] else []))"
proof -
  note len = list_abs_length [OF inv]
  obtain as y bs where ab: "list_abs l = as @ y # bs" and la: "int (length as) = i"
    using abs_split_at [OF i(1)] i(2) len by metis
  obtain spare where st: "xitems l = (as @ y # bs) @ spare" using list_store_split [OF inv] ab by metis
  have lim: "xcount l - 1 = int (length as) + int (length bs)" using len ab by simp
  have ni: "nat i = length as" using la by simp
  have sh: "\<And>w. shift_down (as @ w # bs @ spare) (int (length as)) (int (length as) + int (length bs))
      = Some (as @ bs @ last (w # bs) # spare)" by (rule shift_down_split)
  have c: "nat (int (length as) + int (length bs)) = length as + length bs" by simp
  show ?thesis
    using inv i st sh la lim c
    by (simp add: list_remove_item_def arr_get_def arr_set_def ni ab list_inv_def nth_append)
      (simp add: list_abs_def)
qed

lemma list_remove_item_out:
  "i < 0 \<or> xcount l \<le> i \<Longrightarrow> list_remove_item l i = Some l"
  by (auto simp: list_remove_item_def)

lemma list_grow_eq:
  assumes "int (length (xitems l)) = alloc_size l" "0 < grow_by l"
  shows "list_grow l = Some (l\<lparr>alloc_size := alloc_size l + grow_by l,
     xitems := xitems l @ replicate (nat (grow_by l)) None\<rparr>)"
proof -
  have "nat (alloc_size l) = length (xitems l)" using assms(1) by linarith
  then show ?thesis using assms by (simp add: list_grow_def arr_grow_def)
qed

text \<open>The insertion proper: \<open>g\<close> is the list after the count was raised and the store
  was grown if it had to be.\<close>

lemma list_insert_store:
  assumes "xitems g = as @ bs @ z # zs" "xcount g = int (length as) + int (length bs) + 1"
    and "int (length (xitems g)) = alloc_size g" "0 < grow_by g"
  shows "wp (do { items \<leftarrow> shift_up (xitems g) (xcount g - 2) (int (length as));
                  items \<leftarrow> arr_set items (int (length as)) x;
                  Some (g\<lparr>xitems := items\<rparr>) })
     (\<lambda>l'. list_inv l' \<and> list_abs l' = as @ x # bs)"
proof -
  have lim: "xcount g - 2 = int (length as) + int (length bs) - 1" using assms by simp
  have c: "nat (int (length as) + int (length bs) + 1) = length as + Suc (length bs)" by simp
  show ?thesis
    using assms shift_up_split [of as bs z zs] c
    by (simp add: lim arr_set_def list_inv_def list_abs_def)
qed

lemma list_insert_item_law:
  assumes inv: "list_inv l" and i: "0 \<le> i" "i \<le> xcount l"
  shows "wp (list_insert_item l i x) (\<lambda>l'. list_inv l'
     \<and> list_abs l' = take (nat i) (list_abs l) @ x # drop (nat i) (list_abs l))"
proof (cases "i = xcount l")
  case True
  with list_add_item_law [OF inv, of x] list_abs_length [OF inv] show ?thesis
    by (auto simp: list_insert_item_def elim!: wp_mono)
next
  case False
  note len = list_abs_length [OF inv]
  define as where "as = take (nat i) (list_abs l)"
  define bs where "bs = drop (nat i) (list_abs l)"
  have ab: "list_abs l = as @ bs" by (simp add: as_def bs_def)
  have la: "int (length as) = i" using i len by (simp add: as_def)
  let ?l = "l\<lparr>xcount := xcount l + 1\<rparr>"
  obtain spare where st: "xitems l = (as @ bs) @ spare" "int (length spare) = alloc_size l - xcount l"
    using list_store_split [OF inv] ab by metis
  have c: "xcount l = int (length as) + int (length bs)" using len ab by simp
  have "wp (list_insert_item l i x) (\<lambda>l'. list_inv l' \<and> list_abs l' = as @ x # bs)"
  proof (cases "xcount ?l > alloc_size ?l")
    case True
    let ?g = "?l\<lparr>alloc_size := alloc_size l + grow_by l,
       xitems := xitems l @ replicate (nat (grow_by l)) None\<rparr>"
    have "list_grow ?l = Some ?g"
      using list_grow_eq [of ?l] inv by (simp add: list_inv_def)
    moreover obtain n where "nat (grow_by l) = Suc n"
      using inv by (auto simp: list_inv_def dest: gr0_implies_Suc intro: that [of "nat (grow_by l) - 1"])
    moreover have "int (length spare) \<le> 0" using st(2) True by simp
    then have "spare = []" by simp
    ultimately show ?thesis
      using list_insert_store [of ?g as bs None "replicate n None" x] True False inv i st la c
      by (simp add: list_insert_item_def list_inv_def)
  next
    case noroom: False
    then obtain z zs where "spare = z # zs" using st(2) by (cases spare) auto
    then show ?thesis
      using list_insert_store [of ?l as bs z zs x] noroom False inv i st la c
      by (simp add: list_insert_item_def list_inv_def)
  qed
  then show ?thesis by (simp add: as_def bs_def)
qed

lemma list_insert_item_out:
  "i < 0 \<or> xcount l < i \<Longrightarrow> list_insert_item l i x = Some l \<or> xcount l = i"
  by (auto simp: list_insert_item_def)

interpretation xl: indexed_list list_inv list_abs None list_add_item list_get_item
    list_remove_item list_insert_item list_index_of
proof (unfold_locales, goal_cases)
  case (1 l x) then show ?case by (rule list_add_item_law)
next
  case (2 l i) then show ?case by (rule list_get_item_law)
next
  case (3 l i)
  show ?case
  proof (cases "0 \<le> i \<and> i < xcount l")
    case True
    with list_remove_item_law [OF 3, of i] list_abs_length [OF 3] show ?thesis by (auto elim!: wp_mono)
  next
    case False
    with 3 list_remove_item_out [of i l] list_abs_length [OF 3] show ?thesis by auto
  qed
next
  case (4 l i x)
  show ?case
  proof (cases "0 \<le> i \<and> i \<le> xcount l")
    case True
    with list_insert_item_law [OF 4, of i x] list_abs_length [OF 4] show ?thesis by (auto elim!: wp_mono)
  next
    case False
    with 4 list_insert_item_out [of i l x] list_abs_length [OF 4] show ?thesis
      by (auto simp: list_inv_def)
  qed
next
  case (5 l x) then show ?case by (rule list_index_of_law)
qed

text \<open>What is freed: \<open>list_clear\<close> and \<open>list_delete\<close> free every live item once.\<close>

lemma free_items_law:
  assumes "list_inv l" "0 \<le> i" "i \<le> xcount l"
  shows "wp (free_items l i) (\<lambda>l'. list_inv l' \<and> xcount l' = xcount l \<and> auto_free l' = auto_free l
     \<and> xfreed l' = xfreed l @ drop (nat i) (list_abs l))"
  using assms
proof (induction l i rule: free_items.induct)
  case (1 l i)
  show ?case
  proof (cases "i < xcount l")
    case False
    with "1.prems" list_abs_length [of l] show ?thesis by (subst free_items.simps) simp
  next
    case True
    let ?l = "l\<lparr>xitems := (xitems l)[nat i := None], xfreed := xfreed l @ [xitems l ! nat i]\<rparr>"
    have get: "arr_get (xitems l) i = Some (xitems l ! nat i)"
      and set: "arr_set (xitems l) i None = Some ((xitems l)[nat i := None])"
      using "1.prems" True by (simp_all add: arr_get_def arr_set_def list_inv_def)
    have inv: "list_inv ?l" using "1.prems" by (simp add: list_inv_def)
    have ni: "nat (i + 1) = Suc (nat i)" using "1.prems" by simp
    have "wp (free_items ?l (i + 1)) (\<lambda>l'. list_inv l' \<and> xcount l' = xcount ?l
        \<and> auto_free l' = auto_free ?l \<and> xfreed l' = xfreed ?l @ drop (nat (i + 1)) (list_abs ?l))"
      using "1.IH" [OF True get set inv] "1.prems" True by simp
    moreover have "drop (Suc (nat i)) (list_abs ?l) = drop (Suc (nat i)) (list_abs l)"
      by (simp add: list_abs_def drop_take)
    moreover have "xitems l ! nat i # drop (Suc (nat i)) (list_abs l) = drop (nat i) (list_abs l)"
      using "1.prems" True by (simp add: list_abs_def list_inv_def Cons_nth_drop_Suc [symmetric] nat_less_iff)
    ultimately show ?thesis
      using True get set by (simp add: free_items.simps [of l i] ni)
  qed
qed

lemma list_clear_law:
  assumes "list_inv l"
  shows "wp (list_clear l) (\<lambda>l'. list_inv l' \<and> list_abs l' = []
     \<and> xfreed l' = xfreed l @ (if auto_free l then list_abs l else []))"
proof (cases "auto_free l")
  case True
  from free_items_law [OF assms, of 0] assms
  have "wp (free_items l 0) (\<lambda>l'. list_inv l' \<and> xcount l' = xcount l \<and> auto_free l' = auto_free l
     \<and> xfreed l' = xfreed l @ list_abs l)" by (simp add: list_inv_def)
  then show ?thesis
    by (auto simp: list_clear_def wp_bind True list_inv_def list_abs_def elim!: wp_mono)
next
  case False
  then show ?thesis by (simp add: list_clear_def list_inv_def list_abs_def)
qed

lemma list_delete_law:
  assumes "list_inv l"
  shows "list_delete l = Some (xfreed l @ (if auto_free l then list_abs l else []))"
proof (cases "auto_free l")
  case True
  from free_items_law [OF assms, of 0] assms obtain l' where "free_items l 0 = Some l'"
    "xfreed l' = xfreed l @ list_abs l" by (auto simp: list_inv_def wp_exists)
  with True show ?thesis by (simp add: list_delete_def)
next
  case False
  then show ?thesis by (simp add: list_delete_def)
qed

lemma list_append_list_strdup_law:
  assumes "list_inv self" "list_inv dest" "0 \<le> i" "i \<le> xcount self"
  shows "wp (list_append_list_strdup dup self dest i)
     (\<lambda>l'. list_inv l' \<and> list_abs l' = list_abs dest @ map dup (drop (nat i) (list_abs self)))"
  using assms
proof (induction dup self dest i rule: list_append_list_strdup.induct)
  case (1 dup self dest i)
  note len = list_abs_length [OF "1.prems"(1)]
  show ?case
  proof (cases "i < xcount self")
    case False
    with "1.prems" len show ?thesis by (subst list_append_list_strdup.simps) simp
  next
    case True
    let ?x = "list_abs self ! nat i"
    have get: "list_get_item self i = Some ?x"
      using "1.prems" True len by (simp add: list_get_item_law)
    have ni: "nat (i + 1) = Suc (nat i)" using "1.prems" by simp
    from list_add_item_law [OF "1.prems"(2), of "dup ?x"] obtain d where d:
      "list_add_item dest (dup ?x) = Some d" "list_inv d" "list_abs d = list_abs dest @ [dup ?x]"
      by (auto simp: wp_exists)
    have "wp (list_append_list_strdup dup self d (i + 1))
       (\<lambda>l'. list_inv l' \<and> list_abs l' = list_abs d @ map dup (drop (nat (i + 1)) (list_abs self)))"
      using "1.IH" [OF True get d(1) "1.prems"(1) d(2)] "1.prems" True by simp
    moreover have "?x # drop (Suc (nat i)) (list_abs self) = drop (nat i) (list_abs self)"
      using len True "1.prems" by (intro Cons_nth_drop_Suc) linarith
    then have "dup ?x # map dup (drop (Suc (nat i)) (list_abs self)) = map dup (drop (nat i) (list_abs self))"
      by (metis list.simps(9))
    ultimately show ?thesis
      using True get d by (simp add: list_append_list_strdup.simps [of dup self dest i] ni)
  qed
qed

subsection \<open>common/list16.c\<close>

text \<open>\<open>l16_heap = None\<close>: \<open>items\<close> points at the embedded \<open>mitems\<close>.\<close>

record list16 =
  l16_heap :: "16 word list option"
  l16_count :: int
  max_count :: int
  mitems :: "16 word list"

definition l16_items :: "list16 \<Rightarrow> 16 word list" where
  "l16_items self = (case l16_heap self of None \<Rightarrow> mitems self | Some xs \<Rightarrow> xs)"

definition l16_store :: "list16 \<Rightarrow> 16 word list \<Rightarrow> list16" where
  "l16_store self xs = (case l16_heap self of
     None \<Rightarrow> self\<lparr>mitems := xs\<rparr> | Some _ \<Rightarrow> self\<lparr>l16_heap := Some xs\<rparr>)"

definition list16_init :: list16 where
  "list16_init = \<lparr>l16_heap = None, l16_count = 0, max_count = 4, mitems = replicate 4 0\<rparr>"

definition list16_grow :: "list16 \<Rightarrow> list16 option" where
  "list16_grow self = do {
     p \<leftarrow> arr_grow 0 (l16_items self) (max_count self) (max_count self + 4);
     Some (self\<lparr>max_count := max_count self + 4, l16_heap := Some p\<rparr>) }"

definition list16_add_item :: "list16 \<Rightarrow> 16 word \<Rightarrow> list16 option" where
  "list16_add_item self item = do {
     self \<leftarrow> (if l16_count self \<ge> max_count self then list16_grow self else Some self);
     items \<leftarrow> arr_set (l16_items self) (l16_count self) item;
     Some ((l16_store self items)\<lparr>l16_count := l16_count self + 1\<rparr>) }"

definition list16_get_item :: "list16 \<Rightarrow> int \<Rightarrow> 16 word option" where
  "list16_get_item self index =
     (if index < 0 \<or> index \<ge> l16_count self then Some 0 else arr_get (l16_items self) index)"

definition list16_clear :: "list16 \<Rightarrow> list16" where
  "list16_clear self = self\<lparr>l16_count := 0, max_count := 4, l16_heap := None\<rparr>"

definition list16_index_of :: "list16 \<Rightarrow> 16 word \<Rightarrow> int option" where
  "list16_index_of self item = index_from (l16_items self) 0 (l16_count self) item"

definition list16_remove_item :: "list16 \<Rightarrow> int \<Rightarrow> list16 option" where
  "list16_remove_item self index =
     (if index \<ge> 0 \<and> index < l16_count self then do {
        items \<leftarrow> shift_down (l16_items self) index (l16_count self - 1);
        Some ((l16_store self items)\<lparr>l16_count := l16_count self - 1\<rparr>) }
      else Some self)"

definition list16_insert_item :: "list16 \<Rightarrow> int \<Rightarrow> 16 word \<Rightarrow> list16 option" where
  "list16_insert_item self index item =
     (if index = l16_count self then list16_add_item self item
      else if index \<ge> 0 \<and> index < l16_count self then do {
        self \<leftarrow> Some (self\<lparr>l16_count := l16_count self + 1\<rparr>);
        self \<leftarrow> (if l16_count self > max_count self then list16_grow self else Some self);
        items \<leftarrow> shift_up (l16_items self) (l16_count self - 2) index;
        items \<leftarrow> arr_set items index item;
        Some (l16_store self items) }
      else Some self)"

definition list16_inv :: "list16 \<Rightarrow> bool" where
  "list16_inv self \<longleftrightarrow> 0 \<le> l16_count self \<and> l16_count self \<le> max_count self
     \<and> int (length (l16_items self)) = max_count self \<and> length (mitems self) = 4"

definition list16_abs :: "list16 \<Rightarrow> 16 word list" where
  "list16_abs self = take (nat (l16_count self)) (l16_items self)"

lemma l16_items_store [simp]: "l16_items (l16_store self xs) = xs"
  by (simp add: l16_items_def l16_store_def split: option.splits)

lemma l16_store_sel [simp]:
  "l16_count (l16_store self xs) = l16_count self" "max_count (l16_store self xs) = max_count self"
  by (simp_all add: l16_store_def split: option.splits)

lemma l16_items_count [simp]: "l16_items (self\<lparr>l16_count := n\<rparr>) = l16_items self"
  by (simp add: l16_items_def split: option.splits)

lemma l16_items_heap [simp]: "l16_items (self\<lparr>l16_heap := Some xs\<rparr>) = xs"
  by (simp add: l16_items_def)

lemma l16_store_mitems:
  "length (mitems self) = 4 \<Longrightarrow> length xs = length (l16_items self) \<Longrightarrow> length (mitems (l16_store self xs)) = 4"
  by (auto simp: l16_store_def l16_items_def split: option.splits)

lemma list16_abs_length: "list16_inv l \<Longrightarrow> int (length (list16_abs l)) = l16_count l"
  by (auto simp: list16_inv_def list16_abs_def)

lemma list16_init_law: "list16_inv list16_init" "list16_abs list16_init = []"
  by (simp_all add: list16_init_def list16_inv_def list16_abs_def l16_items_def)

lemma list16_clear_law: "list16_inv l \<Longrightarrow> list16_inv (list16_clear l) \<and> list16_abs (list16_clear l) = []"
  by (simp add: list16_clear_def list16_inv_def list16_abs_def l16_items_def)

lemma list16_store_split:
  assumes "list16_inv l"
  obtains spare where "l16_items l = list16_abs l @ spare" "int (length spare) = max_count l - l16_count l"
  using assms that [of "drop (nat (l16_count l)) (l16_items l)"]
  by (auto simp: list16_inv_def list16_abs_def of_nat_diff)

lemma list16_grow_eq:
  assumes "int (length (l16_items l)) = max_count l"
  shows "list16_grow l = Some (l\<lparr>max_count := max_count l + 4,
     l16_heap := Some (l16_items l @ replicate 4 0)\<rparr>)"
proof -
  have "nat (max_count l) = length (l16_items l)" using assms by linarith
  then show ?thesis using assms by (simp add: list16_grow_def arr_grow_def)
qed

lemma list16_store_item:
  assumes "list16_inv l" "l16_count l < max_count l"
  shows "wp (do { items \<leftarrow> arr_set (l16_items l) (l16_count l) x;
                  Some ((l16_store l items)\<lparr>l16_count := l16_count l + 1\<rparr>) })
     (\<lambda>l'. list16_inv l' \<and> list16_abs l' = list16_abs l @ [x])"
  using assms
  by (simp add: arr_set_def list16_inv_def list16_abs_def nat_add_distrib take_Suc_conv_app_nth
      nat_less_iff l16_store_mitems)

lemma list16_add_item_law:
  assumes inv: "list16_inv l"
  shows "wp (list16_add_item l x) (\<lambda>l'. list16_inv l' \<and> list16_abs l' = list16_abs l @ [x])"
proof (cases "l16_count l \<ge> max_count l")
  case True
  let ?g = "l\<lparr>max_count := max_count l + 4, l16_heap := Some (l16_items l @ replicate 4 0)\<rparr>"
  have "list16_grow l = Some ?g" using inv list16_grow_eq [of l] by (simp add: list16_inv_def)
  moreover have "list16_inv ?g" "list16_abs ?g = list16_abs l" "l16_count ?g < max_count ?g"
    using inv by (simp_all add: list16_inv_def list16_abs_def nat_le_iff)
  ultimately show ?thesis
    using True list16_store_item [of ?g x] by (simp add: list16_add_item_def)
next
  case False
  with inv list16_store_item [of l x] show ?thesis by (simp add: list16_add_item_def)
qed

lemma list16_remove_item_law:
  assumes inv: "list16_inv l" and i: "0 \<le> i" "i < l16_count l"
  shows "wp (list16_remove_item l i) (\<lambda>l'. list16_inv l'
     \<and> list16_abs l' = take (nat i) (list16_abs l) @ drop (Suc (nat i)) (list16_abs l))"
proof -
  note len = list16_abs_length [OF inv]
  obtain as y bs where ab: "list16_abs l = as @ y # bs" and la: "int (length as) = i"
    using abs_split_at [OF i(1)] i(2) len by metis
  obtain spare where st: "l16_items l = (as @ y # bs) @ spare" using list16_store_split [OF inv] ab by metis
  have lim: "l16_count l - 1 = int (length as) + int (length bs)" using len ab by simp
  have ni: "nat i = length as" using la by simp
  have c: "nat (int (length as) + int (length bs)) = length as + length bs" by simp
  have sh: "shift_down (as @ y # bs @ spare) i (int (length as) + int (length bs))
      = Some (as @ bs @ last (y # bs) # spare)"
    using shift_down_split [of as y bs spare] by (simp add: la [symmetric])
  show ?thesis
    using inv i st lim c sh
    by (simp add: list16_remove_item_def ni ab list16_inv_def l16_store_mitems) (simp add: list16_abs_def)
qed

lemma list16_insert_store:
  assumes "l16_items g = as @ bs @ z # zs" "l16_count g = int (length as) + int (length bs) + 1"
    and "int (length (l16_items g)) = max_count g" "length (mitems g) = 4"
  shows "wp (do { items \<leftarrow> shift_up (l16_items g) (l16_count g - 2) (int (length as));
                  items \<leftarrow> arr_set items (int (length as)) x;
                  Some (l16_store g items) })
     (\<lambda>l'. list16_inv l' \<and> list16_abs l' = as @ x # bs)"
proof -
  have lim: "l16_count g - 2 = int (length as) + int (length bs) - 1" using assms by simp
  have c: "nat (int (length as) + int (length bs) + 1) = length as + Suc (length bs)" by simp
  show ?thesis
    using assms shift_up_split [of as bs z zs] c
    by (simp add: lim arr_set_def list16_inv_def list16_abs_def l16_store_mitems)
qed

lemma list16_insert_item_law:
  assumes inv: "list16_inv l" and i: "0 \<le> i" "i \<le> l16_count l"
  shows "wp (list16_insert_item l i x) (\<lambda>l'. list16_inv l'
     \<and> list16_abs l' = take (nat i) (list16_abs l) @ x # drop (nat i) (list16_abs l))"
proof (cases "i = l16_count l")
  case True
  with list16_add_item_law [OF inv, of x] list16_abs_length [OF inv] show ?thesis
    by (auto simp: list16_insert_item_def elim!: wp_mono)
next
  case False
  note len = list16_abs_length [OF inv]
  define as where "as = take (nat i) (list16_abs l)"
  define bs where "bs = drop (nat i) (list16_abs l)"
  have ab: "list16_abs l = as @ bs" by (simp add: as_def bs_def)
  have la: "int (length as) = i" using i len by (simp add: as_def)
  let ?l = "l\<lparr>l16_count := l16_count l + 1\<rparr>"
  obtain spare where st: "l16_items l = (as @ bs) @ spare" "int (length spare) = max_count l - l16_count l"
    using list16_store_split [OF inv] ab by metis
  have c: "l16_count l = int (length as) + int (length bs)" using len ab by simp
  have "wp (list16_insert_item l i x) (\<lambda>l'. list16_inv l' \<and> list16_abs l' = as @ x # bs)"
  proof (cases "l16_count ?l > max_count ?l")
    case True
    let ?g = "?l\<lparr>max_count := max_count l + 4, l16_heap := Some (l16_items l @ replicate 4 0)\<rparr>"
    have grow: "list16_grow ?l = Some ?g"
      using list16_grow_eq [of ?l] inv by (simp add: list16_inv_def)
    have "int (length spare) \<le> 0" using st(2) True by simp
    then have sp: "spare = []" by simp
    then have items: "l16_items ?g = as @ bs @ 0 # replicate 3 0"
      using st by (simp add: numeral_eq_Suc)
    have run: "list16_insert_item l i x =
        do { items \<leftarrow> shift_up (l16_items ?g) (l16_count ?g - 2) (int (length as));
             items \<leftarrow> arr_set items (int (length as)) x;
             Some (l16_store ?g items) }"
      using grow True False i la by (simp add: list16_insert_item_def)
    show ?thesis unfolding run
      by (rule list16_insert_store [OF items]) (use c inv st sp in \<open>simp_all add: list16_inv_def\<close>)
  next
    case noroom: False
    then obtain z zs where "spare = z # zs" using st(2) by (cases spare) auto
    then show ?thesis
      using list16_insert_store [of ?l as bs z zs x] noroom False inv i st la c
      by (simp add: list16_insert_item_def list16_inv_def)
  qed
  then show ?thesis by (simp add: as_def bs_def)
qed

interpretation x16: indexed_list list16_inv list16_abs 0 list16_add_item list16_get_item
    list16_remove_item list16_insert_item list16_index_of
proof (unfold_locales, goal_cases)
  case (1 l x) then show ?case by (rule list16_add_item_law)
next
  case (2 l i)
  with list16_abs_length [OF 2] show ?case
    by (auto simp: list16_get_item_def arr_get_def list16_inv_def list16_abs_def)
next
  case (3 l i)
  show ?case
  proof (cases "0 \<le> i \<and> i < l16_count l")
    case True
    with list16_remove_item_law [OF 3, of i] list16_abs_length [OF 3] show ?thesis by auto
  next
    case False
    with 3 list16_abs_length [OF 3] show ?thesis by (auto simp: list16_remove_item_def)
  qed
next
  case (4 l i x)
  show ?case
  proof (cases "0 \<le> i \<and> i \<le> l16_count l")
    case True
    with list16_insert_item_law [OF 4, of i x] list16_abs_length [OF 4] show ?thesis by auto
  next
    case False
    with 4 list16_abs_length [OF 4] show ?thesis by (auto simp: list16_insert_item_def list16_inv_def)
  qed
next
  case (5 l x)
  obtain spare where "l16_items l = list16_abs l @ spare" using list16_store_split [OF 5] by blast
  with index_from_first_index [of "[]" "list16_abs l" spare x] list16_abs_length [OF 5]
  show ?case by (simp add: list16_index_of_def)
qed

subsection \<open>The properties\<close>

text \<open>C32. Whatever sequence of additions, insertions and removals (with any indices, in range or not) a
  client performs on a fresh \<open>struct list\<close>, no operation accesses memory outside the item array,
  and lookups and searches answer as on the abstract list.\<close>

theorem list_refines:
  fixes ops :: "'a option list_op list"
  shows "wp (run_ops list_add_item list_insert_item list_remove_item list_create ops)
     (\<lambda>l. let xs = foldl op_spec [] ops in xcount l = int (length xs)
       \<and> (\<forall>i. list_get_item l i = Some (if 0 \<le> i \<and> i < int (length xs) then xs ! nat i else None))
       \<and> (\<forall>x. list_index_of l x = Some (first_index xs x 0)))"
  using xl.run_law [OF list_create_law(1), of ops] unfolding list_create_law(2) Let_def
  by (rule wp_mono) (use list_abs_length xl.get_law xl.index_of_law in force)

text \<open>The same for \<open>struct list16\<close>, whose first four items live inside the structure and move
  to the heap when a fifth is added.\<close>

theorem list16_refines:
  "wp (run_ops list16_add_item list16_insert_item list16_remove_item list16_init ops)
     (\<lambda>l. let xs = foldl op_spec [] ops in l16_count l = int (length xs)
       \<and> (\<forall>i. list16_get_item l i = Some (if 0 \<le> i \<and> i < int (length xs) then xs ! nat i else 0))
       \<and> (\<forall>x. list16_index_of l x = Some (first_index xs x 0)))"
  using x16.run_law [OF list16_init_law(1), of ops] unfolding list16_init_law(2) Let_def
  by (rule wp_mono) (use list16_abs_length x16.get_law x16.index_of_law in force)

text \<open>A list with \<open>auto_free\<close> hands every item to \<open>g_free\<close> exactly once: what is removed is freed at
  its removal, and \<open>list_delete\<close> frees exactly what is left; without \<open>auto_free\<close> nothing is freed.\<close>

theorem list_frees_once:
  assumes "list_inv l" "0 \<le> i" "i < xcount l"
  shows "wp (do { l' \<leftarrow> list_remove_item l i; freed \<leftarrow> list_delete l'; Some freed })
     (\<lambda>freed. freed = xfreed l @ (if auto_free l then list_abs l ! nat i
        # take (nat i) (list_abs l) @ drop (Suc (nat i)) (list_abs l) else []))"
  unfolding wp_bind
  by (rule wp_mono [OF list_remove_item_law [OF assms]]) (simp add: list_delete_law)

theorem list_frees_once_witness:
  "wp (do { l' \<leftarrow> list_remove_item \<lparr>xitems = [Some 1, Some (2::nat), None], xcount = 2, alloc_size = 3, grow_by = 10,
        auto_free = True, xfreed = []\<rparr> 0; freed \<leftarrow> list_delete l'; Some freed }) (\<lambda>freed. freed = [Some 1, Some 2])"
  using list_frees_once [of "\<lparr>xitems = [Some 1, Some (2::nat), None], xcount = 2, alloc_size = 3, grow_by = 10,
        auto_free = True, xfreed = []\<rparr>" 0]
  by (simp add: list_inv_def list_abs_def)

end
