(* ===== verification/Fifos.thy ===== *)
theory Fifos
  imports Array_Lists
begin

text \<open>
  The two FIFO implementations of the program: the linked list of \<open>common/fifo.c\<close>, with
  its nodes in an explicit heap, and the ring buffer of \<open>sesman/chansrv/fifo.c\<close>, with its
  wrap-around and its growth. Both are shown to implement the contract \<open>fifo_queue\<close>.
\<close>

subsection \<open>The contract of a FIFO\<close>

text \<open>A sequence of calls and the values the removals return, on an abstract queue and on an
  implementation.\<close>

datatype 'a fifo_op = Op_Put 'a | Op_Take

fun fifo_spec :: "'a list \<Rightarrow> 'a fifo_op list \<Rightarrow> 'a option list \<times> 'a list" where
  "fifo_spec xs [] = ([], xs)"
| "fifo_spec xs (Op_Put x # ops) = fifo_spec (xs @ [x]) ops"
| "fifo_spec [] (Op_Take # ops) = (let (vs, ys) = fifo_spec [] ops in (None # vs, ys))"
| "fifo_spec (x # xs) (Op_Take # ops) = (let (vs, ys) = fifo_spec xs ops in (Some x # vs, ys))"

fun fifo_run :: "('q \<Rightarrow> 'a \<Rightarrow> (int \<times> 'q) option) \<Rightarrow> ('q \<Rightarrow> ('a option \<times> 'q) option) \<Rightarrow> 'q \<Rightarrow> 'a fifo_op list
    \<Rightarrow> ('a option list \<times> 'q) option" where
  "fifo_run put_op take_op q [] = Some ([], q)"
| "fifo_run put_op take_op q (Op_Put x # ops) =
     Option.bind (put_op q x) (\<lambda>(_, q). fifo_run put_op take_op q ops)"
| "fifo_run put_op take_op q (Op_Take # ops) =
     Option.bind (take_op q) (\<lambda>(v, q). Option.bind (fifo_run put_op take_op q ops) (\<lambda>(vs, q). Some (v # vs, q)))"

locale fifo_queue =
  fixes inv :: "'q \<Rightarrow> bool"
    and abs :: "'q \<Rightarrow> 'a list"
    and put :: "'q \<Rightarrow> 'a \<Rightarrow> (int \<times> 'q) option"
    and take_out :: "'q \<Rightarrow> ('a option \<times> 'q) option"
    and is_empty :: "'q \<Rightarrow> bool"
  assumes put_law: "inv q \<Longrightarrow> wp (put q x) (\<lambda>(r, q'). r = 0 \<and> inv q' \<and> abs q' = abs q @ [x])"
    and take_law: "inv q \<Longrightarrow> wp (take_out q) (\<lambda>(v, q'). inv q' \<and>
      (case abs q of [] \<Rightarrow> v = None \<and> abs q' = [] | x # xs \<Rightarrow> v = Some x \<and> abs q' = xs))"
    and empty_law: "inv q \<Longrightarrow> is_empty q \<longleftrightarrow> abs q = []"
begin

fun put_all :: "'q \<Rightarrow> 'a list \<Rightarrow> 'q option" where
  "put_all q [] = Some q"
| "put_all q (x # xs) = Option.bind (put q x) (\<lambda>(_, q). put_all q xs)"

fun take_n :: "'q \<Rightarrow> nat \<Rightarrow> ('a option list \<times> 'q) option" where
  "take_n q 0 = Some ([], q)"
| "take_n q (Suc n) = Option.bind (take_out q)
     (\<lambda>(v, q). Option.bind (take_n q n) (\<lambda>(vs, q). Some (v # vs, q)))"

lemma put_all_law: "inv q \<Longrightarrow> wp (put_all q xs) (\<lambda>q'. inv q' \<and> abs q' = abs q @ xs)"
proof (induction xs arbitrary: q)
  case (Cons x xs)
  show ?case
    unfolding put_all.simps
    by (rule wp_bindI [OF put_law [OF Cons.prems, of x]]) (use Cons.IH in \<open>fastforce simp: wp_exists\<close>)
qed simp

lemma take_n_law:
  "inv q \<Longrightarrow> n \<le> length (abs q) \<Longrightarrow>
     wp (take_n q n) (\<lambda>(vs, q'). inv q' \<and> vs = map Some (take n (abs q)) \<and> abs q' = drop n (abs q))"
proof (induction n arbitrary: q)
  case (Suc n)
  then obtain x xs where xs: "abs q = x # xs" by (cases "abs q") auto
  with take_law [OF Suc.prems(1)] obtain q' where q': "take_out q = Some (Some x, q')" "inv q'" "abs q' = xs"
    by (auto simp: wp_exists)
  with Suc.IH [of q'] Suc.prems xs show ?case by (auto simp: wp_exists)
qed simp

text \<open>Any sequence of calls returns what it returns on abstract queues.\<close>

lemma fifo_run_law:
  "inv q \<Longrightarrow> wp (fifo_run put take_out q ops)
     (\<lambda>(vs, q'). inv q' \<and> vs = fst (fifo_spec (abs q) ops) \<and> abs q' = snd (fifo_spec (abs q) ops))"
proof (induction ops arbitrary: q)
  case (Cons op ops)
  show ?case
  proof (cases op)
    case (Op_Put x)
    obtain r q1 where "put q x = Some (r, q1)" "inv q1" "abs q1 = abs q @ [x]"
      using put_law [OF Cons.prems, of x] by (auto simp: wp_exists)
    with Op_Put Cons.IH [of q1] show ?thesis by simp
  next
    case Op_Take
    obtain v q1 where q1: "take_out q = Some (v, q1)" "inv q1"
      "case abs q of [] \<Rightarrow> v = None \<and> abs q1 = [] | x # xs \<Rightarrow> v = Some x \<and> abs q1 = xs"
      using take_law [OF Cons.prems] by (auto simp: wp_exists)
    obtain vs q2 where "fifo_run put take_out q1 ops = Some (vs, q2)" "inv q2"
      "vs = fst (fifo_spec (abs q1) ops)" "abs q2 = snd (fifo_spec (abs q1) ops)"
      using Cons.IH [OF q1(2)] by (auto simp: wp_exists)
    with Op_Take q1 show ?thesis by (cases "abs q") (auto simp: split_beta)
  qed
qed simp

text \<open>First in, first out: what is put after the queue's contents comes out after them, in
  order, and nothing else does.\<close>

lemma fifo_order:
  assumes "inv q"
  shows "wp (Option.bind (put_all q xs) (\<lambda>q'. take_n q' (length (abs q) + length xs)))
     (\<lambda>(vs, q'). vs = map Some (abs q @ xs) \<and> is_empty q')"
proof (rule wp_bindI [OF put_all_law [OF assms]])
  fix q' assume q': "inv q' \<and> abs q' = abs q @ xs"
  with take_n_law [of q' "length (abs q) + length xs"]
  show "wp (take_n q' (length (abs q) + length xs)) (\<lambda>(vs, q'). vs = map Some (abs q @ xs) \<and> is_empty q')"
    by (auto simp: wp_exists empty_law)
qed

end

subsection \<open>sesman/chansrv/fifo.c: the ring buffer\<close>

text \<open>An entry is a \<open>long\<close> that holds a pointer; \<open>None\<close> is 0. The model's
  \<open>user_data\<close> is the array, empty when the C pointer is 0.\<close>

record 'a ring_fifo =
  user_data :: "'a option list"
  rd_ptr :: int
  wr_ptr :: int
  entries :: int

text \<open>\<open>mem_ok\<close>: whether \<open>g_malloc\<close> succeeds.\<close>

definition ring_init :: "bool \<Rightarrow> 'a ring_fifo \<Rightarrow> int \<Rightarrow> int \<times> 'a ring_fifo" where
  "ring_init mem_ok fp num_entries =
     (let n = (if num_entries < 1 then 10 else num_entries)
      in if mem_ok
         then (0, fp\<lparr>rd_ptr := 0, wr_ptr := 0, user_data := replicate (nat n) None, entries := n\<rparr>)
         else (-1, fp\<lparr>rd_ptr := 0, wr_ptr := 0, user_data := [], entries := 0\<rparr>))"

definition ring_deinit :: "'a ring_fifo \<Rightarrow> int \<times> 'a ring_fifo" where
  "ring_deinit fp = (0, fp\<lparr>user_data := [], rd_ptr := 0, wr_ptr := 0, entries := 0\<rparr>)"

definition ring_is_empty :: "'a ring_fifo \<Rightarrow> bool" where
  "ring_is_empty fp \<longleftrightarrow> rd_ptr fp = wr_ptr fp"

text \<open>\<open>for (i = 0; i < entries - 1; i++) { lp[i] = user_data[rd_ptr++];
  if (rd_ptr >= entries) rd_ptr = 0; }\<close>\<close>

function ring_copy :: "'a ring_fifo \<Rightarrow> 'a option list \<Rightarrow> int \<Rightarrow> ('a option list \<times> 'a ring_fifo) option" where
  "ring_copy fp lp i =
     (if i < entries fp - 1 then do {
        v \<leftarrow> arr_get (user_data fp) (rd_ptr fp);
        lp \<leftarrow> arr_set lp i v;
        ring_copy (fp\<lparr>rd_ptr := (if rd_ptr fp + 1 \<ge> entries fp then 0 else rd_ptr fp + 1)\<rparr>) lp (i + 1) }
      else Some (lp, fp))"
  by pat_completeness auto
termination
  by (relation "measure (\<lambda>(fp, lp, i). nat (entries fp - 1 - i))") auto

declare ring_copy.simps [simp del]

definition ring_insert :: "bool \<Rightarrow> 'a ring_fifo \<Rightarrow> 'a option \<Rightarrow> (int \<times> 'a ring_fifo) option" where
  "ring_insert mem_ok fp data =
     (let next_val = (if wr_ptr fp + 1 \<ge> entries fp then 0 else wr_ptr fp + 1)
      in if next_val = rd_ptr fp
         then (if \<not> mem_ok then Some (-1, fp)
               else do {
                 (lp, fp) \<leftarrow> ring_copy fp (replicate (nat (entries fp + 10)) None) 0;
                 fp \<leftarrow> Some (fp\<lparr>rd_ptr := 0, wr_ptr := entries fp - 1, entries := entries fp + 10,
                              user_data := lp\<rparr>);
                 items \<leftarrow> arr_set (user_data fp) (wr_ptr fp) data;
                 Some (0, fp\<lparr>user_data := items, wr_ptr := entries fp - 10\<rparr>) })
         else do {
                 items \<leftarrow> arr_set (user_data fp) (wr_ptr fp) data;
                 Some (0, fp\<lparr>user_data := items, wr_ptr := next_val\<rparr>) })"

definition ring_remove :: "'a ring_fifo \<Rightarrow> ('a option \<times> 'a ring_fifo) option" where
  "ring_remove fp =
     (if rd_ptr fp = wr_ptr fp then Some (None, fp)
      else do {
        data \<leftarrow> arr_get (user_data fp) (rd_ptr fp);
        Some (data, fp\<lparr>rd_ptr := (if rd_ptr fp + 1 \<ge> entries fp then 0 else rd_ptr fp + 1)\<rparr>) })"

definition ring_peek :: "'a ring_fifo \<Rightarrow> 'a option option" where
  "ring_peek fp = (if rd_ptr fp = wr_ptr fp then Some None else arr_get (user_data fp) (rd_ptr fp))"

definition ring_len :: "'a ring_fifo \<Rightarrow> nat" where
  "ring_len fp = nat ((wr_ptr fp - rd_ptr fp) mod entries fp)"

definition ring_cells :: "'a ring_fifo \<Rightarrow> 'a option list" where
  "ring_cells fp = take (ring_len fp) (rotate (nat (rd_ptr fp)) (user_data fp))"

definition ring_abs :: "'a ring_fifo \<Rightarrow> 'a list" where
  "ring_abs fp = map the (ring_cells fp)"

definition ring_wf :: "'a ring_fifo \<Rightarrow> bool" where
  "ring_wf fp \<longleftrightarrow> 0 \<le> rd_ptr fp \<and> rd_ptr fp < entries fp \<and> 0 \<le> wr_ptr fp \<and> wr_ptr fp < entries fp
     \<and> int (length (user_data fp)) = entries fp"

definition ring_inv :: "'a ring_fifo \<Rightarrow> bool" where
  "ring_inv fp \<longleftrightarrow> ring_wf fp \<and> None \<notin> set (ring_cells fp)"

lemma ring_init_law:
  assumes "ring_init True fp n = (r, fp')"
  shows "r = 0 \<and> ring_inv fp' \<and> ring_cells fp' = []"
  using assms by (auto simp: ring_init_def Let_def ring_inv_def ring_wf_def ring_cells_def ring_len_def)

lemma ring_cells_nth:
  assumes "ring_wf fp" "k < ring_len fp"
  shows "ring_cells fp ! k = user_data fp ! nat ((rd_ptr fp + int k) mod entries fp)"
proof -
  have len: "length (user_data fp) = nat (entries fp)" using assms by (auto simp: ring_wf_def)
  have lt: "k < length (user_data fp)"
  proof -
    have "(wr_ptr fp - rd_ptr fp) mod entries fp < entries fp" using assms by (simp add: ring_wf_def)
    with assms(2) len show ?thesis by (simp add: ring_len_def)
  qed
  have "ring_cells fp ! k = user_data fp ! ((nat (rd_ptr fp) + k) mod length (user_data fp))"
    using lt assms by (simp add: ring_cells_def nth_rotate)
  also have "(nat (rd_ptr fp) + k) mod length (user_data fp) = nat ((rd_ptr fp + int k) mod entries fp)"
    using assms len by (simp add: ring_wf_def nat_mod_distrib nat_add_distrib)
  finally show ?thesis .
qed

lemma ring_len_less: "ring_wf fp \<Longrightarrow> ring_len fp < length (user_data fp)"
  by (auto simp: ring_wf_def ring_len_def nat_less_iff)

lemma ring_cells_length: "ring_wf fp \<Longrightarrow> length (ring_cells fp) = ring_len fp"
  using ring_len_less [of fp] by (simp add: ring_cells_def)

definition ring_succ :: "'a ring_fifo \<Rightarrow> int \<Rightarrow> int" where
  "ring_succ fp i = (if i + 1 \<ge> entries fp then 0 else i + 1)"

lemma ring_len_cases:
  assumes "ring_wf fp"
  shows "int (ring_len fp) = (if rd_ptr fp \<le> wr_ptr fp then wr_ptr fp - rd_ptr fp
     else wr_ptr fp - rd_ptr fp + entries fp)"
proof (cases "rd_ptr fp \<le> wr_ptr fp")
  case False
  have "(wr_ptr fp - rd_ptr fp) mod entries fp = (wr_ptr fp - rd_ptr fp + entries fp) mod entries fp" by simp
  also have "\<dots> = wr_ptr fp - rd_ptr fp + entries fp"
    using assms False by (intro mod_pos_pos_trivial) (auto simp: ring_wf_def)
  finally show ?thesis using assms False by (simp add: ring_len_def ring_wf_def)
qed (use assms in \<open>auto simp: ring_len_def ring_wf_def mod_pos_pos_trivial\<close>)

lemma ring_index_cases:
  fixes i k e :: int
  assumes "0 \<le> i" "i < e" "0 \<le> k" "k \<le> e"
  shows "(i + k) mod e = (if i + k < e then i + k else i + k - e)"
proof (cases "i + k < e")
  case False
  have "(i + k) mod e = (i + k - e) mod e" by simp
  also have "\<dots> = i + k - e" using assms False by (intro mod_pos_pos_trivial) auto
  finally show ?thesis using False by simp
qed (use assms in \<open>simp add: mod_pos_pos_trivial\<close>)

text \<open>Room left: one slot is filled and the write pointer moves on.\<close>

lemma ring_store:
  fixes fp :: "'a ring_fifo" and x :: "'a option"
  assumes wf: "ring_wf fp" and free: "ring_succ fp (wr_ptr fp) \<noteq> rd_ptr fp"
  defines "fp' \<equiv> fp\<lparr>user_data := (user_data fp)[nat (wr_ptr fp) := x], wr_ptr := ring_succ fp (wr_ptr fp)\<rparr>"
  shows "ring_wf fp' \<and> ring_cells fp' = ring_cells fp @ [x]"
proof -
  have wf': "ring_wf fp'" using wf by (auto simp: ring_wf_def fp'_def ring_succ_def)
  have sel: "entries fp' = entries fp" "rd_ptr fp' = rd_ptr fp" by (simp_all add: fp'_def)
  have len: "int (ring_len fp') = int (ring_len fp) + 1"
    unfolding ring_len_cases [OF wf'] ring_len_cases [OF wf] sel
    using wf free by (auto simp: fp'_def ring_succ_def ring_wf_def)
  have "ring_cells fp' = ring_cells fp @ [x]"
  proof (rule nth_equalityI)
    show "length (ring_cells fp') = length (ring_cells fp @ [x])"
      using len by (simp add: ring_cells_length wf wf')
    fix k assume "k < length (ring_cells fp')"
    with len have k: "k < ring_len fp'" "int k \<le> int (ring_len fp)"
      by (simp_all add: ring_cells_length wf')
    have bound: "int (ring_len fp) < entries fp"
      unfolding ring_len_cases [OF wf] using wf by (auto simp: ring_wf_def)
    have idx: "(rd_ptr fp + int k) mod entries fp
        = (if rd_ptr fp + int k < entries fp then rd_ptr fp + int k else rd_ptr fp + int k - entries fp)"
      using wf k bound by (intro ring_index_cases) (auto simp: ring_wf_def)
    have at: "ring_cells fp' ! k = user_data fp' ! nat ((rd_ptr fp + int k) mod entries fp)"
      using ring_cells_nth [OF wf' k(1)] by (simp add: sel)
    show "ring_cells fp' ! k = (ring_cells fp @ [x]) ! k"
    proof (cases "k < ring_len fp")
      case True
      have ne: "(rd_ptr fp + int k) mod entries fp \<noteq> wr_ptr fp"
        using True ring_len_cases [OF wf] wf unfolding idx ring_wf_def by (auto split: if_splits)
      have ge: "0 \<le> (rd_ptr fp + int k) mod entries fp" using wf by (simp add: ring_wf_def)
      from ne ge wf have "nat ((rd_ptr fp + int k) mod entries fp) \<noteq> nat (wr_ptr fp)"
        by (simp add: nat_eq_iff2 ring_wf_def)
      with at True wf show ?thesis
        by (simp add: nth_append ring_cells_length ring_cells_nth fp'_def)
    next
      case False
      with k len have kl: "k = ring_len fp" by simp
      have "(rd_ptr fp + int k) mod entries fp = wr_ptr fp"
        using ring_len_cases [OF wf] wf unfolding idx ring_wf_def kl by (auto split: if_splits)
      with at kl wf show ?thesis
        by (simp add: nth_append ring_cells_length fp'_def ring_wf_def nat_less_iff)
    qed
  qed
  with wf' show ?thesis by simp
qed

lemma ring_copy_law:
  assumes "0 \<le> rd_ptr fp" "rd_ptr fp < entries fp" "int (length (user_data fp)) = entries fp"
    and "int (length lp) = entries fp + 10" "0 \<le> i" "i \<le> entries fp - 1"
  shows "wp (ring_copy fp lp i) (\<lambda>(lp', fp'). entries fp' = entries fp \<and> length lp' = length lp
     \<and> (\<forall>j < nat (entries fp - 1). lp' ! j =
          (if int j < i then lp ! j else user_data fp ! nat ((rd_ptr fp + (int j - i)) mod entries fp))))"
  using assms
proof (induction fp lp i rule: ring_copy.induct)
  case (1 fp lp i)
  show ?case
  proof (cases "i < entries fp - 1")
    case False
    with "1.prems" show ?thesis by (subst ring_copy.simps) auto
  next
    case True
    let ?v = "user_data fp ! nat (rd_ptr fp)"
    let ?fp = "fp\<lparr>rd_ptr := (if rd_ptr fp + 1 \<ge> entries fp then 0 else rd_ptr fp + 1)\<rparr>"
    have get: "arr_get (user_data fp) (rd_ptr fp) = Some ?v"
      and set: "arr_set lp i ?v = Some (lp[nat i := ?v])"
      using "1.prems" True by (auto simp: arr_get_def arr_set_def)
    have "wp (ring_copy ?fp (lp[nat i := ?v]) (i + 1)) (\<lambda>(lp', fp'). entries fp' = entries ?fp
        \<and> length lp' = length (lp[nat i := ?v]) \<and> (\<forall>j < nat (entries ?fp - 1). lp' ! j =
          (if int j < i + 1 then lp[nat i := ?v] ! j
           else user_data ?fp ! nat ((rd_ptr ?fp + (int j - (i + 1))) mod entries ?fp))))"
      by (rule "1.IH" [OF True get set]) (use "1.prems" True in auto)
    moreover have "(rd_ptr ?fp + (int j - (i + 1))) mod entries fp = (rd_ptr fp + (int j - i)) mod entries fp" for j
    proof (cases "rd_ptr fp + 1 \<ge> entries fp")
      case wrap: True
      with "1.prems" have eq: "rd_ptr fp + (int j - i) = (int j - (i + 1)) + entries fp" by simp
      show ?thesis unfolding eq using wrap by simp
    qed (simp add: algebra_simps)
    moreover have "lp[nat i := ?v] ! j = (if int j < i then lp ! j
        else user_data fp ! nat ((rd_ptr fp + (int j - i)) mod entries fp))"
      if "j < nat (entries fp - 1)" "int j < i + 1" for j
    proof (cases "int j = i")
      case eq: True
      then have "j = nat i" by simp
      then show ?thesis using eq "1.prems" True by (simp add: nat_less_iff mod_pos_pos_trivial)
    next
      case ne: False
      with that have "int j < i" by simp
      moreover from this have "j \<noteq> nat i" by simp
      ultimately show ?thesis by simp
    qed
    ultimately show ?thesis
      using True get set by (subst ring_copy.simps) (auto elim!: wp_mono)
  qed
qed

lemma ring_insert_free:
  assumes wf: "ring_wf fp" and free: "ring_succ fp (wr_ptr fp) \<noteq> rd_ptr fp"
  shows "wp (ring_insert m fp x) (\<lambda>(r, fp'). r = 0 \<and> ring_wf fp' \<and> ring_cells fp' = ring_cells fp @ [x])"
proof -
  have "arr_set (user_data fp) (wr_ptr fp) x = Some ((user_data fp)[nat (wr_ptr fp) := x])"
    using wf by (simp add: arr_set_def ring_wf_def)
  with ring_store [OF wf free, of x] free show ?thesis
    by (simp add: ring_insert_def Let_def ring_succ_def)
qed

text \<open>A full ring is copied to the front of a larger array, then the item is stored.\<close>

lemma ring_insert_full:
  assumes wf: "ring_wf fp" and full: "ring_succ fp (wr_ptr fp) = rd_ptr fp"
  shows "wp (ring_insert True fp x) (\<lambda>(r, fp'). r = 0 \<and> ring_wf fp' \<and> ring_cells fp' = ring_cells fp @ [x])"
proof -
  let ?e = "entries fp"
  have e: "0 < ?e" using wf by (simp add: ring_wf_def)
  have "wp (ring_copy fp (replicate (nat (?e + 10)) None) 0) (\<lambda>(lp', fp'). entries fp' = ?e
      \<and> length lp' = length (replicate (nat (?e + 10)) (None :: 'a option))
      \<and> (\<forall>j < nat (?e - 1). lp' ! j = (if int j < 0 then replicate (nat (?e + 10)) None ! j
          else user_data fp ! nat ((rd_ptr fp + (int j - 0)) mod ?e))))"
    by (rule ring_copy_law) (use wf in \<open>auto simp: ring_wf_def\<close>)
  then obtain lp g where cp: "ring_copy fp (replicate (nat (?e + 10)) None) 0 = Some (lp, g)"
    and g: "entries g = ?e" and ll: "length lp = nat (?e + 10)"
    and lp: "\<forall>j < nat (?e - 1). lp ! j = user_data fp ! nat ((rd_ptr fp + int j) mod ?e)"
    by (auto simp: wp_exists)
  have len: "int (ring_len fp) = ?e - 1"
    unfolding ring_len_cases [OF wf] using wf full by (auto simp: ring_succ_def ring_wf_def split: if_splits)
  let ?h = "g\<lparr>rd_ptr := 0, wr_ptr := ?e - 1, entries := ?e + 10, user_data := lp\<rparr>"
  have wfh: "ring_wf ?h" using e ll by (simp add: ring_wf_def)
  have lenh: "ring_len ?h = ring_len fp"
    using ring_len_cases [OF wfh] len e by simp
  have "ring_cells ?h = ring_cells fp"
  proof (rule nth_equalityI)
    show "length (ring_cells ?h) = length (ring_cells fp)"
      using lenh by (simp add: ring_cells_length wf wfh)
    fix k assume "k < length (ring_cells ?h)"
    then have k: "k < ring_len fp" by (simp add: ring_cells_length wfh lenh)
    with len have "k < nat (?e - 1)" by simp
    with lp k wf wfh lenh show "ring_cells ?h ! k = ring_cells fp ! k"
      by (simp add: ring_cells_nth mod_pos_pos_trivial)
  qed
  moreover have "ring_succ ?h (wr_ptr ?h) \<noteq> rd_ptr ?h" "ring_succ ?h (wr_ptr ?h) = ?e"
    using e by (simp_all add: ring_succ_def)
  moreover have "ring_insert True fp x = Some (0, ?h\<lparr>user_data := lp[nat (?e - 1) := x], wr_ptr := ?e\<rparr>)"
    using full cp g e ll by (simp add: ring_insert_def Let_def ring_succ_def arr_set_def)
  ultimately show ?thesis using ring_store [OF wfh, of x] by simp
qed

lemma ring_insert_nomem:
  "ring_succ fp (wr_ptr fp) = rd_ptr fp \<Longrightarrow> ring_insert False fp x = Some (-1, fp)"
  by (simp add: ring_insert_def Let_def ring_succ_def)

lemma ring_insert_law:
  assumes "ring_wf fp"
  shows "wp (ring_insert True fp x) (\<lambda>(r, fp'). r = 0 \<and> ring_wf fp' \<and> ring_cells fp' = ring_cells fp @ [x])"
  using assms ring_insert_free [of fp True x] ring_insert_full [of fp x]
  by (cases "ring_succ fp (wr_ptr fp) = rd_ptr fp") simp_all

lemma ring_empty_iff: "ring_wf fp \<Longrightarrow> ring_is_empty fp \<longleftrightarrow> ring_cells fp = []"
  using ring_len_cases [of fp] ring_cells_length [of fp]
  by (auto simp: ring_is_empty_def ring_wf_def split: if_splits)

lemma ring_remove_empty: "ring_wf fp \<Longrightarrow> ring_cells fp = [] \<Longrightarrow> ring_remove fp = Some (None, fp)"
  using ring_empty_iff [of fp] by (simp add: ring_remove_def ring_is_empty_def)

lemma ring_remove_law:
  assumes wf: "ring_wf fp" and ne: "ring_cells fp = x # xs"
  shows "ring_peek fp = Some x \<and>
     wp (ring_remove fp) (\<lambda>(v, fp'). v = x \<and> ring_wf fp' \<and> ring_cells fp' = xs)"
proof -
  let ?fp = "fp\<lparr>rd_ptr := ring_succ fp (rd_ptr fp)\<rparr>"
  have neq: "rd_ptr fp \<noteq> wr_ptr fp" using ring_empty_iff [OF wf] ne by (simp add: ring_is_empty_def)
  have wf': "ring_wf ?fp" using wf by (auto simp: ring_wf_def ring_succ_def)
  have lx: "length (x # xs) = ring_len fp" using ring_cells_length [OF wf] ne by simp
  have len: "int (ring_len fp) = int (ring_len ?fp) + 1"
    unfolding ring_len_cases [OF wf'] ring_len_cases [OF wf]
    using wf neq by (auto simp: ring_succ_def ring_wf_def)
  have x: "x = user_data fp ! nat (rd_ptr fp)"
    using ring_cells_nth [OF wf, of 0] lx ne wf by (simp add: ring_wf_def mod_pos_pos_trivial)
  have get: "arr_get (user_data fp) (rd_ptr fp) = Some x"
    using wf x by (simp add: arr_get_def ring_wf_def)
  have "ring_cells ?fp = xs"
  proof (rule nth_equalityI)
    show "length (ring_cells ?fp) = length xs" using len lx by (simp add: ring_cells_length wf')
    fix k assume "k < length (ring_cells ?fp)"
    then have k: "k < ring_len ?fp" "Suc k < ring_len fp" using len by (simp_all add: ring_cells_length wf')
    have "(ring_succ fp (rd_ptr fp) + int k) mod entries fp = (rd_ptr fp + int (Suc k)) mod entries fp"
    proof (cases "rd_ptr fp + 1 \<ge> entries fp")
      case True
      with wf have eq: "rd_ptr fp + int (Suc k) = int k + entries fp" by (simp add: ring_wf_def)
      show ?thesis unfolding eq using True by (simp add: ring_succ_def)
    qed (simp add: ring_succ_def algebra_simps)
    then have "ring_cells ?fp ! k = ring_cells fp ! Suc k"
      using ring_cells_nth [OF wf' k(1)] ring_cells_nth [OF wf k(2)] by simp
    then show "ring_cells ?fp ! k = xs ! k" using ne by simp
  qed
  with wf' neq get show ?thesis
    by (simp add: ring_remove_def ring_peek_def ring_succ_def)
qed

interpretation ring: fifo_queue ring_inv ring_abs "\<lambda>fp x. ring_insert True fp (Some x)" ring_remove ring_is_empty
proof (unfold_locales, goal_cases)
  case (1 q x)
  then show ?case using ring_insert_law [of q "Some x"]
    by (auto simp: ring_inv_def ring_abs_def elim!: wp_mono)
next
  case (2 q)
  show ?case
  proof (cases "ring_cells q")
    case Nil
    with 2 ring_remove_empty [of q] show ?thesis by (simp add: ring_inv_def ring_abs_def)
  next
    case (Cons x xs)
    with 2 ring_remove_law [of q x xs] show ?thesis
      by (auto simp: ring_inv_def ring_abs_def elim!: wp_mono)
  qed
next
  case (3 q)
  then show ?case using ring_empty_iff [of q] by (simp add: ring_inv_def ring_abs_def)
qed

subsection \<open>common/fifo.c: the linked list\<close>

text \<open>
  A \<open>USER_DATA\<close> node, and the heap of nodes. \<open>lf_brk\<close> is the allocator: the
  address the next \<open>g_malloc\<close> returns, or a failure when \<open>lf_oom\<close>. \<open>lf_freed\<close>
  records the items handed to \<open>g_free\<close>. Following a pointer that is not in the heap is a
  fault.
\<close>

record 'a user_data_node =
  nd_next :: "nat option"
  nd_item :: 'a

record 'a linked_fifo =
  lf_head :: "nat option"
  lf_tail :: "nat option"
  lf_auto_free :: bool
  lf_heap :: "nat \<Rightarrow> 'a user_data_node option"
  lf_brk :: nat
  lf_oom :: bool
  lf_freed :: "'a list"

definition fifo_create :: "'a linked_fifo" where
  "fifo_create = \<lparr>lf_head = None, lf_tail = None, lf_auto_free = False, lf_heap = (\<lambda>_. None),
     lf_brk = 0, lf_oom = False, lf_freed = []\<rparr>"

definition lf_free_node :: "'a linked_fifo \<Rightarrow> nat \<Rightarrow> 'a linked_fifo option" where
  "lf_free_node self a = (case lf_heap self a of None \<Rightarrow> None
     | Some _ \<Rightarrow> Some (self\<lparr>lf_heap := (lf_heap self)(a := None)\<rparr>))"

definition lf_free_item :: "'a linked_fifo \<Rightarrow> nat \<Rightarrow> 'a linked_fifo option" where
  "lf_free_item self a = (case lf_heap self a of None \<Rightarrow> None
     | Some nd \<Rightarrow> Some (if lf_auto_free self then self\<lparr>lf_freed := lf_freed self @ [nd_item nd]\<rparr> else self))"

text \<open>The loop of \<open>fifo_delete\<close>; the fuel is spent once per node.\<close>

fun fifo_delete_loop :: "nat \<Rightarrow> 'a linked_fifo \<Rightarrow> 'a linked_fifo option" where
  "fifo_delete_loop 0 self = (case lf_head self of None \<Rightarrow> Some self | Some _ \<Rightarrow> None)"
| "fifo_delete_loop (Suc n) self = (case lf_head self of
     None \<Rightarrow> Some self
   | Some udp \<Rightarrow> do {
       nd \<leftarrow> lf_heap self udp;
       self \<leftarrow> lf_free_item self udp;
       self \<leftarrow> lf_free_node (self\<lparr>lf_head := nd_next nd\<rparr>) udp;
       fifo_delete_loop n self })"

definition fifo_delete :: "'a linked_fifo \<Rightarrow> 'a linked_fifo option" where
  "fifo_delete self = (case lf_head self of
     None \<Rightarrow> Some self
   | Some h \<Rightarrow>
       if lf_head self = lf_tail self
       then do { self \<leftarrow> lf_free_item self h; lf_free_node self h }
       else fifo_delete_loop (lf_brk self) self)"

definition fifo_add_item :: "'a linked_fifo \<Rightarrow> 'a option \<Rightarrow> (int \<times> 'a linked_fifo) option" where
  "fifo_add_item self item = (case item of
     None \<Rightarrow> Some (-1, self)
   | Some x \<Rightarrow>
       if lf_oom self then Some (-1, self)
       else (let udp = lf_brk self;
                 self = self\<lparr>lf_heap := (lf_heap self)(udp \<mapsto> \<lparr>nd_next = None, nd_item = x\<rparr>), lf_brk := Suc udp\<rparr>
             in case lf_head self of
                  None \<Rightarrow> Some (0, self\<lparr>lf_head := Some udp, lf_tail := Some udp\<rparr>)
                | Some _ \<Rightarrow> do {
                    t \<leftarrow> lf_tail self;
                    nd \<leftarrow> lf_heap self t;
                    Some (0, self\<lparr>lf_heap := (lf_heap self)(t \<mapsto> nd\<lparr>nd_next := Some udp\<rparr>),
                                  lf_tail := Some udp\<rparr>) }))"

definition fifo_remove_item :: "'a linked_fifo \<Rightarrow> ('a option \<times> 'a linked_fifo) option" where
  "fifo_remove_item self = (case lf_head self of
     None \<Rightarrow> Some (None, self)
   | Some h \<Rightarrow>
       if lf_head self = lf_tail self
       then do {
         nd \<leftarrow> lf_heap self h;
         self \<leftarrow> lf_free_node self h;
         Some (Some (nd_item nd), self\<lparr>lf_head := None, lf_tail := None\<rparr>) }
       else do {
         nd \<leftarrow> lf_heap self h;
         self \<leftarrow> lf_free_node (self\<lparr>lf_head := nd_next nd\<rparr>) h;
         Some (Some (nd_item nd), self) })"

definition fifo_is_empty :: "'a linked_fifo \<Rightarrow> bool" where
  "fifo_is_empty self \<longleftrightarrow> lf_head self = None"

text \<open>\<open>chain h p as xs\<close>: following \<open>next\<close> from \<open>p\<close> visits the nodes
  \<open>as\<close> holding \<open>xs\<close> and ends at 0.\<close>

fun chain :: "(nat \<Rightarrow> 'a user_data_node option) \<Rightarrow> nat option \<Rightarrow> nat list \<Rightarrow> 'a list \<Rightarrow> bool" where
  "chain h p [] [] \<longleftrightarrow> p = None"
| "chain h p (a # as) (x # xs) \<longleftrightarrow> p = Some a \<and> (\<exists>n. h a = Some \<lparr>nd_next = n, nd_item = x\<rparr> \<and> chain h n as xs)"
| "chain h p _ _ \<longleftrightarrow> False"

fun walk :: "nat \<Rightarrow> (nat \<Rightarrow> 'a user_data_node option) \<Rightarrow> nat option \<Rightarrow> 'a list" where
  "walk 0 h p = []"
| "walk (Suc n) h p = (case p of None \<Rightarrow> [] | Some a \<Rightarrow>
     (case h a of None \<Rightarrow> [] | Some nd \<Rightarrow> nd_item nd # walk n h (nd_next nd)))"

definition linked_abs :: "'a linked_fifo \<Rightarrow> 'a list" where
  "linked_abs q = walk (lf_brk q) (lf_heap q) (lf_head q)"

definition linked_rep :: "'a linked_fifo \<Rightarrow> nat list \<Rightarrow> 'a list \<Rightarrow> bool" where
  "linked_rep q as xs \<longleftrightarrow> chain (lf_heap q) (lf_head q) as xs \<and> distinct as
     \<and> (\<forall>a \<in> set as. a < lf_brk q) \<and> (as \<noteq> [] \<longrightarrow> lf_tail q = Some (last as))"

definition linked_inv :: "'a linked_fifo \<Rightarrow> bool" where
  "linked_inv q \<longleftrightarrow> (\<exists>as xs. linked_rep q as xs) \<and> \<not> lf_oom q"

lemma walk_None [simp]: "walk n h None = []"
  by (cases n) simp_all

lemma chain_walk: "chain h p as xs \<Longrightarrow> length as \<le> n \<Longrightarrow> walk n h p = xs"
proof (induction h p as xs arbitrary: n rule: chain.induct)
  case (2 h p a as x xs)
  then show ?case by (cases n) auto
qed simp_all

lemma linked_rep_abs: "linked_rep q as xs \<Longrightarrow> linked_abs q = xs"
proof -
  assume rep: "linked_rep q as xs"
  then have "card (set as) \<le> card {..<lf_brk q}" by (intro card_mono) (auto simp: linked_rep_def)
  with rep have "length as \<le> lf_brk q" by (simp add: linked_rep_def distinct_card)
  with rep show ?thesis by (auto simp: linked_rep_def linked_abs_def intro: chain_walk)
qed

lemma chain_cong: "chain h p as xs \<Longrightarrow> (\<And>a. a \<in> set as \<Longrightarrow> h' a = h a) \<Longrightarrow> chain h' p as xs"
  by (induction h p as xs rule: chain.induct) auto

lemma chain_length: "chain h p as xs \<Longrightarrow> length as = length xs"
  by (induction h p as xs rule: chain.induct) auto

lemma chain_nodes: "chain h p as xs \<Longrightarrow> a \<in> set as \<Longrightarrow> \<exists>nd. h a = Some nd"
  by (induction h p as xs rule: chain.induct) auto

text \<open>Linking a new last node behind the old one.\<close>

lemma chain_snoc:
  fixes h :: "nat \<Rightarrow> 'a user_data_node option" and x :: 'a
  assumes "chain h p (as @ [t]) xs" "distinct (as @ [t])" "u \<notin> set (as @ [t])" "h t = Some nd"
  defines "h' \<equiv> h(u \<mapsto> \<lparr>nd_next = None, nd_item = x\<rparr>, t \<mapsto> nd\<lparr>nd_next := Some u\<rparr>)"
  shows "chain h' p (as @ [t, u]) (xs @ [x])"
  using assms(1-3)
proof (induction as arbitrary: p xs)
  case Nil
  then obtain y ys where "xs = y # ys" by (cases xs) auto
  with Nil have y: "xs = [y]" "h t = Some \<lparr>nd_next = None, nd_item = y\<rparr>" "p = Some t"
    by (cases ys; simp)+
  with assms(4) have "nd = \<lparr>nd_next = None, nd_item = y\<rparr>" by simp
  with y Nil show ?case by (simp add: h'_def)
next
  case (Cons a as)
  then obtain y ys where xs: "xs = y # ys" by (cases xs) auto
  with Cons.prems obtain n where n: "p = Some a" "h a = Some \<lparr>nd_next = n, nd_item = y\<rparr>" "chain h n (as @ [t]) ys"
    by auto
  moreover have "h' a = h a" using Cons.prems by (auto simp: h'_def)
  moreover have "chain h' n (as @ [t, u]) (ys @ [x])" using Cons.IH [of n ys] Cons.prems n by simp
  ultimately show ?case using xs by simp
qed

lemma linked_rep_add:
  assumes rep: "linked_rep q as xs" and mem: "\<not> lf_oom q"
  shows "wp (fifo_add_item q (Some x)) (\<lambda>(r, q'). r = 0 \<and> linked_rep q' (as @ [lf_brk q]) (xs @ [x])
     \<and> \<not> lf_oom q')"
proof (cases as rule: rev_cases)
  case Nil
  with rep have "xs = []" "lf_head q = None" by (auto simp: linked_rep_def elim: chain.elims)
  with Nil mem show ?thesis by (simp add: fifo_add_item_def linked_rep_def Let_def)
next
  case (snoc bs t)
  from rep snoc have ch: "chain (lf_heap q) (lf_head q) (bs @ [t]) xs" and d: "distinct (bs @ [t])"
    and lt: "\<forall>a \<in> set (bs @ [t]). a < lf_brk q" and tl: "lf_tail q = Some t"
    by (auto simp: linked_rep_def)
  from ch obtain hd where hd: "lf_head q = Some hd" by (cases bs; cases xs) auto
  have "\<exists>nd. lf_heap q t = Some nd" using chain_nodes [OF ch] by simp
  then obtain nd where nd: "lf_heap q t = Some nd" by blast
  have fresh: "lf_brk q \<notin> set (bs @ [t])" using lt by auto
  then have tb: "t \<noteq> lf_brk q" by auto
  note ch' = chain_snoc [OF ch d fresh nd, of x]
  have "\<forall>a \<in> set (bs @ [t, lf_brk q]). a < Suc (lf_brk q)" using lt by auto
  with ch' d fresh nd tl hd tb mem show ?thesis
    by (auto simp: fifo_add_item_def Let_def snoc linked_rep_def)
qed

lemma linked_rep_remove:
  assumes rep: "linked_rep q (a # as) (x # xs)"
  shows "wp (fifo_remove_item q) (\<lambda>(v, q'). v = Some x \<and> linked_rep q' as xs \<and> lf_oom q' = lf_oom q)"
proof -
  from rep obtain n where h: "lf_head q = Some a" and nd: "lf_heap q a = Some \<lparr>nd_next = n, nd_item = x\<rparr>"
    and ch: "chain (lf_heap q) n as xs" and na: "a \<notin> set as"
    by (auto simp: linked_rep_def)
  have ch': "chain ((lf_heap q)(a := None)) n as xs" using na by (intro chain_cong [OF ch]) auto
  show ?thesis
  proof (cases as)
    case Nil
    with ch have "xs = []" by (cases xs) auto
    with rep h nd Nil show ?thesis
      by (simp add: fifo_remove_item_def lf_free_node_def linked_rep_def)
  next
    case (Cons b bs)
    with rep na have "lf_tail q \<noteq> Some a" by (auto simp: linked_rep_def)
    with rep h nd ch' Cons show ?thesis
      by (auto simp: fifo_remove_item_def lf_free_node_def linked_rep_def)
  qed
qed

lemma linked_rep_empty: "linked_rep q as xs \<Longrightarrow> fifo_is_empty q \<longleftrightarrow> xs = []"
  by (cases as; cases xs) (auto simp: linked_rep_def fifo_is_empty_def)

interpretation lnk: fifo_queue linked_inv linked_abs "\<lambda>q x. fifo_add_item q (Some x)" fifo_remove_item fifo_is_empty
proof (unfold_locales, goal_cases)
  case (1 q x)
  then obtain as xs where rep: "linked_rep q as xs" "\<not> lf_oom q" by (auto simp: linked_inv_def)
  from linked_rep_add [OF this, of x] rep linked_rep_abs [OF rep(1)] show ?case
    by (auto simp: linked_inv_def wp_exists dest: linked_rep_abs)
next
  case (2 q)
  then obtain as xs where rep: "linked_rep q as xs" "\<not> lf_oom q" by (auto simp: linked_inv_def)
  show ?case
  proof (cases xs)
    case Nil
    with rep(1) have "lf_head q = None" by (simp add: linked_rep_empty fifo_is_empty_def [symmetric])
    with rep(1) 2 Nil show ?thesis
      by (simp add: fifo_remove_item_def linked_rep_abs)
  next
    case (Cons y ys)
    with rep obtain b bs where "as = b # bs" by (cases as) (auto simp: linked_rep_def)
    with rep linked_rep_remove [of q b bs y ys] Cons show ?thesis
      by (auto simp: linked_inv_def wp_exists linked_rep_abs dest: linked_rep_abs)
  qed
next
  case (3 q)
  then show ?case by (auto simp: linked_inv_def linked_rep_abs linked_rep_empty)
qed

text \<open>\<open>fifo_delete\<close> frees every node and, with \<open>auto_free\<close>, every item once.\<close>

lemma fifo_delete_loop_law:
  "chain (lf_heap q) (lf_head q) as xs \<Longrightarrow> distinct as \<Longrightarrow> length as \<le> n \<Longrightarrow>
     wp (fifo_delete_loop n q) (\<lambda>q'. (\<forall>a. lf_heap q' a = (if a \<in> set as then None else lf_heap q a))
       \<and> lf_freed q' = lf_freed q @ (if lf_auto_free q then xs else []))"
proof (induction as arbitrary: q xs n)
  case Nil
  then have "xs = []" "lf_head q = None" by (auto elim: chain.elims)
  then show ?case by (cases n) auto
next
  case (Cons a as)
  then obtain x ys where xs: "xs = x # ys" by (cases xs) auto
  from Cons.prems obtain m where n: "n = Suc m" by (cases n) auto
  from Cons.prems xs obtain nx where h: "lf_head q = Some a"
    and nd: "lf_heap q a = Some \<lparr>nd_next = nx, nd_item = x\<rparr>" and ch: "chain (lf_heap q) nx as ys"
    by auto
  let ?q = "(if lf_auto_free q then q\<lparr>lf_freed := lf_freed q @ [x]\<rparr> else q)
      \<lparr>lf_head := nx, lf_heap := (lf_heap q)(a := None)\<rparr>"
  have "chain (lf_heap ?q) (lf_head ?q) as ys"
    using Cons.prems by (auto intro: chain_cong [OF ch])
  from Cons.IH [OF this, of m] Cons.prems n
  have "wp (fifo_delete_loop m ?q) (\<lambda>q'. (\<forall>b. lf_heap q' b = (if b \<in> set as then None else lf_heap ?q b))
       \<and> lf_freed q' = lf_freed ?q @ (if lf_auto_free ?q then ys else []))"
    by simp
  with h nd n xs show ?case
    by (auto simp: lf_free_item_def lf_free_node_def elim!: wp_mono)
qed

lemma fifo_delete_law:
  assumes rep: "linked_rep q as xs"
  shows "wp (fifo_delete q) (\<lambda>q'. (\<forall>a \<in> set as. lf_heap q' a = None)
     \<and> lf_freed q' = lf_freed q @ (if lf_auto_free q then xs else []))"
proof -
  from rep have "card (set as) \<le> card {..<lf_brk q}" by (intro card_mono) (auto simp: linked_rep_def)
  with rep have len: "length as \<le> lf_brk q" by (simp add: linked_rep_def distinct_card)
  show ?thesis
  proof (cases as)
    case Nil
    with rep have "xs = []" "lf_head q = None" by (auto simp: linked_rep_def elim: chain.elims)
    with Nil show ?thesis by (simp add: fifo_delete_def)
  next
    case (Cons a bs)
    with rep obtain x ys where xs: "xs = x # ys" by (cases xs) (auto simp: linked_rep_def)
    from rep Cons xs have h: "lf_head q = Some a" by (simp add: linked_rep_def)
    show ?thesis
    proof (cases "lf_tail q = Some a")
      case True
      with rep Cons have "bs = []" by (cases bs rule: rev_cases) (auto simp: linked_rep_def split: if_splits)
      with rep xs Cons True h show ?thesis
        by (cases ys) (auto simp: fifo_delete_def lf_free_item_def lf_free_node_def linked_rep_def)
    next
      case False
      with rep len h fifo_delete_loop_law [of q as xs "lf_brk q"] show ?thesis
        by (auto simp: fifo_delete_def linked_rep_def elim!: wp_mono)
    qed
  qed
qed

subsection \<open>The properties\<close>

lemma fifo_create_inv: "linked_inv fifo_create" "linked_abs fifo_create = []"
proof -
  have "linked_rep fifo_create [] []" by (simp add: linked_rep_def fifo_create_def)
  then show "linked_inv fifo_create" "linked_abs fifo_create = []"
    by (auto simp: linked_inv_def fifo_create_def linked_abs_def)
qed

text \<open>C33. The ring buffer, created with any size, behaves as a queue under every sequence of insertions
  and removals of non-zero entries, through every wrap-around and every growth, as long as memory can
  be allocated.\<close>

theorem ring_refines:
  "wp (fifo_run (\<lambda>fp x. ring_insert True fp (Some x)) ring_remove (snd (ring_init True fp n)) ops)
     (\<lambda>(vs, fp'). vs = fst (fifo_spec [] ops) \<and> (ring_is_empty fp' \<longleftrightarrow> snd (fifo_spec [] ops) = []))"
proof -
  obtain r fp0 where init: "ring_init True fp n = (r, fp0)" by fastforce
  from ring_init_law [OF this] have "ring_inv fp0" "ring_abs fp0 = []" by (simp_all add: ring_abs_def)
  from ring.fifo_run_law [OF this(1), of ops] this(2) init show ?thesis
    by (auto elim!: wp_mono simp: ring.empty_law)
qed

text \<open>C34. The linked queue behaves as a queue under every sequence of additions and removals, never
  following a freed or null pointer.\<close>

theorem linked_refines:
  "wp (fifo_run (\<lambda>q x. fifo_add_item q (Some x)) fifo_remove_item fifo_create ops)
     (\<lambda>(vs, q'). vs = fst (fifo_spec [] ops) \<and> (fifo_is_empty q' \<longleftrightarrow> snd (fifo_spec [] ops) = []))"
  using lnk.fifo_run_law [OF fifo_create_inv(1), of ops] unfolding fifo_create_inv(2)
  by (auto elim!: wp_mono simp: lnk.empty_law)

text \<open>Deleting a linked queue frees every one of its nodes, and with \<open>auto_free\<close> hands every item that is
  still queued to \<open>g_free\<close> once, in order.\<close>

theorem linked_delete_frees_all:
  assumes "linked_rep q as xs"
  shows "wp (fifo_delete q) (\<lambda>q'. (\<forall>a \<in> set as. lf_heap q' a = None)
     \<and> lf_freed q' = lf_freed q @ (if lf_auto_free q then xs else []))"
  using assms by (rule fifo_delete_law)

definition demo_fifo :: "nat linked_fifo" where
  "demo_fifo = \<lparr>lf_head = Some 0, lf_tail = Some 1, lf_auto_free = True,
     lf_heap = [0 \<mapsto> \<lparr>nd_next = Some 1, nd_item = 7\<rparr>, 1 \<mapsto> \<lparr>nd_next = None, nd_item = 9\<rparr>], lf_brk = 2,
     lf_oom = False, lf_freed = []\<rparr>"

theorem linked_delete_frees_all_witness:
  "linked_rep demo_fifo [0, 1] [7, 9] \<and> wp (fifo_delete demo_fifo) (\<lambda>q'. lf_freed q' = [7, 9])"
proof -
  have rep: "linked_rep demo_fifo [0, 1] [7, 9]" by (simp add: linked_rep_def demo_fifo_def)
  from linked_delete_frees_all [OF this] have "wp (fifo_delete demo_fifo) (\<lambda>q'. lf_freed q' = [7, 9])"
    by (rule wp_mono) (simp add: demo_fifo_def)
  with rep show ?thesis by simp
qed

end
