(* ===== verification/Parse_Stream.thy ===== *)
theory Parse_Stream
  imports Xrdp_Base
begin

text \<open>
  The byte streams of \<open>common/parse.h\<close>, on which every protocol layer reads and writes.
  A stream owns one block of \<open>s_size\<close> bytes; the C pointers \<open>p\<close>, \<open>end\<close> and
  the layer headers are offsets into that block. Every macro that dereferences \<open>p\<close> is a
  definition here that faults outside the block or on a byte that was never written; the
  macros that only move \<open>p\<close> do not check anything, as in the source.

  The lemmas come in two families. \<^emph>\<open>Reading\<close>: under \<open>in_ok\<close> (all bytes below
  \<open>end\<close> were received) and enough remaining bytes, each \<open>in_\<close> macro is a total
  function of those bytes. \<^emph>\<open>Writing\<close>: with enough room each \<open>out_\<close> macro is
  \<open>emit\<close> of its encoding, and \<open>emit\<close> composes by concatenation. The locale
  \<open>wire_codec\<close> is the contract between the two, interpreted for every integer format.
\<close>

subsection \<open>The stream structure\<close>

record stream =
  s_data :: memory
  s_size :: int
  s_p :: int
  s_end :: int
  iso_hdr :: int
  mcs_hdr :: int
  sec_hdr :: int
  rdp_hdr :: int
  channel_hdr :: int
  next_packet :: "int option"

definition make_stream :: stream where
  "make_stream = \<lparr>s_data = (\<lambda>_. None), s_size = 0, s_p = 0, s_end = 0, iso_hdr = 0,
     mcs_hdr = 0, sec_hdr = 0, rdp_hdr = 0, channel_hdr = 0, next_packet = None\<rparr>"

definition init_stream :: "stream \<Rightarrow> int \<Rightarrow> stream" where
  "init_stream s v =
     (let s = (if v > s_size s then s\<lparr>s_data := (\<lambda>_. None), s_size := v\<rparr> else s)
      in s\<lparr>s_p := 0, s_end := 0, next_packet := None\<rparr>)"

definition s_check :: "stream \<Rightarrow> bool" where
  "s_check s \<longleftrightarrow> s_p s \<le> s_end s"

definition s_check_rem :: "stream \<Rightarrow> int \<Rightarrow> bool" where
  "s_check_rem s n \<longleftrightarrow> s_p s + n \<le> s_end s"

definition s_check_rem_out :: "stream \<Rightarrow> int \<Rightarrow> bool" where
  "s_check_rem_out s n \<longleftrightarrow> s_p s + n \<le> s_size s"

definition s_check_end :: "stream \<Rightarrow> bool" where
  "s_check_end s \<longleftrightarrow> s_p s = s_end s"

text \<open>The header argument of the layer macros is a field name; here it is the field's
  update or selector function.\<close>

definition s_push_layer :: "stream \<Rightarrow> ((int \<Rightarrow> int) \<Rightarrow> stream \<Rightarrow> stream) \<Rightarrow> int \<Rightarrow> stream" where
  "s_push_layer s hdr_update n = (hdr_update (\<lambda>_. s_p s) s)\<lparr>s_p := s_p s + n\<rparr>"

definition s_pop_layer :: "stream \<Rightarrow> (stream \<Rightarrow> int) \<Rightarrow> stream" where
  "s_pop_layer s hdr = s\<lparr>s_p := hdr s\<rparr>"

definition s_mark_end :: "stream \<Rightarrow> stream" where
  "s_mark_end s = s\<lparr>s_end := s_p s\<rparr>"

subsection \<open>Reading\<close>

text \<open>One load and one store through a \<open>char\<close> pointer.\<close>

definition rd8 :: "stream \<Rightarrow> int \<Rightarrow> int option" where
  "rd8 s i = (if 0 \<le> i \<and> i < s_size s then map_option uint (s_data s i) else None)"

definition wr8 :: "stream \<Rightarrow> int \<Rightarrow> int \<Rightarrow> stream option" where
  "wr8 s i v = (if 0 \<le> i \<and> i < s_size s
     then Some (s\<lparr>s_data := (s_data s)(i := Some (word_of_int v))\<rparr>) else None)"

definition in_uint8s :: "stream \<Rightarrow> int \<Rightarrow> stream" where
  "in_uint8s s n = s\<lparr>s_p := s_p s + n\<rparr>"

definition in_sint8 :: "stream \<Rightarrow> (int \<times> stream) option" where
  "in_sint8 s = do { v \<leftarrow> rd8 s (s_p s); Some (if v < 128 then v else v - 256, in_uint8s s 1) }"

definition in_uint8 :: "stream \<Rightarrow> (int \<times> stream) option" where
  "in_uint8 s = do { v \<leftarrow> rd8 s (s_p s); Some (v, in_uint8s s 1) }"

definition in_uint16_le :: "stream \<Rightarrow> (int \<times> stream) option" where
  "in_uint16_le s = do {
     a \<leftarrow> rd8 s (s_p s);
     b \<leftarrow> rd8 s (s_p s + 1);
     Some (a + 256 * b, in_uint8s s 2) }"

definition in_sint16_le :: "stream \<Rightarrow> (int \<times> stream) option" where
  "in_sint16_le s = do {
     a \<leftarrow> rd8 s (s_p s);
     b \<leftarrow> rd8 s (s_p s + 1);
     Some (if a + 256 * b < 32768 then a + 256 * b else a + 256 * b - 65536, in_uint8s s 2) }"

definition in_uint16_be :: "stream \<Rightarrow> (int \<times> stream) option" where
  "in_uint16_be s = do {
     a \<leftarrow> rd8 s (s_p s);
     b \<leftarrow> rd8 s (s_p s + 1);
     Some (256 * a + b, in_uint8s s 2) }"

definition in_uint32_le :: "stream \<Rightarrow> (int \<times> stream) option" where
  "in_uint32_le s = do {
     a \<leftarrow> rd8 s (s_p s);
     b \<leftarrow> rd8 s (s_p s + 1);
     c \<leftarrow> rd8 s (s_p s + 2);
     d \<leftarrow> rd8 s (s_p s + 3);
     Some (a + 256 * b + 65536 * c + 16777216 * d, in_uint8s s 4) }"

definition in_uint32_be :: "stream \<Rightarrow> (int \<times> stream) option" where
  "in_uint32_be s = do {
     a \<leftarrow> rd8 s (s_p s);
     b \<leftarrow> rd8 s (s_p s + 1);
     c \<leftarrow> rd8 s (s_p s + 2);
     d \<leftarrow> rd8 s (s_p s + 3);
     Some (16777216 * a + 65536 * b + 256 * c + d, in_uint8s s 4) }"

definition in_uint64_le :: "stream \<Rightarrow> (int \<times> stream) option" where
  "in_uint64_le s = do {
     (lo, s) \<leftarrow> in_uint32_le s;
     (hi, s) \<leftarrow> in_uint32_le s;
     Some (lo + 4294967296 * hi, s) }"

text \<open>\<open>in_uint8a\<close> copies \<open>n\<close> bytes out of the stream (\<open>g_memcpy\<close>).\<close>

definition in_uint8a :: "stream \<Rightarrow> int \<Rightarrow> (byte list \<times> stream) option" where
  "in_uint8a s n =
     (if n = 0 then Some ([], s)
      else if 0 \<le> n \<and> 0 \<le> s_p s \<and> s_p s + n \<le> s_size s
      then do { bs \<leftarrow> read_bytes (s_data s) (s_p s) (nat n); Some (bs, in_uint8s s n) }
      else None)"

subsection \<open>Writing\<close>

definition out_uint8 :: "stream \<Rightarrow> int \<Rightarrow> stream option" where
  "out_uint8 s v = do { s \<leftarrow> wr8 s (s_p s) v; Some (in_uint8s s 1) }"

definition out_uint16_le :: "stream \<Rightarrow> int \<Rightarrow> stream option" where
  "out_uint16_le s v = do { s \<leftarrow> out_uint8 s v; out_uint8 s (v div 256) }"

definition out_uint16_be :: "stream \<Rightarrow> int \<Rightarrow> stream option" where
  "out_uint16_be s v = do { s \<leftarrow> out_uint8 s (v div 256); out_uint8 s v }"

definition out_uint32_le :: "stream \<Rightarrow> int \<Rightarrow> stream option" where
  "out_uint32_le s v = do {
     s \<leftarrow> out_uint8 s v;
     s \<leftarrow> out_uint8 s (v div 256);
     s \<leftarrow> out_uint8 s (v div 65536);
     out_uint8 s (v div 16777216) }"

definition out_uint32_be :: "stream \<Rightarrow> int \<Rightarrow> stream option" where
  "out_uint32_be s v = do {
     s \<leftarrow> out_uint8 s (v div 16777216);
     s \<leftarrow> out_uint8 s (v div 65536);
     s \<leftarrow> out_uint8 s (v div 256);
     out_uint8 s v }"

definition out_uint64_le :: "stream \<Rightarrow> int \<Rightarrow> stream option" where
  "out_uint64_le s v = do {
     s \<leftarrow> out_uint32_le s v;
     out_uint32_le s (v div 4294967296) }"

text \<open>\<open>out_uint8p\<close> and \<open>out_uint8a\<close> copy a byte string into the stream,
  \<open>out_uint8s\<close> clears \<open>n\<close> bytes.\<close>

definition out_uint8p :: "stream \<Rightarrow> byte list \<Rightarrow> stream option" where
  "out_uint8p s bs =
     (if bs = [] then Some s
      else if 0 \<le> s_p s \<and> s_p s + int (length bs) \<le> s_size s
      then Some (in_uint8s (s\<lparr>s_data := write_bytes (s_data s) (s_p s) bs\<rparr>) (int (length bs)))
      else None)"

definition out_uint8s :: "stream \<Rightarrow> int \<Rightarrow> stream option" where
  "out_uint8s s n = (if n < 0 then None else out_uint8p s (replicate (nat n) 0))"

subsection \<open>The stream after an output\<close>

definition emit :: "stream \<Rightarrow> byte list \<Rightarrow> stream" where
  "emit s bs = s\<lparr>s_data := write_bytes (s_data s) (s_p s) bs, s_p := s_p s + int (length bs)\<rparr>"

definition room :: "stream \<Rightarrow> int \<Rightarrow> bool" where
  "room s n \<longleftrightarrow> 0 \<le> s_p s \<and> s_p s + n \<le> s_size s"

lemma emit_sel [simp]:
  "s_data (emit s bs) = write_bytes (s_data s) (s_p s) bs"
  "s_p (emit s bs) = s_p s + int (length bs)"
  "s_size (emit s bs) = s_size s"
  "s_end (emit s bs) = s_end s"
  "iso_hdr (emit s bs) = iso_hdr s"
  "mcs_hdr (emit s bs) = mcs_hdr s"
  "sec_hdr (emit s bs) = sec_hdr s"
  "rdp_hdr (emit s bs) = rdp_hdr s"
  "channel_hdr (emit s bs) = channel_hdr s"
  "next_packet (emit s bs) = next_packet s"
  by (simp_all add: emit_def)

lemma emit_Nil [simp]: "emit s [] = s"
  by (simp add: emit_def)

lemma emit_emit [simp]: "emit (emit s as) bs = emit s (as @ bs)"
  by (simp add: emit_def write_bytes_append add.assoc)

lemma in_uint8s_sel [simp]:
  "s_data (in_uint8s s n) = s_data s"
  "s_p (in_uint8s s n) = s_p s + n"
  "s_size (in_uint8s s n) = s_size s"
  "s_end (in_uint8s s n) = s_end s"
  "iso_hdr (in_uint8s s n) = iso_hdr s"
  "mcs_hdr (in_uint8s s n) = mcs_hdr s"
  "sec_hdr (in_uint8s s n) = sec_hdr s"
  "rdp_hdr (in_uint8s s n) = rdp_hdr s"
  "channel_hdr (in_uint8s s n) = channel_hdr s"
  "next_packet (in_uint8s s n) = next_packet s"
  by (simp_all add: in_uint8s_def)

lemma in_uint8s_in_uint8s [simp]: "in_uint8s (in_uint8s s a) b = in_uint8s s (a + b)"
  by (simp add: in_uint8s_def add.assoc)

lemma in_uint8s_0 [simp]: "in_uint8s s 0 = s"
  by (simp add: in_uint8s_def)

lemma init_stream_sel [simp]:
  "s_p (init_stream s v) = 0"
  "s_end (init_stream s v) = 0"
  "s_size (init_stream s v) = max (s_size s) v"
  "next_packet (init_stream s v) = None"
  "iso_hdr (init_stream s v) = iso_hdr s"
  "mcs_hdr (init_stream s v) = mcs_hdr s"
  "channel_hdr (init_stream s v) = channel_hdr s"
  by (simp_all add: init_stream_def Let_def)

lemma make_stream_sel [simp]:
  "s_size make_stream = 0" "s_p make_stream = 0" "s_end make_stream = 0"
  "s_data make_stream = (\<lambda>_. None)"
  by (simp_all add: make_stream_def)

subsection \<open>Encodings and the writing lemmas\<close>

definition enc8 :: "int \<Rightarrow> byte list" where
  "enc8 v = [word_of_int v]"

definition enc16_le :: "int \<Rightarrow> byte list" where
  "enc16_le v = [word_of_int v, word_of_int (v div 256)]"

definition enc16_be :: "int \<Rightarrow> byte list" where
  "enc16_be v = [word_of_int (v div 256), word_of_int v]"

definition enc32_le :: "int \<Rightarrow> byte list" where
  "enc32_le v = [word_of_int v, word_of_int (v div 256), word_of_int (v div 65536),
     word_of_int (v div 16777216)]"

definition enc32_be :: "int \<Rightarrow> byte list" where
  "enc32_be v = [word_of_int (v div 16777216), word_of_int (v div 65536), word_of_int (v div 256),
     word_of_int v]"

definition enc64_le :: "int \<Rightarrow> byte list" where
  "enc64_le v = enc32_le v @ enc32_le (v div 4294967296)"

lemma enc_length [simp]:
  "length (enc8 v) = 1" "length (enc16_le v) = 2" "length (enc16_be v) = 2"
  "length (enc32_le v) = 4" "length (enc32_be v) = 4" "length (enc64_le v) = 8"
  by (simp_all add: enc8_def enc16_le_def enc16_be_def enc32_le_def enc32_be_def enc64_le_def)

lemma out_uint8_emit: "out_uint8 s v = (if room s 1 then Some (emit s (enc8 v)) else None)"
  by (simp add: out_uint8_def wr8_def room_def emit_def enc8_def in_uint8s_def)

lemma out_uint16_le_emit: "out_uint16_le s v = (if room s 2 then Some (emit s (enc16_le v)) else None)"
  by (auto simp: out_uint16_le_def out_uint8_emit room_def enc8_def enc16_le_def)

lemma out_uint16_be_emit: "out_uint16_be s v = (if room s 2 then Some (emit s (enc16_be v)) else None)"
  by (auto simp: out_uint16_be_def out_uint8_emit room_def enc8_def enc16_be_def)

lemma out_uint32_le_emit: "out_uint32_le s v = (if room s 4 then Some (emit s (enc32_le v)) else None)"
  by (auto simp: out_uint32_le_def out_uint8_emit room_def enc8_def enc32_le_def)

lemma out_uint32_be_emit: "out_uint32_be s v = (if room s 4 then Some (emit s (enc32_be v)) else None)"
  by (auto simp: out_uint32_be_def out_uint8_emit room_def enc8_def enc32_be_def)

lemma out_uint64_le_emit: "out_uint64_le s v = (if room s 8 then Some (emit s (enc64_le v)) else None)"
  by (auto simp: out_uint64_le_def out_uint32_le_emit room_def enc64_le_def)

lemma out_uint8p_emit:
  "out_uint8p s bs = (if bs = [] \<or> room s (int (length bs)) then Some (emit s bs) else None)"
  by (auto simp: out_uint8p_def room_def emit_def in_uint8s_def)

lemma out_uint8s_emit:
  "0 \<le> n \<Longrightarrow> out_uint8s s n =
     (if n = 0 \<or> room s n then Some (emit s (replicate (nat n) 0)) else None)"
  by (simp add: out_uint8s_def out_uint8p_emit)

lemmas out_emit = out_uint8_emit out_uint16_le_emit out_uint16_be_emit out_uint32_le_emit
  out_uint32_be_emit out_uint64_le_emit out_uint8p_emit out_uint8s_emit

subsection \<open>The reading lemmas\<close>

text \<open>\<open>in_ok\<close>: the offsets are sound and every byte below \<open>end\<close> was received.\<close>

definition in_ok :: "stream \<Rightarrow> bool" where
  "in_ok s \<longleftrightarrow> 0 \<le> s_p s \<and> s_end s \<le> s_size s \<and> written (s_data s) 0 (s_end s)"

text \<open>The byte a read at offset \<open>i\<close> delivers.\<close>

definition b8 :: "stream \<Rightarrow> int \<Rightarrow> int" where
  "b8 s i = uint (the (s_data s i))"

lemma b8_range [simp]: "0 \<le> b8 s i" "b8 s i < 256" "b8 s i \<le> 255"
proof -
  show "0 \<le> b8 s i" and lt: "b8 s i < 256"
    using uint_byte_range [of "the (s_data s i)"] by (simp_all add: b8_def)
  from lt show "b8 s i \<le> 255" by simp
qed

lemma b8_in_uint8s [simp]: "b8 (in_uint8s s n) i = b8 s i"
  by (simp add: b8_def)

lemma in_ok_in_uint8s [simp]: "in_ok s \<Longrightarrow> 0 \<le> s_p s + n \<Longrightarrow> in_ok (in_uint8s s n)"
  by (simp add: in_ok_def)

lemma in_okD: "in_ok s \<Longrightarrow> 0 \<le> s_p s" "in_ok s \<Longrightarrow> s_end s \<le> s_size s"
  by (simp_all add: in_ok_def)

lemma rd8_ok: "in_ok s \<Longrightarrow> 0 \<le> i \<Longrightarrow> i < s_end s \<Longrightarrow> rd8 s i = Some (b8 s i)"
  using writtenD [of "s_data s" 0 "s_end s" i] by (auto simp: in_ok_def rd8_def b8_def)

lemma in_uint8_ok:
  "in_ok s \<Longrightarrow> s_p s + 1 \<le> s_end s \<Longrightarrow> in_uint8 s = Some (b8 s (s_p s), in_uint8s s 1)"
  by (simp add: in_uint8_def rd8_ok in_okD)

lemma in_uint16_le_ok:
  "in_ok s \<Longrightarrow> s_p s + 2 \<le> s_end s \<Longrightarrow>
     in_uint16_le s = Some (b8 s (s_p s) + 256 * b8 s (s_p s + 1), in_uint8s s 2)"
  using in_okD [of s] by (simp add: in_uint16_le_def rd8_ok)

lemma in_uint16_be_ok:
  "in_ok s \<Longrightarrow> s_p s + 2 \<le> s_end s \<Longrightarrow>
     in_uint16_be s = Some (256 * b8 s (s_p s) + b8 s (s_p s + 1), in_uint8s s 2)"
  using in_okD [of s] by (simp add: in_uint16_be_def rd8_ok)

lemma in_uint32_le_ok:
  "in_ok s \<Longrightarrow> s_p s + 4 \<le> s_end s \<Longrightarrow>
     in_uint32_le s = Some (b8 s (s_p s) + 256 * b8 s (s_p s + 1) + 65536 * b8 s (s_p s + 2)
       + 16777216 * b8 s (s_p s + 3), in_uint8s s 4)"
  using in_okD [of s] by (simp add: in_uint32_le_def rd8_ok)

lemma in_uint32_be_ok:
  "in_ok s \<Longrightarrow> s_p s + 4 \<le> s_end s \<Longrightarrow>
     in_uint32_be s = Some (16777216 * b8 s (s_p s) + 65536 * b8 s (s_p s + 1)
       + 256 * b8 s (s_p s + 2) + b8 s (s_p s + 3), in_uint8s s 4)"
  using in_okD [of s] by (simp add: in_uint32_be_def rd8_ok)

lemma in_uint8a_ok:
  assumes "in_ok s" "0 \<le> n" "s_p s + n \<le> s_end s"
  shows "\<exists>bs. in_uint8a s n = Some (bs, in_uint8s s n) \<and> int (length bs) = n
     \<and> bytes_at (s_data s) (s_p s) bs"
proof (cases "n = 0")
  case True
  then show ?thesis by (simp add: in_uint8a_def)
next
  case False
  have "written (s_data s) (s_p s) (s_p s + int (nat n))"
    using assms by (auto simp: in_ok_def intro: written_mono [of "s_data s" 0 "s_end s"])
  from read_bytes_written [OF this] obtain bs
    where bs: "read_bytes (s_data s) (s_p s) (nat n) = Some bs" "length bs = nat n"
      "bytes_at (s_data s) (s_p s) bs"
    by blast
  moreover have "in_uint8a s n = Some (bs, in_uint8s s n)"
    using assms False bs(1) by (simp add: in_uint8a_def in_ok_def)
  ultimately show ?thesis using assms by auto
qed

lemmas in_reads = in_uint8_ok in_uint16_le_ok in_uint16_be_ok in_uint32_le_ok in_uint32_be_ok

text \<open>A parser's step from \<open>s\<close> to \<open>s'\<close>: it only moved the read position, forward and not
  beyond \<open>end\<close>.\<close>

definition in_pos :: "stream \<Rightarrow> bool" where
  "in_pos s \<longleftrightarrow> in_ok s \<and> s_p s \<le> s_end s"

definition in_step :: "stream \<Rightarrow> stream \<Rightarrow> bool" where
  "in_step s s' \<longleftrightarrow> in_pos s' \<and> (\<exists>n. 0 \<le> n \<and> s' = in_uint8s s n)"

lemma in_step_refl: "in_pos s \<Longrightarrow> in_step s s"
  by (auto simp: in_step_def intro: exI [of _ 0])

lemma in_step_trans: "in_step a b \<Longrightarrow> in_step b c \<Longrightarrow> in_step a c"
proof -
  assume "in_step a b" "in_step b c"
  then obtain m n where "0 \<le> m" "0 \<le> n" "c = in_uint8s a (m + n)" "in_pos c"
    by (auto simp: in_step_def)
  then show "in_step a c" by (auto simp: in_step_def intro: exI [of _ "m + n"])
qed

lemma in_step_pos: "in_step s s' \<Longrightarrow> in_pos s'"
  by (simp add: in_step_def)

lemma in_step_sel:
  "in_step s s' \<Longrightarrow> s_data s' = s_data s \<and> s_size s' = s_size s \<and> s_end s' = s_end s \<and> s_p s \<le> s_p s' \<and> s_p s' \<le> s_end s"
  by (auto simp: in_step_def in_pos_def)

lemma in_step_skip: "in_pos s \<Longrightarrow> 0 \<le> n \<Longrightarrow> s_p s + n \<le> s_end s \<Longrightarrow> in_step s (in_uint8s s n)"
  by (auto simp: in_step_def in_pos_def in_ok_def)

lemma in_step_ok: "in_ok s \<Longrightarrow> 0 \<le> n \<Longrightarrow> s_p s + n \<le> s_end s \<Longrightarrow> in_step s (in_uint8s s n)"
  by (auto simp: in_step_def in_pos_def in_ok_def)

lemma in_posD: "in_pos s \<Longrightarrow> in_ok s" "in_pos s \<Longrightarrow> s_p s \<le> s_end s" "in_pos s \<Longrightarrow> 0 \<le> s_p s"
  by (simp_all add: in_pos_def in_ok_def)

text \<open>The outcome of a safe parser that returns 0 or 1.\<close>

definition parsed :: "stream \<Rightarrow> int \<times> stream \<Rightarrow> bool" where
  "parsed s = (\<lambda>(r, s'). (r = 0 \<or> r = 1) \<and> in_step s s')"

definition parsed3 :: "stream \<Rightarrow> int \<times> 'a \<times> stream \<Rightarrow> bool" where
  "parsed3 s = (\<lambda>(r, x, s'). (r = 0 \<or> r = 1) \<and> in_step s s')"

lemma parsed_iff [simp]: "parsed s (r, s') \<longleftrightarrow> (r = 0 \<or> r = 1) \<and> in_step s s'"
  by (simp add: parsed_def)

lemma parsed3_iff [simp]: "parsed3 s (r, x, s') \<longleftrightarrow> (r = 0 \<or> r = 1) \<and> in_step s s'"
  by (simp add: parsed3_def)

lemma parsed_after: "wp m (parsed s1) \<Longrightarrow> in_step s s1 \<Longrightarrow> wp m (parsed s)"
  by (erule wp_mono) (auto simp: parsed_def intro: in_step_trans)

lemma parsed3_after: "wp m (parsed3 s1) \<Longrightarrow> in_step s s1 \<Longrightarrow> wp m (parsed3 s)"
  by (erule wp_mono) (auto simp: parsed3_def intro: in_step_trans)

lemma wp_parsedE: "wp m (parsed s) \<Longrightarrow> (\<And>r s'. m = Some (r, s') \<Longrightarrow> r = 0 \<or> r = 1 \<Longrightarrow> in_step s s' \<Longrightarrow> thesis) \<Longrightarrow> thesis"
  by (auto simp: wp_exists)

lemma wp_parsed3E:
  "wp m (parsed3 s) \<Longrightarrow> (\<And>r x s'. m = Some (r, x, s') \<Longrightarrow> r = 0 \<or> r = 1 \<Longrightarrow> in_step s s' \<Longrightarrow> thesis) \<Longrightarrow> thesis"
  by (auto simp: wp_exists)

subsection \<open>Reading back what was written\<close>

text \<open>The next bytes at the read position are \<open>bs\<close>.\<close>

definition pending :: "stream \<Rightarrow> byte list \<Rightarrow> bool" where
  "pending s bs \<longleftrightarrow> 0 \<le> s_p s \<and> s_p s + int (length bs) \<le> s_size s \<and> bytes_at (s_data s) (s_p s) bs"

lemma pending_append:
  "pending s (as @ bs) \<longleftrightarrow> pending s as \<and> pending (in_uint8s s (int (length as))) bs"
  by (auto simp: pending_def bytes_at_append)

lemma pending_Cons: "pending s (b # c # bs) \<longleftrightarrow> pending s [b] \<and> pending (in_uint8s s 1) (c # bs)"
  using pending_append [of s "[b]" "c # bs"] by simp

lemma pending_emit: "room s (int (length bs)) \<Longrightarrow> pending ((emit s bs)\<lparr>s_p := s_p s\<rparr>) bs"
  by (simp add: pending_def room_def bytes_at_write_bytes)

lemma mod_div_256: "v mod 256 + 256 * (v div 256 mod 256) = v mod (65536 :: int)"
  using zmod_zmult2_eq [of 256 v 256] by simp

lemma mod_div_65536:
  "v mod 256 + 256 * (v div 256 mod 256) + 65536 * (v div 65536 mod 256)
     + 16777216 * (v div 16777216 mod 256) = v mod (4294967296 :: int)"
proof -
  have a: "v mod 65536 + 65536 * (v div 65536 mod 65536) = v mod (4294967296 :: int)"
    using zmod_zmult2_eq [of 65536 v 65536] by simp
  have c: "v div 65536 div 256 = v div (16777216 :: int)"
    using zdiv_zmult2_eq [of 256 v 65536] by simp
  have b: "v div 65536 mod 256 + 256 * (v div 16777216 mod 256) = v div 65536 mod (65536 :: int)"
    using mod_div_256 [of "v div 65536"] by (simp only: c)
  show ?thesis
    unfolding a [symmetric] b [symmetric] mod_div_256 [of v, symmetric] by algebra
qed

lemma pending_rd8:
  "pending s bs \<Longrightarrow> k < length bs \<Longrightarrow> rd8 s (s_p s + int k) = Some (uint (bs ! k))"
  by (auto simp: pending_def rd8_def bytes_at_nth)

lemma pending_rd8_4:
  assumes "pending s [a, b, c, d]"
  shows "rd8 s (s_p s) = Some (uint a)" "rd8 s (s_p s + 1) = Some (uint b)"
    "rd8 s (s_p s + 2) = Some (uint c)" "rd8 s (s_p s + 3) = Some (uint d)"
  using assms by (auto simp: pending_def rd8_def add.assoc)

lemma pending_rd8_2:
  assumes "pending s [a, b]"
  shows "rd8 s (s_p s) = Some (uint a)" "rd8 s (s_p s + 1) = Some (uint b)"
  using assms by (auto simp: pending_def rd8_def)

lemma in_uint8_pending: "pending s (enc8 v) \<Longrightarrow> in_uint8 s = Some (u8 v, in_uint8s s 1)"
  using pending_rd8 [of s "enc8 v" 0] by (simp add: in_uint8_def enc8_def uint_byte_of_int u8_def)

lemma in_uint16_le_pending:
  assumes "pending s (enc16_le v)"
  shows "in_uint16_le s = Some (u16 v, in_uint8s s 2)"
  using pending_rd8_2 [OF assms [unfolded enc16_le_def]]
  by (simp add: in_uint16_le_def uint_byte_of_int u16_def mod_div_256)

lemma in_uint16_be_pending:
  assumes "pending s (enc16_be v)"
  shows "in_uint16_be s = Some (u16 v, in_uint8s s 2)"
  using pending_rd8_2 [OF assms [unfolded enc16_be_def]] mod_div_256 [of v]
  by (simp add: in_uint16_be_def uint_byte_of_int u16_def)

lemma in_uint32_le_pending:
  assumes "pending s (enc32_le v)"
  shows "in_uint32_le s = Some (u32 v, in_uint8s s 4)"
  using pending_rd8_4 [OF assms [unfolded enc32_le_def]]
  by (simp only: in_uint32_le_def uint_byte_of_int u32_def mod_div_65536 Option.bind.bind_lunit)

lemma in_uint32_be_pending:
  assumes "pending s (enc32_be v)"
  shows "in_uint32_be s = Some (u32 v, in_uint8s s 4)"
proof -
  have "16777216 * (v div 16777216 mod 256) + 65536 * (v div 65536 mod 256)
      + 256 * (v div 256 mod 256) + v mod 256 = v mod (4294967296 :: int)"
    unfolding mod_div_65536 [symmetric] by algebra
  with pending_rd8_4 [OF assms [unfolded enc32_be_def]] show ?thesis
    by (simp only: in_uint32_be_def uint_byte_of_int u32_def Option.bind.bind_lunit)
qed

lemma in_uint64_le_pending:
  assumes "pending s (enc64_le v)"
  shows "in_uint64_le s = Some (v mod 18446744073709551616, in_uint8s s 8)"
proof -
  have "pending s (enc32_le v)" "pending (in_uint8s s 4) (enc32_le (v div 4294967296))"
    using assms by (simp_all add: enc64_le_def pending_append)
  moreover have "v mod 4294967296 + 4294967296 * (v div 4294967296 mod 4294967296)
      = v mod (18446744073709551616 :: int)"
    using zmod_zmult2_eq [of 4294967296 v 4294967296] by simp
  ultimately show ?thesis
    by (simp add: in_uint64_le_def in_uint32_le_pending u32_def)
qed

lemma in_uint8a_pending:
  "pending s bs \<Longrightarrow> in_uint8a s (int (length bs)) = Some (bs, in_uint8s s (int (length bs)))"
  by (auto simp: in_uint8a_def pending_def read_bytes_at)

lemmas in_pending = in_uint8_pending in_uint16_le_pending in_uint16_be_pending
  in_uint32_le_pending in_uint32_be_pending in_uint64_le_pending in_uint8a_pending

subsection \<open>The contract of an integer format\<close>

locale wire_codec =
  fixes out :: "stream \<Rightarrow> int \<Rightarrow> stream option"
    and inp :: "stream \<Rightarrow> (int \<times> stream) option"
    and enc :: "int \<Rightarrow> byte list"
    and width :: int
    and bound :: int
  assumes width_pos: "0 < width"
    and enc_width: "int (length (enc v)) = width"
    and out_law: "out s v = (if room s width then Some (emit s (enc v)) else None)"
    and inp_law: "pending s (enc v) \<Longrightarrow> inp s = Some (v mod bound, in_uint8s s width)"
begin

lemma write_then_read:
  assumes "room s width"
  shows "\<exists>s'. out s v = Some s' \<and> inp (s'\<lparr>s_p := s_p s\<rparr>) = Some (v mod bound, s')"
proof -
  have "pending ((emit s (enc v))\<lparr>s_p := s_p s\<rparr>) (enc v)"
    using assms by (intro pending_emit) (simp add: enc_width)
  from inp_law [OF this] show ?thesis
    using assms by (simp add: out_law in_uint8s_def enc_width emit_def)
qed

lemma out_frame:
  assumes "out s v = Some s'" and "i < s_p s \<or> s_p s + width \<le> i"
  shows "s_data s' i = s_data s i"
  using assms enc_width [of v]
  by (auto simp: out_law write_bytes_below write_bytes_above split: if_splits)

lemma out_faults_iff: "out s v = None \<longleftrightarrow> \<not> room s width"
  by (simp add: out_law)

end

interpretation w8: wire_codec out_uint8 in_uint8 enc8 1 256
  by unfold_locales (simp_all add: out_uint8_emit in_uint8_pending u8_def)

interpretation w16le: wire_codec out_uint16_le in_uint16_le enc16_le 2 65536
  by unfold_locales (simp_all add: out_uint16_le_emit in_uint16_le_pending u16_def)

interpretation w16be: wire_codec out_uint16_be in_uint16_be enc16_be 2 65536
  by unfold_locales (simp_all add: out_uint16_be_emit in_uint16_be_pending u16_def)

interpretation w32le: wire_codec out_uint32_le in_uint32_le enc32_le 4 4294967296
  by unfold_locales (simp_all add: out_uint32_le_emit in_uint32_le_pending u32_def)

interpretation w32be: wire_codec out_uint32_be in_uint32_be enc32_be 4 4294967296
  by unfold_locales (simp_all add: out_uint32_be_emit in_uint32_be_pending u32_def)

interpretation w64le: wire_codec out_uint64_le in_uint64_le enc64_le 8 18446744073709551616
  by unfold_locales (simp_all add: out_uint64_le_emit in_uint64_le_pending)

end
