(* ===== verification/Trans.thy ===== *)
theory Trans
  imports Parse_Stream
begin

text \<open>
  The generic transport, \<open>common/trans.c\<close>: one socket (plain or wrapped in TLS), an input
  and an output stream, and the queue \<open>wait_s\<close> of bytes that a non-blocking send did not
  take. The two frame readers of \<open>libxrdp/libxrdp.c\<close> that sit directly on it are here too.

  The kernel's side of the socket is a script kept in the transport. \<open>tr_rx\<close> is what the
  successive \<open>recv\<close> calls meet: a segment of bytes, a would-block, an error; the end of
  the script is the peer closing the connection. \<open>tr_tx\<close> is the same for \<open>send\<close>: how
  many bytes the kernel is willing to take, would-block or error; the end of the script is an
  error. \<open>tr_wire\<close> is what the kernel has accepted. The answers of the polling calls and
  of the \<open>is_term\<close> callback are scripts of booleans (when they run out the socket is ready
  and nobody asks to terminate). Every theorem quantifies over these scripts, so it holds for
  every way the network can cut up the byte stream.
\<close>

subsection \<open>The transport\<close>

datatype rx_event = Rx_Bytes "byte list" | Rx_Block | Rx_Error

datatype tx_event = Tx_Accept nat | Tx_Block | Tx_Error

datatype accept_event = Accept_Sck int string string | Accept_Block | Accept_Error

text \<open>The function pointers \<open>trans_recv\<close>, \<open>trans_send\<close> and \<open>trans_can_recv\<close> are always
  assigned together, to the \<open>tcp\<close> or to the \<open>tls\<close> functions.\<close>

datatype trans_proc = Proc_Tcp | Proc_Tls

record source_info =
  cur_source :: nat
  si_source :: "int list"

text \<open>An element of the \<open>wait_s\<close> list: the bytes in \<open>[p, end)\<close> and the index of
  the counter that \<open>source\<close> points to.\<close>

record wait_stream =
  ws_bytes :: "byte list"
  ws_source :: "nat option"

text \<open>\<open>mt_pipe\<close> scripts the pipe to the slave session: \<open>None\<close> when \<open>gl_fd_can_send\<close> times
  out, otherwise the result of \<open>gl_write\<close>. \<open>mt_slave\<close> collects the packet payloads handed to it.\<close>

record my_trans_info =
  send_to_slave :: bool
  session_master :: bool
  mt_pipe :: "int option list"
  mt_slave :: "byte list list"

record trans =
  tr_sck :: int
  tr_mode :: int
  tr_status :: int
  tr_type1 :: int
  tr_header_size :: int
  tr_in_s :: stream
  tr_out_s :: stream
  tr_listen_filename :: "string option"
  tr_is_term :: bool
  tr_wait_s :: "wait_stream list"
  tr_addr :: string
  tr_port :: string
  tr_no_stream_init_on_data_in :: int
  tr_tls :: bool
  tr_tls_rwo :: int
  tr_proc :: trans_proc
  tr_si :: "source_info option"
  tr_my_source :: nat
  tr_my_info :: "my_trans_info option"
  tr_rx :: "rx_event list"
  tr_tx :: "tx_event list"
  tr_wire :: "byte list"
  tr_would_block :: bool
  tr_can_send :: "bool list"
  tr_can_recv :: "bool list"
  tr_terms :: "bool list"
  tr_accepts :: "accept_event list"
  tr_closed :: "int list"
  tr_deleted_files :: "string list"

abbreviation (input) TRANS_MODE_TCP :: int where "TRANS_MODE_TCP \<equiv> 1"
abbreviation (input) TRANS_MODE_UNIX :: int where "TRANS_MODE_UNIX \<equiv> 2"
abbreviation (input) TRANS_MODE_VSOCK :: int where "TRANS_MODE_VSOCK \<equiv> 3"
abbreviation (input) TRANS_MODE_TCP4 :: int where "TRANS_MODE_TCP4 \<equiv> 4"
abbreviation (input) TRANS_MODE_TCP6 :: int where "TRANS_MODE_TCP6 \<equiv> 6"
abbreviation (input) TRANS_TYPE_LISTENER :: int where "TRANS_TYPE_LISTENER \<equiv> 1"
abbreviation (input) TRANS_TYPE_SERVER :: int where "TRANS_TYPE_SERVER \<equiv> 2"
abbreviation (input) TRANS_TYPE_CLIENT :: int where "TRANS_TYPE_CLIENT \<equiv> 3"
abbreviation (input) TRANS_STATUS_DOWN :: int where "TRANS_STATUS_DOWN \<equiv> 0"
abbreviation (input) TRANS_STATUS_UP :: int where "TRANS_STATUS_UP \<equiv> 1"
abbreviation (input) BUFFER_PACKET_SIZE :: nat where "BUFFER_PACKET_SIZE \<equiv> 16384"

subsection \<open>The socket calls\<close>

text \<open>\<open>g_tcp_recv\<close> of at most \<open>len\<close> bytes into the stream at \<open>end\<close>: what a segment
  holds beyond \<open>len\<close> stays in the kernel. Storing outside the block is a fault.\<close>

definition g_tcp_recv :: "trans \<Rightarrow> stream \<Rightarrow> int \<Rightarrow> (int \<times> trans \<times> stream) option" where
  "g_tcp_recv self s len = (case tr_rx self of
     [] \<Rightarrow> Some (0, self, s)
   | Rx_Block # r \<Rightarrow> Some (-1, self\<lparr>tr_rx := r, tr_would_block := True\<rparr>, s)
   | Rx_Error # r \<Rightarrow> Some (-1, self\<lparr>tr_rx := r, tr_would_block := False\<rparr>, s)
   | Rx_Bytes bs # r \<Rightarrow>
       let n = min (nat len) (length bs) in
       if 0 \<le> s_end s \<and> s_end s + int n \<le> s_size s
       then Some (int n,
         self\<lparr>tr_rx := (if n < length bs then Rx_Bytes (drop n bs) # r else r)\<rparr>,
         s\<lparr>s_data := write_bytes (s_data s) (s_end s) (take n bs)\<rparr>)
       else None)"

definition g_tcp_send :: "trans \<Rightarrow> byte list \<Rightarrow> int \<times> trans" where
  "g_tcp_send self data = (case tr_tx self of
     [] \<Rightarrow> (-1, self\<lparr>tr_would_block := False\<rparr>)
   | Tx_Block # r \<Rightarrow> (-1, self\<lparr>tr_tx := r, tr_would_block := True\<rparr>)
   | Tx_Error # r \<Rightarrow> (-1, self\<lparr>tr_tx := r, tr_would_block := False\<rparr>)
   | Tx_Accept k # r \<Rightarrow>
       let n = min k (length data) in
       (int n, self\<lparr>tr_tx := r, tr_wire := tr_wire self @ take n data\<rparr>))"

definition g_tcp_can_send :: "trans \<Rightarrow> bool \<times> trans" where
  "g_tcp_can_send self = (case tr_can_send self of [] \<Rightarrow> (True, self)
     | b # r \<Rightarrow> (b, self\<lparr>tr_can_send := r\<rparr>))"

definition g_sck_can_recv :: "trans \<Rightarrow> bool \<times> trans" where
  "g_sck_can_recv self = (case tr_can_recv self of [] \<Rightarrow> (True, self)
     | b # r \<Rightarrow> (b, self\<lparr>tr_can_recv := r\<rparr>))"

text \<open>The test \<open>self->is_term != 0 && self->is_term()\<close>.\<close>

definition term_asked :: "trans \<Rightarrow> bool \<times> trans" where
  "term_asked self = (if tr_is_term self
     then (case tr_terms self of [] \<Rightarrow> (False, self) | b # r \<Rightarrow> (b, self\<lparr>tr_terms := r\<rparr>))
     else (False, self))"

text \<open>Forwarding to the slave session: a \<open>memcpy\<close> of \<open>len\<close> bytes into a buffer of
  \<open>BUFFER_PACKET_SIZE\<close>. For a TLS connection the scripts speak of the plaintext that
  \<open>ssl_tls_read\<close> and \<open>ssl_tls_write\<close> exchange with OpenSSL.\<close>

definition sendDataToSlaveSession :: "my_trans_info \<Rightarrow> byte list \<Rightarrow> (int \<times> my_trans_info) option" where
  "sendDataToSlaveSession p data =
     (if BUFFER_PACKET_SIZE < length data then None
      else Some (case mt_pipe p of
          [] \<Rightarrow> (-1, p)
        | None # r \<Rightarrow> (-1, p\<lparr>mt_pipe := r\<rparr>)
        | Some rv # r \<Rightarrow> (rv, p\<lparr>mt_pipe := r, mt_slave := mt_slave p @ [data]\<rparr>)))"

definition trans_tls_recv :: "trans \<Rightarrow> stream \<Rightarrow> int \<Rightarrow> (int \<times> trans \<times> stream) option" where
  "trans_tls_recv self s len = (if \<not> tr_tls self then Some (1, self, s) else g_tcp_recv self s len)"

definition trans_tls_send :: "trans \<Rightarrow> byte list \<Rightarrow> (int \<times> trans) option" where
  "trans_tls_send self data =
     (if \<not> tr_tls self then Some (1, self)
      else let (rv, self) = g_tcp_send self data in
        (case tr_my_info self of
           None \<Rightarrow> Some (rv, self)
         | Some p \<Rightarrow>
             if send_to_slave p \<and> session_master p
             then do {
               (r, p) \<leftarrow> sendDataToSlaveSession p data;
               let p = (if r < 0 then p\<lparr>send_to_slave := False\<rparr> else p);
               Some (rv, self\<lparr>tr_my_info := Some p\<rparr>) }
             else Some (rv, self)))"

definition trans_tls_can_recv :: "trans \<Rightarrow> bool \<times> trans" where
  "trans_tls_can_recv self = (if \<not> tr_tls self then (True, self) else g_sck_can_recv self)"

definition trans_recv :: "trans \<Rightarrow> stream \<Rightarrow> int \<Rightarrow> (int \<times> trans \<times> stream) option" where
  "trans_recv self s len = (case tr_proc self of
     Proc_Tcp \<Rightarrow> g_tcp_recv self s len | Proc_Tls \<Rightarrow> trans_tls_recv self s len)"

definition trans_send :: "trans \<Rightarrow> byte list \<Rightarrow> (int \<times> trans) option" where
  "trans_send self data = (case tr_proc self of
     Proc_Tcp \<Rightarrow> Some (g_tcp_send self data) | Proc_Tls \<Rightarrow> trans_tls_send self data)"

definition trans_can_recv :: "trans \<Rightarrow> bool \<times> trans" where
  "trans_can_recv self = (case tr_proc self of
     Proc_Tcp \<Rightarrow> g_sck_can_recv self | Proc_Tls \<Rightarrow> trans_tls_can_recv self)"

subsection \<open>Sending\<close>

text \<open>The decrement of \<open>temp_s->source[0]\<close>; the pointer leads into the \<open>source\<close> array of
  the shared \<open>source_info\<close>.\<close>

definition source_add :: "trans \<Rightarrow> nat option \<Rightarrow> int \<Rightarrow> trans option" where
  "source_add self src n = (case src of
     None \<Rightarrow> Some self
   | Some k \<Rightarrow> do {
       si \<leftarrow> tr_si self;
       if k < length (si_source si)
       then Some (self\<lparr>tr_si := Some (si\<lparr>si_source := (si_source si)[k := si_source si ! k + n]\<rparr>)\<rparr>)
       else None })"

text \<open>One turn of the loop of \<open>trans_send_waiting\<close> that found \<open>temp_s\<close> at the head of
  the queue: \<open>Some r\<close> is a \<open>return r\<close>, \<open>None\<close> goes on.\<close>

definition send_waiting_turn :: "bool \<Rightarrow> wait_stream \<Rightarrow> wait_stream list \<Rightarrow> trans \<Rightarrow> (int option \<times> trans) option" where
  "send_waiting_turn block temp_s rest self =
     (let (ready, self) = g_tcp_can_send self in
      if ready then do {
        (sent, self) \<leftarrow> trans_send self (ws_bytes temp_s);
        if sent > 0 then do {
          self \<leftarrow> source_add self (ws_source temp_s) (- sent);
          let left = drop (nat sent) (ws_bytes temp_s);
          Some (None, self\<lparr>tr_wait_s := (if left = [] then rest else temp_s\<lparr>ws_bytes := left\<rparr> # rest)\<rparr>) }
        else if sent = 0 then Some (Some 1, self)
        else if \<not> tr_would_block self then Some (Some 1, self)
        else Some (None, self) }
      else if block then
        (let (t, self) = term_asked self in Some (if t then Some 1 else None, self))
      else Some (None, self))"

definition queue_weight :: "wait_stream list \<Rightarrow> nat" where
  "queue_weight q = sum_list (map (\<lambda>w. Suc (length (ws_bytes w))) q)"

definition send_weight :: "trans \<Rightarrow> nat" where
  "send_weight self = length (tr_tx self) + length (tr_can_send self) + queue_weight (tr_wait_s self)"

text \<open>What a sending operation leaves alone.\<close>

definition send_frame :: "trans \<Rightarrow> trans \<Rightarrow> bool" where
  "send_frame self self' \<longleftrightarrow>
     tr_status self' = tr_status self \<and> tr_proc self' = tr_proc self \<and> tr_tls self' = tr_tls self
     \<and> tr_is_term self' = tr_is_term self \<and> tr_my_source self' = tr_my_source self
     \<and> tr_in_s self' = tr_in_s self \<and> tr_out_s self' = tr_out_s self \<and> tr_rx self' = tr_rx self
     \<and> tr_header_size self' = tr_header_size self \<and> tr_type1 self' = tr_type1 self
     \<and> map_option cur_source (tr_si self') = map_option cur_source (tr_si self)
     \<and> map_option (\<lambda>si. length (si_source si)) (tr_si self') = map_option (\<lambda>si. length (si_source si)) (tr_si self)"

lemma send_frame_refl [simp]: "send_frame self self"
  by (simp add: send_frame_def)

lemma send_frame_trans: "send_frame a b \<Longrightarrow> send_frame b c \<Longrightarrow> send_frame a c"
  by (simp add: send_frame_def)

text \<open>What one \<open>trans_send\<close> does, for both kinds of connection.\<close>

definition send_effect :: "trans \<Rightarrow> byte list \<Rightarrow> int \<Rightarrow> trans \<Rightarrow> bool" where
  "send_effect self data sent self' \<longleftrightarrow>
     tr_wire self' = tr_wire self @ take (nat sent) data \<and> -1 \<le> sent \<and> sent \<le> int (length data)
     \<and> (if tr_tx self = [] then sent = -1 \<and> \<not> tr_would_block self' \<and> tr_tx self' = []
        else tr_tx self' = tl (tr_tx self))
     \<and> tr_wait_s self' = tr_wait_s self \<and> tr_si self' = tr_si self \<and> tr_can_send self' = tr_can_send self
     \<and> send_frame self self'"

lemma g_tcp_send_effect: "g_tcp_send self data = (sent, self') \<Longrightarrow> send_effect self data sent self'"
proof (cases "tr_tx self")
  case Nil
  assume "g_tcp_send self data = (sent, self')"
  with Nil show ?thesis by (auto simp: g_tcp_send_def send_effect_def send_frame_def)
next
  case (Cons e r)
  assume "g_tcp_send self data = (sent, self')"
  with Cons show ?thesis by (cases e) (auto simp: g_tcp_send_def send_effect_def Let_def send_frame_def)
qed

text \<open>The forwarding buffer holds \<open>n\<close> bytes (or nothing is forwarded).\<close>

definition forward_ok :: "trans \<Rightarrow> nat \<Rightarrow> bool" where
  "forward_ok self n \<longleftrightarrow> (case tr_my_info self of None \<Rightarrow> True
     | Some p \<Rightarrow> send_to_slave p \<and> session_master p \<longrightarrow> n \<le> BUFFER_PACKET_SIZE)"

definition proc_ok :: "trans \<Rightarrow> bool" where
  "proc_ok self \<longleftrightarrow> (tr_proc self = Proc_Tls \<longrightarrow> tr_tls self)"

lemma trans_send_effect:
  assumes "trans_send self data = Some (sent, self')" and "proc_ok self"
  shows "send_effect self data sent self'"
proof -
  obtain rv s1 where g: "g_tcp_send self data = (rv, s1)" by (cases "g_tcp_send self data")
  note e = g_tcp_send_effect [OF g]
  show ?thesis
  proof (cases "tr_proc self")
    case Proc_Tcp
    with assms g e show ?thesis by (simp add: trans_send_def)
  next
    case Proc_Tls
    with assms g have "sent = rv \<and> (\<exists>i. self' = s1\<lparr>tr_my_info := i\<rparr>)"
      by (auto simp: trans_send_def trans_tls_send_def proc_ok_def bind_eq_Some Let_def
          split: option.splits if_splits) (metis trans.surjective trans.update_convs(19))+
    with e show ?thesis by (auto simp: send_effect_def send_frame_def)
  qed
qed

lemma trans_send_wp:
  assumes "proc_ok self" "forward_ok self (length data)"
  shows "wp (trans_send self data) (\<lambda>(sent, self'). send_effect self data sent self'
     \<and> (\<forall>n. forward_ok self n \<longrightarrow> forward_ok self' n))"
proof -
  obtain rv s1 where g: "g_tcp_send self data = (rv, s1)" by (cases "g_tcp_send self data")
  then have i: "tr_my_info s1 = tr_my_info self"
    by (auto simp: g_tcp_send_def Let_def split: list.splits tx_event.splits)
  have "\<exists>sent self'. trans_send self data = Some (sent, self') \<and> (\<forall>n. forward_ok self n \<longrightarrow> forward_ok self' n)"
  proof (cases "tr_proc self = Proc_Tls \<and> tr_my_info self \<noteq> None")
    case False
    with assms g i show ?thesis
      by (cases "tr_proc self") (auto simp: trans_send_def trans_tls_send_def proc_ok_def forward_ok_def)
  next
    case True
    then obtain p where p: "tr_my_info self = Some p" by blast
    with True assms g i show ?thesis
      by (auto simp: trans_send_def trans_tls_send_def proc_ok_def forward_ok_def
          sendDataToSlaveSession_def Let_def split: list.splits option.splits)
  qed
  then show ?thesis using trans_send_effect assms(1) by (fastforce simp: wp_exists)
qed

lemma source_add_frame:
  assumes "source_add self src n = Some self'"
  shows "\<exists>si. self' = self\<lparr>tr_si := si\<rparr>"
proof (cases src)
  case None
  with assms have "self' = self\<lparr>tr_si := tr_si self\<rparr>" by (simp add: source_add_def)
  then show ?thesis ..
next
  case (Some k)
  with assms show ?thesis by (auto simp: source_add_def bind_eq_Some split: if_splits)
qed

lemma queue_weight_simps [simp]:
  "queue_weight [] = 0" "queue_weight (w # q) = Suc (length (ws_bytes w)) + queue_weight q"
  by (simp_all add: queue_weight_def)

lemma g_tcp_can_send_weight:
  "g_tcp_can_send self = (b, self') \<Longrightarrow> (\<exists>q. self' = self\<lparr>tr_can_send := q\<rparr>)
     \<and> send_weight self' + (if b then 0 else 1) \<le> send_weight self"
proof (cases "tr_can_send self")
  case Nil
  assume "g_tcp_can_send self = (b, self')"
  with Nil have "self' = self\<lparr>tr_can_send := []\<rparr>" "b" by (auto simp: g_tcp_can_send_def)
  with Nil show ?thesis by (auto simp: send_weight_def)
qed (auto simp: g_tcp_can_send_def send_weight_def)

lemma term_asked_frame: "term_asked self = (b, self') \<Longrightarrow> \<exists>q. self' = self\<lparr>tr_terms := q\<rparr>"
proof (cases "tr_is_term self \<and> tr_terms self \<noteq> []")
  case False
  assume "term_asked self = (b, self')"
  with False have "self' = self\<lparr>tr_terms := tr_terms self\<rparr>"
    by (auto simp: term_asked_def split: if_splits)
  then show ?thesis ..
qed (auto simp: term_asked_def neq_Nil_conv)

lemma send_effect_weight:
  assumes "send_effect self data sent self'" "0 < sent \<or> tr_would_block self' \<and> sent < 0"
  shows "tr_tx self \<noteq> [] \<and> tr_tx self' = tl (tr_tx self)"
  using assms by (auto simp: send_effect_def split: if_splits)

lemma trans_send_no_tls:
  "\<not> proc_ok self \<Longrightarrow> trans_send self data = Some (1, self)"
  by (simp add: proc_ok_def trans_send_def trans_tls_send_def)

lemma send_waiting_turn_weight:
  assumes turn: "send_waiting_turn True temp_s rest self = Some (None, self')"
    and q: "tr_wait_s self = temp_s # rest"
  shows "send_weight self' < send_weight self"
proof -
  obtain ready s1 where c: "g_tcp_can_send self = (ready, s1)" by (cases "g_tcp_can_send self")
  from g_tcp_can_send_weight [OF c] q obtain cq where s1: "s1 = self\<lparr>tr_can_send := cq\<rparr>"
    and w: "send_weight s1 + (if ready then 0 else 1) \<le> send_weight self" by blast
  show ?thesis
  proof (cases ready)
    case False
    with turn c have "\<exists>t. term_asked s1 = (t, self')"
      by (auto simp: send_waiting_turn_def split: prod.splits)
    then obtain q' where "self' = s1\<lparr>tr_terms := q'\<rparr>" using term_asked_frame by blast
    with w False show ?thesis by (simp add: send_weight_def)
  next
    case True
    with turn c obtain sent s2 where s2: "trans_send s1 (ws_bytes temp_s) = Some (sent, s2)"
      and s2': "(if 0 < sent then (source_add s2 (ws_source temp_s) (- sent) \<bind> (\<lambda>s3. Some (None :: int option,
          s3\<lparr>tr_wait_s := (if drop (nat sent) (ws_bytes temp_s) = [] then rest
             else temp_s\<lparr>ws_bytes := drop (nat sent) (ws_bytes temp_s)\<rparr> # rest)\<rparr>))) = Some (None, self')
        else sent < 0 \<and> tr_would_block s2 \<and> self' = s2)"
      by (auto simp: send_waiting_turn_def bind_eq_Some Let_def split: if_splits)
    show ?thesis
    proof (cases "proc_ok s1")
      case False
      with s2 have s: "sent = 1" "s2 = s1" by (simp_all add: trans_send_no_tls)
      with s2' obtain si where "self' = s1\<lparr>tr_si := si, tr_wait_s := (if drop (nat sent) (ws_bytes temp_s) = [] then rest
             else temp_s\<lparr>ws_bytes := drop (nat sent) (ws_bytes temp_s)\<rparr> # rest)\<rparr>"
        by (auto simp: bind_eq_Some dest!: source_add_frame)
      with s w True q s1 show ?thesis by (auto simp: send_weight_def)
    next
      case ok: True
      from trans_send_effect [OF s2 ok] have e: "send_effect s1 (ws_bytes temp_s) sent s2" .
      show ?thesis
      proof (cases "0 < sent")
        case True
        with s2' obtain si where s': "self' = s2\<lparr>tr_si := si, tr_wait_s := (if drop (nat sent) (ws_bytes temp_s) = [] then rest
             else temp_s\<lparr>ws_bytes := drop (nat sent) (ws_bytes temp_s)\<rparr> # rest)\<rparr>"
          by (auto simp: bind_eq_Some dest!: source_add_frame)
        from send_effect_weight [OF e] True have "length (tr_tx s2) < length (tr_tx s1)" by auto
        with s' w e q s1 show ?thesis by (auto simp: send_weight_def send_effect_def)
      next
        case False
        with s2' e send_effect_weight [OF e] have "length (tr_tx s2) < length (tr_tx s1)" by auto
        with s2' False w e s1 show ?thesis by (auto simp: send_weight_def send_effect_def)
      qed
    qed
  qed
qed

function trans_send_waiting :: "trans \<Rightarrow> bool \<Rightarrow> (int \<times> trans) option" where
  "trans_send_waiting self block = (case tr_wait_s self of
     [] \<Rightarrow> Some (0, self)
   | temp_s # rest \<Rightarrow> do {
       (ret, self') \<leftarrow> send_waiting_turn block temp_s rest self;
       (case ret of
          Some r \<Rightarrow> Some (r, self')
        | None \<Rightarrow> if block then trans_send_waiting self' block else Some (0, self')) })"
  by pat_completeness auto
termination
  by (relation "measure (\<lambda>(self, block). send_weight self)") (auto intro: send_waiting_turn_weight)

declare trans_send_waiting.simps [simp del]

text \<open>The byte stream seen by the peer: what it was sent followed by what is queued for it.\<close>

definition queued :: "trans \<Rightarrow> byte list" where
  "queued self = concat (map ws_bytes (tr_wait_s self))"

definition outgoing :: "trans \<Rightarrow> byte list" where
  "outgoing self = tr_wire self @ queued self"

text \<open>The flow-control counter of source \<open>k\<close> less the bytes queued on its behalf.\<close>

definition queued_from :: "wait_stream list \<Rightarrow> nat \<Rightarrow> int" where
  "queued_from q k = sum_list (map (\<lambda>w. if ws_source w = Some k then int (length (ws_bytes w)) else 0) q)"

definition counter :: "trans \<Rightarrow> nat \<Rightarrow> int" where
  "counter self k = (case tr_si self of None \<Rightarrow> 0 | Some si \<Rightarrow> si_source si ! k)"

definition balance :: "trans \<Rightarrow> nat \<Rightarrow> int" where
  "balance self k = counter self k - queued_from (tr_wait_s self) k"

definition source_ok :: "trans \<Rightarrow> nat option \<Rightarrow> bool" where
  "source_ok self src \<longleftrightarrow> (case src of None \<Rightarrow> True | Some k \<Rightarrow>
     (case tr_si self of None \<Rightarrow> False | Some si \<Rightarrow> k < length (si_source si)))"

definition wait_ok :: "trans \<Rightarrow> wait_stream \<Rightarrow> bool" where
  "wait_ok self w \<longleftrightarrow> ws_bytes w \<noteq> [] \<and> forward_ok self (length (ws_bytes w)) \<and> source_ok self (ws_source w)"

definition trans_ok :: "trans \<Rightarrow> bool" where
  "trans_ok self \<longleftrightarrow> proc_ok self \<and> (\<forall>w \<in> set (tr_wait_s self). wait_ok self w)"

text \<open>The outcome of every sending operation: no byte of the outgoing stream is lost,
  duplicated or reordered, and the flow-control counters stay in balance.\<close>

definition conserves :: "trans \<Rightarrow> trans \<Rightarrow> bool" where
  "conserves self self' \<longleftrightarrow> trans_ok self' \<and> outgoing self' = outgoing self
     \<and> (\<forall>k. balance self' k = balance self k) \<and> send_frame self self'
     \<and> (\<forall>n. forward_ok self n \<longrightarrow> forward_ok self' n)"

lemma conserves_refl: "trans_ok self \<Longrightarrow> conserves self self"
  by (simp add: conserves_def)

lemma conserves_trans: "conserves a b \<Longrightarrow> conserves b c \<Longrightarrow> conserves a c"
  by (auto simp: conserves_def intro: send_frame_trans)

lemma source_ok_frame: "send_frame self self' \<Longrightarrow> source_ok self' src = source_ok self src"
  by (auto simp: send_frame_def source_ok_def split: option.splits)

lemma proc_ok_frame: "send_frame self self' \<Longrightarrow> proc_ok self' = proc_ok self"
  by (simp add: send_frame_def proc_ok_def)

lemma forward_ok_mono: "forward_ok self n \<Longrightarrow> m \<le> n \<Longrightarrow> forward_ok self m"
  by (auto simp: forward_ok_def split: option.splits)

text \<open>Updates of the scripts alone.\<close>

lemma conserves_script:
  assumes "trans_ok self" and "tr_wire self' = tr_wire self" and "tr_wait_s self' = tr_wait_s self"
    and "tr_si self' = tr_si self" and f: "send_frame self self'" and n: "\<forall>n. forward_ok self n \<longrightarrow> forward_ok self' n"
  shows "conserves self self'"
  using assms source_ok_frame [OF f] proc_ok_frame [OF f]
  by (auto simp: conserves_def trans_ok_def wait_ok_def outgoing_def queued_def balance_def counter_def)

lemma source_add_counter:
  assumes "source_ok self src"
  shows "wp (source_add self src n) (\<lambda>self'. (\<exists>si. self' = self\<lparr>tr_si := si\<rparr>) \<and> send_frame self self'
     \<and> (\<forall>k. counter self' k = counter self k + (if src = Some k then n else 0)))"
proof (cases src)
  case None
  then have "source_add self src n = Some self" "self = self\<lparr>tr_si := tr_si self\<rparr>"
    by (simp_all add: source_add_def)
  then have "\<exists>si. self = self\<lparr>tr_si := si\<rparr>" by blast
  with \<open>source_add self src n = Some self\<close> None show ?thesis by simp
next
  case (Some k)
  with assms show ?thesis
    by (auto simp: source_add_def source_ok_def counter_def send_frame_def nth_list_update split: option.splits)
qed

text \<open>The head of the queue after \<open>sent\<close> of its bytes went out.\<close>

lemma conserves_sent:
  assumes ok: "trans_ok self" and q: "tr_wait_s self = w # rest"
    and wire: "tr_wire self' = tr_wire self @ take n (ws_bytes w)" and n: "n \<le> length (ws_bytes w)"
    and q': "tr_wait_s self' = (if drop n (ws_bytes w) = [] then rest else w\<lparr>ws_bytes := drop n (ws_bytes w)\<rparr> # rest)"
    and c: "\<forall>k. counter self' k = counter self k + (if ws_source w = Some k then - int n else 0)"
    and f: "send_frame self self'" and fw: "\<forall>n. forward_ok self n \<longrightarrow> forward_ok self' n"
  shows "conserves self self'"
proof -
  have "outgoing self' = outgoing self"
  proof (cases "drop n (ws_bytes w) = []")
    case True
    then have "take n (ws_bytes w) = ws_bytes w" by simp
    with q wire q' True show ?thesis by (simp add: outgoing_def queued_def)
  next
    case False
    with q wire q' show ?thesis by (simp add: outgoing_def queued_def)
  qed
  moreover have "trans_ok self'"
    using ok q q' fw proc_ok_frame [OF f] source_ok_frame [OF f]
    by (auto simp: trans_ok_def wait_ok_def intro: forward_ok_mono)
  moreover have "balance self' k = balance self k" for k
    using c n q q' by (auto simp: balance_def queued_from_def)
  ultimately show ?thesis using f fw by (simp add: conserves_def)
qed

lemma g_tcp_can_send_conserves:
  "g_tcp_can_send self = (b, self') \<Longrightarrow> trans_ok self \<Longrightarrow> conserves self self' \<and> tr_wait_s self' = tr_wait_s self"
  by (intro conjI conserves_script)
    (auto simp: g_tcp_can_send_def send_frame_def forward_ok_def split: list.splits)

lemma term_asked_conserves: "term_asked self = (b, self') \<Longrightarrow> trans_ok self \<Longrightarrow> conserves self self'"
  by (intro conserves_script)
    (auto simp: term_asked_def send_frame_def forward_ok_def split: list.splits if_splits)

lemma send_waiting_turn_conserves:
  assumes ok: "trans_ok self" and q: "tr_wait_s self = w # rest"
  shows "wp (send_waiting_turn block w rest self) (\<lambda>(ret, self'). (ret = None \<or> ret = Some 1) \<and> conserves self self')"
proof -
  obtain ready s1 where c: "g_tcp_can_send self = (ready, s1)" by (cases "g_tcp_can_send self")
  from g_tcp_can_send_conserves [OF c ok] q have c1: "conserves self s1" and q1: "tr_wait_s s1 = w # rest" by auto
  then have ok1: "trans_ok s1" by (simp add: conserves_def)
  with q1 have p1: "proc_ok s1" and w1: "forward_ok s1 (length (ws_bytes w))" "source_ok s1 (ws_source w)"
    by (auto simp: trans_ok_def wait_ok_def)
  show ?thesis
  proof (cases ready)
    case False
    with c c1 ok1 show ?thesis
      by (auto simp: send_waiting_turn_def split: prod.splits intro: conserves_trans term_asked_conserves)
  next
    case True
    from trans_send_wp [OF p1 w1(1)] obtain sent s2 where s2: "trans_send s1 (ws_bytes w) = Some (sent, s2)"
      and e: "send_effect s1 (ws_bytes w) sent s2" and fw: "\<forall>n. forward_ok s1 n \<longrightarrow> forward_ok s2 n"
      by (auto simp: wp_exists)
    from e have f: "send_frame s1 s2" by (simp add: send_effect_def)
    show ?thesis
    proof (cases "sent > 0")
      case False
      with e ok1 fw f have "conserves s1 s2" by (intro conserves_script) (auto simp: send_effect_def)
      with c1 have "conserves self s2" by (rule conserves_trans)
      with False True c s2 show ?thesis by (simp add: send_waiting_turn_def)
    next
      case pos: True
      from w1(2) f have "source_ok s2 (ws_source w)" by (simp add: source_ok_frame)
      from source_add_counter [OF this, of "- sent"] obtain si where
        sa: "source_add s2 (ws_source w) (- sent) = Some (s2\<lparr>tr_si := si\<rparr>)" "send_frame s2 (s2\<lparr>tr_si := si\<rparr>)"
        "\<forall>k. counter (s2\<lparr>tr_si := si\<rparr>) k = counter s2 k + (if ws_source w = Some k then - sent else 0)"
        by (auto simp: wp_exists)
      let ?s3 = "s2\<lparr>tr_si := si, tr_wait_s := (if drop (nat sent) (ws_bytes w) = [] then rest
          else w\<lparr>ws_bytes := drop (nat sent) (ws_bytes w)\<rparr> # rest)\<rparr>"
      have "conserves s1 ?s3"
      proof (rule conserves_sent [OF ok1 q1, where n = "nat sent"])
        show "\<forall>k. counter ?s3 k = counter s1 k + (if ws_source w = Some k then - int (nat sent) else 0)"
          using sa(3) e pos by (simp add: counter_def send_effect_def)
        show "send_frame s1 ?s3" using send_frame_trans [OF f sa(2)] by (simp add: send_frame_def)
        show "\<forall>n. forward_ok s1 n \<longrightarrow> forward_ok ?s3 n" using fw by (simp add: forward_ok_def)
      qed (use e in \<open>auto simp: send_effect_def\<close>)
      with c1 have "conserves self ?s3" by (rule conserves_trans)
      with pos True c s2 sa(1) show ?thesis by (simp add: send_waiting_turn_def Let_def)
    qed
  qed
qed

text \<open>\<open>trans_send_waiting\<close> returns, without a fault, and a blocking call that reports
  success has emptied the queue.\<close>

lemma trans_send_waiting_conserves:
  "trans_ok self \<Longrightarrow> wp (trans_send_waiting self block)
     (\<lambda>(r, self'). (r = 0 \<or> r = 1) \<and> conserves self self' \<and> (block \<and> r = 0 \<longrightarrow> tr_wait_s self' = []))"
proof (induction self block rule: trans_send_waiting.induct)
  case (1 self block)
  show ?case
  proof (cases "tr_wait_s self")
    case Nil
    with 1 show ?thesis by (subst trans_send_waiting.simps) (simp add: conserves_refl)
  next
    case (Cons w rest)
    from send_waiting_turn_conserves [OF 1(2) Cons, of block] obtain ret s1
      where t: "send_waiting_turn block w rest self = Some (ret, s1)" "ret = None \<or> ret = Some 1" "conserves self s1"
      by (auto simp: wp_exists)
    show ?thesis
    proof (cases "ret = None \<and> block")
      case False
      with t Cons show ?thesis by (subst trans_send_waiting.simps) auto
    next
      case True
      from t(3) have "trans_ok s1" by (simp add: conserves_def)
      with 1(1) [OF Cons t(1) refl] True have ih: "wp (trans_send_waiting s1 block) (\<lambda>(r, self').
          (r = 0 \<or> r = 1) \<and> conserves s1 self' \<and> (block \<and> r = 0 \<longrightarrow> tr_wait_s self' = []))"
        by simp
      have "trans_send_waiting self block = trans_send_waiting s1 block"
        using True t(1) Cons by (subst trans_send_waiting.simps) simp
      with ih t(3) show ?thesis by (auto elim!: wp_mono intro: conserves_trans)
    qed
  qed
qed

subsection \<open>Writing a stream\<close>

text \<open>The bytes in \<open>[data, end)\<close>, as handed to \<open>send\<close>.\<close>

definition stream_bytes :: "stream \<Rightarrow> byte list option" where
  "stream_bytes s = (if 0 \<le> s_end s \<and> s_end s \<le> s_size s
     then read_bytes (s_data s) 0 (nat (s_end s)) else None)"

lemma stream_bytes_rewind [simp]: "stream_bytes (s\<lparr>s_p := n\<rparr>) = stream_bytes s"
  by (simp add: stream_bytes_def)

text \<open>The attempt to send right away: \<open>Some r\<close> returns, \<open>None\<close> goes on with what is left.\<close>

definition write_copy_try :: "trans \<Rightarrow> byte list \<Rightarrow> (int option \<times> byte list \<times> trans) option" where
  "write_copy_try self out_data =
     (if tr_wait_s self \<noteq> [] then Some (None, out_data, self)
      else let (ready, self) = g_tcp_can_send self in
        if \<not> ready then Some (None, out_data, self)
        else do {
          (sent, self) \<leftarrow> trans_send self out_data;
          if sent > 0 then Some (None, drop (nat sent) out_data, self)
          else if sent = 0 then Some (Some 1, out_data, self)
          else if \<not> tr_would_block self then Some (Some 1, out_data, self)
          else Some (None, out_data, self) })"

text \<open>The source charged for the queued copy.\<close>

definition charged_source :: "trans \<Rightarrow> nat option" where
  "charged_source self = (case tr_si self of None \<Rightarrow> None
     | Some si \<Rightarrow> if cur_source si \<noteq> 0 \<and> cur_source si \<noteq> tr_my_source self then Some (cur_source si) else None)"

definition trans_write_copy_s :: "trans \<Rightarrow> stream \<Rightarrow> (int \<times> trans) option" where
  "trans_write_copy_s self out_s =
     (if tr_status self \<noteq> TRANS_STATUS_UP then Some (1, self)
      else do {
        (r, self) \<leftarrow> trans_send_waiting self False;
        if r \<noteq> 0 then Some (1, self\<lparr>tr_status := TRANS_STATUS_DOWN\<rparr>)
        else do {
          out_data \<leftarrow> stream_bytes out_s;
          (ret, out_data, self) \<leftarrow> write_copy_try self out_data;
          (case ret of
             Some r \<Rightarrow> Some (r, self)
           | None \<Rightarrow>
               if length out_data < 1 then Some (0, self)
               else do {
                 let src = charged_source self;
                 self \<leftarrow> source_add self src (int (length out_data));
                 Some (0, self\<lparr>tr_wait_s := tr_wait_s self @ [\<lparr>ws_bytes = out_data, ws_source = src\<rparr>]\<rparr>) }) } })"

definition trans_write_copy :: "trans \<Rightarrow> (int \<times> trans) option" where
  "trans_write_copy self = trans_write_copy_s self (tr_out_s self)"

lemma send_weight_pos:
  assumes "trans_send self data = Some (sent, self')" "sent \<noteq> -1 \<or> tr_would_block self'" "sent \<noteq> 0" "data \<noteq> []"
  shows "length (tr_tx self') + length (drop (nat sent) data) < length (tr_tx self) + length data"
proof (cases "proc_ok self")
  case False
  with assms show ?thesis by (simp add: trans_send_no_tls)
next
  case True
  from trans_send_effect [OF assms(1) True] assms(2,3) show ?thesis
    by (cases "tr_tx self") (auto simp: send_effect_def)
qed

function force_write_loop :: "trans \<Rightarrow> byte list \<Rightarrow> (int \<times> trans) option" where
  "force_write_loop self data =
     (if data = [] then Some (0, self)
      else do {
        (sent, self1) \<leftarrow> trans_send self data;
        if sent = -1 then
          if tr_would_block self1 then
            (let (ready, self2) = g_tcp_can_send self1 in
             if ready then force_write_loop self2 data
             else (let (t, self3) = term_asked self2 in
               if t then Some (1, self3\<lparr>tr_status := TRANS_STATUS_DOWN\<rparr>)
               else force_write_loop self3 data))
          else Some (1, self1\<lparr>tr_status := TRANS_STATUS_DOWN\<rparr>)
        else if sent = 0 then Some (1, self1\<lparr>tr_status := TRANS_STATUS_DOWN\<rparr>)
        else force_write_loop self1 (drop (nat sent) data) })"
  by pat_completeness auto
termination
proof (relation "measure (\<lambda>(self, data). length (tr_tx self) + length data)", goal_cases)
  case 1
  show ?case by simp
next
  case (2 self data p sent self1 q ready self2)
  with send_weight_pos [of self data sent self1] g_tcp_can_send_weight [of self1 ready self2]
  show ?case by auto
next
  case (3 self data p sent self1 q ready self2 q' t self3)
  with send_weight_pos [of self data sent self1] g_tcp_can_send_weight [of self1 ready self2]
    term_asked_frame [of self2 t self3]
  show ?case by auto
next
  case (4 self data p sent self1)
  with send_weight_pos [of self data sent self1] show ?case by auto
qed

declare force_write_loop.simps [simp del]

definition trans_force_write_s :: "trans \<Rightarrow> stream \<Rightarrow> (int \<times> trans) option" where
  "trans_force_write_s self out_s =
     (if tr_status self \<noteq> TRANS_STATUS_UP then Some (1, self)
      else do {
        (r, self) \<leftarrow> trans_send_waiting self True;
        if r \<noteq> 0 then Some (1, self\<lparr>tr_status := TRANS_STATUS_DOWN\<rparr>)
        else do {
          data \<leftarrow> stream_bytes out_s;
          force_write_loop self data } })"

definition trans_force_write :: "trans \<Rightarrow> (int \<times> trans) option" where
  "trans_force_write self = trans_force_write_s self (tr_out_s self)"

subsection \<open>The writing contract\<close>

text \<open>
  An ordered writer: as long as the writes report success, the peer's byte stream is the
  concatenation of what was written. \<open>lim\<close> bounds the size of one write.
\<close>

locale ordered_writer =
  fixes inv :: "'c \<Rightarrow> bool"
    and total :: "'c \<Rightarrow> byte list"
    and send_op :: "'c \<Rightarrow> byte list \<Rightarrow> (int \<times> 'c) option"
    and lim :: nat
  assumes write_law: "inv c \<Longrightarrow> bs \<noteq> [] \<Longrightarrow> length bs \<le> lim \<Longrightarrow>
    wp (send_op c bs) (\<lambda>(r, c'). r = 0 \<longrightarrow> inv c' \<and> total c' = total c @ bs)"
begin

fun write_all :: "'c \<Rightarrow> byte list list \<Rightarrow> (int \<times> 'c) option" where
  "write_all c [] = Some (0, c)"
| "write_all c (bs # bss) = do {
     (r, c) \<leftarrow> send_op c bs;
     if r \<noteq> 0 then Some (r, c) else write_all c bss }"

lemma write_all_law:
  "inv c \<Longrightarrow> (\<forall>bs \<in> set bss. bs \<noteq> [] \<and> length bs \<le> lim) \<Longrightarrow>
     wp (write_all c bss) (\<lambda>(r, c'). r = 0 \<longrightarrow> inv c' \<and> total c' = total c @ concat bss)"
proof (induction bss arbitrary: c)
  case (Cons bs bss)
  from write_law [OF Cons.prems(1), of bs] Cons.prems(2) obtain r c1
    where w: "send_op c bs = Some (r, c1)" "r = 0 \<longrightarrow> inv c1 \<and> total c1 = total c @ bs"
    by (auto simp: wp_exists)
  show ?case
  proof (cases "r = 0")
    case True
    with w Cons.prems(2) have "wp (write_all c1 bss) (\<lambda>(r, c'). r = 0 \<longrightarrow> inv c' \<and> total c' = total c1 @ concat bss)"
      by (intro Cons.IH) simp_all
    with True w show ?thesis by simp
  qed (use w in simp)
qed simp

end

text \<open>\<open>trans_write_copy\<close> and \<open>trans_force_write\<close> on a stream that holds \<open>bs\<close>.\<close>

definition stream_of :: "byte list \<Rightarrow> stream" where
  "stream_of bs = s_mark_end (emit (init_stream make_stream (int (length bs))) bs)"

lemma stream_bytes_of: "stream_bytes (stream_of bs) = Some bs"
  using read_bytes_at [OF bytes_at_write_bytes [of _ 0 bs]]
  by (simp add: stream_bytes_def stream_of_def s_mark_end_def)

definition writer_ok :: "trans \<Rightarrow> bool" where
  "writer_ok self \<longleftrightarrow> trans_ok self \<and> tr_status self = TRANS_STATUS_UP \<and> source_ok self (charged_source self)"

lemma charged_source_frame: "send_frame self self' \<Longrightarrow> charged_source self' = charged_source self"
  by (cases "tr_si self"; cases "tr_si self'") (simp_all add: send_frame_def charged_source_def)

lemma writer_ok_conserves: "conserves self self' \<Longrightarrow> writer_ok self \<Longrightarrow> writer_ok self'"
  by (auto simp: conserves_def writer_ok_def charged_source_frame source_ok_frame)
    (simp add: send_frame_def)

text \<open>Nothing queued: a partial send leaves the rest in hand.\<close>

lemma write_copy_try_law:
  assumes ok: "writer_ok self" and fw: "forward_ok self (length bs)"
  shows "wp (write_copy_try self bs) (\<lambda>(ret, left, self'). (ret = None \<or> ret = Some 1)
     \<and> trans_ok self' \<and> send_frame self self' \<and> (\<forall>n. forward_ok self n \<longrightarrow> forward_ok self' n)
     \<and> tr_wait_s self' = tr_wait_s self \<and> (\<forall>k. balance self' k = balance self k)
     \<and> length left \<le> length bs
     \<and> (if ret = None then outgoing self' @ left = outgoing self @ bs else outgoing self' = outgoing self))"
proof (cases "tr_wait_s self = []")
  case False
  with ok show ?thesis by (simp add: write_copy_try_def writer_ok_def)
next
  case empty: True
  from ok have tok: "trans_ok self" by (simp add: writer_ok_def)
  obtain ready s1 where c: "g_tcp_can_send self = (ready, s1)" by (cases "g_tcp_can_send self")
  from g_tcp_can_send_conserves [OF c tok] empty have c1: "conserves self s1" and q1: "tr_wait_s s1 = []" by auto
  show ?thesis
  proof (cases ready)
    case False
    with c c1 q1 empty show ?thesis by (simp add: write_copy_try_def conserves_def)
  next
    case True
    from c1 fw have "proc_ok s1" "forward_ok s1 (length bs)" by (auto simp: conserves_def trans_ok_def)
    from trans_send_wp [OF this] obtain sent s2 where s2: "trans_send s1 bs = Some (sent, s2)"
      and e: "send_effect s1 bs sent s2" and fw2: "\<forall>n. forward_ok s1 n \<longrightarrow> forward_ok s2 n"
      by (auto simp: wp_exists)
    from e q1 have q2: "tr_wait_s s2 = []" and f2: "send_frame s1 s2" by (simp_all add: send_effect_def)
    have t2: "trans_ok s2" using c1 q2 proc_ok_frame [OF f2] by (simp add: conserves_def trans_ok_def)
    have f: "send_frame self s2" using c1 f2 by (auto simp: conserves_def intro: send_frame_trans)
    have b: "balance s2 k = balance self k" for k
      using c1 e q1 q2 by (auto simp: conserves_def balance_def counter_def send_effect_def)
    have fw3: "\<forall>n. forward_ok self n \<longrightarrow> forward_ok s2 n" using c1 fw2 by (simp add: conserves_def)
    have o: "outgoing s2 = outgoing self @ take (nat sent) bs"
      using c1 e q1 q2 by (simp add: conserves_def outgoing_def queued_def send_effect_def)
    show ?thesis
      using True c s2 q2 t2 f b fw3 o empty e
      by (auto simp: write_copy_try_def send_effect_def)
  qed
qed

lemma enqueue_conserves:
  assumes ok: "trans_ok self" and fw: "forward_ok self (length bs)" and ne: "bs \<noteq> []"
    and src: "source_ok self src"
  shows "wp (source_add self src (int (length bs))) (\<lambda>s. let self' = s\<lparr>tr_wait_s := tr_wait_s s @ [\<lparr>ws_bytes = bs, ws_source = src\<rparr>]\<rparr>
     in trans_ok self' \<and> send_frame self self' \<and> outgoing self' = outgoing self @ bs \<and> (\<forall>k. balance self' k = balance self k)
       \<and> (\<forall>n. forward_ok self n \<longrightarrow> forward_ok self' n))"
proof -
  from source_add_counter [OF src, of "int (length bs)"] obtain si where
    sa: "source_add self src (int (length bs)) = Some (self\<lparr>tr_si := si\<rparr>)" "send_frame self (self\<lparr>tr_si := si\<rparr>)"
      "\<forall>k. counter (self\<lparr>tr_si := si\<rparr>) k = counter self k + (if src = Some k then int (length bs) else 0)"
    by (auto simp: wp_exists)
  let ?s = "self\<lparr>tr_si := si, tr_wait_s := tr_wait_s self @ [\<lparr>ws_bytes = bs, ws_source = src\<rparr>]\<rparr>"
  have f: "send_frame self ?s" using sa(2) by (simp add: send_frame_def)
  have fws: "forward_ok ?s n = forward_ok self n" for n by (simp add: forward_ok_def)
  have "trans_ok ?s"
    using ok fw ne src by (auto simp: trans_ok_def wait_ok_def source_ok_frame [OF f] proc_ok_frame [OF f] fws)
  moreover have "balance ?s k = balance self k" for k
    using sa(3) by (simp add: balance_def queued_from_def counter_def)
  moreover have "outgoing ?s = outgoing self @ bs" by (simp add: outgoing_def queued_def)
  ultimately show ?thesis using sa(1) f fws by (simp add: Let_def)
qed

text \<open>A success appends exactly the stream's bytes to the outgoing stream; a failure leaves the
  outgoing stream as it was.\<close>

lemma send_frame_status: "send_frame self self' \<Longrightarrow> send_frame (self\<lparr>tr_status := tr_status self'\<rparr>) self'"
  by (simp add: send_frame_def)

lemma trans_ok_status [simp]:
  "source_ok (self\<lparr>tr_status := v\<rparr>) src = source_ok self src"
  "charged_source (self\<lparr>tr_status := v\<rparr>) = charged_source self"
  "forward_ok (self\<lparr>tr_status := v\<rparr>) n = forward_ok self n"
  "trans_ok (self\<lparr>tr_status := v\<rparr>) = trans_ok self"
proof -
  show a: "source_ok (self\<lparr>tr_status := v\<rparr>) src = source_ok self src" for src
    by (cases src) (simp_all add: source_ok_def)
  show "charged_source (self\<lparr>tr_status := v\<rparr>) = charged_source self"
    by (cases "tr_si self") (simp_all add: charged_source_def)
  show b: "forward_ok (self\<lparr>tr_status := v\<rparr>) n = forward_ok self n" for n
    by (simp add: forward_ok_def)
  show "trans_ok (self\<lparr>tr_status := v\<rparr>) = trans_ok self"
    by (simp add: trans_ok_def wait_ok_def proc_ok_def a b)
qed

lemma trans_write_copy_s_law:
  assumes ok: "writer_ok self" and bs: "stream_bytes s = Some bs" and fw: "forward_ok self (length bs)"
  shows "wp (trans_write_copy_s self s) (\<lambda>(r, self').
     outgoing self' = outgoing self @ (if r = 0 then bs else []) \<and> (\<forall>k. balance self' k = balance self k)
     \<and> (r = 0 \<longrightarrow> writer_ok self' \<and> send_frame self self') \<and> (r = 0 \<or> r = 1)
     \<and> trans_ok self' \<and> send_frame (self\<lparr>tr_status := tr_status self'\<rparr>) self')"
proof -
  from ok have tok: "trans_ok self" and up: "tr_status self = 1" by (simp_all add: writer_ok_def)
  from trans_send_waiting_conserves [OF tok, of False] obtain r s1 where
    s1: "trans_send_waiting self False = Some (r, s1)" "conserves self s1" by (auto simp: wp_exists)
  from s1(2) have c1: "outgoing s1 = outgoing self" "\<forall>k. balance s1 k = balance self k" "send_frame self s1"
    by (simp_all add: conserves_def)
  show ?thesis
  proof (cases "r = 0")
    case False
    have "trans_ok s1" using s1(2) by (simp add: conserves_def)
    with False s1 c1 up show ?thesis
      by (simp add: trans_write_copy_s_def outgoing_def queued_def balance_def counter_def)
        (simp add: send_frame_def)
  next
    case r0: True
    have ok1: "writer_ok s1" using writer_ok_conserves [OF s1(2) ok] .
    have fw1: "forward_ok s1 (length bs)" using s1(2) fw by (simp add: conserves_def)
    from write_copy_try_law [OF ok1 fw1] obtain ret left s2 where t: "write_copy_try s1 bs = Some (ret, left, s2)"
      "ret = None \<or> ret = Some 1" "trans_ok s2" "send_frame s1 s2" "\<forall>n. forward_ok s1 n \<longrightarrow> forward_ok s2 n"
      "\<forall>k. balance s2 k = balance s1 k" "length left \<le> length bs"
      "if ret = None then outgoing s2 @ left = outgoing s1 @ bs else outgoing s2 = outgoing s1"
      by (auto simp: wp_exists)
    have f2: "send_frame self s2" using c1(3) t(4) by (rule send_frame_trans)
    then have w2: "writer_ok s2" using t(3) ok
      by (simp add: writer_ok_def charged_source_frame source_ok_frame) (simp add: send_frame_def)
    show ?thesis
    proof (cases "ret = None \<and> left \<noteq> []")
      case False
      with t f2 c1 w2 r0 s1 up bs send_frame_status [OF f2] show ?thesis by (auto simp: trans_write_copy_s_def)
    next
      case True
      have "forward_ok s2 (length left)" using t(5,7) fw1 by (blast intro: forward_ok_mono)
      from enqueue_conserves [OF t(3) this _ conjunct2 [OF conjunct2 [OF w2 [unfolded writer_ok_def]]]] True
      obtain s3 where s3: "source_add s2 (charged_source s2) (int (length left)) = Some s3"
        and q: "let self' = s3\<lparr>tr_wait_s := tr_wait_s s3 @ [\<lparr>ws_bytes = left, ws_source = charged_source s2\<rparr>]\<rparr>
          in trans_ok self' \<and> send_frame s2 self' \<and> outgoing self' = outgoing s2 @ left
            \<and> (\<forall>k. balance self' k = balance s2 k) \<and> (\<forall>n. forward_ok s2 n \<longrightarrow> forward_ok self' n)"
        by (auto simp: wp_exists)
      let ?s4 = "s3\<lparr>tr_wait_s := tr_wait_s s3 @ [\<lparr>ws_bytes = left, ws_source = charged_source s2\<rparr>]\<rparr>"
      have f4: "send_frame s2 ?s4" using q by (simp add: Let_def)
      have "writer_ok ?s4"
        using q w2 charged_source_frame [OF f4] source_ok_frame [OF f4] f4
        by (simp add: Let_def writer_ok_def send_frame_def)
      moreover have "send_frame self ?s4" using f2 f4 by (rule send_frame_trans)
      moreover have "trans_write_copy_s self s = Some (0, ?s4)"
        using True up s1(1) r0 bs t(1) s3 by (simp add: trans_write_copy_s_def Let_def)
      moreover have "send_frame (self\<lparr>tr_status := tr_status ?s4\<rparr>) ?s4" "trans_ok ?s4"
        using send_frame_status [OF \<open>send_frame self ?s4\<close>] q by (simp_all add: Let_def)
      ultimately show ?thesis using q t(6,8) c1 True by (simp add: Let_def)
    qed
  qed
qed

definition force_write_post :: "trans \<Rightarrow> byte list \<Rightarrow> int \<times> trans \<Rightarrow> bool" where
  "force_write_post self data = (\<lambda>(r, self'). (r = 0 \<or> r = 1) \<and>
     (r = 0 \<longrightarrow> tr_wire self' = tr_wire self @ data \<and> trans_ok self' \<and> tr_wait_s self' = [] \<and> send_frame self self')
     \<and> (r = 1 \<longrightarrow> tr_status self' = TRANS_STATUS_DOWN))"

lemma force_write_post_step:
  "wp m (force_write_post s1 d1) \<Longrightarrow> tr_wire s1 @ d1 = tr_wire self @ data \<Longrightarrow> send_frame self s1 \<Longrightarrow>
     wp m (force_write_post self data)"
  by (auto simp: force_write_post_def elim!: wp_mono intro: send_frame_trans)

lemma force_write_loop_law:
  "trans_ok self \<Longrightarrow> tr_wait_s self = [] \<Longrightarrow> forward_ok self (length data) \<Longrightarrow>
     wp (force_write_loop self data) (force_write_post self data)"
proof (induction self data rule: force_write_loop.induct)
  case (1 self data)
  show ?case
  proof (cases "data = []")
    case True
    with 1 show ?thesis by (subst force_write_loop.simps) (simp add: force_write_post_def)
  next
    case ne: False
    from 1(4) have "proc_ok self" by (simp add: trans_ok_def)
    from trans_send_wp [OF this 1(6)] obtain sent s1 where s1: "trans_send self data = Some (sent, s1)"
      and e: "send_effect self data sent s1" and fw: "\<forall>n. forward_ok self n \<longrightarrow> forward_ok s1 n"
      by (auto simp: wp_exists)
    from e have f1: "send_frame self s1" and w1: "tr_wire s1 = tr_wire self @ take (nat sent) data"
      by (simp_all add: send_effect_def)
    from e 1(4,5) have q1: "trans_ok s1" "tr_wait_s s1 = []"
      using proc_ok_frame [OF f1] by (auto simp: send_effect_def trans_ok_def)
    obtain ready s2 where c: "g_tcp_can_send s1 = (ready, s2)" by (cases "g_tcp_can_send s1")
    from g_tcp_can_send_conserves [OF c q1(1)] q1 have c2: "conserves s1 s2" "tr_wait_s s2 = []" by auto
    obtain tm s3 where tm: "term_asked s2 = (tm, s3)" by (cases "term_asked s2")
    from c2 have "trans_ok s2" by (simp add: conserves_def)
    from conserves_trans [OF c2(1) term_asked_conserves [OF tm this]] term_asked_frame [OF tm] c2(2)
    have c3: "conserves s1 s3" "tr_wait_s s3 = []" by auto
    have again: "wp (force_write_loop s data) (force_write_post self data)"
      if "sent = -1" "conserves s1 s" "tr_wait_s s = []"
        and "trans_ok s \<Longrightarrow> tr_wait_s s = [] \<Longrightarrow> forward_ok s (length data) \<Longrightarrow>
          wp (force_write_loop s data) (force_write_post s data)" for s
      by (rule force_write_post_step [OF that(4)])
        (use that(1-3) fw f1 w1 q1(2) 1(6) in \<open>auto simp: conserves_def outgoing_def queued_def intro: send_frame_trans\<close>)
    show ?thesis
    proof (cases "sent = -1 \<and> tr_would_block s1 \<and> (ready \<or> \<not> tm) \<or> sent \<noteq> 0 \<and> sent \<noteq> -1")
      case False
      then show ?thesis
        using ne s1 c tm by (subst force_write_loop.simps) (auto simp: force_write_post_def)
    next
      case True
      consider (ready) "sent = -1" "tr_would_block s1" ready
        | (retry) "sent = -1" "tr_would_block s1" "\<not> ready" "\<not> tm"
        | (some) "sent \<noteq> 0" "sent \<noteq> -1"
        using True by auto
      then show ?thesis
      proof cases
        case ready
        have "force_write_loop self data = force_write_loop s2 data"
          using ready ne s1 c by (subst force_write_loop.simps) simp
        with again [OF ready(1) c2] 1(1) [OF ne s1 refl ready(1,2) c [symmetric] refl ready(3)]
        show ?thesis by simp
      next
        case retry
        have "force_write_loop self data = force_write_loop s3 data"
          using retry ne s1 c tm by (subst force_write_loop.simps) simp
        with again [OF retry(1) c3] 1(2) [OF ne s1 refl retry(1,2) c [symmetric] refl retry(3) tm [symmetric] refl retry(4)]
        show ?thesis by simp
      next
        case some
        have "force_write_loop self data = force_write_loop s1 (drop (nat sent) data)"
          using some ne s1 by (subst force_write_loop.simps) simp
        moreover have "forward_ok s1 (length (drop (nat sent) data))"
          using fw 1(6) by (auto intro: forward_ok_mono)
        ultimately show ?thesis
          using force_write_post_step [OF 1(3) [OF ne s1 refl some(2,1) q1]] w1 f1 by simp
      qed
    qed
  qed
qed

text \<open>Success: everything queued earlier and then the whole stream are on the wire.\<close>

lemma trans_force_write_s_law:
  assumes ok: "writer_ok self" and bs: "stream_bytes s = Some bs" and fw: "forward_ok self (length bs)"
  shows "wp (trans_force_write_s self s) (\<lambda>(r, self'). (r = 0 \<or> r = 1)
     \<and> (r = 0 \<longrightarrow> tr_wire self' = outgoing self @ bs \<and> tr_wait_s self' = [] \<and> writer_ok self')
     \<and> (r = 1 \<longrightarrow> tr_status self' = TRANS_STATUS_DOWN))"
proof -
  from ok have tok: "trans_ok self" and up: "tr_status self = 1" by (simp_all add: writer_ok_def)
  from trans_send_waiting_conserves [OF tok, of True] obtain r s1 where
    s1: "trans_send_waiting self True = Some (r, s1)" "conserves self s1" "r = 0 \<longrightarrow> tr_wait_s s1 = []"
    by (auto simp: wp_exists)
  show ?thesis
  proof (cases "r = 0")
    case False
    with s1 up show ?thesis by (simp add: trans_force_write_s_def)
  next
    case True
    with s1 have q1: "tr_wait_s s1 = []" and "trans_ok s1" and o: "tr_wire s1 = outgoing self"
      and "forward_ok s1 (length bs)" using fw by (auto simp: conserves_def outgoing_def queued_def)
    from force_write_loop_law [OF \<open>trans_ok s1\<close> q1 \<open>forward_ok s1 (length bs)\<close>]
    have "wp (force_write_loop s1 bs) (force_write_post s1 bs)" .
    moreover have "writer_ok s'" if "send_frame s1 s'" "trans_ok s'" for s'
      using writer_ok_conserves [OF s1(2) ok] that
      by (simp add: writer_ok_def charged_source_frame source_ok_frame) (simp add: send_frame_def)
    ultimately show ?thesis
      using True s1 up bs o by (auto simp: trans_force_write_s_def force_write_post_def elim!: wp_mono)
  qed
qed

lemma forward_ok_packet: "n \<le> BUFFER_PACKET_SIZE \<Longrightarrow> forward_ok self n"
  by (auto simp: forward_ok_def split: option.splits)

text \<open>Whatever its status, a sound transport can be written to without a fault.\<close>

definition trans_safe :: "trans \<Rightarrow> bool" where
  "trans_safe self \<longleftrightarrow> trans_ok self \<and> source_ok self (charged_source self)"

lemma writer_ok_safe: "writer_ok self \<longleftrightarrow> trans_safe self \<and> tr_status self = TRANS_STATUS_UP"
  by (auto simp: writer_ok_def trans_safe_def)

lemma trans_write_copy_s_safe:
  assumes "trans_safe self" "stream_bytes s = Some bs" "forward_ok self (length bs)"
  shows "wp (trans_write_copy_s self s) (\<lambda>(r, self'). (r = 0 \<or> r = 1) \<and> trans_safe self'
     \<and> send_frame (self\<lparr>tr_status := tr_status self'\<rparr>) self')"
proof (cases "tr_status self = TRANS_STATUS_UP")
  case False
  with assms(1) show ?thesis by (simp add: trans_write_copy_s_def)
next
  case True
  have "source_ok self' (charged_source self')"
    if "send_frame (self\<lparr>tr_status := v\<rparr>) self'" for v self'
    using assms(1) source_ok_frame [OF that] charged_source_frame [OF that] by (simp add: trans_safe_def)
  with trans_write_copy_s_law [of self s bs] assms True show ?thesis
    by (auto simp: writer_ok_safe wp_exists) (simp_all add: trans_safe_def)
qed

interpretation wcopy: ordered_writer writer_ok outgoing "\<lambda>c bs. trans_write_copy_s c (stream_of bs)" BUFFER_PACKET_SIZE
  by unfold_locales
    (rule wp_mono [OF trans_write_copy_s_law [OF _ stream_bytes_of forward_ok_packet]]; auto)

interpretation wforce: ordered_writer writer_ok outgoing "\<lambda>c bs. trans_force_write_s c (stream_of bs)" BUFFER_PACKET_SIZE
  by unfold_locales
    (rule wp_mono [OF trans_force_write_s_law [OF _ stream_bytes_of forward_ok_packet]];
      auto simp: outgoing_def queued_def)

end
