(* ===== verification/Trans_Recv.thy ===== *)
theory Trans_Recv
  imports Trans
begin

text \<open>
  The receiving side of \<open>common/trans.c\<close>, the transport's event handler
  \<open>trans_check_wait_objs\<close>, its construction and destruction, the connection and listening
  calls, and the two functions of \<open>libxrdp/libxrdp.c\<close> that read one whole protocol frame.
\<close>

subsection \<open>Reading a number of bytes\<close>

lemma g_tcp_recv_weight:
  assumes "g_tcp_recv self s sz = Some (rcvd, self1, s1)" "rcvd \<noteq> 0" "0 < sz"
  shows "length (tr_rx self1) + nat (sz - max rcvd 0) < length (tr_rx self) + nat sz"
proof (cases "tr_rx self")
  case (Cons e r)
  with assms show ?thesis
    by (cases e) (auto simp: g_tcp_recv_def Let_def split: if_splits)
qed (use assms in \<open>simp add: g_tcp_recv_def\<close>)

lemma trans_recv_weight:
  assumes "trans_recv self s sz = Some (rcvd, self1, s1)" "rcvd \<noteq> 0" "0 < sz"
  shows "length (tr_rx self1) + nat (sz - max rcvd 0) < length (tr_rx self) + nat sz"
  using assms g_tcp_recv_weight [of self s sz rcvd self1 s1]
  by (auto simp: trans_recv_def trans_tls_recv_def split: trans_proc.splits if_splits)

lemma trans_can_recv_frame: "trans_can_recv self = (b, self') \<Longrightarrow> \<exists>q. self' = self\<lparr>tr_can_recv := q\<rparr>"
proof -
  assume a: "trans_can_recv self = (b, self')"
  show ?thesis
  proof (cases "self' = self")
    case True
    then have "self' = self\<lparr>tr_can_recv := tr_can_recv self\<rparr>" by simp
    then show ?thesis ..
  next
    case False
    with a show ?thesis
      by (auto simp: trans_can_recv_def trans_tls_can_recv_def g_sck_can_recv_def
          split: trans_proc.splits if_splits list.splits)
  qed
qed

function force_read_loop :: "trans \<Rightarrow> stream \<Rightarrow> int \<Rightarrow> (int \<times> trans \<times> stream) option" where
  "force_read_loop self in_s sz =
     (if sz \<le> 0 then Some (0, self, in_s)
      else if s_end in_s + sz > s_size in_s then Some (1, self, in_s)
      else do {
        (rcvd, self1, in_s1) \<leftarrow> trans_recv self in_s sz;
        if rcvd = -1 then
          if tr_would_block self1 then
            (let (ready, self2) = trans_can_recv self1 in
             if ready then force_read_loop self2 in_s1 sz
             else (let (t, self3) = term_asked self2 in
               if t then Some (1, self3\<lparr>tr_status := TRANS_STATUS_DOWN\<rparr>, in_s1)
               else force_read_loop self3 in_s1 sz))
          else Some (1, self1\<lparr>tr_status := TRANS_STATUS_DOWN\<rparr>, in_s1)
        else if rcvd = 0 then Some (1, self1\<lparr>tr_status := TRANS_STATUS_DOWN\<rparr>, in_s1)
        else force_read_loop self1 (in_s1\<lparr>s_end := s_end in_s1 + rcvd\<rparr>) (sz - rcvd) })"
  by pat_completeness auto
termination
proof (relation "measure (\<lambda>(self, in_s, sz). length (tr_rx self) + nat sz)", goal_cases)
  case 1
  show ?case by simp
next
  case (2 self in_s sz p rcvd q self1 in_s1 x ready self2)
  with trans_recv_weight [of self in_s sz rcvd self1 in_s1] trans_can_recv_frame [of self1 ready self2]
  show ?case by auto
next
  case (3 self in_s sz p rcvd q self1 in_s1 x ready self2 y t self3)
  with trans_recv_weight [of self in_s sz rcvd self1 in_s1] trans_can_recv_frame [of self1 ready self2]
    term_asked_frame [of self2 t self3]
  show ?case by auto
next
  case (4 self in_s sz p rcvd q self1 in_s1)
  have "-1 \<le> rcvd" using 4
    by (auto simp: trans_recv_def trans_tls_recv_def g_tcp_recv_def Let_def
        split: trans_proc.splits if_splits list.splits rx_event.splits)
  with 4 trans_recv_weight [of self in_s sz rcvd self1 in_s1] show ?case by (auto simp: max_def)
qed

declare force_read_loop.simps [simp del]

definition trans_force_read_s :: "trans \<Rightarrow> stream \<Rightarrow> int \<Rightarrow> (int \<times> trans \<times> stream) option" where
  "trans_force_read_s self in_s sz =
     (if tr_status self \<noteq> TRANS_STATUS_UP then Some (1, self, in_s)
      else force_read_loop self in_s sz)"

definition trans_force_read :: "trans \<Rightarrow> int \<Rightarrow> (int \<times> trans) option" where
  "trans_force_read self sz = do {
     (r, self, in_s) \<leftarrow> trans_force_read_s self (tr_in_s self) sz;
     Some (r, self\<lparr>tr_in_s := in_s\<rparr>) }"

text \<open>The bytes the peer delivers before it closes, fails, or sends an empty segment (which
  \<open>recv\<close> reports as a close).\<close>

fun rx_stream :: "rx_event list \<Rightarrow> byte list" where
  "rx_stream [] = []"
| "rx_stream (Rx_Block # r) = rx_stream r"
| "rx_stream (Rx_Error # r) = []"
| "rx_stream (Rx_Bytes bs # r) = (if bs = [] then [] else bs @ rx_stream r)"

text \<open>What receiving leaves alone.\<close>

definition recv_frame :: "trans \<Rightarrow> trans \<Rightarrow> bool" where
  "recv_frame self self' \<longleftrightarrow>
     tr_wire self' = tr_wire self \<and> tr_wait_s self' = tr_wait_s self \<and> tr_tx self' = tr_tx self
     \<and> tr_in_s self' = tr_in_s self \<and> tr_out_s self' = tr_out_s self \<and> tr_proc self' = tr_proc self
     \<and> tr_tls self' = tr_tls self \<and> tr_is_term self' = tr_is_term self \<and> tr_sck self' = tr_sck self
     \<and> tr_type1 self' = tr_type1 self \<and> tr_header_size self' = tr_header_size self
     \<and> tr_si self' = tr_si self \<and> tr_my_source self' = tr_my_source self
     \<and> tr_my_info self' = tr_my_info self \<and> tr_can_send self' = tr_can_send self
     \<and> tr_no_stream_init_on_data_in self' = tr_no_stream_init_on_data_in self"

lemma recv_frame_refl [simp]: "recv_frame self self"
  by (simp add: recv_frame_def)

lemma recv_frame_trans: "recv_frame a b \<Longrightarrow> recv_frame b c \<Longrightarrow> recv_frame a c"
  by (simp add: recv_frame_def)

text \<open>Nobody asks the process to terminate.\<close>

definition no_term :: "trans \<Rightarrow> bool" where
  "no_term self \<longleftrightarrow> (tr_is_term self \<longrightarrow> True \<notin> set (tr_terms self))"

lemma status_down_frame [simp]:
  "recv_frame self (x\<lparr>tr_status := v\<rparr>) = recv_frame self x" "no_term (x\<lparr>tr_status := v\<rparr>) = no_term x"
  by (simp_all add: recv_frame_def no_term_def)

definition recv_step :: "trans \<Rightarrow> stream \<Rightarrow> int \<Rightarrow> int \<times> trans \<times> stream \<Rightarrow> bool" where
  "recv_step self s sz = (\<lambda>(rcvd, self1, s1). recv_frame self self1 \<and> tr_status self1 = tr_status self
     \<and> tr_terms self1 = tr_terms self \<and> -1 \<le> rcvd \<and> rcvd \<le> sz
     \<and> (rcvd \<le> 0 \<longrightarrow> s1 = s \<and> (if rcvd = -1 \<and> tr_would_block self1
            then rx_stream (tr_rx self1) = rx_stream (tr_rx self) else rx_stream (tr_rx self) = []))
     \<and> (0 < rcvd \<longrightarrow> rcvd \<le> int (length (rx_stream (tr_rx self)))
          \<and> rx_stream (tr_rx self1) = drop (nat rcvd) (rx_stream (tr_rx self))
          \<and> s1 = s\<lparr>s_data := write_bytes (s_data s) (s_end s) (take (nat rcvd) (rx_stream (tr_rx self)))\<rparr>))"

lemma g_tcp_recv_step:
  assumes "0 < sz" "0 \<le> s_end s" "s_end s + sz \<le> s_size s"
  shows "wp (g_tcp_recv self s sz) (recv_step self s sz)"
proof (cases "tr_rx self")
  case Nil
  with assms show ?thesis by (simp add: g_tcp_recv_def recv_step_def)
next
  case (Cons e r)
  show ?thesis
  proof (cases e)
    case (Rx_Bytes bs)
    with Cons assms show ?thesis
      by (cases "nat sz < length bs") (auto simp: g_tcp_recv_def recv_step_def recv_frame_def Let_def min_def)
  qed (use Cons assms in \<open>simp_all add: g_tcp_recv_def recv_step_def recv_frame_def\<close>)
qed

lemma trans_recv_step:
  assumes "proc_ok self" "0 < sz" "0 \<le> s_end s" "s_end s + sz \<le> s_size s"
  shows "wp (trans_recv self s sz) (recv_step self s sz)"
  using g_tcp_recv_step [OF assms(2-4), of self] assms(1)
  by (cases "tr_proc self") (simp_all add: trans_recv_def trans_tls_recv_def proc_ok_def)

text \<open>The result of reading \<open>sz\<close> bytes depends on the byte stream alone, not on how the
  network cut it into segments or on how often the call had to wait.\<close>

definition force_read_post :: "trans \<Rightarrow> stream \<Rightarrow> int \<Rightarrow> int \<times> trans \<times> stream \<Rightarrow> bool" where
  "force_read_post self s sz = (\<lambda>(r, self', s'). recv_frame self self' \<and> (r = 0 \<or> r = 1)
     \<and> (r = 0 \<longrightarrow> tr_status self' = tr_status self
        \<and> nat sz \<le> length (rx_stream (tr_rx self))
        \<and> rx_stream (tr_rx self') = drop (nat sz) (rx_stream (tr_rx self))
        \<and> s' = s\<lparr>s_data := write_bytes (s_data s) (s_end s) (take (nat sz) (rx_stream (tr_rx self))), s_end := s_end s + max 0 sz\<rparr>)
     \<and> (r = 1 \<longrightarrow> tr_status self' = TRANS_STATUS_DOWN)
     \<and> (no_term self \<longrightarrow> no_term self' \<and> (nat sz \<le> length (rx_stream (tr_rx self)) \<longrightarrow> r = 0)))"

lemma term_asked_no_term:
  assumes "term_asked self = (t, self')" "no_term self"
  shows "\<not> t \<and> no_term self'"
proof (cases "tr_is_term self")
  case True
  with assms show ?thesis by (cases "tr_terms self") (auto simp: term_asked_def no_term_def)
qed (use assms in \<open>auto simp: term_asked_def\<close>)

lemma can_recv_term_frame:
  assumes c: "trans_can_recv self = (b, s1)" and tm: "term_asked s1 = (t, s2)"
  shows "no_term self \<Longrightarrow> \<not> t"
    "\<And>s. s = s1 \<or> s = s2 \<Longrightarrow> recv_frame self s \<and> tr_status s = tr_status self
       \<and> (no_term self \<longrightarrow> no_term s) \<and> tr_rx s = tr_rx self"
proof -
  from trans_can_recv_frame [OF c] obtain q where s1: "s1 = self\<lparr>tr_can_recv := q\<rparr>" by blast
  then have n1: "no_term self \<Longrightarrow> no_term s1" by (simp add: no_term_def)
  from term_asked_frame [OF tm] obtain q' where s2: "s2 = s1\<lparr>tr_terms := q'\<rparr>" by blast
  have n2: "no_term self \<Longrightarrow> \<not> t \<and> no_term s2" using term_asked_no_term [OF tm] n1 by blast
  then show "no_term self \<Longrightarrow> \<not> t" by simp
  have "recv_frame self s1 \<and> tr_status s1 = tr_status self \<and> tr_rx s1 = tr_rx self"
    by (simp add: s1 recv_frame_def)
  moreover have "recv_frame self s2 \<and> tr_status s2 = tr_status self \<and> tr_rx s2 = tr_rx self"
    by (simp add: s1 s2 recv_frame_def)
  ultimately show "\<And>s. s = s1 \<or> s = s2 \<Longrightarrow> recv_frame self s \<and> tr_status s = tr_status self
       \<and> (no_term self \<longrightarrow> no_term s) \<and> tr_rx s = tr_rx self"
    using n1 n2 by blast
qed

lemma force_read_post_step:
  assumes "wp m (force_read_post s1 in1 sz1)" and "recv_frame self s1 \<and> (no_term self \<longrightarrow> no_term s1)" "tr_status s1 = tr_status self"
    and "recv_step self s sz (rcvd, s0, in0)" "rx_stream (tr_rx s1) = rx_stream (tr_rx s0)"
    and "0 < sz" "sz1 = sz - max 0 rcvd" "rcvd \<noteq> 0" "in1 = in0\<lparr>s_end := s_end in0 + max 0 rcvd\<rparr>"
    and "rcvd = -1 \<longrightarrow> tr_would_block s0"
  shows "wp m (force_read_post self s sz)"
proof (cases "0 < rcvd")
  case False
  with assms have "rcvd = -1" "in1 = s" "sz1 = sz" by (auto simp: recv_step_def)
  with assms show ?thesis
    by (auto simp: force_read_post_def recv_step_def elim!: wp_mono intro: recv_frame_trans)
next
  case True
  let ?rx = "rx_stream (tr_rx self)"
  from True assms have s: "rcvd \<le> int (length ?rx)" "rx_stream (tr_rx s1) = drop (nat rcvd) ?rx" "rcvd \<le> sz"
    "in1 = s\<lparr>s_data := write_bytes (s_data s) (s_end s) (take (nat rcvd) ?rx), s_end := s_end s + rcvd\<rparr>"
    "sz1 = sz - rcvd"
    by (auto simp: recv_step_def)
  have t: "take (nat sz) ?rx = take (nat rcvd) ?rx @ take (nat (sz - rcvd)) (drop (nat rcvd) ?rx)"
    using s True by (simp add: take_add [symmetric] nat_add_distrib [symmetric])
  have w: "write_bytes m e (take (nat sz) ?rx) = write_bytes (write_bytes m e (take (nat rcvd) ?rx)) (e + rcvd)
      (take (nat (sz - rcvd)) (drop (nat rcvd) ?rx))" for m e
    using s True by (simp add: t write_bytes_append)
  have d: "drop (nat sz) ?rx = drop (nat (sz - rcvd)) (drop (nat rcvd) ?rx)"
    using s True by (simp add: nat_add_distrib [symmetric])
  have l: "nat sz \<le> length ?rx \<longleftrightarrow> nat (sz - rcvd) \<le> length (drop (nat rcvd) ?rx)"
    using s True by auto
  show ?thesis
    using assms(1)
    by (rule wp_mono)
      (use s True assms(2,3,6) in \<open>auto simp: force_read_post_def w d l intro: recv_frame_trans split: if_splits\<close>)
qed

lemma force_read_loop_law:
  "proc_ok self \<Longrightarrow> 0 \<le> s_end s \<Longrightarrow> s_end s + sz \<le> s_size s \<Longrightarrow>
     wp (force_read_loop self s sz) (force_read_post self s sz)"
proof (induction self s sz rule: force_read_loop.induct)
  case (1 self s sz)
  show ?case
  proof (cases "sz \<le> 0")
    case True
    then show ?thesis by (subst force_read_loop.simps) (simp add: force_read_post_def)
  next
    case pos: False
    with 1(6) have fits: "\<not> s_size s < s_end s + sz" by simp
    from trans_recv_step [OF 1(4) _ 1(5,6)] pos obtain rcvd s1 in1 where
      rv: "trans_recv self s sz = Some (rcvd, s1, in1)" and st: "recv_step self s sz (rcvd, s1, in1)"
      by (auto simp: wp_exists)
    obtain ready s2 where c: "trans_can_recv s1 = (ready, s2)" by (cases "trans_can_recv s1")
    obtain tm s3 where tm: "term_asked s2 = (tm, s3)" by (cases "term_asked s2")
    note fr = can_recv_term_frame [OF c tm]
    from st have f1: "recv_frame self s1" "tr_status s1 = tr_status self" "no_term s1 = no_term self"
      by (auto simp: recv_step_def recv_frame_def no_term_def)
    have end1: "s_end in1 = s_end s" "s_size in1 = s_size s" "0 < rcvd \<Longrightarrow> rcvd \<le> sz"
      using st by (cases "0 < rcvd"; auto simp: recv_step_def)+
    have x: "recv_frame self x \<and> (no_term self \<longrightarrow> no_term x)" "tr_status x = tr_status self" "tr_rx x = tr_rx s1" "proc_ok x"
      if "x = s2 \<or> x = s3" for x
      using fr(2) [OF that] f1 1(4) by (auto intro: recv_frame_trans simp: proc_ok_def recv_frame_def)
    have rng: "0 \<le> s_end in1" "s_end in1 + sz \<le> s_size in1" using end1 1(5,6) by simp_all
    have again: "wp m (force_read_post self s sz)"
      if "rcvd = -1" "tr_would_block s1" "x = s2 \<or> x = s3" "wp m (force_read_post x in1 sz)" for x m
      using that st pos x [OF that(3)]
      by (intro force_read_post_step [OF that(4) x(1,2) [OF that(3)] st]) simp_all
    show ?thesis
    proof (cases "rcvd = -1 \<and> tr_would_block s1 \<and> (ready \<or> \<not> tm) \<or> rcvd \<noteq> 0 \<and> rcvd \<noteq> -1")
      case False
      let ?x = "if rcvd = -1 \<and> tr_would_block s1 then s3 else s1"
      have "force_read_loop self s sz = Some (1, ?x\<lparr>tr_status := TRANS_STATUS_DOWN\<rparr>, in1)"
        using False pos fits rv c tm by (subst force_read_loop.simps) auto
      moreover have "recv_frame self ?x \<and> (no_term self \<longrightarrow> no_term ?x)"
        using f1 fr(2) [of s3] by (auto intro: recv_frame_trans)
      moreover have "no_term self \<longrightarrow> rx_stream (tr_rx self) = []"
        using False st fr(1) f1(3) by (auto simp: recv_step_def)
      ultimately show ?thesis using pos by (simp add: force_read_post_def)
    next
      case True
      then consider (ready) "rcvd = -1" "tr_would_block s1" ready
        | (retry) "rcvd = -1" "tr_would_block s1" "\<not> ready" "\<not> tm"
        | (some) "rcvd \<noteq> 0" "rcvd \<noteq> -1"
        by auto
      then show ?thesis
      proof cases
        case ready
        have eq: "force_read_loop self s sz = force_read_loop s2 in1 sz"
          using ready pos fits rv c by (subst force_read_loop.simps) simp
        show ?thesis unfolding eq
          by (rule again [OF ready(1,2) disjI1 [OF refl]],
              rule 1(1) [OF pos fits rv refl refl ready(1,2) c [symmetric] refl ready(3) x(4) [OF disjI1 [OF refl]] rng])
      next
        case retry
        have eq: "force_read_loop self s sz = force_read_loop s3 in1 sz"
          using retry pos fits rv c tm by (subst force_read_loop.simps) simp
        show ?thesis unfolding eq
          by (rule again [OF retry(1,2) disjI2 [OF refl]],
              rule 1(2) [OF pos fits rv refl refl retry(1,2) c [symmetric] refl retry(3) tm [symmetric] refl retry(4)
                x(4) [OF disjI2 [OF refl]] rng])
      next
        case some
        let ?in = "in1\<lparr>s_end := s_end in1 + rcvd\<rparr>"
        from some st have p: "0 < rcvd" by (auto simp: recv_step_def)
        have "force_read_loop self s sz = force_read_loop s1 ?in (sz - rcvd)"
          using some pos fits rv by (subst force_read_loop.simps) simp
        moreover have "wp (force_read_loop s1 ?in (sz - rcvd)) (force_read_post s1 ?in (sz - rcvd))"
          using 1(4-6) f1(1) end1 p
          by (intro 1(3) [OF pos fits rv refl refl some(2,1)]) (simp_all add: proc_ok_def recv_frame_def)
        moreover have "recv_frame self s1 \<and> (no_term self \<longrightarrow> no_term s1)" using f1 by simp
        ultimately show ?thesis
          using pos p by (simp only:) (erule force_read_post_step [OF _ _ f1(2) st refl], simp_all)
      qed
    qed
  qed
qed

subsection \<open>Creation, destruction, wait objects\<close>

text \<open>The record holds zeros (\<open>g_malloc\<close> clears it) except for what \<open>trans_create\<close> assigns.\<close>

definition trans_create :: "int \<Rightarrow> int \<Rightarrow> int \<Rightarrow> trans" where
  "trans_create md in_size out_size = \<lparr>tr_sck = 0, tr_mode = md, tr_status = 0, tr_type1 = 0, tr_header_size = 0,
     tr_in_s = init_stream make_stream in_size, tr_out_s = init_stream make_stream out_size,
     tr_listen_filename = None, tr_is_term = False, tr_wait_s = [], tr_addr = [], tr_port = [],
     tr_no_stream_init_on_data_in = 0, tr_tls = False, tr_tls_rwo = 0, tr_proc = Proc_Tcp, tr_si = None,
     tr_my_source = 0, tr_my_info = None, tr_rx = [], tr_tx = [], tr_wire = [], tr_would_block = False,
     tr_can_send = [], tr_can_recv = [], tr_terms = [], tr_accepts = [], tr_closed = [], tr_deleted_files = []\<rparr>"

definition trans_delete :: "trans \<Rightarrow> trans" where
  "trans_delete self =
     (let self = self\<lparr>tr_in_s := make_stream, tr_out_s := make_stream\<rparr>;
          self = (if tr_sck self > 0 then self\<lparr>tr_closed := tr_closed self @ [tr_sck self]\<rparr> else self);
          self = self\<lparr>tr_sck := 0\<rparr>;
          self = (case tr_listen_filename self of None \<Rightarrow> self
            | Some f \<Rightarrow> self\<lparr>tr_deleted_files := tr_deleted_files self @ [f]\<rparr>)
      in self)"

text \<open>A forked child must not remove the listening socket's file.\<close>

definition trans_delete_from_child :: "trans \<Rightarrow> trans" where
  "trans_delete_from_child self =
     (let self = (if tr_listen_filename self \<noteq> None then self\<lparr>tr_listen_filename := None\<rparr> else self)
      in trans_delete self)"

definition trans_get_wait_objs :: "trans \<Rightarrow> int list \<Rightarrow> int \<times> int list" where
  "trans_get_wait_objs self objs =
     (if tr_status self \<noteq> TRANS_STATUS_UP then (1, objs)
      else let objs = objs @ [tr_sck self] in
        (0, if tr_tls self \<and> tr_tls_rwo self \<noteq> 0 then objs @ [tr_tls_rwo self] else objs))"

text \<open>\<open>self->si != 0 && self->si->source[self->my_source] > MAX_SBYTES\<close>.\<close>

definition source_congested :: "trans \<Rightarrow> bool option" where
  "source_congested self = (case tr_si self of None \<Rightarrow> Some False | Some si \<Rightarrow>
     if tr_my_source self < length (si_source si) then Some (si_source si ! tr_my_source self > 0) else None)"

definition trans_get_wait_objs_rw :: "trans \<Rightarrow> int list \<Rightarrow> int list \<Rightarrow> (int \<times> int list \<times> int list) option" where
  "trans_get_wait_objs_rw self robjs wobjs =
     (if tr_status self \<noteq> TRANS_STATUS_UP then Some (1, robjs, wobjs)
      else do {
        busy \<leftarrow> source_congested self;
        let (r, robjs) = (if busy then (0, robjs) else trans_get_wait_objs self robjs);
        if r \<noteq> 0 then Some (1, robjs, wobjs)
        else Some (0, robjs, if tr_wait_s self \<noteq> [] then wobjs @ [tr_sck self] else wobjs) })"

subsection \<open>The event handler\<close>

definition set_cur_source :: "trans \<Rightarrow> nat \<Rightarrow> trans" where
  "set_cur_source self v = self\<lparr>tr_si := map_option (\<lambda>si. si\<lparr>cur_source := v\<rparr>) (tr_si self)\<rparr>"

type_synonym conn_callback = "trans \<Rightarrow> trans \<Rightarrow> int \<times> trans \<times> trans"
type_synonym data_callback = "trans \<Rightarrow> (int \<times> trans) option"

text \<open>The listening branch: the third component is the connection handed to the callback.\<close>

definition check_listener :: "conn_callback option \<Rightarrow> trans \<Rightarrow> int \<times> trans \<times> trans option" where
  "check_listener conn_in self =
     (let (ready, self) = g_sck_can_recv self in
      if \<not> ready then (0, self, None)
      else (case tr_accepts self of
          [] \<Rightarrow> (0, self, None)
        | Accept_Block # r \<Rightarrow> (0, self\<lparr>tr_accepts := r\<rparr>, None)
        | Accept_Error # r \<Rightarrow> (1, self\<lparr>tr_accepts := r, tr_status := TRANS_STATUS_DOWN\<rparr>, None)
        | Accept_Sck in_sck addr port # r \<Rightarrow>
            let self = self\<lparr>tr_accepts := r, tr_addr := addr, tr_port := port\<rparr> in
            (case conn_in of
               None \<Rightarrow> (0, self\<lparr>tr_closed := tr_closed self @ [in_sck]\<rparr>, None)
             | Some f \<Rightarrow>
                 let in_trans = (trans_create (tr_mode self) (s_size (tr_in_s self)) (s_size (tr_out_s self)))
                       \<lparr>tr_sck := in_sck, tr_type1 := TRANS_TYPE_SERVER, tr_status := TRANS_STATUS_UP,
                        tr_is_term := tr_is_term self, tr_addr := take 255 (tr_addr self),
                        tr_port := take 255 (tr_port self)\<rparr>;
                     (rv, self, in_trans) = f self in_trans
                 in if rv \<noteq> 0
                    then (0, self\<lparr>tr_closed := tr_closed self @ tr_closed (trans_delete in_trans)\<rparr>, None)
                    else (0, self, Some in_trans))))"

text \<open>Receiving towards the header: \<open>Some r\<close> is an early return.\<close>

definition check_read :: "trans \<Rightarrow> (int option \<times> trans) option" where
  "check_read self =
     (let to_read = tr_header_size self - s_end (tr_in_s self) in
      if to_read > 0 then do {
        (read_bytes, self, in_s) \<leftarrow> trans_recv self (tr_in_s self) to_read;
        let self = self\<lparr>tr_in_s := in_s\<rparr>;
        if read_bytes = -1 then
          if tr_would_block self then Some (None, self)
          else Some (Some 1, self\<lparr>tr_status := TRANS_STATUS_DOWN\<rparr>)
        else if read_bytes = 0 then Some (Some 1, self\<lparr>tr_status := TRANS_STATUS_DOWN\<rparr>)
        else Some (None, self\<lparr>tr_in_s := in_s\<lparr>s_end := s_end in_s + read_bytes\<rparr>\<rparr>) }
      else Some (None, self))"

definition check_data_in :: "data_callback option \<Rightarrow> trans \<Rightarrow> (int \<times> trans) option" where
  "check_data_in data_in self =
     (if s_end (tr_in_s self) = tr_header_size self then
        (case data_in of
           None \<Rightarrow> Some (0, self)
         | Some f \<Rightarrow> do {
             (rv, self) \<leftarrow> f self;
             Some (rv, if tr_no_stream_init_on_data_in self = 0
               then self\<lparr>tr_in_s := init_stream (tr_in_s self) 0\<rparr> else self) })
      else Some (0, self))"

definition check_connected :: "data_callback option \<Rightarrow> trans \<Rightarrow> (int \<times> trans) option" where
  "check_connected data_in self = do {
     busy \<leftarrow> source_congested self;
     (ret, rv, self) \<leftarrow>
       (if busy then Some (None, 0, self)
        else let (ready, self) = trans_can_recv self in
          if \<not> ready then Some (None, 0, self)
          else do {
            let cur = (case tr_si self of None \<Rightarrow> 0 | Some si \<Rightarrow> cur_source si);
            let self = set_cur_source self (tr_my_source self);
            (ret, self) \<leftarrow> check_read self;
            (case ret of
               Some r \<Rightarrow> Some (Some r, 0, set_cur_source self cur)
             | None \<Rightarrow> do {
                 (rv, self) \<leftarrow> check_data_in data_in self;
                 Some (None, rv, set_cur_source self cur) }) });
     (case ret of
        Some r \<Rightarrow> Some (r, self)
      | None \<Rightarrow> do {
          (r, self) \<leftarrow> trans_send_waiting self False;
          if r \<noteq> 0 then Some (1, self\<lparr>tr_status := TRANS_STATUS_DOWN\<rparr>) else Some (rv, self) }) }"

definition trans_check_wait_objs ::
    "conn_callback option \<Rightarrow> data_callback option \<Rightarrow> trans \<Rightarrow> (int \<times> trans \<times> trans option) option" where
  "trans_check_wait_objs conn_in data_in self =
     (if tr_status self \<noteq> TRANS_STATUS_UP then Some (1, self, None)
      else if tr_type1 self = TRANS_TYPE_LISTENER then Some (check_listener conn_in self)
      else do { (r, self) \<leftarrow> check_connected data_in self; Some (r, self, None) })"

subsection \<open>Connecting, listening, TLS\<close>

text \<open>The answers of the operating system to a connection attempt: the socket call, the
  successive \<open>connect\<close> results and the successive readings of the millisecond clock
  \<open>g_time3\<close> (the first one is taken on entry).\<close>

record connect_env =
  ce_socket :: int
  ce_connect :: "nat \<Rightarrow> int"
  ce_time :: "nat \<Rightarrow> int"
  ce_writable :: bool

text \<open>The \<open>while (1)\<close> loop, the same in the TCP and the Unix-socket branch: \<open>None\<close> is
  a loop that has not ended after \<open>fuel\<close> turns, \<open>Inl r\<close> a \<open>return r\<close>, \<open>Inr\<close> the
  \<open>break\<close>.\<close>

fun connect_loop :: "nat \<Rightarrow> connect_env \<Rightarrow> nat \<Rightarrow> int \<Rightarrow> trans \<Rightarrow> ((int \<times> trans) + (int \<times> trans)) option" where
  "connect_loop 0 env i timeout self = None"
| "connect_loop (Suc fuel) env i timeout self =
     (let error = ce_connect env i in
      if error = 0 then Some (Inr (error, self))
      else if timeout < 1 then Some (Inl (1, self\<lparr>tr_status := TRANS_STATUS_DOWN\<rparr>))
      else if ce_time env (Suc i) - ce_time env 0 < timeout then
        (let (t, self) = term_asked self in
         if t then Some (Inl (1, self\<lparr>tr_status := TRANS_STATUS_DOWN\<rparr>))
         else connect_loop fuel env (Suc i) timeout self)
      else Some (Inl (1, self\<lparr>tr_status := TRANS_STATUS_DOWN\<rparr>)))"

definition trans_connect :: "nat \<Rightarrow> connect_env \<Rightarrow> trans \<Rightarrow> int \<Rightarrow> (int \<times> trans) option" where
  "trans_connect fuel env self timeout =
     (let self = (if tr_sck self \<noteq> 0 then self\<lparr>tr_closed := tr_closed self @ [tr_sck self], tr_sck := 0\<rparr> else self) in
      if tr_mode self = TRANS_MODE_TCP \<or> tr_mode self = TRANS_MODE_UNIX then
        (let self = self\<lparr>tr_sck := ce_socket env\<rparr> in
         if tr_sck self < 0 then Some (1, self\<lparr>tr_status := TRANS_STATUS_DOWN\<rparr>)
         else do {
           res \<leftarrow> connect_loop fuel env 0 timeout self;
           (case res of
              Inl ret \<Rightarrow> Some ret
            | Inr (error, self) \<Rightarrow>
                if error = -1 then
                  if tr_would_block self \<and> ce_writable env
                  then Some (0, self\<lparr>tr_status := TRANS_STATUS_UP, tr_type1 := TRANS_TYPE_CLIENT\<rparr>)
                  else Some (1, self)
                else Some (0, self\<lparr>tr_status := TRANS_STATUS_UP, tr_type1 := TRANS_TYPE_CLIENT\<rparr>)) })
      else Some (1, self\<lparr>tr_status := TRANS_STATUS_DOWN\<rparr>))"

record listen_env =
  le_socket :: int
  le_bind :: int
  le_listen :: int

definition listen_up :: "listen_env \<Rightarrow> trans \<Rightarrow> int \<times> trans" where
  "listen_up env self =
     (if le_listen env = 0 then (0, self\<lparr>tr_status := TRANS_STATUS_UP, tr_type1 := TRANS_TYPE_LISTENER\<rparr>)
      else (1, self))"

definition trans_listen_address :: "listen_env \<Rightarrow> trans \<Rightarrow> string \<Rightarrow> int \<times> trans" where
  "trans_listen_address env self port =
     (let self = (if tr_sck self \<noteq> 0 then self\<lparr>tr_closed := tr_closed self @ [tr_sck self]\<rparr> else self) in
      if tr_mode self = TRANS_MODE_UNIX then
        (let self = self\<lparr>tr_listen_filename := None, tr_deleted_files := tr_deleted_files self @ [port],
               tr_sck := le_socket env\<rparr> in
         if tr_sck self < 0 then (1, self)
         else if le_bind env = 0 then listen_up env (self\<lparr>tr_listen_filename := Some port\<rparr>)
         else (1, self))
      else if tr_mode self \<in> {TRANS_MODE_TCP, TRANS_MODE_VSOCK, TRANS_MODE_TCP4, TRANS_MODE_TCP6} then
        (let self = self\<lparr>tr_sck := le_socket env\<rparr> in
         if tr_sck self < 0 then (1, self)
         else if le_bind env = 0 then listen_up env self
         else (1, self))
      else (1, self))"

definition trans_get_out_s :: "trans \<Rightarrow> int \<Rightarrow> trans" where
  "trans_get_out_s self sz = self\<lparr>tr_out_s := init_stream (tr_out_s self) sz\<rparr>"

text \<open>\<open>created\<close>: \<open>ssl_tls_create\<close> returned a session; \<open>accepted\<close>: \<open>ssl_tls_accept\<close>
  returned 0.\<close>

definition trans_set_tls_mode :: "bool \<Rightarrow> bool \<Rightarrow> trans \<Rightarrow> int \<times> trans" where
  "trans_set_tls_mode created accepted self =
     (let self = self\<lparr>tr_tls := created\<rparr> in
      if \<not> tr_tls self then (1, self)
      else if \<not> accepted then (1, self)
      else (0, self\<lparr>tr_proc := Proc_Tls\<rparr>))"

definition trans_shutdown_tls_mode :: "int \<Rightarrow> trans \<Rightarrow> int \<times> trans" where
  "trans_shutdown_tls_mode disconnect self =
     (if tr_tls self then (disconnect, self) else (0, self\<lparr>tr_proc := Proc_Tcp\<rparr>))"

subsection \<open>Reading one frame\<close>

definition libxrdp_get_pdu_bytes :: "stream \<Rightarrow> int option" where
  "libxrdp_get_pdu_bytes s = do {
     h0 \<leftarrow> rd8 s 0;
     if h0 = 3 then do {
       h2 \<leftarrow> rd8 s 2;
       h3 \<leftarrow> rd8 s 3;
       Some (256 * h2 + h3) }
     else do {
       h1 \<leftarrow> rd8 s 1;
       if 128 \<le> h1 then do {
         h2 \<leftarrow> rd8 s 2;
         Some (256 * (h1 - 128) + h2) }
       else Some h1 } }"

text \<open>\<open>True\<close>: the stream \<open>trans->in_s\<close> is returned; \<open>False\<close>: the null pointer.\<close>

definition libxrdp_force_read :: "trans \<Rightarrow> (bool \<times> trans) option" where
  "libxrdp_force_read self = do {
     let self = self\<lparr>tr_in_s := init_stream (tr_in_s self) (32 * 1024)\<rparr>;
     (r, self) \<leftarrow> trans_force_read self 4;
     if r \<noteq> 0 then Some (False, self)
     else do {
       bytes \<leftarrow> libxrdp_get_pdu_bytes (tr_in_s self);
       if bytes < 1 then Some (False, self)
       else if bytes > 32 * 1024 then Some (False, self)
       else do {
         (r, self) \<leftarrow> trans_force_read self (bytes - 4);
         if r \<noteq> 0 then Some (False, self) else Some (True, self) } } }"

lemma trans_force_read_law:
  assumes "proc_ok self" "tr_status self = TRANS_STATUS_UP" "0 \<le> s_end (tr_in_s self)"
    "s_end (tr_in_s self) + sz \<le> s_size (tr_in_s self)"
  defines "rx \<equiv> rx_stream (tr_rx self)"
  shows "wp (trans_force_read self sz) (\<lambda>(r, self'). (r = 0 \<or> r = 1) \<and> proc_ok self'
     \<and> recv_frame (self\<lparr>tr_in_s := tr_in_s self'\<rparr>) self'
     \<and> (r = 0 \<longrightarrow> tr_status self' = TRANS_STATUS_UP \<and> nat sz \<le> length rx
          \<and> rx_stream (tr_rx self') = drop (nat sz) rx
          \<and> tr_in_s self' = (tr_in_s self)\<lparr>s_data := write_bytes (s_data (tr_in_s self)) (s_end (tr_in_s self)) (take (nat sz) rx),
                s_end := s_end (tr_in_s self) + max 0 sz\<rparr>)
     \<and> (r = 1 \<longrightarrow> tr_status self' = TRANS_STATUS_DOWN)
     \<and> (no_term self \<longrightarrow> no_term self' \<and> (nat sz \<le> length rx \<longrightarrow> r = 0)))"
proof -
  from force_read_loop_law [OF assms(1,3,4)] obtain r s1 in1 where
    l: "force_read_loop self (tr_in_s self) sz = Some (r, s1, in1)" "force_read_post self (tr_in_s self) sz (r, s1, in1)"
    by (auto simp: wp_exists)
  then have "proc_ok s1" using assms(1) by (auto simp: force_read_post_def recv_frame_def proc_ok_def)
  moreover have "no_term (s1\<lparr>tr_in_s := in1\<rparr>) = no_term s1" "proc_ok (s1\<lparr>tr_in_s := in1\<rparr>) = proc_ok s1"
    by (simp_all add: no_term_def proc_ok_def)
  moreover have "recv_frame (self\<lparr>tr_in_s := in1\<rparr>) (s1\<lparr>tr_in_s := in1\<rparr>)"
    using l(2) by (simp add: force_read_post_def recv_frame_def)
  ultimately show ?thesis
    using l assms(2) by (simp add: trans_force_read_def trans_force_read_s_def force_read_post_def rx_def)
qed

text \<open>The frame length announced by the first bytes of the stream.\<close>

definition pdu_length :: "byte list \<Rightarrow> int" where
  "pdu_length h =
     (if uint (h ! 0) = 3 then 256 * uint (h ! 2) + uint (h ! 3)
      else if 128 \<le> uint (h ! 1) then 256 * (uint (h ! 1) - 128) + uint (h ! 2)
      else uint (h ! 1))"

lemma libxrdp_get_pdu_bytes_law:
  assumes "s_data s = write_bytes m 0 h" "4 \<le> length h" "4 \<le> s_size s"
  shows "libxrdp_get_pdu_bytes s = Some (pdu_length h)"
proof -
  have "rd8 s (int k) = Some (uint (h ! k))" if "k < 4" for k
    using assms that by (simp add: rd8_def write_bytes_at)
  from this [of 0] this [of 1] this [of 2] this [of 3] show ?thesis
    by (simp add: libxrdp_get_pdu_bytes_def pdu_length_def)
qed

lemma pdu_length_take: "4 \<le> length h \<Longrightarrow> pdu_length (take 4 h) = pdu_length h"
  by (simp add: pdu_length_def)

lemma pdu_length_range: "0 \<le> pdu_length h" "pdu_length h < 65536"
  using uint_byte_range [of "h ! 0"] uint_byte_range [of "h ! 1"] uint_byte_range [of "h ! 2"] uint_byte_range [of "h ! 3"]
  by (auto simp: pdu_length_def)

text \<open>The outcome of \<open>libxrdp_force_read\<close> on every input.\<close>

lemma libxrdp_force_read_law:
  assumes "proc_ok self" "tr_status self = TRANS_STATUS_UP"
  defines "rx \<equiv> rx_stream (tr_rx self)"
  shows "wp (libxrdp_force_read self) (\<lambda>(ok, self'). recv_frame (self\<lparr>tr_in_s := tr_in_s self'\<rparr>) self' \<and>
     (ok \<longrightarrow> 4 \<le> length rx \<and> 1 \<le> pdu_length rx \<and> pdu_length rx \<le> 32768 \<and> pdu_length rx \<le> int (length rx)
        \<and> stream_bytes (tr_in_s self') = Some (take (nat (max 4 (pdu_length rx))) rx) \<and> s_p (tr_in_s self') = 0
        \<and> rx_stream (tr_rx self') = drop (nat (max 4 (pdu_length rx))) rx \<and> tr_status self' = TRANS_STATUS_UP)
     \<and> (no_term self \<and> 4 \<le> length rx \<and> 1 \<le> pdu_length rx \<and> pdu_length rx \<le> 32768 \<and> pdu_length rx \<le> int (length rx) \<longrightarrow> ok))"
proof -
  let ?s0 = "self\<lparr>tr_in_s := init_stream (tr_in_s self) (32 * 1024)\<rparr>"
  have pre: "proc_ok ?s0" "tr_status ?s0 = 1" "0 \<le> s_end (tr_in_s ?s0)" "s_end (tr_in_s ?s0) + 4 \<le> s_size (tr_in_s ?s0)"
    "no_term ?s0 = no_term self" "rx_stream (tr_rx ?s0) = rx"
    using assms by (simp_all add: proc_ok_def no_term_def)
  from trans_force_read_law [OF pre(1-4), unfolded pre(5,6)] obtain r s1 where
    r: "trans_force_read ?s0 4 = Some (r, s1)" and rr: "r = 0 \<or> r = 1" and p1: "proc_ok s1"
    and ok: "r = 0 \<Longrightarrow> tr_status s1 = 1 \<and> 4 \<le> length rx \<and> rx_stream (tr_rx s1) = drop 4 rx
      \<and> tr_in_s s1 = (tr_in_s ?s0)\<lparr>s_data := write_bytes (s_data (tr_in_s ?s0)) 0 (take 4 rx), s_end := 4\<rparr>"
    and n1: "no_term self \<Longrightarrow> no_term s1 \<and> (4 \<le> length rx \<longrightarrow> r = 0)"
    and f1: "recv_frame (?s0\<lparr>tr_in_s := tr_in_s s1\<rparr>) s1"
    by (auto simp: wp_exists)
  from f1 have f1: "recv_frame (self\<lparr>tr_in_s := tr_in_s s1\<rparr>) s1" by simp
  show ?thesis
  proof (cases "r = 0")
    case False
    with r n1 f1 show ?thesis by (auto simp: libxrdp_force_read_def)
  next
    case True
    note o = ok [OF True]
    have g: "libxrdp_get_pdu_bytes (tr_in_s s1) = Some (pdu_length rx)"
      using o libxrdp_get_pdu_bytes_law [of "tr_in_s s1" _ "take 4 rx"] by (simp add: pdu_length_take)
    show ?thesis
    proof (cases "pdu_length rx < 1 \<or> pdu_length rx > 32768")
      case bad: True
      with r True g f1 show ?thesis by (auto simp: libxrdp_force_read_def)
    next
      case False
      let ?n = "pdu_length rx"
      have pre2: "0 \<le> s_end (tr_in_s s1)" "s_end (tr_in_s s1) + (?n - 4) \<le> s_size (tr_in_s s1)" "tr_status s1 = 1"
        using o False by (simp_all add: le_max_iff_disj)
      from trans_force_read_law [OF p1 pre2(3,1,2)] obtain r2 s2 where
        r2: "trans_force_read s1 (?n - 4) = Some (r2, s2)" and rr2: "r2 = 0 \<or> r2 = 1"
        and ok2: "r2 = 0 \<Longrightarrow> tr_status s2 = 1 \<and> nat (?n - 4) \<le> length (drop 4 rx)
          \<and> rx_stream (tr_rx s2) = drop (nat (?n - 4)) (drop 4 rx)
          \<and> tr_in_s s2 = (tr_in_s s1)\<lparr>s_data := write_bytes (s_data (tr_in_s s1)) 4 (take (nat (?n - 4)) (drop 4 rx)),
             s_end := 4 + max 0 (?n - 4)\<rparr>"
        and n2: "no_term s1 \<Longrightarrow> nat (?n - 4) \<le> length (drop 4 rx) \<longrightarrow> r2 = 0"
        and f2: "recv_frame (s1\<lparr>tr_in_s := tr_in_s s2\<rparr>) s2"
        using o by (auto simp: wp_exists)
      let ?m = "nat (max 4 ?n)"
      have m: "?m = 4 + nat (?n - 4)" "int ?m = 4 + max 0 (?n - 4)" by auto
      have tk: "take ?m rx = take 4 rx @ take (nat (?n - 4)) (drop 4 rx)" by (simp add: m take_add)
      have "stream_bytes (tr_in_s s2) = Some (take ?m rx)" if "r2 = 0"
      proof -
        have w: "s_data (tr_in_s s2) = write_bytes (s_data (tr_in_s ?s0)) 0 (take ?m rx)" "s_end (tr_in_s s2) = int ?m"
          "s_size (tr_in_s s2) = max (s_size (tr_in_s self)) 32768"
          using ok2 [OF that] o m tk by (simp_all add: write_bytes_append)
        have "nat (?n - 4) \<le> length rx - 4" "4 \<le> length rx" using ok2 [OF that] o by simp_all
        then have "?m \<le> length rx" using m(1) by linarith
        then have "length (take ?m rx) = ?m" by simp
        with read_bytes_at [OF bytes_at_write_bytes [of "s_data (tr_in_s ?s0)" 0 "take ?m rx"]]
        show ?thesis using w False by (simp add: stream_bytes_def le_max_iff_disj)
      qed
      moreover have "s_p (tr_in_s s2) = 0" if "r2 = 0" using ok2 [OF that] o by simp
      moreover have "rx_stream (tr_rx s2) = drop ?m rx" "?n \<le> int (length rx)" "tr_status s2 = 1" if "r2 = 0"
        using ok2 [OF that] o by (auto simp: m add.commute)
      moreover have "libxrdp_force_read self = Some (r2 = 0, s2)"
        using r True g False r2 by (simp add: libxrdp_force_read_def)
      moreover have "no_term self \<and> ?n \<le> int (length rx) \<longrightarrow> r2 = 0" using n1 n2 by auto
      moreover have "recv_frame (self\<lparr>tr_in_s := tr_in_s s2\<rparr>) s2" using f1 f2 by (simp add: recv_frame_def)
      ultimately show ?thesis using False o by simp
    qed
  qed
qed

subsection \<open>The invariant of a connected transport\<close>

text \<open>The input stream never holds more than the header the handler is waiting for.\<close>

definition header_inv :: "trans \<Rightarrow> bool" where
  "header_inv self \<longleftrightarrow> trans_ok self \<and> 0 \<le> s_end (tr_in_s self) \<and> s_end (tr_in_s self) \<le> tr_header_size self
     \<and> tr_header_size self \<le> s_size (tr_in_s self)
     \<and> (\<forall>n \<in> set_option (map_option (\<lambda>si. length (si_source si)) (tr_si self)). tr_my_source self < n)"

lemma trans_ok_cong:
  assumes "tr_wait_s self' = tr_wait_s self" "tr_proc self' = tr_proc self" "tr_tls self' = tr_tls self"
    "tr_my_info self' = tr_my_info self"
    "map_option (\<lambda>si. length (si_source si)) (tr_si self') = map_option (\<lambda>si. length (si_source si)) (tr_si self)"
  shows "trans_ok self' = trans_ok self"
proof -
  have "source_ok self' src = source_ok self src" for src
    using assms(5) by (cases "tr_si self"; cases "tr_si self'"; cases src) (simp_all add: source_ok_def)
  with assms(1-4) show ?thesis by (simp add: trans_ok_def wait_ok_def proc_ok_def forward_ok_def)
qed

lemma header_inv_cong:
  assumes "trans_ok self' = trans_ok self" "tr_header_size self' = tr_header_size self" "tr_my_source self' = tr_my_source self"
    "map_option (\<lambda>si. length (si_source si)) (tr_si self') = map_option (\<lambda>si. length (si_source si)) (tr_si self)"
    "tr_in_s self' = tr_in_s self"
  shows "header_inv self' = header_inv self"
  unfolding header_inv_def assms ..

lemma header_inv_frame: "recv_frame self self' \<Longrightarrow> header_inv self' = header_inv self"
  by (intro header_inv_cong trans_ok_cong) (simp_all add: recv_frame_def)

lemma header_inv_simps [simp]:
  "header_inv (self\<lparr>tr_status := v\<rparr>) = header_inv self"
  "header_inv (set_cur_source self c) = header_inv self"
  by (intro header_inv_cong trans_ok_cong; simp add: set_cur_source_def option.map_comp o_def)+

text \<open>Receiving appends a prefix of the peer's stream and stops at the header.\<close>

lemma check_read_law:
  assumes inv: "header_inv self"
  defines "rx \<equiv> rx_stream (tr_rx self)"
  shows "wp (check_read self) (\<lambda>(ret, self'). header_inv self' \<and> (ret = None \<or> ret = Some 1 \<and> tr_status self' = TRANS_STATUS_DOWN)
     \<and> (ret = None \<longrightarrow> tr_status self' = tr_status self \<and>
         (\<exists>k. s_end (tr_in_s self') = s_end (tr_in_s self) + int k \<and> rx_stream (tr_rx self') = drop k rx \<and> k \<le> length rx
          \<and> s_data (tr_in_s self') = write_bytes (s_data (tr_in_s self)) (s_end (tr_in_s self)) (take k rx))))"
proof (cases "tr_header_size self - s_end (tr_in_s self) > 0")
  case False
  then have "check_read self = Some (None, self)" by (simp add: check_read_def Let_def)
  then show ?thesis using inv by (auto simp: rx_def intro!: exI [of _ 0])
next
  case True
  let ?n = "tr_header_size self - s_end (tr_in_s self)"
  from inv have pre: "proc_ok self" "0 \<le> s_end (tr_in_s self)" "s_end (tr_in_s self) + ?n \<le> s_size (tr_in_s self)"
    by (simp_all add: header_inv_def trans_ok_def)
  from trans_recv_step [OF pre(1) True pre(2,3)] obtain rcvd s1 in1 where
    rv: "trans_recv self (tr_in_s self) ?n = Some (rcvd, s1, in1)" and st: "recv_step self (tr_in_s self) ?n (rcvd, s1, in1)"
    by (auto simp: wp_exists)
  from st have f: "recv_frame self s1" "tr_status s1 = tr_status self" by (simp_all add: recv_step_def)
  then have t1: "trans_ok s1 = trans_ok self" by (intro trans_ok_cong) (simp_all add: recv_frame_def)
  have t2: "trans_ok (s1\<lparr>tr_in_s := i\<rparr>) = trans_ok s1" for i by (rule trans_ok_cong) simp_all
  have t3: "trans_ok (s1\<lparr>tr_in_s := i, tr_status := v\<rparr>) = trans_ok s1" for i v by (rule trans_ok_cong) simp_all
  show ?thesis
  proof (cases "0 < rcvd")
    case pos: True
    let ?s2 = "s1\<lparr>tr_in_s := in1\<lparr>s_end := s_end in1 + rcvd\<rparr>\<rparr>"
    have cr: "check_read self = Some (None, ?s2)" using True rv pos by (simp add: check_read_def Let_def)
    have "header_inv ?s2" using inv f t1 t2 st pos True by (simp add: header_inv_def recv_step_def recv_frame_def)
    moreover have "\<exists>k. s_end (tr_in_s ?s2) = s_end (tr_in_s self) + int k \<and> rx_stream (tr_rx ?s2) = drop k rx \<and> k \<le> length rx
          \<and> s_data (tr_in_s ?s2) = write_bytes (s_data (tr_in_s self)) (s_end (tr_in_s self)) (take k rx)"
      using st pos by (intro exI [of _ "nat rcvd"]) (auto simp: recv_step_def rx_def)
    ultimately show ?thesis using cr f by simp
  next
    case False
    with st have i1: "in1 = tr_in_s self" and rc: "rcvd = -1 \<or> rcvd = 0" by (auto simp: recv_step_def)
    have hi: "header_inv (s1\<lparr>tr_in_s := in1\<rparr>)"
      using inv f t1 t2 i1 by (simp add: header_inv_def recv_frame_def)
    show ?thesis
    proof (cases "rcvd = -1 \<and> tr_would_block s1")
      case wb: True
      then have "check_read self = Some (None, s1\<lparr>tr_in_s := in1\<rparr>)" using True rv by (simp add: check_read_def Let_def)
      moreover from wb st have "rx_stream (tr_rx s1) = rx" by (simp add: recv_step_def rx_def)
      ultimately show ?thesis using hi i1 f by (auto intro!: exI [of _ 0])
    next
      case fail: False
      then have "check_read self = Some (Some 1, s1\<lparr>tr_in_s := in1, tr_status := TRANS_STATUS_DOWN\<rparr>)"
        using True rv rc by (auto simp: check_read_def Let_def)
      then show ?thesis using hi by simp
    qed
  qed
qed

text \<open>The contract of the \<open>trans_data_in\<close> callback, which is only called on a complete header.\<close>

definition callback_ok :: "data_callback option \<Rightarrow> bool" where
  "callback_ok data_in \<longleftrightarrow> (\<forall>f. data_in = Some f \<longrightarrow> (\<forall>self. header_inv self \<and> s_end (tr_in_s self) = tr_header_size self
     \<longrightarrow> wp (f self) (\<lambda>(rv, self'). header_inv self')))"

lemma check_data_in_law:
  assumes "header_inv self" "callback_ok data_in"
  shows "wp (check_data_in data_in self) (\<lambda>(rv, self'). header_inv self')"
proof -
  have i: "header_inv (s\<lparr>tr_in_s := init_stream (tr_in_s s) 0\<rparr>)" if "header_inv s" for s
  proof -
    have "trans_ok (s\<lparr>tr_in_s := init_stream (tr_in_s s) 0\<rparr>) = trans_ok s" by (rule trans_ok_cong) simp_all
    with that show ?thesis by (simp add: header_inv_def)
  qed
  show ?thesis
  proof (cases "s_end (tr_in_s self) = tr_header_size self \<and> data_in \<noteq> None")
    case False
    with assms(1) show ?thesis by (auto simp: check_data_in_def split: option.splits)
  next
    case True
    then obtain f where f: "data_in = Some f" by blast
    with assms True have "wp (f self) (\<lambda>(rv, self'). header_inv self')" by (simp add: callback_ok_def)
    with f True i show ?thesis by (auto simp: check_data_in_def wp_bind elim!: wp_mono)
  qed
qed

lemma source_congested_ok: "header_inv self \<Longrightarrow> \<exists>b. source_congested self = Some b"
  by (auto simp: header_inv_def source_congested_def split: option.splits)

lemma trans_can_recv_inv:
  "trans_can_recv self = (b, self') \<Longrightarrow> recv_frame self self'"
  using trans_can_recv_frame [of self b self'] by (auto simp: recv_frame_def)

lemma check_send_inv:
  assumes "header_inv self"
  shows "wp (trans_send_waiting self False) (\<lambda>(r, self'). header_inv self')"
proof -
  from assms have "trans_ok self" by (simp add: header_inv_def)
  from trans_send_waiting_conserves [OF this, of False] show ?thesis
  proof (rule wp_mono, clarify)
    fix r self' assume "conserves self self'"
    with assms \<open>trans_ok self\<close> have f: "trans_ok self'" "tr_in_s self' = tr_in_s self" "tr_my_source self' = tr_my_source self"
      "map_option (\<lambda>si. length (si_source si)) (tr_si self') = map_option (\<lambda>si. length (si_source si)) (tr_si self)"
      by (simp_all add: conserves_def send_frame_def)
    with assms \<open>conserves self self'\<close> show "header_inv self'"
      by (simp add: header_inv_def conserves_def send_frame_def)
  qed
qed

text \<open>The handler never faults and keeps the invariant, whatever the network does.\<close>

lemma check_connected_law:
  assumes inv: "header_inv self" and cb: "callback_ok data_in"
  shows "wp (check_connected data_in self) (\<lambda>(r, self'). header_inv self')"
proof -
  have finish: "wp (do { (r, s) \<leftarrow> trans_send_waiting s False;
      if r \<noteq> 0 then Some (1, s\<lparr>tr_status := TRANS_STATUS_DOWN\<rparr>) else Some (rv, s) }) (\<lambda>(r, self'). header_inv self')"
    if "header_inv s" for s rv
    using check_send_inv [OF that] by (auto simp: wp_bind elim!: wp_mono)
  obtain busy where b: "source_congested self = Some busy" using source_congested_ok [OF inv] by blast
  obtain ready s1 where c: "trans_can_recv self = (ready, s1)" by (cases "trans_can_recv self")
  have i1: "header_inv s1" using header_inv_frame [OF trans_can_recv_inv [OF c]] inv by simp
  show ?thesis
  proof (cases "\<not> busy \<and> ready")
    case False
    with b c finish [OF inv] finish [OF i1] show ?thesis by (auto simp: check_connected_def)
  next
    case True
    let ?cur = "case tr_si s1 of None \<Rightarrow> 0 | Some si \<Rightarrow> cur_source si"
    from check_read_law [of "set_cur_source s1 (tr_my_source s1)"] i1 obtain ret s2 where
      r: "check_read (set_cur_source s1 (tr_my_source s1)) = Some (ret, s2)" "header_inv s2"
      by (auto simp: wp_exists)
    show ?thesis
    proof (cases ret)
      case (Some x)
      with True b c r show ?thesis by (simp add: check_connected_def)
    next
      case None
      from check_data_in_law [OF r(2) cb] obtain rv s3 where
        d: "check_data_in data_in s2 = Some (rv, s3)" "header_inv s3" by (auto simp: wp_exists)
      from True b c r d None finish [of "set_cur_source s3 ?cur" rv] show ?thesis
        by (simp add: check_connected_def)
    qed
  qed
qed

text \<open>The connection loop ends: the clock advances by at least the 100 ms slept per turn.\<close>

lemma connect_loop_ends:
  assumes clock: "\<forall>i. ce_time env 0 + 100 * int i \<le> ce_time env (Suc i)"
    and "timeout < 1 \<or> timeout \<le> 100 * int (i + fuel)"
  shows "\<exists>res. connect_loop (Suc fuel) env i timeout self = Some res"
  using assms(2)
proof (induction fuel arbitrary: i self)
  case 0
  with clock [THEN spec, of i] show ?case by (auto simp: Let_def)
next
  case (Suc fuel)
  then show ?case using Suc.IH [of "Suc i"] by (auto simp: Let_def split: prod.splits)
qed

lemma connect_loop_break: "connect_loop fuel env i timeout self = Some (Inr (e, self')) \<Longrightarrow> e = 0"
  by (induction fuel env i timeout self rule: connect_loop.induct)
    (auto simp: Let_def split: if_splits prod.splits)

lemma connect_loop_return:
  "connect_loop fuel env i timeout self = Some (Inl (r, self')) \<Longrightarrow> r = 1 \<and> tr_status self' = TRANS_STATUS_DOWN"
  by (induction fuel env i timeout self rule: connect_loop.induct)
    (auto simp: Let_def split: if_splits prod.splits)

text \<open>Receiving does not disturb the sending side.\<close>

lemma recv_frame_safe:
  assumes "recv_frame (self\<lparr>tr_in_s := i\<rparr>) self'"
  shows "trans_safe self' = trans_safe self" "outgoing self' = outgoing self" "forward_ok self' n = forward_ok self n"
proof -
  have f: "tr_wait_s self' = tr_wait_s self" "tr_wire self' = tr_wire self" "tr_si self' = tr_si self"
    "tr_my_source self' = tr_my_source self"
    using assms(1) by (simp_all add: recv_frame_def)
  have "trans_ok self' = trans_ok self" using assms(1) by (intro trans_ok_cong) (simp_all add: recv_frame_def)
  moreover have "charged_source self' = charged_source self" "source_ok self' = source_ok self"
    by (simp_all only: charged_source_def source_ok_def fun_eq_iff f simp_thms)
  ultimately show "trans_safe self' = trans_safe self" by (simp add: trans_safe_def)
  show "outgoing self' = outgoing self" using f by (simp add: outgoing_def queued_def)
  show "forward_ok self' n = forward_ok self n" using assms(1) by (simp add: forward_ok_def recv_frame_def)
qed

lemma recv_frame_writer:
  assumes "recv_frame (self\<lparr>tr_in_s := i\<rparr>) self'" "tr_status self' = tr_status self"
  shows "writer_ok self' = writer_ok self" "outgoing self' = outgoing self"
  using recv_frame_safe [OF assms(1)] assms(2) by (simp_all add: writer_ok_safe)

lemma writer_in_s [simp]:
  "writer_ok (self\<lparr>tr_in_s := i\<rparr>) = writer_ok self" "outgoing (self\<lparr>tr_in_s := i\<rparr>) = outgoing self"
  "trans_safe (self\<lparr>tr_in_s := i\<rparr>) = trans_safe self"
  using recv_frame_writer [where self = self and i = i and self' = "self\<lparr>tr_in_s := i\<rparr>"]
    recv_frame_safe(1) [where self = self and i = i and self' = "self\<lparr>tr_in_s := i\<rparr>"] by simp_all

text \<open>Reading a frame is safe on every input; what it returns is fully received and starts at 0.\<close>

lemma stream_bytes_in_ok: "stream_bytes s = Some bs \<Longrightarrow> 0 \<le> s_p s \<Longrightarrow> in_ok s \<and> s_end s = int (length bs)"
  using bytes_at_written [of "s_data s" 0 bs]
  by (auto simp: stream_bytes_def in_ok_def split: if_splits dest!: read_bytes_SomeD)

lemma libxrdp_force_read_safe:
  assumes "proc_ok self"
  shows "wp (libxrdp_force_read self) (\<lambda>(ok, self'). recv_frame (self\<lparr>tr_in_s := tr_in_s self'\<rparr>) self'
     \<and> (ok \<longrightarrow> in_ok (tr_in_s self') \<and> s_p (tr_in_s self') = 0 \<and> 4 \<le> s_end (tr_in_s self')
        \<and> tr_status self = TRANS_STATUS_UP \<and> tr_status self' = TRANS_STATUS_UP
        \<and> length (rx_stream (tr_rx self')) + 4 \<le> length (rx_stream (tr_rx self))))"
proof (cases "tr_status self = TRANS_STATUS_UP")
  case False
  then show ?thesis by (simp add: libxrdp_force_read_def trans_force_read_def trans_force_read_s_def recv_frame_def)
next
  case True
  let ?rx = "rx_stream (tr_rx self)"
  have "in_ok s \<and> 4 \<le> s_end s"
    if "stream_bytes s = Some (take n ?rx)" "s_p s = 0" "4 \<le> length ?rx" "4 \<le> n" for s n
    using stream_bytes_in_ok [OF that(1)] that(2-) by simp
  then show ?thesis
    using libxrdp_force_read_law [OF assms True] True by - (erule wp_mono, auto)
qed

text \<open>The same frame, ignoring the input stream.\<close>

definition rx_frame :: "trans \<Rightarrow> trans \<Rightarrow> bool" where
  "rx_frame self self' \<longleftrightarrow> recv_frame (self\<lparr>tr_in_s := tr_in_s self'\<rparr>) self'"

lemma rx_frame_refl [simp]: "rx_frame self self"
  by (simp add: rx_frame_def)

lemma rx_frame_in_s [simp]:
  "rx_frame self (self'\<lparr>tr_in_s := s\<rparr>) = rx_frame self self'"
  "rx_frame (self\<lparr>tr_in_s := s\<rparr>) self' = rx_frame self self'"
  by (simp_all add: rx_frame_def recv_frame_def)

lemma rx_frame_trans: "rx_frame a b \<Longrightarrow> rx_frame b c \<Longrightarrow> rx_frame a c"
  by (simp add: rx_frame_def recv_frame_def)

lemma rx_frame_safe:
  assumes "rx_frame self self'"
  shows "trans_safe self' = trans_safe self" "outgoing self' = outgoing self" "forward_ok self' n = forward_ok self n"
    "proc_ok self' = proc_ok self"
  using recv_frame_safe [OF assms [unfolded rx_frame_def]] assms
  by (simp_all add: rx_frame_def recv_frame_def proc_ok_def)

end
