(* ===== verification/Transport_Runs.thy ===== *)
theory Transport_Runs
  imports Trans_Recv "HOL-Library.Sublist"
begin

text \<open>
  Histories of one transport: the operations of \<open>common/trans.c\<close> in any order and number, with
  whatever the network does in between, as an inductive relation. The invariant of every
  reachable state is that the bytes accepted by successful writes, in their order, are what the
  wire carries followed by what is still queued.
\<close>

subsection \<open>Runs\<close>

text \<open>\<open>trans_run t acc t'\<close>: from \<open>t\<close> a sequence of operations led to \<open>t'\<close>; \<open>acc\<close> lists the
  writes that reported success. A failed \<open>trans_force_write\<close> ends a run: part of the data may be
  out and the transport is down.\<close>

inductive trans_run :: "trans \<Rightarrow> byte list list \<Rightarrow> trans \<Rightarrow> bool" for t where
  run_start: "trans_run t [] t"
| run_write: "trans_run t acc t1 \<Longrightarrow> bs \<noteq> [] \<Longrightarrow> length bs \<le> BUFFER_PACKET_SIZE \<Longrightarrow>
    trans_write_copy_s t1 (stream_of bs) = Some (r, t2) \<Longrightarrow>
    trans_run t (if r = 0 then acc @ [bs] else acc) t2"
| run_force: "trans_run t acc t1 \<Longrightarrow> bs \<noteq> [] \<Longrightarrow> length bs \<le> BUFFER_PACKET_SIZE \<Longrightarrow>
    trans_force_write_s t1 (stream_of bs) = Some (0, t2) \<Longrightarrow> trans_run t (acc @ [bs]) t2"
| run_drain: "trans_run t acc t1 \<Longrightarrow> trans_send_waiting t1 block = Some (r, t2) \<Longrightarrow> trans_run t acc t2"
| run_read: "trans_run t acc t1 \<Longrightarrow> 0 \<le> s_end (tr_in_s t1) \<Longrightarrow>
    s_end (tr_in_s t1) + sz \<le> s_size (tr_in_s t1) \<Longrightarrow>
    trans_force_read t1 sz = Some (r, t2) \<Longrightarrow> trans_run t acc t2"
| run_frame: "trans_run t acc t1 \<Longrightarrow> libxrdp_force_read t1 = Some (ok, t2) \<Longrightarrow> trans_run t acc t2"

definition run_inv :: "trans \<Rightarrow> byte list list \<Rightarrow> trans \<Rightarrow> bool" where
  "run_inv t acc t' \<longleftrightarrow> trans_safe t' \<and> outgoing t' = outgoing t @ concat acc"

lemma trans_safe_conserves: "conserves a b \<Longrightarrow> trans_safe a \<Longrightarrow> trans_safe b"
  unfolding conserves_def trans_safe_def using source_ok_frame [of a b] charged_source_frame [of a b] by metis

lemma write_keeps_order:
  assumes safe: "trans_safe t1" and lim: "length bs \<le> BUFFER_PACKET_SIZE"
    and w: "trans_write_copy_s t1 (stream_of bs) = Some (r, t2)"
  shows "trans_safe t2 \<and> outgoing t2 = outgoing t1 @ (if r = 0 then bs else [])"
proof (cases "tr_status t1 = TRANS_STATUS_UP")
  case True
  with safe have "writer_ok t1" by (simp add: writer_ok_safe)
  from trans_write_copy_s_law [OF this stream_bytes_of forward_ok_packet [OF lim]]
  have "outgoing t2 = outgoing t1 @ (if r = 0 then bs else [])" by (simp add: w)
  moreover from trans_write_copy_s_safe [OF safe stream_bytes_of forward_ok_packet [OF lim]] w
  have "trans_safe t2" by simp
  ultimately show ?thesis by simp
next
  case False
  with w safe show ?thesis by (auto simp: trans_write_copy_s_def)
qed

lemma force_keeps_order:
  assumes safe: "trans_safe t1" and lim: "length bs \<le> BUFFER_PACKET_SIZE"
    and w: "trans_force_write_s t1 (stream_of bs) = Some (0, t2)"
  shows "trans_safe t2 \<and> outgoing t2 = outgoing t1 @ bs"
proof (cases "tr_status t1 = TRANS_STATUS_UP")
  case True
  with safe have "writer_ok t1" by (simp add: writer_ok_safe)
  from trans_force_write_s_law [OF this stream_bytes_of forward_ok_packet [OF lim]] w
  show ?thesis by (simp add: writer_ok_safe outgoing_def queued_def)
next
  case False
  with w show ?thesis by (simp add: trans_force_write_s_def)
qed

lemma drain_keeps_order:
  assumes "trans_safe t1" "trans_send_waiting t1 block = Some (r, t2)"
  shows "trans_safe t2 \<and> outgoing t2 = outgoing t1"
proof -
  have "conserves t1 t2"
    using trans_send_waiting_conserves [of t1 block] assms by (simp add: trans_safe_def)
  with trans_safe_conserves [OF this assms(1)] show ?thesis by (simp add: conserves_def)
qed

lemma read_keeps_order:
  assumes safe: "trans_safe t1" and "0 \<le> s_end (tr_in_s t1)" "s_end (tr_in_s t1) + sz \<le> s_size (tr_in_s t1)"
    and r: "trans_force_read t1 sz = Some (r, t2)"
  shows "trans_safe t2 \<and> outgoing t2 = outgoing t1"
proof (cases "tr_status t1 = TRANS_STATUS_UP")
  case True
  with trans_force_read_law [of t1 sz] assms
  have "recv_frame (t1\<lparr>tr_in_s := tr_in_s t2\<rparr>) t2" by (simp add: trans_safe_def trans_ok_def)
  from recv_frame_safe [OF this] safe show ?thesis by simp
next
  case False
  with r safe show ?thesis by (auto simp: trans_force_read_def trans_force_read_s_def)
qed

lemma frame_keeps_order:
  assumes safe: "trans_safe t1" and "libxrdp_force_read t1 = Some (ok, t2)"
  shows "trans_safe t2 \<and> outgoing t2 = outgoing t1"
proof -
  have "recv_frame (t1\<lparr>tr_in_s := tr_in_s t2\<rparr>) t2"
    using libxrdp_force_read_safe [of t1] assms by (simp add: trans_safe_def trans_ok_def)
  from recv_frame_safe [OF this] safe show ?thesis by simp
qed

lemma trans_run_inv: "trans_run t acc t' \<Longrightarrow> trans_safe t \<Longrightarrow> run_inv t acc t'"
proof (induction rule: trans_run.induct)
  case run_start
  then show ?case by (simp add: run_inv_def)
next
  case (run_write acc t1 bs r t2)
  with write_keeps_order [of t1 bs r t2] show ?case by (simp add: run_inv_def)
next
  case (run_force acc t1 bs t2)
  with force_keeps_order [of t1 bs t2] show ?case by (simp add: run_inv_def)
next
  case (run_drain acc t1 block r t2)
  with drain_keeps_order [of t1 block r t2] show ?case by (simp add: run_inv_def)
next
  case (run_read acc t1 sz r t2)
  with read_keeps_order [of t1 sz r t2] show ?case by (simp add: run_inv_def)
next
  case (run_frame acc t1 ok t2)
  with frame_keeps_order [of t1 ok t2] show ?case by (simp add: run_inv_def)
qed

lemma trans_run_safe: "trans_run t acc t' \<Longrightarrow> trans_safe t \<Longrightarrow> trans_safe t'"
  using trans_run_inv [of t acc t'] by (simp add: run_inv_def)

subsection \<open>A concrete connection\<close>

text \<open>A connected TCP transport with given scripts, for the closed instances below.\<close>

definition tcp_link :: "rx_event list \<Rightarrow> tx_event list \<Rightarrow> trans" where
  "tcp_link rx tx = (trans_create TRANS_MODE_TCP 8192 8192)\<lparr>tr_status := TRANS_STATUS_UP, tr_type1 := TRANS_TYPE_SERVER,
     tr_rx := rx, tr_tx := tx\<rparr>"

lemma tcp_link_ok [simp]:
  "writer_ok (tcp_link rx tx)" "trans_safe (tcp_link rx tx)" "trans_ok (tcp_link rx tx)" "proc_ok (tcp_link rx tx)"
  "no_term (tcp_link rx tx)" "forward_ok (tcp_link rx tx) n"
  by (simp_all add: tcp_link_def trans_create_def writer_ok_def trans_safe_def trans_ok_def proc_ok_def no_term_def
    charged_source_def source_ok_def forward_ok_def)

lemma tcp_link_sel [simp]:
  "tr_status (tcp_link rx tx) = TRANS_STATUS_UP" "tr_rx (tcp_link rx tx) = rx" "tr_tx (tcp_link rx tx) = tx"
  "tr_wire (tcp_link rx tx) = []" "outgoing (tcp_link rx tx) = []" "tr_wait_s (tcp_link rx tx) = []"
  "tr_type1 (tcp_link rx tx) = TRANS_TYPE_SERVER" "tr_in_s (tcp_link rx tx) = init_stream make_stream 8192"
  "tr_header_size (tcp_link rx tx) = 0" "tr_si (tcp_link rx tx) = None" "tr_mode (tcp_link rx tx) = TRANS_MODE_TCP"
  by (simp_all add: tcp_link_def trans_create_def outgoing_def queued_def)

subsection \<open>The properties\<close>


lemma tcp_link_write_once:
  "map_option (\<lambda>(r, t). (r, tr_wire t, map ws_bytes (tr_wait_s t)))
     (trans_write_copy_s (tcp_link [] [Tx_Accept 1]) (stream_of [1, 2, 3])) = Some (0, [1], [[2, 3]])"
  by code_simp


text \<open>\<open>trans_write_copy_s\<close> returns on every network behaviour and never faults. A 0 result means that exactly
  the bytes of the stream were appended to the outgoing data (sent or queued), any other result that the outgoing data
  did not change; the flow-control counter of every source still equals the bytes queued on its behalf, up to the same
  difference as before.\<close>

theorem write_copy_conserves:
  assumes "writer_ok self" "stream_bytes out_s = Some bs" "length bs \<le> BUFFER_PACKET_SIZE"
  shows "wp (trans_write_copy_s self out_s) (\<lambda>(r, self'). (r = 0 \<or> r = 1)
     \<and> outgoing self' = outgoing self @ (if r = 0 then bs else [])
     \<and> (\<forall>k. balance self' k = balance self k))"
  by (rule wp_mono [OF trans_write_copy_s_law [OF assms(1,2) forward_ok_packet [OF assms(3)]]]) auto

theorem write_copy_conserves_witness:
  "wp (trans_write_copy_s (tcp_link [] [Tx_Accept 2, Tx_Block]) (stream_of [1, 2, 3, 4]))
     (\<lambda>(r, t). outgoing t = (if r = 0 then [1, 2, 3, 4] else []))"
  by (rule wp_mono [OF write_copy_conserves [OF tcp_link_ok(1) stream_bytes_of]]) (auto split: if_splits)

text \<open>\<open>trans_force_write_s\<close> returns; success means that everything queued before and then the whole stream are on
  the wire and nothing is queued any more; failure takes the transport down.\<close>

theorem force_write_delivers:
  assumes "writer_ok self" "stream_bytes out_s = Some bs" "length bs \<le> BUFFER_PACKET_SIZE"
  shows "wp (trans_force_write_s self out_s) (\<lambda>(r, self'). (r = 0 \<or> r = 1)
     \<and> (r = 0 \<longrightarrow> tr_wire self' = outgoing self @ bs \<and> tr_wait_s self' = [] \<and> writer_ok self')
     \<and> (r = 1 \<longrightarrow> tr_status self' = TRANS_STATUS_DOWN))"
  by (rule trans_force_write_s_law [OF assms(1,2) forward_ok_packet [OF assms(3)]])

theorem force_write_delivers_witness:
  "wp (trans_force_write_s (tcp_link [] [Tx_Accept 2, Tx_Block, Tx_Accept 9]) (stream_of [1, 2, 3]))
     (\<lambda>(r, t). r = 0 \<longrightarrow> tr_wire t = [1, 2, 3])"
  by (rule wp_mono [OF force_write_delivers [OF tcp_link_ok(1) stream_bytes_of]]) auto

text \<open>\<open>trans_send_waiting\<close> always returns. It neither loses nor duplicates a queued byte, and a blocking call
  that reports success has emptied the queue onto the wire.\<close>

theorem send_waiting_returns:
  assumes "trans_ok self"
  shows "\<exists>r self'. trans_send_waiting self block = Some (r, self') \<and> (r = 0 \<or> r = 1) \<and> outgoing self' = outgoing self
     \<and> (block \<and> r = 0 \<longrightarrow> tr_wire self' = outgoing self \<and> tr_wait_s self' = [])"
  using trans_send_waiting_conserves [OF assms, of block]
  by (auto simp: wp_exists conserves_def outgoing_def queued_def)

theorem send_waiting_returns_witness:
  "\<exists>r t. trans_send_waiting ((tcp_link [] [Tx_Accept 1, Tx_Accept 5])\<lparr>tr_wait_s := [\<lparr>ws_bytes = [1, 2], ws_source = None\<rparr>]\<rparr>) True
     = Some (r, t) \<and> (r = 0 \<longrightarrow> tr_wire t = [1, 2])"
proof -
  let ?t = "(tcp_link [] [Tx_Accept 1, Tx_Accept 5])\<lparr>tr_wait_s := [\<lparr>ws_bytes = [1, 2], ws_source = None\<rparr>]\<rparr>"
  have "trans_ok ?t" "outgoing ?t = [1, 2]"
    by (simp_all add: trans_ok_def wait_ok_def proc_ok_def forward_ok_def source_ok_def tcp_link_def trans_create_def
      outgoing_def queued_def)
  with send_waiting_returns [of ?t True] show ?thesis by auto
qed

text \<open>C5. Reading a number of bytes does not depend on how the network cut the stream into segments or how often the
  call had to wait: two transports that are sent the same bytes read the same bytes, or both fail; and the call succeeds
  exactly when the peer delivers enough.\<close>

theorem force_read_chunking:
  assumes "proc_ok a" "proc_ok b" "tr_status a = TRANS_STATUS_UP" "tr_status b = TRANS_STATUS_UP" "no_term a" "no_term b"
    and "rx_stream (tr_rx a) = rx_stream (tr_rx b)" "tr_in_s a = tr_in_s b"
    and "0 \<le> s_end (tr_in_s a)" "s_end (tr_in_s a) + sz \<le> s_size (tr_in_s a)"
  shows "\<exists>r a' b'. trans_force_read a sz = Some (r, a') \<and> trans_force_read b sz = Some (r, b')
     \<and> (r = 0 \<longleftrightarrow> nat sz \<le> length (rx_stream (tr_rx a)))
     \<and> (r = 0 \<longrightarrow> tr_in_s a' = tr_in_s b' \<and> rx_stream (tr_rx a') = rx_stream (tr_rx b'))"
proof -
  obtain r a' where a: "trans_force_read a sz = Some (r, a')" "r = 0 \<or> r = 1" "r = 0 \<longleftrightarrow> nat sz \<le> length (rx_stream (tr_rx a))"
    and a0: "r = 0 \<Longrightarrow> rx_stream (tr_rx a') = drop (nat sz) (rx_stream (tr_rx a)) \<and>
      tr_in_s a' = (tr_in_s a)\<lparr>s_data := write_bytes (s_data (tr_in_s a)) (s_end (tr_in_s a)) (take (nat sz) (rx_stream (tr_rx a))),
                s_end := s_end (tr_in_s a) + max 0 sz\<rparr>"
    using trans_force_read_law [OF assms(1,3,9,10)] assms(5) unfolding wp_exists by fastforce
  obtain q b' where b: "trans_force_read b sz = Some (q, b')" "q = 0 \<or> q = 1" "q = 0 \<longleftrightarrow> nat sz \<le> length (rx_stream (tr_rx b))"
    and b0: "q = 0 \<Longrightarrow> rx_stream (tr_rx b') = drop (nat sz) (rx_stream (tr_rx b)) \<and>
      tr_in_s b' = (tr_in_s b)\<lparr>s_data := write_bytes (s_data (tr_in_s b)) (s_end (tr_in_s b)) (take (nat sz) (rx_stream (tr_rx b))),
                s_end := s_end (tr_in_s b) + max 0 sz\<rparr>"
    using trans_force_read_law [OF assms(2,4), of sz] assms(6,8,9,10) unfolding wp_exists by fastforce
  from a(2,3) b(2,3) assms(7) have "q = r" by auto
  with a b a0 b0 assms(7,8) show ?thesis by auto
qed

theorem force_read_chunking_witness:
  "\<exists>r a' b'. trans_force_read (tcp_link [Rx_Bytes [1], Rx_Block, Rx_Bytes [2, 3, 4]] []) 3 = Some (r, a')
     \<and> trans_force_read (tcp_link [Rx_Bytes [1, 2, 3, 4]] []) 3 = Some (r, b') \<and> r = 0 \<and> tr_in_s a' = tr_in_s b'"
  using force_read_chunking [of "tcp_link [Rx_Bytes [1], Rx_Block, Rx_Bytes [2, 3, 4]] []" "tcp_link [Rx_Bytes [1, 2, 3, 4]] []" 3]
  by (auto simp: init_stream_def make_stream_def)

text \<open>\<open>libxrdp_force_read\<close> on any input: it returns a stream exactly when the peer delivers a whole frame whose
  announced length is between 1 and 32768; the stream then holds the frame's bytes (at least the four header bytes) from
  its start, and the bytes behind it are left for the next call.\<close>

theorem force_read_frame:
  assumes "proc_ok self" "tr_status self = TRANS_STATUS_UP" "no_term self"
  shows "\<exists>ok self'. libxrdp_force_read self = Some (ok, self') \<and> outgoing self' = outgoing self
     \<and> (let rx = rx_stream (tr_rx self); n = nat (max 4 (pdu_length rx)) in
        (ok \<longleftrightarrow> 4 \<le> length rx \<and> 1 \<le> pdu_length rx \<and> pdu_length rx \<le> 32768 \<and> pdu_length rx \<le> int (length rx))
        \<and> (ok \<longrightarrow> stream_bytes (tr_in_s self') = Some (take n rx) \<and> s_p (tr_in_s self') = 0
             \<and> rx_stream (tr_rx self') = drop n rx))"
proof -
  obtain ok self' where r: "libxrdp_force_read self = Some (ok, self')"
    using libxrdp_force_read_law [OF assms(1,2)] by (auto simp: wp_exists)
  note law = libxrdp_force_read_law [OF assms(1,2), unfolded r wp_Some split_conv]
  note out = recv_frame_safe(2) [OF conjunct1 [OF law]]
  let ?rx = "rx_stream (tr_rx self)"
  have ok: "ok \<longleftrightarrow> 4 \<le> length ?rx \<and> 1 \<le> pdu_length ?rx \<and> pdu_length ?rx \<le> 32768 \<and> pdu_length ?rx \<le> int (length ?rx)"
    using conjunct2 [OF law] assms(3) by argo
  have res: "ok \<longrightarrow> stream_bytes (tr_in_s self') = Some (take (nat (max 4 (pdu_length ?rx))) ?rx) \<and> s_p (tr_in_s self') = 0
      \<and> rx_stream (tr_rx self') = drop (nat (max 4 (pdu_length ?rx))) ?rx"
    using conjunct1 [OF conjunct2 [OF law]] by argo
  show ?thesis
    unfolding Let_def by (rule exI [of _ ok], rule exI [of _ self']) (intro conjI r out ok res)
qed

theorem force_read_frame_witness:
  "\<exists>ok t. libxrdp_force_read (tcp_link [Rx_Bytes [3, 0], Rx_Bytes [0, 5, 42, 7]] []) = Some (ok, t) \<and> ok
     \<and> stream_bytes (tr_in_s t) = Some [3, 0, 0, 5, 42] \<and> rx_stream (tr_rx t) = [7]"
  using force_read_frame [of "tcp_link [Rx_Bytes [3, 0], Rx_Bytes [0, 5, 42, 7]] []"]
  by (auto simp: pdu_length_def Let_def)

text \<open>C6. The event handler of a connected transport keeps its invariant and never faults, whatever the network
  delivers and whatever a well-behaved data callback does: the input stream never holds more than the header the callback
  asked for, and the header fits the buffer.\<close>

theorem event_handler_invariant:
  assumes "header_inv self" "callback_ok data_in" "tr_type1 self \<noteq> TRANS_TYPE_LISTENER"
  shows "wp (trans_check_wait_objs conn_in data_in self) (\<lambda>(r, self', new). header_inv self' \<and> new = None)"
  using check_connected_law [OF assms(1,2)] assms
  by (auto simp: trans_check_wait_objs_def wp_simps elim!: wp_mono)

theorem event_handler_invariant_witness:
  "wp (trans_check_wait_objs None (Some (\<lambda>t. Some (0, t)))
      ((tcp_link [Rx_Bytes [1, 2, 3, 4, 5]] [])\<lparr>tr_header_size := 4\<rparr>)) (\<lambda>(r, t, new). header_inv t \<and> new = None)"
proof (rule event_handler_invariant)
  show "header_inv ((tcp_link [Rx_Bytes [1, 2, 3, 4, 5]] [])\<lparr>tr_header_size := 4\<rparr>)"
    by (simp add: header_inv_def trans_ok_def proc_ok_def tcp_link_def trans_create_def init_stream_def make_stream_def)
  show "callback_ok (Some (\<lambda>t. Some (0, t)))" by (simp add: callback_ok_def)
qed simp

text \<open>\<open>trans_connect\<close> ends within the time-out (the clock advances by the 100 ms slept in every turn): it reports 0
  and leaves a client transport that is up, or 1 and one that is down.\<close>

theorem connect_returns:
  assumes "\<forall>i. ce_time env 0 + 100 * int i \<le> ce_time env (Suc i)" "timeout \<le> 100 * int fuel"
  shows "\<exists>r self'. trans_connect (Suc fuel) env self timeout = Some (r, self')
     \<and> (r = 0 \<and> tr_status self' = TRANS_STATUS_UP \<and> tr_type1 self' = TRANS_TYPE_CLIENT
        \<or> r = 1 \<and> tr_status self' = TRANS_STATUS_DOWN)"
proof -
  let ?s = "(if tr_sck self \<noteq> 0 then self\<lparr>tr_closed := tr_closed self @ [tr_sck self], tr_sck := 0\<rparr> else self)\<lparr>tr_sck := ce_socket env\<rparr>"
  obtain res where res: "connect_loop (Suc fuel) env 0 timeout ?s = Some res"
    using connect_loop_ends [OF assms(1), of timeout 0 fuel ?s] assms(2) by auto
  show ?thesis
  proof (cases res)
    case (Inl p)
    then obtain r t where "res = Inl (r, t)" by (cases p) auto
    with connect_loop_return [of "Suc fuel" env 0 timeout ?s r t] res show ?thesis
      by (auto simp: trans_connect_def Let_def)
  next
    case (Inr p)
    then obtain e t where "res = Inr (e, t)" by (cases p) auto
    with connect_loop_break [of "Suc fuel" env 0 timeout ?s e t] res show ?thesis
      by (auto simp: trans_connect_def Let_def)
  qed
qed

theorem connect_returns_witness:
  "\<exists>r t. trans_connect 31 \<lparr>ce_socket = 5, ce_connect = (\<lambda>i. if i < 3 then -1 else 0), ce_time = (\<lambda>i. 100 * int i), ce_writable = True\<rparr>
     (tcp_link [] []) 3000 = Some (r, t) \<and> (r = 0 \<longrightarrow> tr_status t = TRANS_STATUS_UP)"
  using connect_returns [of "\<lparr>ce_socket = 5, ce_connect = (\<lambda>i. if i < 3 then -1 else 0), ce_time = (\<lambda>i. 100 * int i), ce_writable = True\<rparr>"
    3000 30 "tcp_link [] []"]
  by (auto simp: numeral_eq_Suc)

text \<open>A write of more than 16384 bytes on a TLS connection whose session is mirrored to a slave overflows the
  forwarding buffer: \<open>sendDataToSlaveSession\<close> copies without checking the length.\<close>

theorem slave_forwarding_overflows:
  assumes "tr_proc self = Proc_Tls" "tr_tls self" "tr_my_info self = Some p" "send_to_slave p" "session_master p"
  shows "trans_send self data = None \<longleftrightarrow> BUFFER_PACKET_SIZE < length data"
proof -
  obtain rv s1 where g: "g_tcp_send self data = (rv, s1)" by fastforce
  then have "tr_my_info s1 = Some p"
    using assms(3) by (auto simp: g_tcp_send_def Let_def split: list.splits tx_event.splits)
  with g assms show ?thesis
    by (auto simp: trans_send_def trans_tls_send_def sendDataToSlaveSession_def Let_def split: list.splits option.splits)
qed

theorem slave_forwarding_overflows_witness:
  "trans_send ((tcp_link [] [Tx_Accept 9])\<lparr>tr_proc := Proc_Tls, tr_tls := True,
     tr_my_info := Some \<lparr>send_to_slave = True, session_master = True, mt_pipe = [], mt_slave = []\<rparr>\<rparr>) (replicate 16385 0) = None"
  using slave_forwarding_overflows [of "(tcp_link [] [Tx_Accept 9])\<lparr>tr_proc := Proc_Tls, tr_tls := True,
     tr_my_info := Some \<lparr>send_to_slave = True, session_master = True, mt_pipe = [], mt_slave = []\<rparr>\<rparr>"
     "\<lparr>send_to_slave = True, session_master = True, mt_pipe = [], mt_slave = []\<rparr>" "replicate 16385 0"]
  by simp

end
