(* ===== verification/Iso.thy ===== *)
theory Iso
  imports Transport_Runs
begin

text \<open>
  The X.224 / TPKT layer, \<open>libxrdp/xrdp_iso.c\<close>: the connection request of the client, the
  choice of the security protocol, the connection confirm of the server, and the seven-byte
  header of every data PDU. The configuration (\<open>client_info.security_layer\<close> and whether the
  certificate and key files are readable) is an argument.
\<close>

abbreviation (input) ISO_PDU_CR :: int where "ISO_PDU_CR \<equiv> 0xE0"
abbreviation (input) ISO_PDU_CC :: int where "ISO_PDU_CC \<equiv> 0xD0"
abbreviation (input) ISO_PDU_DT :: int where "ISO_PDU_DT \<equiv> 0xF0"
abbreviation (input) RDP_NEG_REQ :: int where "RDP_NEG_REQ \<equiv> 1"
abbreviation (input) RDP_NEG_RSP :: int where "RDP_NEG_RSP \<equiv> 2"
abbreviation (input) RDP_NEG_FAILURE :: int where "RDP_NEG_FAILURE \<equiv> 3"
abbreviation (input) RDP_CORRELATION_INFO :: int where "RDP_CORRELATION_INFO \<equiv> 6"
abbreviation (input) PROTOCOL_RDP :: int where "PROTOCOL_RDP \<equiv> 0"
abbreviation (input) PROTOCOL_SSL :: int where "PROTOCOL_SSL \<equiv> 1"
abbreviation (input) SSL_REQUIRED_BY_SERVER :: int where "SSL_REQUIRED_BY_SERVER \<equiv> 1"
abbreviation (input) SSL_CERT_NOT_ON_SERVER :: int where "SSL_CERT_NOT_ON_SERVER \<equiv> 3"
abbreviation (input) EXTENDED_CLIENT_DATA_SUPPORTED :: int where "EXTENDED_CLIENT_DATA_SUPPORTED \<equiv> 1"

record xrdp_iso =
  rdpNegData :: int
  requestedProtocol :: int
  selectedProtocol :: int
  failureCode :: int
  iso_trans :: trans

record security_config =
  security_layer :: int
  certificate_readable :: bool
  key_file_readable :: bool

definition xrdp_iso_create :: "trans \<Rightarrow> xrdp_iso" where
  "xrdp_iso_create tr = \<lparr>rdpNegData = 0, requestedProtocol = 0, selectedProtocol = 0, failureCode = 0,
     iso_trans = tr\<rparr>"

subsection \<open>Negotiation\<close>

definition xrdp_iso_negotiate_security :: "security_config \<Rightarrow> xrdp_iso \<Rightarrow> int \<times> xrdp_iso" where
  "xrdp_iso_negotiate_security cfg self =
     (let self = self\<lparr>selectedProtocol := security_layer cfg\<rparr> in
      if security_layer cfg = PROTOCOL_RDP then (0, self)
      else if security_layer cfg = PROTOCOL_SSL then
        if requestedProtocol self AND PROTOCOL_SSL \<noteq> 0 then
          if \<not> certificate_readable cfg \<or> \<not> key_file_readable cfg
          then (1, self\<lparr>failureCode := SSL_CERT_NOT_ON_SERVER\<rparr>)
          else (0, self\<lparr>selectedProtocol := PROTOCOL_SSL\<rparr>)
        else (1, self\<lparr>failureCode := SSL_REQUIRED_BY_SERVER\<rparr>)
      else
        if requestedProtocol self AND PROTOCOL_SSL \<noteq> 0 \<and> certificate_readable cfg \<and> key_file_readable cfg
        then (0, self\<lparr>selectedProtocol := PROTOCOL_SSL\<rparr>)
        else (0, self\<lparr>selectedProtocol := PROTOCOL_RDP\<rparr>))"

text \<open>\<open>requestedProtocol\<close> is an \<open>int\<close>: the unsigned 32-bit field is converted to it.\<close>

definition xrdp_iso_process_rdp_neg_req :: "xrdp_iso \<Rightarrow> stream \<Rightarrow> (int \<times> xrdp_iso \<times> stream) option" where
  "xrdp_iso_process_rdp_neg_req self s = do {
     (flags, s) \<leftarrow> in_uint8 s;
     if flags \<noteq> 0 \<and> flags \<noteq> 8 \<and> flags \<noteq> 1 then Some (1, self, s)
     else do {
       (len, s) \<leftarrow> in_uint16_le s;
       if len \<noteq> 8 then Some (1, self, s)
       else do {
         (v, s) \<leftarrow> in_uint32_le s;
         let self = self\<lparr>requestedProtocol := s32 v\<rparr>;
         if requestedProtocol self > 0xb then Some (1, self, s) else Some (0, self, s) } } }"

subsection \<open>Receiving\<close>

text \<open>The result: return value, \<open>code\<close>, \<open>len\<close>, stream.\<close>

definition xrdp_iso_recv_msg :: "stream \<Rightarrow> (int \<times> int \<times> int \<times> stream) option" where
  "xrdp_iso_recv_msg s = do {
     (ver, s) \<leftarrow> in_uint8 s;
     if ver \<noteq> 3 then Some (1, 0, 0, s)
     else do {
       let s = in_uint8s s 1;
       (plen, s) \<leftarrow> in_uint16_be s;
       if plen < 4 then Some (1, 0, 0, s)
       else if \<not> s_check_rem s 2 then Some (1, 0, 0, s)
       else do {
         (len, s) \<leftarrow> in_uint8 s;
         (code, s) \<leftarrow> in_uint8 s;
         if code = ISO_PDU_DT then
           if \<not> s_check_rem s 1 then Some (1, code, len, s) else Some (0, code, len, in_uint8s s 1)
         else
           if \<not> s_check_rem s 5 then Some (1, code, len, s) else Some (0, code, len, in_uint8s s 5) } } }"

definition xrdp_iso_recv :: "stream \<Rightarrow> (int \<times> stream) option" where
  "xrdp_iso_recv s = do {
     (r, code, len, s) \<leftarrow> xrdp_iso_recv_msg s;
     if r \<noteq> 0 then Some (1, s)
     else if code \<noteq> ISO_PDU_DT \<or> len \<noteq> 2 then Some (1, s)
     else Some (0, s) }"

lemma in_uint8_moves: "in_uint8 s = Some (v, s') \<Longrightarrow> s_p s' = s_p s + 1"
  by (auto simp: in_uint8_def bind_eq_Some)

lemma neg_req_moves: "xrdp_iso_process_rdp_neg_req self s = Some (r, self', s') \<Longrightarrow> s_p s \<le> s_p s'"
  by (auto simp: xrdp_iso_process_rdp_neg_req_def in_uint8_def in_uint16_le_def in_uint32_le_def bind_eq_Some
      Let_def split: if_splits)

text \<open>The routing-token scan. \<open>text\<close> is the 256-byte buffer, \<open>ci\<close> is \<open>cookie_index\<close>.\<close>

type_synonym cookie_text = "int \<Rightarrow> int option"

definition store_text :: "cookie_text \<Rightarrow> int \<Rightarrow> int \<Rightarrow> cookie_text option" where
  "store_text text i v = (if 0 \<le> i \<and> i < 256 then Some (text(i := Some v)) else None)"

function iso_cookie :: "int \<Rightarrow> stream \<Rightarrow> cookie_text \<Rightarrow> int \<Rightarrow> int \<Rightarrow> (stream \<times> cookie_text \<times> int) option" where
  "iso_cookie pend s text ci cc_type =
     (if s_p s < pend then do {
        text \<leftarrow> store_text text ci cc_type;
        let ci = (if ci + 1 > 255 then 255 else ci + 1);
        c0 \<leftarrow> rd8 s (s_p s);
        crlf \<leftarrow> (if c0 = 0x0D then do { c1 \<leftarrow> rd8 s (s_p s + 1); Some (c1 = 0x0A) } else Some False);
        if crlf then do {
          text \<leftarrow> store_text text ci 0;
          Some (in_uint8s s 2, text, 0) }
        else do {
          (cc_type, s') \<leftarrow> in_uint8 s;
          iso_cookie pend s' text ci cc_type } }
      else Some (s, text, ci))"
  by pat_completeness auto
termination
  by (relation "measure (\<lambda>(pend, s, text, ci, cc_type). nat (pend - s_p s))") (auto dest: in_uint8_moves)

declare iso_cookie.simps [simp del]

lemma iso_cookie_moves: "iso_cookie pend s text ci c = Some (s', text', ci') \<Longrightarrow> s_p s \<le> s_p s'"
proof (induction pend s "text" ci c rule: iso_cookie.induct)
  case (1 pend s tx ci c)
  have step: "s_p s1 \<le> s_p s'" if "s_p s < pend" "store_text tx ci c = Some tx1" "rd8 s (s_p s) = Some c0"
    "(if c0 = 0x0D then do { c1 \<leftarrow> rd8 s (s_p s + 1); Some (c1 = 0x0A) } else Some False) = Some False"
    "in_uint8 s = Some (v, s1)" "iso_cookie pend s1 tx1 (if ci + 1 > 255 then 255 else ci + 1) v = Some (s', text', ci')"
    for s1 tx1 c0 v
    using 1(1) [OF that(1,2) refl that(3,4) _ that(5) refl that(6)] by simp
  from 1(2) show ?case
    by (subst (asm) iso_cookie.simps)
      (auto simp: bind_eq_Some Let_def split: if_splits dest!: step dest: in_uint8_moves)
qed

text \<open>The loop over the items of the connection request: \<open>Some r\<close> is an early return.\<close>

function iso_items :: "int \<Rightarrow> xrdp_iso \<Rightarrow> stream \<Rightarrow> cookie_text \<Rightarrow> int \<Rightarrow> (int option \<times> xrdp_iso \<times> stream) option" where
  "iso_items pend self s text ci =
     (if s_p s < pend then do {
        (cc_type, s1) \<leftarrow> in_uint8 s;
        if cc_type = RDP_NEG_REQ then do {
          (r, self, s2) \<leftarrow> xrdp_iso_process_rdp_neg_req (self\<lparr>rdpNegData := 1\<rparr>) s1;
          if r \<noteq> 0 then Some (Some 1, self, s2) else iso_items pend self s2 text ci }
        else if cc_type = RDP_CORRELATION_INFO then iso_items pend self (in_uint8s s1 (1 + 2 + 16 + 16)) text ci
        else if cc_type = 67 then do {
          (s2, text, ci) \<leftarrow> iso_cookie pend s1 text ci cc_type;
          iso_items pend self s2 text ci }
        else iso_items pend self s1 text ci }
      else Some (None, self, s))"
  by pat_completeness auto
termination
  by (relation "measure (\<lambda>(pend, self, s, text, ci). nat (pend - s_p s))")
    (auto dest!: in_uint8_moves iso_cookie_moves neg_req_moves)

declare iso_items.simps [simp del]

subsection \<open>Sending\<close>

definition xrdp_iso_send_cc :: "xrdp_iso \<Rightarrow> (int \<times> xrdp_iso) option" where
  "xrdp_iso_send_cc self = do {
     let s = init_stream make_stream 8192;
     let holdp = s_p s;
     s \<leftarrow> out_uint8 s 3;
     s \<leftarrow> out_uint8 s 0;
     let len_ptr = s_p s;
     s \<leftarrow> out_uint16_be s 0;
     let len_indicator_ptr = s_p s;
     s \<leftarrow> out_uint8 s 0;
     s \<leftarrow> out_uint8 s ISO_PDU_CC;
     s \<leftarrow> out_uint16_be s 0;
     s \<leftarrow> out_uint16_be s 0x1234;
     s \<leftarrow> out_uint8 s 0;
     s \<leftarrow> (if rdpNegData self \<noteq> 0 then
             if failureCode self \<noteq> 0 then do {
               s \<leftarrow> out_uint8 s RDP_NEG_FAILURE;
               s \<leftarrow> out_uint8 s 0;
               s \<leftarrow> out_uint16_le s 8;
               out_uint32_le s (failureCode self) }
             else do {
               s \<leftarrow> out_uint8 s RDP_NEG_RSP;
               s \<leftarrow> out_uint8 s EXTENDED_CLIENT_DATA_SUPPORTED;
               s \<leftarrow> out_uint16_le s 8;
               out_uint32_le s (selectedProtocol self) }
           else Some s);
     let s = s_mark_end s;
     let len = s_end s - holdp;
     let len_indicator = s_end s - len_indicator_ptr - 1;
     s \<leftarrow> wr8 s len_ptr (len div 256);
     s \<leftarrow> wr8 s (len_ptr + 1) len;
     s \<leftarrow> wr8 s len_indicator_ptr len_indicator;
     (r, tr) \<leftarrow> trans_write_copy_s (iso_trans self) s;
     Some (if r \<noteq> 0 then 1 else 0, self\<lparr>iso_trans := tr\<rparr>) }"

definition xrdp_iso_incoming :: "security_config \<Rightarrow> xrdp_iso \<Rightarrow> (int \<times> xrdp_iso) option" where
  "xrdp_iso_incoming cfg self = do {
     (ok, tr) \<leftarrow> libxrdp_force_read (iso_trans self);
     let self = self\<lparr>iso_trans := tr\<rparr>;
     if \<not> ok then Some (1, self)
     else do {
       (r, code, len, s) \<leftarrow> xrdp_iso_recv_msg (tr_in_s tr);
       if r \<noteq> 0 then Some (1, self\<lparr>iso_trans := tr\<lparr>tr_in_s := s\<rparr>\<rparr>)
       else if code \<noteq> ISO_PDU_CR \<or> len < 6 then Some (1, self\<lparr>iso_trans := tr\<lparr>tr_in_s := s\<rparr>\<rparr>)
       else do {
         (ret, self, s) \<leftarrow> iso_items (s_p s + (len - 6)) self s (\<lambda>_. None) 0;
         let self = self\<lparr>iso_trans := tr\<lparr>tr_in_s := s\<rparr>\<rparr>;
         (case ret of
            Some r \<Rightarrow> Some (r, self)
          | None \<Rightarrow> do {
              let (rv, self) = xrdp_iso_negotiate_security cfg self;
              (r, self) \<leftarrow> xrdp_iso_send_cc self;
              Some (if r \<noteq> 0 then 1 else rv, self) }) } } }"

definition xrdp_iso_init :: "stream \<Rightarrow> stream" where
  "xrdp_iso_init s = s_push_layer (init_stream s (8192 * 4)) iso_hdr_update 7"

definition xrdp_iso_send :: "xrdp_iso \<Rightarrow> stream \<Rightarrow> (int \<times> xrdp_iso \<times> stream) option" where
  "xrdp_iso_send self s = do {
     let s = s_pop_layer s iso_hdr;
     let len = s_end s - s_p s;
     s \<leftarrow> out_uint8 s 3;
     s \<leftarrow> out_uint8 s 0;
     s \<leftarrow> out_uint16_be s len;
     s \<leftarrow> out_uint8 s 2;
     s \<leftarrow> out_uint8 s ISO_PDU_DT;
     s \<leftarrow> out_uint8 s 0x80;
     (r, tr) \<leftarrow> trans_write_copy_s (iso_trans self) s;
     Some (if r \<noteq> 0 then 1 else 0, self\<lparr>iso_trans := tr\<rparr>, s) }"

subsection \<open>The wire format\<close>

definition tpkt_header :: "int \<Rightarrow> byte list" where
  "tpkt_header len = enc8 3 @ enc8 0 @ enc16_be len @ enc8 2 @ enc8 ISO_PDU_DT @ enc8 0x80"

definition neg_data :: "xrdp_iso \<Rightarrow> byte list" where
  "neg_data self =
     (if rdpNegData self = 0 then []
      else if failureCode self \<noteq> 0 then enc8 RDP_NEG_FAILURE @ enc8 0 @ enc16_le 8 @ enc32_le (failureCode self)
      else enc8 RDP_NEG_RSP @ enc8 EXTENDED_CLIENT_DATA_SUPPORTED @ enc16_le 8 @ enc32_le (selectedProtocol self))"

definition connection_confirm :: "xrdp_iso \<Rightarrow> byte list" where
  "connection_confirm self =
     (let n = int (length (neg_data self)) in
      enc8 3 @ enc8 0 @ enc16_be (11 + n) @ enc8 (6 + n) @ enc8 ISO_PDU_CC @ enc16_be 0 @ enc16_be 0x1234 @ enc8 0
      @ neg_data self)"

lemma tpkt_header_length [simp]: "length (tpkt_header n) = 7"
  by (simp add: tpkt_header_def)

lemma stream_bytes_at:
  "bytes_at (s_data s) 0 bs \<Longrightarrow> s_end s = int (length bs) \<Longrightarrow> s_end s \<le> s_size s \<Longrightarrow> stream_bytes s = Some bs"
  by (simp add: stream_bytes_def read_bytes_at)

lemma stream_bytesD:
  "stream_bytes s = Some bs \<Longrightarrow> bytes_at (s_data s) 0 bs \<and> s_end s = int (length bs) \<and> s_end s \<le> s_size s"
  by (auto simp: stream_bytes_def split: if_splits dest!: read_bytes_SomeD)

text \<open>The stream that \<open>xrdp_iso_send\<close> hands to the transport.\<close>

lemma xrdp_iso_send_stream:
  assumes "iso_hdr s = 0" "s_end s = 7 + int (length payload)" "bytes_at (s_data s) 7 payload" "s_end s \<le> s_size s"
  obtains s' where "stream_bytes s' = Some (tpkt_header (7 + int (length payload)) @ payload)"
    "xrdp_iso_send self s = do { (r, tr) \<leftarrow> trans_write_copy_s (iso_trans self) s';
       Some (if r \<noteq> 0 then 1 else 0, self\<lparr>iso_trans := tr\<rparr>, s') }"
proof
  let ?h = "tpkt_header (7 + int (length payload))"
  let ?s = "emit (s\<lparr>s_p := 0\<rparr>) ?h"
  have "bytes_at (write_bytes (s_data s) 0 ?h) 7 payload"
    by (rule bytes_at_cong [OF assms(3)]) (simp add: write_bytes_above)
  then have "bytes_at (s_data ?s) 0 (?h @ payload)"
    by (simp add: bytes_at_append bytes_at_write_bytes)
  then show "stream_bytes ?s = Some (?h @ payload)"
    using assms by (intro stream_bytes_at) simp_all
  show "xrdp_iso_send self s = do { (r, tr) \<leftarrow> trans_write_copy_s (iso_trans self) ?s;
       Some (if r \<noteq> 0 then 1 else 0, self\<lparr>iso_trans := tr\<rparr>, ?s) }"
    using assms by (simp add: xrdp_iso_send_def s_pop_layer_def out_emit room_def tpkt_header_def Let_def)
qed

lemma xrdp_iso_send_law:
  assumes "iso_hdr s = 0" "s_end s = 7 + int (length payload)" "bytes_at (s_data s) 7 payload" "s_end s \<le> s_size s"
    and "writer_ok (iso_trans self)" "forward_ok (iso_trans self) (7 + length payload)"
  shows "wp (xrdp_iso_send self s) (\<lambda>(r, self', s').
     outgoing (iso_trans self') = outgoing (iso_trans self)
       @ (if r = 0 then tpkt_header (7 + int (length payload)) @ payload else [])
     \<and> (r = 0 \<or> r = 1) \<and> (r = 0 \<longrightarrow> writer_ok (iso_trans self') \<and> send_frame (iso_trans self) (iso_trans self'))
     \<and> (\<exists>tr. self' = self\<lparr>iso_trans := tr\<rparr>)
     \<and> stream_bytes s' = Some (tpkt_header (7 + int (length payload)) @ payload))"
proof -
  obtain s' where s': "stream_bytes s' = Some (tpkt_header (7 + int (length payload)) @ payload)"
    "xrdp_iso_send self s = do { (r, tr) \<leftarrow> trans_write_copy_s (iso_trans self) s';
       Some (if r \<noteq> 0 then 1 else 0, self\<lparr>iso_trans := tr\<rparr>, s') }"
    using xrdp_iso_send_stream [OF assms(1-4)] .
  from trans_write_copy_s_law [OF assms(5) s'(1)] assms(6)
  show ?thesis unfolding s'(2) wp_bind by (auto simp: s'(1) elim!: wp_mono)
qed

lemma xrdp_iso_send_safe:
  assumes "iso_hdr s = 0" "s_end s = 7 + int (length payload)" "bytes_at (s_data s) 7 payload" "s_end s \<le> s_size s"
    and "trans_safe (iso_trans self)" "forward_ok (iso_trans self) (7 + length payload)"
  shows "wp (xrdp_iso_send self s) (\<lambda>(r, self', s'). (r = 0 \<or> r = 1) \<and> (\<exists>tr. self' = self\<lparr>iso_trans := tr\<rparr> \<and> trans_safe tr
     \<and> send_frame ((iso_trans self)\<lparr>tr_status := tr_status tr\<rparr>) tr))"
proof -
  obtain s' where s': "stream_bytes s' = Some (tpkt_header (7 + int (length payload)) @ payload)"
    "xrdp_iso_send self s = do { (r, tr) \<leftarrow> trans_write_copy_s (iso_trans self) s';
       Some (if r \<noteq> 0 then 1 else 0, self\<lparr>iso_trans := tr\<rparr>, s') }"
    using xrdp_iso_send_stream [OF assms(1-4)] .
  from trans_write_copy_s_safe [OF assms(5) s'(1)] assms(6)
  show ?thesis unfolding s'(2) wp_bind by (auto elim!: wp_mono)
qed

lemmas enc_bytes = enc8_def enc16_be_def enc16_le_def enc32_le_def enc32_be_def

lemma neg_data_length: "length (neg_data self) = (if rdpNegData self = 0 then 0 else 8)"
  by (simp add: neg_data_def)

lemma neg_data_emit:
  assumes "room s 8"
  shows "(if rdpNegData self \<noteq> 0 then
             if failureCode self \<noteq> 0 then do {
               s \<leftarrow> out_uint8 s RDP_NEG_FAILURE;
               s \<leftarrow> out_uint8 s 0;
               s \<leftarrow> out_uint16_le s 8;
               out_uint32_le s (failureCode self) }
             else do {
               s \<leftarrow> out_uint8 s RDP_NEG_RSP;
               s \<leftarrow> out_uint8 s EXTENDED_CLIENT_DATA_SUPPORTED;
               s \<leftarrow> out_uint16_le s 8;
               out_uint32_le s (selectedProtocol self) }
           else Some s) = Some (emit s (neg_data self))"
  using assms by (simp add: neg_data_def out_emit room_def)

text \<open>The connection confirm as it leaves the server.\<close>

lemma xrdp_iso_send_cc_law:
  assumes "writer_ok (iso_trans self)"
  shows "wp (xrdp_iso_send_cc self) (\<lambda>(r, self').
     outgoing (iso_trans self') = outgoing (iso_trans self) @ (if r = 0 then connection_confirm self else [])
     \<and> (r = 0 \<or> r = 1) \<and> (r = 0 \<longrightarrow> writer_ok (iso_trans self')) \<and> (\<exists>tr. self' = self\<lparr>iso_trans := tr\<rparr>))"
proof -
  let ?s0 = "init_stream make_stream 8192"
  let ?n = "int (length (neg_data self))"
  let ?pre = "enc8 3 @ enc8 0 @ enc16_be 0 @ enc8 0 @ enc8 ISO_PDU_CC @ enc16_be 0 @ enc16_be 0x1234 @ enc8 0"
  let ?s1 = "s_mark_end (emit ?s0 (?pre @ neg_data self))"
  let ?s2 = "?s1\<lparr>s_data := (s_data ?s1)(2 := Some (word_of_int ((11 + ?n) div 256)), 3 := Some (word_of_int (11 + ?n)),
      4 := Some (word_of_int (6 + ?n)))\<rparr>"
  have nl: "?n \<le> 8" "0 \<le> ?n" by (simp_all add: neg_data_length)
  have m: "s_data ?s2 = (write_bytes (write_bytes (s_data ?s0) 0 ?pre) 11 (neg_data self))
      (2 := Some (word_of_int ((11 + ?n) div 256)), 3 := Some (word_of_int (11 + ?n)), 4 := Some (word_of_int (6 + ?n)))"
    by (simp add: s_mark_end_def write_bytes_append)
  have "bytes_at (s_data ?s2) 11 (neg_data self)"
    unfolding m by (rule bytes_at_cong [OF bytes_at_write_bytes]) simp
  moreover have "bytes_at (s_data ?s2) 0 (enc8 3 @ enc8 0 @ enc16_be (11 + ?n) @ enc8 (6 + ?n) @ enc8 ISO_PDU_CC @ enc16_be 0 @ enc16_be 0x1234 @ enc8 0)"
    unfolding m by (simp add: enc_bytes write_bytes_below)
  ultimately have "bytes_at (s_data ?s2) 0 (connection_confirm self)"
    unfolding connection_confirm_def Let_def by (simp add: bytes_at_append)
  then have sb: "stream_bytes ?s2 = Some (connection_confirm self)"
    by (rule stream_bytes_at) (use nl in \<open>simp_all add: connection_confirm_def Let_def s_mark_end_def\<close>)
  have "length (connection_confirm self) \<le> 16384" using nl by (simp add: connection_confirm_def Let_def)
  from trans_write_copy_s_law [OF assms sb forward_ok_packet [OF this]] obtain r tr where
    w: "trans_write_copy_s (iso_trans self) ?s2 = Some (r, tr)"
      "outgoing tr = outgoing (iso_trans self) @ (if r = 0 then connection_confirm self else [])"
      "r = 0 \<longrightarrow> writer_ok tr" "r = 0 \<or> r = 1"
    by (auto simp: wp_exists)
  have "xrdp_iso_send_cc self = Some (if r \<noteq> 0 then 1 else 0, self\<lparr>iso_trans := tr\<rparr>)"
    using w(1) nl unfolding xrdp_iso_send_cc_def
    by (simp add: out_emit room_def neg_data_emit [unfolded One_nat_def] wr8_def s_mark_end_def Let_def)
  with w show ?thesis by auto
qed

subsection \<open>Receiving a data PDU\<close>

lemma xrdp_iso_recv_pending:
  assumes "pending s (tpkt_header n)" "s_p s + 7 \<le> s_end s" "4 \<le> n" "n < 65536"
  shows "xrdp_iso_recv s = Some (0, in_uint8s s 7)"
proof -
  have "pending s (enc8 3)" "pending (in_uint8s s 2) (enc16_be n)" "pending (in_uint8s s 4) (enc8 2)"
    "pending (in_uint8s s 5) (enc8 240)"
    using assms(1) by (simp_all add: tpkt_header_def pending_append)
  with assms(2-) show ?thesis
    by (simp add: in_pending xrdp_iso_recv_def xrdp_iso_recv_msg_def s_check_rem_def u8_def u16_def)
qed

text \<open>On any received frame of at least four bytes the header parser stays inside it.\<close>

lemma xrdp_iso_recv_msg_safe:
  assumes "in_ok s" "s_p s + 4 \<le> s_end s"
  shows "wp (xrdp_iso_recv_msg s) (\<lambda>(r, code, len, s'). (r = 0 \<or> r = 1) \<and> in_step s s')"
proof -
  have "0 \<le> s_p s" using assms by (simp add: in_ok_def)
  with assms show ?thesis
    by (simp add: xrdp_iso_recv_msg_def in_reads s_check_rem_def wp_simps in_step_ok)
qed

lemma xrdp_iso_recv_safe:
  assumes "in_ok s" "s_p s + 4 \<le> s_end s"
  shows "wp (xrdp_iso_recv s) (parsed s)"
  using xrdp_iso_recv_msg_safe [OF assms] by (auto simp: xrdp_iso_recv_def wp_bind elim!: wp_mono)

subsection \<open>A well-formed connection request\<close>

text \<open>A routing token: it starts with \<open>C\<close>, has no carriage return inside and ends with
  \<open>CR LF\<close>; or there is none.\<close>

definition routing_token :: "byte list \<Rightarrow> bool" where
  "routing_token tok \<longleftrightarrow> tok = [] \<or>
     (hd tok = 67 \<and> 3 \<le> length tok \<and> drop (length tok - 2) tok = [13, 10] \<and> 13 \<notin> set (take (length tok - 3) (tl tok)))"

definition neg_request :: "int \<Rightarrow> int \<Rightarrow> byte list" where
  "neg_request flags proto = enc8 RDP_NEG_REQ @ enc8 flags @ enc16_le 8 @ enc32_le proto"

definition connection_request :: "byte list \<Rightarrow> int \<Rightarrow> int \<Rightarrow> byte list" where
  "connection_request tok flags proto =
     (let n = int (length tok) + 8 in
      enc8 3 @ enc8 0 @ enc16_be (11 + n) @ enc8 (6 + n) @ enc8 ISO_PDU_CR @ enc16_be 0 @ enc16_be 0 @ enc8 0
      @ tok @ neg_request flags proto)"

lemma routing_token_cases:
  assumes "routing_token tok"
  obtains "tok = []" | body where "tok = 67 # body @ [13, 10]" "13 \<notin> set body"
proof (cases "tok = []")
  case False
  with assms have t: "hd tok = 67" "3 \<le> length tok" "drop (length tok - 2) tok = [13, 10]"
    "13 \<notin> set (take (length tok - 3) (tl tok))" by (auto simp: routing_token_def)
  have "tok = hd tok # take (length tok - 3) (tl tok) @ drop (length tok - 3) (tl tok)"
    using False by simp
  also have "drop (length tok - 3) (tl tok) = drop (length tok - 2) tok"
    using t(2) by (simp add: drop_Suc [symmetric] Suc_diff_le [symmetric])
  finally show ?thesis using that(2) t by metis
qed (use that in blast)

lemma iso_cookie_token:
  assumes "pending s (body @ [13, 10])" "13 \<notin> set body" "0 \<le> ci" "ci \<le> 255"
    and "s_p s + int (length body) + 2 \<le> pend"
  shows "\<exists>text'. iso_cookie pend s tx ci c = Some (in_uint8s s (int (length body) + 2), text', 0)"
  using assms
proof (induction body arbitrary: s tx ci c)
  case Nil
  then show ?case
    using pending_rd8_2 [of s 13 10]
    by (subst iso_cookie.simps) (simp add: store_text_def Let_def)
next
  case (Cons b body)
  let ?ci = "if ci + 1 > 255 then 255 else ci + 1"
  from Cons.prems(1) have p: "pending (in_uint8s s 1) (body @ [13, 10])" and b: "rd8 s (s_p s) = Some (uint b)"
    using pending_append [of s "[b]" "body @ [13, 10]"] pending_rd8 [of s "b # body @ [13, 10]" 0] by simp_all
  from Cons.prems(2) have nb: "uint b \<noteq> 13" by (auto simp: word_uint_eq_iff)
  obtain tx1 where tx: "store_text tx ci c = Some tx1" using Cons.prems by (simp add: store_text_def)
  have "iso_cookie pend s tx ci c = iso_cookie pend (in_uint8s s 1) tx1 ?ci (uint b)"
    using Cons.prems b nb tx by (subst iso_cookie.simps) (simp add: in_uint8_def Let_def)
  with Cons.IH [OF p, of ?ci tx1 "uint b"] Cons.prems show ?case by (simp add: add.assoc)
qed

lemma neg_request_law:
  assumes "pending s (enc8 flags @ enc16_le 8 @ enc32_le proto)" "flags \<in> {0, 1, 8}" "0 \<le> proto" "proto \<le> 11"
  shows "xrdp_iso_process_rdp_neg_req self s = Some (0, self\<lparr>requestedProtocol := proto\<rparr>, in_uint8s s 7)"
proof -
  have "pending s (enc8 flags)" "pending (in_uint8s s 1) (enc16_le 8)" "pending (in_uint8s s 3) (enc32_le proto)"
    using assms(1) by (simp_all add: pending_append)
  with assms(2-) show ?thesis
    by (auto simp: xrdp_iso_process_rdp_neg_req_def in_pending u8_def u16_def u32_def c_int_simps Let_def)
qed

text \<open>The item loop consumes exactly the request and records the requested protocols.\<close>

lemma iso_items_request:
  assumes "pending s (tok @ neg_request flags proto)" "routing_token tok" "flags \<in> {0, 1, 8}" "0 \<le> proto" "proto \<le> 11"
    and pend: "pend = s_p s + int (length tok) + 8"
  shows "iso_items pend self s (\<lambda>_. None) 0
     = Some (None, self\<lparr>rdpNegData := 1, requestedProtocol := proto\<rparr>, in_uint8s s (int (length tok) + 8))"
proof -
  have neg: "iso_items pend self s1 tx ci = Some (None, self\<lparr>rdpNegData := 1, requestedProtocol := proto\<rparr>, in_uint8s s1 8)"
    if "pending s1 (neg_request flags proto)" "s_p s1 + 8 = pend" for s1 tx ci
  proof -
    have p: "pending s1 (enc8 1)" "pending (in_uint8s s1 1) (enc8 flags @ enc16_le 8 @ enc32_le proto)"
      using that(1) pending_append [of s1 "enc8 1"] by (simp_all add: neg_request_def)
    have "iso_items pend self' (in_uint8s s1 8) tx ci = Some (None, self', in_uint8s s1 8)" for self'
      using that(2) by (subst iso_items.simps) simp
    with that(2) in_uint8_pending [OF p(1)] neg_request_law [OF p(2) assms(3-5)] show ?thesis
      by (subst iso_items.simps) (simp add: u8_def)
  qed
  from assms(1) have p: "pending s tok" "pending (in_uint8s s (int (length tok))) (neg_request flags proto)"
    by (simp_all add: pending_append)
  from assms(2) show ?thesis
  proof (cases rule: routing_token_cases)
    case 1
    with neg [of s] p pend show ?thesis by simp
  next
    case (2 body)
    let ?s1 = "in_uint8s s 1"
    have "pending s (enc8 67)" and b: "pending ?s1 (body @ [13, 10])"
      using p(1) pending_append [of s "[67]" "body @ [13, 10]"] by (simp_all add: 2 enc8_def)
    from in_uint8_pending [OF this(1)] have c: "in_uint8 s = Some (67, ?s1)" by (simp add: u8_def)
    from iso_cookie_token [OF b 2(2), of 0 pend "\<lambda>_. None" 67] pend 2
    obtain tx' where "iso_cookie pend ?s1 (\<lambda>_. None) 0 67 = Some (in_uint8s ?s1 (int (length body) + 2), tx', 0)"
      by auto
    with c pend 2 have "iso_items pend self s (\<lambda>_. None) 0 = iso_items pend self (in_uint8s s (int (length tok))) tx' 0"
      by (subst iso_items.simps) (simp add: add.commute add.left_commute)
    with neg [of "in_uint8s s (int (length tok))"] p pend show ?thesis by simp
  qed
qed

lemma pending_stream_bytes: "stream_bytes s = Some (bs @ rest) \<Longrightarrow> s_p s = 0 \<Longrightarrow> pending s bs"
  by (auto dest!: stream_bytesD simp: pending_def bytes_at_append)

lemma recv_msg_request:
  assumes "stream_bytes s = Some (connection_request tok flags proto)" "s_p s = 0" "length tok \<le> 241"
  shows "xrdp_iso_recv_msg s = Some (0, ISO_PDU_CR, 14 + int (length tok), in_uint8s s 11)"
    "pending (in_uint8s s 11) (tok @ neg_request flags proto)"
proof -
  let ?n = "int (length tok) + 8"
  have p: "pending s (enc8 3 @ enc8 0 @ enc16_be (11 + ?n) @ enc8 (6 + ?n) @ enc8 ISO_PDU_CR @ enc16_be 0 @ enc16_be 0 @ enc8 0
      @ tok @ neg_request flags proto)"
    using pending_stream_bytes [of s _ "[]"] assms(1,2) by (simp add: connection_request_def Let_def)
  then show "pending (in_uint8s s 11) (tok @ neg_request flags proto)"
    by (simp add: pending_append)
  from p have "pending s (enc8 3)" "pending (in_uint8s s 2) (enc16_be (11 + ?n))" "pending (in_uint8s s 4) (enc8 (6 + ?n))"
    "pending (in_uint8s s 5) (enc8 ISO_PDU_CR)"
    by (simp_all add: pending_append)
  moreover have "s_end s = 19 + int (length tok)"
    using stream_bytesD [OF assms(1)] by (simp add: connection_request_def Let_def neg_request_def)
  ultimately show "xrdp_iso_recv_msg s = Some (0, ISO_PDU_CR, 14 + int (length tok), in_uint8s s 11)"
    using assms(2,3) by (simp add: xrdp_iso_recv_msg_def in_pending s_check_rem_def u8_def u16_def)
qed

lemma pdu_length_request: "length tok \<le> 241 \<Longrightarrow> pdu_length (connection_request tok flags proto @ rest) = 19 + int (length tok)"
proof -
  assume l: "length tok \<le> 241"
  define v where "v = 11 + (int (length tok) + 8)"
  have "pdu_length (connection_request tok flags proto @ rest) = 256 * (v div 256 mod 256) + v mod 256"
    unfolding connection_request_def Let_def v_def [symmetric]
    by (simp add: pdu_length_def enc8_def enc16_be_def uint_byte_of_int)
  with l show ?thesis by (simp add: v_def)
qed

text \<open>The whole exchange.\<close>

lemma xrdp_iso_incoming_law:
  assumes ok: "writer_ok (iso_trans self)" "no_term (iso_trans self)"
    and rx: "rx_stream (tr_rx (iso_trans self)) = connection_request tok flags proto @ rest"
    and tok: "routing_token tok" "length tok \<le> 241" "flags \<in> {0, 1, 8}" "0 \<le> proto" "proto \<le> 11"
  shows "wp (xrdp_iso_incoming cfg self) (\<lambda>(r, self').
     let (rv, neg) = xrdp_iso_negotiate_security cfg (self\<lparr>rdpNegData := 1, requestedProtocol := proto\<rparr>) in
       requestedProtocol self' = proto \<and> selectedProtocol self' = selectedProtocol neg \<and> failureCode self' = failureCode neg
       \<and> (r = rv \<and> outgoing (iso_trans self') = outgoing (iso_trans self) @ connection_confirm neg
          \<or> r = 1 \<and> outgoing (iso_trans self') = outgoing (iso_trans self)))"
proof -
  let ?req = "connection_request tok flags proto"
  have len: "length ?req = 19 + length tok" by (simp add: connection_request_def Let_def neg_request_def)
  have pl: "pdu_length (?req @ rest) = 19 + int (length tok)" using tok(2) by (rule pdu_length_request)
  have up: "proc_ok (iso_trans self)" "tr_status (iso_trans self) = 1" using ok(1) by (simp_all add: writer_ok_def trans_ok_def)
  from libxrdp_force_read_law [OF up] up(2) ok(2) rx pl len tok(2) obtain tr where
    fr: "libxrdp_force_read (iso_trans self) = Some (True, tr)" "stream_bytes (tr_in_s tr) = Some ?req" "s_p (tr_in_s tr) = 0"
      "recv_frame ((iso_trans self)\<lparr>tr_in_s := tr_in_s tr\<rparr>) tr" "tr_status tr = tr_status (iso_trans self)"
    by (auto simp: wp_exists)
  note wr = recv_frame_writer [OF fr(4,5)]
  note rm = recv_msg_request [OF fr(2,3) tok(2)]
  let ?s2 = "in_uint8s (tr_in_s tr) (19 + int (length tok))"
  let ?tr2 = "tr\<lparr>tr_in_s := ?s2\<rparr>"
  have it: "iso_items (s_p (in_uint8s (tr_in_s tr) 11) + (14 + int (length tok) - 6)) (self\<lparr>iso_trans := tr\<rparr>)
       (in_uint8s (tr_in_s tr) 11) (\<lambda>_. None) 0
     = Some (None, self\<lparr>iso_trans := tr, rdpNegData := 1, requestedProtocol := proto\<rparr>, ?s2)"
    using iso_items_request [OF rm(2) tok(1,3-5)] by (simp add: fr(3))
  obtain rv neg where ng: "xrdp_iso_negotiate_security cfg (self\<lparr>rdpNegData := 1, requestedProtocol := proto\<rparr>) = (rv, neg)"
    by (cases "xrdp_iso_negotiate_security cfg (self\<lparr>rdpNegData := 1, requestedProtocol := proto\<rparr>)")
  have ng': "xrdp_iso_negotiate_security cfg (self\<lparr>rdpNegData := 1, requestedProtocol := proto, iso_trans := ?tr2\<rparr>)
     = (rv, neg\<lparr>iso_trans := ?tr2\<rparr>)" "requestedProtocol neg = proto"
    using ng by (auto simp: xrdp_iso_negotiate_security_def Let_def split: if_splits)
  have "writer_ok (iso_trans (neg\<lparr>iso_trans := ?tr2\<rparr>))" using ok(1) wr by simp
  from xrdp_iso_send_cc_law [OF this] obtain r self' where
    cc: "xrdp_iso_send_cc (neg\<lparr>iso_trans := ?tr2\<rparr>) = Some (r, self')"
      "outgoing (iso_trans self') = outgoing (iso_trans self) @ (if r = 0 then connection_confirm (neg\<lparr>iso_trans := ?tr2\<rparr>) else [])"
      "r = 0 \<or> r = 1" "\<exists>t. self' = neg\<lparr>iso_trans := t\<rparr>"
    using wr by (auto simp: wp_exists)
  have "connection_confirm (neg\<lparr>iso_trans := ?tr2\<rparr>) = connection_confirm neg"
    by (simp add: connection_confirm_def neg_data_def)
  moreover have "xrdp_iso_incoming cfg self = Some (if r \<noteq> 0 then 1 else rv, self')"
    using fr(1) rm(1) it ng'(1) cc(1) by (simp add: xrdp_iso_incoming_def Let_def)
  ultimately show ?thesis using ng ng'(2) cc by auto
qed

subsection \<open>The properties\<close>

lemma pdu_length_tpkt: "4 \<le> n \<Longrightarrow> n < 65536 \<Longrightarrow> pdu_length (tpkt_header n @ rest) = n"
  by (simp add: pdu_length_def tpkt_header_def enc_bytes uint_byte_of_int nth_append)

text \<open>A connected transport whose peer sends \<open>rx\<close>, and what reading one data PDU from it delivers.\<close>

definition receiving :: "trans \<Rightarrow> byte list \<Rightarrow> bool" where
  "receiving b rx \<longleftrightarrow> proc_ok b \<and> tr_status b = TRANS_STATUS_UP \<and> no_term b \<and> rx_stream (tr_rx b) = rx"

definition iso_delivers :: "trans \<Rightarrow> byte list \<Rightarrow> byte list \<Rightarrow> bool" where
  "iso_delivers b payload rest \<longleftrightarrow>
     wp (do { (ok, b') \<leftarrow> libxrdp_force_read b; (q, s) \<leftarrow> xrdp_iso_recv (tr_in_s b'); Some (ok, q, s, b') })
       (\<lambda>(ok, q, s, b'). ok \<and> q = 0 \<and> pending s payload \<and> s_end s = s_p s + int (length payload)
          \<and> rx_stream (tr_rx b') = rest)"

lemma receiving_link [simp]: "receiving (tcp_link [Rx_Bytes rx] tx) rx"
  by (simp add: receiving_def)

lemma iso_frame_delivered:
  assumes recv: "receiving b (tpkt_header (7 + int (length payload)) @ payload @ rest)" and l: "length payload \<le> 16377"
  shows "iso_delivers b payload rest"
proof -
  from recv have b: "proc_ok b" "tr_status b = TRANS_STATUS_UP" "no_term b"
    and rx: "rx_stream (tr_rx b) = tpkt_header (7 + int (length payload)) @ payload @ rest" by (simp_all add: receiving_def)
  let ?n = "7 + int (length payload)"
  have n: "pdu_length (rx_stream (tr_rx b)) = ?n" using l unfolding rx by (intro pdu_length_tpkt) auto
  obtain ok b' where r: "libxrdp_force_read b = Some (ok, b')"
    using libxrdp_force_read_law [OF b(1,2)] by (auto simp: wp_exists)
  note law = conjunct2 [OF libxrdp_force_read_law [OF b(1,2), unfolded r wp_Some split_conv n]]
  from law b(3) l rx have ok: ok by simp
  with law l rx have sb: "stream_bytes (tr_in_s b') = Some (tpkt_header ?n @ payload)" "s_p (tr_in_s b') = 0"
    "rx_stream (tr_rx b') = rest" by (simp_all add: nat_add_distrib)
  have e: "s_end (tr_in_s b') = ?n" using stream_bytesD [OF sb(1)] by simp
  have "pending (tr_in_s b') (tpkt_header ?n @ payload)" using pending_stream_bytes [of _ _ "[]"] sb by simp
  then have p: "pending (tr_in_s b') (tpkt_header ?n)" "pending (in_uint8s (tr_in_s b') 7) payload"
    by (simp_all add: pending_append)
  have "xrdp_iso_recv (tr_in_s b') = Some (0, in_uint8s (tr_in_s b') 7)"
    using xrdp_iso_recv_pending [OF p(1)] e sb(2) l by simp
  with r ok p(2) e sb(2,3) show ?thesis by (simp add: iso_delivers_def)
qed

text \<open>A data PDU as the layers above hand it to \<open>xrdp_iso_send\<close>.\<close>

definition iso_stream :: "byte list \<Rightarrow> stream" where
  "iso_stream payload = s_mark_end (emit (xrdp_iso_init make_stream) payload)"

lemma iso_stream_layout:
  assumes "length payload \<le> 32761"
  shows "iso_hdr (iso_stream payload) = 0" "s_end (iso_stream payload) = 7 + int (length payload)"
    "bytes_at (s_data (iso_stream payload)) 7 payload" "s_end (iso_stream payload) \<le> s_size (iso_stream payload)"
  using assms bytes_at_write_bytes [of _ 7 payload]
  by (simp_all add: iso_stream_def xrdp_iso_init_def s_push_layer_def s_mark_end_def init_stream_def make_stream_def emit_def)

text \<open>C2. What \<open>xrdp_iso_send\<close> puts on the wire, the peer's \<open>libxrdp_force_read\<close> and \<open>xrdp_iso_recv\<close> take off it
  again: however the network cuts the frame, the receiver ends up at the first byte of exactly the payload that was
  sent, and what follows the frame is left for the next read.\<close>

theorem iso_roundtrip:
  assumes "writer_ok (iso_trans self)" "length payload \<le> 16377"
  shows "wp (xrdp_iso_send self (iso_stream payload)) (\<lambda>(r, self', _). (r = 0 \<or> r = 1) \<and>
     (r = 0 \<longrightarrow> (\<exists>frame. outgoing (iso_trans self') = outgoing (iso_trans self) @ frame \<and>
       (\<forall>b rest. receiving b (frame @ rest) \<longrightarrow> iso_delivers b payload rest))))"
proof -
  have "forward_ok (iso_trans self) (7 + length payload)" by (rule forward_ok_packet) (use assms(2) in simp)
  from xrdp_iso_send_law [OF iso_stream_layout assms(1) this]
  have "wp (xrdp_iso_send self (iso_stream payload)) (\<lambda>(r, self', s'). (r = 0 \<or> r = 1) \<and>
      (r = 0 \<longrightarrow> outgoing (iso_trans self') = outgoing (iso_trans self) @ tpkt_header (7 + int (length payload)) @ payload))"
    using assms(2) by (auto elim!: wp_mono)
  moreover have "\<forall>b rest. receiving b ((tpkt_header (7 + int (length payload)) @ payload) @ rest) \<longrightarrow> iso_delivers b payload rest"
    using iso_frame_delivered [OF _ assms(2)] by simp
  ultimately show ?thesis by (auto elim!: wp_mono)
qed

theorem iso_roundtrip_witness:
  "wp (xrdp_iso_send (xrdp_iso_create (tcp_link [] [Tx_Accept 4, Tx_Accept 100])) (iso_stream [10, 20, 30]))
     (\<lambda>(r, self', _). r = 0 \<longrightarrow> (\<exists>frame. outgoing (iso_trans self') = frame \<and> iso_delivers (tcp_link [Rx_Bytes frame] []) [10, 20, 30] []))"
proof -
  let ?c = "xrdp_iso_create (tcp_link [] [Tx_Accept 4, Tx_Accept 100])"
  have "writer_ok (iso_trans ?c)" "outgoing (iso_trans ?c) = []" by (simp_all add: xrdp_iso_create_def)
  then show ?thesis
    using iso_roundtrip [of ?c "[10, 20, 30]"] receiving_link by (fastforce elim: wp_mono)
qed

text \<open>C3. The connection request: from any client that sends a well-formed request (with or without a routing token),
  the server records the requested protocols, decides as \<open>xrdp_iso_negotiate_security\<close> does on them, and answers with
  the connection confirm of that decision; the result is the decision's, or 1 if the answer could not be sent.\<close>

theorem iso_connection_exchange:
  assumes "writer_ok (iso_trans self)" "no_term (iso_trans self)"
    and "rx_stream (tr_rx (iso_trans self)) = connection_request tok flags proto @ rest"
    and "routing_token tok" "length tok \<le> 241" "flags \<in> {0, 1, 8}" "0 \<le> proto" "proto \<le> 11"
  shows "wp (xrdp_iso_incoming cfg self) (\<lambda>(r, self').
     let (rv, neg) = xrdp_iso_negotiate_security cfg (self\<lparr>rdpNegData := 1, requestedProtocol := proto\<rparr>) in
       requestedProtocol self' = proto \<and> selectedProtocol self' = selectedProtocol neg \<and> failureCode self' = failureCode neg
       \<and> (r = rv \<and> outgoing (iso_trans self') = outgoing (iso_trans self) @ connection_confirm neg
          \<or> r = 1 \<and> outgoing (iso_trans self') = outgoing (iso_trans self)))"
  using assms by (rule xrdp_iso_incoming_law)

theorem iso_connection_exchange_witness:
  "wp (xrdp_iso_incoming \<lparr>security_layer = 2, certificate_readable = True, key_file_readable = True\<rparr>
       (xrdp_iso_create (tcp_link [Rx_Bytes (connection_request [67, 111, 13, 10] 0 3)] [Tx_Accept 100])))
     (\<lambda>(r, self'). requestedProtocol self' = 3 \<and> selectedProtocol self' = PROTOCOL_SSL)"
proof -
  have "rx_stream [Rx_Bytes (connection_request [67, 111, 13, 10] 0 3)] = connection_request [67, 111, 13, 10] 0 3 @ []" by simp
  then have "rx_stream (tr_rx (iso_trans (xrdp_iso_create (tcp_link [Rx_Bytes (connection_request [67, 111, 13, 10] 0 3)] [Tx_Accept 100]))))
      = connection_request [67, 111, 13, 10] 0 3 @ []" by (simp only: xrdp_iso_create_def xrdp_iso.simps tcp_link_sel)
  from iso_connection_exchange [OF _ _ this, of "\<lparr>security_layer = 2, certificate_readable = True, key_file_readable = True\<rparr>"]
  show ?thesis
    by (rule wp_mono)
      (auto simp: xrdp_iso_create_def routing_token_def xrdp_iso_negotiate_security_def Let_def split: prod.splits)
qed

text \<open>C7. The negotiation never selects TLS unless the client offered it and the server can read both its certificate
  and its key, never falls back to a weaker protocol when the configuration requires TLS, and refuses exactly in that
  case, with a failure code that the confirm carries.\<close>

theorem negotiation_sound:
  assumes "xrdp_iso_negotiate_security cfg self = (r, self')"
  shows "(r = 1 \<longleftrightarrow> security_layer cfg = PROTOCOL_SSL \<and>
       \<not> (requestedProtocol self AND PROTOCOL_SSL \<noteq> 0 \<and> certificate_readable cfg \<and> key_file_readable cfg))
     \<and> (r \<noteq> 1 \<longrightarrow> r = 0 \<and> failureCode self' = failureCode self
         \<and> (selectedProtocol self' = PROTOCOL_RDP \<or> selectedProtocol self' = PROTOCOL_SSL
            \<and> requestedProtocol self AND PROTOCOL_SSL \<noteq> 0 \<and> certificate_readable cfg \<and> key_file_readable cfg)
         \<and> (security_layer cfg = PROTOCOL_SSL \<longrightarrow> selectedProtocol self' = PROTOCOL_SSL)
         \<and> (security_layer cfg = PROTOCOL_RDP \<longrightarrow> selectedProtocol self' = PROTOCOL_RDP))
     \<and> (r = 1 \<longrightarrow> failureCode self' \<in> {SSL_CERT_NOT_ON_SERVER, SSL_REQUIRED_BY_SERVER})
     \<and> requestedProtocol self' = requestedProtocol self \<and> iso_trans self' = iso_trans self"
  using assms by (auto simp: xrdp_iso_negotiate_security_def Let_def split: if_splits)

theorem negotiation_sound_witness:
  "\<exists>r self'. xrdp_iso_negotiate_security \<lparr>security_layer = 1, certificate_readable = False, key_file_readable = True\<rparr>
       \<lparr>rdpNegData = 1, requestedProtocol = 3, selectedProtocol = 0, failureCode = 0, iso_trans = tcp_link [] []\<rparr> = (r, self')
     \<and> r = 1 \<and> failureCode self' \<in> {SSL_CERT_NOT_ON_SERVER, SSL_REQUIRED_BY_SERVER}"
proof -
  let ?cfg = "\<lparr>security_layer = 1, certificate_readable = False, key_file_readable = True\<rparr>"
  let ?c = "\<lparr>rdpNegData = 1, requestedProtocol = 3, selectedProtocol = 0, failureCode = 0, iso_trans = tcp_link [] []\<rparr>"
  obtain r c where n: "xrdp_iso_negotiate_security ?cfg ?c = (r, c)" by fastforce
  from negotiation_sound [OF n] n show ?thesis by auto
qed


text \<open>The requested-protocols field is read into a signed \<open>int\<close>, so the check for unknown protocols accepts every
  value with the top bit set.\<close>

theorem neg_req_accepts_top_bit:
  assumes "pending s (enc8 flags @ enc16_le 8 @ enc32_le proto)" "flags \<in> {0, 1, 8}" "0 \<le> proto" "proto < 4294967296"
  shows "\<exists>self'. xrdp_iso_process_rdp_neg_req self s
      = Some (if proto \<le> 11 \<or> 2147483648 \<le> proto then 0 else 1, self', in_uint8s s 7) \<and> requestedProtocol self' = s32 proto"
proof -
  have "pending s (enc8 flags)" "pending (in_uint8s s 1) (enc16_le 8)" "pending (in_uint8s s 3) (enc32_le proto)"
    using assms(1) by (simp_all add: pending_append)
  moreover have "s32 proto = (if proto < 2147483648 then proto else proto - 4294967296)"
    using assms(3,4) minus_mod_self2 [of "proto + 2147483648" 4294967296] mod_pos_pos_trivial [of "proto - 2147483648" 4294967296]
    by (auto simp: s32_def)
  ultimately show ?thesis using assms(2-)
    by (auto simp: xrdp_iso_process_rdp_neg_req_def in_pending u8_def u16_def u32_def Let_def)
qed

theorem neg_req_accepts_top_bit_witness:
  "\<exists>self'. xrdp_iso_process_rdp_neg_req (xrdp_iso_create (tcp_link [] []))
       ((stream_of (enc8 0 @ enc16_le 8 @ enc32_le 0x80000010))\<lparr>s_p := 0\<rparr>)
     = Some (0, self', in_uint8s ((stream_of (enc8 0 @ enc16_le 8 @ enc32_le 0x80000010))\<lparr>s_p := 0\<rparr>) 7)"
proof -
  have "pending ((stream_of (enc8 0 @ enc16_le 8 @ enc32_le 0x80000010))\<lparr>s_p := 0\<rparr>) (enc8 0 @ enc16_le 8 @ enc32_le 0x80000010)"
    by (simp add: pending_def stream_of_def init_stream_def make_stream_def s_mark_end_def emit_def bytes_at_write_bytes)
  from neg_req_accepts_top_bit [OF this] show ?thesis by auto
qed

end
