(* ===== verification/Mcs.thy ===== *)
theory Mcs
  imports Iso
begin

text \<open>
  The T.125 multipoint layer, \<open>libxrdp/xrdp_mcs.c\<close>: BER headers, the connect-initial PDU and
  its domain parameters, the erect-domain, attach-user and channel-join exchange, data PDUs in
  both directions and the disconnect. \<open>self->iso_layer\<close> is the field \<open>iso_layer\<close>; the
  streams \<open>client_mcs_data\<close> and \<open>server_mcs_data\<close> are owned by the security layer in the
  source and are kept here with the layer that fills and sends them. The parts of the file that
  work on the security layer (\<open>xrdp_mcs_out_gcc_data\<close>, \<open>xrdp_mcs_incoming\<close>) are in the
  theory \<open>Gcc\<close>.
\<close>

abbreviation (input) MCS_CONNECT_INITIAL :: int where "MCS_CONNECT_INITIAL \<equiv> 0x7f65"
abbreviation (input) MCS_CONNECT_RESPONSE :: int where "MCS_CONNECT_RESPONSE \<equiv> 0x7f66"
abbreviation (input) BER_TAG_BOOLEAN :: int where "BER_TAG_BOOLEAN \<equiv> 1"
abbreviation (input) BER_TAG_INTEGER :: int where "BER_TAG_INTEGER \<equiv> 2"
abbreviation (input) BER_TAG_OCTET_STRING :: int where "BER_TAG_OCTET_STRING \<equiv> 4"
abbreviation (input) BER_TAG_RESULT :: int where "BER_TAG_RESULT \<equiv> 10"
abbreviation (input) MCS_TAG_DOMAIN_PARAMS :: int where "MCS_TAG_DOMAIN_PARAMS \<equiv> 0x30"
abbreviation (input) MCS_GLOBAL_CHANNEL :: int where "MCS_GLOBAL_CHANNEL \<equiv> 1003"
abbreviation (input) MCS_USERCHANNEL_BASE :: int where "MCS_USERCHANNEL_BASE \<equiv> 1001"
abbreviation (input) MCS_EDRQ :: int where "MCS_EDRQ \<equiv> 1"
abbreviation (input) MCS_DPUM :: int where "MCS_DPUM \<equiv> 8"
abbreviation (input) MCS_AURQ :: int where "MCS_AURQ \<equiv> 10"
abbreviation (input) MCS_AUCF :: int where "MCS_AUCF \<equiv> 11"
abbreviation (input) MCS_CJRQ :: int where "MCS_CJRQ \<equiv> 14"
abbreviation (input) MCS_CJCF :: int where "MCS_CJCF \<equiv> 15"
abbreviation (input) MCS_SDRQ :: int where "MCS_SDRQ \<equiv> 25"
abbreviation (input) MCS_SDIN :: int where "MCS_SDIN \<equiv> 26"

record mcs_channel_item =
  ch_name :: "byte list"
  ch_flags :: int
  ch_chanid :: int
  ch_disabled :: int

record xrdp_mcs =
  iso_layer :: xrdp_iso
  userid :: int
  chanid :: int
  client_mcs_data :: stream
  server_mcs_data :: stream
  channel_list :: "mcs_channel_item list"

definition xrdp_mcs_create :: "trans \<Rightarrow> stream \<Rightarrow> stream \<Rightarrow> xrdp_mcs" where
  "xrdp_mcs_create tr client_data server_data = \<lparr>iso_layer = xrdp_iso_create tr, userid = 1, chanid = 1001,
     client_mcs_data = client_data, server_mcs_data = server_data, channel_list = []\<rparr>"

text \<open>The transport below.\<close>

abbreviation mcs_trans :: "xrdp_mcs \<Rightarrow> trans" where
  "mcs_trans self \<equiv> iso_trans (iso_layer self)"

definition set_trans :: "xrdp_mcs \<Rightarrow> trans \<Rightarrow> xrdp_mcs" where
  "set_trans self tr = self\<lparr>iso_layer := (iso_layer self)\<lparr>iso_trans := tr\<rparr>\<rparr>"

definition set_in_s :: "xrdp_mcs \<Rightarrow> stream \<Rightarrow> xrdp_mcs" where
  "set_in_s self s = set_trans self ((mcs_trans self)\<lparr>tr_in_s := s\<rparr>)"

subsection \<open>BER\<close>

text \<open>The bytes of a long-form length, accumulated in a 32-bit \<open>int\<close>.\<close>

fun ber_long_length :: "nat \<Rightarrow> int \<Rightarrow> stream \<Rightarrow> (int \<times> int \<times> stream) option" where
  "ber_long_length 0 len s = Some (0, len, s)"
| "ber_long_length (Suc l) len s =
     (if \<not> s_check_rem s 1 then Some (1, len, s)
      else do {
        (i, s) \<leftarrow> in_uint8 s;
        ber_long_length l (s32 (len * 256 + i)) s })"

text \<open>The result: return value, \<open>*len\<close>, stream.\<close>

definition xrdp_mcs_ber_parse_header :: "stream \<Rightarrow> int \<Rightarrow> (int \<times> int \<times> stream) option" where
  "xrdp_mcs_ber_parse_header s tag_val =
     (if \<not> s_check_rem s (if tag_val > 0xff then 2 else 1) then Some (1, 0, s)
      else do {
        (tag, s) \<leftarrow> (if tag_val > 0xff then in_uint16_be s else in_uint8 s);
        if tag \<noteq> tag_val then Some (1, 0, s)
        else if \<not> s_check_rem s 1 then Some (1, 0, s)
        else do {
          (l, s) \<leftarrow> in_uint8 s;
          (r, len, s) \<leftarrow> (if l AND 0x80 \<noteq> 0 then ber_long_length (nat (l - 0x80)) 0 s else Some (0, l, s));
          if r \<noteq> 0 then Some (1, len, s)
          else Some (if s_check s then 0 else 1, len, s) } })"

definition xrdp_mcs_parse_domain_params :: "stream \<Rightarrow> (int \<times> stream) option" where
  "xrdp_mcs_parse_domain_params s = do {
     (r, len, s) \<leftarrow> xrdp_mcs_ber_parse_header s MCS_TAG_DOMAIN_PARAMS;
     if r \<noteq> 0 then Some (1, s)
     else if len < 0 \<or> \<not> s_check_rem s len then Some (1, s)
     else do {
       let s = in_uint8s s len;
       Some (if s_check s then 0 else 1, s) } }"

definition xrdp_mcs_ber_out_header :: "stream \<Rightarrow> int \<Rightarrow> int \<Rightarrow> stream option" where
  "xrdp_mcs_ber_out_header s tag_val len = do {
     s \<leftarrow> (if tag_val > 0xff then out_uint16_be s tag_val else out_uint8 s tag_val);
     if len \<ge> 0x80 then do {
       s \<leftarrow> out_uint8 s 0x82;
       out_uint16_be s len }
     else out_uint8 s len }"

definition xrdp_mcs_ber_out_int8 :: "stream \<Rightarrow> int \<Rightarrow> stream option" where
  "xrdp_mcs_ber_out_int8 s v = do {
     s \<leftarrow> xrdp_mcs_ber_out_header s BER_TAG_INTEGER 1;
     out_uint8 s v }"

definition xrdp_mcs_ber_out_int24 :: "stream \<Rightarrow> int \<Rightarrow> stream option" where
  "xrdp_mcs_ber_out_int24 s v = do {
     s \<leftarrow> xrdp_mcs_ber_out_header s BER_TAG_INTEGER 3;
     s \<leftarrow> out_uint8 s (v div 65536);
     s \<leftarrow> out_uint8 s (v div 256);
     out_uint8 s v }"

definition xrdp_mcs_out_domain_params :: "stream \<Rightarrow> int \<Rightarrow> int \<Rightarrow> int \<Rightarrow> int \<Rightarrow> stream option" where
  "xrdp_mcs_out_domain_params s max_channels max_users max_tokens max_pdu_size = do {
     s \<leftarrow> xrdp_mcs_ber_out_header s MCS_TAG_DOMAIN_PARAMS 26;
     s \<leftarrow> xrdp_mcs_ber_out_int8 s max_channels;
     s \<leftarrow> xrdp_mcs_ber_out_int8 s max_users;
     s \<leftarrow> xrdp_mcs_ber_out_int8 s max_tokens;
     s \<leftarrow> xrdp_mcs_ber_out_int8 s 1;
     s \<leftarrow> xrdp_mcs_ber_out_int8 s 0;
     s \<leftarrow> xrdp_mcs_ber_out_int8 s 1;
     s \<leftarrow> xrdp_mcs_ber_out_int24 s max_pdu_size;
     xrdp_mcs_ber_out_int8 s 2 }"

subsection \<open>Sending\<close>

text \<open>The common end of the handshake senders: frame the marked stream and send it.\<close>

definition mcs_iso_send :: "xrdp_mcs \<Rightarrow> stream \<Rightarrow> (int \<times> xrdp_mcs \<times> stream) option" where
  "mcs_iso_send self s = do {
     (r, iso, s) \<leftarrow> xrdp_iso_send (iso_layer self) s;
     Some (if r \<noteq> 0 then 1 else 0, self\<lparr>iso_layer := iso\<rparr>, s) }"

definition xrdp_mcs_send_cjcf :: "xrdp_mcs \<Rightarrow> int \<Rightarrow> int \<Rightarrow> (int \<times> xrdp_mcs) option" where
  "xrdp_mcs_send_cjcf self uid cid = do {
     let s = xrdp_iso_init (init_stream make_stream 8192);
     s \<leftarrow> out_uint8 s (MCS_CJCF * 4 + 2);
     s \<leftarrow> out_uint8 s 0;
     s \<leftarrow> out_uint16_be s uid;
     s \<leftarrow> out_uint16_be s cid;
     s \<leftarrow> out_uint16_be s cid;
     (r, self, s) \<leftarrow> mcs_iso_send self (s_mark_end s);
     Some (r, self) }"

definition xrdp_mcs_send_aucf :: "xrdp_mcs \<Rightarrow> (int \<times> xrdp_mcs) option" where
  "xrdp_mcs_send_aucf self = do {
     let s = xrdp_iso_init (init_stream make_stream 8192);
     s \<leftarrow> out_uint8 s (MCS_AUCF * 4 + 2);
     s \<leftarrow> out_uint8s s 1;
     s \<leftarrow> out_uint16_be s (userid self);
     (r, self, s) \<leftarrow> mcs_iso_send self (s_mark_end s);
     Some (r, self) }"

definition xrdp_mcs_send_connect_response :: "xrdp_mcs \<Rightarrow> (int \<times> xrdp_mcs) option" where
  "xrdp_mcs_send_connect_response self = do {
     let s = init_stream make_stream 8192;
     let data_len = s_end (server_mcs_data self);
     let s = xrdp_iso_init s;
     s \<leftarrow> xrdp_mcs_ber_out_header s MCS_CONNECT_RESPONSE (if data_len > 0x80 then data_len + 38 else data_len + 36);
     s \<leftarrow> xrdp_mcs_ber_out_header s BER_TAG_RESULT 1;
     s \<leftarrow> out_uint8 s 0;
     s \<leftarrow> xrdp_mcs_ber_out_header s BER_TAG_INTEGER 1;
     s \<leftarrow> out_uint8 s 0;
     s \<leftarrow> xrdp_mcs_out_domain_params s 22 3 0 0xfff8;
     s \<leftarrow> xrdp_mcs_ber_out_header s BER_TAG_OCTET_STRING data_len;
     data \<leftarrow> stream_bytes (server_mcs_data self);
     s \<leftarrow> out_uint8p s data;
     (r, self, s) \<leftarrow> mcs_iso_send self (s_mark_end s);
     Some (r, self) }"

definition xrdp_mcs_init :: "stream \<Rightarrow> stream" where
  "xrdp_mcs_init s = s_push_layer (xrdp_iso_init s) mcs_hdr_update 8"

text \<open>The loop that moves the payload up by one byte: it copies the cell at \<open>end\<close> too.
  Copying a byte that was never written is not a use of its value; copying from outside the
  block is a fault.\<close>

definition copy_cell :: "stream \<Rightarrow> int \<Rightarrow> int \<Rightarrow> stream option" where
  "copy_cell s dst src = (if 0 \<le> dst \<and> dst < s_size s \<and> 0 \<le> src \<and> src < s_size s
     then Some (s\<lparr>s_data := (s_data s)(dst := s_data s src)\<rparr>) else None)"

fun move_up :: "nat \<Rightarrow> int \<Rightarrow> stream \<Rightarrow> stream option" where
  "move_up 0 lp s = Some s"
| "move_up (Suc n) lp s = do { s \<leftarrow> copy_cell s lp (lp + 1); move_up n (lp + 1) s }"

text \<open>\<open>callback\<close> is the session's callback (message \<open>0x5556\<close>, in \<open>xrdp_wm.c\<close>), called after
  every packet on the global channel; the identity when there is no session.\<close>

definition xrdp_mcs_call_callback :: "(xrdp_mcs \<Rightarrow> int \<times> xrdp_mcs) option \<Rightarrow> xrdp_mcs \<Rightarrow> int \<times> xrdp_mcs" where
  "xrdp_mcs_call_callback callback self = (case callback of None \<Rightarrow> (0, self) | Some f \<Rightarrow> f self)"

definition xrdp_mcs_send ::
    "(xrdp_mcs \<Rightarrow> int \<times> xrdp_mcs) option \<Rightarrow> xrdp_mcs \<Rightarrow> stream \<Rightarrow> int \<Rightarrow> (int \<times> xrdp_mcs \<times> stream) option" where
  "xrdp_mcs_send callback self s chan = do {
     let s = s_pop_layer s mcs_hdr;
     let len = s_end s - s_p s - 8;
     s \<leftarrow> out_uint8 s (MCS_SDIN * 4);
     s \<leftarrow> out_uint16_be s (userid self);
     s \<leftarrow> out_uint16_be s chan;
     s \<leftarrow> out_uint8 s 0x70;
     s \<leftarrow> (if len \<ge> 128 then out_uint16_be s (len OR 0x8000)
           else do {
             s \<leftarrow> out_uint8 s len;
             s \<leftarrow> move_up (nat (s_end s - s_p s)) (s_p s) s;
             Some (s\<lparr>s_end := s_end s - 1\<rparr>) });
     (r, self, s) \<leftarrow> mcs_iso_send self s;
     if r \<noteq> 0 then Some (1, self, s)
     else Some (0, if chan = MCS_GLOBAL_CHANNEL then snd (xrdp_mcs_call_callback callback self) else self, s) }"

text \<open>\<open>disconnect\<close> is the result of \<open>ssl_tls_disconnect\<close>.\<close>

definition close_rdp_socket :: "int \<Rightarrow> xrdp_mcs \<Rightarrow> xrdp_mcs" where
  "close_rdp_socket disconnect self =
     (let (r, tr) = trans_shutdown_tls_mode disconnect (mcs_trans self)
      in set_trans self (tr\<lparr>tr_closed := tr_closed tr @ [tr_sck tr], tr_sck := 0\<rparr>))"

definition xrdp_mcs_disconnect :: "int \<Rightarrow> xrdp_mcs \<Rightarrow> (int \<times> xrdp_mcs) option" where
  "xrdp_mcs_disconnect disconnect self = do {
     let s = xrdp_iso_init (init_stream make_stream 8192);
     s \<leftarrow> out_uint8 s (MCS_DPUM * 4 + 1);
     s \<leftarrow> out_uint8 s 0x80;
     (r, self, s) \<leftarrow> mcs_iso_send self (s_mark_end s);
     Some (if r \<noteq> 0 then 1 else 0, close_rdp_socket disconnect self) }"

subsection \<open>Receiving\<close>

text \<open>\<open>libxrdp_force_read\<close> followed by \<open>xrdp_iso_recv\<close>, the start of every handshake
  receiver. The stream is \<open>trans->in_s\<close>.\<close>

definition mcs_read_pdu :: "xrdp_mcs \<Rightarrow> (int \<times> xrdp_mcs \<times> stream) option" where
  "mcs_read_pdu self = do {
     (ok, tr) \<leftarrow> libxrdp_force_read (mcs_trans self);
     let self = set_trans self tr;
     if \<not> ok then Some (1, self, tr_in_s tr)
     else do {
       (r, s) \<leftarrow> xrdp_iso_recv (tr_in_s tr);
       Some (if r \<noteq> 0 then 1 else 0, self, s) } }"

text \<open>One octet string or boolean that is skipped.\<close>

definition ber_skip :: "stream \<Rightarrow> int \<Rightarrow> (int \<times> stream) option" where
  "ber_skip s tag_val = do {
     (r, len, s) \<leftarrow> xrdp_mcs_ber_parse_header s tag_val;
     if r \<noteq> 0 then Some (1, s)
     else if len < 0 \<or> \<not> s_check_rem s len then Some (1, s)
     else Some (0, in_uint8s s len) }"

text \<open>The fields of connect-initial before the user data.\<close>

definition connect_initial_prefix :: "stream \<Rightarrow> (int \<times> stream) option" where
  "connect_initial_prefix s = do {
     (r, len, s) \<leftarrow> xrdp_mcs_ber_parse_header s MCS_CONNECT_INITIAL;
     if r \<noteq> 0 then Some (1, s) else do {
     (r, s) \<leftarrow> ber_skip s BER_TAG_OCTET_STRING;
     if r \<noteq> 0 then Some (1, s) else do {
     (r, s) \<leftarrow> ber_skip s BER_TAG_OCTET_STRING;
     if r \<noteq> 0 then Some (1, s) else do {
     (r, s) \<leftarrow> ber_skip s BER_TAG_BOOLEAN;
     if r \<noteq> 0 then Some (1, s) else do {
     (r, s) \<leftarrow> xrdp_mcs_parse_domain_params s;
     if r \<noteq> 0 then Some (1, s) else do {
     (r, s) \<leftarrow> xrdp_mcs_parse_domain_params s;
     if r \<noteq> 0 then Some (1, s) else do {
     (r, s) \<leftarrow> xrdp_mcs_parse_domain_params s;
     if r \<noteq> 0 then Some (1, s) else Some (0, s) }}}}}}}"

definition xrdp_mcs_recv_connect_initial :: "xrdp_mcs \<Rightarrow> (int \<times> xrdp_mcs) option" where
  "xrdp_mcs_recv_connect_initial self = do {
     (r, self, s) \<leftarrow> mcs_read_pdu self;
     if r \<noteq> 0 then Some (1, set_in_s self s) else do {
     (r, s) \<leftarrow> connect_initial_prefix s;
     if r \<noteq> 0 then Some (1, set_in_s self s) else do {
     (r, len, s) \<leftarrow> xrdp_mcs_ber_parse_header s BER_TAG_OCTET_STRING;
     if r \<noteq> 0 then Some (1, set_in_s self s)
     else if len \<le> 0 \<or> len > 16 * 1024 then Some (1, set_in_s self s)
     else if \<not> s_check_rem s len then Some (1, set_in_s self s)
     else do {
       (data, s) \<leftarrow> in_uint8a s len;
       c \<leftarrow> out_uint8p (init_stream (client_mcs_data self) len) data;
       let self = self\<lparr>client_mcs_data := s_mark_end c\<rparr>;
       Some (if s_check_end s then 0 else 1, set_in_s self s) } }}}"

definition xrdp_mcs_recv_edrq :: "xrdp_mcs \<Rightarrow> (int \<times> xrdp_mcs) option" where
  "xrdp_mcs_recv_edrq self = do {
     (r, self, s) \<leftarrow> mcs_read_pdu self;
     if r \<noteq> 0 then Some (1, set_in_s self s)
     else if \<not> s_check_rem s 1 then Some (1, set_in_s self s)
     else do {
       (opcode, s) \<leftarrow> in_uint8 s;
       if opcode div 4 \<noteq> MCS_EDRQ then Some (1, set_in_s self s)
       else if \<not> s_check_rem s 4 then Some (1, set_in_s self s)
       else do {
         let s = in_uint8s (in_uint8s s 2) 2;
         if opcode AND 2 \<noteq> 0 then
           if \<not> s_check_rem s 2 then Some (1, set_in_s self s)
           else do {
             (uid, s) \<leftarrow> in_uint16_be s;
             Some (if s_check_end s then 0 else 1, set_in_s (self\<lparr>userid := uid\<rparr>) s) }
         else Some (if s_check_end s then 0 else 1, set_in_s self s) } } }"

definition xrdp_mcs_recv_aurq :: "xrdp_mcs \<Rightarrow> (int \<times> xrdp_mcs) option" where
  "xrdp_mcs_recv_aurq self = do {
     (r, self, s) \<leftarrow> mcs_read_pdu self;
     if r \<noteq> 0 then Some (1, set_in_s self s)
     else if \<not> s_check_rem s 1 then Some (1, set_in_s self s)
     else do {
       (opcode, s) \<leftarrow> in_uint8 s;
       if opcode div 4 \<noteq> MCS_AURQ then Some (1, set_in_s self s)
       else if opcode AND 2 \<noteq> 0 then
         if \<not> s_check_rem s 2 then Some (1, set_in_s self s)
         else do {
           (uid, s) \<leftarrow> in_uint16_be s;
           Some (if s_check_end s then 0 else 1, set_in_s (self\<lparr>userid := uid\<rparr>) s) }
       else Some (if s_check_end s then 0 else 1, set_in_s self s) } }"

definition xrdp_mcs_recv_cjrq :: "xrdp_mcs \<Rightarrow> (int \<times> xrdp_mcs) option" where
  "xrdp_mcs_recv_cjrq self = do {
     (r, self, s) \<leftarrow> mcs_read_pdu self;
     if r \<noteq> 0 then Some (1, set_in_s self s)
     else if \<not> s_check_rem s 1 then Some (1, set_in_s self s)
     else do {
       (opcode, s) \<leftarrow> in_uint8 s;
       if opcode div 4 \<noteq> MCS_CJRQ then Some (1, set_in_s self s)
       else if \<not> s_check_rem s 4 then Some (1, set_in_s self s)
       else do {
         let s = in_uint8s s 4;
         if opcode AND 2 \<noteq> 0 then
           if \<not> s_check_rem s 2 then Some (1, set_in_s self s)
           else do {
             let s = in_uint8s s 2;
             Some (if s_check_end s then 0 else 1, set_in_s self s) }
         else Some (if s_check_end s then 0 else 1, set_in_s self s) } } }"

text \<open>The end of \<open>xrdp_mcs_recv\<close> after its loop: return value, channel, stream.\<close>

definition mcs_recv_data :: "int \<Rightarrow> stream \<Rightarrow> (int \<times> int \<times> stream) option" where
  "mcs_recv_data appid s =
     (if appid \<noteq> MCS_SDRQ then Some (1, 0, s)
      else if \<not> s_check_rem s 6 then Some (1, 0, s)
      else do {
        let s = in_uint8s s 2;
        (chan, s) \<leftarrow> in_uint16_be s;
        let s = in_uint8s s 1;
        (len, s) \<leftarrow> in_uint8 s;
        if len AND 0x80 \<noteq> 0 then
          if \<not> s_check_rem s 1 then Some (1, chan, s) else Some (0, chan, in_uint8s s 1)
        else Some (0, chan, s) })"

text \<open>\<open>xrdp_mcs_recv\<close>: the loop confirms channel joins until another PDU arrives; one unit
  of fuel per join.\<close>

fun xrdp_mcs_recv :: "nat \<Rightarrow> xrdp_mcs \<Rightarrow> stream \<Rightarrow> (int \<times> int \<times> xrdp_mcs \<times> stream) option" where
  "xrdp_mcs_recv 0 self s = None"
| "xrdp_mcs_recv (Suc fuel) self s = do {
     (r, s) \<leftarrow> xrdp_iso_recv s;
     if r \<noteq> 0 then Some (1, 0, self, s)
     else if \<not> s_check_rem s 1 then Some (1, 0, self, s)
     else do {
       (opcode, s) \<leftarrow> in_uint8 s;
       let appid = opcode div 4;
       if appid = MCS_DPUM then Some (1, 0, self, s)
       else if appid = MCS_CJRQ then
         if \<not> s_check_rem s 4 then Some (1, 0, self, s)
         else do {
           (uid, s) \<leftarrow> in_uint16_be s;
           (cid, s) \<leftarrow> in_uint16_be s;
           (r, self) \<leftarrow> xrdp_mcs_send_cjcf self uid cid;
           (ok, tr) \<leftarrow> libxrdp_force_read (mcs_trans self);
           let self = set_trans self tr;
           if \<not> ok then Some (1, 0, self, tr_in_s tr)
           else xrdp_mcs_recv fuel self (tr_in_s tr) }
       else do {
         (r, chan, s) \<leftarrow> mcs_recv_data appid s;
         Some (r, chan, self, s) } } }"

subsection \<open>BER headers\<close>

definition ber_header :: "int \<Rightarrow> int \<Rightarrow> byte list" where
  "ber_header tag len = (if tag > 0xff then enc16_be tag else enc8 tag)
     @ (if len \<ge> 0x80 then enc8 0x82 @ enc16_be len else enc8 len)"

lemma ber_header_length: "length (ber_header tag len) = (if tag > 0xff then 2 else 1) + (if len \<ge> 0x80 then 3 else 1)"
  by (simp add: ber_header_def)

lemma ber_out_header_emit:
  "room s (int (length (ber_header tag len))) \<Longrightarrow> xrdp_mcs_ber_out_header s tag len = Some (emit s (ber_header tag len))"
  by (cases "tag > 0xff"; cases "len \<ge> 0x80")
    (simp_all add: xrdp_mcs_ber_out_header_def ber_header_def out_emit room_def)

lemma ber_parse_header_pending:
  assumes p: "pending s (ber_header tag len)" and rem: "s_p s + int (length (ber_header tag len)) \<le> s_end s"
    and range: "0 \<le> tag" "tag < 65536" "0 \<le> len" "len < 65536"
  shows "xrdp_mcs_ber_parse_header s tag = Some (0, len, in_uint8s s (int (length (ber_header tag len))))"
proof -
  define tl where "tl = (if tag > 0xff then 2 else 1 :: int)"
  define s1 where "s1 = in_uint8s s tl"
  have tag: "(if tag > 0xff then in_uint16_be s else in_uint8 s) = Some (tag, s1)"
    using p range by (auto simp: ber_header_def pending_append in_pending u8_def u16_def s1_def tl_def split: if_splits)
  have len: "pending s1 (if len \<ge> 0x80 then enc8 0x82 @ enc16_be len else enc8 len)"
    using p by (auto simp: ber_header_def pending_append s1_def tl_def)
  have rem1: "s_p s + tl + (if len \<ge> 0x80 then 3 else 1) \<le> s_end s" and tl: "s_check_rem s (if tag > 0xff then 2 else 1)"
    and sp: "s_p s1 = s_p s + tl" "s_end s1 = s_end s"
    using rem by (auto simp: ber_header_length tl_def s1_def s_check_rem_def)
  have res: "in_uint8s s (int (length (ber_header tag len))) = in_uint8s s1 (if len \<ge> 0x80 then 3 else 1)"
    by (simp add: s1_def tl_def ber_header_length)
  show ?thesis
  proof (cases "len \<ge> 0x80")
    case False
    then have "in_uint8 s1 = Some (len, in_uint8s s1 1)" using len range by (simp add: in_uint8_pending u8_def)
    moreover have "\<not> (len AND 128 \<noteq> 0)" using False range and_128 [of len] by simp
    ultimately show ?thesis unfolding res using False tag rem1 tl sp
      by (simp add: xrdp_mcs_ber_parse_header_def s_check_rem_def s_check_def)
  next
    case True
    with len have l: "pending s1 (enc8 0x82)" "pending (in_uint8s s1 1) (enc8 (len div 256))"
      "pending (in_uint8s s1 2) (enc8 len)"
      by (simp_all add: enc16_be_def enc8_def pending_Cons)
    have 1: "in_uint8 s1 = Some (130, in_uint8s s1 1)"
      "in_uint8 (in_uint8s s1 1) = Some (len div 256, in_uint8s s1 2)"
      "in_uint8 (in_uint8s s1 2) = Some (len mod 256, in_uint8s s1 3)"
      using in_uint8_pending [OF l(1)] in_uint8_pending [OF l(2)] in_uint8_pending [OF l(3)] range by (simp_all add: u8_def)
    have "ber_long_length 2 0 (in_uint8s s1 1) = Some (0, len, in_uint8s s1 3)"
      using 1(2,3) rem1 True range sp by (simp add: numeral_2_eq_2 s_check_rem_def s32_id)
    moreover have "(130 :: int) AND 128 \<noteq> 0" using and_128 [of 130] by simp
    ultimately show ?thesis unfolding res using True tag rem1 1(1) tl sp
      by (simp add: xrdp_mcs_ber_parse_header_def s_check_rem_def s_check_def)
  qed
qed

text \<open>On any input the header parser stays inside the received bytes.\<close>

lemma ber_long_length_safe: "in_pos s \<Longrightarrow> wp (ber_long_length l len s) (parsed3 s)"
proof (induction l arbitrary: len s)
  case 0
  then show ?case by (simp add: in_step_refl)
next
  case (Suc l)
  show ?case
  proof (cases "s_check_rem s 1")
    case True
    with Suc.prems have r: "in_uint8 s = Some (b8 s (s_p s), in_uint8s s 1)" "in_step s (in_uint8s s 1)"
      by (simp_all add: in_reads s_check_rem_def in_posD in_step_skip)
    have "ber_long_length (Suc l) len s = ber_long_length l (s32 (len * 256 + b8 s (s_p s))) (in_uint8s s 1)"
      using r True by simp
    with parsed3_after [OF Suc.IH [OF in_step_pos [OF r(2)]] r(2)] show ?thesis by simp
  qed (use Suc.prems in \<open>simp add: in_step_refl\<close>)
qed

lemma ber_parse_header_safe:
  assumes "in_pos s"
  shows "wp (xrdp_mcs_ber_parse_header s tag) (parsed3 s)"
proof -
  let ?w = "if tag > 0xff then 2 else 1 :: int"
  show ?thesis
  proof (cases "s_check_rem s ?w")
    case False
    with assms show ?thesis by (simp add: xrdp_mcs_ber_parse_header_def in_step_refl)
  next
    case True
    then obtain v where v: "(if tag > 0xff then in_uint16_be s else in_uint8 s) = Some (v, in_uint8s s ?w)"
      using assms by (cases "tag > 0xff") (auto simp: in_reads s_check_rem_def in_posD)
    have st: "in_step s (in_uint8s s ?w)" using assms True by (intro in_step_skip) (auto simp: s_check_rem_def)
    show ?thesis
    proof (cases "v = tag \<and> s_check_rem (in_uint8s s ?w) 1")
      case False
      with v True st show ?thesis by (auto simp: xrdp_mcs_ber_parse_header_def)
    next
      case c: True
      let ?s1 = "in_uint8s s ?w"
      let ?l = "b8 s (s_p s + ?w)"
      have l: "in_uint8 ?s1 = Some (?l, in_uint8s ?s1 1)"
        using c in_step_pos [OF st] by (simp add: in_reads s_check_rem_def in_posD)
      have st2: "in_step s (in_uint8s ?s1 1)"
        using in_step_trans [OF st in_step_skip [OF in_step_pos [OF st]]] c by (simp add: s_check_rem_def)
      have "wp (if ?l AND 0x80 \<noteq> 0 then ber_long_length (nat (?l - 0x80)) 0 (in_uint8s ?s1 1) else Some (0, ?l, in_uint8s ?s1 1))
         (parsed3 s)"
        using parsed3_after [OF ber_long_length_safe [OF in_step_pos [OF st2]] st2] st2 by simp
      with True c v l show ?thesis
        by (auto simp: xrdp_mcs_ber_parse_header_def wp_bind elim!: wp_mono)
    qed
  qed
qed

subsection \<open>The receivers are safe\<close>

lemma set_trans_sel [simp]:
  "mcs_trans (set_trans self tr) = tr" "channel_list (set_trans self tr) = channel_list self"
  "userid (set_trans self tr) = userid self" "client_mcs_data (set_trans self tr) = client_mcs_data self"
  "server_mcs_data (set_trans self tr) = server_mcs_data self"
  "iso_layer (set_trans self tr) = (iso_layer self)\<lparr>iso_trans := tr\<rparr>"
  by (simp_all add: set_trans_def)

lemma set_in_s_sel [simp]:
  "mcs_trans (set_in_s self s) = (mcs_trans self)\<lparr>tr_in_s := s\<rparr>" "channel_list (set_in_s self s) = channel_list self"
  "userid (set_in_s self s) = userid self" "client_mcs_data (set_in_s self s) = client_mcs_data self"
  "server_mcs_data (set_in_s self s) = server_mcs_data self"
  "iso_layer (set_in_s self s) = (iso_layer self)\<lparr>iso_trans := (mcs_trans self)\<lparr>tr_in_s := s\<rparr>\<rparr>"
  by (simp_all add: set_in_s_def)

text \<open>What a receiver leaves alone.\<close>

definition mcs_frame :: "xrdp_mcs \<Rightarrow> xrdp_mcs \<Rightarrow> bool" where
  "mcs_frame self self' \<longleftrightarrow> rx_frame (mcs_trans self) (mcs_trans self')
     \<and> rdpNegData (iso_layer self') = rdpNegData (iso_layer self)
     \<and> requestedProtocol (iso_layer self') = requestedProtocol (iso_layer self)
     \<and> selectedProtocol (iso_layer self') = selectedProtocol (iso_layer self)
     \<and> channel_list self' = channel_list self \<and> server_mcs_data self' = server_mcs_data self"

lemma mcs_frame_upd [simp]:
  "mcs_frame self self"
  "mcs_frame self (set_in_s self' s) = mcs_frame self self'"
  "mcs_frame self (self'\<lparr>userid := u\<rparr>) = mcs_frame self self'"
  "mcs_frame self (self'\<lparr>client_mcs_data := d\<rparr>) = mcs_frame self self'"
  by (simp_all add: mcs_frame_def)

lemma mcs_frame_trans: "mcs_frame a b \<Longrightarrow> mcs_frame b c \<Longrightarrow> mcs_frame a c"
  by (auto simp: mcs_frame_def intro: rx_frame_trans)

text \<open>The outcome of a receiver, and of its part after the frame was read.\<close>

definition mcs_received :: "xrdp_mcs \<Rightarrow> int \<times> xrdp_mcs \<Rightarrow> bool" where
  "mcs_received self = (\<lambda>(r, self'). (r = 0 \<or> r = 1) \<and> mcs_frame self self'
     \<and> (r = 0 \<longrightarrow> tr_status (mcs_trans self') = tr_status (mcs_trans self)
          \<and> length (rx_stream (tr_rx (mcs_trans self'))) < length (rx_stream (tr_rx (mcs_trans self)))))"

definition mcs_kept :: "xrdp_mcs \<Rightarrow> int \<times> xrdp_mcs \<Rightarrow> bool" where
  "mcs_kept self = (\<lambda>(r, self'). (r = 0 \<or> r = 1) \<and> mcs_frame self self'
     \<and> tr_status (mcs_trans self') = tr_status (mcs_trans self) \<and> tr_rx (mcs_trans self') = tr_rx (mcs_trans self))"

lemma mcs_kept_simps [simp]:
  "mcs_kept self (r, set_in_s self' s) = mcs_kept self (r, self')"
  "mcs_kept self (r, self'\<lparr>userid := u\<rparr>) = mcs_kept self (r, self')"
  "mcs_kept self (r, self'\<lparr>client_mcs_data := d\<rparr>) = mcs_kept self (r, self')"
  "mcs_kept self (r, self) \<longleftrightarrow> r = 0 \<or> r = 1"
  by (auto simp: mcs_kept_def)

text \<open>After \<open>mcs_read_pdu\<close> succeeds, the stream holds a complete frame, positioned after its header.\<close>

lemma mcs_read_pdu_safe:
  assumes "proc_ok (mcs_trans self)"
  shows "wp (mcs_read_pdu self) (\<lambda>(r, self', s). mcs_received self (r, self') \<and> (r = 0 \<longrightarrow> in_pos s)
     \<and> client_mcs_data self' = client_mcs_data self)"
proof -
  from libxrdp_force_read_safe [OF assms] obtain ok tr where
    f: "libxrdp_force_read (mcs_trans self) = Some (ok, tr)" "rx_frame (mcs_trans self) tr"
    "ok \<longrightarrow> in_ok (tr_in_s tr) \<and> s_p (tr_in_s tr) = 0 \<and> 4 \<le> s_end (tr_in_s tr) \<and> tr_status tr = tr_status (mcs_trans self)
        \<and> length (rx_stream (tr_rx tr)) < length (rx_stream (tr_rx (mcs_trans self)))"
    by (auto simp: wp_exists rx_frame_def)
  then have fr: "mcs_frame self (set_trans self tr)" by (simp add: mcs_frame_def)
  show ?thesis
  proof (cases ok)
    case False
    with f fr show ?thesis by (simp add: mcs_read_pdu_def mcs_received_def)
  next
    case True
    with f have "wp (xrdp_iso_recv (tr_in_s tr)) (parsed (tr_in_s tr))" by (intro xrdp_iso_recv_safe) simp_all
    then obtain r s where "xrdp_iso_recv (tr_in_s tr) = Some (r, s)" "in_step (tr_in_s tr) s" by (rule wp_parsedE)
    with True f fr show ?thesis by (auto simp: mcs_read_pdu_def mcs_received_def in_step_pos)
  qed
qed

lemma receiver_safe:
  assumes "proc_ok (mcs_trans self)"
    and "\<And>self1 s. in_pos s \<Longrightarrow> wp (k self1 s) (mcs_kept self1)"
  shows "wp (do { (r, self1, s) \<leftarrow> mcs_read_pdu self; if r \<noteq> 0 then Some (1, set_in_s self1 s) else k self1 s })
    (mcs_received self)"
proof -
  from mcs_read_pdu_safe [OF assms(1)] obtain r self1 s where
    m: "mcs_read_pdu self = Some (r, self1, s)" "mcs_received self (r, self1)" "r = 0 \<longrightarrow> in_pos s"
    by (auto simp: wp_exists)
  show ?thesis
  proof (cases "r = 0")
    case False
    with m show ?thesis by (simp add: mcs_received_def)
  next
    case True
    with m assms(2) [of s self1] have "wp (k self1 s) (mcs_kept self1)" by simp
    then have "wp (k self1 s) (mcs_received self)"
      by (rule wp_mono) (use m(2) True in \<open>auto simp: mcs_received_def mcs_kept_def intro: mcs_frame_trans\<close>)
    with m(1) True show ?thesis by simp
  qed
qed

lemmas receiver_simps = s_check_rem_def wp_simps in_reads in_posD Let_def

lemma xrdp_mcs_recv_edrq_safe:
  "proc_ok (mcs_trans self) \<Longrightarrow> wp (xrdp_mcs_recv_edrq self) (mcs_received self)"
  unfolding xrdp_mcs_recv_edrq_def
  by (rule receiver_safe) (simp_all add: receiver_simps)

lemma xrdp_mcs_recv_aurq_safe:
  "proc_ok (mcs_trans self) \<Longrightarrow> wp (xrdp_mcs_recv_aurq self) (mcs_received self)"
  unfolding xrdp_mcs_recv_aurq_def
  by (rule receiver_safe) (simp_all add: receiver_simps)

lemma xrdp_mcs_recv_cjrq_safe:
  "proc_ok (mcs_trans self) \<Longrightarrow> wp (xrdp_mcs_recv_cjrq self) (mcs_received self)"
  unfolding xrdp_mcs_recv_cjrq_def
  by (rule receiver_safe) (simp_all add: receiver_simps)

lemma parsed_seq:
  assumes "wp m (parsed s)" "\<And>s1. in_pos s1 \<Longrightarrow> wp (k s1) (parsed s1)"
  shows "wp (do { (r, s1) \<leftarrow> m; if r \<noteq> 0 then Some (1, s1) else k s1 }) (parsed s)"
  using assms(1)
proof (rule wp_parsedE)
  fix r s1 assume "m = Some (r, s1)" "in_step s s1"
  with parsed_after [OF assms(2) [OF in_step_pos]] show ?thesis by auto
qed

lemma parsed_seq3:
  assumes "wp m (parsed3 s)" "\<And>x s1. in_pos s1 \<Longrightarrow> wp (k x s1) (parsed s1)"
  shows "wp (do { (r, x, s1) \<leftarrow> m; if r \<noteq> 0 then Some (1, s1) else k x s1 }) (parsed s)"
  using assms(1)
proof (rule wp_parsed3E)
  fix r x s1 assume "m = Some (r, x, s1)" "in_step s s1"
  with parsed_after [OF assms(2) [OF in_step_pos]] show ?thesis by auto
qed

lemma ber_skip_safe: "in_pos s \<Longrightarrow> wp (ber_skip s tag) (parsed s)"
  unfolding ber_skip_def
  by (rule parsed_seq3 [OF ber_parse_header_safe])
    (auto simp: wp_simps s_check_rem_def intro: in_step_refl in_step_skip)

lemma parse_domain_params_safe: "in_pos s \<Longrightarrow> wp (xrdp_mcs_parse_domain_params s) (parsed s)"
  unfolding xrdp_mcs_parse_domain_params_def
  by (rule parsed_seq3 [OF ber_parse_header_safe])
    (auto simp: wp_simps s_check_rem_def s_check_def Let_def intro: in_step_refl in_step_skip)

lemma connect_initial_prefix_safe: "in_pos s \<Longrightarrow> wp (connect_initial_prefix s) (parsed s)"
  unfolding connect_initial_prefix_def
  by (intro parsed_seq parsed_seq3 ber_parse_header_safe ber_skip_safe parse_domain_params_safe)
    (simp_all add: in_step_refl)

text \<open>The user data of an accepted connect-initial: at least one and at most 16384 bytes, all received.\<close>

definition client_data_ok :: "stream \<Rightarrow> bool" where
  "client_data_ok d \<longleftrightarrow> in_ok d \<and> s_end d = s_p d \<and> 0 < s_end d \<and> s_end d \<le> 16384"

lemma connect_initial_copy:
  assumes "in_pos s" "0 < len" "len \<le> 16384" "s_check_rem s len" "0 \<le> s_size d"
  shows "wp (do { (data, s1) \<leftarrow> in_uint8a s len; c \<leftarrow> out_uint8p (init_stream d len) data; Some (s_mark_end c, s1) })
    (\<lambda>(c, s1). s1 = in_uint8s s len \<and> client_data_ok c \<and> s_end c = len)"
proof -
  from in_uint8a_ok [of s len] assms obtain bs where bs: "in_uint8a s len = Some (bs, in_uint8s s len)" "int (length bs) = len"
    by (auto simp: in_pos_def s_check_rem_def)
  have "room (init_stream d len) (int (length bs))" using bs(2) assms by (simp add: room_def)
  then have o: "out_uint8p (init_stream d len) bs = Some (emit (init_stream d len) bs)"
    by (simp add: out_uint8p_emit)
  have "written (write_bytes m 0 bs) 0 len" for m
    using bytes_at_written [OF bytes_at_write_bytes [of m 0 bs]] bs(2) by simp
  with bs o assms show ?thesis
    by (simp add: client_data_ok_def in_ok_def s_mark_end_def)
qed

lemma recv_connect_initial_law:
  assumes "proc_ok (mcs_trans self)" "0 \<le> s_size (client_mcs_data self)"
  shows "wp (xrdp_mcs_recv_connect_initial self) (\<lambda>(r, self'). mcs_received self (r, self')
     \<and> (r = 0 \<longrightarrow> client_data_ok (client_mcs_data self')))"
proof -
  from mcs_read_pdu_safe [OF assms(1)] obtain r self1 s where
    m: "mcs_read_pdu self = Some (r, self1, s)" "mcs_received self (r, self1)" "r = 0 \<longrightarrow> in_pos s"
      "client_mcs_data self1 = client_mcs_data self"
    by (auto simp: wp_exists)
  have fail: "mcs_received self (1, set_in_s self1 x)" for x
    using m(2) by (simp add: mcs_received_def)
  show ?thesis
  proof (cases "r = 0")
    case False
    with m(1) fail show ?thesis by (simp add: xrdp_mcs_recv_connect_initial_def)
  next
    case True
    with m have "in_pos s" by simp
    from connect_initial_prefix_safe [OF this] obtain r1 s1 where
      p: "connect_initial_prefix s = Some (r1, s1)" "in_step s s1" by (rule wp_parsedE)
    from ber_parse_header_safe [OF in_step_pos [OF p(2)]] obtain r2 len s2 where
      b: "xrdp_mcs_ber_parse_header s1 4 = Some (r2, len, s2)" "in_step s1 s2" by (rule wp_parsed3E)
    show ?thesis
    proof (cases "r1 = 0 \<and> r2 = 0 \<and> 0 < len \<and> len \<le> 16384 \<and> s_check_rem s2 len")
      case False
      with m(1) True p b fail show ?thesis by (auto simp: xrdp_mcs_recv_connect_initial_def)
    next
      case ok: True
      from connect_initial_copy [OF in_step_pos [OF b(2)], of len "client_mcs_data self"] ok assms(2) obtain data c where
        c: "in_uint8a s2 len = Some (data, in_uint8s s2 len)" "out_uint8p (init_stream (client_mcs_data self) len) data = Some c"
          "client_data_ok (s_mark_end c)"
        by (auto simp: wp_exists bind_eq_Some)
      let ?self2 = "set_in_s (self1\<lparr>client_mcs_data := s_mark_end c\<rparr>) (in_uint8s s2 len)"
      have "xrdp_mcs_recv_connect_initial self = Some (if s_check_end (in_uint8s s2 len) then 0 else 1, ?self2)"
        using m True p b ok c by (simp add: xrdp_mcs_recv_connect_initial_def)
      with m(2) True c(3) show ?thesis by (simp add: mcs_received_def)
    qed
  qed
qed

subsection \<open>The senders\<close>

text \<open>A PDU of the multipoint layer inside its TPKT frame.\<close>

definition mcs_pdu :: "byte list \<Rightarrow> byte list" where
  "mcs_pdu bs = tpkt_header (7 + int (length bs)) @ bs"

definition pdu_stream :: "byte list \<Rightarrow> stream" where
  "pdu_stream bs = s_mark_end (emit (xrdp_iso_init (init_stream make_stream 8192)) bs)"

lemma iso_init_sel [simp]:
  "s_p (xrdp_iso_init s) = 7" "iso_hdr (xrdp_iso_init s) = 0" "s_size (xrdp_iso_init s) = max (s_size s) 32768"
  by (simp_all add: xrdp_iso_init_def s_push_layer_def)

lemma pdu_stream_layout:
  assumes "length bs \<le> 32761"
  shows "iso_hdr (pdu_stream bs) = 0" "s_end (pdu_stream bs) = 7 + int (length bs)" "bytes_at (s_data (pdu_stream bs)) 7 bs"
    "s_end (pdu_stream bs) \<le> s_size (pdu_stream bs)"
  using assms bytes_at_write_bytes [of _ 7 bs] by (simp_all add: pdu_stream_def s_mark_end_def)

lemma mcs_iso_send_law:
  assumes "iso_hdr s = 0" "s_end s = 7 + int (length bs)" "bytes_at (s_data s) 7 bs" "s_end s \<le> s_size s"
    and "writer_ok (mcs_trans self)" "forward_ok (mcs_trans self) (7 + length bs)"
  shows "wp (mcs_iso_send self s) (\<lambda>(r, self', s'). (r = 0 \<or> r = 1) \<and> (\<exists>tr. self' = set_trans self tr)
     \<and> outgoing (mcs_trans self') = outgoing (mcs_trans self) @ (if r = 0 then mcs_pdu bs else [])
     \<and> (r = 0 \<longrightarrow> writer_ok (mcs_trans self') \<and> send_frame (mcs_trans self) (mcs_trans self')))"
  using xrdp_iso_send_law [OF assms] unfolding mcs_iso_send_def wp_bind
  by (auto simp: mcs_pdu_def set_trans_def elim!: wp_mono)

lemma mcs_iso_send_safe:
  assumes "iso_hdr s = 0" "s_end s = 7 + int (length bs)" "bytes_at (s_data s) 7 bs" "s_end s \<le> s_size s"
    and "trans_safe (mcs_trans self)" "forward_ok (mcs_trans self) (7 + length bs)"
  shows "wp (mcs_iso_send self s) (\<lambda>(r, self', s'). (r = 0 \<or> r = 1) \<and> (\<exists>tr. self' = set_trans self tr \<and> trans_safe tr
     \<and> send_frame ((mcs_trans self)\<lparr>tr_status := tr_status tr\<rparr>) tr))"
  using xrdp_iso_send_safe [OF assms] unfolding mcs_iso_send_def wp_bind
  by (auto simp: set_trans_def elim!: wp_mono)

definition cjcf_bytes :: "int \<Rightarrow> int \<Rightarrow> byte list" where
  "cjcf_bytes uid cid = enc8 (MCS_CJCF * 4 + 2) @ enc8 0 @ enc16_be uid @ enc16_be cid @ enc16_be cid"

definition aucf_bytes :: "int \<Rightarrow> byte list" where
  "aucf_bytes uid = enc8 (MCS_AUCF * 4 + 2) @ enc8 0 @ enc16_be uid"

lemma send_cjcf_stream:
  "xrdp_mcs_send_cjcf self uid cid = do { (r, self', s) \<leftarrow> mcs_iso_send self (pdu_stream (cjcf_bytes uid cid)); Some (r, self') }"
  by (simp add: xrdp_mcs_send_cjcf_def out_emit room_def pdu_stream_def cjcf_bytes_def Let_def)

lemma send_aucf_stream:
  "xrdp_mcs_send_aucf self = do { (r, self', s) \<leftarrow> mcs_iso_send self (pdu_stream (aucf_bytes (userid self))); Some (r, self') }"
  by (simp add: xrdp_mcs_send_aucf_def out_emit room_def pdu_stream_def aucf_bytes_def Let_def enc8_def)

lemma cjcf_length: "length (cjcf_bytes uid cid) = 8" by (simp add: cjcf_bytes_def)
lemma aucf_length: "length (aucf_bytes uid) = 4" by (simp add: aucf_bytes_def)

text \<open>What a successful handshake sender did.\<close>

definition mcs_sent :: "xrdp_mcs \<Rightarrow> byte list \<Rightarrow> int \<times> xrdp_mcs \<Rightarrow> bool" where
  "mcs_sent self bs = (\<lambda>(r, self'). (r = 0 \<or> r = 1) \<and> (\<exists>tr. self' = set_trans self tr)
     \<and> outgoing (mcs_trans self') = outgoing (mcs_trans self) @ (if r = 0 then mcs_pdu bs else [])
     \<and> (r = 0 \<longrightarrow> writer_ok (mcs_trans self') \<and> send_frame (mcs_trans self) (mcs_trans self')))"

lemma pdu_send_law:
  assumes "writer_ok (mcs_trans self)" "length bs \<le> 16377"
  shows "wp (do { (r, self', s) \<leftarrow> mcs_iso_send self (pdu_stream bs); Some (r, self') }) (mcs_sent self bs)"
  using mcs_iso_send_law [OF pdu_stream_layout [of bs] assms(1) forward_ok_packet] assms(2)
  unfolding wp_bind by (auto simp: mcs_sent_def elim!: wp_mono)

lemma send_cjcf_law: "writer_ok (mcs_trans self) \<Longrightarrow> wp (xrdp_mcs_send_cjcf self uid cid) (mcs_sent self (cjcf_bytes uid cid))"
  unfolding send_cjcf_stream by (rule pdu_send_law) (simp_all add: cjcf_length)

lemma send_aucf_law: "writer_ok (mcs_trans self) \<Longrightarrow> wp (xrdp_mcs_send_aucf self) (mcs_sent self (aucf_bytes (userid self)))"
  unfolding send_aucf_stream by (rule pdu_send_law) (simp_all add: aucf_length)

lemma send_cjcf_safe:
  assumes "trans_safe (mcs_trans self)"
  shows "wp (xrdp_mcs_send_cjcf self uid cid) (\<lambda>(r, self'). (r = 0 \<or> r = 1) \<and> (\<exists>tr. self' = set_trans self tr \<and> trans_safe tr
     \<and> send_frame ((mcs_trans self)\<lparr>tr_status := tr_status tr\<rparr>) tr))"
  using mcs_iso_send_safe [OF pdu_stream_layout [of "cjcf_bytes uid cid"] assms forward_ok_packet]
  unfolding send_cjcf_stream wp_bind by (auto simp: cjcf_length elim!: wp_mono)

text \<open>The connect response carries the server's data behind its fixed BER prefix.\<close>

definition domain_params_bytes :: "int \<Rightarrow> int \<Rightarrow> int \<Rightarrow> int \<Rightarrow> byte list" where
  "domain_params_bytes c u k m = ber_header MCS_TAG_DOMAIN_PARAMS 26
     @ concat (map (\<lambda>v. ber_header BER_TAG_INTEGER 1 @ enc8 v) [c, u, k, 1, 0, 1])
     @ ber_header BER_TAG_INTEGER 3 @ enc8 (m div 65536) @ enc8 (m div 256) @ enc8 m
     @ ber_header BER_TAG_INTEGER 1 @ enc8 2"

definition connect_response_bytes :: "byte list \<Rightarrow> byte list" where
  "connect_response_bytes data = (let n = int (length data) in
     ber_header MCS_CONNECT_RESPONSE (if n > 0x80 then n + 38 else n + 36)
     @ ber_header BER_TAG_RESULT 1 @ enc8 0 @ ber_header BER_TAG_INTEGER 1 @ enc8 0
     @ domain_params_bytes 22 3 0 0xfff8 @ ber_header BER_TAG_OCTET_STRING n @ data)"

lemma domain_params_length: "length (domain_params_bytes c u k m) = 28"
  by (simp add: domain_params_bytes_def ber_header_def)

lemma out_domain_params_emit:
  assumes "room s 28"
  shows "xrdp_mcs_out_domain_params s c u k m = Some (emit s (domain_params_bytes c u k m))"
proof -
  have h: "xrdp_mcs_ber_out_header t tag len = Some (emit t (ber_header tag len))"
    if "room t 2" "tag < 256" "len < 128" for t tag len
    using that by (intro ber_out_header_emit) (simp add: ber_header_length)
  show ?thesis using assms
    by (simp add: xrdp_mcs_out_domain_params_def xrdp_mcs_ber_out_int8_def xrdp_mcs_ber_out_int24_def h room_def
        out_emit domain_params_bytes_def ber_header_length)
qed

lemma send_connect_response_stream:
  assumes d: "stream_bytes (server_mcs_data self) = Some data" and l: "length data \<le> 16000"
  shows "xrdp_mcs_send_connect_response self
    = do { (r, self', s) \<leftarrow> mcs_iso_send self (pdu_stream (connect_response_bytes data)); Some (r, self') }"
proof -
  have n: "s_end (server_mcs_data self) = int (length data)" using stream_bytesD [OF d] by simp
  have h: "xrdp_mcs_ber_out_header t tag len = Some (emit t (ber_header tag len))" if "room t 5" for t tag len
    using that by (intro ber_out_header_emit) (simp add: ber_header_length room_def)
  have le: "int (length (ber_header tag len)) \<le> 5" for tag len by (simp add: ber_header_length)
  let ?h1 = "ber_header MCS_CONNECT_RESPONSE (if int (length data) > 0x80 then int (length data) + 38 else int (length data) + 36)"
  let ?h2 = "ber_header BER_TAG_OCTET_STRING (int (length data))"
  have len: "int (length ?h1) \<le> 5" "int (length ?h2) \<le> 5" "0 \<le> int (length ?h1)" "0 \<le> int (length ?h2)" using le by simp_all
  show ?thesis
    using d n len l
    by (simp add: xrdp_mcs_send_connect_response_def h room_def out_emit out_domain_params_emit ber_header_length
        domain_params_length pdu_stream_def connect_response_bytes_def Let_def)
qed

lemma connect_response_length: "length (connect_response_bytes data) \<le> length data + 43"
  by (simp add: connect_response_bytes_def Let_def ber_header_length domain_params_length)

lemma send_connect_response_law:
  assumes "writer_ok (mcs_trans self)" "stream_bytes (server_mcs_data self) = Some data" "length data \<le> 16000"
  shows "wp (xrdp_mcs_send_connect_response self) (mcs_sent self (connect_response_bytes data))"
  unfolding send_connect_response_stream [OF assms(2,3)]
  using assms connect_response_length [of data] by (intro pdu_send_law) simp_all

text \<open>The declared outer length is the length of what follows, except for data of 128 bytes.\<close>

lemma connect_response_outer_length:
  fixes data :: "byte list"
  defines "n \<equiv> int (length data)"
  shows "\<exists>body. connect_response_bytes data = ber_header MCS_CONNECT_RESPONSE (if n > 0x80 then n + 38 else n + 36) @ body
     \<and> (int (length body) = (if n > 0x80 then n + 38 else n + 36) \<longleftrightarrow> n \<noteq> 0x80)"
  by (simp add: connect_response_bytes_def Let_def n_def) (simp add: ber_header_length domain_params_length)

subsection \<open>Data packets\<close>

definition sdin_bytes :: "int \<Rightarrow> int \<Rightarrow> byte list \<Rightarrow> byte list" where
  "sdin_bytes uid chan payload = (let n = int (length payload) in
     enc8 (MCS_SDIN * 4) @ enc16_be uid @ enc16_be chan @ enc8 0x70
     @ (if n \<ge> 128 then enc16_be (n + 0x8000) else enc8 n) @ payload)"

lemma move_up_law:
  "0 \<le> lp \<Longrightarrow> lp + int n < s_size s \<Longrightarrow>
     move_up n lp s = Some (s\<lparr>s_data := (\<lambda>i. if lp \<le> i \<and> i < lp + int n then s_data s (i + 1) else s_data s i)\<rparr>)"
proof (induction n arbitrary: lp s)
  case 0
  have "(\<lambda>i. if lp \<le> i \<and> i < lp + int 0 then s_data s (i + 1) else s_data s i) = s_data s"
    by (rule ext) auto
  then show ?case by simp
next
  case (Suc n)
  let ?s = "s\<lparr>s_data := (s_data s)(lp := s_data s (lp + 1))\<rparr>"
  have c: "copy_cell s lp (lp + 1) = Some ?s" using Suc.prems by (simp add: copy_cell_def)
  have "(\<lambda>i. if lp + 1 \<le> i \<and> i < lp + 1 + int n then s_data ?s (i + 1) else s_data ?s i)
      = (\<lambda>i. if lp \<le> i \<and> i < lp + int (Suc n) then s_data s (i + 1) else s_data s i)"
    by (rule ext) auto
  with c Suc.IH [of "lp + 1" ?s] Suc.prems show ?case by simp
qed

lemma mcs_send_layout_long:
  assumes "iso_hdr s = 0" "mcs_hdr s = 7" "s_end s = 15 + int (length payload)" "bytes_at (s_data s) 15 payload"
    "s_end s \<le> s_size s" "128 \<le> length payload" "length payload < 32768"
  obtains s' where "iso_hdr s' = 0" "s_end s' = 7 + int (length (sdin_bytes (userid self) chan payload))"
    "bytes_at (s_data s') 7 (sdin_bytes (userid self) chan payload)" "s_end s' \<le> s_size s'"
    "xrdp_mcs_send cb self s chan = do { (r, self, s) \<leftarrow> mcs_iso_send self s';
       if r \<noteq> 0 then Some (1, self, s)
       else Some (0, if chan = MCS_GLOBAL_CHANNEL then snd (xrdp_mcs_call_callback cb self) else self, s) }"
proof
  let ?n = "int (length payload)"
  let ?h = "enc8 (MCS_SDIN * 4) @ enc16_be (userid self) @ enc16_be chan @ enc8 0x70 @ enc16_be (?n + 0x8000)"
  let ?s = "emit (s\<lparr>s_p := 7\<rparr>) ?h"
  have n: "?n OR 0x8000 = ?n + 0x8000" using assms(6,7) or_high_bit [of ?n 15] by simp
  have b: "sdin_bytes (userid self) chan payload = ?h @ payload" using assms(6) by (simp add: sdin_bytes_def Let_def)
  show "iso_hdr ?s = 0" "s_end ?s = 7 + int (length (sdin_bytes (userid self) chan payload))" "s_end ?s \<le> s_size ?s"
    using assms by (simp_all add: b)
  have "bytes_at (write_bytes (s_data s) 7 ?h) 15 payload"
    by (rule bytes_at_cong [OF assms(4)]) (simp add: write_bytes_above)
  then show "bytes_at (s_data ?s) 7 (sdin_bytes (userid self) chan payload)"
    using bytes_at_write_bytes [of "s_data s" 7 ?h] by (simp add: b bytes_at_append)
  show "xrdp_mcs_send cb self s chan = do { (r, self, s) \<leftarrow> mcs_iso_send self ?s;
       if r \<noteq> 0 then Some (1, self, s)
       else Some (0, if chan = MCS_GLOBAL_CHANNEL then snd (xrdp_mcs_call_callback cb self) else self, s) }"
    using assms by (simp add: xrdp_mcs_send_def s_pop_layer_def out_emit room_def n Let_def)
qed

lemma mcs_send_layout_short:
  assumes "iso_hdr s = 0" "mcs_hdr s = 7" "s_end s = 15 + int (length payload)" "bytes_at (s_data s) 15 payload"
    "s_end s < s_size s" "length payload < 128"
  obtains s' where "iso_hdr s' = 0" "s_end s' = 7 + int (length (sdin_bytes (userid self) chan payload))"
    "bytes_at (s_data s') 7 (sdin_bytes (userid self) chan payload)" "s_end s' \<le> s_size s'"
    "xrdp_mcs_send cb self s chan = do { (r, self, s) \<leftarrow> mcs_iso_send self s';
       if r \<noteq> 0 then Some (1, self, s)
       else Some (0, if chan = MCS_GLOBAL_CHANNEL then snd (xrdp_mcs_call_callback cb self) else self, s) }"
proof
  let ?n = "int (length payload)"
  let ?h = "enc8 (MCS_SDIN * 4) @ enc16_be (userid self) @ enc16_be chan @ enc8 0x70 @ enc8 ?n"
  let ?s = "emit (s\<lparr>s_p := 7\<rparr>) ?h"
  let ?m = "\<lambda>i. if 14 \<le> i \<and> i < 14 + int (Suc (length payload)) then s_data ?s (i + 1) else s_data ?s i"
  let ?s2 = "?s\<lparr>s_data := ?m, s_end := s_end s - 1\<rparr>"
  have b: "sdin_bytes (userid self) chan payload = ?h @ payload" using assms(6) by (simp add: sdin_bytes_def Let_def)
  show "iso_hdr ?s2 = 0" "s_end ?s2 = 7 + int (length (sdin_bytes (userid self) chan payload))" "s_end ?s2 \<le> s_size ?s2"
    using assms by (simp_all add: b)
  have "bytes_at (s_data ?s) 7 ?h" using bytes_at_write_bytes [of "s_data s" 7 ?h] by simp
  then have 1: "bytes_at (s_data ?s2) 7 ?h" by (rule bytes_at_cong) simp
  have 2: "bytes_at (s_data ?s2) 14 payload"
    unfolding bytes_at_nth
  proof (intro allI impI)
    fix k assume k: "k < length payload"
    then have "s_data ?s2 (14 + int k) = s_data s (15 + int k)" by (simp add: write_bytes_above)
    with assms(4) k show "s_data ?s2 (14 + int k) = Some (payload ! k)" by (simp add: bytes_at_nth)
  qed
  from 1 2 show "bytes_at (s_data ?s2) 7 (sdin_bytes (userid self) chan payload)"
    by (simp add: b bytes_at_append)
  have "move_up (Suc (length payload)) 14 ?s = Some (?s\<lparr>s_data := ?m\<rparr>)"
    using move_up_law [of 14 "Suc (length payload)" ?s] assms by simp
  moreover have "nat (15 + ?n - 14) = Suc (length payload)" by simp
  ultimately show "xrdp_mcs_send cb self s chan = do { (r, self, s) \<leftarrow> mcs_iso_send self ?s2;
       if r \<noteq> 0 then Some (1, self, s)
       else Some (0, if chan = MCS_GLOBAL_CHANNEL then snd (xrdp_mcs_call_callback cb self) else self, s) }"
    using assms by (simp add: xrdp_mcs_send_def s_pop_layer_def out_emit room_def Let_def)
qed

text \<open>After a packet on the global channel the session is called back; a quiet callback has nothing to send.\<close>

definition quiet_callback :: "(xrdp_mcs \<Rightarrow> int \<times> xrdp_mcs) option \<Rightarrow> bool" where
  "quiet_callback cb \<longleftrightarrow> (\<forall>m. snd (xrdp_mcs_call_callback cb m) = m)"

text \<open>A data packet reaches the wire with the right header in both length forms; the one-byte
  form needs one spare byte behind the packet.\<close>

lemma xrdp_mcs_send_quiet:
  assumes lay: "iso_hdr s = 0" "mcs_hdr s = 7" "s_end s = 15 + int (length payload)" "bytes_at (s_data s) 15 payload"
      "s_end s < s_size s" and len: "length payload \<le> 16369" and ok: "writer_ok (mcs_trans self)" and quiet: "chan = MCS_GLOBAL_CHANNEL \<longrightarrow> quiet_callback cb"
  shows "wp (xrdp_mcs_send cb self s chan) (\<lambda>(r, self', s'). mcs_sent self (sdin_bytes (userid self) chan payload) (r, self'))"
proof -
  obtain s' where s': "iso_hdr s' = 0" "s_end s' = 7 + int (length (sdin_bytes (userid self) chan payload))"
    "bytes_at (s_data s') 7 (sdin_bytes (userid self) chan payload)" "s_end s' \<le> s_size s'"
    "xrdp_mcs_send cb self s chan = do { (r, self, s) \<leftarrow> mcs_iso_send self s';
       if r \<noteq> 0 then Some (1, self, s)
       else Some (0, if chan = MCS_GLOBAL_CHANNEL then snd (xrdp_mcs_call_callback cb self) else self, s) }"
  proof (cases "length payload < 128")
    case True
    with lay show ?thesis by (intro mcs_send_layout_short [of s payload self chan cb, OF _ _ _ _ _ _ that]) simp_all
  next
    case False
    with lay len show ?thesis by (intro mcs_send_layout_long [of s payload self chan cb, OF _ _ _ _ _ _ _ that]) simp_all
  qed
  have "7 + length (sdin_bytes (userid self) chan payload) \<le> 16384" using len by (simp add: sdin_bytes_def Let_def)
  from mcs_iso_send_law [OF s'(1-4) ok forward_ok_packet [OF this]] quiet show ?thesis
    unfolding s'(5) wp_bind by (auto simp: mcs_sent_def quiet_callback_def elim!: wp_mono)
qed

lemma xrdp_mcs_send_law:
  assumes "iso_hdr s = 0" "mcs_hdr s = 7" "s_end s = 15 + int (length payload)" "bytes_at (s_data s) 15 payload"
      "s_end s < s_size s" and "length payload \<le> 16369" and "writer_ok (mcs_trans self)" and "chan \<noteq> MCS_GLOBAL_CHANNEL"
  shows "wp (xrdp_mcs_send cb self s chan) (\<lambda>(r, self', s'). mcs_sent self (sdin_bytes (userid self) chan payload) (r, self'))"
  using assms by (intro xrdp_mcs_send_quiet) auto

text \<open>The client's data request has the same layout with its own opcode; the receiver delivers
  its channel and leaves the stream at the payload.\<close>

definition sdrq_bytes :: "int \<Rightarrow> int \<Rightarrow> byte list \<Rightarrow> byte list" where
  "sdrq_bytes uid chan payload = (let n = int (length payload) in
     enc8 (MCS_SDRQ * 4) @ enc16_be uid @ enc16_be chan @ enc8 0x70
     @ (if n \<ge> 128 then enc16_be (n + 0x8000) else enc8 n) @ payload)"

lemma mcs_recv_data_pending:
  assumes p: "pending s (enc16_be uid @ enc16_be chan @ enc8 0x70 @ (if n \<ge> 128 then enc16_be (n + 0x8000) else enc8 n))"
    and n: "0 \<le> n" "n < 16384" and chan: "0 \<le> chan" "chan < 65536"
    and e: "s_p s + (if n \<ge> 128 then 7 else 6) \<le> s_end s"
  shows "mcs_recv_data MCS_SDRQ s = Some (0, chan, in_uint8s s (if n \<ge> 128 then 7 else 6))"
proof -
  have c: "in_uint16_be (in_uint8s s 2) = Some (chan, in_uint8s s 4)"
    using p chan in_uint16_be_pending [of "in_uint8s s 2" chan] by (simp add: pending_append u16_def)
  have l: "pending (in_uint8s s 5) (if n \<ge> 128 then enc16_be (n + 0x8000) else enc8 n)"
    using p by (auto simp: pending_append)
  show ?thesis
  proof (cases "n \<ge> 128")
    case True
    then have "pending (in_uint8s s 5) (enc8 ((n + 0x8000) div 256))"
      using l by (simp add: enc16_be_def enc8_def pending_Cons)
    from in_uint8_pending [OF this] have "in_uint8 (in_uint8s s 5) = Some ((n + 0x8000) div 256, in_uint8s s 6)"
      using n by (simp add: u8_def)
    moreover have "((n + 0x8000) div 256) AND 128 \<noteq> 0" using n and_128 [of "(n + 0x8000) div 256"] by simp
    ultimately show ?thesis using c e True by (simp add: mcs_recv_data_def s_check_rem_def Let_def)
  next
    case False
    then have "in_uint8 (in_uint8s s 5) = Some (n, in_uint8s s 6)" using l n by (simp add: in_uint8_pending u8_def)
    moreover have "n AND 128 = 0" using n False and_128 [of n] by simp
    ultimately show ?thesis using c e False by (simp add: mcs_recv_data_def s_check_rem_def Let_def)
  qed
qed

lemma xrdp_mcs_recv_data:
  assumes s: "stream_bytes s = Some (mcs_pdu (sdrq_bytes uid chan payload))" "s_p s = 0"
    and l: "length payload < 16384" "0 \<le> chan" "chan < 65536"
  shows "xrdp_mcs_recv (Suc fuel) self s = Some (0, chan, self, in_uint8s s (s_end s - int (length payload)))"
proof -
  let ?n = "int (length payload)"
  let ?k = "if ?n \<ge> 128 then 7 else 6 :: int"
  have e: "s_end s = 8 + ?k + ?n"
    using stream_bytesD [OF s(1)] by (simp add: mcs_pdu_def sdrq_bytes_def Let_def)
  have "pending s (mcs_pdu (sdrq_bytes uid chan payload))" using s pending_stream_bytes [of s _ "[]"] by simp
  then have p: "pending s (tpkt_header (7 + int (length (sdrq_bytes uid chan payload))))" "pending (in_uint8s s 7) (enc8 100)"
    "pending (in_uint8s s 8) (enc16_be uid @ enc16_be chan @ enc8 0x70 @ (if ?n \<ge> 128 then enc16_be (?n + 0x8000) else enc8 ?n))"
    by (auto simp: mcs_pdu_def sdrq_bytes_def Let_def pending_append split: if_splits)
  have "xrdp_iso_recv s = Some (0, in_uint8s s 7)"
    using e s(2) l by (intro xrdp_iso_recv_pending [OF p(1)]) (auto simp: sdrq_bytes_def Let_def)
  moreover have "in_uint8 (in_uint8s s 7) = Some (100, in_uint8s s 8)"
    using in_uint8_pending [OF p(2)] by (simp add: u8_def)
  moreover have "mcs_recv_data 25 (in_uint8s s 8) = Some (0, chan, in_uint8s s (8 + ?k))"
    using mcs_recv_data_pending [OF p(3)] e s(2) l by simp
  ultimately show ?thesis using e s(2) by (simp add: s_check_rem_def)
qed

text \<open>The receive loop ends, whatever the client sends: a frame is at least four bytes long, so
  there are fewer turns than received bytes. It never reads outside a frame.\<close>

lemma mcs_recv_data_safe: "in_pos s \<Longrightarrow> wp (mcs_recv_data appid s) (parsed3 s)"
  by (simp add: mcs_recv_data_def receiver_simps in_step_refl in_step_skip)

lemma xrdp_mcs_recv_safe:
  "trans_safe (mcs_trans self) \<Longrightarrow> in_ok s \<Longrightarrow> s_p s + 4 \<le> s_end s \<Longrightarrow>
     length (rx_stream (tr_rx (mcs_trans self))) < fuel \<Longrightarrow>
     wp (xrdp_mcs_recv fuel self s) (\<lambda>(r, chan, self', s'). (r = 0 \<or> r = 1) \<and> trans_safe (mcs_trans self')
       \<and> (r = 0 \<longrightarrow> in_pos s') \<and> channel_list self' = channel_list self)"
proof (induction fuel arbitrary: self s)
  case 0
  then show ?case by simp
next
  case (Suc fuel)
  from xrdp_iso_recv_safe [OF Suc.prems(2,3)] obtain r s1 where
    i: "xrdp_iso_recv s = Some (r, s1)" "r = 0 \<or> r = 1" "in_step s s1" by (rule wp_parsedE)
  note pos = in_step_pos [OF i(3)]
  show ?case
  proof (cases "r = 0 \<and> s_check_rem s1 1")
    case False
    then have "xrdp_mcs_recv (Suc fuel) self s = Some (1, 0, self, s1)" using i(1) by auto
    with Suc.prems(1) show ?thesis by simp
  next
    case True
    let ?op = "b8 s1 (s_p s1)"
    let ?s2 = "in_uint8s s1 1"
    have op: "in_uint8 s1 = Some (?op, ?s2)" using True in_posD [OF pos] by (simp add: s_check_rem_def in_reads)
    have pos2: "in_pos ?s2"
      using True by (intro in_step_pos [OF in_step_skip [OF pos]]) (simp_all add: s_check_rem_def)
    show ?thesis
    proof (cases "?op div 4 = 14 \<and> s_check_rem ?s2 4")
      case False
      from mcs_recv_data_safe [OF pos2, of "?op div 4"] obtain r3 chan s3 where
        d: "mcs_recv_data (?op div 4) ?s2 = Some (r3, chan, s3)" "r3 = 0 \<or> r3 = 1" "in_step ?s2 s3" by (rule wp_parsed3E)
      have "xrdp_mcs_recv (Suc fuel) self s =
          (if ?op div 4 = 8 \<or> ?op div 4 = 14 then Some (1, 0, self, ?s2) else Some (r3, chan, self, s3))"
        using False True i(1) op d(1) by (simp del: wp_simps)
      with d(2) in_step_pos [OF d(3)] Suc.prems(1) show ?thesis by simp
    next
      case join: True
      have "\<exists>uid. in_uint16_be ?s2 = Some (uid, in_uint8s s1 3)" "\<exists>cid. in_uint16_be (in_uint8s s1 3) = Some (cid, in_uint8s s1 5)"
        using join in_posD [OF pos] by (simp_all add: s_check_rem_def in_reads)
      then obtain uid cid where u: "in_uint16_be ?s2 = Some (uid, in_uint8s s1 3)" "in_uint16_be (in_uint8s s1 3) = Some (cid, in_uint8s s1 5)"
        by blast
      from send_cjcf_safe [OF Suc.prems(1), of uid cid] obtain r4 tr where
        j: "xrdp_mcs_send_cjcf self uid cid = Some (r4, set_trans self tr)" "trans_safe tr"
          "send_frame ((mcs_trans self)\<lparr>tr_status := tr_status tr\<rparr>) tr"
        by (auto simp: wp_exists)
      from j(3) have j3: "tr_rx tr = tr_rx (mcs_trans self)" by (simp add: send_frame_def)
      from j(2) have "proc_ok tr" by (simp add: trans_safe_def trans_ok_def)
      from libxrdp_force_read_safe [OF this] obtain ok tr2 where
        f: "libxrdp_force_read tr = Some (ok, tr2)" "rx_frame tr tr2"
          "ok \<longrightarrow> in_ok (tr_in_s tr2) \<and> s_p (tr_in_s tr2) = 0 \<and> 4 \<le> s_end (tr_in_s tr2)
             \<and> length (rx_stream (tr_rx tr2)) + 4 \<le> length (rx_stream (tr_rx tr))"
        by (auto simp: wp_exists rx_frame_def)
      have safe2: "trans_safe tr2" using rx_frame_safe(1) [OF f(2)] j(2) by simp
      have eq: "xrdp_mcs_recv (Suc fuel) self s =
          (if ok then xrdp_mcs_recv fuel (set_trans (set_trans self tr) tr2) (tr_in_s tr2)
           else Some (1, 0, set_trans (set_trans self tr) tr2, tr_in_s tr2))"
        using True join i(1) op u j(1) f(1) by (simp add: Let_def)
      show ?thesis
      proof (cases ok)
        case False
        with eq safe2 show ?thesis by simp
      next
        case ok: True
        have "wp (xrdp_mcs_recv fuel (set_trans (set_trans self tr) tr2) (tr_in_s tr2))
          (\<lambda>(r, chan, self', s'). (r = 0 \<or> r = 1) \<and> trans_safe (mcs_trans self')
             \<and> (r = 0 \<longrightarrow> in_pos s') \<and> channel_list self' = channel_list (set_trans (set_trans self tr) tr2))"
          using Suc.prems(4) f(3) ok safe2 j3 by (intro Suc.IH) simp_all
        with eq ok show ?thesis by simp
      qed
    qed
  qed
qed

subsection \<open>The properties\<close>

text \<open>A fresh multipoint layer on a connection with given scripts.\<close>

definition mcs_link :: "rx_event list \<Rightarrow> tx_event list \<Rightarrow> xrdp_mcs" where
  "mcs_link rx tx = xrdp_mcs_create (tcp_link rx tx) (init_stream make_stream 8192) (init_stream make_stream 8192)"

lemma mcs_link_sel [simp]:
  "mcs_trans (mcs_link rx tx) = tcp_link rx tx" "userid (mcs_link rx tx) = 1" "channel_list (mcs_link rx tx) = []"
  "client_mcs_data (mcs_link rx tx) = init_stream make_stream 8192"
  by (simp_all add: mcs_link_def xrdp_mcs_create_def xrdp_iso_create_def)

text \<open>BER headers round trip: a header written by \<open>xrdp_mcs_ber_out_header\<close>, with a one- or two-byte tag and a
  length in the short or the long form, is read back by \<open>xrdp_mcs_ber_parse_header\<close> with the same length and leaves
  the stream where the writer left it.\<close>

theorem ber_header_roundtrip:
  assumes "room s (int (length (ber_header tag len)))" "0 \<le> tag" "tag < 65536" "0 \<le> len" "len < 65536"
  shows "\<exists>s'. xrdp_mcs_ber_out_header s tag len = Some s'
     \<and> xrdp_mcs_ber_parse_header ((s_mark_end s')\<lparr>s_p := s_p s\<rparr>) tag = Some (0, len, s_mark_end s')"
proof -
  let ?s = "emit s (ber_header tag len)" and ?r = "(s_mark_end (emit s (ber_header tag len)))\<lparr>s_p := s_p s\<rparr>"
  have p: "pending ?r (ber_header tag len)"
    using pending_emit [OF assms(1)] by (simp add: pending_def s_mark_end_def)
  have "s_p ?r + int (length (ber_header tag len)) \<le> s_end ?r" by (simp add: s_mark_end_def emit_def)
  from ber_parse_header_pending [OF p this assms(2-5)]
  have "xrdp_mcs_ber_parse_header ?r tag = Some (0, len, s_mark_end ?s)"
    by (simp add: s_mark_end_def emit_def in_uint8s_def)
  with ber_out_header_emit [OF assms(1)] show ?thesis by blast
qed

theorem ber_header_roundtrip_witness:
  "\<exists>s'. xrdp_mcs_ber_out_header (init_stream make_stream 64) 0x7f66 300 = Some s'
     \<and> xrdp_mcs_ber_parse_header ((s_mark_end s')\<lparr>s_p := 0\<rparr>) 0x7f66 = Some (0, 300, s_mark_end s')"
  using ber_header_roundtrip [of "init_stream make_stream 64" "0x7f66" 300]
  by (simp add: room_def ber_header_length init_stream_def make_stream_def)

text \<open>C8. \<open>xrdp_mcs_recv_connect_initial\<close> never reads outside the received frame and never faults, whatever the client
  sends; when it accepts, the user data it kept has between 1 and 16384 bytes, all of them received, and nothing was sent.\<close>

theorem connect_initial_safe:
  assumes "proc_ok (mcs_trans self)" "0 \<le> s_size (client_mcs_data self)"
  shows "wp (xrdp_mcs_recv_connect_initial self) (\<lambda>(r, self'). (r = 0 \<or> r = 1)
     \<and> outgoing (mcs_trans self') = outgoing (mcs_trans self)
     \<and> (r = 0 \<longrightarrow> client_data_ok (client_mcs_data self')))"
  by (rule wp_mono [OF recv_connect_initial_law [OF assms]])
    (auto simp: mcs_received_def mcs_frame_def dest: rx_frame_safe(2))

theorem connect_initial_safe_witness:
  "wp (xrdp_mcs_recv_connect_initial (mcs_link [Rx_Bytes [3, 0, 0, 12, 2, 0xF0, 0x80, 0x7f, 0x65, 0x84, 0xff, 0xff]] []))
     (\<lambda>(r, self'). (r = 0 \<or> r = 1) \<and> outgoing (mcs_trans self') = [])"
  by (rule wp_mono [OF connect_initial_safe]) (auto simp: init_stream_def make_stream_def)

text \<open>\<open>xrdp_mcs_send\<close> on a packet built by the layers above (payload behind the fifteen header bytes): exactly one
  TPKT frame reaches the outgoing data, with the one-byte length form below 128 bytes of payload, for which the payload is
  moved up by one byte, and the two-byte form from 128 on; or the outgoing data is unchanged and 1 is returned.\<close>

theorem mcs_data_sent:
  assumes "iso_hdr s = 0" "mcs_hdr s = 7" "s_end s = 15 + int (length payload)" "bytes_at (s_data s) 15 payload"
    and "s_end s < s_size s" "length payload \<le> 16369" "writer_ok (mcs_trans self)" "chan \<noteq> MCS_GLOBAL_CHANNEL"
  shows "wp (xrdp_mcs_send cb self s chan) (\<lambda>(r, self', s').
     outgoing (mcs_trans self') = outgoing (mcs_trans self)
       @ (if r = 0 then mcs_pdu (sdin_bytes (userid self) chan payload) else [])
     \<and> (r = 0 \<or> r = 1) \<and> (r = 0 \<longrightarrow> writer_ok (mcs_trans self')))"
  by (rule wp_mono [OF xrdp_mcs_send_law [OF assms]]) (auto simp: mcs_sent_def)

theorem mcs_data_sent_witness:
  "wp (xrdp_mcs_send None (mcs_link [] [Tx_Accept 3]) (s_mark_end (emit (xrdp_mcs_init make_stream) [1, 2, 3])) 1004)
     (\<lambda>(r, self', s'). outgoing (mcs_trans self') = (if r = 0 then mcs_pdu (sdin_bytes 1 1004 [1, 2, 3]) else []))"
proof -
  let ?s = "s_mark_end (emit (xrdp_mcs_init make_stream) [1, 2, 3])"
  have "iso_hdr ?s = 0" "mcs_hdr ?s = 7" "s_end ?s = 15 + int (length [1, 2, 3 :: byte])" "bytes_at (s_data ?s) 15 [1, 2, 3]"
    "s_end ?s < s_size ?s"
    by (simp_all add: xrdp_mcs_init_def xrdp_iso_init_def s_push_layer_def s_mark_end_def init_stream_def make_stream_def emit_def)
  from mcs_data_sent [OF this, of "mcs_link [] [Tx_Accept 3]" 1004 None] show ?thesis by (auto elim!: wp_mono)
qed

text \<open>A client's data packet, in either length form, is delivered with its channel and leaves the stream at the first
  byte of its payload.\<close>

theorem mcs_data_received:
  assumes "stream_bytes s = Some (mcs_pdu (sdrq_bytes uid chan payload))" "s_p s = 0"
    and "length payload < 16384" "0 \<le> chan" "chan < 65536"
  shows "xrdp_mcs_recv (Suc fuel) self s = Some (0, chan, self, in_uint8s s (s_end s - int (length payload)))"
  using assms by (rule xrdp_mcs_recv_data)

theorem mcs_data_received_witness:
  "\<exists>n. xrdp_mcs_recv 1 (mcs_link [] []) ((stream_of (mcs_pdu (sdrq_bytes 1 1005 [7, 8])))\<lparr>s_p := 0\<rparr>)
     = Some (0, 1005, mcs_link [] [], in_uint8s ((stream_of (mcs_pdu (sdrq_bytes 1 1005 [7, 8])))\<lparr>s_p := 0\<rparr>) n)"
proof -
  have "stream_bytes ((stream_of (mcs_pdu (sdrq_bytes 1 1005 [7, 8])))\<lparr>s_p := 0\<rparr>) = Some (mcs_pdu (sdrq_bytes 1 1005 [7, 8]))"
    by (simp add: stream_bytes_of)
  from mcs_data_received [OF this, of 0 "mcs_link [] []"] show ?thesis by auto
qed

text \<open>C4. The receive loop returns on every input: it confirms at most as many channel joins as there are received bytes,
  never reads outside a frame and leaves the channel list alone.\<close>

theorem mcs_recv_terminates:
  assumes "trans_safe (mcs_trans self)" "in_ok s" "s_p s + 4 \<le> s_end s" "length (rx_stream (tr_rx (mcs_trans self))) < fuel"
  shows "\<exists>r chan self' s'. xrdp_mcs_recv fuel self s = Some (r, chan, self', s') \<and> (r = 0 \<or> r = 1)
     \<and> trans_safe (mcs_trans self') \<and> (r = 0 \<longrightarrow> in_pos s') \<and> channel_list self' = channel_list self"
  using xrdp_mcs_recv_safe [OF assms] by (auto simp: wp_exists)

theorem mcs_recv_terminates_witness:
  "\<exists>r chan self' s'. xrdp_mcs_recv 9 (mcs_link [Rx_Bytes [3, 0, 0, 8, 2, 0xF0, 0x80, 0x38]] [Tx_Accept 100])
      ((stream_of [3, 0, 0, 12, 2, 0xF0, 0x80, 0x38, 0, 1, 3, 235])\<lparr>s_p := 0\<rparr>) = Some (r, chan, self', s')"
proof -
  let ?s = "(stream_of [3, 0, 0, 12, 2, 0xF0, 0x80, 0x38, 0, 1, 3, 235])\<lparr>s_p := 0\<rparr>"
  have "stream_bytes ?s = Some [3, 0, 0, 12, 2, 0xF0, 0x80, 0x38, 0, 1, 3, 235]"
    by (simp add: stream_bytes_of)
  from stream_bytes_in_ok [OF this]
  have "in_ok ?s" "s_p ?s + 4 \<le> s_end ?s" by auto
  from mcs_recv_terminates [OF _ this, of "mcs_link [Rx_Bytes [3, 0, 0, 8, 2, 0xF0, 0x80, 0x38]] [Tx_Accept 100]" 9]
  show ?thesis by auto
qed

text \<open>The connect response declares the length of what follows its outer header, for server data of every length
  except exactly 128 bytes, where the declared length is two bytes short: the threshold for the long form is tested with
  \<open>> 0x80\<close> when the length is computed and with \<open>>= 0x80\<close> when the inner header is written.\<close>

theorem connect_response_declared_length:
  assumes "writer_ok (mcs_trans self)" "stream_bytes (server_mcs_data self) = Some data" "length data \<le> 16000"
  shows "wp (xrdp_mcs_send_connect_response self) (\<lambda>(r, self'). r = 0 \<longrightarrow> (\<exists>len body.
     outgoing (mcs_trans self') = outgoing (mcs_trans self) @ mcs_pdu (ber_header MCS_CONNECT_RESPONSE len @ body)
     \<and> (int (length body) = len \<longleftrightarrow> length data \<noteq> 128) \<and> (length data = 128 \<longrightarrow> int (length body) = len + 2)
     \<and> suffix data body))"
proof -
  let ?n = "int (length data)"
  let ?len = "if ?n > 0x80 then ?n + 38 else ?n + 36"
  let ?body = "ber_header BER_TAG_RESULT 1 @ enc8 0 @ ber_header BER_TAG_INTEGER 1 @ enc8 0
     @ domain_params_bytes 22 3 0 0xfff8 @ ber_header BER_TAG_OCTET_STRING ?n @ data"
  have bytes: "connect_response_bytes data = ber_header MCS_CONNECT_RESPONSE ?len @ ?body"
    by (simp add: connect_response_bytes_def Let_def)
  have len: "int (length ?body) = ?len \<longleftrightarrow> length data \<noteq> 128" "length data = 128 \<longrightarrow> int (length ?body) = ?len + 2"
    by (auto simp: ber_header_length domain_params_length)
  have suf: "suffix data ?body" by (intro suffix_appendI suffix_order.refl)
  show ?thesis
  proof (rule wp_mono [OF send_connect_response_law [OF assms]], clarify)
    fix self' assume "mcs_sent self (connect_response_bytes data) (0, self')"
    then have "outgoing (mcs_trans self') = outgoing (mcs_trans self) @ mcs_pdu (ber_header MCS_CONNECT_RESPONSE ?len @ ?body)"
      unfolding bytes by (simp add: mcs_sent_def)
    with len suf show "\<exists>len body. outgoing (mcs_trans self') = outgoing (mcs_trans self) @ mcs_pdu (ber_header MCS_CONNECT_RESPONSE len @ body)
     \<and> (int (length body) = len \<longleftrightarrow> length data \<noteq> 128) \<and> (length data = 128 \<longrightarrow> int (length body) = len + 2)
     \<and> suffix data body" by blast
  qed
qed

theorem connect_response_declared_length_witness:
  "wp (xrdp_mcs_send_connect_response ((mcs_link [] [Tx_Accept 400])\<lparr>server_mcs_data := stream_of (replicate 128 0)\<rparr>))
     (\<lambda>(r, self'). r = 0 \<longrightarrow> (\<exists>len body. outgoing (mcs_trans self') = mcs_pdu (ber_header MCS_CONNECT_RESPONSE len @ body)
        \<and> int (length body) = len + 2))"
proof -
  let ?c = "(mcs_link [] [Tx_Accept 400])\<lparr>server_mcs_data := stream_of (replicate 128 0)\<rparr>"
  have "writer_ok (mcs_trans ?c)" "stream_bytes (server_mcs_data ?c) = Some (replicate 128 0)" "outgoing (mcs_trans ?c) = []"
    by (simp_all add: stream_bytes_of)
  with connect_response_declared_length [of ?c "replicate 128 0"] show ?thesis by (auto elim!: wp_mono)
qed

end
