(* ===== verification/Gcc.thy ===== *)
theory Gcc
  imports Mcs
begin

text \<open>
  The GCC conference data exchanged inside connect-initial and connect-response: the client's
  settings blocks (\<open>xrdp_sec_process_mcs_data\<close> and its handlers in \<open>libxrdp/xrdp_sec.c\<close>), the
  server's answer (\<open>xrdp_mcs_out_gcc_data\<close> in \<open>libxrdp/xrdp_mcs.c\<close>), the choice of the
  standard RDP security level, and the whole multipoint handshake \<open>xrdp_mcs_incoming\<close>.

  The security layer owns the multipoint layer here (\<open>mcs_layer\<close>), and with it the two data
  streams; \<open>self->rdp_layer->client_info\<close> is the field \<open>client_info\<close>. The conversion of a
  UTF-16 name by the C library (\<open>wcstombs\<close> in the current locale) is an argument.
\<close>

abbreviation (input) SEC_TAG_SRV_INFO :: int where "SEC_TAG_SRV_INFO \<equiv> 0x0c01"
abbreviation (input) SEC_TAG_SRV_CRYPT :: int where "SEC_TAG_SRV_CRYPT \<equiv> 0x0c02"
abbreviation (input) SEC_TAG_SRV_CHANNELS :: int where "SEC_TAG_SRV_CHANNELS \<equiv> 0x0c03"
abbreviation (input) SEC_TAG_CLI_INFO :: int where "SEC_TAG_CLI_INFO \<equiv> 0xc001"
abbreviation (input) SEC_TAG_CLI_CRYPT :: int where "SEC_TAG_CLI_CRYPT \<equiv> 0xc002"
abbreviation (input) SEC_TAG_CLI_CHANNELS :: int where "SEC_TAG_CLI_CHANNELS \<equiv> 0xc003"
abbreviation (input) SEC_TAG_CLI_4 :: int where "SEC_TAG_CLI_4 \<equiv> 0xc004"
abbreviation (input) SEC_TAG_CLI_MONITOR :: int where "SEC_TAG_CLI_MONITOR \<equiv> 0xc005"
abbreviation (input) SEC_TAG_PUBKEY :: int where "SEC_TAG_PUBKEY \<equiv> 6"
abbreviation (input) SEC_TAG_KEYSIG :: int where "SEC_TAG_KEYSIG \<equiv> 8"
abbreviation (input) SEC_RSA_MAGIC :: int where "SEC_RSA_MAGIC \<equiv> 0x31415352"
abbreviation (input) CRYPT_METHOD_NONE :: int where "CRYPT_METHOD_NONE \<equiv> 0"
abbreviation (input) CRYPT_METHOD_40BIT :: int where "CRYPT_METHOD_40BIT \<equiv> 1"
abbreviation (input) CRYPT_METHOD_128BIT :: int where "CRYPT_METHOD_128BIT \<equiv> 2"
abbreviation (input) CRYPT_METHOD_FIPS :: int where "CRYPT_METHOD_FIPS \<equiv> 16"
abbreviation (input) CRYPT_LEVEL_NONE :: int where "CRYPT_LEVEL_NONE \<equiv> 0"
abbreviation (input) CRYPT_LEVEL_LOW :: int where "CRYPT_LEVEL_LOW \<equiv> 1"
abbreviation (input) CRYPT_LEVEL_CLIENT_COMPATIBLE :: int where "CRYPT_LEVEL_CLIENT_COMPATIBLE \<equiv> 2"
abbreviation (input) CRYPT_LEVEL_HIGH :: int where "CRYPT_LEVEL_HIGH \<equiv> 3"
abbreviation (input) CRYPT_LEVEL_FIPS :: int where "CRYPT_LEVEL_FIPS \<equiv> 4"

record monitor_info =
  mi_left :: int
  mi_top :: int
  mi_right :: int
  mi_bottom :: int
  mi_is_primary :: int

record xrdp_client_info =
  ci_width :: int
  ci_height :: int
  ci_bpp :: int
  ci_max_bpp :: int
  ci_mcs_early_capability_flags :: int
  ci_mcs_connection_type :: int
  ci_channels_allowed :: int
  ci_multimon :: int
  ci_monitorCount :: int
  ci_minfo :: "monitor_info list"
  ci_minfo_wm :: "monitor_info list"
  ci_crypt_level :: int
  ci_hostname :: "int list"
  ci_build :: int
  ci_keylayout :: int
  ci_keyboard_type :: int
  ci_keyboard_subtype :: int

record xrdp_sec =
  mcs_layer :: xrdp_mcs
  client_info :: xrdp_client_info
  crypt_method :: int
  crypt_level :: int
  rsa_key_bytes :: int
  server_random :: "byte list"
  pub_exp :: "byte list"
  pub_mod :: "byte list"
  pub_sig :: "byte list"
  pri_exp :: "byte list"

definition ci_upd :: "(xrdp_client_info \<Rightarrow> xrdp_client_info) \<Rightarrow> xrdp_sec \<Rightarrow> xrdp_sec" where
  "ci_upd f self = self\<lparr>client_info := f (client_info self)\<rparr>"

subsection \<open>Names in UTF-16\<close>

text \<open>The loop that reads \<open>n\<close> characters into \<open>src\<close>.\<close>

fun utf16_read :: "nat \<Rightarrow> stream \<Rightarrow> (int \<times> int list \<times> stream) option" where
  "utf16_read 0 s = Some (0, [], s)"
| "utf16_read (Suc n) s =
     (if \<not> s_check_rem s 2 then Some (1, [], s)
      else do {
        (c, s) \<leftarrow> in_uint16_le s;
        (r, cs, s) \<leftarrow> utf16_read n s;
        Some (r, c # cs, s) })"

text \<open>\<open>src\<close> is a zeroed array of \<open>bytes\<close> characters, so the string handed to \<open>wcstombs\<close> is
  terminated, unless the array is empty. The result: return value, \<open>dst\<close> (unchanged is
  \<open>None\<close>), stream. Sizes are C \<open>int\<close>s with truncating division.\<close>

definition unicode_utf16_in ::
    "(int list \<Rightarrow> byte list option) \<Rightarrow> stream \<Rightarrow> int \<Rightarrow> nat \<Rightarrow> (int \<times> byte list option \<times> stream) option" where
  "unicode_utf16_in wcstombs s src_bytes dst_len =
     (if src_bytes = 0 then
        if \<not> s_check_rem s 2 then Some (1, None, s) else Some (0, None, in_uint8s s 2)
      else do {
        let bytes = src_bytes + 2;
        if bytes < 0 then None
        else do {
          (r, src, s) \<leftarrow> utf16_read (nat (bytes div 2)) s;
          if r \<noteq> 0 then Some (1, None, s)
          else if bytes = 0 then None
          else Some (0, Some (case wcstombs (takeWhile (\<lambda>c. c \<noteq> 0) src) of
              None \<Rightarrow> replicate dst_len 0 | Some bs \<Rightarrow> take dst_len bs), s) } })"

subsection \<open>The client's settings blocks\<close>

definition cs_core_color :: "int \<Rightarrow> xrdp_sec \<Rightarrow> xrdp_sec" where
  "cs_core_color depth self =
     (if depth = 0xca00 then ci_upd (ci_bpp_update (\<lambda>_. 4)) self
      else if depth = 0xca01 then ci_upd (ci_bpp_update (\<lambda>_. 8)) self else self)"

definition cs_core_beta_color :: "int \<Rightarrow> xrdp_sec \<Rightarrow> xrdp_sec" where
  "cs_core_beta_color depth self =
     (if depth = 0xca00 then ci_upd (ci_bpp_update (\<lambda>_. 4)) self
      else if depth = 0xca01 then ci_upd (ci_bpp_update (\<lambda>_. 8)) self
      else if depth = 0xca02 then ci_upd (ci_bpp_update (\<lambda>_. 15)) self
      else if depth = 0xca03 then ci_upd (ci_bpp_update (\<lambda>_. 16)) self
      else if depth = 0xca04 then ci_upd (ci_bpp_update (\<lambda>_. 24)) self else self)"

text \<open>The optional fields, from \<open>clientProductId\<close> on: every one may be missing.\<close>

definition cs_core_optional :: "xrdp_sec \<Rightarrow> stream \<Rightarrow> (int \<times> xrdp_sec) option" where
  "cs_core_optional self s =
     (if \<not> s_check_rem s 2 then Some (0, self) else do {
      let s = in_uint8s s 2;
      if \<not> s_check_rem s 4 then Some (0, self) else do {
      let s = in_uint8s s 4;
      if \<not> s_check_rem s 2 then Some (0, self) else do {
      (highColorDepth, s) \<leftarrow> in_uint16_le s;
      let self = ci_upd (ci_bpp_update (\<lambda>_. highColorDepth)) self;
      if \<not> s_check_rem s 2 then Some (0, self) else do {
      (supportedColorDepths, s) \<leftarrow> in_uint16_le s;
      if \<not> s_check_rem s 2 then Some (0, self) else do {
      (earlyCapabilityFlags, s) \<leftarrow> in_uint16_le s;
      let self = ci_upd (ci_mcs_early_capability_flags_update (\<lambda>_. earlyCapabilityFlags)) self;
      let self = (if earlyCapabilityFlags AND 2 \<noteq> 0 \<and> supportedColorDepths AND 8 \<noteq> 0
                  then ci_upd (ci_bpp_update (\<lambda>_. 32)) self else self);
      if \<not> s_check_rem s 64 then Some (0, self) else do {
      let s = in_uint8s s 64;
      if \<not> s_check_rem s 1 then Some (0, self) else do {
      (connectionType, s) \<leftarrow> in_uint8 s;
      let self = ci_upd (ci_mcs_connection_type_update (\<lambda>_. connectionType)) self;
      Some (0, self) }}}}}}})"

definition xrdp_sec_process_mcs_data_CS_CORE ::
    "(int list \<Rightarrow> byte list option) \<Rightarrow> xrdp_sec \<Rightarrow> stream \<Rightarrow> (int \<times> xrdp_sec) option" where
  "xrdp_sec_process_mcs_data_CS_CORE wcstombs self s = do {
     let s = in_uint8s s 4;
     (w, s) \<leftarrow> in_uint16_le s;
     let self = ci_upd (ci_width_update (\<lambda>_. w)) self;
     (h, s) \<leftarrow> in_uint16_le s;
     let self = ci_upd (ci_height_update (\<lambda>_. h)) self;
     (colorDepth, s) \<leftarrow> in_uint16_le s;
     let self = cs_core_color colorDepth self;
     let s = in_uint8s s 2;
     let s = in_uint8s s 4;
     let s = in_uint8s s 4;
     (r, clientName, s) \<leftarrow> unicode_utf16_in wcstombs s 30 15;
     let s = in_uint8s s 4;
     let s = in_uint8s s 4;
     let s = in_uint8s s 4;
     let s = in_uint8s s 64;
     (postBeta2ColorDepth, s) \<leftarrow> in_uint16_le s;
     cs_core_optional (cs_core_beta_color postBeta2ColorDepth self) s }"

text \<open>The server's level is tried in turn; \<open>found\<close> is the local variable.\<close>

definition crypt_try :: "xrdp_sec \<Rightarrow> int \<Rightarrow> bool \<Rightarrow> int \<Rightarrow> int \<Rightarrow> bool \<times> xrdp_sec" where
  "crypt_try self client found meth level =
     (if \<not> found \<and> crypt_method self AND meth \<noteq> 0 \<and> crypt_level self = level \<and> client AND meth \<noteq> 0
      then (True, self\<lparr>crypt_method := meth, crypt_level := level\<rparr>) else (found, self))"

definition xrdp_sec_process_mcs_data_CS_SECURITY :: "xrdp_sec \<Rightarrow> stream \<Rightarrow> (int \<times> xrdp_sec) option" where
  "xrdp_sec_process_mcs_data_CS_SECURITY self s = do {
     (v, s) \<leftarrow> in_uint32_le s;
     let client = s32 v;
     let (found, self) = crypt_try self client False CRYPT_METHOD_FIPS CRYPT_LEVEL_FIPS;
     let (found, self) = crypt_try self client found CRYPT_METHOD_128BIT CRYPT_LEVEL_HIGH;
     let (found, self) = crypt_try self client found CRYPT_METHOD_40BIT CRYPT_LEVEL_CLIENT_COMPATIBLE;
     let (found, self) = crypt_try self client found CRYPT_METHOD_40BIT CRYPT_LEVEL_LOW;
     let self = (if \<not> found \<and> crypt_level self = CRYPT_LEVEL_NONE \<and> client = CRYPT_METHOD_NONE
                 then self\<lparr>crypt_method := CRYPT_METHOD_NONE, crypt_level := CRYPT_LEVEL_NONE\<rparr> else self);
     Some (0, self) }"

text \<open>The channel loop; \<open>n\<close> turns are left, \<open>index\<close> counts up. The name is an 8-byte field in a
  zeroed 16-byte array, so it is empty exactly when its first byte is 0.\<close>

fun channels_loop :: "nat \<Rightarrow> int \<Rightarrow> mcs_channel_item list \<Rightarrow> stream \<Rightarrow> (int \<times> mcs_channel_item list) option" where
  "channels_loop 0 index items s = Some (0, items)"
| "channels_loop (Suc n) index items s =
     (if \<not> s_check_rem s 12 then Some (1, items)
      else do {
        (name, s) \<leftarrow> in_uint8a s 8;
        (flags, s) \<leftarrow> in_uint32_le s;
        let items = (if hd name \<noteq> 0
            then items @ [\<lparr>ch_name = name, ch_flags = s32 flags, ch_chanid = MCS_GLOBAL_CHANNEL + (index + 1), ch_disabled = 0\<rparr>]
            else items);
        channels_loop n (index + 1) items s })"

definition xrdp_sec_process_mcs_data_channels :: "xrdp_sec \<Rightarrow> stream \<Rightarrow> (int \<times> xrdp_sec) option" where
  "xrdp_sec_process_mcs_data_channels self s =
     (if ci_channels_allowed (client_info self) = 0 then Some (0, self)
      else if \<not> s_check_rem s 4 then Some (1, self)
      else do {
        (v, s) \<leftarrow> in_uint32_le s;
        let num_channels = s32 v;
        if num_channels > 31 then Some (1, self)
        else do {
          (r, items) \<leftarrow> channels_loop (nat num_channels) 0 (channel_list (mcs_layer self)) s;
          Some (r, self\<lparr>mcs_layer := (mcs_layer self)\<lparr>channel_list := items\<rparr>\<rparr>) } })"

text \<open>The monitor block. \<open>minfo\<close> has 16 entries; the box \<open>(x1, y1, x2, y2)\<close> is accumulated.\<close>

definition read_monitor :: "stream \<Rightarrow> (monitor_info \<times> stream) option" where
  "read_monitor s = do {
     (a, s) \<leftarrow> in_uint32_le s;
     (b, s) \<leftarrow> in_uint32_le s;
     (c, s) \<leftarrow> in_uint32_le s;
     (d, s) \<leftarrow> in_uint32_le s;
     (e, s) \<leftarrow> in_uint32_le s;
     Some (\<lparr>mi_left = s32 a, mi_top = s32 b, mi_right = s32 c, mi_bottom = s32 d, mi_is_primary = s32 e\<rparr>, s) }"

definition box_add :: "int \<Rightarrow> int \<times> int \<times> int \<times> int \<Rightarrow> monitor_info \<Rightarrow> int \<times> int \<times> int \<times> int" where
  "box_add index box m = (case box of (x1, y1, x2, y2) \<Rightarrow>
     if index = 0 then (mi_left m, mi_top m, mi_right m, mi_bottom m)
     else (min x1 (mi_left m), min y1 (mi_top m), max x2 (mi_right m), max y2 (mi_bottom m)))"

fun monitors_loop :: "nat \<Rightarrow> int \<Rightarrow> monitor_info list \<Rightarrow> int \<times> int \<times> int \<times> int \<Rightarrow> bool \<Rightarrow> stream
    \<Rightarrow> (monitor_info list \<times> (int \<times> int \<times> int \<times> int) \<times> bool) option" where
  "monitors_loop 0 index minfo box got_primary s = Some (minfo, box, got_primary)"
| "monitors_loop (Suc n) index minfo box got_primary s = do {
     (m, s) \<leftarrow> read_monitor s;
     if nat index < length minfo
     then monitors_loop n (index + 1) (minfo[nat index := m]) (box_add index box m)
            (got_primary \<or> mi_is_primary m \<noteq> 0) s
     else None }"

text \<open>The first of the \<open>n\<close> monitors at \<open>(x1, y1)\<close> is made primary.\<close>

fun mark_primary :: "nat \<Rightarrow> int \<Rightarrow> int \<Rightarrow> monitor_info list \<Rightarrow> monitor_info list" where
  "mark_primary 0 x1 y1 ms = ms"
| "mark_primary (Suc n) x1 y1 [] = []"
| "mark_primary (Suc n) x1 y1 (m # ms) =
     (if mi_left m = x1 \<and> mi_top m = y1 then m\<lparr>mi_is_primary := 1\<rparr> # ms else m # mark_primary n x1 y1 ms)"

definition shift_monitor :: "int \<Rightarrow> int \<Rightarrow> monitor_info \<Rightarrow> monitor_info" where
  "shift_monitor x1 y1 m = \<lparr>mi_left = s32 (mi_left m - x1), mi_top = s32 (mi_top m - y1), mi_right = s32 (mi_right m - x1),
     mi_bottom = s32 (mi_bottom m - y1), mi_is_primary = mi_is_primary m\<rparr>"

definition xrdp_sec_process_mcs_data_monitors :: "xrdp_sec \<Rightarrow> stream \<Rightarrow> (int \<times> xrdp_sec) option" where
  "xrdp_sec_process_mcs_data_monitors self s =
     (if ci_multimon (client_info self) \<noteq> 1 then Some (0, self)
      else do {
        (flags, s) \<leftarrow> in_uint32_le s;
        if s32 flags \<noteq> 0 then Some (1, self)
        else do {
          (v, s) \<leftarrow> in_uint32_le s;
          let monitorCount = s32 v;
          if monitorCount > 16 then Some (1, self)
          else do {
            let self = ci_upd (ci_monitorCount_update (\<lambda>_. monitorCount)) self;
            (minfo, (x1, y1, x2, y2), got_primary) \<leftarrow>
              monitors_loop (nat monitorCount) 0 (ci_minfo (client_info self)) (0, 0, 0, 0) False s;
            let minfo = (if got_primary then minfo else mark_primary (nat monitorCount) x1 y1 minfo);
            let self = ci_upd (ci_minfo_update (\<lambda>_. minfo)) self;
            let self = (if x2 > x1 \<and> y2 > y1
                then ci_upd (\<lambda>c. c\<lparr>ci_width := s32 (x2 - x1 + 1), ci_height := s32 (y2 - y1 + 1)\<rparr>) self else self);
            let ci = client_info self;
            if ci_width ci > 0x7FFE \<or> ci_width ci < 0xC8 \<or> ci_height ci > 0x7FFE \<or> ci_height ci < 0xC8
            then Some (1, self)
            else Some (0, ci_upd (\<lambda>c. c\<lparr>ci_minfo_wm :=
                map (shift_monitor x1 y1) (take (nat monitorCount) minfo) @ drop (nat monitorCount) (ci_minfo_wm c)\<rparr>) self) } } })"

definition process_mcs_block ::
    "(int list \<Rightarrow> byte list option) \<Rightarrow> xrdp_sec \<Rightarrow> int \<Rightarrow> stream \<Rightarrow> (int \<times> xrdp_sec) option" where
  "process_mcs_block wcstombs self tag s =
     (if tag = SEC_TAG_CLI_INFO then xrdp_sec_process_mcs_data_CS_CORE wcstombs self s
      else if tag = SEC_TAG_CLI_CRYPT then xrdp_sec_process_mcs_data_CS_SECURITY self s
      else if tag = SEC_TAG_CLI_CHANNELS then xrdp_sec_process_mcs_data_channels self s
      else if tag = SEC_TAG_CLI_4 then Some (0, self)
      else if tag = SEC_TAG_CLI_MONITOR then xrdp_sec_process_mcs_data_monitors self s
      else Some (0, self))"

text \<open>The loop over the blocks: the handlers move the read position, which is then set to the end
  of the block. \<open>Some r\<close> is an early return.\<close>

function process_mcs_blocks ::
    "(int list \<Rightarrow> byte list option) \<Rightarrow> xrdp_sec \<Rightarrow> stream \<Rightarrow> (int option \<times> xrdp_sec) option" where
  "process_mcs_blocks wcstombs self s =
     (if s_check_rem s 4 then do {
        let hold_p = s_p s;
        (tag, s1) \<leftarrow> in_uint16_le s;
        (size, s2) \<leftarrow> in_uint16_le s1;
        if size < 4 \<or> \<not> s_check_rem s2 (size - 4) then Some (None, self)
        else do {
          (r, self) \<leftarrow> process_mcs_block wcstombs self tag s2;
          if r \<noteq> 0 then Some (Some 1, self)
          else process_mcs_blocks wcstombs self (s\<lparr>s_p := hold_p + size\<rparr>) } }
      else Some (None, self))"
  by pat_completeness auto
termination
  by (relation "measure (\<lambda>(w, self, s). nat (s_end s - s_p s))") (auto simp: s_check_rem_def)

declare process_mcs_blocks.simps [simp del]

definition xrdp_sec_process_mcs_data :: "(int list \<Rightarrow> byte list option) \<Rightarrow> xrdp_sec \<Rightarrow> (int \<times> xrdp_sec) option" where
  "xrdp_sec_process_mcs_data wcstombs self = do {
     let s = (client_mcs_data (mcs_layer self))\<lparr>s_p := 0\<rparr>;
     if \<not> s_check_rem s 23 then Some (1, self)
     else do {
       (ret, self) \<leftarrow> process_mcs_blocks wcstombs self (in_uint8s s 23);
       (case ret of
          Some r \<Rightarrow> Some (r, self)
        | None \<Rightarrow> do {
            let ci = client_info self;
            let self = (if ci_max_bpp ci > 0 \<and> ci_bpp ci > ci_max_bpp ci
                then ci_upd (ci_bpp_update (\<lambda>_. ci_max_bpp ci)) self else self);
            Some (0, self\<lparr>mcs_layer := (mcs_layer self)\<lparr>client_mcs_data := s\<rparr>\<rparr>) }) } }"

text \<open>The host name: at most 16 characters, the low byte of each.\<close>

fun hostname_loop :: "nat \<Rightarrow> stream \<Rightarrow> int list \<Rightarrow> (int \<times> int list) option" where
  "hostname_loop 0 s acc = Some (0, acc)"
| "hostname_loop (Suc n) s acc =
     (if \<not> s_check_rem s 2 then Some (1, acc)
      else do {
        (c, s) \<leftarrow> in_uint8 s;
        let s = in_uint8s s 1;
        if c = 0 then Some (0, acc @ [c]) else hostname_loop n s (acc @ [c]) })"

text \<open>\<open>load_layout\<close> stands for \<open>xrdp_load_keyboard_layout\<close>, which reads the keyboard
  configuration file.\<close>

definition xrdp_sec_in_mcs_data :: "(xrdp_client_info \<Rightarrow> xrdp_client_info) \<Rightarrow> xrdp_sec \<Rightarrow> (int \<times> xrdp_sec) option" where
  "xrdp_sec_in_mcs_data load_layout self = do {
     let s = (client_mcs_data (mcs_layer self))\<lparr>s_p := 0\<rparr>;
     if \<not> s_check_rem s 47 then Some (1, self)
     else do {
       (r, name) \<leftarrow> hostname_loop 16 (in_uint8s s 47) [];
       let self = ci_upd (ci_hostname_update (\<lambda>_. name @ replicate (32 - length name) 0)) self;
       if r \<noteq> 0 then Some (1, self)
       else if \<not> s_check_rem s (43 + 4) then Some (1, self)
       else do {
         (build, _) \<leftarrow> in_uint32_le (in_uint8s s 43);
         let self = ci_upd (ci_build_update (\<lambda>_. s32 build)) self;
         if \<not> s_check_rem s (39 + 4) then Some (1, self)
         else do {
           (keylayout, _) \<leftarrow> in_uint32_le (in_uint8s s 39);
           let self = ci_upd (ci_keylayout_update (\<lambda>_. s32 keylayout)) self;
           if \<not> s_check_rem s (79 + 8) then Some (1, self)
           else do {
             (kt, s1) \<leftarrow> in_uint32_le (in_uint8s s 79);
             (kst, _) \<leftarrow> in_uint32_le s1;
             Some (0, ci_upd (\<lambda>c. load_layout (c\<lparr>ci_keyboard_type := s32 kt, ci_keyboard_subtype := s32 kst\<rparr>)) self) } } } } }"

text \<open>The configured security level; \<open>rc4\<close> contexts are created by the crypto library.\<close>

definition xrdp_sec_init_rdp_security :: "xrdp_sec \<Rightarrow> int \<times> xrdp_sec" where
  "xrdp_sec_init_rdp_security self =
     (let l = ci_crypt_level (client_info self) in
      (0, if l = 0 then self\<lparr>crypt_method := CRYPT_METHOD_NONE, crypt_level := CRYPT_LEVEL_NONE\<rparr>
          else if l = 1 then self\<lparr>crypt_method := CRYPT_METHOD_40BIT, crypt_level := CRYPT_LEVEL_LOW\<rparr>
          else if l = 2 then self\<lparr>crypt_method := CRYPT_METHOD_40BIT, crypt_level := CRYPT_LEVEL_CLIENT_COMPATIBLE\<rparr>
          else if l = 3 then self\<lparr>crypt_method := CRYPT_METHOD_128BIT, crypt_level := CRYPT_LEVEL_HIGH\<rparr>
          else if l = 4 then self\<lparr>crypt_method := CRYPT_METHOD_FIPS, crypt_level := CRYPT_LEVEL_FIPS\<rparr>
          else self))"

subsection \<open>The server's settings blocks\<close>

fun gcc_channel_ids :: "nat \<Rightarrow> int \<Rightarrow> int \<Rightarrow> stream \<Rightarrow> stream option" where
  "gcc_channel_ids 0 index num_channels s = Some s"
| "gcc_channel_ids (Suc n) index num_channels s = do {
     s \<leftarrow> (if index < num_channels then out_uint16_le s (MCS_GLOBAL_CHANNEL + (index + 1)) else out_uint16_le s 0);
     gcc_channel_ids n (index + 1) num_channels s }"

text \<open>A copy of \<open>n\<close> bytes out of a key array.\<close>

definition out_array :: "stream \<Rightarrow> byte list \<Rightarrow> nat \<Rightarrow> stream option" where
  "out_array s a n = (if n \<le> length a then out_uint8p s (take n a) else None)"

definition gcc_certificate :: "xrdp_sec \<Rightarrow> stream \<Rightarrow> int \<Rightarrow> int \<Rightarrow> int \<Rightarrow> int \<Rightarrow> int \<Rightarrow> int \<Rightarrow> nat \<Rightarrow> stream option" where
  "gcc_certificate self s block_len cert_len pubkey_len modulus_len bit_len data_len key_len = do {
     s \<leftarrow> out_uint16_le s SEC_TAG_SRV_CRYPT;
     s \<leftarrow> out_uint16_le s block_len;
     s \<leftarrow> out_uint32_le s (crypt_method self);
     s \<leftarrow> out_uint32_le s (crypt_level self);
     s \<leftarrow> out_uint32_le s 32;
     s \<leftarrow> out_uint32_le s cert_len;
     s \<leftarrow> out_array s (server_random self) 32;
     s \<leftarrow> out_uint32_le s 1;
     s \<leftarrow> out_uint32_le s 1;
     s \<leftarrow> out_uint32_le s 1;
     s \<leftarrow> out_uint16_le s SEC_TAG_PUBKEY;
     s \<leftarrow> out_uint16_le s pubkey_len;
     s \<leftarrow> out_uint32_le s SEC_RSA_MAGIC;
     s \<leftarrow> out_uint32_le s modulus_len;
     s \<leftarrow> out_uint32_be s bit_len;
     s \<leftarrow> out_uint32_be s data_len;
     s \<leftarrow> out_array s (pub_exp self) 4;
     s \<leftarrow> out_array s (pub_mod self) key_len;
     s \<leftarrow> out_uint8s s 8;
     s \<leftarrow> out_uint16_le s SEC_TAG_KEYSIG;
     s \<leftarrow> out_uint16_le s 72;
     s \<leftarrow> out_array s (pub_sig self) 64;
     out_uint8s s 8 }"

definition gcc_header :: "stream \<Rightarrow> stream option" where
  "gcc_header s = do {
     s \<leftarrow> out_uint16_be s 5;
     s \<leftarrow> out_uint16_be s 0x14;
     s \<leftarrow> out_uint8 s 0x7c;
     s \<leftarrow> out_uint16_be s 1;
     s \<leftarrow> out_uint8 s 0x2a;
     s \<leftarrow> out_uint8 s 0x14;
     s \<leftarrow> out_uint8 s 0x76;
     s \<leftarrow> out_uint8 s 0x0a;
     s \<leftarrow> out_uint8 s 1;
     s \<leftarrow> out_uint8 s 1;
     s \<leftarrow> out_uint8 s 0;
     s \<leftarrow> out_uint16_le s 0xc001;
     s \<leftarrow> out_uint8 s 0;
     s \<leftarrow> out_uint8 s 0x4d;
     s \<leftarrow> out_uint8 s 0x63;
     s \<leftarrow> out_uint8 s 0x44;
     out_uint8 s 0x6e }"

definition gcc_server_info :: "xrdp_sec \<Rightarrow> stream \<Rightarrow> stream option" where
  "gcc_server_info self s = do {
     s \<leftarrow> out_uint16_le s SEC_TAG_SRV_INFO;
     s \<leftarrow> out_uint16_le s (if rdpNegData (iso_layer (mcs_layer self)) \<noteq> 0 then 12 else 8);
     s \<leftarrow> out_uint8 s 4;
     s \<leftarrow> out_uint8 s 0;
     s \<leftarrow> out_uint8 s 8;
     s \<leftarrow> out_uint8 s 0;
     if rdpNegData (iso_layer (mcs_layer self)) \<noteq> 0
     then out_uint32_le s (requestedProtocol (iso_layer (mcs_layer self))) else Some s }"

definition gcc_channels :: "xrdp_sec \<Rightarrow> stream \<Rightarrow> stream option" where
  "gcc_channels self s = do {
     let num_channels = int (length (channel_list (mcs_layer self)));
     let num_channels_even = num_channels + (num_channels AND 1);
     s \<leftarrow> out_uint16_le s SEC_TAG_SRV_CHANNELS;
     s \<leftarrow> out_uint16_le s (8 + num_channels_even * 2);
     s \<leftarrow> out_uint16_le s MCS_GLOBAL_CHANNEL;
     s \<leftarrow> out_uint16_le s num_channels;
     gcc_channel_ids (nat num_channels_even) 0 num_channels s }"

definition gcc_crypt :: "xrdp_sec \<Rightarrow> stream \<Rightarrow> stream option" where
  "gcc_crypt self s =
     (if rsa_key_bytes self = 64 then gcc_certificate self s 0x00ec 0xb8 0x005c 0x0048 0x00020000 0x3f000000 64
      else if rsa_key_bytes self = 256 then gcc_certificate self s 0x01ac 0x178 0x011c 0x0108 0x00080000 0xff000000 256
      else if rsa_key_bytes self = 0 then do {
        s \<leftarrow> out_uint16_le s SEC_TAG_SRV_CRYPT;
        s \<leftarrow> out_uint16_le s 12;
        s \<leftarrow> out_uint32_le s (crypt_method self);
        out_uint32_le s (crypt_level self) }
      else Some s)"

definition xrdp_mcs_out_gcc_data :: "xrdp_sec \<Rightarrow> (int \<times> xrdp_sec) option" where
  "xrdp_mcs_out_gcc_data self = do {
     s \<leftarrow> gcc_header (init_stream (server_mcs_data (mcs_layer self)) 8192);
     let gcc_size_ptr = s_p s;
     s \<leftarrow> out_uint8s s 2;
     let ud_ptr = s_p s;
     s \<leftarrow> gcc_server_info self s;
     s \<leftarrow> gcc_channels self s;
     s \<leftarrow> gcc_crypt self s;
     let s = s_mark_end s;
     let gcc_size = (s_end s - ud_ptr) OR 0x8000;
     s \<leftarrow> wr8 s gcc_size_ptr (gcc_size div 256);
     s \<leftarrow> wr8 s (gcc_size_ptr + 1) gcc_size;
     Some (0, self\<lparr>mcs_layer := (mcs_layer self)\<lparr>server_mcs_data := s\<rparr>\<rparr>) }"

subsection \<open>The server's key file\<close>

text \<open>A C string without its terminator. \<open>g_htoi\<close> (\<open>common/os_calls.c\<close>) works from the last digit.\<close>

definition hex_val :: "char \<Rightarrow> int" where
  "hex_val c =
     (if c \<in> set ''123456789'' then of_char c - 48
      else if c \<in> set ''abcdef'' then of_char c - 87
      else if c \<in> set ''ABCDEF'' then of_char c - 55 else 0)"

fun htoi_loop :: "string \<Rightarrow> nat \<Rightarrow> int \<Rightarrow> int" where
  "htoi_loop [] shift rv = rv"
| "htoi_loop (c # cs) shift rv = htoi_loop cs (shift + 4) (rv OR push_bit shift (hex_val c))"

definition g_htoi :: "string \<Rightarrow> int" where
  "g_htoi str = htoi_loop (rev str) 0 0"

text \<open>The scan for \<open>0xNN\<close>: the window moves by one character at a time. Storing outside the
  array is a fault.\<close>

fun hex_scan :: "string \<Rightarrow> nat \<Rightarrow> byte list \<Rightarrow> nat \<Rightarrow> byte list option" where
  "hex_scan (a # b # c # d # rest) out_index out out_len =
     (if a = CHR ''0'' \<and> b = CHR ''x'' then
        if out_index < out_len then
          if out_index < length out
          then hex_scan (b # c # d # rest) (Suc out_index) (out[out_index := word_of_int (g_htoi [c, d])]) out_len
          else None
        else hex_scan (b # c # d # rest) (Suc out_index) out out_len
      else hex_scan (b # c # d # rest) out_index out out_len)"
| "hex_scan _ out_index out out_len = Some out"

definition hex_str_to_bin :: "string \<Rightarrow> byte list \<Rightarrow> nat \<Rightarrow> byte list option" where
  "hex_str_to_bin inp out out_len = hex_scan inp 0 out out_len"

definition lower :: "char \<Rightarrow> char" where
  "lower c = (if 65 \<le> (of_char c :: nat) \<and> (of_char c :: nat) \<le> 90 then char_of (of_char c + 32 :: nat) else c)"

definition strcaseeq :: "string \<Rightarrow> string \<Rightarrow> bool" where
  "strcaseeq a b \<longleftrightarrow> map lower a = map lower b"

definition load_key :: "string \<times> string \<Rightarrow> xrdp_sec \<Rightarrow> xrdp_sec option" where
  "load_key kv self = (case kv of (item, val) \<Rightarrow>
     let n = (int (length val) + 1) div 5 in
     if strcaseeq item ''pub_exp'' then do {
       a \<leftarrow> hex_str_to_bin val (pub_exp self) 4; Some (self\<lparr>pub_exp := a\<rparr>) }
     else if strcaseeq item ''pub_mod'' then do {
       a \<leftarrow> hex_str_to_bin val (pub_mod self) (nat n); Some (self\<lparr>rsa_key_bytes := n, pub_mod := a\<rparr>) }
     else if strcaseeq item ''pub_sig'' then do {
       a \<leftarrow> hex_str_to_bin val (pub_sig self) 64; Some (self\<lparr>pub_sig := a\<rparr>) }
     else if strcaseeq item ''pri_exp'' then do {
       a \<leftarrow> hex_str_to_bin val (pri_exp self) (nat n); Some (self\<lparr>rsa_key_bytes := n, pri_exp := a\<rparr>) }
     else Some self)"

fun load_keys :: "(string \<times> string) list \<Rightarrow> xrdp_sec \<Rightarrow> xrdp_sec option" where
  "load_keys [] self = Some self"
| "load_keys (kv # kvs) self = do { self \<leftarrow> load_key kv self; load_keys kvs self }"

subsection \<open>The handshake\<close>

text \<open>The channel-join loop: \<open>n\<close> joins are left.\<close>

fun join_loop :: "nat \<Rightarrow> int \<Rightarrow> xrdp_mcs \<Rightarrow> (int \<times> xrdp_mcs) option" where
  "join_loop 0 index self = Some (0, self)"
| "join_loop (Suc n) index self = do {
     (r, self) \<leftarrow> xrdp_mcs_recv_cjrq self;
     if r \<noteq> 0 then Some (1, self)
     else do {
       (r, self) \<leftarrow> xrdp_mcs_send_cjcf self (userid self) (userid self + MCS_USERCHANNEL_BASE + index);
       if r \<noteq> 0 then Some (1, self) else join_loop n (index + 1) self } }"

text \<open>The exchange after the connect response.\<close>

definition mcs_attach :: "xrdp_mcs \<Rightarrow> (int \<times> xrdp_mcs) option" where
  "mcs_attach self = do {
     (r, self) \<leftarrow> xrdp_mcs_recv_edrq self;
     if r \<noteq> 0 then Some (1, self) else do {
     (r, self) \<leftarrow> xrdp_mcs_recv_aurq self;
     if r \<noteq> 0 then Some (1, self) else do {
     (r, self) \<leftarrow> xrdp_mcs_send_aucf self;
     if r \<noteq> 0 then Some (1, self)
     else join_loop (length (channel_list self) + 2) 0 self }}}"

definition on_mcs :: "xrdp_sec \<Rightarrow> (xrdp_mcs \<Rightarrow> (int \<times> xrdp_mcs) option) \<Rightarrow> (int \<times> xrdp_sec) option" where
  "on_mcs self f = do { (r, m) \<leftarrow> f (mcs_layer self); Some (r, self\<lparr>mcs_layer := m\<rparr>) }"

definition xrdp_mcs_incoming :: "(int list \<Rightarrow> byte list option) \<Rightarrow> xrdp_sec \<Rightarrow> (int \<times> xrdp_sec) option" where
  "xrdp_mcs_incoming wcstombs self = do {
     (r, self) \<leftarrow> on_mcs self xrdp_mcs_recv_connect_initial;
     if r \<noteq> 0 then Some (1, self) else do {
     (r, self) \<leftarrow> xrdp_sec_process_mcs_data wcstombs self;
     if r \<noteq> 0 then Some (1, self) else do {
     (r, self) \<leftarrow> xrdp_mcs_out_gcc_data self;
     if r \<noteq> 0 then Some (1, self) else do {
     (r, self) \<leftarrow> on_mcs self xrdp_mcs_send_connect_response;
     if r \<noteq> 0 then Some (1, self) else on_mcs self mcs_attach }}}}"

text \<open>The whole connection sequence of the security layer. \<open>tls\<close> is the outcome of
  \<open>ssl_tls_create\<close> and \<open>ssl_tls_accept\<close>, \<open>random\<close> what \<open>g_random\<close> delivers, \<open>keys\<close> the
  section \<open>keys\<close> of \<open>rsakeys.ini\<close> (\<open>None\<close>: it cannot be read).\<close>

definition sec_init_security ::
    "bool \<times> bool \<Rightarrow> byte list \<Rightarrow> (string \<times> string) list option \<Rightarrow> xrdp_sec \<Rightarrow> (int \<times> xrdp_sec) option" where
  "sec_init_security tls random keys self =
     (let iso = iso_layer (mcs_layer self) in
      if selectedProtocol iso > PROTOCOL_RDP then
        (let (r, tr) = trans_set_tls_mode (fst tls) (snd tls) (iso_trans iso);
             self = self\<lparr>mcs_layer := set_trans (mcs_layer self) tr\<rparr>
         in Some (if r \<noteq> 0 then (1, self)
            else (0, self\<lparr>crypt_level := CRYPT_LEVEL_NONE, crypt_method := CRYPT_METHOD_NONE, rsa_key_bytes := 0\<rparr>)))
      else
        (let (r, self) = xrdp_sec_init_rdp_security self
         in if r \<noteq> 0 then Some (1, self)
            else if crypt_method self \<noteq> CRYPT_METHOD_NONE then
              (let self = self\<lparr>server_random := random\<rparr>
               in case keys of
                    None \<Rightarrow> Some (1, self)
                  | Some kvs \<Rightarrow> do { self \<leftarrow> load_keys kvs self; Some (0, self) })
            else Some (0, self)))"

definition xrdp_sec_incoming ::
    "security_config \<Rightarrow> bool \<times> bool \<Rightarrow> byte list \<Rightarrow> (string \<times> string) list option \<Rightarrow> (int list \<Rightarrow> byte list option)
     \<Rightarrow> (xrdp_client_info \<Rightarrow> xrdp_client_info) \<Rightarrow> xrdp_sec \<Rightarrow> (int \<times> xrdp_sec) option" where
  "xrdp_sec_incoming cfg tls random keys wcstombs load_layout self = do {
     (r, iso) \<leftarrow> xrdp_iso_incoming cfg (iso_layer (mcs_layer self));
     let self = self\<lparr>mcs_layer := (mcs_layer self)\<lparr>iso_layer := iso\<rparr>\<rparr>;
     if r \<noteq> 0 then Some (1, self)
     else do {
       (r, self) \<leftarrow> sec_init_security tls random keys self;
       if r \<noteq> 0 then Some (1, self)
       else do {
         (r, self) \<leftarrow> xrdp_mcs_incoming wcstombs self;
         if r \<noteq> 0 then Some (1, self)
         else do {
           (r, self) \<leftarrow> xrdp_sec_in_mcs_data load_layout self;
           Some (if r \<noteq> 0 then 1 else 0, self) } } } }"

subsection \<open>The block handlers on sufficiently long blocks\<close>

lemma ci_upd_sel [simp]:
  "mcs_layer (ci_upd f self) = mcs_layer self" "client_info (ci_upd f self) = f (client_info self)"
  "crypt_method (ci_upd f self) = crypt_method self" "crypt_level (ci_upd f self) = crypt_level self"
  "rsa_key_bytes (ci_upd f self) = rsa_key_bytes self" "server_random (ci_upd f self) = server_random self"
  "pub_exp (ci_upd f self) = pub_exp self" "pub_mod (ci_upd f self) = pub_mod self" "pub_sig (ci_upd f self) = pub_sig self"
  by (simp_all add: ci_upd_def)

text \<open>What a block handler leaves alone, and the fixed size of the monitor arrays.\<close>

definition sec_frame :: "xrdp_sec \<Rightarrow> xrdp_sec \<Rightarrow> bool" where
  "sec_frame self self' \<longleftrightarrow>
     iso_layer (mcs_layer self') = iso_layer (mcs_layer self) \<and> userid (mcs_layer self') = userid (mcs_layer self)
     \<and> client_mcs_data (mcs_layer self') = client_mcs_data (mcs_layer self)
     \<and> server_mcs_data (mcs_layer self') = server_mcs_data (mcs_layer self)
     \<and> rsa_key_bytes self' = rsa_key_bytes self \<and> server_random self' = server_random self \<and> pub_exp self' = pub_exp self
     \<and> pub_mod self' = pub_mod self \<and> pub_sig self' = pub_sig self \<and> crypt_level self' = crypt_level self
     \<and> length (ci_minfo (client_info self')) = length (ci_minfo (client_info self))
     \<and> ci_multimon (client_info self') = ci_multimon (client_info self)
     \<and> ci_channels_allowed (client_info self') = ci_channels_allowed (client_info self)"

lemma sec_frame_refl [simp]: "sec_frame self self"
  by (simp add: sec_frame_def)

lemma sec_frame_trans: "sec_frame a b \<Longrightarrow> sec_frame b c \<Longrightarrow> sec_frame a c"
  by (simp add: sec_frame_def)

definition block_done :: "xrdp_sec \<Rightarrow> int \<times> xrdp_sec \<Rightarrow> bool" where
  "block_done self = (\<lambda>(r, self'). (r = 0 \<or> r = 1) \<and> sec_frame self self')"

lemma block_done_iff [simp]: "block_done self (r, self') \<longleftrightarrow> (r = 0 \<or> r = 1) \<and> sec_frame self self'"
  by (simp add: block_done_def)

lemma utf16_read_ok:
  "in_ok s \<Longrightarrow> s_p s + 2 * int n \<le> s_end s \<Longrightarrow> \<exists>cs. utf16_read n s = Some (0, cs, in_uint8s s (2 * int n))"
proof (induction n arbitrary: s)
  case (Suc n)
  from Suc.prems have r: "in_uint16_le s = Some (b8 s (s_p s) + 256 * b8 s (s_p s + 1), in_uint8s s 2)"
    by (intro in_uint16_le_ok) auto
  have "in_ok (in_uint8s s 2)" using Suc.prems by (simp add: in_okD)
  from Suc.IH [OF this] Suc.prems obtain cs where "utf16_read n (in_uint8s s 2) = Some (0, cs, in_uint8s s (2 + 2 * int n))"
    by auto
  with r Suc.prems show ?case by (simp add: s_check_rem_def)
qed simp

lemma unicode_utf16_in_ok:
  assumes "in_ok s" "s_p s + 32 \<le> s_end s"
  shows "\<exists>d. unicode_utf16_in w s 30 n = Some (0, d, in_uint8s s 32)"
  using utf16_read_ok [OF assms(1), of 16] assms(2) by (auto simp: unicode_utf16_in_def)

lemma cs_core_optional_safe:
  assumes "in_pos s"
  shows "wp (cs_core_optional self s) (block_done self)"
  unfolding cs_core_optional_def using in_posD [OF assms]
  by (simp add: s_check_rem_def wp_simps in_reads Let_def sec_frame_def)

lemma CS_CORE_safe:
  assumes ok: "in_ok s" and rem: "s_check_rem s 130"
  shows "wp (xrdp_sec_process_mcs_data_CS_CORE w self s) (block_done self)"
proof -
  have p: "0 \<le> s_p s" "s_p s + 130 \<le> s_end s" using in_okD(1) [OF ok] rem by (simp_all add: s_check_rem_def)
  then have "in_ok (in_uint8s s 20)" using ok by simp
  from unicode_utf16_in_ok [OF this, of w 15] p obtain d where
    u: "unicode_utf16_in w (in_uint8s s 20) 30 15 = Some (0, d, in_uint8s s 52)" by auto
  have fin: "wp (cs_core_optional self' (in_uint8s s 130)) (block_done self)" if "sec_frame self self'" for self'
  proof (rule wp_mono [OF cs_core_optional_safe])
    show "in_pos (in_uint8s s 130)" using ok p by (simp add: in_pos_def)
  qed (use that in \<open>auto simp: block_done_def intro: sec_frame_trans\<close>)
  have fr: "sec_frame self (cs_core_beta_color x (cs_core_color y (ci_upd f (ci_upd g self))))"
    if "\<And>c. ci_minfo (f c) = ci_minfo c" "\<And>c. ci_minfo (g c) = ci_minfo c" "\<And>c. ci_multimon (f c) = ci_multimon c"
      "\<And>c. ci_multimon (g c) = ci_multimon c" "\<And>c. ci_channels_allowed (f c) = ci_channels_allowed c"
      "\<And>c. ci_channels_allowed (g c) = ci_channels_allowed c" for x y f g
    using that by (simp add: cs_core_beta_color_def cs_core_color_def sec_frame_def)
  show ?thesis using ok p u
    by (simp add: xrdp_sec_process_mcs_data_CS_CORE_def in_uint16_le_ok Let_def fin fr)
qed

text \<open>The client cannot lower the security level: once the configured pair is set, the handler
  leaves method and level alone.\<close>

lemma crypt_try_level: "crypt_try self c f m l = (f', self') \<Longrightarrow> crypt_level self' = crypt_level self \<and> sec_frame self self'"
  by (auto simp: crypt_try_def sec_frame_def split: if_splits)

lemma CS_SECURITY_safe:
  assumes "in_ok s" "s_check_rem s 4"
  shows "wp (xrdp_sec_process_mcs_data_CS_SECURITY self s) (block_done self)"
proof -
  have r: "in_uint32_le s = Some (b8 s (s_p s) + 256 * b8 s (s_p s + 1) + 65536 * b8 s (s_p s + 2)
       + 16777216 * b8 s (s_p s + 3), in_uint8s s 4)"
    using assms by (intro in_uint32_le_ok) (simp_all add: s_check_rem_def)
  let ?c = "s32 (b8 s (s_p s) + 256 * b8 s (s_p s + 1) + 65536 * b8 s (s_p s + 2) + 16777216 * b8 s (s_p s + 3))"
  obtain f1 s1 where 1: "crypt_try self ?c False 16 4 = (f1, s1)" by fastforce
  obtain f2 s2 where 2: "crypt_try s1 ?c f1 2 3 = (f2, s2)" by fastforce
  obtain f3 s3 where 3: "crypt_try s2 ?c f2 1 2 = (f3, s3)" by fastforce
  obtain f4 s4 where 4: "crypt_try s3 ?c f3 1 1 = (f4, s4)" by fastforce
  from crypt_try_level [OF 1] crypt_try_level [OF 2] crypt_try_level [OF 3] crypt_try_level [OF 4]
  have "sec_frame self s4" by (blast intro: sec_frame_trans)
  then show ?thesis
    using r 1 2 3 4 by (simp add: xrdp_sec_process_mcs_data_CS_SECURITY_def Let_def) (simp add: sec_frame_def)
qed

lemma channels_loop_safe: "in_pos s \<Longrightarrow> wp (channels_loop n i items s) (\<lambda>(r, items'). r = 0 \<or> r = 1)"
proof (induction n arbitrary: i items s)
  case (Suc n)
  show ?case
  proof (cases "s_check_rem s 12")
    case True
    from in_uint8a_ok [of s 8] True Suc.prems obtain name where n: "in_uint8a s 8 = Some (name, in_uint8s s 8)"
      by (auto simp: in_pos_def s_check_rem_def)
    have "in_ok (in_uint8s s 8)" "in_pos (in_uint8s s 12)"
      using Suc.prems True by (auto simp: in_pos_def in_ok_def s_check_rem_def)
    with n True Suc.IH [of "in_uint8s s 12"] show ?thesis by (simp add: s_check_rem_def in_uint32_le_ok Let_def)
  qed simp
qed simp

lemma channels_safe:
  assumes "in_pos s"
  shows "wp (xrdp_sec_process_mcs_data_channels self s) (block_done self)"
proof (cases "ci_channels_allowed (client_info self) \<noteq> 0 \<and> s_check_rem s 4")
  case False
  then show ?thesis by (auto simp: xrdp_sec_process_mcs_data_channels_def)
next
  case True
  have p: "in_ok s" "in_pos (in_uint8s s 4)" "s_p s + 4 \<le> s_end s"
    using assms True by (auto simp: in_pos_def in_ok_def s_check_rem_def)
  have l: "wp (channels_loop n 0 items (in_uint8s s 4)) (\<lambda>x. wp (case x of (r, items) \<Rightarrow>
      Some (r, self\<lparr>mcs_layer := (mcs_layer self)\<lparr>channel_list := items\<rparr>\<rparr>)) (block_done self))" for n items
    by (rule wp_mono [OF channels_loop_safe [OF p(2)]]) (auto simp: sec_frame_def)
  from True show ?thesis
    by (simp add: xrdp_sec_process_mcs_data_channels_def in_uint32_le_ok p Let_def wp_bind l)
qed

text \<open>The monitor block: five 32-bit fields per monitor.\<close>

definition le32 :: "stream \<Rightarrow> int \<Rightarrow> int" where
  "le32 s i = b8 s i + 256 * b8 s (i + 1) + 65536 * b8 s (i + 2) + 16777216 * b8 s (i + 3)"

lemma in_uint32_le_le32: "in_ok s \<Longrightarrow> s_p s + 4 \<le> s_end s \<Longrightarrow> in_uint32_le s = Some (le32 s (s_p s), in_uint8s s 4)"
  by (simp add: in_uint32_le_ok le32_def)

definition monitor_at :: "stream \<Rightarrow> int \<Rightarrow> monitor_info" where
  "monitor_at s i = \<lparr>mi_left = s32 (le32 s i), mi_top = s32 (le32 s (i + 4)), mi_right = s32 (le32 s (i + 8)),
     mi_bottom = s32 (le32 s (i + 12)), mi_is_primary = s32 (le32 s (i + 16))\<rparr>"

lemma le32_in_uint8s [simp]: "le32 (in_uint8s s n) i = le32 s i"
  by (simp add: le32_def)

lemma monitor_at_in_uint8s [simp]: "monitor_at (in_uint8s s n) i = monitor_at s i"
  by (simp add: monitor_at_def)

lemma read_monitor_ok:
  "in_ok s \<Longrightarrow> s_p s + 20 \<le> s_end s \<Longrightarrow> read_monitor s = Some (monitor_at s (s_p s), in_uint8s s 20)"
  using in_okD(1) [of s] by (simp add: read_monitor_def in_uint32_le_le32 monitor_at_def)

lemma monitors_loop_safe:
  "in_ok s \<Longrightarrow> s_p s + 20 * int n \<le> s_end s \<Longrightarrow> 0 \<le> i \<Longrightarrow> nat i + n \<le> length minfo \<Longrightarrow>
     wp (monitors_loop n i minfo box g s) (\<lambda>(minfo', box', g'). length minfo' = length minfo)"
proof (induction n arbitrary: i minfo box g s)
  case (Suc n)
  have "in_ok (in_uint8s s 20)" "nat (i + 1) + n \<le> length minfo"
    using Suc.prems in_okD(1) [of s] by (auto simp: nat_add_distrib)
  moreover have "read_monitor s = Some (monitor_at s (s_p s), in_uint8s s 20)"
    using Suc.prems by (intro read_monitor_ok) auto
  ultimately show ?case using Suc.prems Suc.IH [of "in_uint8s s 20" "i + 1" "minfo[nat i := monitor_at s (s_p s)]"]
    by simp
qed simp

lemma mark_primary_length [simp]: "length (mark_primary n x y ms) = length ms"
  by (induction n x y ms rule: mark_primary.induct) auto

definition monitor_block_ok :: "stream \<Rightarrow> bool" where
  "monitor_block_ok s \<longleftrightarrow> s_check_rem s 8 \<and> (s32 (le32 s (s_p s + 4)) \<le> 16 \<longrightarrow> s_check_rem s (8 + 20 * int (nat (s32 (le32 s (s_p s + 4))))))"

lemma monitors_safe:
  assumes ok: "in_ok s" and blk: "monitor_block_ok s" and len: "length (ci_minfo (client_info self)) = 16"
  shows "wp (xrdp_sec_process_mcs_data_monitors self s) (block_done self)"
proof -
  let ?n = "s32 (le32 s (s_p s + 4))"
  have p: "0 \<le> s_p s" "s_p s + 8 \<le> s_end s" using in_okD(1) [OF ok] blk by (simp_all add: monitor_block_ok_def s_check_rem_def)
  then have r: "in_uint32_le s = Some (le32 s (s_p s), in_uint8s s 4)"
    "in_uint32_le (in_uint8s s 4) = Some (le32 s (s_p s + 4), in_uint8s s 8)"
    using ok by (simp_all add: in_uint32_le_le32)
  show ?thesis
  proof (cases "ci_multimon (client_info self) = 1 \<and> s32 (le32 s (s_p s)) = 0 \<and> ?n \<le> 16")
    case False
    with r show ?thesis by (auto simp: xrdp_sec_process_mcs_data_monitors_def Let_def)
  next
    case True
    with blk have "s_p s + 8 + 20 * int (nat ?n) \<le> s_end s" by (simp add: monitor_block_ok_def s_check_rem_def)
    then have "wp (monitors_loop (nat ?n) 0 (ci_minfo (client_info self)) (0, 0, 0, 0) False (in_uint8s s 8))
      (\<lambda>(minfo', box', g'). length minfo' = length (ci_minfo (client_info self)))"
      using ok p True len by (intro monitors_loop_safe) auto
    then obtain minfo x1 y1 x2 y2 g where
      m: "monitors_loop (nat ?n) 0 (ci_minfo (client_info self)) (0, 0, 0, 0) False (in_uint8s s 8) = Some (minfo, (x1, y1, x2, y2), g)"
        "length minfo = length (ci_minfo (client_info self))"
      by (auto simp: wp_exists)
    with True r show ?thesis
      by (simp add: xrdp_sec_process_mcs_data_monitors_def Let_def wp_if sec_frame_def)
  qed
qed

subsection \<open>The block loop\<close>

text \<open>What the handlers need of the blocks that they do not check themselves.\<close>

definition block_fits :: "int \<Rightarrow> stream \<Rightarrow> bool" where
  "block_fits tag s \<longleftrightarrow> (tag = SEC_TAG_CLI_INFO \<longrightarrow> s_check_rem s 130) \<and> (tag = SEC_TAG_CLI_CRYPT \<longrightarrow> s_check_rem s 4)
     \<and> (tag = SEC_TAG_CLI_MONITOR \<longrightarrow> monitor_block_ok s)"

function blocks_fit :: "stream \<Rightarrow> bool" where
  "blocks_fit s =
     (if s_check_rem s 4 then
        (let tag = b8 s (s_p s) + 256 * b8 s (s_p s + 1); sz = b8 s (s_p s + 2) + 256 * b8 s (s_p s + 3) in
         if sz < 4 \<or> \<not> s_check_rem (in_uint8s s 4) (sz - 4) then True
         else block_fits tag (in_uint8s s 4) \<and> blocks_fit (s\<lparr>s_p := s_p s + sz\<rparr>))
      else True)"
  by pat_completeness auto
termination
  by (relation "measure (\<lambda>s. nat (s_end s - s_p s))") (auto simp: s_check_rem_def)

declare blocks_fit.simps [simp del]

lemma process_mcs_block_safe:
  assumes "in_pos s" "block_fits tag s" "length (ci_minfo (client_info self)) = 16"
  shows "wp (process_mcs_block w self tag s) (block_done self)"
proof -
  have "in_ok s" using assms(1) by (simp add: in_pos_def)
  with assms CS_CORE_safe CS_SECURITY_safe channels_safe monitors_safe show ?thesis
    unfolding process_mcs_block_def by (auto simp: block_fits_def)
qed

lemma process_mcs_blocks_safe:
  "in_pos s \<Longrightarrow> blocks_fit s \<Longrightarrow> length (ci_minfo (client_info self)) = 16 \<Longrightarrow>
     wp (process_mcs_blocks w self s) (\<lambda>(ret, self'). (ret = None \<or> ret = Some 1) \<and> sec_frame self self')"
proof (induction s arbitrary: self rule: blocks_fit.induct)
  case (1 s)
  show ?case
  proof (cases "s_check_rem s 4")
    case False
    then show ?thesis by (subst process_mcs_blocks.simps) simp
  next
    case True
    define tag where "tag = b8 s (s_p s) + 256 * b8 s (s_p s + 1)"
    define sz where "sz = b8 s (s_p s + 2) + 256 * b8 s (s_p s + 3)"
    have p: "0 \<le> s_p s" "in_ok s" "s_p s + 4 \<le> s_end s" using in_posD [OF 1(2)] True by (simp_all add: s_check_rem_def)
    have r: "in_uint16_le s = Some (tag, in_uint8s s 2)" "in_uint16_le (in_uint8s s 2) = Some (sz, in_uint8s s 4)"
      using p by (simp_all add: in_uint16_le_ok tag_def sz_def add.commute)
    show ?thesis
    proof (cases "sz < 4 \<or> \<not> s_check_rem (in_uint8s s 4) (sz - 4)")
      case bad: True
      with True r show ?thesis by (subst process_mcs_blocks.simps) (auto simp: Let_def)
    next
      case False
      from 1(3) True False have fit: "block_fits tag (in_uint8s s 4)" "blocks_fit (s\<lparr>s_p := s_p s + sz\<rparr>)"
        by (subst (asm) blocks_fit.simps, auto simp: tag_def sz_def Let_def)+
      have pos: "in_pos (in_uint8s s 4)" "in_pos (s\<lparr>s_p := s_p s + sz\<rparr>)"
        using p False by (auto simp: in_pos_def in_ok_def s_check_rem_def)
      from process_mcs_block_safe [OF pos(1) fit(1) 1(4), of w] obtain r1 self1 where
        b: "process_mcs_block w self tag (in_uint8s s 4) = Some (r1, self1)" "r1 = 0 \<or> r1 = 1" "sec_frame self self1"
        by (auto simp: wp_exists)
      show ?thesis
      proof (cases "r1 = 0")
        case err: False
        with True False r b show ?thesis by (subst process_mcs_blocks.simps) (auto simp: Let_def)
      next
        case ok: True
        have eq: "process_mcs_blocks w self s = process_mcs_blocks w self1 (s\<lparr>s_p := s_p s + sz\<rparr>)"
          using True False r b ok by (subst process_mcs_blocks.simps) (simp add: Let_def)
        have "length (ci_minfo (client_info self1)) = 16" using b(3) 1(4) by (simp add: sec_frame_def)
        from 1(1) [OF True tag_def sz_def False pos(2) fit(2) this] b(3) show ?thesis
          unfolding eq by (auto elim!: wp_mono intro: sec_frame_trans)
      qed
    qed
  qed
qed

text \<open>The client's data as \<open>xrdp_mcs_recv_connect_initial\<close> left it.\<close>

definition gcc_fits :: "stream \<Rightarrow> bool" where
  "gcc_fits d \<longleftrightarrow> (s_check_rem (d\<lparr>s_p := 0\<rparr>) 23 \<longrightarrow> blocks_fit (d\<lparr>s_p := 23\<rparr>))"

lemma process_mcs_data_safe:
  assumes "client_data_ok (client_mcs_data (mcs_layer self))" "gcc_fits (client_mcs_data (mcs_layer self))"
    "length (ci_minfo (client_info self)) = 16"
  shows "wp (xrdp_sec_process_mcs_data w self) (\<lambda>(r, self'). (r = 0 \<or> r = 1)
     \<and> iso_layer (mcs_layer self') = iso_layer (mcs_layer self) \<and> userid (mcs_layer self') = userid (mcs_layer self)
     \<and> server_mcs_data (mcs_layer self') = server_mcs_data (mcs_layer self)
     \<and> s_size (client_mcs_data (mcs_layer self')) = s_size (client_mcs_data (mcs_layer self))
     \<and> rsa_key_bytes self' = rsa_key_bytes self \<and> server_random self' = server_random self \<and> pub_exp self' = pub_exp self
     \<and> pub_mod self' = pub_mod self \<and> pub_sig self' = pub_sig self \<and> crypt_level self' = crypt_level self)"
proof -
  let ?d = "client_mcs_data (mcs_layer self)"
  let ?s = "?d\<lparr>s_p := 0\<rparr>"
  show ?thesis
  proof (cases "s_check_rem ?s 23")
    case False
    then show ?thesis by (simp add: xrdp_sec_process_mcs_data_def Let_def)
  next
    case True
    have eq: "in_uint8s ?s 23 = ?d\<lparr>s_p := 23\<rparr>" by (simp add: in_uint8s_def)
    have "in_pos (in_uint8s ?s 23)"
      using assms(1) True by (auto simp: client_data_ok_def in_pos_def in_ok_def s_check_rem_def)
    from process_mcs_blocks_safe [OF this _ assms(3), of w] assms(2) True eq obtain ret self1 where
      b: "process_mcs_blocks w self (in_uint8s ?s 23) = Some (ret, self1)" "ret = None \<or> ret = Some 1" "sec_frame self self1"
      by (auto simp: wp_exists gcc_fits_def)
    then show ?thesis
      using True by (auto simp: xrdp_sec_process_mcs_data_def Let_def sec_frame_def)
  qed
qed

end
