(* ===== verification/Gcc_Laws.thy ===== *)
theory Gcc_Laws
  imports Gcc
begin

text \<open>
  What the GCC exchange of the theory \<open>Gcc\<close> achieves: the channel list a client's request
  produces and the identifiers the answer announces, the bytes of the answer, the security level
  that survives the client's proposal, the geometry of the monitor layout, the decoding of the
  server's key file and the confirmations of the attach and join sequence.
\<close>

subsection \<open>Channels\<close>

text \<open>A channel definition as the client sends it: an 8-byte name and 32 flag bits.\<close>

definition channel_def_bytes :: "byte list \<times> int \<Rightarrow> byte list" where
  "channel_def_bytes d = fst d @ enc32_le (snd d)"

fun channel_items :: "int \<Rightarrow> (byte list \<times> int) list \<Rightarrow> mcs_channel_item list" where
  "channel_items index [] = []"
| "channel_items index ((name, flags) # ds) =
     (if hd name \<noteq> 0
      then \<lparr>ch_name = name, ch_flags = s32 (u32 flags), ch_chanid = MCS_GLOBAL_CHANNEL + (index + 1), ch_disabled = 0\<rparr> # channel_items (index + 1) ds
      else channel_items (index + 1) ds)"

lemma channel_defs_length:
  "\<forall>d \<in> set ds. length (fst d) = 8 \<Longrightarrow> length (concat (map channel_def_bytes ds)) = 12 * length ds"
  by (induction ds) (auto simp: channel_def_bytes_def)

lemma channels_loop_parse:
  "pending s (concat (map channel_def_bytes ds)) \<Longrightarrow> s_p s + 12 * int (length ds) \<le> s_end s \<Longrightarrow>
     \<forall>d \<in> set ds. length (fst d) = 8 \<Longrightarrow>
     channels_loop (length ds) index items s = Some (0, items @ channel_items index ds)"
proof (induction ds arbitrary: s index items)
  case (Cons d ds)
  obtain name flags where d: "d = (name, flags)" by (cases d)
  have p: "pending s name" "pending (in_uint8s s 8) (enc32_le flags)"
      "pending (in_uint8s s 12) (concat (map channel_def_bytes ds))"
    using Cons.prems(1,3) by (simp_all add: d channel_def_bytes_def [of "(name, flags)"] pending_append)
  have rd: "in_uint8a s 8 = Some (name, in_uint8s s 8)"
    using in_uint8a_pending [OF p(1)] Cons.prems(3) by (simp add: d)
  have rem: "s_check_rem s 12" using Cons.prems(2) by (simp add: s_check_rem_def)
  let ?items = "if hd name \<noteq> 0 then items @ [\<lparr>ch_name = name, ch_flags = s32 (u32 flags), ch_chanid = MCS_GLOBAL_CHANNEL + (index + 1), ch_disabled = 0\<rparr>] else items"
  have "channels_loop (length ds) (index + 1) ?items (in_uint8s s 12) = Some (0, ?items @ channel_items (index + 1) ds)"
    using Cons.prems by (intro Cons.IH p(3)) auto
  with rem rd show ?case
    by (simp add: d in_uint32_le_pending [OF p(2)] Let_def)
qed simp

lemma channel_items_ids:
  "\<forall>d \<in> set ds. hd (fst d) \<noteq> 0 \<Longrightarrow>
     map ch_chanid (channel_items index ds) = map (\<lambda>i. MCS_GLOBAL_CHANNEL + (index + 1) + int i) [0..<length ds]"
proof (induction ds arbitrary: index)
  case (Cons d ds)
  have "map (\<lambda>i. MCS_GLOBAL_CHANNEL + (index + 1) + int i) [0..<length (d # ds)]
      = (MCS_GLOBAL_CHANNEL + (index + 1)) # map (\<lambda>i. MCS_GLOBAL_CHANNEL + (index + 2) + int i) [0..<length ds]"
    by (simp only: length_Cons upt_conv_Cons map_Suc_upt [symmetric] zero_less_Suc list.map map_map comp_def) (simp add: algebra_simps)
  with Cons show ?case by (cases d) (simp add: algebra_simps)
qed simp

text \<open>The identifiers announced to the client, padded to an even number.\<close>

fun announced_ids :: "nat \<Rightarrow> int \<Rightarrow> int \<Rightarrow> int list" where
  "announced_ids 0 index num = []"
| "announced_ids (Suc n) index num = (if index < num then MCS_GLOBAL_CHANNEL + (index + 1) else 0) # announced_ids n (index + 1) num"

lemma gcc_channel_ids_emit:
  "room s (2 * int n) \<or> n = 0 \<Longrightarrow> gcc_channel_ids n index num s = Some (emit s (concat (map enc16_le (announced_ids n index num))))"
proof (induction n arbitrary: index s)
  case (Suc n)
  let ?v = "if index < num then MCS_GLOBAL_CHANNEL + (index + 1) else 0"
  have r: "room s 2" "room (emit s (enc16_le ?v)) (2 * int n) \<or> n = 0"
    using Suc.prems by (auto simp: room_def)
  show ?case
    using Suc.IH [OF r(2), of "index + 1"] r(1) by (cases "index < num") (simp_all add: out_uint16_le_emit algebra_simps)
qed simp

lemma announced_ids_pad: "index \<ge> num \<Longrightarrow> announced_ids n index num = replicate n 0"
  by (induction n arbitrary: index) simp_all

lemma announced_ids_items:
  "length items = m \<Longrightarrow> map ch_chanid items = map (\<lambda>i. MCS_GLOBAL_CHANNEL + (index + 1) + int i) [0..<m] \<Longrightarrow>
     announced_ids (m + k) index (index + int m) = map ch_chanid items @ replicate k 0"
proof (induction m arbitrary: index items)
  case 0
  then show ?case by (simp add: announced_ids_pad)
next
  case (Suc m)
  then obtain c cs where items: "items = c # cs" by (cases items) auto
  have "map (\<lambda>i. MCS_GLOBAL_CHANNEL + (index + 1) + int i) [0..<Suc m]
      = (MCS_GLOBAL_CHANNEL + (index + 1)) # map (\<lambda>i. MCS_GLOBAL_CHANNEL + (index + 2) + int i) [0..<m]"
    by (simp only: upt_conv_Cons map_Suc_upt [symmetric] zero_less_Suc list.map map_map comp_def) (simp add: algebra_simps)
  with Suc.prems items have c: "ch_chanid c = MCS_GLOBAL_CHANNEL + (index + 1)" "length cs = m"
    "map ch_chanid cs = map (\<lambda>i. MCS_GLOBAL_CHANNEL + (index + 1 + 1) + int i) [0..<m]"
    by (simp_all add: algebra_simps)
  from Suc.IH [OF c(2,3)] c(1) items show ?case by (simp add: algebra_simps)
qed

definition even_count :: "nat \<Rightarrow> nat" where
  "even_count n = (if even n then n else Suc n)"

lemma num_channels_even: "int n + (int n AND 1) = int (even_count n)"
  by (simp add: even_count_def and_one_eq mod2_eq_if)

text \<open>The channel block of the answer.\<close>

definition channel_block :: "int list \<Rightarrow> nat \<Rightarrow> byte list" where
  "channel_block ids n = enc16_le SEC_TAG_SRV_CHANNELS @ enc16_le (8 + 2 * int (length ids)) @ enc16_le MCS_GLOBAL_CHANNEL
     @ enc16_le (int n) @ concat (map enc16_le ids)"

lemma announced_ids_length [simp]: "length (announced_ids n i num) = n"
  by (induction n arbitrary: i) simp_all

lemma concat_enc16_length [simp]: "length (concat (map enc16_le xs)) = 2 * length xs"
  by (induction xs) (simp_all add: enc16_le_def)

lemma gcc_channels_emit:
  fixes self :: xrdp_sec
  defines "n \<equiv> length (channel_list (mcs_layer self))"
  assumes "room s (8 + 2 * int (even_count n))"
  shows "gcc_channels self s = Some (emit s (channel_block (announced_ids (even_count n) 0 (int n)) n))"
proof -
  let ?h = "enc16_le SEC_TAG_SRV_CHANNELS @ enc16_le (8 + 2 * int (even_count n)) @ enc16_le MCS_GLOBAL_CHANNEL @ enc16_le (int n)"
  have "gcc_channel_ids (even_count n) 0 (int n) (emit s ?h)
      = Some (emit (emit s ?h) (concat (map enc16_le (announced_ids (even_count n) 0 (int n)))))"
    using assms(2) by (intro gcc_channel_ids_emit) (simp add: room_def)
  moreover have "room s 2" "room s 4" "room s 6" "room s 8" using assms(2) by (auto simp: room_def)
  ultimately show ?thesis
    unfolding gcc_channels_def Let_def n_def [symmetric] num_channels_even nat_int
    by (simp add: channel_block_def out_uint16_le_emit room_def mult.commute)
qed

lemma channel_items_length: "\<forall>d \<in> set ds. hd (fst d) \<noteq> 0 \<Longrightarrow> length (channel_items i ds) = length ds"
  using channel_items_ids [of ds i] by (metis length_map length_upt minus_nat.diff_0)

lemma channels_parse:
  assumes "ci_channels_allowed (client_info self) \<noteq> 0" "channel_list (mcs_layer self) = []"
    and ds: "\<forall>d \<in> set ds. length (fst d) = 8" "length ds \<le> 31"
    and s: "pending s (enc32_le (int (length ds)) @ concat (map channel_def_bytes ds))" "s_p s + 4 + 12 * int (length ds) \<le> s_end s"
  shows "xrdp_sec_process_mcs_data_channels self s
     = Some (0, self\<lparr>mcs_layer := (mcs_layer self)\<lparr>channel_list := channel_items 0 ds\<rparr>\<rparr>)"
proof -
  have p: "pending s (enc32_le (int (length ds)))" "pending (in_uint8s s 4) (concat (map channel_def_bytes ds))"
    using s(1) by (simp_all add: pending_append)
  have "u32 (int (length ds)) = int (length ds)" "s32 (int (length ds)) = int (length ds)"
    using ds(2) by (simp_all add: c_int_simps)
  moreover have "channels_loop (length ds) 0 [] (in_uint8s s 4) = Some (0, channel_items 0 ds)"
    using channels_loop_parse [OF p(2), of 0 "[]"] ds(1) s(2) by simp
  ultimately show ?thesis
    using assms(1,2) s(2) ds(2)
    by (simp add: xrdp_sec_process_mcs_data_channels_def s_check_rem_def in_uint32_le_pending [OF p(1)] Let_def)
qed

subsection \<open>Monitors\<close>

definition in_s32 :: "int \<Rightarrow> bool" where
  "in_s32 v \<longleftrightarrow> -2147483648 \<le> v \<and> v < 2147483648"

definition within :: "int \<times> int \<times> int \<times> int \<Rightarrow> monitor_info \<Rightarrow> bool" where
  "within box m = (case box of (x1, y1, x2, y2) \<Rightarrow> x1 \<le> mi_left m \<and> y1 \<le> mi_top m \<and> mi_right m \<le> x2 \<and> mi_bottom m \<le> y2)"

definition box_ok :: "int \<times> int \<times> int \<times> int \<Rightarrow> bool" where
  "box_ok box = (case box of (x1, y1, x2, y2) \<Rightarrow> in_s32 x1 \<and> in_s32 y1 \<and> in_s32 x2 \<and> in_s32 y2)"

lemma box_add_ok:
  assumes "box_ok box" "in_s32 (mi_left m)" "in_s32 (mi_top m)" "in_s32 (mi_right m)" "in_s32 (mi_bottom m)"
  shows "box_ok (box_add i box m)" "within (box_add i box m) m" "i \<noteq> 0 \<Longrightarrow> within box m' \<Longrightarrow> within (box_add i box m) m'"
  using assms by (auto simp: box_ok_def box_add_def within_def in_s32_def split: prod.splits if_splits)

lemma read_monitor_s32:
  assumes "read_monitor s = Some (m, s')"
  shows "in_s32 (mi_left m)" "in_s32 (mi_top m)" "in_s32 (mi_right m)" "in_s32 (mi_bottom m)"
  using assms s32_range by (auto simp: read_monitor_def bind_eq_Some in_s32_def)

lemma monitors_loop_box:
  "monitors_loop n i minfo box g s = Some (minfo', box', g') \<Longrightarrow> 0 \<le> i \<Longrightarrow> box_ok box \<Longrightarrow>
     \<forall>m \<in> set (take (nat i) minfo). within box m \<Longrightarrow>
     box_ok box' \<and> (\<forall>m \<in> set (take (nat i + n) minfo'). within box' m) \<and> (n = 0 \<or> nat i + n \<le> length minfo)"
proof (induction n arbitrary: i minfo box g s)
  case (Suc n)
  obtain m s1 where m: "read_monitor s = Some (m, s1)" and len: "nat i < length minfo"
    and loop: "monitors_loop n (i + 1) (minfo[nat i := m]) (box_add i box m) (g \<or> mi_is_primary m \<noteq> 0) s1 = Some (minfo', box', g')"
    using Suc.prems(1) by (auto simp: bind_eq_Some split: if_splits)
  note b = box_add_ok [OF Suc.prems(3) read_monitor_s32 [OF m]]
  have "take (nat (i + 1)) (minfo[nat i := m]) = take (nat i) minfo @ [m]"
    using len Suc.prems(2) by (simp add: nat_add_distrib take_Suc_conv_app_nth)
  then have "\<forall>m' \<in> set (take (nat (i + 1)) (minfo[nat i := m])). within (box_add i box m) m'"
    using b Suc.prems(2,4) by (cases "i = 0") auto
  from Suc.IH [OF loop _ b(1) this] Suc.prems(2) len show ?case by (auto simp: nat_add_distrib)
qed simp

lemma monitors_loop_length: "monitors_loop n i minfo box g s = Some (minfo', box', g') \<Longrightarrow> length minfo' = length minfo"
proof (induction n arbitrary: i minfo box g s)
  case (Suc n)
  then obtain m s1 where "monitors_loop n (i + 1) (minfo[nat i := m]) (box_add i box m) (g \<or> mi_is_primary m \<noteq> 0) s1 = Some (minfo', box', g')"
    by (auto simp: bind_eq_Some split: if_splits)
  from Suc.IH [OF this] show ?case by simp
qed simp

lemma mark_primary_nth:
  "j < length ms \<Longrightarrow> mi_left (mark_primary n x y ms ! j) = mi_left (ms ! j) \<and> mi_top (mark_primary n x y ms ! j) = mi_top (ms ! j)
     \<and> mi_right (mark_primary n x y ms ! j) = mi_right (ms ! j) \<and> mi_bottom (mark_primary n x y ms ! j) = mi_bottom (ms ! j)"
  by (induction n x y ms arbitrary: j rule: mark_primary.induct) (auto simp: nth_Cons split: nat.splits)

lemma within_mark_primary:
  assumes "\<forall>m \<in> set (take k ms). within box m"
  shows "\<forall>m \<in> set (take k (mark_primary n x y ms)). within box m"
  using assms mark_primary_nth by (fastforce simp: set_conv_nth within_def split: prod.splits)

lemma box_extent:
  assumes "in_s32 a" "in_s32 b" "a < b" "200 \<le> s32 (b - a + 1)"
  shows "s32 (b - a + 1) = b - a + 1"
proof -
  have "b - a + 1 < 2147483648"
  proof (rule ccontr)
    assume "\<not> b - a + 1 < 2147483648"
    then have "s32 (b - a + 1) = b - a + 1 - 4294967296"
      using assms(1,2) minus_mod_self2 [of "b - a + 1 + 2147483648" 4294967296]
        mod_pos_pos_trivial [of "b - a + 1 - 2147483648" 4294967296]
      by (auto simp: s32_def in_s32_def)
    with assms show False by (simp add: in_s32_def)
  qed
  with assms(3) show ?thesis by (simp add: s32_id)
qed

lemma shift_monitor_extent:
  assumes "within (x1, y1, x2, y2) m" "mi_left m < mi_right m" "mi_top m < mi_bottom m"
    "x2 - x1 + 1 \<le> 32766" "y2 - y1 + 1 \<le> 32766"
  shows "0 \<le> mi_left (shift_monitor x1 y1 m)" "mi_left (shift_monitor x1 y1 m) < mi_right (shift_monitor x1 y1 m)"
    "mi_right (shift_monitor x1 y1 m) < x2 - x1 + 1" "0 \<le> mi_top (shift_monitor x1 y1 m)"
    "mi_top (shift_monitor x1 y1 m) < mi_bottom (shift_monitor x1 y1 m)" "mi_bottom (shift_monitor x1 y1 m) < y2 - y1 + 1"
  using assms by (simp_all add: shift_monitor_def within_def s32_id)

text \<open>What a successful run of the monitor handler computed.\<close>

lemma monitors_success:
  assumes "xrdp_sec_process_mcs_data_monitors self s = Some (0, self')" "ci_multimon (client_info self) = 1"
  obtains x1 y1 x2 y2 minfo0 minfo g s1 where
    "monitors_loop (nat (ci_monitorCount (client_info self'))) 0 (ci_minfo (client_info self)) (0, 0, 0, 0) False s1
       = Some (minfo0, (x1, y1, x2, y2), g)"
    "minfo = (if g then minfo0 else mark_primary (nat (ci_monitorCount (client_info self'))) x1 y1 minfo0)"
    "ci_monitorCount (client_info self') \<le> 16"
    "x2 > x1 \<and> y2 > y1 \<Longrightarrow> ci_width (client_info self') = s32 (x2 - x1 + 1) \<and> ci_height (client_info self') = s32 (y2 - y1 + 1)"
    "200 \<le> ci_width (client_info self')" "ci_width (client_info self') \<le> 32766"
    "200 \<le> ci_height (client_info self')" "ci_height (client_info self') \<le> 32766"
    "ci_minfo (client_info self') = minfo"
    "take (nat (ci_monitorCount (client_info self'))) (ci_minfo_wm (client_info self'))
       = take (nat (ci_monitorCount (client_info self'))) (map (shift_monitor x1 y1) (take (nat (ci_monitorCount (client_info self'))) minfo)
         @ drop (nat (ci_monitorCount (client_info self'))) (ci_minfo_wm (client_info self)))"
proof -
  from assms obtain f s0 v s1 minfo0 x1 y1 x2 y2 g where
    r: "in_uint32_le s = Some (f, s0)" "s32 f = 0" "in_uint32_le s0 = Some (v, s1)" "s32 v \<le> 16"
    "monitors_loop (nat (s32 v)) 0 (ci_minfo (client_info self)) (0, 0, 0, 0) False s1 = Some (minfo0, (x1, y1, x2, y2), g)"
    by (auto simp: xrdp_sec_process_mcs_data_monitors_def bind_eq_Some Let_def split: if_splits)
  show thesis
    by (rule that [of s1 minfo0 x1 y1 x2 y2 g])
      (use assms r in \<open>auto simp: xrdp_sec_process_mcs_data_monitors_def Let_def split: if_splits\<close>)
qed

subsection \<open>Key files\<close>

definition hex_digit :: "nat \<Rightarrow> char" where
  "hex_digit n = ''0123456789abcdef'' ! n"

definition hex_byte :: "byte \<Rightarrow> string" where
  "hex_byte b = [hex_digit (unat b div 16), hex_digit (unat b mod 16)]"

text \<open>A key as \<open>xrdp-keygen\<close> writes it: \<open>0xNN\<close> for every byte, separated by commas.\<close>

fun key_text :: "byte list \<Rightarrow> string" where
  "key_text [] = []"
| "key_text [b] = ''0x'' @ hex_byte b"
| "key_text (b # bs) = ''0x'' @ hex_byte b @ '','' @ key_text bs"

lemma hex_val_digits: "list_all (\<lambda>n. hex_val (hex_digit n) = int n) [0..<16]"
  by code_simp

lemma hex_val_digit: "n < 16 \<Longrightarrow> hex_val (hex_digit n) = int n"
  using hex_val_digits by (simp add: list_all_iff)

lemma htoi_digits:
  assumes "n < 256"
  shows "g_htoi [hex_digit (n div 16), hex_digit (n mod 16)] = int n"
proof -
  have "g_htoi [hex_digit (n div 16), hex_digit (n mod 16)] = concat_bit 4 (int (n mod 16)) (int (n div 16))"
    using assms by (simp add: g_htoi_def hex_val_digit concat_bit_def take_bit_eq_mod)
  also have "\<dots> = int n"
    by (simp add: concat_bit_eq take_bit_eq_mod push_bit_eq_mult zmod_int zdiv_int)
  finally show ?thesis .
qed

lemma hex_digit_not_x: "list_all (\<lambda>n. hex_digit n \<noteq> CHR ''x'') [0..<16]"
  by code_simp

lemma g_htoi_hex_byte: "g_htoi (hex_byte b) = uint b"
proof -
  have "unat b < 256" using unsigned_less [of b] by simp
  then have "g_htoi (hex_byte b) = int (unat b)"
    unfolding hex_byte_def by (rule htoi_digits)
  then show ?thesis by simp
qed

lemma hex_byte_cases:
  obtains c d where "hex_byte b = [c, d]" "c \<noteq> CHR ''x''" "d \<noteq> CHR ''x''" "word_of_int (g_htoi [c, d]) = b"
proof -
  have "unat b < 256" using unsigned_less [of b] by simp
  then have "unat b div 16 < 16" "unat b mod 16 < 16" by auto
  with hex_digit_not_x g_htoi_hex_byte [of b] that show thesis by (auto simp: hex_byte_def list_all_iff)
qed

lemma hex_scan_key:
  "bs \<noteq> [] \<Longrightarrow> i + length bs \<le> n \<Longrightarrow> n \<le> length out \<Longrightarrow>
     hex_scan (key_text bs) i out n = Some (take i out @ bs @ drop (i + length bs) out)"
proof (induction bs arbitrary: i out)
  case (Cons b bs)
  obtain c d where b: "hex_byte b = [c, d]" "c \<noteq> CHR ''x''" "d \<noteq> CHR ''x''" "word_of_int (g_htoi [c, d]) = b"
    by (rule hex_byte_cases)
  show ?case
  proof (cases bs)
    case Nil
    with b Cons.prems show ?thesis by (simp add: upd_conv_take_nth_drop)
  next
    case bs: (Cons b' bs')
    have k: "\<exists>e f r. key_text bs = CHR ''0'' # CHR ''x'' # e # f # r"
      unfolding bs by (cases bs') (auto simp: hex_byte_def)
    have "hex_scan (key_text (b # bs)) i out n = hex_scan (key_text bs) (Suc i) (out[i := b]) n"
      using Cons.prems b k bs by auto
    also have "\<dots> = Some (take (Suc i) (out[i := b]) @ bs @ drop (Suc i + length bs) (out[i := b]))"
      using bs Cons.prems by (intro Cons.IH) auto
    also have "\<dots> = Some (take i out @ (b # bs) @ drop (i + length (b # bs)) out)"
      using Cons.prems by (simp add: take_Suc_conv_app_nth)
    finally show ?thesis .
  qed
qed simp

lemma key_text_length: "bs \<noteq> [] \<Longrightarrow> length (key_text bs) + 1 = 5 * length bs"
proof (induction bs)
  case (Cons b bs)
  then show ?case by (cases bs) (auto simp: hex_byte_def)
qed simp

lemma hex_str_to_bin_key:
  assumes "bs \<noteq> []" "length bs \<le> length out"
  shows "hex_str_to_bin (key_text bs) out (length bs) = Some (bs @ drop (length bs) out)"
  using hex_scan_key [OF assms(1), of 0 "length bs" out] assms(2) by (simp add: hex_str_to_bin_def)

lemma key_text_count: "bs \<noteq> [] \<Longrightarrow> (int (length (key_text bs)) + 1) div 5 = int (length bs)"
  using key_text_length [of bs] by linarith

lemma item_names:
  "strcaseeq ''pub_exp'' ''pub_exp''" "\<not> strcaseeq ''pub_mod'' ''pub_exp''" "strcaseeq ''pub_mod'' ''pub_mod''"
  "\<not> strcaseeq ''pub_sig'' ''pub_exp''" "\<not> strcaseeq ''pub_sig'' ''pub_mod''" "strcaseeq ''pub_sig'' ''pub_sig''"
  "\<not> strcaseeq ''pri_exp'' ''pub_exp''" "\<not> strcaseeq ''pri_exp'' ''pub_mod''" "\<not> strcaseeq ''pri_exp'' ''pub_sig''"
  "strcaseeq ''pri_exp'' ''pri_exp''"
  by code_simp+

subsection \<open>The security level\<close>

text \<open>The method that belongs to the level.\<close>

definition crypt_pair :: "xrdp_sec \<Rightarrow> bool" where
  "crypt_pair self \<longleftrightarrow> (crypt_method self, crypt_level self) \<in> {(CRYPT_METHOD_NONE, CRYPT_LEVEL_NONE),
     (CRYPT_METHOD_40BIT, CRYPT_LEVEL_LOW), (CRYPT_METHOD_40BIT, CRYPT_LEVEL_CLIENT_COMPATIBLE),
     (CRYPT_METHOD_128BIT, CRYPT_LEVEL_HIGH), (CRYPT_METHOD_FIPS, CRYPT_LEVEL_FIPS)}"

lemma crypt_try_kept:
  assumes "crypt_try self c f m l = (f', self')" "crypt_pair self"
    "(m, l) \<in> {(CRYPT_METHOD_40BIT, CRYPT_LEVEL_LOW), (CRYPT_METHOD_40BIT, CRYPT_LEVEL_CLIENT_COMPATIBLE),
       (CRYPT_METHOD_128BIT, CRYPT_LEVEL_HIGH), (CRYPT_METHOD_FIPS, CRYPT_LEVEL_FIPS)}"
  shows "crypt_method self' = crypt_method self \<and> crypt_level self' = crypt_level self \<and> crypt_pair self'"
proof (cases "crypt_level self = l")
  case True
  with assms(2,3) have "crypt_method self = m" unfolding crypt_pair_def by (elim insertE) simp_all
  with True assms(1,2) show ?thesis by (auto simp: crypt_try_def crypt_pair_def split: if_splits)
next
  case False
  with assms(1,2) show ?thesis by (simp add: crypt_try_def)
qed

subsection \<open>A fresh security layer\<close>

definition sec_link :: "rx_event list \<Rightarrow> tx_event list \<Rightarrow> xrdp_sec" where
  "sec_link rx tx = \<lparr>mcs_layer = mcs_link rx tx,
     client_info = \<lparr>ci_width = 0, ci_height = 0, ci_bpp = 0, ci_max_bpp = 24, ci_mcs_early_capability_flags = 0,
       ci_mcs_connection_type = 0, ci_channels_allowed = 1, ci_multimon = 1, ci_monitorCount = 0,
       ci_minfo = replicate 16 \<lparr>mi_left = 0, mi_top = 0, mi_right = 0, mi_bottom = 0, mi_is_primary = 0\<rparr>,
       ci_minfo_wm = replicate 16 \<lparr>mi_left = 0, mi_top = 0, mi_right = 0, mi_bottom = 0, mi_is_primary = 0\<rparr>,
       ci_crypt_level = 3, ci_hostname = [], ci_build = 0, ci_keylayout = 0, ci_keyboard_type = 0, ci_keyboard_subtype = 0\<rparr>,
     crypt_method = 0, crypt_level = 0, rsa_key_bytes = 0, server_random = replicate 32 0, pub_exp = replicate 4 0,
     pub_mod = replicate 256 0, pub_sig = replicate 64 0, pri_exp = replicate 256 0\<rparr>"

lemma sec_link_sel [simp]:
  "mcs_layer (sec_link rx tx) = mcs_link rx tx" "ci_channels_allowed (client_info (sec_link rx tx)) = 1"
  "length (ci_minfo (client_info (sec_link rx tx))) = 16" "ci_crypt_level (client_info (sec_link rx tx)) = 3"
  "ci_multimon (client_info (sec_link rx tx)) = 1"
  by (simp_all add: sec_link_def)

subsection \<open>The properties\<close>



text \<open>A channel definition with an empty name is skipped but still counted when identifiers are assigned: the
  channel behind it is registered under one identifier and announced under another.\<close>

theorem skipped_channel_shifts_ids:
  assumes "ci_channels_allowed (client_info self) \<noteq> 0" "channel_list (mcs_layer self) = []"
    and "length a = 8" "hd a = 0" "length b = 8" "hd b \<noteq> 0"
    and "pending s (enc32_le 2 @ channel_def_bytes (a, f) @ channel_def_bytes (b, g))" "s_p s + 28 \<le> s_end s"
    and "room out 12"
  shows "\<exists>self'. xrdp_sec_process_mcs_data_channels self s = Some (0, self')
     \<and> map ch_chanid (channel_list (mcs_layer self')) = [1005]
     \<and> gcc_channels self' out = Some (emit out (channel_block [1004, 0] 1))"
proof -
  let ?self = "self\<lparr>mcs_layer := (mcs_layer self)\<lparr>channel_list := channel_items 0 [(a, f), (b, g)]\<rparr>\<rparr>"
  have "xrdp_sec_process_mcs_data_channels self s = Some (0, ?self)"
    using assms channels_parse [of self "[(a, f), (b, g)]" s] by simp
  moreover have "gcc_channels ?self out = Some (emit out (channel_block [1004, 0] 1))"
    using assms(4,6,9) gcc_channels_emit [where self = ?self and s = out] by (simp add: even_count_def numeral_2_eq_2)
  ultimately show ?thesis using assms(4,6) by simp
qed

theorem skipped_channel_shifts_ids_witness:
  "\<exists>self'. xrdp_sec_process_mcs_data_channels (sec_link [] [])
        ((stream_of (enc32_le 2 @ channel_def_bytes (replicate 8 0, 0) @ channel_def_bytes (replicate 8 65, 0)))\<lparr>s_p := 0\<rparr>) = Some (0, self')
     \<and> map ch_chanid (channel_list (mcs_layer self')) = [1005]"
proof -
  let ?bs = "enc32_le 2 @ channel_def_bytes (replicate 8 0, 0) @ channel_def_bytes (replicate 8 65, 0)"
  let ?s = "(stream_of ?bs)\<lparr>s_p := 0\<rparr>"
  have "stream_bytes ?s = Some (?bs @ [])" by (simp add: stream_bytes_of)
  then have p: "pending ?s ?bs" "s_p ?s + 28 \<le> s_end ?s"
    using pending_stream_bytes [of ?s ?bs "[]"] stream_bytesD [of ?s "?bs"] by (simp_all add: channel_def_bytes_def)
  have "room (init_stream make_stream 64) 12"
    by (simp add: room_def init_stream_def make_stream_def)
  from skipped_channel_shifts_ids [OF _ _ _ _ _ _ p this, of "sec_link [] []"] show ?thesis by auto
qed

text \<open>C25. An accepted monitor layout: if the client's monitors are proper rectangles, the copy kept for the window manager
  has non-negative coordinates, every monitor of it lies inside the desktop, and the desktop measures at most 32766 in both
  directions; no 32-bit wrap-around can slip an oversized layout through.\<close>

theorem monitors_inside_desktop:
  assumes "xrdp_sec_process_mcs_data_monitors self s = Some (0, self')" "ci_multimon (client_info self) = 1"
    and "0 < n" "n = nat (ci_monitorCount (client_info self'))"
    and "\<forall>m \<in> set (take n (ci_minfo (client_info self'))). mi_left m < mi_right m \<and> mi_top m < mi_bottom m"
    and "length (ci_minfo (client_info self)) = 16"
  shows "n \<le> 16 \<and> ci_width (client_info self') \<le> 32766 \<and> ci_height (client_info self') \<le> 32766
     \<and> (\<forall>m \<in> set (take n (ci_minfo_wm (client_info self'))).
          0 \<le> mi_left m \<and> mi_left m < mi_right m \<and> mi_right m < ci_width (client_info self')
          \<and> 0 \<le> mi_top m \<and> mi_top m < mi_bottom m \<and> mi_bottom m < ci_height (client_info self'))"
proof -
  obtain x1 y1 x2 y2 minfo0 minfo g s1 where
    loop: "monitors_loop n 0 (ci_minfo (client_info self)) (0, 0, 0, 0) False s1 = Some (minfo0, (x1, y1, x2, y2), g)"
    and minfo: "minfo = (if g then minfo0 else mark_primary n x1 y1 minfo0)"
    and size: "x2 > x1 \<and> y2 > y1 \<Longrightarrow> ci_width (client_info self') = s32 (x2 - x1 + 1) \<and> ci_height (client_info self') = s32 (y2 - y1 + 1)"
    and ok: "ci_monitorCount (client_info self') \<le> 16" "200 \<le> ci_width (client_info self')" "ci_width (client_info self') \<le> 32766"
      "200 \<le> ci_height (client_info self')" "ci_height (client_info self') \<le> 32766" "ci_minfo (client_info self') = minfo"
    and wm: "take n (ci_minfo_wm (client_info self'))
      = take n (map (shift_monitor x1 y1) (take n minfo) @ drop n (ci_minfo_wm (client_info self)))"
    using monitors_success [OF assms(1,2)] unfolding assms(4) [symmetric] by metis
  have box: "box_ok (x1, y1, x2, y2)" "\<forall>m \<in> set (take n minfo0). within (x1, y1, x2, y2) m" "n \<le> 16"
    using monitors_loop_box [OF loop] assms(3,6) by (auto simp: box_ok_def in_s32_def)
  then have inside: "\<forall>m \<in> set (take n minfo). within (x1, y1, x2, y2) m"
    using within_mark_primary by (auto simp: minfo)
  have len: "length minfo = 16"
    using monitors_loop_length [OF loop] assms(6) by (simp add: minfo)
  from len assms(3) have "take n minfo \<noteq> []" by auto
  then obtain m where m: "m \<in> set (take n minfo)" by (meson list.set_sel(1))
  with inside assms(5) ok(6) have lt: "x1 < x2" "y1 < y2" by (fastforce simp: within_def)+
  with size ok box_extent [of x1 x2] box_extent [of y1 y2] box(1)
  have wh: "ci_width (client_info self') = x2 - x1 + 1" "ci_height (client_info self') = y2 - y1 + 1"
    by (auto simp: box_ok_def)
  have "take n (ci_minfo_wm (client_info self')) = map (shift_monitor x1 y1) (take n minfo)"
    using wm len box(3) by simp
  with inside assms(5) ok wh shift_monitor_extent [of x1 y1 x2 y2] box(3) show ?thesis by auto
qed

text \<open>One monitor at (-1920, 0) .. (-1, 1079).\<close>

definition demo_monitors :: stream where
  "demo_monitors = (stream_of [0, 0, 0, 0, 1, 0, 0, 0, 128, 248, 255, 255, 0, 0, 0, 0, 255, 255, 255, 255, 55, 4, 0, 0, 0, 0, 0, 0])\<lparr>s_p := 0\<rparr>"

lemma demo_monitors_run:
  "map_option (\<lambda>(r, self'). (r, ci_monitorCount (client_info self'),
       map (\<lambda>m. (mi_left m, mi_top m, mi_right m, mi_bottom m)) (take 1 (ci_minfo (client_info self')))))
     (xrdp_sec_process_mcs_data_monitors (sec_link [] []) demo_monitors)
   = Some (0, 1, [(-1920, 0, -1, 1079)])"
  by code_simp

theorem monitors_inside_desktop_witness:
  "\<exists>self'. xrdp_sec_process_mcs_data_monitors (sec_link [] []) demo_monitors = Some (0, self')
     \<and> (\<forall>m \<in> set (take 1 (ci_minfo_wm (client_info self'))). 0 \<le> mi_left m \<and> mi_right m < ci_width (client_info self'))"
proof -
  obtain self' where r: "xrdp_sec_process_mcs_data_monitors (sec_link [] []) demo_monitors = Some (0, self')"
    "ci_monitorCount (client_info self') = 1"
    and m: "map (\<lambda>m. (mi_left m, mi_top m, mi_right m, mi_bottom m)) (take 1 (ci_minfo (client_info self'))) = [(-1920, 0, -1, 1079)]"
    using demo_monitors_run by auto
  from m have "\<forall>x \<in> set (take 1 (ci_minfo (client_info self'))). mi_left x < mi_right x \<and> mi_top x < mi_bottom x" by auto
  with monitors_inside_desktop [OF r(1), of 1] r show ?thesis by auto
qed

text \<open>The server's keys round trip: exponent, modulus (64 or 256 bytes), signature and private exponent written as
  text by \<open>xrdp-keygen\<close> are loaded back into the arrays byte for byte, the key size is the modulus length, and no store
  leaves an array.\<close>

theorem key_file_roundtrip:
  assumes "length e = 4" "length g = 64" "length m = n" "length d = n" "n \<in> {64, 256}"
    and "length (pub_exp self) = 4" "length (pub_mod self) = 256" "length (pub_sig self) = 64" "length (pri_exp self) = 256"
  shows "\<exists>self'. load_keys [(''pub_exp'', key_text e), (''pub_mod'', key_text m), (''pub_sig'', key_text g), (''pri_exp'', key_text d)] self
       = Some self'
     \<and> pub_exp self' = e \<and> take n (pub_mod self') = m \<and> pub_sig self' = g \<and> take n (pri_exp self') = d
     \<and> rsa_key_bytes self' = int n"
proof -
  have ne: "e \<noteq> []" "g \<noteq> []" "m \<noteq> []" "d \<noteq> []" using assms by auto
  have "hex_str_to_bin (key_text e) (pub_exp self) 4 = Some e" "hex_str_to_bin (key_text g) (pub_sig self) 64 = Some g"
    "hex_str_to_bin (key_text m) (pub_mod self) n = Some (m @ drop n (pub_mod self))"
    "hex_str_to_bin (key_text d) (pri_exp self) n = Some (d @ drop n (pri_exp self))"
    using hex_str_to_bin_key [OF ne(1), of "pub_exp self"] hex_str_to_bin_key [OF ne(2), of "pub_sig self"]
      hex_str_to_bin_key [OF ne(3), of "pub_mod self"] hex_str_to_bin_key [OF ne(4), of "pri_exp self"] assms by auto
  with assms(3,4) show ?thesis
    by (simp add: load_key_def item_names Let_def key_text_count [OF ne(3)] key_text_count [OF ne(4)])
qed

theorem key_file_roundtrip_witness:
  "\<exists>self'. load_keys [(''pub_exp'', key_text [1, 0, 1, 0]), (''pub_mod'', key_text (replicate 64 171)),
       (''pub_sig'', key_text (replicate 64 205)), (''pri_exp'', key_text (replicate 64 239))] (sec_link [] []) = Some self'
     \<and> pub_exp self' = [1, 0, 1, 0] \<and> rsa_key_bytes self' = 64"
proof -
  have "length (pub_exp (sec_link [] [])) = 4" "length (pub_mod (sec_link [] [])) = 256" "length (pub_sig (sec_link [] [])) = 64"
    "length (pri_exp (sec_link [] [])) = 256" by (simp_all add: sec_link_def)
  from key_file_roundtrip [OF _ _ _ _ _ this, of "[1, 0, 1, 0]" "replicate 64 205" "replicate 64 171" 64 "replicate 64 239"]
  show ?thesis by auto
qed

text \<open>The client's security block cannot change the server's choice: after \<open>xrdp_sec_init_rdp_security\<close> has set one of the
  five configured levels, method and level are the same whatever the client proposes (and a proposal without the server's
  method is accepted, too).\<close>

theorem security_level_kept:
  assumes "xrdp_sec_init_rdp_security self0 = (0, self)" "ci_crypt_level (client_info self0) \<in> {0, 1, 2, 3, 4}"
    and "in_ok s" "s_check_rem s 4"
  shows "\<exists>self'. xrdp_sec_process_mcs_data_CS_SECURITY self s = Some (0, self')
     \<and> crypt_method self' = crypt_method self \<and> crypt_level self' = crypt_level self"
proof -
  from assms(1,2) have pair: "crypt_pair self" by (auto simp: xrdp_sec_init_rdp_security_def Let_def crypt_pair_def)
  let ?c = "s32 (b8 s (s_p s) + 256 * b8 s (s_p s + 1) + 65536 * b8 s (s_p s + 2) + 16777216 * b8 s (s_p s + 3))"
  obtain f1 x1 where 1: "crypt_try self ?c False CRYPT_METHOD_FIPS CRYPT_LEVEL_FIPS = (f1, x1)" by fastforce
  obtain f2 x2 where 2: "crypt_try x1 ?c f1 CRYPT_METHOD_128BIT CRYPT_LEVEL_HIGH = (f2, x2)" by fastforce
  obtain f3 x3 where 3: "crypt_try x2 ?c f2 CRYPT_METHOD_40BIT CRYPT_LEVEL_CLIENT_COMPATIBLE = (f3, x3)" by fastforce
  obtain f4 x4 where 4: "crypt_try x3 ?c f3 CRYPT_METHOD_40BIT CRYPT_LEVEL_LOW = (f4, x4)" by fastforce
  note kept = crypt_try_kept [OF 4] crypt_try_kept [OF 3] crypt_try_kept [OF 2] crypt_try_kept [OF 1] pair
  have "crypt_method x4 = crypt_method self \<and> crypt_level x4 = crypt_level self \<and> crypt_pair x4"
    using kept by simp
  then show ?thesis
    using assms(3,4) by (auto simp: xrdp_sec_process_mcs_data_CS_SECURITY_def s_check_rem_def in_uint32_le_ok 1 2 3 4 crypt_pair_def)
qed

theorem security_level_kept_witness:
  "\<exists>self'. xrdp_sec_process_mcs_data_CS_SECURITY (snd (xrdp_sec_init_rdp_security (sec_link [] []))) ((stream_of [1, 0, 0, 0])\<lparr>s_p := 0\<rparr>)
       = Some (0, self')
     \<and> crypt_method self' = CRYPT_METHOD_128BIT"
proof -
  let ?s = "(stream_of [1, 0, 0, 0])\<lparr>s_p := 0\<rparr>"
  have "stream_bytes ?s = Some [1, 0, 0, 0]" by (simp add: stream_bytes_of)
  from stream_bytes_in_ok [OF this] have s: "in_ok ?s" "s_check_rem ?s 4" by (auto simp: s_check_rem_def)
  obtain self where i: "xrdp_sec_init_rdp_security (sec_link [] []) = (0, self)" by (auto simp: xrdp_sec_init_rdp_security_def Let_def)
  then have "crypt_method self = CRYPT_METHOD_128BIT" by (auto simp: xrdp_sec_init_rdp_security_def Let_def)
  with security_level_kept [OF i _ s] i show ?thesis by auto
qed

text \<open>C9. Processing the client's settings never reads outside the received data and never faults when the core, security
  and monitor blocks are as long as their handlers assume (\<open>gcc_fits\<close>); the security level is not touched, and a failure is
  reported as 1.\<close>

theorem gcc_data_safe:
  assumes "client_data_ok (client_mcs_data (mcs_layer self))" "gcc_fits (client_mcs_data (mcs_layer self))"
    "length (ci_minfo (client_info self)) = 16"
  shows "wp (xrdp_sec_process_mcs_data w self) (\<lambda>(r, self'). (r = 0 \<or> r = 1) \<and> crypt_level self' = crypt_level self
     \<and> iso_layer (mcs_layer self') = iso_layer (mcs_layer self))"
  by (rule wp_mono [OF process_mcs_data_safe [OF assms]]) auto

theorem gcc_data_safe_witness:
  "wp (xrdp_sec_process_mcs_data (\<lambda>_. None)
       ((sec_link [] [])\<lparr>mcs_layer := (mcs_link [] [])\<lparr>client_mcs_data := stream_of (replicate 23 0 @ [2, 0xC0, 8, 0, 3, 0, 0, 0])\<rparr>\<rparr>))
     (\<lambda>(r, self'). r = 0 \<or> r = 1)"
proof -
  let ?d = "stream_of (replicate 23 0 @ [2, 0xC0, 8, 0, 3, 0, 0, 0])"
  let ?c = "(sec_link [] [])\<lparr>mcs_layer := (mcs_link [] [])\<lparr>client_mcs_data := ?d\<rparr>\<rparr>"
  have "gcc_fits ?d" by code_simp
  moreover have "client_data_ok ?d"
    using stream_bytes_in_ok [OF stream_bytes_of, of "replicate 23 0 @ [2, 0xC0, 8, 0, 3, 0, 0, 0]"]
    by (simp add: client_data_ok_def stream_of_def s_mark_end_def emit_def init_stream_def make_stream_def)
  ultimately have "wp (xrdp_sec_process_mcs_data (\<lambda>_. None) ?c) (\<lambda>(r, self'). (r = 0 \<or> r = 1) \<and> crypt_level self' = crypt_level ?c
     \<and> iso_layer (mcs_layer self') = iso_layer (mcs_layer ?c))"
    by (intro gcc_data_safe) simp_all
  then show ?thesis by (rule wp_mono) auto
qed

text \<open>The block handlers do not check the sizes they assume: a core block of four bytes, accepted by the block loop, makes
  the core handler read beyond the received data.\<close>

theorem short_core_block_overreads:
  assumes "client_mcs_data (mcs_layer self) = stream_of (replicate 23 0 @ enc16_le SEC_TAG_CLI_INFO @ enc16_le 4)"
  shows "xrdp_sec_process_mcs_data w self = None"
proof -
  let ?bs = "replicate 23 0 @ enc16_le SEC_TAG_CLI_INFO @ enc16_le 4"
  let ?s = "(stream_of ?bs)\<lparr>s_p := 0\<rparr>"
  have sz: "s_end (stream_of ?bs) = 27" "s_size (stream_of ?bs) = 27"
    by (simp_all add: stream_of_def s_mark_end_def emit_def init_stream_def make_stream_def)
  have "pending ?s ?bs"
    using pending_stream_bytes [of ?s ?bs "[]"] stream_bytes_of [of ?bs] by simp
  then have p: "pending (in_uint8s ?s 23) (enc16_le SEC_TAG_CLI_INFO)" "pending (in_uint8s ?s 25) (enc16_le 4)"
    by (simp_all add: pending_append)
  have "process_mcs_blocks w self (in_uint8s ?s 23) = None"
    by (subst process_mcs_blocks.simps)
      (simp add: sz s_check_rem_def in_uint16_le_pending [OF p(1)] in_uint16_le_pending [OF p(2)] u16_def process_mcs_block_def
        xrdp_sec_process_mcs_data_CS_CORE_def Let_def, simp add: in_uint16_le_def rd8_def sz)
  then show ?thesis by (simp add: xrdp_sec_process_mcs_data_def assms s_check_rem_def sz Let_def)
qed

theorem short_core_block_overreads_witness:
  "xrdp_sec_process_mcs_data (\<lambda>_. None)
     ((sec_link [] [])\<lparr>mcs_layer := (mcs_link [] [])\<lparr>client_mcs_data := stream_of (replicate 23 0 @ enc16_le SEC_TAG_CLI_INFO @ enc16_le 4)\<rparr>\<rparr>) = None"
  by (rule short_core_block_overreads) simp

end
