(* ===== verification/Sec_Crypt.thy ===== *)
theory Sec_Crypt
  imports Gcc_Laws
begin

text \<open>
  Encryption and signing of \<open>xrdp_sec.c\<close>: the session keys, their derivation and update, and the
  two ciphers. The primitives of OpenSSL (SHA-1, MD5, HMAC, RC4, triple DES, modular exponentiation)
  are the fields of the record \<open>crypto\<close>, an argument of everything that uses them; what is relied on
  is \<open>crypto_ok\<close>. The theory shows that two sides with the same keys stay in step over any number
  of messages, through every key update.
\<close>

subsection \<open>The primitives\<close>

text \<open>\<open>'k\<close> is the type of a cipher context. A hash is a function of the bytes given to all its
  \<open>transform\<close> calls, in order.\<close>

record 'k crypto =
  sha1 :: "byte list \<Rightarrow> byte list"
  md5 :: "byte list \<Rightarrow> byte list"
  hmac_sha1 :: "byte list \<Rightarrow> byte list \<Rightarrow> byte list"
  rc4_set_key :: "byte list \<Rightarrow> 'k"
  rc4_crypt :: "'k \<Rightarrow> byte list \<Rightarrow> byte list \<times> 'k"
  des3_encrypt_create :: "byte list \<Rightarrow> byte list \<Rightarrow> 'k"
  des3_decrypt_create :: "byte list \<Rightarrow> byte list \<Rightarrow> 'k"
  des3_encrypt :: "'k \<Rightarrow> byte list \<Rightarrow> byte list \<times> 'k"
  des3_decrypt :: "'k \<Rightarrow> byte list \<Rightarrow> byte list \<times> 'k"
  mod_exp :: "nat \<Rightarrow> byte list \<Rightarrow> byte list \<Rightarrow> byte list \<Rightarrow> byte list"

text \<open>What the library documents: the sizes of the digests, that RC4 applied twice from the same
  context gives the text back and keeps both contexts equal, that triple DES in CBC mode decrypts what
  was encrypted from corresponding contexts when the length is a multiple of 8, and that a cipher
  keeps the length.\<close>

definition crypto_ok :: "'k crypto \<Rightarrow> ('k \<Rightarrow> 'k \<Rightarrow> bool) \<Rightarrow> bool" where
  "crypto_ok cr dual \<longleftrightarrow>
     (\<forall>x. length (sha1 cr x) = 20) \<and> (\<forall>x. length (md5 cr x) = 16) \<and> (\<forall>k x. length (hmac_sha1 cr k x) = 20)
     \<and> (\<forall>k x. length (fst (rc4_crypt cr k x)) = length x)
     \<and> (\<forall>k x. rc4_crypt cr k (fst (rc4_crypt cr k x)) = (x, snd (rc4_crypt cr k x)))
     \<and> (\<forall>key iv. dual (des3_encrypt_create cr key iv) (des3_decrypt_create cr key iv))
     \<and> (\<forall>k x. length (fst (des3_encrypt cr k x)) = length x) \<and> (\<forall>k x. length (fst (des3_decrypt cr k x)) = length x)
     \<and> (\<forall>k l x. dual k l \<longrightarrow> 8 dvd length x \<longrightarrow> fst (des3_decrypt cr l (fst (des3_encrypt cr k x))) = x
          \<and> dual (snd (des3_encrypt cr k x)) (snd (des3_decrypt cr l (fst (des3_encrypt cr k x)))))"

subsection \<open>The keys\<close>

definition g_pad_54 :: "byte list" where
  "g_pad_54 = replicate 40 54"

definition g_pad_92 :: "byte list" where
  "g_pad_92 = replicate 48 92"

definition g_fips_reverse_table :: "byte list" where
  "g_fips_reverse_table = [
    0x00, 0x80, 0x40, 0xc0, 0x20, 0xa0, 0x60, 0xe0, 0x10, 0x90, 0x50, 0xd0, 0x30, 0xb0, 0x70, 0xf0,
    0x08, 0x88, 0x48, 0xc8, 0x28, 0xa8, 0x68, 0xe8, 0x18, 0x98, 0x58, 0xd8, 0x38, 0xb8, 0x78, 0xf8,
    0x04, 0x84, 0x44, 0xc4, 0x24, 0xa4, 0x64, 0xe4, 0x14, 0x94, 0x54, 0xd4, 0x34, 0xb4, 0x74, 0xf4,
    0x0c, 0x8c, 0x4c, 0xcc, 0x2c, 0xac, 0x6c, 0xec, 0x1c, 0x9c, 0x5c, 0xdc, 0x3c, 0xbc, 0x7c, 0xfc,
    0x02, 0x82, 0x42, 0xc2, 0x22, 0xa2, 0x62, 0xe2, 0x12, 0x92, 0x52, 0xd2, 0x32, 0xb2, 0x72, 0xf2,
    0x0a, 0x8a, 0x4a, 0xca, 0x2a, 0xaa, 0x6a, 0xea, 0x1a, 0x9a, 0x5a, 0xda, 0x3a, 0xba, 0x7a, 0xfa,
    0x06, 0x86, 0x46, 0xc6, 0x26, 0xa6, 0x66, 0xe6, 0x16, 0x96, 0x56, 0xd6, 0x36, 0xb6, 0x76, 0xf6,
    0x0e, 0x8e, 0x4e, 0xce, 0x2e, 0xae, 0x6e, 0xee, 0x1e, 0x9e, 0x5e, 0xde, 0x3e, 0xbe, 0x7e, 0xfe,
    0x01, 0x81, 0x41, 0xc1, 0x21, 0xa1, 0x61, 0xe1, 0x11, 0x91, 0x51, 0xd1, 0x31, 0xb1, 0x71, 0xf1,
    0x09, 0x89, 0x49, 0xc9, 0x29, 0xa9, 0x69, 0xe9, 0x19, 0x99, 0x59, 0xd9, 0x39, 0xb9, 0x79, 0xf9,
    0x05, 0x85, 0x45, 0xc5, 0x25, 0xa5, 0x65, 0xe5, 0x15, 0x95, 0x55, 0xd5, 0x35, 0xb5, 0x75, 0xf5,
    0x0d, 0x8d, 0x4d, 0xcd, 0x2d, 0xad, 0x6d, 0xed, 0x1d, 0x9d, 0x5d, 0xdd, 0x3d, 0xbd, 0x7d, 0xfd,
    0x03, 0x83, 0x43, 0xc3, 0x23, 0xa3, 0x63, 0xe3, 0x13, 0x93, 0x53, 0xd3, 0x33, 0xb3, 0x73, 0xf3,
    0x0b, 0x8b, 0x4b, 0xcb, 0x2b, 0xab, 0x6b, 0xeb, 0x1b, 0x9b, 0x5b, 0xdb, 0x3b, 0xbb, 0x7b, 0xfb,
    0x07, 0x87, 0x47, 0xc7, 0x27, 0xa7, 0x67, 0xe7, 0x17, 0x97, 0x57, 0xd7, 0x37, 0xb7, 0x77, 0xf7,
    0x0f, 0x8f, 0x4f, 0xcf, 0x2f, 0xaf, 0x6f, 0xef, 0x1f, 0x9f, 0x5f, 0xdf, 0x3f, 0xbf, 0x7f, 0xff]"

definition g_fips_oddparity_table :: "byte list" where
  "g_fips_oddparity_table = [
    0x01, 0x01, 0x02, 0x02, 0x04, 0x04, 0x07, 0x07, 0x08, 0x08, 0x0b, 0x0b, 0x0d, 0x0d, 0x0e, 0x0e,
    0x10, 0x10, 0x13, 0x13, 0x15, 0x15, 0x16, 0x16, 0x19, 0x19, 0x1a, 0x1a, 0x1c, 0x1c, 0x1f, 0x1f,
    0x20, 0x20, 0x23, 0x23, 0x25, 0x25, 0x26, 0x26, 0x29, 0x29, 0x2a, 0x2a, 0x2c, 0x2c, 0x2f, 0x2f,
    0x31, 0x31, 0x32, 0x32, 0x34, 0x34, 0x37, 0x37, 0x38, 0x38, 0x3b, 0x3b, 0x3d, 0x3d, 0x3e, 0x3e,
    0x40, 0x40, 0x43, 0x43, 0x45, 0x45, 0x46, 0x46, 0x49, 0x49, 0x4a, 0x4a, 0x4c, 0x4c, 0x4f, 0x4f,
    0x51, 0x51, 0x52, 0x52, 0x54, 0x54, 0x57, 0x57, 0x58, 0x58, 0x5b, 0x5b, 0x5d, 0x5d, 0x5e, 0x5e,
    0x61, 0x61, 0x62, 0x62, 0x64, 0x64, 0x67, 0x67, 0x68, 0x68, 0x6b, 0x6b, 0x6d, 0x6d, 0x6e, 0x6e,
    0x70, 0x70, 0x73, 0x73, 0x75, 0x75, 0x76, 0x76, 0x79, 0x79, 0x7a, 0x7a, 0x7c, 0x7c, 0x7f, 0x7f,
    0x80, 0x80, 0x83, 0x83, 0x85, 0x85, 0x86, 0x86, 0x89, 0x89, 0x8a, 0x8a, 0x8c, 0x8c, 0x8f, 0x8f,
    0x91, 0x91, 0x92, 0x92, 0x94, 0x94, 0x97, 0x97, 0x98, 0x98, 0x9b, 0x9b, 0x9d, 0x9d, 0x9e, 0x9e,
    0xa1, 0xa1, 0xa2, 0xa2, 0xa4, 0xa4, 0xa7, 0xa7, 0xa8, 0xa8, 0xab, 0xab, 0xad, 0xad, 0xae, 0xae,
    0xb0, 0xb0, 0xb3, 0xb3, 0xb5, 0xb5, 0xb6, 0xb6, 0xb9, 0xb9, 0xba, 0xba, 0xbc, 0xbc, 0xbf, 0xbf,
    0xc1, 0xc1, 0xc2, 0xc2, 0xc4, 0xc4, 0xc7, 0xc7, 0xc8, 0xc8, 0xcb, 0xcb, 0xcd, 0xcd, 0xce, 0xce,
    0xd0, 0xd0, 0xd3, 0xd3, 0xd5, 0xd5, 0xd6, 0xd6, 0xd9, 0xd9, 0xda, 0xda, 0xdc, 0xdc, 0xdf, 0xdf,
    0xe0, 0xe0, 0xe3, 0xe3, 0xe5, 0xe5, 0xe6, 0xe6, 0xe9, 0xe9, 0xea, 0xea, 0xec, 0xec, 0xef, 0xef,
    0xf1, 0xf1, 0xf2, 0xf2, 0xf4, 0xf4, 0xf7, 0xf7, 0xf8, 0xf8, 0xfb, 0xfb, 0xfd, 0xfd, 0xfe, 0xfe]"

definition g_fips_ivec :: "byte list" where
  "g_fips_ivec = [
    0x12, 0x34, 0x56, 0x78, 0x90, 0xab, 0xcd, 0xef]"

record 'k sec_keys =
  client_random :: "byte list"
  decrypt_use_count :: int
  encrypt_use_count :: int
  decrypt_key :: "byte list"
  encrypt_key :: "byte list"
  decrypt_update_key :: "byte list"
  encrypt_update_key :: "byte list"
  rc4_key_len :: nat
  sign_key :: "byte list"
  decrypt_rc4_info :: 'k
  encrypt_rc4_info :: 'k
  fips_encrypt_key :: "byte list"
  fips_decrypt_key :: "byte list"
  fips_sign_key :: "byte list"
  encrypt_fips_info :: 'k
  decrypt_fips_info :: 'k

definition xrdp_sec_make_40bit :: "byte list \<Rightarrow> byte list" where
  "xrdp_sec_make_40bit key = [0xd1, 0x26, 0x9e] @ drop 3 key"

text \<open>\<open>ssl_md5_complete\<close> writes all 16 bytes of the key, the cipher only its first \<open>key_len\<close>.\<close>

definition xrdp_sec_update :: "'k crypto \<Rightarrow> byte list \<Rightarrow> byte list \<Rightarrow> nat \<Rightarrow> byte list" where
  "xrdp_sec_update cr key update_key key_len =
     (let shasig = sha1 cr (take key_len update_key @ g_pad_54 @ take key_len key);
          key = md5 cr (take key_len update_key @ g_pad_92 @ shasig);
          key = fst (rc4_crypt cr (rc4_set_key cr (take key_len key)) (take key_len key)) @ drop key_len key
      in if key_len = 8 then xrdp_sec_make_40bit key else key)"

definition xrdp_sec_fips_decrypt :: "'k crypto \<Rightarrow> 'k sec_keys \<Rightarrow> byte list \<Rightarrow> byte list \<times> 'k sec_keys" where
  "xrdp_sec_fips_decrypt cr self data = (case des3_decrypt cr (decrypt_fips_info self) data of (out, k) \<Rightarrow>
     (out, self\<lparr>decrypt_fips_info := k, decrypt_use_count := decrypt_use_count self + 1\<rparr>))"

definition xrdp_sec_decrypt :: "'k crypto \<Rightarrow> 'k sec_keys \<Rightarrow> byte list \<Rightarrow> byte list \<times> 'k sec_keys" where
  "xrdp_sec_decrypt cr self data =
     (let self = (if decrypt_use_count self = 4096
          then (let key = xrdp_sec_update cr (decrypt_key self) (decrypt_update_key self) (rc4_key_len self)
                in self\<lparr>decrypt_key := key, decrypt_rc4_info := rc4_set_key cr (take (rc4_key_len self) key), decrypt_use_count := 0\<rparr>)
          else self)
      in case rc4_crypt cr (decrypt_rc4_info self) data of (out, k) \<Rightarrow>
        (out, self\<lparr>decrypt_rc4_info := k, decrypt_use_count := decrypt_use_count self + 1\<rparr>))"

definition xrdp_sec_fips_encrypt :: "'k crypto \<Rightarrow> 'k sec_keys \<Rightarrow> byte list \<Rightarrow> byte list \<times> 'k sec_keys" where
  "xrdp_sec_fips_encrypt cr self data = (case des3_encrypt cr (encrypt_fips_info self) data of (out, k) \<Rightarrow>
     (out, self\<lparr>encrypt_fips_info := k, encrypt_use_count := encrypt_use_count self + 1\<rparr>))"

definition xrdp_sec_encrypt :: "'k crypto \<Rightarrow> 'k sec_keys \<Rightarrow> byte list \<Rightarrow> byte list \<times> 'k sec_keys" where
  "xrdp_sec_encrypt cr self data =
     (let self = (if encrypt_use_count self = 4096
          then (let key = xrdp_sec_update cr (encrypt_key self) (encrypt_update_key self) (rc4_key_len self)
                in self\<lparr>encrypt_key := key, encrypt_rc4_info := rc4_set_key cr (take (rc4_key_len self) key), encrypt_use_count := 0\<rparr>)
          else self)
      in case rc4_crypt cr (encrypt_rc4_info self) data of (out, k) \<Rightarrow>
        (out, self\<lparr>encrypt_rc4_info := k, encrypt_use_count := encrypt_use_count self + 1\<rparr>))"

subsection \<open>Deriving the keys\<close>

definition xrdp_sec_rsa_op :: "'k crypto \<Rightarrow> nat \<Rightarrow> byte list \<Rightarrow> byte list \<Rightarrow> byte list \<Rightarrow> byte list" where
  "xrdp_sec_rsa_op cr key_bytes inp modulus exponent =
     mod_exp cr key_bytes inp (take key_bytes modulus) (take key_bytes exponent)"

text \<open>\<open>i + 1\<close> bytes of the value \<open>salt + i\<close> start round \<open>i\<close>.\<close>

definition xrdp_sec_hash_48 :: "'k crypto \<Rightarrow> byte list \<Rightarrow> byte list \<Rightarrow> byte list \<Rightarrow> byte \<Rightarrow> byte list" where
  "xrdp_sec_hash_48 cr inp salt1 salt2 salt = concat (map (\<lambda>i.
     md5 cr (take 48 inp @ sha1 cr (replicate (i + 1) (salt + of_nat i) @ take 48 inp @ take 32 salt1 @ take 32 salt2))) [0..<3])"

definition xrdp_sec_hash_16 :: "'k crypto \<Rightarrow> byte list \<Rightarrow> byte list \<Rightarrow> byte list \<Rightarrow> byte list" where
  "xrdp_sec_hash_16 cr inp salt1 salt2 = md5 cr (take 16 inp @ take 32 salt1 @ take 32 salt2)"

definition xrdp_sec_establish_keys :: "'k crypto \<Rightarrow> int \<Rightarrow> byte list \<Rightarrow> 'k sec_keys \<Rightarrow> 'k sec_keys" where
  "xrdp_sec_establish_keys cr method srv_random self =
     (let inp = take 24 (client_random self) @ take 24 srv_random;
          temp_hash = xrdp_sec_hash_48 cr inp (client_random self) srv_random 65;
          session_key = xrdp_sec_hash_48 cr temp_hash (client_random self) srv_random 88;
          sign = take 16 session_key;
          enc = xrdp_sec_hash_16 cr (drop 16 session_key) (client_random self) srv_random;
          dec = xrdp_sec_hash_16 cr (drop 32 session_key) (client_random self) srv_random;
          weak = (method = CRYPT_METHOD_40BIT);
          sign = (if weak then xrdp_sec_make_40bit sign else sign);
          enc = (if weak then xrdp_sec_make_40bit enc else enc);
          dec = (if weak then xrdp_sec_make_40bit dec else dec);
          n = (if weak then 8 else 16)
      in self\<lparr>sign_key := sign, encrypt_key := enc, decrypt_key := dec, rc4_key_len := n,
           decrypt_update_key := dec, encrypt_update_key := enc,
           decrypt_rc4_info := rc4_set_key cr (take n dec), encrypt_rc4_info := rc4_set_key cr (take n enc)\<rparr>)"

text \<open>\<open>buf\<close> has 32 bytes of which 21 are filled; the last round also reads the next one, \<open>junk\<close>.\<close>

definition fips_expand_key_bits :: "byte \<Rightarrow> byte list \<Rightarrow> byte list" where
  "fips_expand_key_bits junk inp =
     (let buf = map (\<lambda>c. g_fips_reverse_table ! unat c) (take 21 inp) @ [junk];
          out = map (\<lambda>i. let b = 7 * i; p = b div 8; r = b mod 8 in
            if r = 0 then buf ! p AND 0xfe
            else (push_bit r (buf ! p) OR drop_bit (8 - r) (buf ! (p + 1))) AND 0xfe) [0..<24]
      in map (\<lambda>c. g_fips_oddparity_table ! unat (g_fips_reverse_table ! unat c)) out)"

definition xrdp_sec_fips_establish_keys :: "'k crypto \<Rightarrow> byte \<Rightarrow> byte list \<Rightarrow> 'k sec_keys \<Rightarrow> 'k sec_keys" where
  "xrdp_sec_fips_establish_keys cr junk srv_random self =
     (let dec = sha1 cr (take 16 (drop 16 (client_random self)) @ take 16 (drop 16 srv_random));
          dec_key = fips_expand_key_bits junk (dec @ [dec ! 0]);
          enc = sha1 cr (take 16 (client_random self) @ take 16 srv_random);
          enc_key = fips_expand_key_bits junk (enc @ [enc ! 0])
      in self\<lparr>fips_decrypt_key := dec_key, fips_encrypt_key := enc_key, fips_sign_key := sha1 cr (enc @ dec),
           encrypt_fips_info := des3_encrypt_create cr enc_key g_fips_ivec,
           decrypt_fips_info := des3_decrypt_create cr dec_key g_fips_ivec\<rparr>)"

subsection \<open>Signatures\<close>

definition xrdp_sec_fips_sign :: "'k crypto \<Rightarrow> 'k sec_keys \<Rightarrow> nat \<Rightarrow> byte list \<Rightarrow> byte list" where
  "xrdp_sec_fips_sign cr self out_len data =
     take out_len (hmac_sha1 cr (fips_sign_key self) (data @ enc32_le (encrypt_use_count self)))"

definition xrdp_sec_sign :: "'k crypto \<Rightarrow> 'k sec_keys \<Rightarrow> nat \<Rightarrow> byte list \<Rightarrow> byte list" where
  "xrdp_sec_sign cr self out_len data =
     (let key = take (rc4_key_len self) (sign_key self);
          shasig = sha1 cr (key @ g_pad_54 @ enc32_le (int (length data)) @ data)
      in take out_len (md5 cr (key @ g_pad_92 @ shasig)))"

subsection \<open>Two sides in step\<close>

primrec through :: "('a \<Rightarrow> 'm \<Rightarrow> 'n \<times> 'a) \<Rightarrow> 'a \<Rightarrow> 'm list \<Rightarrow> 'n list \<times> 'a" where
  "through f a [] = ([], a)"
| "through f a (x # xs) = (case f a x of (y, a) \<Rightarrow> case through f a xs of (ys, a) \<Rightarrow> (y # ys, a))"

text \<open>The contract of a cipher with state: from related contexts, decrypting gives the message back
  and leaves related contexts.\<close>

locale stream_cipher =
  fixes rel :: "'a \<Rightarrow> 'b \<Rightarrow> bool"
    and enc :: "'a \<Rightarrow> 'm \<Rightarrow> 'n \<times> 'a"
    and dec :: "'b \<Rightarrow> 'n \<Rightarrow> 'm \<times> 'b"
    and good :: "'m \<Rightarrow> bool"
  assumes step: "rel a b \<Longrightarrow> good x \<Longrightarrow> fst (dec b (fst (enc a x))) = x \<and> rel (snd (enc a x)) (snd (dec b (fst (enc a x))))"
begin

lemma messages_arrive:
  "rel a b \<Longrightarrow> \<forall>x\<in>set xs. good x \<Longrightarrow>
     fst (through dec b (fst (through enc a xs))) = xs \<and> rel (snd (through enc a xs)) (snd (through dec b (fst (through enc a xs))))"
proof (induction xs arbitrary: a b)
  case (Cons x xs)
  have step': "fst (dec b (fst (enc a x))) = x" "rel (snd (enc a x)) (snd (dec b (fst (enc a x))))"
    using step[OF Cons.prems(1)] Cons.prems(2) by auto
  from Cons.IH[OF step'(2)] Cons.prems(2) step'(1) show ?case by (simp add: case_prod_unfold)
qed simp

end

text \<open>The receiver's decryption state mirrors the sender's encryption state.\<close>

definition mirrored :: "'k sec_keys \<Rightarrow> 'k sec_keys \<Rightarrow> bool" where
  "mirrored a b \<longleftrightarrow> decrypt_use_count b = encrypt_use_count a \<and> decrypt_key b = encrypt_key a
     \<and> decrypt_update_key b = encrypt_update_key a \<and> rc4_key_len b = rc4_key_len a \<and> decrypt_rc4_info b = encrypt_rc4_info a"

definition fips_mirrored :: "('k \<Rightarrow> 'k \<Rightarrow> bool) \<Rightarrow> 'k sec_keys \<Rightarrow> 'k sec_keys \<Rightarrow> bool" where
  "fips_mirrored dual a b \<longleftrightarrow> dual (encrypt_fips_info a) (decrypt_fips_info b)"

lemma crypto_okD:
  assumes "crypto_ok cr dual"
  shows "length (sha1 cr x) = 20" "length (md5 cr x) = 16" "length (hmac_sha1 cr ky x) = 20"
    "length (fst (rc4_crypt cr k x)) = length x" "rc4_crypt cr k (fst (rc4_crypt cr k x)) = (x, snd (rc4_crypt cr k x))"
    "length (fst (des3_encrypt cr k x)) = length x" "length (fst (des3_decrypt cr k x)) = length x"
    "dual (des3_encrypt_create cr key iv) (des3_decrypt_create cr key iv)"
  using assms by (simp_all add: crypto_ok_def)

lemma crypto_ok_des3:
  assumes "crypto_ok cr dual" "dual k l" "8 dvd length x"
  shows "fst (des3_decrypt cr l (fst (des3_encrypt cr k x))) = x
     \<and> dual (snd (des3_encrypt cr k x)) (snd (des3_decrypt cr l (fst (des3_encrypt cr k x))))"
  using assms unfolding crypto_ok_def by blast

lemma decrypt_encrypt:
  assumes ok: "crypto_ok cr dual" and m: "mirrored a b"
  shows "fst (xrdp_sec_decrypt cr b (fst (xrdp_sec_encrypt cr a x))) = x
     \<and> mirrored (snd (xrdp_sec_encrypt cr a x)) (snd (xrdp_sec_decrypt cr b (fst (xrdp_sec_encrypt cr a x))))"
  using m crypto_okD(5)[OF ok]
  by (simp add: xrdp_sec_decrypt_def xrdp_sec_encrypt_def mirrored_def Let_def case_prod_unfold)

lemma fips_decrypt_encrypt:
  assumes "crypto_ok cr dual" "fips_mirrored dual a b" "8 dvd length x"
  shows "fst (xrdp_sec_fips_decrypt cr b (fst (xrdp_sec_fips_encrypt cr a x))) = x
     \<and> fips_mirrored dual (snd (xrdp_sec_fips_encrypt cr a x)) (snd (xrdp_sec_fips_decrypt cr b (fst (xrdp_sec_fips_encrypt cr a x))))"
  using crypto_ok_des3[OF assms(1), of "encrypt_fips_info a" "decrypt_fips_info b" x] assms(2,3)
  by (simp add: xrdp_sec_fips_decrypt_def xrdp_sec_fips_encrypt_def fips_mirrored_def case_prod_unfold)

lemma encrypt_length: "crypto_ok cr dual \<Longrightarrow> length (fst (xrdp_sec_encrypt cr a x)) = length x"
  by (simp add: xrdp_sec_encrypt_def Let_def case_prod_unfold crypto_okD)

lemma fips_encrypt_length: "crypto_ok cr dual \<Longrightarrow> length (fst (xrdp_sec_fips_encrypt cr a x)) = length x"
  by (simp add: xrdp_sec_fips_encrypt_def case_prod_unfold crypto_okD)

interpretation rc4_cipher: stream_cipher "\<lambda>a b. crypto_ok cr dual \<and> mirrored a b" "xrdp_sec_encrypt cr" "xrdp_sec_decrypt cr" "\<lambda>_. True"
  for cr :: "'k crypto" and dual :: "'k \<Rightarrow> 'k \<Rightarrow> bool"
  by unfold_locales (use decrypt_encrypt in blast)

interpretation des3_cipher: stream_cipher "\<lambda>a b. crypto_ok cr dual \<and> fips_mirrored dual a b" "xrdp_sec_fips_encrypt cr" "xrdp_sec_fips_decrypt cr" "\<lambda>x. 8 dvd length x"
  for cr :: "'k crypto" and dual :: "'k \<Rightarrow> 'k \<Rightarrow> bool"
  by unfold_locales (use fips_decrypt_encrypt in blast)

end
