(* ===== verification/Sec_Fips.thy ===== *)
theory Sec_Fips
  imports Sec_Crypt
begin

text \<open>
  The key expansion of the FIPS level: what \<open>fips_expand_key_bits\<close> computes, bit by bit.
\<close>

definition rev8 :: "byte \<Rightarrow> byte" where
  "rev8 c = horner_sum of_bool 2 (map (bit c) [7, 6, 5, 4, 3, 2, 1, 0])"

definition odd_parity :: "byte \<Rightarrow> bool" where
  "odd_parity c \<longleftrightarrow> odd (length (filter (bit c) [0..<8]))"

text \<open>The two tables are what their names say.\<close>

lemma reverse_table: "g_fips_reverse_table = map (\<lambda>i. rev8 (word_of_nat i)) [0..<256]"
  by code_simp

lemma oddparity_table_odd: "list_all odd_parity g_fips_oddparity_table"
  by code_simp

lemma oddparity_table_keeps: "map (\<lambda>t. uint t div 2) g_fips_oddparity_table = map (\<lambda>i. int i div 2) [0..<256]"
  by code_simp

lemma unat_byte_less: "unat (c :: byte) < 256"
proof -
  have "unat c < 2 ^ LENGTH(8)" by (rule unsigned_less)
  then show ?thesis by simp
qed

lemma reverse_table_nth: "g_fips_reverse_table ! unat c = rev8 c"
  using unat_byte_less[of c] by (simp add: reverse_table)

lemma bit_rev8: "bit (rev8 c) n \<longleftrightarrow> n < 8 \<and> bit c (7 - n)"
proof -
  have "bit (rev8 c) n \<longleftrightarrow> n < 8 \<and> map (bit c) [7, 6, 5, 4, 3, 2, 1, 0] ! n"
    unfolding rev8_def bit_horner_sum_bit_word_iff by auto
  moreover have "map (bit c) [7, 6, 5, 4, 3, 2, 1, 0] ! n = bit c (7 - n)" if "n < 8"
    using that by (auto simp: less_Suc_eq numeral_eq_Suc)
  ultimately show ?thesis by blast
qed

lemma bit_uint_byte: "bit (uint (c :: byte)) n \<longleftrightarrow> bit c n"
  by (auto simp: bit_uint_iff dest: bit_imp_le_length)

lemma oddparity_nth:
  fixes c :: byte
  shows "odd_parity (g_fips_oddparity_table ! unat c)" "0 < n \<Longrightarrow> bit (g_fips_oddparity_table ! unat c) n = bit c n"
proof -
  have len: "length g_fips_oddparity_table = 256" by (simp add: g_fips_oddparity_table_def)
  then show "odd_parity (g_fips_oddparity_table ! unat c)"
    using oddparity_table_odd unat_byte_less[of c] by (simp add: list_all_length)
  have "map (\<lambda>t. uint t div 2) g_fips_oddparity_table ! unat c = map (\<lambda>i. int i div 2) [0..<256] ! unat c"
    by (simp only: oddparity_table_keeps)
  then have half: "uint (g_fips_oddparity_table ! unat c) div 2 = uint c div 2" using unat_byte_less[of c] len by simp
  show "bit (g_fips_oddparity_table ! unat c) n = bit c n" if "0 < n"
    using half that unfolding bit_uint_byte[symmetric] by (cases n) (simp_all add: bit_Suc)
qed

text \<open>Bit \<open>q\<close> of a sequence of bytes, lowest bit of the first byte first.\<close>

definition key_bit :: "byte list \<Rightarrow> nat \<Rightarrow> bool" where
  "key_bit inp q \<longleftrightarrow> bit (inp ! (q div 8)) (q mod 8)"

lemma expand_window:
  assumes "0 < m" "m < 8"
  shows "bit (let b = 7 * i; p = b div 8; r = b mod 8 in
            if r = 0 then buf ! p AND 0xfe
            else (push_bit r (buf ! p) OR drop_bit (8 - r) (buf ! (p + 1))) AND (0xfe :: byte)) m
     \<longleftrightarrow> bit (buf ! ((7 * i + (7 - m)) div 8)) (7 - (7 * i + (7 - m)) mod 8)"
proof -
  define p r where pr: "p = 7 * i div 8" "r = 7 * i mod 8"
  have i: "7 * i = 8 * p + r" "r < 8" by (simp_all add: pr)
  have mask: "bit (0xfe :: byte) m" using assms by (auto simp: less_Suc_eq numeral_eq_Suc bit_simps)
  have "bit (if r = 0 then buf ! p AND 0xfe
            else (push_bit r (buf ! p) OR drop_bit (8 - r) (buf ! (p + 1))) AND (0xfe :: byte)) m
     \<longleftrightarrow> bit (buf ! ((8 * p + r + (7 - m)) div 8)) (7 - (8 * p + r + (7 - m)) mod 8)"
  proof (cases "r \<le> m")
    case True
    then have e: "8 * p + r + (7 - m) = (r + 7 - m) + 8 * p" "r + 7 - m < 8" using assms by simp_all
    then have "(8 * p + r + (7 - m)) div 8 = p" "(8 * p + r + (7 - m)) mod 8 = r + 7 - m"
      unfolding e(1) div_mult_self2 mod_mult_self2 by simp_all
    moreover have "\<not> bit (buf ! (p + 1)) (m + (8 - r))" using True i(2) bit_imp_le_length[of "buf ! (p + 1)" "m + (8 - r)"] by auto
    ultimately show ?thesis using True assms i(2) mask
      by (auto simp: bit_and_iff bit_or_iff bit_push_bit_iff bit_drop_bit_eq add.commute)
  next
    case False
    then have e: "8 * p + r + (7 - m) = (r - 1 - m) + 8 * (p + 1)" "r - 1 - m < 8" using assms i(2) by simp_all
    then have "(8 * p + r + (7 - m)) div 8 = p + 1" "(8 * p + r + (7 - m)) mod 8 = r - 1 - m"
      unfolding e(1) mod_mult_self2 by simp_all
    then show ?thesis using False assms i(2) mask
      by (auto simp: bit_and_iff bit_or_iff bit_push_bit_iff bit_drop_bit_eq add.commute)
  qed
  then show ?thesis unfolding pr[symmetric] i(1)[symmetric] Let_def by (simp add: pr)
qed

text \<open>Byte \<open>i\<close> of the expanded key has odd parity, its bits 1 to 6 are bits \<open>7 i + 1\<close> to \<open>7 i + 6\<close> of the
  input, and its highest bit is 0. The unfilled byte behind the buffer has no influence.\<close>

lemma fips_expand_bits:
  assumes "length inp = 21" "i < 24"
  shows "odd_parity (fips_expand_key_bits junk inp ! i)" "\<not> bit (fips_expand_key_bits junk inp ! i) 7"
    "0 < n \<Longrightarrow> n < 7 \<Longrightarrow> bit (fips_expand_key_bits junk inp ! i) n = key_bit inp (7 * i + n)"
proof -
  define buf where "buf = map rev8 inp @ [junk]"
  define out where "out = (let b = 7 * i; p = b div 8; r = b mod 8 in
            if r = 0 then buf ! p AND 0xfe
            else (push_bit r (buf ! p) OR drop_bit (8 - r) (buf ! (p + 1))) AND (0xfe :: byte))"
  have out: "fips_expand_key_bits junk inp ! i = g_fips_oddparity_table ! unat (rev8 out)"
    using assms by (simp add: fips_expand_key_bits_def reverse_table_nth out_def buf_def Let_def)
  show "odd_parity (fips_expand_key_bits junk inp ! i)" unfolding out by (rule oddparity_nth)
  have "\<not> bit out 0" by (simp add: out_def Let_def bit_and_iff)
  then show "\<not> bit (fips_expand_key_bits junk inp ! i) 7" unfolding out by (simp add: oddparity_nth(2) bit_rev8)
  assume n: "0 < n" "n < 7"
  have q: "(7 * i + n) div 8 < 21" "(7 * i + n) mod 8 < 8" "7 - (7 * i + n) mod 8 < 8" using assms(2) n(2) by auto
  have "bit (fips_expand_key_bits junk inp ! i) n = bit out (7 - n)" unfolding out using n by (simp add: oddparity_nth(2) bit_rev8)
  also have "\<dots> = bit (buf ! ((7 * i + n) div 8)) (7 - (7 * i + n) mod 8)"
    unfolding out_def using expand_window[of "7 - n" i buf] n by simp
  also have "\<dots> = key_bit inp (7 * i + n)" using q assms(1) by (simp add: buf_def nth_append bit_rev8 key_bit_def)
  finally show "bit (fips_expand_key_bits junk inp ! i) n = key_bit inp (7 * i + n)" .
qed

lemma odd_parity_unique:
  assumes "odd_parity a" "odd_parity b" "\<And>n. 0 < n \<Longrightarrow> n < 8 \<Longrightarrow> bit a n = bit b n"
  shows "a = b"
proof (rule bit_word_eqI)
  have split: "odd_parity c \<longleftrightarrow> bit c 0 \<noteq> odd (length (filter (bit c) [1..<8]))" for c
    by (simp add: odd_parity_def upt_conv_Cons[of 0 8])
  have "filter (bit a) [1..<8] = filter (bit b) [1..<8]" using assms(3) by (intro filter_cong) auto
  then have zero: "bit a 0 = bit b 0" using assms(1,2) unfolding split by metis
  fix n assume "n < LENGTH(8)"
  then show "bit a n = bit b n" using zero assms(3)[of n] by (cases "n = 0") auto
qed



end
