(* ===== verification/Sec_Data.thy ===== *)
theory Sec_Data
  imports Sec_Fips
begin

text \<open>
  The data path of the security layer (\<open>libxrdp/xrdp_sec.c\<close>): the security header, encryption and
  signature of every packet in both directions, the key exchange, the logon information and the
  licence messages. \<open>struct xrdp_sec\<close> of the connection sequence is the field \<open>xs_sec\<close>; the session
  keys, the header flag and the fields of \<open>client_info\<close> that a logon sets stand next to it.
\<close>

abbreviation (input) SEC_CLIENT_RANDOM :: int where "SEC_CLIENT_RANDOM \<equiv> 0x0001"
abbreviation (input) SEC_ENCRYPT :: int where "SEC_ENCRYPT \<equiv> 0x0008"
abbreviation (input) SEC_LOGON_INFO :: int where "SEC_LOGON_INFO \<equiv> 0x0040"
abbreviation (input) SEC_LICENCE_NEG :: int where "SEC_LICENCE_NEG \<equiv> 0x0080"
abbreviation (input) RDP_LOGON_AUTO :: int where "RDP_LOGON_AUTO \<equiv> 0x0008"
abbreviation (input) RDP_LOGON_NORMAL :: int where "RDP_LOGON_NORMAL \<equiv> 0x0033"
abbreviation (input) RDP_COMPRESSION :: int where "RDP_COMPRESSION \<equiv> 0x0080"
abbreviation (input) RDP_LOGON_BLOB :: int where "RDP_LOGON_BLOB \<equiv> 0x0100"
abbreviation (input) RDP_LOGON_LEAVE_AUDIO :: int where "RDP_LOGON_LEAVE_AUDIO \<equiv> 0x2000"
abbreviation (input) RDP_LOGON_RAIL :: int where "RDP_LOGON_RAIL \<equiv> 0x8000"

definition g_lic1 :: "byte list" where
  "g_lic1 = [
    0x80, 0x00, 0x3e, 0x01, 0x01, 0x02, 0x3e, 0x01, 0x7b, 0x3c, 0x31, 0xa6, 0xae, 0xe8, 0x74, 0xf6,
    0xb4, 0xa5, 0x03, 0x90, 0xe7, 0xc2, 0xc7, 0x39, 0xba, 0x53, 0x1c, 0x30, 0x54, 0x6e, 0x90, 0x05,
    0xd0, 0x05, 0xce, 0x44, 0x18, 0x91, 0x83, 0x81, 0x00, 0x00, 0x04, 0x00, 0x2c, 0x00, 0x00, 0x00,
    0x4d, 0x00, 0x69, 0x00, 0x63, 0x00, 0x72, 0x00, 0x6f, 0x00, 0x73, 0x00, 0x6f, 0x00, 0x66, 0x00,
    0x74, 0x00, 0x20, 0x00, 0x43, 0x00, 0x6f, 0x00, 0x72, 0x00, 0x70, 0x00, 0x6f, 0x00, 0x72, 0x00,
    0x61, 0x00, 0x74, 0x00, 0x69, 0x00, 0x6f, 0x00, 0x6e, 0x00, 0x00, 0x00, 0x08, 0x00, 0x00, 0x00,
    0x32, 0x00, 0x33, 0x00, 0x36, 0x00, 0x00, 0x00, 0x0d, 0x00, 0x04, 0x00, 0x01, 0x00, 0x00, 0x00,
    0x03, 0x00, 0xb8, 0x00, 0x01, 0x00, 0x00, 0x00, 0x01, 0x00, 0x00, 0x00, 0x01, 0x00, 0x00, 0x00,
    0x06, 0x00, 0x5c, 0x00, 0x52, 0x53, 0x41, 0x31, 0x48, 0x00, 0x00, 0x00, 0x00, 0x02, 0x00, 0x00,
    0x3f, 0x00, 0x00, 0x00, 0x01, 0x00, 0x01, 0x00, 0x01, 0xc7, 0xc9, 0xf7, 0x8e, 0x5a, 0x38, 0xe4,
    0x29, 0xc3, 0x00, 0x95, 0x2d, 0xdd, 0x4c, 0x3e, 0x50, 0x45, 0x0b, 0x0d, 0x9e, 0x2a, 0x5d, 0x18,
    0x63, 0x64, 0xc4, 0x2c, 0xf7, 0x8f, 0x29, 0xd5, 0x3f, 0xc5, 0x35, 0x22, 0x34, 0xff, 0xad, 0x3a,
    0xe6, 0xe3, 0x95, 0x06, 0xae, 0x55, 0x82, 0xe3, 0xc8, 0xc7, 0xb4, 0xa8, 0x47, 0xc8, 0x50, 0x71,
    0x74, 0x29, 0x53, 0x89, 0x6d, 0x9c, 0xed, 0x70, 0x00, 0x00, 0x00, 0x00, 0x00, 0x00, 0x00, 0x00,
    0x08, 0x00, 0x48, 0x00, 0xa8, 0xf4, 0x31, 0xb9, 0xab, 0x4b, 0xe6, 0xb4, 0xf4, 0x39, 0x89, 0xd6,
    0xb1, 0xda, 0xf6, 0x1e, 0xec, 0xb1, 0xf0, 0x54, 0x3b, 0x5e, 0x3e, 0x6a, 0x71, 0xb4, 0xf7, 0x75,
    0xc8, 0x16, 0x2f, 0x24, 0x00, 0xde, 0xe9, 0x82, 0x99, 0x5f, 0x33, 0x0b, 0xa9, 0xa6, 0x94, 0xaf,
    0xcb, 0x11, 0xc3, 0xf2, 0xdb, 0x09, 0x42, 0x68, 0x29, 0x56, 0x58, 0x01, 0x56, 0xdb, 0x59, 0x03,
    0x69, 0xdb, 0x7d, 0x37, 0x00, 0x00, 0x00, 0x00, 0x00, 0x00, 0x00, 0x00, 0x01, 0x00, 0x00, 0x00,
    0x0e, 0x00, 0x0e, 0x00, 0x6d, 0x69, 0x63, 0x72, 0x6f, 0x73, 0x6f, 0x66, 0x74, 0x2e, 0x63, 0x6f,
    0x6d, 0x00]"

definition g_lic2 :: "byte list" where
  "g_lic2 = [
    0x80, 0x00, 0x10, 0x00, 0xff, 0x02, 0x10, 0x00, 0x07, 0x00, 0x00, 0x00, 0x02, 0x00, 0x00, 0x00,
    0x28, 0x14, 0x00, 0x00]"

definition g_lic3 :: "byte list" where
  "g_lic3 = [
    0x80, 0x02, 0x10, 0x00, 0xff, 0x03, 0x10, 0x00, 0x07, 0x00, 0x00, 0x00, 0x02, 0x00, 0x00, 0x00,
    0xf3, 0x99, 0x00, 0x00]"

record logon_info =
  li_is_mce :: int
  li_use_bulk_comp :: int
  li_require_credentials :: int
  li_sound_code :: int
  li_rail_enable :: int
  li_rdp_autologin :: int
  li_rdp_compression :: int
  li_domain :: "byte list"
  li_username :: "byte list"
  li_password :: "byte list"
  li_program :: "byte list"
  li_directory :: "byte list"
  li_rdp5_performanceflags :: int

record 'k xrdp_sec_conn =
  xs_sec :: xrdp_sec
  xs_keys :: "'k sec_keys"
  xs_logon :: logon_info
  is_security_header_present :: int

subsection \<open>The header of a packet\<close>

definition xrdp_sec_init :: "int \<Rightarrow> stream \<Rightarrow> stream" where
  "xrdp_sec_init level s =
     (let s = xrdp_mcs_init s in
      if level > CRYPT_LEVEL_NONE
      then if level = CRYPT_LEVEL_FIPS then s_push_layer s sec_hdr_update (4 + 4 + 8)
        else if level > CRYPT_LEVEL_LOW then s_push_layer s sec_hdr_update (4 + 8)
        else s_push_layer s sec_hdr_update 4
      else s)"

text \<open>A cipher or a signature works on the block itself: \<open>len\<close> bytes from \<open>off\<close> on are read, and what
  \<open>f\<close> makes of them is written from \<open>dst\<close> on. The position of the stream stays.\<close>

definition in_place :: "(byte list \<Rightarrow> byte list \<times> 'a) \<Rightarrow> stream \<Rightarrow> int \<Rightarrow> int \<Rightarrow> int \<Rightarrow> (stream \<times> 'a) option" where
  "in_place f s off len dst = do {
     (bs, _) \<leftarrow> in_uint8a (s\<lparr>s_p := off\<rparr>) len;
     let (out, x) = f bs;
     s' \<leftarrow> out_uint8p (s\<lparr>s_p := dst\<rparr>) out;
     Some (s'\<lparr>s_p := s_p s\<rparr>, x) }"

text \<open>The part of \<open>xrdp_sec_send\<close> between popping the layer and handing the stream down.\<close>

definition sec_wrap :: "'k crypto \<Rightarrow> int \<Rightarrow> 'k sec_keys \<Rightarrow> stream \<Rightarrow> ('k sec_keys \<times> stream) option" where
  "sec_wrap cr level keys s =
     (if level > CRYPT_LEVEL_NONE
      then if level = CRYPT_LEVEL_FIPS
        then do {
          s \<leftarrow> out_uint32_le s SEC_ENCRYPT;
          let datalen = s_end s - s_p s - 12;
          s \<leftarrow> out_uint16_le s 16;
          s \<leftarrow> out_uint8 s 1;
          let pad = (8 - datalen mod 8) AND 7;
          e \<leftarrow> out_uint8p (s\<lparr>s_p := s_end s\<rparr>) (replicate (nat pad) 0);
          let s = e\<lparr>s_p := s_p s, s_end := s_end s + pad\<rparr>;
          s \<leftarrow> out_uint8 s pad;
          (s, _) \<leftarrow> in_place (\<lambda>data. (xrdp_sec_fips_sign cr keys 8 data, ())) s (s_p s + 8) datalen (s_p s);
          (s, keys) \<leftarrow> in_place (xrdp_sec_fips_encrypt cr keys) s (s_p s + 8) (datalen + pad) (s_p s + 8);
          Some (keys, s) }
        else if level > CRYPT_LEVEL_LOW
        then do {
          s \<leftarrow> out_uint32_le s SEC_ENCRYPT;
          let datalen = s_end s - s_p s - 8;
          (s, _) \<leftarrow> in_place (\<lambda>data. (xrdp_sec_sign cr keys 8 data, ())) s (s_p s + 8) datalen (s_p s);
          (s, keys) \<leftarrow> in_place (xrdp_sec_encrypt cr keys) s (s_p s + 8) datalen (s_p s + 8);
          Some (keys, s) }
        else do { s \<leftarrow> out_uint32_le s 0; Some (keys, s) }
      else Some (keys, s))"

definition upd_mcs :: "xrdp_mcs \<Rightarrow> 'k xrdp_sec_conn \<Rightarrow> 'k xrdp_sec_conn" where
  "upd_mcs mcs self = self\<lparr>xs_sec := (xs_sec self)\<lparr>mcs_layer := mcs\<rparr>\<rparr>"

definition xrdp_sec_send ::
  "'k crypto \<Rightarrow> (xrdp_mcs \<Rightarrow> int \<times> xrdp_mcs) option \<Rightarrow> 'k xrdp_sec_conn \<Rightarrow> stream \<Rightarrow> int
     \<Rightarrow> (int \<times> 'k xrdp_sec_conn \<times> stream) option" where
  "xrdp_sec_send cr callback self s chan = do {
     let s = s_pop_layer s sec_hdr;
     (keys, s) \<leftarrow> sec_wrap cr (crypt_level (xs_sec self)) (xs_keys self) s;
     let self = self\<lparr>xs_keys := keys\<rparr>;
     (r, mcs, s) \<leftarrow> xrdp_mcs_send callback (mcs_layer (xs_sec self)) s chan;
     Some (if r \<noteq> 0 then 1 else 0, upd_mcs mcs self, s) }"

subsection \<open>The logon information\<close>

definition logon_flags :: "int \<Rightarrow> logon_info \<Rightarrow> logon_info" where
  "logon_flags flags li =
     (let li = (if flags AND RDP_LOGON_LEAVE_AUDIO \<noteq> 0 then li\<lparr>li_sound_code := 1\<rparr> else li);
          li = (if flags AND RDP_LOGON_RAIL \<noteq> 0 then li\<lparr>li_rail_enable := 1\<rparr> else li);
          li = (if flags AND RDP_LOGON_AUTO \<noteq> 0 \<and> li_is_mce li = 0 then li\<lparr>li_rdp_autologin := 1\<rparr> else li)
      in if flags AND RDP_COMPRESSION \<noteq> 0 \<and> li_use_bulk_comp li \<noteq> 0 then li\<lparr>li_rdp_compression := 1\<rparr> else li)"

text \<open>One of the five lengths, at most 511.\<close>

definition logon_len :: "stream \<Rightarrow> (int \<times> int \<times> stream) option" where
  "logon_len s = (if \<not> s_check_rem s 2 then Some (1, 0, s)
     else do { (len, s) \<leftarrow> in_uint16_le s; Some (if len > 511 then 1 else 0, len, s) })"

definition logon_string ::
  "(int list \<Rightarrow> byte list option) \<Rightarrow> stream \<Rightarrow> int \<Rightarrow> ((byte list \<Rightarrow> byte list) \<Rightarrow> logon_info \<Rightarrow> logon_info) \<Rightarrow> logon_info
     \<Rightarrow> (int \<times> logon_info \<times> stream) option" where
  "logon_string wcstombs s len upd li = do {
     (r, dst, s) \<leftarrow> unicode_utf16_in wcstombs s len 255;
     Some (r, (case dst of None \<Rightarrow> li | Some d \<Rightarrow> upd (\<lambda>_. d) li), s) }"

text \<open>The password is skipped without \<open>RDP_LOGON_AUTO\<close>; it may be mandatory.\<close>

definition logon_password ::
  "(int list \<Rightarrow> byte list option) \<Rightarrow> int \<Rightarrow> stream \<Rightarrow> int \<Rightarrow> logon_info \<Rightarrow> (int \<times> logon_info \<times> stream) option" where
  "logon_password wcstombs flags s len li =
     (if flags AND RDP_LOGON_AUTO \<noteq> 0 then logon_string wcstombs s len li_password_update li
      else if \<not> s_check_rem s (len + 2) then Some (1, li, s)
      else Some (if li_require_credentials li \<noteq> 0 then 1 else 0, li, in_uint8s s (len + 2)))"

definition logon_blob ::
  "(int list \<Rightarrow> byte list option) \<Rightarrow> stream \<Rightarrow> logon_info \<Rightarrow> (int \<times> logon_info \<times> stream) option" where
  "logon_blob wcstombs s li =
     (if \<not> s_check_rem s 4 then Some (1, li, s) else do {
     (len_ip, s) \<leftarrow> in_uint16_le (in_uint8s s 2);
     (r, _, s) \<leftarrow> unicode_utf16_in wcstombs s (len_ip - 2) 255;
     if r \<noteq> 0 then Some (1, li, s) else
     if \<not> s_check_rem s 2 then Some (1, li, s) else do {
     (len_dll, s) \<leftarrow> in_uint16_le s;
     (r, _, s) \<leftarrow> unicode_utf16_in wcstombs s (len_dll - 2) 255;
     if r \<noteq> 0 then Some (1, li, s) else
     if \<not> s_check_rem s (4 + 62 + 22 + 62 + 26 + 4) then Some (1, li, s) else do {
     (v, s) \<leftarrow> in_uint32_le (in_uint8s s (4 + 62 + 22 + 62 + 26));
     Some (0, li\<lparr>li_rdp5_performanceflags := s32 v\<rparr>, s) }}})"

definition xrdp_sec_process_logon_info ::
  "(int list \<Rightarrow> byte list option) \<Rightarrow> logon_info \<Rightarrow> stream \<Rightarrow> (int \<times> logon_info \<times> stream) option" where
  "xrdp_sec_process_logon_info wcstombs li s =
     (if \<not> s_check_rem s 8 then Some (1, li, s) else do {
     (flags, s) \<leftarrow> in_uint32_le (in_uint8s s 4);
     if flags AND RDP_LOGON_NORMAL \<noteq> RDP_LOGON_NORMAL then Some (1, li, s) else do {
     let li = logon_flags flags li;
     (r, len_domain, s) \<leftarrow> logon_len s;
     if r \<noteq> 0 then Some (1, li, s) else do {
     (r, len_user, s) \<leftarrow> logon_len s;
     if r \<noteq> 0 then Some (1, li, s) else do {
     let li = (if len_user = 0 then li\<lparr>li_rdp_autologin := 0\<rparr> else li);
     (r, len_password, s) \<leftarrow> logon_len s;
     if r \<noteq> 0 then Some (1, li, s) else do {
     (r, len_program, s) \<leftarrow> logon_len s;
     if r \<noteq> 0 then Some (1, li, s) else do {
     (r, len_directory, s) \<leftarrow> logon_len s;
     if r \<noteq> 0 then Some (1, li, s) else do {
     (r, li, s) \<leftarrow> logon_string wcstombs s len_domain li_domain_update li;
     if r \<noteq> 0 then Some (1, li, s) else do {
     (r, li, s) \<leftarrow> logon_string wcstombs s len_user li_username_update li;
     if r \<noteq> 0 then Some (1, li, s) else do {
     (r, li, s) \<leftarrow> logon_password wcstombs flags s len_password li;
     if r \<noteq> 0 then Some (1, li, s) else do {
     (r, li, s) \<leftarrow> logon_string wcstombs s len_program li_program_update li;
     if r \<noteq> 0 then Some (1, li, s) else do {
     (r, li, s) \<leftarrow> logon_string wcstombs s len_directory li_directory_update li;
     if r \<noteq> 0 then Some (1, li, s) else
     if flags AND RDP_LOGON_BLOB \<noteq> 0 then logon_blob wcstombs s li else Some (0, li, s) }}}}}}}}}}})"

subsection \<open>Licence messages\<close>

definition sec_send_lic ::
  "(xrdp_mcs \<Rightarrow> int \<times> xrdp_mcs) option \<Rightarrow> byte list \<Rightarrow> 'k xrdp_sec_conn \<Rightarrow> (int \<times> 'k xrdp_sec_conn) option" where
  "sec_send_lic callback lic self = do {
     s \<leftarrow> out_uint8p (xrdp_mcs_init (init_stream make_stream 8192)) lic;
     (r, mcs, _) \<leftarrow> xrdp_mcs_send callback (mcs_layer (xs_sec self)) (s_mark_end s) MCS_GLOBAL_CHANNEL;
     Some (if r \<noteq> 0 then 1 else 0, upd_mcs mcs self) }"

definition xrdp_sec_send_lic_initial ::
  "(xrdp_mcs \<Rightarrow> int \<times> xrdp_mcs) option \<Rightarrow> 'k xrdp_sec_conn \<Rightarrow> (int \<times> 'k xrdp_sec_conn) option" where
  "xrdp_sec_send_lic_initial callback self = sec_send_lic callback g_lic1 self"

definition xrdp_sec_send_lic_response ::
  "(xrdp_mcs \<Rightarrow> int \<times> xrdp_mcs) option \<Rightarrow> 'k xrdp_sec_conn \<Rightarrow> (int \<times> 'k xrdp_sec_conn) option" where
  "xrdp_sec_send_lic_response callback self = sec_send_lic callback g_lic2 self"

definition xrdp_sec_send_media_lic_response ::
  "(xrdp_mcs \<Rightarrow> int \<times> xrdp_mcs) option \<Rightarrow> 'k xrdp_sec_conn \<Rightarrow> (int \<times> 'k xrdp_sec_conn) option" where
  "xrdp_sec_send_media_lic_response callback self = sec_send_lic callback g_lic3 self"

subsection \<open>Receiving\<close>

text \<open>The security header of a received packet: the signature is skipped, the rest is decrypted in
  place. The result: return value, keys, stream.\<close>

definition sec_unwrap ::
  "'k crypto \<Rightarrow> int \<Rightarrow> int \<Rightarrow> 'k sec_keys \<Rightarrow> stream \<Rightarrow> (int \<times> 'k sec_keys \<times> stream) option" where
  "sec_unwrap cr level flags keys s =
     (if flags AND SEC_ENCRYPT \<noteq> 0
      then if level = CRYPT_LEVEL_FIPS
        then if \<not> s_check_rem s 12 then Some (1, keys, s) else do {
          (len, s) \<leftarrow> in_uint16_le s;
          (ver, s) \<leftarrow> in_uint8 s;
          if len \<noteq> 16 \<or> ver \<noteq> 1 then Some (1, keys, s) else do {
          (pad, s) \<leftarrow> in_uint8 s;
          let s = in_uint8s s 8;
          (s, keys) \<leftarrow> in_place (xrdp_sec_fips_decrypt cr keys) s (s_p s) (s_end s - s_p s) (s_p s);
          Some (0, keys, s\<lparr>s_end := s_end s - pad\<rparr>) }}
        else if level > CRYPT_LEVEL_NONE
        then if \<not> s_check_rem s 8 then Some (1, keys, s) else do {
          let s = in_uint8s s 8;
          (s, keys) \<leftarrow> in_place (xrdp_sec_decrypt cr keys) s (s_p s) (s_end s - s_p s) (s_p s);
          Some (0, keys, s) }
        else Some (0, keys, s)
      else Some (0, keys, s))"

text \<open>The client's random number. \<open>junk\<close> is the unfilled byte of the FIPS key expansion.\<close>

definition sec_recv_random ::
  "'k crypto \<Rightarrow> byte \<Rightarrow> 'k xrdp_sec_conn \<Rightarrow> stream \<Rightarrow> (int \<times> 'k xrdp_sec_conn \<times> stream) option" where
  "sec_recv_random cr junk self s =
     (if \<not> s_check_rem s 4 then Some (1, self, s) else do {
     (len, s) \<leftarrow> in_uint32_le s;
     let len = s32 len;
     if len \<noteq> 64 + 8 \<and> len \<noteq> 256 + 8 then Some (1, self, s) else
     if \<not> s_check_rem s (len - 8) then Some (1, self, s) else do {
     (crypt_random, s) \<leftarrow> in_uint8a s (len - 8);
     let sec = xs_sec self;
     let random = xrdp_sec_rsa_op cr (nat (rsa_key_bytes sec)) crypt_random (pub_mod sec) (pri_exp sec);
     let keys = (xs_keys self)\<lparr>client_random := random\<rparr>;
     let keys = (if crypt_level sec = CRYPT_LEVEL_FIPS then xrdp_sec_fips_establish_keys cr junk (server_random sec) keys
       else if crypt_method sec \<noteq> CRYPT_METHOD_NONE then xrdp_sec_establish_keys cr (crypt_method sec) (server_random sec) keys
       else keys);
     Some (0, self\<lparr>xs_keys := keys\<rparr>, s) }})"

text \<open>\<open>xrdp_sec_recv\<close> after the multipoint layer has delivered a packet on channel \<open>chan\<close>. The return
  value -1 asks for the demand-active PDU; channel 1 does not exist.\<close>

definition sec_recv_packet ::
  "'k crypto \<Rightarrow> (int list \<Rightarrow> byte list option) \<Rightarrow> byte \<Rightarrow> (xrdp_mcs \<Rightarrow> int \<times> xrdp_mcs) option \<Rightarrow> int \<Rightarrow> 'k xrdp_sec_conn \<Rightarrow> stream
     \<Rightarrow> (int \<times> int \<times> 'k xrdp_sec_conn \<times> stream) option" where
  "sec_recv_packet cr wcstombs junk callback chan self s =
     (if \<not> s_check_rem s 4 then Some (1, chan, self, s)
      else if is_security_header_present self = 0 then Some (0, chan, self, s)
      else do {
        (flags, s) \<leftarrow> in_uint32_le s;
        (r, keys, s) \<leftarrow> sec_unwrap cr (crypt_level (xs_sec self)) flags (xs_keys self) s;
        let self = self\<lparr>xs_keys := keys\<rparr>;
        if r \<noteq> 0 then Some (1, chan, self, s)
        else if flags AND SEC_CLIENT_RANDOM \<noteq> 0
        then do {
          (r, self, s) \<leftarrow> sec_recv_random cr junk self s;
          Some (r, if r \<noteq> 0 then chan else 1, self, s) }
        else if flags AND SEC_LOGON_INFO \<noteq> 0
        then do {
          (r, li, s) \<leftarrow> xrdp_sec_process_logon_info wcstombs (xs_logon self) s;
          let self = self\<lparr>xs_logon := li\<rparr>;
          if r \<noteq> 0 then Some (1, chan, self, s)
          else if li_is_mce li \<noteq> 0
          then do {
            (r, self) \<leftarrow> xrdp_sec_send_media_lic_response callback self;
            Some (if r \<noteq> 0 then 1 else -1, chan, self, s) }
          else do {
            (r, self) \<leftarrow> xrdp_sec_send_lic_initial callback self;
            Some (if r \<noteq> 0 then 1 else 0, if r \<noteq> 0 then chan else 1, self, s) } }
        else if flags AND SEC_LICENCE_NEG \<noteq> 0
        then do {
          (r, self) \<leftarrow> xrdp_sec_send_lic_response callback self;
          if r \<noteq> 0 then Some (1, chan, self, s)
          else Some (-1, chan,
            if crypt_level (xs_sec self) = CRYPT_LEVEL_NONE \<and> crypt_method (xs_sec self) = CRYPT_METHOD_NONE
            then self\<lparr>is_security_header_present := 0\<rparr> else self, s) }
        else Some (0, chan, self, s) })"

definition xrdp_sec_recv ::
  "'k crypto \<Rightarrow> (int list \<Rightarrow> byte list option) \<Rightarrow> byte \<Rightarrow> (xrdp_mcs \<Rightarrow> int \<times> xrdp_mcs) option \<Rightarrow> nat \<Rightarrow> 'k xrdp_sec_conn \<Rightarrow> stream
     \<Rightarrow> (int \<times> int \<times> 'k xrdp_sec_conn \<times> stream) option" where
  "xrdp_sec_recv cr wcstombs junk callback fuel self s = do {
     (r, chan, mcs, s) \<leftarrow> xrdp_mcs_recv fuel (mcs_layer (xs_sec self)) s;
     let self = upd_mcs mcs self;
     if r \<noteq> 0 then Some (1, chan, self, s) else sec_recv_packet cr wcstombs junk callback chan self s }"

end
