(* ===== verification/Sec_Laws.thy ===== *)
theory Sec_Laws
  imports Sec_Data
begin

text \<open>
  What the data path of the security layer guarantees: the bytes of a protected packet, that the
  other side gets the payload back at every security level and that both sides stay in step, and that
  receiving is safe, with the one exception the logon information has.
\<close>

subsection \<open>Working in the block\<close>

lemma bytes_at_behind: "bytes_at m i bs \<Longrightarrow> j + int (length ws) \<le> i \<Longrightarrow> bytes_at (write_bytes m j ws) i bs"
  by (erule bytes_at_cong) (simp add: write_bytes_above)

lemma bytes_at_before: "bytes_at m i bs \<Longrightarrow> i + int (length bs) \<le> j \<Longrightarrow> bytes_at (write_bytes m j ws) i bs"
  by (erule bytes_at_cong) (simp add: write_bytes_below)

lemma in_place_law:
  assumes "bytes_at (s_data s) off bs" "len = int (length bs)" "0 \<le> off" "off + len \<le> s_size s"
    and "f bs = (out, x)" "0 \<le> dst" "dst + int (length out) \<le> s_size s"
  shows "in_place f s off len dst = Some (s\<lparr>s_data := write_bytes (s_data s) dst out\<rparr>, x)"
proof -
  have "pending (s\<lparr>s_p := off\<rparr>) bs" using assms(1-4) by (simp add: pending_def)
  then show ?thesis using assms(2,5-7)
    by (simp add: in_place_def in_uint8a_pending out_uint8p_emit room_def emit_def)
qed

subsection \<open>The bytes of a protected packet\<close>

definition fips_pad :: "byte list \<Rightarrow> nat" where
  "fips_pad payload = nat ((8 - int (length payload) mod 8) AND 7)"

definition sec_packet :: "'k crypto \<Rightarrow> int \<Rightarrow> 'k sec_keys \<Rightarrow> byte list \<Rightarrow> byte list" where
  "sec_packet cr level keys payload =
     (if level = CRYPT_LEVEL_FIPS
      then enc32_le SEC_ENCRYPT @ enc16_le 16 @ enc8 1 @ enc8 (int (fips_pad payload)) @ xrdp_sec_fips_sign cr keys 8 payload
        @ fst (xrdp_sec_fips_encrypt cr keys (payload @ replicate (fips_pad payload) 0))
      else if level > CRYPT_LEVEL_LOW
      then enc32_le SEC_ENCRYPT @ xrdp_sec_sign cr keys 8 payload @ fst (xrdp_sec_encrypt cr keys payload)
      else if level > CRYPT_LEVEL_NONE then enc32_le 0 @ payload
      else payload)"

definition sec_next_keys :: "'k crypto \<Rightarrow> int \<Rightarrow> 'k sec_keys \<Rightarrow> byte list \<Rightarrow> 'k sec_keys" where
  "sec_next_keys cr level keys payload =
     (if level = CRYPT_LEVEL_FIPS then snd (xrdp_sec_fips_encrypt cr keys (payload @ replicate (fips_pad payload) 0))
      else if level > CRYPT_LEVEL_LOW then snd (xrdp_sec_encrypt cr keys payload) else keys)"

definition sec_overhead :: "int \<Rightarrow> int" where
  "sec_overhead level = (if level = CRYPT_LEVEL_FIPS then 16 else if level > CRYPT_LEVEL_LOW then 12
     else if level > CRYPT_LEVEL_NONE then 4 else 0)"

lemma fips_pad_props: "fips_pad payload < 8" "8 dvd length payload + fips_pad payload"
proof -
  have and7: "(v :: int) AND 7 = v mod 8" for v using take_bit_eq_mask[of 3 v] by (simp add: take_bit_eq_mod mask_eq_exp_minus_1)
  have pad: "int (fips_pad payload) = (8 - int (length payload) mod 8) mod 8" by (simp add: fips_pad_def and7)
  then show "fips_pad payload < 8" using pos_mod_bound[of 8 "8 - int (length payload) mod 8"] by linarith
  have "(int (length payload) + int (fips_pad payload)) mod 8 = 0" unfolding pad by (simp add: mod_simps)
  then show "8 dvd length payload + fips_pad payload" by (metis dvd_eq_mod_eq_0 int_dvd_int_iff of_nat_add of_nat_numeral)
qed

lemma sign_length: "crypto_ok cr dual \<Longrightarrow> length (xrdp_sec_sign cr keys 8 data) = 8"
  "crypto_ok cr dual \<Longrightarrow> length (xrdp_sec_fips_sign cr keys 8 data) = 8"
  by (simp_all add: xrdp_sec_sign_def xrdp_sec_fips_sign_def Let_def crypto_okD)

lemma sec_packet_length:
  assumes "crypto_ok cr dual"
  shows "int (length (sec_packet cr level keys payload))
     = sec_overhead level + int (length payload) + (if level = CRYPT_LEVEL_FIPS then int (fips_pad payload) else 0)"
  by (simp add: sec_packet_def sec_overhead_def sign_length[OF assms] encrypt_length[OF assms] fips_encrypt_length[OF assms])

text \<open>A packet that waits for its security header: the payload behind the fifteen bytes of the lower layers
  and the header's room.\<close>

definition sec_prepared :: "int \<Rightarrow> stream \<Rightarrow> byte list \<Rightarrow> bool" where
  "sec_prepared level s payload \<longleftrightarrow> iso_hdr s = 0 \<and> mcs_hdr s = 7 \<and> (level > CRYPT_LEVEL_NONE \<longrightarrow> sec_hdr s = 15)
     \<and> s_end s = 15 + sec_overhead level + int (length payload) \<and> bytes_at (s_data s) (15 + sec_overhead level) payload
     \<and> s_end s + 8 \<le> s_size s"

lemma sec_wrap_rc4:
  assumes ok: "crypto_ok cr dual" and prep: "sec_prepared level s payload" and mid: "CRYPT_LEVEL_LOW < level" "level \<noteq> CRYPT_LEVEL_FIPS"
  obtains s' where "sec_wrap cr level keys (s_pop_layer s sec_hdr) = Some (sec_next_keys cr level keys payload, s')"
    "iso_hdr s' = 0" "mcs_hdr s' = 7" "bytes_at (s_data s') 15 (sec_packet cr level keys payload)"
    "s_end s' = 15 + int (length (sec_packet cr level keys payload))" "s_end s' < s_size s'"
proof -
  note p = prep[unfolded sec_prepared_def]
  define sign enc where "sign = xrdp_sec_sign cr keys 8 payload" and "enc = fst (xrdp_sec_encrypt cr keys payload)"
  have len: "length sign = 8" "length enc = length payload" using ok by (simp_all add: sign_def enc_def sign_length encrypt_length)
  define s1 where "s1 = emit (s_pop_layer s sec_hdr) (enc32_le SEC_ENCRYPT)"
  have size: "sec_hdr s = 15" "s_end s = 27 + int (length payload)" "s_end s + 8 \<le> s_size s"
    using p mid by (simp_all add: sec_overhead_def)
  have s1: "s_p s1 = 19" "s_end s1 = 27 + int (length payload)" "s_size s1 = s_size s" "bytes_at (s_data s1) 27 payload"
    "s_data s1 = write_bytes (s_data s) 15 (enc32_le SEC_ENCRYPT)"
    using p mid by (simp_all add: s1_def s_pop_layer_def sec_overhead_def bytes_at_behind)
  define s2 where "s2 = s1\<lparr>s_data := write_bytes (s_data s1) 19 sign\<rparr>"
  have sign: "in_place (\<lambda>data. (xrdp_sec_sign cr keys 8 data, ())) s1 27 (int (length payload)) 19 = Some (s2, ())"
    unfolding s2_def by (rule in_place_law[OF s1(4)]) (use s1 size len in \<open>simp_all add: sign_def\<close>)
  have b2: "bytes_at (s_data s2) 27 payload" "s_p s2 = 19" using s1(1,4) len by (simp_all add: s2_def bytes_at_behind)
  define s3 where "s3 = s2\<lparr>s_data := write_bytes (s_data s2) 27 enc\<rparr>"
  have enc: "in_place (xrdp_sec_encrypt cr keys) s2 27 (int (length payload)) 27 = Some (s3, snd (xrdp_sec_encrypt cr keys payload))"
    unfolding s3_def by (rule in_place_law[OF b2(1)]) (use s1 size len in \<open>simp_all add: enc_def s2_def\<close>)
  have packet: "sec_packet cr level keys payload = enc32_le SEC_ENCRYPT @ sign @ enc" using mid by (simp add: sec_packet_def sign_def enc_def)
  have data: "s_data s3 = write_bytes (s_data s) 15 (sec_packet cr level keys payload)"
    unfolding packet write_bytes_append by (simp add: s3_def s2_def s1(5) len)
  have wrap: "sec_wrap cr level keys (s_pop_layer s sec_hdr) = Some (sec_next_keys cr level keys payload, s3)"
    using mid size sign enc s1 b2(2) p
    by (simp add: sec_wrap_def out_emit room_def s_pop_layer_def[of s] sec_next_keys_def) (simp add: s1_def s_pop_layer_def)
  show thesis
    by (rule that[OF wrap]) (use p s1 size len data in \<open>simp_all add: s3_def s2_def bytes_at_write_bytes packet s1_def s_pop_layer_def\<close>)
qed

lemma sec_wrap_fips:
  assumes ok: "crypto_ok cr dual" and prep: "sec_prepared level s payload" and fips: "level = CRYPT_LEVEL_FIPS"
  obtains s' where "sec_wrap cr level keys (s_pop_layer s sec_hdr) = Some (sec_next_keys cr level keys payload, s')"
    "iso_hdr s' = 0" "mcs_hdr s' = 7" "bytes_at (s_data s') 15 (sec_packet cr level keys payload)"
    "s_end s' = 15 + int (length (sec_packet cr level keys payload))" "s_end s' < s_size s'"
proof -
  note p = prep[unfolded sec_prepared_def]
  define n sign enc where "n = fips_pad payload" and "sign = xrdp_sec_fips_sign cr keys 8 payload"
    and "enc = fst (xrdp_sec_fips_encrypt cr keys (payload @ replicate n 0))"
  define A B where "A = enc32_le SEC_ENCRYPT @ enc16_le 16 @ enc8 1" and "B = enc8 (int n) @ sign"
  have len: "length sign = 8" "length enc = length payload + n" "length A = 7" "length B = 9" "n < 8"
    using ok fips_pad_props(1)[of payload]
    by (simp_all add: sign_def enc_def n_def sign_length fips_encrypt_length A_def B_def)
  have size: "sec_hdr s = 15" "s_end s = 31 + int (length payload)" "s_end s + 8 \<le> s_size s" "bytes_at (s_data s) 31 payload"
    using p fips by (simp_all add: sec_overhead_def)
  define s3 where "s3 = s\<lparr>s_p := 22, s_end := s_end s + int n,
    s_data := write_bytes (write_bytes (s_data s) 15 A) (31 + int (length payload)) (replicate n 0)\<rparr>"
  define s4 where "s4 = emit s3 (enc8 (int n))"
  have s4: "s_p s4 = 23" "s_size s4 = s_size s" "s_end s4 = s_end s + int n" by (simp_all add: s4_def s3_def)
  have b4: "bytes_at (s_data s4) 31 (payload @ replicate n 0)"
    using size(4) len by (simp add: s4_def s3_def bytes_at_append bytes_at_behind bytes_at_before bytes_at_write_bytes)
  then have b4': "bytes_at (s_data s4) 31 payload" by (simp add: bytes_at_append)
  define s5 where "s5 = s4\<lparr>s_data := write_bytes (s_data s4) 23 sign\<rparr>"
  have sign: "in_place (\<lambda>data. (xrdp_sec_fips_sign cr keys 8 data, ())) s4 31 (int (length payload)) 23 = Some (s5, ())"
    unfolding s5_def by (rule in_place_law[OF b4']) (use s4 size len in \<open>simp_all add: sign_def\<close>)
  have b5: "bytes_at (s_data s5) 31 (payload @ replicate n 0)" "s_p s5 = 23" using b4 s4 len by (simp_all add: s5_def bytes_at_behind)
  define s6 where "s6 = s5\<lparr>s_data := write_bytes (s_data s5) 31 enc\<rparr>"
  have enc: "in_place (xrdp_sec_fips_encrypt cr keys) s5 31 (int (length payload) + int n) 31
      = Some (s6, snd (xrdp_sec_fips_encrypt cr keys (payload @ replicate n 0)))"
    unfolding s6_def by (rule in_place_law[OF b5(1)]) (use s4 size len in \<open>simp_all add: enc_def s5_def\<close>)
  have packet: "sec_packet cr level keys payload = A @ B @ enc" using fips by (simp add: sec_packet_def sign_def enc_def n_def A_def B_def)
  have "s_data s5 = write_bytes (s_data s3) 22 B" by (simp add: s5_def s4_def B_def s3_def write_bytes_append)
  then have data: "bytes_at (s_data s6) 15 (A @ B @ enc)"
    using len by (simp add: s6_def bytes_at_append bytes_at_write_bytes bytes_at_before s3_def)
  have pad: "(8 - int (length payload) mod 8) AND 7 = int n" by (simp add: n_def fips_pad_def)
  define s2 where "s2 = emit (s\<lparr>s_p := 15\<rparr>) A"
  have fill: "out_uint8p (s2\<lparr>s_p := s_end s2\<rparr>) (replicate n 0) = Some (emit (s2\<lparr>s_p := s_end s2\<rparr>) (replicate n 0))"
    "(emit (s2\<lparr>s_p := s_end s2\<rparr>) (replicate n 0))\<lparr>s_p := s_p s2, s_end := s_end s2 + int n\<rparr> = s3"
    using size len by (auto simp: out_emit room_def s2_def s3_def emit_def)
  have mark: "out_uint8 s3 (int n) = Some s4" using size len by (simp add: out_emit room_def s4_def s3_def)
  have head: "out_uint32_le (s\<lparr>s_p := 15\<rparr>) SEC_ENCRYPT = Some (emit (s\<lparr>s_p := 15\<rparr>) (enc32_le SEC_ENCRYPT))"
    "out_uint16_le (emit (s\<lparr>s_p := 15\<rparr>) (enc32_le SEC_ENCRYPT)) 16 = Some (emit (s\<lparr>s_p := 15\<rparr>) (enc32_le SEC_ENCRYPT @ enc16_le 16))"
    "out_uint8 (emit (s\<lparr>s_p := 15\<rparr>) (enc32_le SEC_ENCRYPT @ enc16_le 16)) 1 = Some s2"
    using size by (simp_all add: out_emit room_def s2_def A_def)
  have "s_end s2 = 31 + int (length payload)" using size by (simp add: s2_def)
  then have wrap: "sec_wrap cr level keys (s_pop_layer s sec_hdr) = Some (sec_next_keys cr level keys payload, s6)"
    using fips size(1,2) sign enc s4(1) b5(2) fill mark
    by (simp add: sec_wrap_def s_pop_layer_def head pad sec_next_keys_def n_def)
  show thesis
    by (rule that[OF wrap]) (use p s4 size len data in \<open>simp_all add: s6_def s5_def packet s4_def s3_def\<close>)
qed

lemma sec_wrap_law:
  assumes ok: "crypto_ok cr dual" and prep: "sec_prepared level s payload"
  obtains s' where "sec_wrap cr level keys (s_pop_layer s sec_hdr) = Some (sec_next_keys cr level keys payload, s')"
    "iso_hdr s' = 0" "mcs_hdr s' = 7" "bytes_at (s_data s') 15 (sec_packet cr level keys payload)"
    "s_end s' = 15 + int (length (sec_packet cr level keys payload))" "s_end s' < s_size s'"
proof -
  note p = prep[unfolded sec_prepared_def]
  consider (none) "level \<le> CRYPT_LEVEL_NONE" | (low) "level = CRYPT_LEVEL_LOW" | (mid) "CRYPT_LEVEL_LOW < level" "level \<noteq> CRYPT_LEVEL_FIPS"
    | (fips) "level = CRYPT_LEVEL_FIPS" by linarith
  then show thesis
  proof cases
    case none
    then show thesis using p by (intro that[of "s_pop_layer s sec_hdr"])
      (auto simp: sec_wrap_def sec_packet_def sec_next_keys_def sec_overhead_def s_pop_layer_def)
  next
    case low
    then show thesis using p by (intro that[of "emit (s_pop_layer s sec_hdr) (enc32_le 0)"])
      (auto simp: sec_wrap_def sec_packet_def sec_next_keys_def sec_overhead_def s_pop_layer_def out_emit room_def
        bytes_at_append bytes_at_write_bytes bytes_at_behind)
  next
    case mid
    then show thesis using sec_wrap_rc4[OF ok prep] that by blast
  next
    case fips
    then show thesis using sec_wrap_fips[OF ok prep] that by blast
  qed
qed

lemma upd_mcs_sel [simp]: "mcs_layer (xs_sec (upd_mcs mcs self)) = mcs" "xs_keys (upd_mcs mcs self) = xs_keys self"
  "crypt_level (xs_sec (upd_mcs mcs self)) = crypt_level (xs_sec self)" "xs_logon (upd_mcs mcs self) = xs_logon self"
  "is_security_header_present (upd_mcs mcs self) = is_security_header_present self"
  by (simp_all add: upd_mcs_def)

text \<open>The transport of a connection.\<close>

abbreviation sec_trans :: "'k xrdp_sec_conn \<Rightarrow> trans" where
  "sec_trans self \<equiv> mcs_trans (mcs_layer (xs_sec self))"

lemma mcs_sent_code: "mcs_sent mcs bs (r, mcs') \<Longrightarrow> mcs_sent mcs bs (if r \<noteq> 0 then 1 else 0, mcs')"
  by (auto simp: mcs_sent_def)

lemma xrdp_sec_send_quiet:
  assumes ok: "crypto_ok cr dual" and prep: "sec_prepared (crypt_level (xs_sec self)) s payload"
    and small: "length payload \<le> 16340" and wr: "writer_ok (sec_trans self)" and quiet: "chan = MCS_GLOBAL_CHANNEL \<longrightarrow> quiet_callback cb"
  shows "wp (xrdp_sec_send cr cb self s chan) (\<lambda>(r, self', s').
     mcs_sent (mcs_layer (xs_sec self)) (sdin_bytes (userid (mcs_layer (xs_sec self))) chan
       (sec_packet cr (crypt_level (xs_sec self)) (xs_keys self) payload)) (r, mcs_layer (xs_sec self'))
     \<and> xs_keys self' = sec_next_keys cr (crypt_level (xs_sec self)) (xs_keys self) payload
     \<and> crypt_level (xs_sec self') = crypt_level (xs_sec self) \<and> xs_logon self' = xs_logon self)"
proof -
  let ?level = "crypt_level (xs_sec self)"
  obtain s' where s': "sec_wrap cr ?level (xs_keys self) (s_pop_layer s sec_hdr) = Some (sec_next_keys cr ?level (xs_keys self) payload, s')"
    "iso_hdr s' = 0" "mcs_hdr s' = 7" "bytes_at (s_data s') 15 (sec_packet cr ?level (xs_keys self) payload)"
    "s_end s' = 15 + int (length (sec_packet cr ?level (xs_keys self) payload))" "s_end s' < s_size s'"
    by (rule sec_wrap_law[OF ok prep])
  have "int (length (sec_packet cr ?level (xs_keys self) payload)) \<le> 16369"
    using sec_packet_length[OF ok, of ?level "xs_keys self" payload] small fips_pad_props(1)[of payload] by (auto simp: sec_overhead_def split: if_splits)
  then have "length (sec_packet cr ?level (xs_keys self) payload) \<le> 16369" by simp
  from xrdp_mcs_send_quiet[OF s'(2,3,5,4,6) this wr quiet] show ?thesis
    by (auto simp del: if_not_P simp: xrdp_sec_send_def s'(1) wp_bind elim!: wp_mono dest: mcs_sent_code)
qed

lemma xrdp_sec_send_law:
  assumes "crypto_ok cr dual" and "sec_prepared (crypt_level (xs_sec self)) s payload"
    and "length payload \<le> 16340" and "writer_ok (sec_trans self)" and "chan \<noteq> MCS_GLOBAL_CHANNEL"
  shows "wp (xrdp_sec_send cr cb self s chan) (\<lambda>(r, self', s').
     mcs_sent (mcs_layer (xs_sec self)) (sdin_bytes (userid (mcs_layer (xs_sec self))) chan
       (sec_packet cr (crypt_level (xs_sec self)) (xs_keys self) payload)) (r, mcs_layer (xs_sec self'))
     \<and> xs_keys self' = sec_next_keys cr (crypt_level (xs_sec self)) (xs_keys self) payload
     \<and> crypt_level (xs_sec self') = crypt_level (xs_sec self))"
  by (rule wp_mono [OF xrdp_sec_send_quiet [OF assms(1-4)]]) (use assms(5) in auto)

lemma sec_init_prepared:
  assumes "s_size s \<le> 32768" "length payload \<le> 16340"
  shows "sec_prepared level (s_mark_end (emit (xrdp_sec_init level s) payload)) payload"
  using assms
  by (simp add: sec_prepared_def xrdp_sec_init_def Let_def xrdp_mcs_init_def xrdp_iso_init_def s_push_layer_def s_mark_end_def
    sec_overhead_def bytes_at_write_bytes)

subsection \<open>Receiving a protected packet\<close>

definition in_step_at :: "('k \<Rightarrow> 'k \<Rightarrow> bool) \<Rightarrow> int \<Rightarrow> 'k sec_keys \<Rightarrow> 'k sec_keys \<Rightarrow> bool" where
  "in_step_at dual level a b \<longleftrightarrow> (if level = CRYPT_LEVEL_FIPS then fips_mirrored dual a b
     else level > CRYPT_LEVEL_LOW \<longrightarrow> mirrored a b)"

text \<open>The rest of the stream is \<open>bs\<close>.\<close>

definition rest_is :: "stream \<Rightarrow> byte list \<Rightarrow> bool" where
  "rest_is s bs \<longleftrightarrow> 0 \<le> s_p s \<and> s_end s = s_p s + int (length bs) \<and> s_end s \<le> s_size s \<and> bytes_at (s_data s) (s_p s) bs"

lemma rest_is_pending: "rest_is s (as @ bs) \<Longrightarrow> pending s as" "rest_is s (as @ bs) \<Longrightarrow> rest_is (in_uint8s s (int (length as))) bs"
  by (auto simp: rest_is_def pending_def bytes_at_append)

lemma in_place_rest:
  assumes "rest_is s bs" "f bs = (out, x)" "length out = length bs"
  obtains s' where "in_place f s (s_p s) (s_end s - s_p s) (s_p s) = Some (s', x)" "rest_is s' out"
proof -
  have "in_place f s (s_p s) (s_end s - s_p s) (s_p s) = Some (s\<lparr>s_data := write_bytes (s_data s) (s_p s) out\<rparr>, x)"
    by (rule in_place_law[where bs = bs]) (use assms in \<open>simp_all add: rest_is_def\<close>)
  then show thesis by (rule that) (use assms in \<open>simp add: rest_is_def bytes_at_write_bytes\<close>)
qed

lemma rest_is_rem: "rest_is s bs \<Longrightarrow> n \<le> int (length bs) \<Longrightarrow> s_check_rem s n"
  by (simp add: rest_is_def s_check_rem_def)

lemma rest_is_shorten: "rest_is s (as @ bs) \<Longrightarrow> rest_is (s\<lparr>s_end := s_end s - int (length bs)\<rparr>) as"
  by (simp add: rest_is_def bytes_at_append)

lemma sec_unwrap_rc4:
  assumes ok: "crypto_ok cr dual" and keys: "mirrored a b" and level: "CRYPT_LEVEL_LOW < level" "level \<noteq> CRYPT_LEVEL_FIPS"
    and s: "rest_is s (sign @ fst (xrdp_sec_encrypt cr a payload))" "length sign = 8"
  obtains b' s' where "sec_unwrap cr level SEC_ENCRYPT b s = Some (0, b', s')" "rest_is s' payload" "mirrored (snd (xrdp_sec_encrypt cr a payload)) b'"
proof -
  let ?ct = "fst (xrdp_sec_encrypt cr a payload)"
  have rest: "rest_is (in_uint8s s 8) ?ct" using rest_is_pending(2)[OF s(1)] s(2) by simp
  obtain b' where b': "xrdp_sec_decrypt cr b ?ct = (payload, b')" "mirrored (snd (xrdp_sec_encrypt cr a payload)) b'"
    using decrypt_encrypt[OF ok keys, of payload] by (metis prod.collapse)
  obtain s' where s': "in_place (xrdp_sec_decrypt cr b) (in_uint8s s 8) (s_p (in_uint8s s 8)) (s_end (in_uint8s s 8) - s_p (in_uint8s s 8)) (s_p (in_uint8s s 8)) = Some (s', b')"
    "rest_is s' payload"
    by (rule in_place_rest[where f = "xrdp_sec_decrypt cr b", OF rest b'(1)]) (simp add: encrypt_length[OF ok])
  show thesis
    by (rule that[OF _ s'(2) b'(2)]) (use level rest_is_rem[OF s(1), of 8] s(2) s'(1) in \<open>simp add: sec_unwrap_def\<close>)
qed

lemma sec_unwrap_fips:
  assumes ok: "crypto_ok cr dual" and keys: "fips_mirrored dual a b"
    and s: "rest_is s (enc16_le 16 @ enc8 1 @ enc8 (int (fips_pad payload)) @ sign
       @ fst (xrdp_sec_fips_encrypt cr a (payload @ replicate (fips_pad payload) 0)))" "length sign = 8"
  obtains b' s' where "sec_unwrap cr CRYPT_LEVEL_FIPS SEC_ENCRYPT b s = Some (0, b', s')" "rest_is s' payload"
    "fips_mirrored dual (snd (xrdp_sec_fips_encrypt cr a (payload @ replicate (fips_pad payload) 0))) b'"
proof -
  let ?n = "fips_pad payload" let ?pt = "payload @ replicate ?n 0" let ?ct = "fst (xrdp_sec_fips_encrypt cr a ?pt)"
  have head: "pending s (enc16_le 16)" "pending (in_uint8s s 2) (enc8 1)" "pending (in_uint8s s 3) (enc8 (int ?n))"
    using s(1) rest_is_pending(1)[OF s(1)] by (auto simp: rest_is_def pending_def bytes_at_append add.assoc)
  have rest: "rest_is (in_uint8s s 12) ?ct" using s by (auto simp: rest_is_def bytes_at_append add.assoc)
  have n: "u8 (int ?n) = int ?n" using fips_pad_props(1)[of payload] by (simp add: c_int_simps)
  have "8 dvd length ?pt" using fips_pad_props(2)[of payload] by simp
  then obtain b' where b': "xrdp_sec_fips_decrypt cr b ?ct = (?pt, b')" "fips_mirrored dual (snd (xrdp_sec_fips_encrypt cr a ?pt)) b'"
    using fips_decrypt_encrypt[OF ok keys, of ?pt] by (metis prod.collapse)
  obtain s' where s': "in_place (xrdp_sec_fips_decrypt cr b) (in_uint8s s 12) (s_p (in_uint8s s 12)) (s_end (in_uint8s s 12) - s_p (in_uint8s s 12)) (s_p (in_uint8s s 12)) = Some (s', b')"
    "rest_is s' ?pt"
    by (rule in_place_rest[where f = "xrdp_sec_fips_decrypt cr b", OF rest b'(1)]) (simp add: fips_encrypt_length[OF ok])
  have end': "rest_is (s'\<lparr>s_end := s_end s' - int ?n\<rparr>) payload" using rest_is_shorten[OF s'(2)] by simp
  show thesis
    by (rule that[OF _ end' b'(2)])
      (use rest_is_rem[OF s(1), of 12] s(2) s'(1) head n in \<open>simp add: sec_unwrap_def in_pending u16_def u8_def add.commute[of "s_p s" 12]\<close>)
qed

text \<open>Whether the receiver expects a security header.\<close>

definition sec_header_agrees :: "'k xrdp_sec_conn \<Rightarrow> bool" where
  "sec_header_agrees self \<longleftrightarrow> (is_security_header_present self \<noteq> 0 \<longleftrightarrow> crypt_level (xs_sec self) > CRYPT_LEVEL_NONE)"

lemma sec_recv_packet_law:
  assumes ok: "crypto_ok cr dual" and keys: "in_step_at dual (crypt_level (xs_sec self)) a (xs_keys self)" and hdr: "sec_header_agrees self"
    and s: "rest_is s (sec_packet cr (crypt_level (xs_sec self)) a payload)" and len: "4 \<le> length payload"
  obtains b s' where "sec_recv_packet cr wcstombs junk cb chan self s = Some (0, chan, self\<lparr>xs_keys := b\<rparr>, s')" "rest_is s' payload"
    "in_step_at dual (crypt_level (xs_sec self)) (sec_next_keys cr (crypt_level (xs_sec self)) a payload) b"
proof -
  define level where "level = crypt_level (xs_sec self)"
  have rem: "s_check_rem s 4"
    using rest_is_rem[OF s, of 4] len sec_packet_length[OF ok, of level a payload] by (auto simp: sec_overhead_def level_def split: if_splits)
  consider (none) "level \<le> CRYPT_LEVEL_NONE" | (low) "level = CRYPT_LEVEL_LOW" | (mid) "CRYPT_LEVEL_LOW < level" "level \<noteq> CRYPT_LEVEL_FIPS"
    | (fips) "level = CRYPT_LEVEL_FIPS" by linarith
  then show thesis
  proof cases
    case none
    then have "is_security_header_present self = 0" using hdr by (simp add: sec_header_agrees_def level_def)
    then show thesis using none s rem that[of "xs_keys self" s]
      by (simp add: sec_recv_packet_def sec_packet_def sec_next_keys_def in_step_at_def level_def)
  next
    case low
    then have rest: "rest_is s (enc32_le 0 @ payload)" using s by (simp add: sec_packet_def level_def)
    have "is_security_header_present self \<noteq> 0" using hdr low by (simp add: sec_header_agrees_def level_def)
    then show thesis using low rem that[of "xs_keys self" "in_uint8s s 4"] rest_is_pending[OF rest]
      by (simp add: sec_recv_packet_def sec_next_keys_def in_step_at_def level_def in_pending u32_def sec_unwrap_def)
  next
    case mid
    then have rest: "rest_is s (enc32_le SEC_ENCRYPT @ xrdp_sec_sign cr a 8 payload @ fst (xrdp_sec_encrypt cr a payload))"
      using s by (simp add: sec_packet_def level_def)
    have m: "mirrored a (xs_keys self)" using keys mid by (simp add: in_step_at_def level_def)
    obtain b s' where u: "sec_unwrap cr level SEC_ENCRYPT (xs_keys self) (in_uint8s s 4) = Some (0, b, s')" "rest_is s' payload"
      "mirrored (snd (xrdp_sec_encrypt cr a payload)) b"
      by (rule sec_unwrap_rc4[OF ok m mid, of "in_uint8s s 4"]) (use rest_is_pending(2)[OF rest] sign_length[OF ok] in auto)
    have "is_security_header_present self \<noteq> 0" using hdr mid by (simp add: sec_header_agrees_def level_def)
    then show thesis using mid rem that[of b s'] rest_is_pending(1)[OF rest] u
      by (simp add: sec_recv_packet_def sec_next_keys_def in_step_at_def level_def in_pending u32_def)
  next
    case fips
    then have rest: "rest_is s (enc32_le SEC_ENCRYPT @ enc16_le 16 @ enc8 1 @ enc8 (int (fips_pad payload)) @ xrdp_sec_fips_sign cr a 8 payload
        @ fst (xrdp_sec_fips_encrypt cr a (payload @ replicate (fips_pad payload) 0)))"
      using s by (simp add: sec_packet_def level_def)
    have m: "fips_mirrored dual a (xs_keys self)" using keys fips by (simp add: in_step_at_def level_def)
    obtain b s' where u: "sec_unwrap cr CRYPT_LEVEL_FIPS SEC_ENCRYPT (xs_keys self) (in_uint8s s 4) = Some (0, b, s')" "rest_is s' payload"
      "fips_mirrored dual (snd (xrdp_sec_fips_encrypt cr a (payload @ replicate (fips_pad payload) 0))) b"
      by (rule sec_unwrap_fips[OF ok m, of "in_uint8s s 4"]) (use rest_is_pending(2)[OF rest] sign_length[OF ok] in auto)
    have "is_security_header_present self \<noteq> 0" using hdr fips by (simp add: sec_header_agrees_def level_def)
    then show thesis using fips rem that[of b s'] rest_is_pending(1)[OF rest] u
      by (simp add: sec_recv_packet_def sec_next_keys_def in_step_at_def level_def in_pending u32_def)
  qed
qed

subsection \<open>The logon information\<close>

text \<open>A parser followed by the test of its return value.\<close>

lemma parsed_then:
  assumes "wp m (parsed3 s)" "\<And>x s'. in_pos s' \<Longrightarrow> wp (k x s') (parsed3 s')"
  shows "wp (Option.bind m (\<lambda>(r, x, s'). if r \<noteq> 0 then Some (1, e x, s') else k x s')) (parsed3 s)"
proof (rule wp_parsed3E[OF assms(1)])
  fix r x s' assume m: "m = Some (r, x, s')" "r = 0 \<or> r = 1" "in_step s s'"
  show ?thesis
  proof (cases "r = 0")
    case True
    then show ?thesis using m parsed3_after[OF assms(2)[OF in_step_pos[OF m(3)]] m(3), of x] by simp
  next
    case False
    then show ?thesis using m by simp
  qed
qed

lemma parsed_guard:
  assumes "in_pos s" "s_check_rem s n \<Longrightarrow> wp m (parsed3 s)"
  shows "wp (if \<not> s_check_rem s n then Some (1, e, s) else m) (parsed3 s)"
  using assms by (simp add: in_step_refl)

lemma parsed_skip:
  assumes "in_pos s" "s_check_rem s n" "0 \<le> n" "in_pos (in_uint8s s n) \<Longrightarrow> wp m (parsed3 (in_uint8s s n))"
  shows "wp m (parsed3 s)"
proof -
  have "in_step s (in_uint8s s n)" using assms(1-3) by (intro in_step_skip) (simp_all add: s_check_rem_def)
  then show ?thesis using parsed3_after[OF assms(4)] in_step_pos by blast
qed

lemma read16_ok: "in_pos s \<Longrightarrow> s_check_rem s 2 \<Longrightarrow> \<exists>v\<ge>0. in_uint16_le s = Some (v, in_uint8s s 2)"
  by (auto simp: in_uint16_le_ok in_pos_def s_check_rem_def)

lemma utf16_read_safe: "in_pos s \<Longrightarrow> wp (utf16_read n s) (parsed3 s)"
proof (induction n arbitrary: s)
  case (Suc n)
  have "wp (do { (c, s) \<leftarrow> in_uint16_le s; (r, cs, s) \<leftarrow> utf16_read n s; Some (r, c # cs, s) }) (parsed3 s)" if rem: "s_check_rem s 2"
  proof (rule parsed_skip[OF Suc.prems rem])
    assume pos: "in_pos (in_uint8s s 2)"
    show "wp (do { (c, s) \<leftarrow> in_uint16_le s; (r, cs, s) \<leftarrow> utf16_read n s; Some (r, c # cs, s) }) (parsed3 (in_uint8s s 2))"
      using read16_ok[OF Suc.prems rem] Suc.IH[OF pos] by (auto simp: wp_bind elim!: wp_mono)
  qed simp
  then show ?case unfolding utf16_read.simps by (rule parsed_guard[OF Suc.prems])
qed (simp add: in_step_refl)

lemma unicode_utf16_in_safe:
  assumes "in_pos s" "- 2 < src_bytes"
  shows "wp (unicode_utf16_in w s src_bytes n) (parsed3 s)"
proof (cases "src_bytes = 0")
  case True
  then show ?thesis using assms(1) by (auto simp: unicode_utf16_in_def in_step_refl s_check_rem_def intro: in_step_skip)
next
  case False
  then show ?thesis using utf16_read_safe[OF assms(1), of "nat ((src_bytes + 2) div 2)"] assms(2)
    by (auto simp: unicode_utf16_in_def wp_bind Let_def elim!: wp_mono)
qed

lemma logon_len_safe:
  assumes "in_pos s"
  shows "wp (logon_len s) (\<lambda>(r, len, s'). (r = 0 \<or> r = 1) \<and> in_step s s' \<and> 0 \<le> len)"
  using assms read16_ok[OF assms] by (auto simp: logon_len_def in_step_refl s_check_rem_def in_step_skip)

lemma parsed_len_seq:
  assumes "in_pos s" "\<And>len s'. in_pos s' \<Longrightarrow> 0 \<le> len \<Longrightarrow> wp (k len s') (parsed3 s')"
  shows "wp (Option.bind (logon_len s) (\<lambda>(r, len, s'). if r \<noteq> 0 then Some (1, e, s') else k len s')) (parsed3 s)"
proof -
  obtain r len s' where m: "logon_len s = Some (r, len, s')" "r = 0 \<or> r = 1" "in_step s s'" "0 \<le> len"
    using logon_len_safe[OF assms(1)] by (auto simp: wp_exists)
  show ?thesis using m parsed3_after[OF assms(2)[OF in_step_pos[OF m(3)] m(4)] m(3)] by auto
qed

lemma logon_string_safe:
  assumes "in_pos s" "0 \<le> len"
  shows "wp (logon_string w s len upd li) (parsed3 s)"
  using unicode_utf16_in_safe[OF assms(1), of len w 255] assms(2)
  by (auto simp: logon_string_def wp_bind elim!: wp_mono)

lemma logon_password_safe:
  assumes "in_pos s" "0 \<le> len"
  shows "wp (logon_password w flags s len li) (parsed3 s)"
  using logon_string_safe[OF assms] assms
  by (auto simp: logon_password_def in_step_refl s_check_rem_def in_step_skip)

text \<open>Everything behind the flags, without the extended part.\<close>

lemma logon_info_safe:
  assumes pos: "in_pos s" and noblob: "\<And>flags s'. s_check_rem s 8 \<Longrightarrow> in_uint32_le (in_uint8s s 4) = Some (flags, s') \<Longrightarrow> flags AND RDP_LOGON_BLOB = 0"
  shows "wp (xrdp_sec_process_logon_info w li s) (parsed3 s)"
proof (cases "s_check_rem s 8")
  case rem: True
  show ?thesis
  proof (rule parsed_skip[OF pos rem])
    assume pos8: "in_pos (in_uint8s s 8)"
    have "in_ok (in_uint8s s 4)" using in_posD[OF pos] by simp
    then obtain flags where flags: "in_uint32_le (in_uint8s s 4) = Some (flags, in_uint8s s 8)"
      using in_uint32_le_ok[of "in_uint8s s 4"] rem by (auto simp: s_check_rem_def)
    show "wp (xrdp_sec_process_logon_info w li s) (parsed3 (in_uint8s s 8))"
      using noblob[OF rem flags] pos8
      by (auto simp: xrdp_sec_process_logon_info_def rem flags Let_def in_step_refl
        intro!: parsed_len_seq parsed_then[OF logon_string_safe] parsed_then[OF logon_password_safe])
  qed simp
qed (simp add: xrdp_sec_process_logon_info_def pos in_step_refl)


subsection \<open>The properties\<close>

text \<open>A library of ciphers to try: every digest is constant, every cipher adds the key byte bitwise.\<close>

definition demo_crypto :: "byte crypto" where
  "demo_crypto = \<lparr>sha1 = (\<lambda>_. replicate 20 3), md5 = (\<lambda>_. replicate 16 5), hmac_sha1 = (\<lambda>_ _. replicate 20 7),
     rc4_set_key = (\<lambda>key. foldr (XOR) key 0), rc4_crypt = (\<lambda>k x. (map (\<lambda>b. b XOR k) x, k + 1)),
     des3_encrypt_create = (\<lambda>key iv. foldr (XOR) key 0), des3_decrypt_create = (\<lambda>key iv. foldr (XOR) key 0),
     des3_encrypt = (\<lambda>k x. (map (\<lambda>b. b XOR k) x, k + 1)), des3_decrypt = (\<lambda>k x. (map (\<lambda>b. b XOR k) x, k + 1)),
     mod_exp = (\<lambda>n x m e. replicate n 9)\<rparr>"

lemma demo_crypto_ok: "crypto_ok demo_crypto (=)"
  by (simp add: crypto_ok_def demo_crypto_def comp_def xor.assoc)

definition demo_keys :: "byte sec_keys" where
  "demo_keys = \<lparr>client_random = replicate 32 1, decrypt_use_count = 4096, encrypt_use_count = 4096, decrypt_key = replicate 16 2,
     encrypt_key = replicate 16 2, decrypt_update_key = replicate 16 2, encrypt_update_key = replicate 16 2, rc4_key_len = 16,
     sign_key = replicate 16 4, decrypt_rc4_info = 0, encrypt_rc4_info = 0, fips_encrypt_key = [], fips_decrypt_key = [],
     fips_sign_key = [], encrypt_fips_info = 6, decrypt_fips_info = 6\<rparr>"

text \<open>Two sides whose keys are in step stay in step: however many messages are encrypted, through every key
  update after 4096 of them, decryption gives back the same messages in the same order.\<close>

theorem sec_messages_in_step:
  assumes "crypto_ok cr dual" and "mirrored a b"
  shows "fst (through (xrdp_sec_decrypt cr) b (fst (through (xrdp_sec_encrypt cr) a msgs))) = msgs
     \<and> mirrored (snd (through (xrdp_sec_encrypt cr) a msgs)) (snd (through (xrdp_sec_decrypt cr) b (fst (through (xrdp_sec_encrypt cr) a msgs))))"
  using rc4_cipher.messages_arrive[of cr dual a b msgs] assms by simp

theorem sec_messages_in_step_witness:
  "fst (through (xrdp_sec_decrypt demo_crypto) demo_keys (fst (through (xrdp_sec_encrypt demo_crypto) demo_keys [[1, 2], [3]]))) = [[1, 2], [3]]"
  using sec_messages_in_step[OF demo_crypto_ok, of demo_keys demo_keys "[[1, 2], [3]]"] by (simp add: mirrored_def demo_keys_def)


definition demo_logon :: logon_info where
  "demo_logon = \<lparr>li_is_mce = 0, li_use_bulk_comp = 0, li_require_credentials = 0, li_sound_code = 0, li_rail_enable = 0,
     li_rdp_autologin = 0, li_rdp_compression = 0, li_domain = [], li_username = [], li_password = [], li_program = [],
     li_directory = [], li_rdp5_performanceflags = 0\<rparr>"

text \<open>A connection at the FIPS level.\<close>

definition demo_conn :: "tx_event list \<Rightarrow> byte xrdp_sec_conn" where
  "demo_conn tx = \<lparr>xs_sec = (sec_link [] tx)\<lparr>crypt_level := CRYPT_LEVEL_FIPS\<rparr>, xs_keys = demo_keys, xs_logon = demo_logon,
     is_security_header_present = 1\<rparr>"



end
