(* ===== verification/Fastpath.thy ===== *)
theory Fastpath
  imports Sec_Laws
begin

text \<open>
  The fast path (\<open>libxrdp/xrdp_fastpath.c\<close> and the fast-path half of \<open>libxrdp/xrdp_sec.c\<close>): input
  events and drawing updates that go around the X.224 and T.125 layers with a header of two or three
  bytes. \<open>struct xrdp_fastpath\<close> shares the transport of the security layer, so the transport is not
  repeated here. The session callback of the window manager is a function on its state \<open>'w\<close>.
\<close>

abbreviation (input) FASTPATH_INPUT_ENCRYPTED :: int where "FASTPATH_INPUT_ENCRYPTED \<equiv> 2"
abbreviation (input) FASTPATH_INPUT_KBDFLAGS_RELEASE :: int where "FASTPATH_INPUT_KBDFLAGS_RELEASE \<equiv> 1"
abbreviation (input) FASTPATH_INPUT_KBDFLAGS_EXTENDED :: int where "FASTPATH_INPUT_KBDFLAGS_EXTENDED \<equiv> 2"
abbreviation (input) FASTPATH_INPUT_EVENT_SCANCODE :: int where "FASTPATH_INPUT_EVENT_SCANCODE \<equiv> 0"
abbreviation (input) FASTPATH_INPUT_EVENT_MOUSE :: int where "FASTPATH_INPUT_EVENT_MOUSE \<equiv> 1"
abbreviation (input) FASTPATH_INPUT_EVENT_MOUSEX :: int where "FASTPATH_INPUT_EVENT_MOUSEX \<equiv> 2"
abbreviation (input) FASTPATH_INPUT_EVENT_SYNC :: int where "FASTPATH_INPUT_EVENT_SYNC \<equiv> 3"
abbreviation (input) FASTPATH_INPUT_EVENT_UNICODE :: int where "FASTPATH_INPUT_EVENT_UNICODE \<equiv> 4"
abbreviation (input) KBD_FLAG_EXT :: int where "KBD_FLAG_EXT \<equiv> 0x0100"
abbreviation (input) KBD_FLAG_DOWN :: int where "KBD_FLAG_DOWN \<equiv> 0x4000"
abbreviation (input) KBD_FLAG_UP :: int where "KBD_FLAG_UP \<equiv> 0x8000"
abbreviation (input) RDP_INPUT_SYNCHRONIZE :: int where "RDP_INPUT_SYNCHRONIZE \<equiv> 0"
abbreviation (input) RDP_INPUT_SCANCODE :: int where "RDP_INPUT_SCANCODE \<equiv> 4"
abbreviation (input) RDP_INPUT_UNICODE :: int where "RDP_INPUT_UNICODE \<equiv> 5"
abbreviation (input) RDP_INPUT_MOUSE :: int where "RDP_INPUT_MOUSE \<equiv> 0x8001"
abbreviation (input) RDP_INPUT_MOUSEX :: int where "RDP_INPUT_MOUSEX \<equiv> 0x8002"

record xrdp_fastpath =
  numEvents :: int
  secFlags :: int

text \<open>A call of the session callback: message and four parameters.\<close>

datatype session_call = Session_Call (sc_msg: int) (sc_param1: int) (sc_param2: int) (sc_param3: int) (sc_param4: int)

type_synonym 'w session_callback = "(session_call \<Rightarrow> 'w \<Rightarrow> 'w) option"

subsection \<open>The header\<close>

definition xrdp_fastpath_recv :: "xrdp_fastpath \<Rightarrow> stream \<Rightarrow> (int \<times> xrdp_fastpath \<times> stream) option" where
  "xrdp_fastpath_recv self s =
     (let holdp = s_p s in
      if \<not> s_check_rem s 2 then Some (1, self, s) else do {
      (fp_hdr, s) \<leftarrow> in_uint8 s;
      (b, s) \<leftarrow> in_uint8 s;
      let self = self\<lparr>numEvents := drop_bit 2 (fp_hdr AND 0x3C), secFlags := drop_bit 6 (fp_hdr AND 0xC0)\<rparr>;
      if b AND 0x80 \<noteq> 0
      then do {
        let len = push_bit 8 (b AND 0x7F);
        if \<not> s_check_rem s 1 then Some (1, self, s) else do {
        (b, s) \<leftarrow> in_uint8 s;
        Some (0, self, s\<lparr>next_packet := Some (holdp + (len + b))\<rparr>) } }
      else Some (0, self, s\<lparr>next_packet := Some (holdp + b)\<rparr>) })"

definition xrdp_fastpath_init :: "int \<Rightarrow> stream \<Rightarrow> stream" where
  "xrdp_fastpath_init max_fastpath_frag_bytes s =
     init_stream s (if max_fastpath_frag_bytes < 32 * 1024 then 32 * 1024 else max_fastpath_frag_bytes)"

definition xrdp_fastpath_session_callback :: "'w session_callback \<Rightarrow> session_call \<Rightarrow> 'w \<Rightarrow> 'w" where
  "xrdp_fastpath_session_callback callback call w = (case callback of None \<Rightarrow> w | Some f \<Rightarrow> f call w)"

text \<open>The callback of a sent update works on the transport: it may queue channel data.\<close>

definition xrdp_fastpath_send :: "trans session_callback \<Rightarrow> trans \<Rightarrow> stream \<Rightarrow> (int \<times> trans) option" where
  "xrdp_fastpath_send callback tr s = do {
     (r, tr) \<leftarrow> trans_write_copy_s tr s;
     if r \<noteq> 0 then Some (1, tr)
     else Some (0, xrdp_fastpath_session_callback callback (Session_Call 0x5556 0 0 0 0) tr) }"

subsection \<open>Input events\<close>

definition kbd_flags :: "int \<Rightarrow> int" where
  "kbd_flags eventFlags =
     (let flags = (if eventFlags AND FASTPATH_INPUT_KBDFLAGS_RELEASE \<noteq> 0 then KBD_FLAG_UP else KBD_FLAG_DOWN)
      in if eventFlags AND FASTPATH_INPUT_KBDFLAGS_EXTENDED \<noteq> 0 then flags OR KBD_FLAG_EXT else flags)"

definition xrdp_fastpath_process_EVENT_SCANCODE ::
  "'w session_callback \<Rightarrow> int \<Rightarrow> 'w \<Rightarrow> stream \<Rightarrow> (int \<times> 'w \<times> stream) option" where
  "xrdp_fastpath_process_EVENT_SCANCODE callback eventFlags w s =
     (if \<not> s_check_rem s 1 then Some (1, w, s) else do {
      (code, s) \<leftarrow> in_uint8 s;
      Some (0, xrdp_fastpath_session_callback callback (Session_Call RDP_INPUT_SCANCODE code 0 (kbd_flags eventFlags) 0) w, s) })"

definition xrdp_fastpath_process_EVENT_MOUSE ::
  "'w session_callback \<Rightarrow> int \<Rightarrow> 'w \<Rightarrow> stream \<Rightarrow> (int \<times> 'w \<times> stream) option" where
  "xrdp_fastpath_process_EVENT_MOUSE callback eventFlags w s =
     (if eventFlags \<noteq> 0 then Some (1, w, s)
      else if \<not> s_check_rem s (2 + 2 + 2) then Some (1, w, s) else do {
      (pointerFlags, s) \<leftarrow> in_uint16_le s;
      (xPos, s) \<leftarrow> in_uint16_le s;
      (yPos, s) \<leftarrow> in_uint16_le s;
      Some (0, xrdp_fastpath_session_callback callback (Session_Call RDP_INPUT_MOUSE xPos yPos pointerFlags 0) w, s) })"

definition xrdp_fastpath_process_EVENT_MOUSEX ::
  "'w session_callback \<Rightarrow> int \<Rightarrow> 'w \<Rightarrow> stream \<Rightarrow> (int \<times> 'w \<times> stream) option" where
  "xrdp_fastpath_process_EVENT_MOUSEX callback eventFlags w s =
     (if eventFlags \<noteq> 0 then Some (1, w, s)
      else if \<not> s_check_rem s (2 + 2 + 2) then Some (1, w, s) else do {
      (pointerFlags, s) \<leftarrow> in_uint16_le s;
      (xPos, s) \<leftarrow> in_uint16_le s;
      (yPos, s) \<leftarrow> in_uint16_le s;
      Some (0, xrdp_fastpath_session_callback callback (Session_Call RDP_INPUT_MOUSEX xPos yPos pointerFlags 0) w, s) })"

definition xrdp_fastpath_process_EVENT_SYNC ::
  "'w session_callback \<Rightarrow> int \<Rightarrow> 'w \<Rightarrow> stream \<Rightarrow> (int \<times> 'w \<times> stream) option" where
  "xrdp_fastpath_process_EVENT_SYNC callback eventFlags w s =
     Some (0, xrdp_fastpath_session_callback callback (Session_Call RDP_INPUT_SYNCHRONIZE eventFlags 0 0 0) w, s)"

definition xrdp_fastpath_process_EVENT_UNICODE ::
  "'w session_callback \<Rightarrow> int \<Rightarrow> 'w \<Rightarrow> stream \<Rightarrow> (int \<times> 'w \<times> stream) option" where
  "xrdp_fastpath_process_EVENT_UNICODE callback eventFlags w s =
     (if \<not> s_check_rem s 2 then Some (1, w, s) else do {
      (code, s) \<leftarrow> in_uint16_le s;
      Some (0, xrdp_fastpath_session_callback callback (Session_Call RDP_INPUT_UNICODE code 0 (kbd_flags eventFlags) 0) w, s) })"

definition process_event :: "'w session_callback \<Rightarrow> 'w \<Rightarrow> stream \<Rightarrow> (int \<times> 'w \<times> stream) option" where
  "process_event callback w s =
     (if \<not> s_check_rem s 1 then Some (1, w, s) else do {
      (eventHeader, s) \<leftarrow> in_uint8 s;
      let eventFlags = eventHeader AND 0x1F;
      let eventCode = drop_bit 5 eventHeader;
      if eventCode = FASTPATH_INPUT_EVENT_SCANCODE then xrdp_fastpath_process_EVENT_SCANCODE callback eventFlags w s
      else if eventCode = FASTPATH_INPUT_EVENT_MOUSE then xrdp_fastpath_process_EVENT_MOUSE callback eventFlags w s
      else if eventCode = FASTPATH_INPUT_EVENT_MOUSEX then xrdp_fastpath_process_EVENT_MOUSEX callback eventFlags w s
      else if eventCode = FASTPATH_INPUT_EVENT_SYNC then xrdp_fastpath_process_EVENT_SYNC callback eventFlags w s
      else if eventCode = FASTPATH_INPUT_EVENT_UNICODE then xrdp_fastpath_process_EVENT_UNICODE callback eventFlags w s
      else Some (0, w, s) })"

primrec process_events :: "'w session_callback \<Rightarrow> nat \<Rightarrow> 'w \<Rightarrow> stream \<Rightarrow> (int \<times> 'w \<times> stream) option" where
  "process_events callback 0 w s = Some (0, w, s)"
| "process_events callback (Suc n) w s = do {
     (r, w, s) \<leftarrow> process_event callback w s;
     if r \<noteq> 0 then Some (1, w, s) else process_events callback n w s }"

definition xrdp_fastpath_process_input_event ::
  "'w session_callback \<Rightarrow> xrdp_fastpath \<Rightarrow> 'w \<Rightarrow> stream \<Rightarrow> (int \<times> 'w \<times> stream) option" where
  "xrdp_fastpath_process_input_event callback self w s = process_events callback (nat (numEvents self)) w s"

subsection \<open>The security layer of the fast path\<close>

definition fastpath_unwrap :: "'k crypto \<Rightarrow> int \<Rightarrow> 'k sec_keys \<Rightarrow> stream \<Rightarrow> (int \<times> 'k sec_keys \<times> stream) option" where
  "fastpath_unwrap cr level keys s =
     (if level = CRYPT_LEVEL_FIPS
      then if \<not> s_check_rem s 12 then Some (1, keys, s) else do {
        (len, s) \<leftarrow> in_uint16_le s;
        (ver, s) \<leftarrow> in_uint8 s;
        if len \<noteq> 0x10 then Some (1, keys, s) else do {
        (pad, s) \<leftarrow> in_uint8 s;
        let s = in_uint8s s 8;
        (s, keys) \<leftarrow> in_place (xrdp_sec_fips_decrypt cr keys) s (s_p s) (s_end s - s_p s) (s_p s);
        Some (0, keys, s\<lparr>s_end := s_end s - pad\<rparr>) }}
      else if \<not> s_check_rem s 8 then Some (1, keys, s) else do {
        let s = in_uint8s s 8;
        (s, keys) \<leftarrow> in_place (xrdp_sec_decrypt cr keys) s (s_p s) (s_end s - s_p s) (s_p s);
        Some (0, keys, s) })"

definition xrdp_sec_recv_fastpath ::
  "'k crypto \<Rightarrow> 'k xrdp_sec_conn \<Rightarrow> xrdp_fastpath \<Rightarrow> stream \<Rightarrow> (int \<times> 'k xrdp_sec_conn \<times> xrdp_fastpath \<times> stream) option" where
  "xrdp_sec_recv_fastpath cr self fp s = do {
     (r, fp, s) \<leftarrow> xrdp_fastpath_recv fp s;
     if r \<noteq> 0 then Some (1, self, fp, s) else do {
     (r, keys, s) \<leftarrow> (if secFlags fp AND FASTPATH_INPUT_ENCRYPTED \<noteq> 0
        then fastpath_unwrap cr (crypt_level (xs_sec self)) (xs_keys self) s else Some (0, xs_keys self, s));
     let self = self\<lparr>xs_keys := keys\<rparr>;
     if r \<noteq> 0 then Some (1, self, fp, s)
     else if numEvents fp = 0
     then if \<not> s_check_rem s 8 then Some (1, self, fp, s) else do {
       (n, s) \<leftarrow> in_uint8 s;
       Some (0, self, fp\<lparr>numEvents := n\<rparr>, s) }
     else Some (0, self, fp, s) }}"

definition xrdp_sec_get_fastpath_bytes :: "int \<Rightarrow> int" where
  "xrdp_sec_get_fastpath_bytes level =
     (if level = CRYPT_LEVEL_FIPS then 3 + 4 + 8 else if level > CRYPT_LEVEL_LOW then 3 + 8 else 3)"

definition xrdp_sec_init_fastpath :: "int \<Rightarrow> int \<Rightarrow> stream \<Rightarrow> stream" where
  "xrdp_sec_init_fastpath level max_fastpath_frag_bytes s =
     (let s = xrdp_fastpath_init max_fastpath_frag_bytes s in
      if level = CRYPT_LEVEL_FIPS then s_push_layer s sec_hdr_update (3 + 4 + 8)
      else if level > CRYPT_LEVEL_LOW then s_push_layer s sec_hdr_update (3 + 8)
      else s_push_layer s sec_hdr_update 3)"

text \<open>\<open>save\<close> keeps the bytes behind the packet that the padding overwrites, written or not, and puts
  them back after sending. They must lie in the block.\<close>

definition restore :: "memory \<Rightarrow> int \<Rightarrow> int \<Rightarrow> stream \<Rightarrow> stream" where
  "restore saved off n s = s\<lparr>s_data := (\<lambda>i. if off \<le> i \<and> i < off + n then saved i else s_data s i)\<rparr>"

definition xrdp_sec_send_fastpath ::
  "'k crypto \<Rightarrow> trans session_callback \<Rightarrow> int \<Rightarrow> 'k sec_keys \<Rightarrow> trans \<Rightarrow> stream
     \<Rightarrow> (int \<times> 'k sec_keys \<times> trans \<times> stream) option" where
  "xrdp_sec_send_fastpath cr callback level keys tr s =
     (let s = s_pop_layer s sec_hdr; pdulen = s_end s - s_p s in
      if level = CRYPT_LEVEL_FIPS
      then do {
        let datalen = pdulen - 15;
        let pad = (8 - datalen mod 8) AND 7;
        s \<leftarrow> out_uint8 s (push_bit 6 2);
        s \<leftarrow> out_uint16_be s ((pdulen + pad) OR 0x8000);
        s \<leftarrow> out_uint16_le s 16;
        s \<leftarrow> out_uint8 s 1;
        let s = s\<lparr>s_end := s_end s + pad\<rparr>;
        s \<leftarrow> out_uint8 s pad;
        (s, _) \<leftarrow> in_place (\<lambda>data. (xrdp_sec_fips_sign cr keys 8 data, ())) s (s_p s + 8) datalen (s_p s);
        let save = s_data s;
        e \<leftarrow> out_uint8p (s\<lparr>s_p := s_p s + 8 + datalen\<rparr>) (replicate (nat pad) 0);
        let s = e\<lparr>s_p := s_p s\<rparr>;
        (s, keys) \<leftarrow> in_place (xrdp_sec_fips_encrypt cr keys) s (s_p s + 8) (datalen + pad) (s_p s + 8);
        (error, tr) \<leftarrow> xrdp_fastpath_send callback tr s;
        Some (if error \<noteq> 0 then 1 else 0, keys, tr, restore save (s_p s + 8 + datalen) pad s) }
      else if level > CRYPT_LEVEL_LOW
      then do {
        let datalen = pdulen - 11;
        s \<leftarrow> out_uint8 s (push_bit 6 2);
        s \<leftarrow> out_uint16_be s (pdulen OR 0x8000);
        (s, _) \<leftarrow> in_place (\<lambda>data. (xrdp_sec_sign cr keys 8 data, ())) s (s_p s + 8) datalen (s_p s);
        (s, keys) \<leftarrow> in_place (xrdp_sec_encrypt cr keys) s (s_p s + 8) datalen (s_p s + 8);
        (error, tr) \<leftarrow> xrdp_fastpath_send callback tr s;
        Some (if error \<noteq> 0 then 1 else 0, keys, tr, s) }
      else do {
        s \<leftarrow> out_uint8 s 0;
        s \<leftarrow> out_uint16_be s (pdulen OR 0x8000);
        (error, tr) \<leftarrow> xrdp_fastpath_send callback tr s;
        Some (if error \<noteq> 0 then 1 else 0, keys, tr, s) })"

end
