(* ===== verification/Fastpath_Laws.thy ===== *)
theory Fastpath_Laws
  imports Fastpath
begin

text \<open>
  What the fast path guarantees: every input event of a client reaches the window manager, in order and
  through encryption, no received bytes make the parser read outside them, and an update leaves as one
  frame of the announced length.
\<close>

subsection \<open>Input events on the wire\<close>

datatype fp_event =
    Scancode (fe_flags: int) int
  | Mouse int int int
  | MouseX int int int
  | Sync (fe_flags: int)
  | Unicode (fe_flags: int) int
  | Other int (fe_flags: int)

definition event_head :: "int \<Rightarrow> int \<Rightarrow> byte list" where
  "event_head code flags = enc8 (32 * code + flags)"

primrec event_bytes :: "fp_event \<Rightarrow> byte list" where
  "event_bytes (Scancode f c) = event_head 0 f @ enc8 c"
| "event_bytes (Mouse f x y) = event_head 1 0 @ enc16_le f @ enc16_le x @ enc16_le y"
| "event_bytes (MouseX f x y) = event_head 2 0 @ enc16_le f @ enc16_le x @ enc16_le y"
| "event_bytes (Sync f) = event_head 3 f"
| "event_bytes (Unicode f c) = event_head 4 f @ enc16_le c"
| "event_bytes (Other code f) = event_head code f"

primrec event_ok :: "fp_event \<Rightarrow> bool" where
  "event_ok (Scancode f c) \<longleftrightarrow> f \<in> {0..<32} \<and> c \<in> {0..<256}"
| "event_ok (Mouse f x y) \<longleftrightarrow> f \<in> {0..<65536} \<and> x \<in> {0..<65536} \<and> y \<in> {0..<65536}"
| "event_ok (MouseX f x y) \<longleftrightarrow> f \<in> {0..<65536} \<and> x \<in> {0..<65536} \<and> y \<in> {0..<65536}"
| "event_ok (Sync f) \<longleftrightarrow> f \<in> {0..<32}"
| "event_ok (Unicode f c) \<longleftrightarrow> f \<in> {0..<32} \<and> c \<in> {0..<65536}"
| "event_ok (Other code f) \<longleftrightarrow> code \<in> {5..7} \<and> f \<in> {0..<32}"

text \<open>What the window manager is told about an event; of an event with an unknown code nothing.\<close>

primrec event_call :: "fp_event \<Rightarrow> session_call option" where
  "event_call (Scancode f c) = Some (Session_Call RDP_INPUT_SCANCODE c 0 (kbd_flags f) 0)"
| "event_call (Mouse f x y) = Some (Session_Call RDP_INPUT_MOUSE x y f 0)"
| "event_call (MouseX f x y) = Some (Session_Call RDP_INPUT_MOUSEX x y f 0)"
| "event_call (Sync f) = Some (Session_Call RDP_INPUT_SYNCHRONIZE f 0 0 0)"
| "event_call (Unicode f c) = Some (Session_Call RDP_INPUT_UNICODE c 0 (kbd_flags f) 0)"
| "event_call (Other code f) = None"

definition deliver :: "(session_call \<Rightarrow> 'w \<Rightarrow> 'w) \<Rightarrow> fp_event \<Rightarrow> 'w \<Rightarrow> 'w" where
  "deliver f e w = (case event_call e of None \<Rightarrow> w | Some c \<Rightarrow> f c w)"

lemma event_head_split:
  assumes "0 \<le> f" "f < 32"
  shows "(32 * c + f) AND 31 = f" "drop_bit 5 (32 * c + f) = (c :: int)"
proof -
  have "(32 * c + f) AND 31 = take_bit 5 (32 * c + f)" by (simp add: take_bit_eq_mask mask_eq_exp_minus_1)
  then show "(32 * c + f) AND 31 = f" using assms by (simp add: take_bit_eq_mod)
  show "drop_bit 5 (32 * c + f) = c" using assms by (simp add: drop_bit_eq_div)
qed

lemma rest_is_head: "rest_is s (as @ bs) \<Longrightarrow> s_check_rem s (int (length as)) \<and> pending s as \<and> rest_is (in_uint8s s (int (length as))) bs"
  using rest_is_pending rest_is_rem by fastforce

lemma event_header_read:
  assumes "rest_is s (event_head code f @ bs)" "0 \<le> f" "f < 32" "0 \<le> code" "code < 8"
  shows "s_check_rem s 1" "in_uint8 s = Some (32 * code + f, in_uint8s s 1)" "rest_is (in_uint8s s 1) bs"
  using rest_is_head [OF assms(1)] assms(2-) by (auto simp: event_head_def in_pending u8_def)

lemma read16_rest:
  assumes "rest_is s (enc16_le v @ bs)" "0 \<le> v" "v < 65536"
  shows "in_uint16_le s = Some (v, in_uint8s s 2) \<and> rest_is (in_uint8s s 2) bs \<and> s_check_rem s 2"
  using rest_is_head [OF assms(1)] assms(2-) by (auto simp: in_pending u16_def)

lemma read8_rest:
  assumes "rest_is s (enc8 v @ bs)" "0 \<le> v" "v < 256"
  shows "in_uint8 s = Some (v, in_uint8s s 1) \<and> rest_is (in_uint8s s 1) bs \<and> s_check_rem s 1"
  using rest_is_head [OF assms(1)] assms(2-) by (auto simp: in_pending u8_def)

lemma mouse_rest:
  assumes "rest_is s (enc16_le f @ enc16_le x @ enc16_le y @ bs)" "f \<in> {0..<65536}" "x \<in> {0..<65536}" "y \<in> {0..<65536}"
  shows "s_check_rem s 6" "in_uint16_le s = Some (f, in_uint8s s 2)" "in_uint16_le (in_uint8s s 2) = Some (x, in_uint8s s 4)"
    "in_uint16_le (in_uint8s s 4) = Some (y, in_uint8s s 6)" "rest_is (in_uint8s s 6) bs"
proof -
  have f: "in_uint16_le s = Some (f, in_uint8s s 2) \<and> rest_is (in_uint8s s 2) (enc16_le x @ enc16_le y @ bs) \<and> s_check_rem s 2"
    using read16_rest [OF assms(1)] assms(2) by auto
  then have x: "in_uint16_le (in_uint8s s 2) = Some (x, in_uint8s s 4) \<and> rest_is (in_uint8s s 4) (enc16_le y @ bs)"
    using read16_rest [of "in_uint8s s 2" x] assms(3) by auto
  then have "in_uint16_le (in_uint8s s 4) = Some (y, in_uint8s s 6) \<and> rest_is (in_uint8s s 6) bs"
    using read16_rest [of "in_uint8s s 4" y] assms(4) by auto
  with f x show "in_uint16_le s = Some (f, in_uint8s s 2)" "in_uint16_le (in_uint8s s 2) = Some (x, in_uint8s s 4)"
    "in_uint16_le (in_uint8s s 4) = Some (y, in_uint8s s 6)" "rest_is (in_uint8s s 6) bs" by auto
  show "s_check_rem s 6" by (rule rest_is_rem [OF assms(1)]) simp
qed

lemma process_event_law:
  assumes "rest_is s (event_bytes e @ bs)" "event_ok e"
  shows "\<exists>s'. process_event (Some f) w s = Some (0, deliver f e w, s') \<and> rest_is s' bs"
proof (cases e)
  case (Scancode fl c)
  have h: "s_check_rem s 1" "in_uint8 s = Some (fl, in_uint8s s 1)" "rest_is (in_uint8s s 1) (enc8 c @ bs)"
    using event_header_read [of s 0 fl] assms Scancode by auto
  with read8_rest [OF h(3)] event_head_split [of fl 0] assms Scancode show ?thesis
    by (auto simp: process_event_def xrdp_fastpath_process_EVENT_SCANCODE_def xrdp_fastpath_session_callback_def deliver_def)
next
  case (Mouse fl x y)
  have h: "s_check_rem s 1" "in_uint8 s = Some (32 * 1 + 0, in_uint8s s 1)"
    "rest_is (in_uint8s s 1) (enc16_le fl @ enc16_le x @ enc16_le y @ bs)"
    using event_header_read [of s 1 0] assms Mouse by auto
  with mouse_rest [OF h(3)] event_head_split [of 0 1] assms Mouse show ?thesis
    by (auto simp: process_event_def xrdp_fastpath_process_EVENT_MOUSE_def xrdp_fastpath_session_callback_def deliver_def)
next
  case (MouseX fl x y)
  have h: "s_check_rem s 1" "in_uint8 s = Some (32 * 2 + 0, in_uint8s s 1)"
    "rest_is (in_uint8s s 1) (enc16_le fl @ enc16_le x @ enc16_le y @ bs)"
    using event_header_read [of s 2 0] assms MouseX by auto
  with mouse_rest [OF h(3)] event_head_split [of 0 2] assms MouseX show ?thesis
    by (auto simp: process_event_def xrdp_fastpath_process_EVENT_MOUSEX_def xrdp_fastpath_session_callback_def deliver_def)
next
  case (Sync fl)
  have h: "s_check_rem s 1" "in_uint8 s = Some (32 * 3 + fl, in_uint8s s 1)" "rest_is (in_uint8s s 1) bs"
    using event_header_read [of s 3 fl] assms Sync by auto
  with event_head_split [of fl 3] assms Sync show ?thesis
    by (auto simp: process_event_def xrdp_fastpath_process_EVENT_SYNC_def xrdp_fastpath_session_callback_def deliver_def)
next
  case (Unicode fl c)
  have h: "s_check_rem s 1" "in_uint8 s = Some (32 * 4 + fl, in_uint8s s 1)" "rest_is (in_uint8s s 1) (enc16_le c @ bs)"
    using event_header_read [of s 4 fl] assms Unicode by auto
  with read16_rest [OF h(3)] event_head_split [of fl 4] assms Unicode show ?thesis
    by (auto simp: process_event_def xrdp_fastpath_process_EVENT_UNICODE_def xrdp_fastpath_session_callback_def deliver_def)
next
  case (Other code fl)
  have h: "s_check_rem s 1" "in_uint8 s = Some (32 * code + fl, in_uint8s s 1)" "rest_is (in_uint8s s 1) bs"
    using event_header_read [of s code fl] assms Other by auto
  with event_head_split [of fl code] assms Other show ?thesis by (auto simp: process_event_def deliver_def)
qed

lemma process_events_law:
  assumes "rest_is s (concat (map event_bytes es) @ bs)" "list_all event_ok es"
  shows "\<exists>s'. process_events (Some f) (length es) w s = Some (0, fold (deliver f) es w, s') \<and> rest_is s' bs"
  using assms
proof (induction es arbitrary: s w)
  case (Cons e es)
  obtain s1 where "process_event (Some f) w s = Some (0, deliver f e w, s1)" "rest_is s1 (concat (map event_bytes es) @ bs)"
    using process_event_law [of s e "concat (map event_bytes es) @ bs" f w] Cons.prems by auto
  with Cons.IH [of s1] Cons.prems show ?case by auto
qed auto

subsection \<open>The header and the protection of an input packet\<close>

definition fp_head :: "bool \<Rightarrow> int \<Rightarrow> int \<Rightarrow> int \<Rightarrow> byte list" where
  "fp_head long count sec len = enc8 (4 * count + 64 * sec) @ (if long then enc16_be (32768 + len) else enc8 len)"

lemma fp_head_fields:
  assumes "0 \<le> count" "count < 16" "0 \<le> sec" "sec < 4"
  shows "drop_bit 2 ((4 * count + 64 * sec) AND 60) = count" "drop_bit 6 ((4 * count + 64 * sec) AND 192) = (sec :: int)"
proof -
  have "\<forall>c\<in>{0..<16}. \<forall>v\<in>{0..<4}. drop_bit 2 ((4 * c + 64 * v) AND 60) = c \<and> drop_bit 6 ((4 * c + 64 * v) AND 192) = (v :: int)"
    by code_simp
  with assms show "drop_bit 2 ((4 * count + 64 * sec) AND 60) = count" "drop_bit 6 ((4 * count + 64 * sec) AND 192) = sec" by auto
qed

lemma and_127: "(v :: int) AND 127 = v mod 128"
  using take_bit_eq_mask [of 7 v] by (simp add: mask_eq_exp_minus_1 take_bit_eq_mod)

lemma xrdp_fastpath_recv_law:
  assumes s: "rest_is s (fp_head long count sec len @ bs)" and r: "0 \<le> count" "count < 16" "0 \<le> sec" "sec < 4"
    and len: "0 \<le> len" "len < (if long then 32768 else 128)"
  shows "\<exists>s'. xrdp_fastpath_recv fp s = Some (0, fp\<lparr>numEvents := count, secFlags := sec\<rparr>, s') \<and> rest_is s' bs
     \<and> next_packet s' = Some (s_p s + len)"
proof (cases long)
  case False
  have h: "in_uint8 s = Some (4 * count + 64 * sec, in_uint8s s 1)" "rest_is (in_uint8s s 1) (enc8 len @ bs)"
    using read8_rest [of s "4 * count + 64 * sec"] s r False by (auto simp: fp_head_def)
  have l: "in_uint8 (in_uint8s s 1) = Some (len, in_uint8s s 2)" "rest_is (in_uint8s s 2) bs"
    using read8_rest [OF h(2)] len False by auto
  have "\<not> len AND 128 \<noteq> 0" using len False and_128 [of len] by auto
  moreover have "s_check_rem s 2" by (rule rest_is_rem [OF s]) (simp add: fp_head_def)
  ultimately show ?thesis using h l fp_head_fields [OF r]
    by (auto simp: xrdp_fastpath_recv_def rest_is_def)
next
  case True
  let ?hi = "128 + len div 256" let ?lo = "len mod 256"
  have split: "enc16_be (32768 + len) = enc8 ?hi @ enc8 ?lo"
  proof -
    have "(32768 + len) div 256 = ?hi" by simp
    moreover have "(word_of_int (32768 + len) :: byte) = word_of_int ?lo"
      unfolding word_of_int_eq_iff using mod_mult_self1 [of len 128 256] by (simp add: take_bit_eq_mod add.commute)
    ultimately show ?thesis by (simp add: enc16_be_def enc8_def)
  qed
  have hi: "0 \<le> ?hi" "?hi < 256" "0 \<le> ?lo" "?lo < 256" using len True by simp_all
  have h: "in_uint8 s = Some (4 * count + 64 * sec, in_uint8s s 1)" "rest_is (in_uint8s s 1) (enc8 ?hi @ enc8 ?lo @ bs)"
    using read8_rest [of s "4 * count + 64 * sec"] s r True by (auto simp: fp_head_def split)
  have l: "in_uint8 (in_uint8s s 1) = Some (?hi, in_uint8s s 2)" "rest_is (in_uint8s s 2) (enc8 ?lo @ bs)"
    using read8_rest [OF h(2) hi(1,2)] by auto
  have m: "in_uint8 (in_uint8s s 2) = Some (?lo, in_uint8s s 3)" "rest_is (in_uint8s s 3) bs" "s_check_rem (in_uint8s s 2) 1"
    using read8_rest [OF l(2) hi(3,4)] by auto
  have "?hi AND 128 \<noteq> 0" using hi len and_128 [of ?hi] by auto
  moreover have "push_bit 8 (?hi AND 127) + ?lo = len"
    using len True by (simp add: and_127 push_bit_eq_mult)
  moreover have "s_check_rem s 2" by (rule rest_is_rem [OF s]) (simp add: fp_head_def)
  ultimately show ?thesis using h l m fp_head_fields [OF r]
    by (auto simp: xrdp_fastpath_recv_def rest_is_def)
qed

text \<open>The body of an encrypted input packet of a client with the keys \<open>a\<close>, and its keys afterwards.\<close>

definition fp_body :: "'k crypto \<Rightarrow> int \<Rightarrow> 'k sec_keys \<Rightarrow> byte list \<Rightarrow> byte list" where
  "fp_body cr level a payload =
     (if level = CRYPT_LEVEL_FIPS
      then enc16_le 16 @ enc8 1 @ enc8 (int (fips_pad payload)) @ xrdp_sec_fips_sign cr a 8 payload
        @ fst (xrdp_sec_fips_encrypt cr a (payload @ replicate (fips_pad payload) 0))
      else xrdp_sec_sign cr a 8 payload @ fst (xrdp_sec_encrypt cr a payload))"

definition fp_next_keys :: "'k crypto \<Rightarrow> int \<Rightarrow> 'k sec_keys \<Rightarrow> byte list \<Rightarrow> 'k sec_keys" where
  "fp_next_keys cr level a payload =
     (if level = CRYPT_LEVEL_FIPS then snd (xrdp_sec_fips_encrypt cr a (payload @ replicate (fips_pad payload) 0))
      else snd (xrdp_sec_encrypt cr a payload))"

definition fp_in_step :: "('k \<Rightarrow> 'k \<Rightarrow> bool) \<Rightarrow> int \<Rightarrow> 'k sec_keys \<Rightarrow> 'k sec_keys \<Rightarrow> bool" where
  "fp_in_step dual level a b \<longleftrightarrow> (if level = CRYPT_LEVEL_FIPS then fips_mirrored dual a b else mirrored a b)"

text \<open>Where the slow path accepts a protected packet the fast path does the same with it.\<close>

lemma fastpath_unwrap_slow:
  "sec_unwrap cr CRYPT_LEVEL_FIPS SEC_ENCRYPT b s = Some (0, b', s') \<Longrightarrow> fastpath_unwrap cr CRYPT_LEVEL_FIPS b s = Some (0, b', s')"
  "level \<noteq> CRYPT_LEVEL_FIPS \<Longrightarrow> fastpath_unwrap cr level b s = sec_unwrap cr CRYPT_LEVEL_HIGH SEC_ENCRYPT b s"
  by (auto simp: fastpath_unwrap_def sec_unwrap_def Let_def bind_eq_Some split: if_splits)

lemma fastpath_unwrap_law:
  assumes ok: "crypto_ok cr dual" and keys: "fp_in_step dual level a b" and s: "rest_is s (fp_body cr level a payload)"
  obtains b' s' where "fastpath_unwrap cr level b s = Some (0, b', s')" "rest_is s' payload"
    "fp_in_step dual level (fp_next_keys cr level a payload) b'" 
proof (cases "level = CRYPT_LEVEL_FIPS")
  case True
  with keys s have "fips_mirrored dual a b" "rest_is s (enc16_le 16 @ enc8 1 @ enc8 (int (fips_pad payload)) @ xrdp_sec_fips_sign cr a 8 payload
     @ fst (xrdp_sec_fips_encrypt cr a (payload @ replicate (fips_pad payload) 0)))"
    by (simp_all add: fp_in_step_def fp_body_def)
  from sec_unwrap_fips [OF ok this sign_length(2) [OF ok]] obtain b' s'
    where "sec_unwrap cr CRYPT_LEVEL_FIPS SEC_ENCRYPT b s = Some (0, b', s')" "rest_is s' payload"
    "fips_mirrored dual (snd (xrdp_sec_fips_encrypt cr a (payload @ replicate (fips_pad payload) 0))) b'" by blast
  with True show thesis by (intro that [of b' s']) (simp_all add: fastpath_unwrap_slow(1) fp_in_step_def fp_next_keys_def)
next
  case False
  with keys s have "mirrored a b" "rest_is s (xrdp_sec_sign cr a 8 payload @ fst (xrdp_sec_encrypt cr a payload))"
    by (simp_all add: fp_in_step_def fp_body_def)
  from sec_unwrap_rc4 [OF ok this(1) _ _ this(2) sign_length(1) [OF ok], of CRYPT_LEVEL_HIGH] obtain b' s'
    where "sec_unwrap cr CRYPT_LEVEL_HIGH SEC_ENCRYPT b s = Some (0, b', s')" "rest_is s' payload"
    "mirrored (snd (xrdp_sec_encrypt cr a payload)) b'" by auto
  with False show thesis by (intro that [of b' s']) (simp_all add: fastpath_unwrap_slow(2) fp_in_step_def fp_next_keys_def)
qed

lemma read_advances: "in_uint8 s = Some (v, s') \<Longrightarrow> s' = in_uint8s s 1" "in_uint16_le s = Some (v, s') \<Longrightarrow> s' = in_uint8s s 2"
  by (auto simp: in_uint8_def in_uint16_le_def bind_eq_Some)

lemma in_place_next_packet: "in_place f s off len dst = Some (s', x) \<Longrightarrow> next_packet s' = next_packet s"
  by (auto simp: in_place_def out_uint8p_def bind_eq_Some case_prod_unfold Let_def split: if_splits)

lemma fastpath_unwrap_next_packet:
  assumes "fastpath_unwrap cr level b s = Some (r, b', s')"
  shows "next_packet s' = next_packet s"
proof (cases "level = CRYPT_LEVEL_FIPS")
  case True
  with assms show ?thesis
    by (auto simp: fastpath_unwrap_def Let_def bind_eq_Some split: if_splits dest!: read_advances in_place_next_packet)
next
  case False
  with assms show ?thesis
    by (auto simp: fastpath_unwrap_def Let_def bind_eq_Some split: if_splits dest!: in_place_next_packet)
qed

subsection \<open>A whole input packet\<close>

text \<open>\<open>counted\<close>: the number of events follows in a byte of its own.\<close>

definition fp_payload :: "bool \<Rightarrow> fp_event list \<Rightarrow> byte list" where
  "fp_payload counted es = (if counted then enc8 (int (length es)) else []) @ concat (map event_bytes es)"

definition fp_count_ok :: "bool \<Rightarrow> fp_event list \<Rightarrow> bool" where
  "fp_count_ok counted es \<longleftrightarrow> (if counted then length es < 256 \<and> 8 \<le> length (fp_payload counted es) else es \<noteq> [] \<and> length es < 16)"

definition fp_packet :: "'k crypto \<Rightarrow> int \<Rightarrow> 'k sec_keys \<Rightarrow> bool \<Rightarrow> bool \<Rightarrow> bool \<Rightarrow> fp_event list \<Rightarrow> byte list" where
  "fp_packet cr level a encrypted long counted es =
     (let body = (if encrypted then fp_body cr level a (fp_payload counted es) else fp_payload counted es)
      in fp_head long (if counted then 0 else int (length es)) (if encrypted then 2 else 0)
           (int (length body) + (if long then 3 else 2)) @ body)"

lemma fp_packet_length:
  "fp_packet cr level a encrypted long counted es =
     fp_head long (if counted then 0 else int (length es)) (if encrypted then 2 else 0) (int (length (fp_packet cr level a encrypted long counted es)))
       @ (if encrypted then fp_body cr level a (fp_payload counted es) else fp_payload counted es)"
  by (simp add: fp_packet_def Let_def fp_head_def add.commute)

lemma recv_fastpath_law:
  assumes ok: "crypto_ok cr dual" and keys: "encrypted \<Longrightarrow> fp_in_step dual (crypt_level (xs_sec self)) a (xs_keys self)"
    and s: "rest_is s (fp_packet cr (crypt_level (xs_sec self)) a encrypted long counted es)" and count: "fp_count_ok counted es"
    and len: "length (fp_packet cr (crypt_level (xs_sec self)) a encrypted long counted es) < (if long then 32768 else 128)"
  obtains b fp' s' where "xrdp_sec_recv_fastpath cr self fp s = Some (0, self\<lparr>xs_keys := b\<rparr>, fp', s')"
    "numEvents fp' = int (length es)" "rest_is s' (concat (map event_bytes es))"
    "next_packet s' = Some (s_p s + int (length (fp_packet cr (crypt_level (xs_sec self)) a encrypted long counted es)))"
    "if encrypted then fp_in_step dual (crypt_level (xs_sec self)) (fp_next_keys cr (crypt_level (xs_sec self)) a (fp_payload counted es)) b
     else b = xs_keys self"
proof -
  let ?level = "crypt_level (xs_sec self)" let ?pl = "fp_payload counted es"
  let ?n = "int (length (fp_packet cr ?level a encrypted long counted es))"
  let ?c = "if counted then 0 else int (length es)" let ?f = "if encrypted then 2 else 0 :: int"
  let ?fp = "fp\<lparr>numEvents := ?c, secFlags := ?f\<rparr>"
  have "rest_is s (fp_head long ?c ?f ?n @ (if encrypted then fp_body cr ?level a ?pl else ?pl))"
    using s by (subst (asm) fp_packet_length)
  then have "\<exists>s1. xrdp_fastpath_recv fp s = Some (0, ?fp, s1) \<and> rest_is s1 (if encrypted then fp_body cr ?level a ?pl else ?pl)
     \<and> next_packet s1 = Some (s_p s + ?n)"
    by (rule xrdp_fastpath_recv_law) (use count len in \<open>auto simp: fp_count_ok_def\<close>)
  then obtain s1 where s1: "xrdp_fastpath_recv fp s = Some (0, ?fp, s1)"
    "rest_is s1 (if encrypted then fp_body cr ?level a ?pl else ?pl)" "next_packet s1 = Some (s_p s + ?n)" by blast
  have "\<exists>b s2. (if ?f AND FASTPATH_INPUT_ENCRYPTED \<noteq> 0 then fastpath_unwrap cr ?level (xs_keys self) s1 else Some (0, xs_keys self, s1))
      = Some (0, b, s2) \<and> rest_is s2 ?pl \<and> next_packet s2 = Some (s_p s + ?n)
      \<and> (if encrypted then fp_in_step dual ?level (fp_next_keys cr ?level a ?pl) b else b = xs_keys self)"
  proof (cases encrypted)
    case True
    with s1(2) have "rest_is s1 (fp_body cr ?level a ?pl)" by simp
    from fastpath_unwrap_law [OF ok keys [OF True] this] obtain b s2 where "fastpath_unwrap cr ?level (xs_keys self) s1 = Some (0, b, s2)"
      "rest_is s2 ?pl" "fp_in_step dual ?level (fp_next_keys cr ?level a ?pl) b" by blast
    with True fastpath_unwrap_next_packet [OF this(1)] s1(3) show ?thesis by auto
  qed (use s1 in auto)
  then obtain b s2 where s2: "(if ?f AND FASTPATH_INPUT_ENCRYPTED \<noteq> 0 then fastpath_unwrap cr ?level (xs_keys self) s1 else Some (0, xs_keys self, s1))
      = Some (0, b, s2)" "rest_is s2 ?pl" "next_packet s2 = Some (s_p s + ?n)"
      "if encrypted then fp_in_step dual ?level (fp_next_keys cr ?level a ?pl) b else b = xs_keys self" by blast
  show thesis
  proof (cases counted)
    case True
    have r: "s_check_rem s2 8" by (rule rest_is_rem [OF s2(2)]) (use True count in \<open>simp add: fp_count_ok_def\<close>)
    have c: "in_uint8 s2 = Some (int (length es), in_uint8s s2 1)" "rest_is (in_uint8s s2 1) (concat (map event_bytes es))"
      using read8_rest [of s2 "int (length es)"] s2(2) True count by (auto simp: fp_payload_def fp_count_ok_def)
    show thesis by (rule that [of b "?fp\<lparr>numEvents := int (length es)\<rparr>" "in_uint8s s2 1"])
      (use s1(1) s2 r c True in \<open>simp_all add: xrdp_sec_recv_fastpath_def\<close>)
  next
    case False
    show thesis by (rule that [of b ?fp s2])
      (use s1(1) s2 False count in \<open>simp_all add: xrdp_sec_recv_fastpath_def fp_payload_def fp_count_ok_def\<close>)
  qed
qed



text \<open>A packet with the count in a byte of its own is refused when fewer than eight bytes follow the header,
  although the count needs only one.\<close>

lemma short_counted_input_refused:
  assumes "rest_is s (fp_head False 0 0 len @ payload)" "0 \<le> len" "len < 128" "length payload < 8"
  shows "\<exists>fp' s'. xrdp_sec_recv_fastpath cr self fp s = Some (1, self, fp', s')"
proof -
  obtain s1 where s1: "xrdp_fastpath_recv fp s = Some (0, fp\<lparr>numEvents := 0, secFlags := 0\<rparr>, s1)" "rest_is s1 payload"
    using xrdp_fastpath_recv_law [OF assms(1)] assms(2,3) by auto
  then have "\<not> s_check_rem s1 8" using assms(4) by (auto simp: rest_is_def s_check_rem_def)
  with s1 show ?thesis by (simp add: xrdp_sec_recv_fastpath_def)
qed

subsection \<open>No input makes the parser leave the packet\<close>

lemma in_ok_skip: "in_ok s \<Longrightarrow> 0 \<le> n \<Longrightarrow> in_ok (in_uint8s s n)"
  by (simp add: in_ok_def)

lemma process_event_safe:
  assumes "in_ok s"
  shows "wp (process_event cb w s) (\<lambda>(r, w', s'). (r = 0 \<or> r = 1) \<and> in_ok s')"
  using assms
  by (simp add: process_event_def xrdp_fastpath_process_EVENT_SCANCODE_def xrdp_fastpath_process_EVENT_MOUSE_def
      xrdp_fastpath_process_EVENT_MOUSEX_def xrdp_fastpath_process_EVENT_SYNC_def xrdp_fastpath_process_EVENT_UNICODE_def
      s_check_rem_def wp_if in_reads in_ok_skip Let_def)

lemma process_events_safe: "in_ok s \<Longrightarrow> wp (process_events cb n w s) (\<lambda>(r, w', s'). (r = 0 \<or> r = 1) \<and> in_ok s')"
proof (induction n arbitrary: w s)
  case (Suc n)
  show ?case unfolding process_events.simps
    by (rule wp_bindI [OF process_event_safe [OF Suc.prems]]) (use Suc.IH in \<open>auto simp: wp_if\<close>)
qed simp

lemma xrdp_fastpath_recv_safe:
  assumes "in_ok s"
  shows "wp (xrdp_fastpath_recv fp s) (\<lambda>(r, fp', s'). (r = 0 \<or> r = 1) \<and> in_ok s' \<and> (r = 0 \<longrightarrow> 0 \<le> numEvents fp' \<and> s_p s' \<le> s_end s'))"
  using assms
  by (simp add: xrdp_fastpath_recv_def s_check_rem_def wp_if in_reads in_ok_skip Let_def) (auto simp: in_ok_def)

lemma in_place_safe:
  assumes "in_ok s" "s_p s \<le> s_end s" "\<And>bs. length (fst (f bs)) = length bs"
  shows "\<exists>s' x. in_place f s (s_p s) (s_end s - s_p s) (s_p s) = Some (s', x) \<and> in_ok s'"
proof -
  obtain bs where bs: "read_bytes (s_data s) (s_p s) (nat (s_end s - s_p s)) = Some bs" "length bs = nat (s_end s - s_p s)" "bytes_at (s_data s) (s_p s) bs"
    using read_bytes_written [of "s_data s" "s_p s" "nat (s_end s - s_p s)"] assms(1,2)
    by (auto simp: in_ok_def intro: written_mono)
  obtain out x where f: "f bs = (out, x)" by fastforce
  have "in_place f s (s_p s) (s_end s - s_p s) (s_p s) = Some (s\<lparr>s_data := write_bytes (s_data s) (s_p s) out\<rparr>, x)"
    by (rule in_place_law [OF bs(3)]) (use bs(2) assms f assms(3) [of bs] in \<open>auto simp: in_ok_def\<close>)
  then show ?thesis using assms(1) by (auto simp: in_ok_def written_write_bytes)
qed

lemma fastpath_unwrap_safe:
  assumes ok: "crypto_ok cr dual" and s: "in_ok s"
  shows "wp (fastpath_unwrap cr level keys s) (\<lambda>(r, keys', s'). (r = 0 \<or> r = 1) \<and> in_ok s')"
proof -
  have f: "length (fst (xrdp_sec_fips_decrypt cr keys bs)) = length bs" "length (fst (xrdp_sec_decrypt cr keys bs)) = length bs" for bs
    by (simp_all add: xrdp_sec_fips_decrypt_def xrdp_sec_decrypt_def Let_def case_prod_unfold crypto_okD [OF ok])
  have d: "in_ok t \<Longrightarrow> 0 \<le> n \<Longrightarrow> in_ok (t\<lparr>s_end := s_end t - n\<rparr>)" for t n by (auto simp: in_ok_def intro: written_mono)
  have fips: "\<exists>s' x. in_place (xrdp_sec_fips_decrypt cr keys) (in_uint8s s 12) (s_p s + 12) (s_end s - (s_p s + 12)) (s_p s + 12) = Some (s', x) \<and> in_ok s'"
    if "s_p s + 12 \<le> s_end s"
    using in_place_safe [of "in_uint8s s 12" "xrdp_sec_fips_decrypt cr keys"] that s f(1) by (simp add: in_ok_skip)
  have rc4: "\<exists>s' x. in_place (xrdp_sec_decrypt cr keys) (in_uint8s s 8) (s_p s + 8) (s_end s - (s_p s + 8)) (s_p s + 8) = Some (s', x) \<and> in_ok s'"
    if "s_p s + 8 \<le> s_end s"
    using in_place_safe [of "in_uint8s s 8" "xrdp_sec_decrypt cr keys"] that s f(2) by (simp add: in_ok_skip)
  show ?thesis
    using s fips rc4 d by (auto simp: fastpath_unwrap_def s_check_rem_def wp_if in_reads in_ok_skip Let_def add.commute [of 12])
qed

text \<open>C13. Whatever bytes a client sends as a fast-path packet, at whatever security level and with whatever
  keys, neither the security layer nor the event loop reads a byte that was not received: both return, with 0 or
  1.\<close>

theorem fastpath_input_safe:
  assumes "crypto_ok cr dual" and "in_ok s"
  shows "\<exists>r self' fp' s'. xrdp_sec_recv_fastpath cr self fp s = Some (r, self', fp', s') \<and> (r = 0 \<or> r = 1) \<and> in_ok s'
     \<and> (\<exists>r' w' s''. xrdp_fastpath_process_input_event cb fp' w s' = Some (r', w', s'') \<and> (r' = 0 \<or> r' = 1) \<and> in_ok s'')"
proof -
  have recv: "wp (xrdp_sec_recv_fastpath cr self fp s) (\<lambda>(r, self', fp', s'). (r = 0 \<or> r = 1) \<and> in_ok s')"
  proof -
    have m: "wp (if b then fastpath_unwrap cr (crypt_level (xs_sec self)) (xs_keys self) s1 else Some (0, xs_keys self, s1))
       (\<lambda>(r, keys, s2). (r = 0 \<or> r = 1) \<and> in_ok s2)" if "in_ok s1" for b s1
      using fastpath_unwrap_safe [OF assms(1) that] that by simp
    show ?thesis unfolding xrdp_sec_recv_fastpath_def
    proof (rule wp_bindI [OF xrdp_fastpath_recv_safe [OF assms(2)]], unfold split_paired_all prod.case, unfold wp_if, intro conjI impI)
      fix r fp' s1
      assume "(r = 0 \<or> r = 1) \<and> in_ok s1 \<and> (r = 0 \<longrightarrow> 0 \<le> numEvents fp' \<and> s_p s1 \<le> s_end s1)"
      then have s1: "in_ok s1" by blast
      then show "wp (Some (1, self, fp', s1)) (\<lambda>(r, self', fp', s'). (r = 0 \<or> r = 1) \<and> in_ok s')" by simp
    next
      fix r fp' s1
      assume "(r = 0 \<or> r = 1) \<and> in_ok s1 \<and> (r = 0 \<longrightarrow> 0 \<le> numEvents fp' \<and> s_p s1 \<le> s_end s1)"
      then have s1: "in_ok s1" by blast
      show "wp ((if secFlags fp' AND FASTPATH_INPUT_ENCRYPTED \<noteq> 0 then fastpath_unwrap cr (crypt_level (xs_sec self)) (xs_keys self) s1
           else Some (0, xs_keys self, s1)) \<bind> (\<lambda>(r, keys, s). let self = self\<lparr>xs_keys := keys\<rparr> in if r \<noteq> 0 then Some (1, self, fp', s)
           else if numEvents fp' = 0 then if \<not> s_check_rem s 8 then Some (1, self, fp', s)
             else do { (n, s) \<leftarrow> in_uint8 s; Some (0, self, fp'\<lparr>numEvents := n\<rparr>, s) }
           else Some (0, self, fp', s))) (\<lambda>(r, self', fp', s'). (r = 0 \<or> r = 1) \<and> in_ok s')"
        by (rule wp_bindI [OF m [OF s1]]) (auto simp: Let_def wp_if s_check_rem_def in_reads in_ok_skip)
    qed
  qed
  then obtain r self' fp' s' where r: "xrdp_sec_recv_fastpath cr self fp s = Some (r, self', fp', s')" "r = 0 \<or> r = 1" "in_ok s'"
    by (auto simp: wp_exists)
  from process_events_safe [OF r(3), of cb "nat (numEvents fp')" w] r show ?thesis
    by (auto simp: wp_exists xrdp_fastpath_process_input_event_def)
qed

theorem fastpath_input_safe_witness:
  "\<exists>r self' fp' s'. xrdp_sec_recv_fastpath demo_crypto (demo_conn []) \<lparr>numEvents = 0, secFlags = 0\<rparr>
       ((stream_of [0xc4, 0x81, 1, 2, 3, 4, 5, 6, 7, 8, 9])\<lparr>s_p := 0\<rparr>) = Some (r, self', fp', s') \<and> (r = 0 \<or> r = 1)"
proof -
  have "in_ok ((stream_of [0xc4, 0x81, 1, 2, 3, 4, 5, 6, 7, 8, 9])\<lparr>s_p := 0\<rparr>)"
    using bytes_at_written [OF bytes_at_write_bytes [of "\<lambda>_. None" 0 "[0xc4, 0x81, 1, 2, 3, 4, 5, 6, 7, 8, 9]"]]
    by (simp add: in_ok_def stream_of_def s_mark_end_def init_stream_def make_stream_def)
  from fastpath_input_safe [OF demo_crypto_ok this, where self = "demo_conn []" and fp = "\<lparr>numEvents = 0, secFlags = 0\<rparr>" and cb = None and w = "()"]
  show ?thesis by blast
qed

subsection \<open>Sending an update\<close>

text \<open>An update that waits for its header at the start of the block, with room for the padding.\<close>

definition fp_prepared :: "int \<Rightarrow> stream \<Rightarrow> byte list \<Rightarrow> bool" where
  "fp_prepared level s payload \<longleftrightarrow> sec_hdr s = 0 \<and> s_end s = xrdp_sec_get_fastpath_bytes level + int (length payload)
     \<and> bytes_at (s_data s) (xrdp_sec_get_fastpath_bytes level) payload \<and> s_end s + 7 \<le> s_size s"

definition fp_frame :: "'k crypto \<Rightarrow> int \<Rightarrow> 'k sec_keys \<Rightarrow> byte list \<Rightarrow> byte list" where
  "fp_frame cr level keys payload =
     (if level = CRYPT_LEVEL_FIPS
      then enc8 128 @ enc16_be ((15 + int (length payload) + int (fips_pad payload)) OR 0x8000) @ fp_body cr level keys payload
      else if level > CRYPT_LEVEL_LOW then enc8 128 @ enc16_be ((11 + int (length payload)) OR 0x8000) @ fp_body cr level keys payload
      else enc8 0 @ enc16_be ((3 + int (length payload)) OR 0x8000) @ payload)"

definition fp_sent_keys :: "'k crypto \<Rightarrow> int \<Rightarrow> 'k sec_keys \<Rightarrow> byte list \<Rightarrow> 'k sec_keys" where
  "fp_sent_keys cr level keys payload =
     (if level = CRYPT_LEVEL_FIPS \<or> level > CRYPT_LEVEL_LOW then fp_next_keys cr level keys payload else keys)"

text \<open>\<open>xrdp_sec_send_fastpath\<close> hands a stream with the frame to \<open>xrdp_fastpath_send\<close> and leaves the bytes behind
  the update as they were.\<close>

definition fp_hands_over :: "'k crypto \<Rightarrow> trans session_callback \<Rightarrow> int \<Rightarrow> 'k sec_keys \<Rightarrow> trans \<Rightarrow> stream \<Rightarrow> byte list \<Rightarrow> bool" where
  "fp_hands_over cr cb level keys tr s payload \<longleftrightarrow> (\<exists>sx fin. xrdp_sec_send_fastpath cr cb level keys tr s
       = do { (error, tr) \<leftarrow> xrdp_fastpath_send cb tr sx; Some (if error \<noteq> 0 then 1 else 0, fp_sent_keys cr level keys payload, tr, fin) }
     \<and> stream_bytes sx = Some (fp_frame cr level keys payload) \<and> (\<forall>i \<ge> s_end s. s_data fin i = s_data s i))"

lemma hands_over_plain:
  assumes prep: "fp_prepared level s payload" and level: "level \<noteq> CRYPT_LEVEL_FIPS" "level \<le> CRYPT_LEVEL_LOW"
  shows "fp_hands_over cr cb level keys tr s payload"
proof -
  have p: "sec_hdr s = 0" "s_end s = 3 + int (length payload)" "bytes_at (s_data s) 3 payload" "s_end s + 7 \<le> s_size s"
    using prep level by (simp_all add: fp_prepared_def xrdp_sec_get_fastpath_bytes_def)
  define h where "h = enc8 0 @ enc16_be ((3 + int (length payload)) OR 0x8000)"
  have len: "length h = 3" by (simp add: h_def)
  let ?s = "emit (s\<lparr>s_p := 0\<rparr>) h"
  have run: "xrdp_sec_send_fastpath cr cb level keys tr s
      = do { (error, tr) \<leftarrow> xrdp_fastpath_send cb tr ?s; Some (if error \<noteq> 0 then 1 else 0, keys, tr, ?s) }"
    using p level by (simp add: xrdp_sec_send_fastpath_def s_pop_layer_def out_emit room_def Let_def h_def)
  have "bytes_at (s_data ?s) 0 (h @ payload)"
    using p(3) len by (simp add: bytes_at_append bytes_at_write_bytes bytes_at_behind)
  then have "stream_bytes ?s = Some (fp_frame cr level keys payload)"
    using stream_bytes_at [of ?s "h @ payload"] p level len by (simp add: fp_frame_def) (simp add: h_def)
  then show ?thesis unfolding fp_hands_over_def using run p level len
    by (intro exI [of _ ?s] conjI) (auto simp: fp_sent_keys_def write_bytes_above)
qed

lemma hands_over_rc4:
  assumes ok: "crypto_ok cr dual" and prep: "fp_prepared level s payload" and level: "level \<noteq> CRYPT_LEVEL_FIPS" "level > CRYPT_LEVEL_LOW"
  shows "fp_hands_over cr cb level keys tr s payload"
proof -
  have p: "sec_hdr s = 0" "s_end s = 11 + int (length payload)" "bytes_at (s_data s) 11 payload" "s_end s + 7 \<le> s_size s"
    using prep level by (simp_all add: fp_prepared_def xrdp_sec_get_fastpath_bytes_def)
  define h sign enc where "h = enc8 128 @ enc16_be ((11 + int (length payload)) OR 0x8000)" and "sign = xrdp_sec_sign cr keys 8 payload"
    and "enc = fst (xrdp_sec_encrypt cr keys payload)"
  have len: "length h = 3" "length sign = 8" "length enc = length payload"
    using ok by (simp_all add: h_def sign_def enc_def sign_length encrypt_length)
  define s1 where "s1 = emit (s\<lparr>s_p := 0\<rparr>) h"
  have s1: "s_p s1 = 3" "bytes_at (s_data s1) 11 payload" "s_size s1 = s_size s"
    using p(3) len by (simp_all add: s1_def bytes_at_behind)
  define s2 where "s2 = s1\<lparr>s_data := write_bytes (s_data s1) 3 sign\<rparr>"
  have sign: "in_place (\<lambda>data. (xrdp_sec_sign cr keys 8 data, ())) s1 11 (int (length payload)) 3 = Some (s2, ())"
    unfolding s2_def by (rule in_place_law [OF s1(2)]) (use s1 p len in \<open>simp_all add: sign_def\<close>)
  have b2: "bytes_at (s_data s2) 11 payload" "s_p s2 = 3" using s1(1,2) len by (simp_all add: s2_def bytes_at_behind)
  define s3 where "s3 = s2\<lparr>s_data := write_bytes (s_data s2) 11 enc\<rparr>"
  have enc: "in_place (xrdp_sec_encrypt cr keys) s2 11 (int (length payload)) 11 = Some (s3, snd (xrdp_sec_encrypt cr keys payload))"
    unfolding s3_def by (rule in_place_law [OF b2(1)]) (use s1 p len in \<open>simp_all add: enc_def s2_def\<close>)
  have head: "out_uint8 (s\<lparr>s_p := 0\<rparr>) 128 = Some (emit (s\<lparr>s_p := 0\<rparr>) (enc8 128))"
    "out_uint16_be (emit (s\<lparr>s_p := 0\<rparr>) (enc8 128)) ((11 + int (length payload)) OR 0x8000) = Some s1"
    using p by (simp_all add: out_emit room_def s1_def h_def)
  have run: "xrdp_sec_send_fastpath cr cb level keys tr s
      = do { (error, tr) \<leftarrow> xrdp_fastpath_send cb tr s3; Some (if error \<noteq> 0 then 1 else 0, snd (xrdp_sec_encrypt cr keys payload), tr, s3) }"
    using p(1,2) level head sign enc s1(1) b2(2) by (simp add: xrdp_sec_send_fastpath_def s_pop_layer_def)
  have data: "s_data s3 = write_bytes (s_data s) 0 (h @ sign @ enc)"
    unfolding write_bytes_append by (simp add: s3_def s2_def s1_def len)
  have frame: "fp_frame cr level keys payload = h @ sign @ enc"
    using level by (simp add: fp_frame_def fp_body_def h_def sign_def enc_def)
  have bytes: "stream_bytes s3 = Some (fp_frame cr level keys payload)"
    unfolding frame by (rule stream_bytes_at) (use p len in \<open>simp_all only: data bytes_at_write_bytes\<close>, simp_all add: s3_def s2_def s1_def)
  have behind: "\<forall>i \<ge> s_end s. s_data s3 i = s_data s i" using p(2) len by (simp add: data write_bytes_above)
  show ?thesis unfolding fp_hands_over_def
    by (intro exI [of _ s3] conjI bytes behind) (use run level in \<open>simp add: fp_sent_keys_def fp_next_keys_def\<close>)
qed

lemma hands_over_fips:
  assumes ok: "crypto_ok cr dual" and prep: "fp_prepared level s payload" and level: "level = CRYPT_LEVEL_FIPS"
  shows "fp_hands_over cr cb level keys tr s payload"
proof -
  define L n where "L = int (length payload)" and "n = fips_pad payload"
  define h sign enc where "h = enc8 128 @ enc16_be ((15 + L + int n) OR 0x8000) @ enc16_le 16 @ enc8 1 @ enc8 (int n)"
    and "sign = xrdp_sec_fips_sign cr keys 8 payload" and "enc = fst (xrdp_sec_fips_encrypt cr keys (payload @ replicate n 0))"
  have p: "sec_hdr s = 0" "s_end s = 15 + L" "bytes_at (s_data s) 15 payload" "s_end s + 7 \<le> s_size s" "0 \<le> L"
    using prep level by (simp_all add: fp_prepared_def xrdp_sec_get_fastpath_bytes_def L_def)
  have len: "length h = 7" "length sign = 8" "int (length enc) = L + int n" "n < 8"
    using ok fips_pad_props(1) [of payload] by (simp_all add: h_def sign_def enc_def sign_length fips_encrypt_length L_def n_def)
  have pad: "(8 - L mod 8) AND 7 = int n" by (simp add: n_def fips_pad_def L_def)
  define s1 where "s1 = (emit (s\<lparr>s_p := 0\<rparr>) h)\<lparr>s_end := 15 + L + int n\<rparr>"
  have s1: "s_p s1 = 7" "bytes_at (s_data s1) 15 payload" "s_size s1 = s_size s" "s_data s1 = write_bytes (s_data s) 0 h"
    using p(3) len by (simp_all add: s1_def bytes_at_behind)
  define s2 where "s2 = s1\<lparr>s_data := write_bytes (s_data s1) 7 sign\<rparr>"
  have sign: "in_place (\<lambda>data. (xrdp_sec_fips_sign cr keys 8 data, ())) s1 15 L 7 = Some (s2, ())"
    unfolding s2_def by (rule in_place_law [OF s1(2)]) (use s1 p len in \<open>simp_all add: sign_def L_def\<close>)
  define s3 where "s3 = s2\<lparr>s_data := write_bytes (s_data s2) (15 + L) (replicate n 0)\<rparr>"
  have s2: "s_p s2 = 7" "s_size s2 = s_size s" by (simp_all add: s2_def s1)
  have fill: "out_uint8p (s2\<lparr>s_p := 15 + L\<rparr>) (replicate n 0) = Some (emit (s2\<lparr>s_p := 15 + L\<rparr>) (replicate n 0))"
    "(emit (s2\<lparr>s_p := 15 + L\<rparr>) (replicate n 0))\<lparr>s_p := 7\<rparr> = s3"
    using p len s2 by (auto simp: out_emit room_def s3_def emit_def)
  have b3: "bytes_at (s_data s3) 15 (payload @ replicate n 0)" "s_p s3 = 7"
    using s1 len by (simp_all add: s3_def s2_def bytes_at_append bytes_at_behind bytes_at_before bytes_at_write_bytes L_def)
  define s4 where "s4 = s3\<lparr>s_data := write_bytes (s_data s3) 15 enc\<rparr>"
  have enc: "in_place (xrdp_sec_fips_encrypt cr keys) s3 15 (L + int n) 15 = Some (s4, snd (xrdp_sec_fips_encrypt cr keys (payload @ replicate n 0)))"
    unfolding s4_def by (rule in_place_law [OF b3(1)]) (use s2 p len in \<open>simp_all add: enc_def s3_def L_def\<close>)
  define e1 e2 e3 e4 where "e1 = emit (s\<lparr>s_p := 0\<rparr>) (enc8 128)" and "e2 = emit e1 (enc16_be ((15 + L + int n) OR 0x8000))"
    and "e3 = emit e2 (enc16_le 16)" and "e4 = emit e3 (enc8 1)"
  have head: "out_uint8 (s\<lparr>s_p := 0\<rparr>) 128 = Some e1" "out_uint16_be e1 ((15 + L + int n) OR 0x8000) = Some e2" "out_uint16_le e2 16 = Some e3"
    "out_uint8 e3 1 = Some e4" "out_uint8 (e4\<lparr>s_end := 15 + L + int n\<rparr>) (int n) = Some s1" "s_end e4 = 15 + L"
    using p by (auto simp: out_emit room_def e1_def e2_def e3_def e4_def s1_def h_def emit_def write_bytes_append)
  define fin where "fin = restore (s_data s2) (15 + L) (int n) s4"
  have run: "xrdp_sec_send_fastpath cr cb level keys tr s
      = do { (error, tr) \<leftarrow> xrdp_fastpath_send cb tr s4; Some (if error \<noteq> 0 then 1 else 0, snd (xrdp_sec_fips_encrypt cr keys (payload @ replicate n 0)), tr, fin) }"
    using p(1,2) level head sign enc s1(1) s2(1) b3(2) fill pad
    by (simp add: xrdp_sec_send_fastpath_def s_pop_layer_def Let_def fin_def s4_def add.commute)
  have frame: "fp_frame cr level keys payload = h @ sign @ enc"
    using level by (simp add: fp_frame_def fp_body_def h_def sign_def enc_def L_def n_def)
  have "bytes_at (s_data s4) 0 ((h @ sign) @ enc)"
    using s1(4) len by (simp add: s4_def s3_def s2_def bytes_at_append bytes_at_write_bytes bytes_at_before p(5))
  then have bytes: "stream_bytes s4 = Some (fp_frame cr level keys payload)"
    unfolding frame by (intro stream_bytes_at) (use p len in \<open>simp_all add: s4_def s3_def s2_def s1_def\<close>)
  have behind: "s_data fin i = s_data s i" if "15 + L \<le> i" for i
  proof (cases "i < 15 + L + int n")
    case True
    then show ?thesis using that p(5) len by (simp add: fin_def restore_def s2_def s1(4) write_bytes_above)
  next
    case False
    then show ?thesis using that p(5) len by (simp add: fin_def restore_def s4_def s3_def s2_def s1(4) write_bytes_above)
  qed
  show ?thesis unfolding fp_hands_over_def
    by (intro exI [of _ s4] exI [of _ fin] conjI bytes) (use run level behind p(2) in \<open>simp_all add: fp_sent_keys_def fp_next_keys_def n_def\<close>)
qed

lemma hands_over: "crypto_ok cr dual \<Longrightarrow> fp_prepared level s payload \<Longrightarrow> fp_hands_over cr cb level keys tr s payload"
  using hands_over_plain hands_over_rc4 hands_over_fips by (metis not_le)

lemma fp_frame_length:
  assumes "crypto_ok cr dual"
  shows "int (length (fp_frame cr level keys payload)) = xrdp_sec_get_fastpath_bytes level + int (length payload)
     + (if level = CRYPT_LEVEL_FIPS then int (fips_pad payload) else 0)"
  using assms by (simp add: fp_frame_def fp_body_def xrdp_sec_get_fastpath_bytes_def sign_length encrypt_length fips_encrypt_length)

text \<open>A length below 32768 in the two length bytes of a frame is read back by the frame reader.\<close>

lemma or_0x8000: "0 \<le> v \<Longrightarrow> v < 32768 \<Longrightarrow> v OR 0x8000 = v + (0x8000 :: int)"
  using or_high_bit [of v 15] by simp

lemma pdu_length_long:
  assumes "c = 0 \<or> c = 128" "0 \<le> v" "v < 32768"
  shows "pdu_length (enc8 c @ enc16_be (v OR 0x8000) @ bs) = v"
proof -
  have hi: "(v + 0x8000) div 256 = v div 256 + 128" "0 \<le> v div 256" "v div 256 < 128" using assms(2,3) by simp_all
  have lo: "(v + 0x8000) mod 256 = v mod 256" using mod_mult_self1 [of v 128 256] by simp
  have "uint (word_of_int (v div 256 + 128) :: byte) = v div 256 + 128" "uint (word_of_int (v + 0x8000) :: byte) = v mod 256"
    using hi(2,3) lo by (simp_all only: uint_byte_of_int) simp
  moreover have "uint (word_of_int c :: byte) = c" using assms(1) by auto
  ultimately show ?thesis
    using assms by (auto simp: pdu_length_def or_0x8000 enc8_def enc16_be_def hi(1) simp del: of_int_add)
qed

text \<open>An update leaves as one frame: at every security level \<open>xrdp_sec_send_fastpath\<close> appends exactly the
  fast-path header, the protected update and its padding to the outgoing bytes, or nothing when the transport fails; the session callback
  runs only after a success; the bytes behind the update are restored; and for frames below 32768 bytes the length a
  frame reader takes from the header is the length of the frame.\<close>

theorem fastpath_update_sent:
  assumes "crypto_ok cr dual" and "fp_prepared level s payload" and "writer_ok tr"
    and "frame = fp_frame cr level keys payload" and "forward_ok tr (length frame)"
  shows "wp (xrdp_sec_send_fastpath cr cb level keys tr s) (\<lambda>(r, keys', tr', s'). (r = 0 \<or> r = 1)
       \<and> (\<exists>tr1. outgoing tr1 = outgoing tr @ (if r = 0 then frame else [])
            \<and> tr' = (if r = 0 then xrdp_fastpath_session_callback cb (Session_Call 0x5556 0 0 0 0) tr1 else tr1))
       \<and> keys' = fp_sent_keys cr level keys payload \<and> (\<forall>i \<ge> s_end s. s_data s' i = s_data s i))
     \<and> (length frame < 32768 \<longrightarrow> pdu_length frame = int (length frame))"
proof
  from hands_over [OF assms(1,2), of cb keys tr] obtain sx fin where
    run: "xrdp_sec_send_fastpath cr cb level keys tr s
       = do { (error, tr) \<leftarrow> xrdp_fastpath_send cb tr sx; Some (if error \<noteq> 0 then 1 else 0, fp_sent_keys cr level keys payload, tr, fin) }"
    and sx: "stream_bytes sx = Some frame" and fin: "\<forall>i \<ge> s_end s. s_data fin i = s_data s i"
    unfolding fp_hands_over_def assms(4) by blast
  from trans_write_copy_s_law [OF assms(3) sx assms(5)] obtain r tr1 where
    "trans_write_copy_s tr sx = Some (r, tr1)" "outgoing tr1 = outgoing tr @ (if r = 0 then frame else [])" "r = 0 \<or> r = 1"
    by (auto simp: wp_exists)
  then show "wp (xrdp_sec_send_fastpath cr cb level keys tr s) (\<lambda>(r, keys', tr', s'). (r = 0 \<or> r = 1)
       \<and> (\<exists>tr1. outgoing tr1 = outgoing tr @ (if r = 0 then frame else [])
            \<and> tr' = (if r = 0 then xrdp_fastpath_session_callback cb (Session_Call 0x5556 0 0 0 0) tr1 else tr1))
       \<and> keys' = fp_sent_keys cr level keys payload \<and> (\<forall>i \<ge> s_end s. s_data s' i = s_data s i))"
    using run fin by (auto simp: xrdp_fastpath_send_def)
  show "length frame < 32768 \<longrightarrow> pdu_length frame = int (length frame)"
  proof
    assume short: "length frame < 32768"
    have "\<exists>c bs. (c = 0 \<or> c = 128) \<and> frame = enc8 c @ enc16_be (int (length frame) OR 0x8000) @ bs"
      unfolding assms(4) fp_frame_length [OF assms(1)]
      by (simp add: fp_frame_def xrdp_sec_get_fastpath_bytes_def) blast
    then obtain c bs where c: "c = 0 \<or> c = 128" "frame = enc8 c @ enc16_be (int (length frame) OR 0x8000) @ bs" by blast
    then show "pdu_length frame = int (length frame)" using pdu_length_long [OF c(1), of "int (length frame)" bs] short by simp
  qed
qed

lemma fp_init_prepared:
  assumes "length payload \<le> 32740"
  shows "fp_prepared level (s_mark_end (emit (xrdp_sec_init_fastpath level frag s) payload)) payload"
  using assms
  by (simp add: fp_prepared_def xrdp_sec_get_fastpath_bytes_def xrdp_sec_init_fastpath_def xrdp_fastpath_init_def s_push_layer_def
      s_mark_end_def bytes_at_write_bytes Let_def) (auto simp: max_def)

theorem fastpath_update_sent_witness:
  "wp (xrdp_sec_send_fastpath demo_crypto None CRYPT_LEVEL_FIPS demo_keys (tcp_link [] [Tx_Accept 200])
      (s_mark_end (emit (xrdp_sec_init_fastpath CRYPT_LEVEL_FIPS 0 make_stream) [1, 2, 3])))
     (\<lambda>(r, keys', tr', s'). r = 0 \<or> r = 1) \<and> pdu_length (fp_frame demo_crypto CRYPT_LEVEL_FIPS demo_keys [1, 2, 3]) = 23"
proof -
  let ?s = "s_mark_end (emit (xrdp_sec_init_fastpath CRYPT_LEVEL_FIPS 0 make_stream) [1, 2, 3])"
  let ?f = "fp_frame demo_crypto CRYPT_LEVEL_FIPS demo_keys [1, 2, 3]"
  have prep: "fp_prepared CRYPT_LEVEL_FIPS ?s [1, 2, 3]" by (rule fp_init_prepared) simp
  have len: "length ?f = 23" by code_simp
  have fw: "forward_ok (tcp_link [] [Tx_Accept 200]) (length ?f)" by (rule forward_ok_packet) (simp add: len)
  from fastpath_update_sent [OF demo_crypto_ok prep _ refl fw, of None] show ?thesis
    by (auto simp: len wp_exists)
qed

end
