(* ===== verification/C_Strings.thy ===== *)
theory C_Strings
  imports Xrdp_Base
begin

text \<open>
  The C strings the components share: byte lists without the terminating zero, literals, and the comparisons
  of the C library as predicates.
\<close>

text \<open>The C string that starts a character array.\<close>

definition c_str :: "byte list \<Rightarrow> byte list" where
  "c_str b = takeWhile (\<lambda>x. x \<noteq> 0) b"

definition c_text :: "string \<Rightarrow> byte list" where
  "c_text t = map (\<lambda>ch. word_of_int (of_char ch)) t"

definition c_lower :: "byte \<Rightarrow> byte" where
  "c_lower b = (if 65 \<le> b \<and> b \<le> 90 then b + 32 else b)"

text \<open>\<open>strncmp(a, b, n) == 0\<close>, \<open>strncasecmp(a, b, n) == 0\<close> and \<open>strcasecmp(a, b) == 0\<close>.\<close>

definition strncmp_eq :: "byte list \<Rightarrow> byte list \<Rightarrow> nat \<Rightarrow> bool" where
  "strncmp_eq a b n \<longleftrightarrow> take n (a @ [0]) = take n (b @ [0])"

definition strncasecmp_eq :: "byte list \<Rightarrow> byte list \<Rightarrow> nat \<Rightarrow> bool" where
  "strncasecmp_eq a b n \<longleftrightarrow> take n (map c_lower a @ [0]) = take n (map c_lower b @ [0])"

definition strcasecmp_eq :: "byte list \<Rightarrow> byte list \<Rightarrow> bool" where
  "strcasecmp_eq a b \<longleftrightarrow> map c_lower a = map c_lower b"

end
