(* ===== verification/Channels.thy ===== *)
theory Channels
  imports Fastpath_Laws C_Strings
begin

text \<open>
  The virtual channels (\<open>libxrdp/xrdp_channel.c\<close>, and the channel functions of \<open>libxrdp/libxrdp.c\<close>): the static
  channels a client announced in the connection sequence, and the dynamic channels that are multiplexed
  on the static channel \<open>drdynvc\<close>. Every handler of received data ends in the call of a procedure of the window manager
  or in a return; the result is an outcome that says which. In an \<open>Upcall\<close> the C function returns what the called
  procedure returns. A procedure pointer is a number, the null pointer is \<open>None\<close>.
\<close>

abbreviation (input) CHANNEL_FLAG_FIRST :: int where "CHANNEL_FLAG_FIRST \<equiv> 0x01"
abbreviation (input) CHANNEL_FLAG_LAST :: int where "CHANNEL_FLAG_LAST \<equiv> 0x02"
abbreviation (input) CMD_DVC_OPEN_CHANNEL :: int where "CMD_DVC_OPEN_CHANNEL \<equiv> 0x10"
abbreviation (input) CMD_DVC_DATA_FIRST :: int where "CMD_DVC_DATA_FIRST \<equiv> 0x20"
abbreviation (input) CMD_DVC_DATA :: int where "CMD_DVC_DATA \<equiv> 0x30"
abbreviation (input) CMD_DVC_CLOSE_CHANNEL :: int where "CMD_DVC_CLOSE_CHANNEL \<equiv> 0x40"
abbreviation (input) CMD_DVC_CAPABILITY :: int where "CMD_DVC_CAPABILITY \<equiv> 0x50"
abbreviation (input) XRDP_DRDYNVC_STATUS_CLOSED :: int where "XRDP_DRDYNVC_STATUS_CLOSED \<equiv> 0"
abbreviation (input) XRDP_DRDYNVC_STATUS_OPEN_SENT :: int where "XRDP_DRDYNVC_STATUS_OPEN_SENT \<equiv> 1"
abbreviation (input) XRDP_DRDYNVC_STATUS_OPEN :: int where "XRDP_DRDYNVC_STATUS_OPEN \<equiv> 2"
abbreviation (input) XRDP_DRDYNVC_STATUS_CLOSE_SENT :: int where "XRDP_DRDYNVC_STATUS_CLOSE_SENT \<equiv> 3"

record xrdp_drdynvc =
  dv_status :: int
  dv_open_response :: "nat option"
  dv_close_response :: "nat option"
  dv_data_first :: "nat option"
  dv_data :: "nat option"

record 'k xrdp_channel =
  chn_sec :: "'k xrdp_sec_conn"
  drdynvc_channel_id :: int
  drdynvc_state :: int
  chn_s :: "stream option"
  drdynvcs :: "xrdp_drdynvc list"

text \<open>The calls of the session callback (0x5555 and 0x5558) and of the procedures of a dynamic channel. Data is
  passed as its length and the bytes the pointer shows.\<close>

datatype chan_call =
    Channel_Data int int "byte list" int
  | Dvc_Ready
  | Open_Response nat int int
  | Close_Response nat int
  | Data_First nat int int "byte list" int
  | Data nat int int "byte list"

datatype chan_outcome = Return int | Upcall chan_call

abbreviation chn_mcs :: "'k xrdp_channel \<Rightarrow> xrdp_mcs" where
  "chn_mcs self \<equiv> mcs_layer (xs_sec (chn_sec self))"

subsection \<open>Static channels\<close>

definition xrdp_channel_get_item :: "'k xrdp_channel \<Rightarrow> int \<Rightarrow> mcs_channel_item option" where
  "xrdp_channel_get_item self channel_id =
     (let l = channel_list (chn_mcs self) in if 0 \<le> channel_id \<and> channel_id < int (length l) then Some (l ! nat channel_id) else None)"

definition xrdp_channel_create :: "'k xrdp_sec_conn \<Rightarrow> 'k xrdp_channel" where
  "xrdp_channel_create owner = \<lparr>chn_sec = owner, drdynvc_channel_id = -1, drdynvc_state = 0, chn_s = None,
     drdynvcs = replicate 256 \<lparr>dv_status = 0, dv_open_response = None, dv_close_response = None, dv_data_first = None, dv_data = None\<rparr>\<rparr>"

definition xrdp_channel_init :: "'k xrdp_channel \<Rightarrow> stream \<Rightarrow> stream" where
  "xrdp_channel_init self s = s_push_layer (xrdp_sec_init (crypt_level (xs_sec (chn_sec self))) s) channel_hdr_update 8"

definition xrdp_channel_send ::
  "'k crypto \<Rightarrow> (xrdp_mcs \<Rightarrow> int \<times> xrdp_mcs) option \<Rightarrow> 'k xrdp_channel \<Rightarrow> stream \<Rightarrow> int \<Rightarrow> int \<Rightarrow> int
     \<Rightarrow> (int \<times> 'k xrdp_channel) option" where
  "xrdp_channel_send cr cb self s channel_id total_data_len flags =
     (case xrdp_channel_get_item self channel_id of
        None \<Rightarrow> Some (1, self)
      | Some channel \<Rightarrow>
          if ch_disabled channel \<noteq> 0 then Some (0, self)
          else do {
            let s = s_pop_layer s channel_hdr;
            s \<leftarrow> out_uint32_le s total_data_len;
            s \<leftarrow> out_uint32_le s flags;
            (r, sec, s) \<leftarrow> xrdp_sec_send cr cb (chn_sec self) s (ch_chanid channel);
            Some (if r \<noteq> 0 then 1 else 0, self\<lparr>chn_sec := sec\<rparr>) })"

definition MAKELONG :: "int \<Rightarrow> int \<Rightarrow> int" where
  "MAKELONG lo hi = s32 (push_bit 16 (hi AND 0xffff) OR (lo AND 0xffff))"

text \<open>The bytes from \<open>s->p\<close> to \<open>s->end\<close>, none when \<open>p\<close> has passed the end.\<close>

definition rest_bytes :: "stream \<Rightarrow> byte list option" where
  "rest_bytes s = map_option fst (in_uint8a s (max 0 (s_end s - s_p s)))"

definition xrdp_channel_call_callback ::
  "bool \<Rightarrow> stream \<Rightarrow> int \<Rightarrow> int \<Rightarrow> int \<Rightarrow> chan_outcome option" where
  "xrdp_channel_call_callback has_callback s channel_id total_data_len flags =
     (if has_callback then do {
        bs \<leftarrow> rest_bytes s;
        Some (Upcall (Channel_Data (MAKELONG channel_id flags) (s_end s - s_p s) bs total_data_len)) }
      else Some (Return 0))"

subsection \<open>Dynamic channels: what the client sends\<close>

text \<open>An unsigned number in one, two or four bytes; the returned code says which.\<close>

definition drdynvc_insert_uint_124 :: "stream \<Rightarrow> int \<Rightarrow> (int \<times> stream) option" where
  "drdynvc_insert_uint_124 s v =
     (let val = u32 v in
      if val \<le> 0xff then do { s \<leftarrow> out_uint8 s val; Some (0, s) }
      else if val \<le> 0xffff then do { s \<leftarrow> out_uint16_le s val; Some (1, s) }
      else do { s \<leftarrow> out_uint32_le s val; Some (2, s) })"

definition dvc_uint_124 :: "stream \<Rightarrow> int \<Rightarrow> (int \<times> int \<times> stream) option" where
  "dvc_uint_124 s code =
     (if code = 0 then if \<not> s_check_rem s 1 then Some (1, 0, s) else do { (v, s) \<leftarrow> in_uint8 s; Some (0, v, s) }
      else if code = 1 then if \<not> s_check_rem s 2 then Some (1, 0, s) else do { (v, s) \<leftarrow> in_uint16_le s; Some (0, v, s) }
      else if \<not> s_check_rem s 4 then Some (1, 0, s) else do { (v, s) \<leftarrow> in_uint32_le s; Some (0, v, s) })"

definition drdynvc_get_chan_id :: "stream \<Rightarrow> int \<Rightarrow> (int \<times> int \<times> stream) option" where
  "drdynvc_get_chan_id s cmd = dvc_uint_124 s (cmd AND 0x03)"

definition drdynvc_process_capability_response ::
  "'k xrdp_channel \<Rightarrow> int \<Rightarrow> stream \<Rightarrow> (chan_outcome \<times> 'k xrdp_channel) option" where
  "drdynvc_process_capability_response self cmd s = do {
     let s = in_uint8s s 1;
     (cap_version, s) \<leftarrow> in_uint16_le s;
     if cap_version \<noteq> 2 \<and> cap_version \<noteq> 3 then Some (Return 1, self)
     else Some (Upcall Dvc_Ready, self\<lparr>drdynvc_state := 1\<rparr>) }"

definition set_status :: "'k xrdp_channel \<Rightarrow> int \<Rightarrow> int \<Rightarrow> 'k xrdp_channel" where
  "set_status self chan_id st = self\<lparr>drdynvcs := (drdynvcs self)[nat chan_id := (drdynvcs self ! nat chan_id)\<lparr>dv_status := st\<rparr>]\<rparr>"

definition drdynvc_process_open_channel_response ::
  "'k xrdp_channel \<Rightarrow> int \<Rightarrow> stream \<Rightarrow> (chan_outcome \<times> 'k xrdp_channel) option" where
  "drdynvc_process_open_channel_response self cmd s = do {
     (r, chan_id, s) \<leftarrow> drdynvc_get_chan_id s cmd;
     if r \<noteq> 0 then Some (Return 1, self)
     else if \<not> s_check_rem s 4 then Some (Return 1, self) else do {
     (creation_status, s) \<leftarrow> in_uint32_le s;
     let creation_status = s32 creation_status;
     if chan_id > 255 then Some (Return 1, self) else do {
     let self = set_status self chan_id (if creation_status = 0 then XRDP_DRDYNVC_STATUS_OPEN else XRDP_DRDYNVC_STATUS_CLOSED);
     (case dv_open_response (drdynvcs self ! nat chan_id) of
        None \<Rightarrow> Some (Return 0, self)
      | Some p \<Rightarrow> Some (Upcall (Open_Response p chan_id creation_status), self)) }}}"

definition drdynvc_process_close_channel_response ::
  "'k xrdp_channel \<Rightarrow> int \<Rightarrow> stream \<Rightarrow> (chan_outcome \<times> 'k xrdp_channel) option" where
  "drdynvc_process_close_channel_response self cmd s = do {
     (r, chan_id, s) \<leftarrow> drdynvc_get_chan_id s cmd;
     if r \<noteq> 0 then Some (Return 1, self)
     else if chan_id > 255 then Some (Return 1, self) else do {
     let self = set_status self chan_id XRDP_DRDYNVC_STATUS_CLOSED;
     (case dv_close_response (drdynvcs self ! nat chan_id) of
        None \<Rightarrow> Some (Return 0, self)
      | Some p \<Rightarrow> Some (Upcall (Close_Response p chan_id), self)) }}"

definition drdynvc_process_data_first ::
  "'k xrdp_channel \<Rightarrow> int \<Rightarrow> stream \<Rightarrow> (chan_outcome \<times> 'k xrdp_channel) option" where
  "drdynvc_process_data_first self cmd s = do {
     (r, chan_id, s) \<leftarrow> drdynvc_get_chan_id s cmd;
     if r \<noteq> 0 then Some (Return 1, self) else do {
     (r, total_bytes, s) \<leftarrow> dvc_uint_124 s (drop_bit 2 cmd AND 0x03);
     let total_bytes = s32 total_bytes;
     if r \<noteq> 0 then Some (Return 1, self)
     else if chan_id > 255 then Some (Return 1, self) else
     (case dv_data_first (drdynvcs self ! nat chan_id) of
        None \<Rightarrow> Some (Return 0, self)
      | Some p \<Rightarrow> do { bs \<leftarrow> rest_bytes s; Some (Upcall (Data_First p chan_id (s_end s - s_p s) bs total_bytes), self) }) }}"

definition drdynvc_process_data ::
  "'k xrdp_channel \<Rightarrow> int \<Rightarrow> stream \<Rightarrow> (chan_outcome \<times> 'k xrdp_channel) option" where
  "drdynvc_process_data self cmd s = do {
     (r, chan_id, s) \<leftarrow> drdynvc_get_chan_id s cmd;
     if r \<noteq> 0 then Some (Return 1, self)
     else if chan_id > 255 then Some (Return 1, self) else
     (case dv_data (drdynvcs self ! nat chan_id) of
        None \<Rightarrow> Some (Return 0, self)
      | Some p \<Rightarrow> do { bs \<leftarrow> rest_bytes s; Some (Upcall (Data p chan_id (s_end s - s_p s) bs), self) }) }"

text \<open>The command handlers get the stream of the packet, also when the command byte came from the
  reassembled message.\<close>

definition dvc_command :: "'k xrdp_channel \<Rightarrow> int \<Rightarrow> stream \<Rightarrow> (chan_outcome \<times> 'k xrdp_channel) option" where
  "dvc_command self cmd s =
     (let c = cmd AND 0xf0 in
      if c = CMD_DVC_CAPABILITY then drdynvc_process_capability_response self cmd s
      else if c = CMD_DVC_OPEN_CHANNEL then drdynvc_process_open_channel_response self cmd s
      else if c = CMD_DVC_CLOSE_CHANNEL then drdynvc_process_close_channel_response self cmd s
      else if c = CMD_DVC_DATA_FIRST then drdynvc_process_data_first self cmd s
      else if c = CMD_DVC_DATA then drdynvc_process_data self cmd s
      else Some (Return 1, self))"

text \<open>Appending the rest of the packet to \<open>self->s\<close>, which must not be the null pointer.\<close>

definition dvc_append :: "'k xrdp_channel \<Rightarrow> stream \<Rightarrow> ('k xrdp_channel \<times> stream \<times> stream) option" where
  "dvc_append self s = do {
     ls \<leftarrow> chn_s self;
     let len = s_end s - s_p s;
     (bs, _) \<leftarrow> in_uint8a s len;
     ls \<leftarrow> out_uint8p ls bs;
     Some (self\<lparr>chn_s := Some ls\<rparr>, ls, in_uint8s s len) }"

definition xrdp_channel_process_drdynvc ::
  "'k xrdp_channel \<Rightarrow> stream \<Rightarrow> (chan_outcome \<times> 'k xrdp_channel) option" where
  "xrdp_channel_process_drdynvc self s =
     (if \<not> s_check_rem s 8 then Some (Return 1, self) else do {
      (total_length, s) \<leftarrow> in_uint32_le s;
      (flags, s) \<leftarrow> in_uint32_le s;
      let f = flags AND 3;
      if f = 0 then do { (self, _, s) \<leftarrow> dvc_append self s; Some (Return 0, self) }
      else if f = 1 then do {
        let self = self\<lparr>chn_s := Some (init_stream make_stream (s32 total_length))\<rparr>;
        (self, _, s) \<leftarrow> dvc_append self s;
        Some (Return 0, self) }
      else if f = 2 then do {
        (self, ls, s) \<leftarrow> dvc_append self s;
        (cmd, ls) \<leftarrow> in_uint8 ls;
        dvc_command (self\<lparr>chn_s := Some ls\<rparr>) cmd s }
      else do {
        (cmd, s) \<leftarrow> in_uint8 s;
        dvc_command self cmd s } })"

definition xrdp_channel_process ::
  "bool \<Rightarrow> 'k xrdp_channel \<Rightarrow> stream \<Rightarrow> int \<Rightarrow> (chan_outcome \<times> 'k xrdp_channel) option" where
  "xrdp_channel_process has_callback self s chan =
     (let channel_id = chan - MCS_GLOBAL_CHANNEL - 1 in
      case xrdp_channel_get_item self channel_id of
        None \<Rightarrow> Some (Return 1, self)
      | Some channel \<Rightarrow>
          if ch_disabled channel \<noteq> 0 then Some (Return 0, self)
          else if channel_id = drdynvc_channel_id self then xrdp_channel_process_drdynvc self s
          else do {
            (len, s) \<leftarrow> in_uint32_le s;
            (flags, s) \<leftarrow> in_uint32_le s;
            out \<leftarrow> xrdp_channel_call_callback has_callback s channel_id (s32 len) (s32 flags);
            Some (out, self) })"

subsection \<open>Dynamic channels: what the server sends\<close>

text \<open>The last steps of every request: the command byte, the end of the stream, and sending it as one fragment
  on the static channel.\<close>

definition dvc_request ::
  "'k crypto \<Rightarrow> (xrdp_mcs \<Rightarrow> int \<times> xrdp_mcs) option \<Rightarrow> 'k xrdp_channel \<Rightarrow> stream \<Rightarrow> int \<Rightarrow> int \<Rightarrow> (int \<times> 'k xrdp_channel) option" where
  "dvc_request cr cb self s cmd_ptr cmd = do {
     s \<leftarrow> wr8 s cmd_ptr cmd;
     let s = s_mark_end s;
     xrdp_channel_send cr cb self s (drdynvc_channel_id self) (s_end s - cmd_ptr) (CHANNEL_FLAG_FIRST OR CHANNEL_FLAG_LAST) }"

definition xrdp_channel_drdynvc_send_capability_request ::
  "'k crypto \<Rightarrow> (xrdp_mcs \<Rightarrow> int \<times> xrdp_mcs) option \<Rightarrow> 'k xrdp_channel \<Rightarrow> (int \<times> 'k xrdp_channel) option" where
  "xrdp_channel_drdynvc_send_capability_request cr cb self = do {
     let s = xrdp_channel_init self (init_stream make_stream 8192);
     let phold = s_p s;
     s \<leftarrow> out_uint8 s 0x50;
     s \<leftarrow> out_uint8 s 0;
     s \<leftarrow> out_uint16_le s 2;
     s \<leftarrow> out_uint16_le s 0;
     s \<leftarrow> out_uint16_le s 0;
     s \<leftarrow> out_uint16_le s 0;
     s \<leftarrow> out_uint16_le s 0;
     let s = s_mark_end s;
     (r, self) \<leftarrow> xrdp_channel_send cr cb self s (drdynvc_channel_id self) (s_end s - phold) (CHANNEL_FLAG_FIRST OR CHANNEL_FLAG_LAST);
     Some (if r \<noteq> 0 then 1 else 0, self) }"

text \<open>The last channel with the name; \<open>g_strcasecmp\<close> sees the name up to its first zero byte.\<close>

definition last_named :: "string \<Rightarrow> mcs_channel_item list \<Rightarrow> mcs_channel_item option" where
  "last_named name l = foldl (\<lambda>dci ci. if strcasecmp_eq (c_str (ch_name ci)) (c_text name) then Some ci else dci) None l"

definition xrdp_channel_drdynvc_start ::
  "'k crypto \<Rightarrow> (xrdp_mcs \<Rightarrow> int \<times> xrdp_mcs) option \<Rightarrow> 'k xrdp_channel \<Rightarrow> (int \<times> 'k xrdp_channel) option" where
  "xrdp_channel_drdynvc_start cr cb self =
     (case last_named ''drdynvc'' (channel_list (chn_mcs self)) of
        None \<Rightarrow> Some (0, self)
      | Some dci \<Rightarrow> do {
          (_, self) \<leftarrow> xrdp_channel_drdynvc_send_capability_request cr cb
             (self\<lparr>drdynvc_channel_id := ch_chanid dci - MCS_GLOBAL_CHANNEL - 1\<rparr>);
          Some (0, self) })"

text \<open>The search for a free number from 1 on: \<open>None\<close> when all of 1 to 255 are in use.\<close>

function free_chan_id :: "xrdp_drdynvc list \<Rightarrow> nat \<Rightarrow> nat option" where
  "free_chan_id l n =
     (if dv_status (l ! n) = XRDP_DRDYNVC_STATUS_CLOSED then Some n
      else if n + 1 > 255 then None else free_chan_id l (n + 1))"
  by auto
termination by (relation "measure (\<lambda>(l, n). 256 - n)") auto

declare free_chan_id.simps [simp del]

definition xrdp_channel_drdynvc_open ::
  "'k crypto \<Rightarrow> (xrdp_mcs \<Rightarrow> int \<times> xrdp_mcs) option \<Rightarrow> 'k xrdp_channel \<Rightarrow> byte list \<Rightarrow> xrdp_drdynvc
     \<Rightarrow> (int \<times> int option \<times> 'k xrdp_channel) option" where
  "xrdp_channel_drdynvc_open cr cb self name procs = do {
     let s = xrdp_channel_init self (init_stream make_stream 8192);
     let cmd_ptr = s_p s;
     s \<leftarrow> out_uint8 s 0;
     (case free_chan_id (drdynvcs self) 1 of
        None \<Rightarrow> Some (1, None, self)
      | Some n \<Rightarrow> do {
          (cbChId, s) \<leftarrow> drdynvc_insert_uint_124 s (int n);
          s \<leftarrow> out_uint8p s (name @ [0]);
          (r, self) \<leftarrow> dvc_request cr cb self s cmd_ptr (CMD_DVC_OPEN_CHANNEL OR cbChId);
          if r \<noteq> 0 then Some (1, None, self)
          else Some (0, Some (int n), self\<lparr>drdynvcs := (drdynvcs self)[n := procs\<lparr>dv_status := XRDP_DRDYNVC_STATUS_OPEN_SENT\<rparr>]\<rparr>) }) }"

definition xrdp_channel_drdynvc_close ::
  "'k crypto \<Rightarrow> (xrdp_mcs \<Rightarrow> int \<times> xrdp_mcs) option \<Rightarrow> 'k xrdp_channel \<Rightarrow> int \<Rightarrow> (int \<times> 'k xrdp_channel) option" where
  "xrdp_channel_drdynvc_close cr cb self chan_id =
     (if chan_id < 0 \<or> chan_id > 255 then Some (1, self)
      else if dv_status (drdynvcs self ! nat chan_id) \<noteq> XRDP_DRDYNVC_STATUS_OPEN
            \<and> dv_status (drdynvcs self ! nat chan_id) \<noteq> XRDP_DRDYNVC_STATUS_OPEN_SENT then Some (1, self)
      else do {
        let s = xrdp_channel_init self (init_stream make_stream 8192);
        let cmd_ptr = s_p s;
        s \<leftarrow> out_uint8 s 0;
        (cbChId, s) \<leftarrow> drdynvc_insert_uint_124 s chan_id;
        (r, self) \<leftarrow> dvc_request cr cb self s cmd_ptr (CMD_DVC_CLOSE_CHANNEL OR cbChId);
        if r \<noteq> 0 then Some (1, self) else Some (0, set_status self chan_id XRDP_DRDYNVC_STATUS_CLOSE_SENT) })"

definition xrdp_channel_drdynvc_data_first ::
  "'k crypto \<Rightarrow> (xrdp_mcs \<Rightarrow> int \<times> xrdp_mcs) option \<Rightarrow> 'k xrdp_channel \<Rightarrow> int \<Rightarrow> byte list \<Rightarrow> int \<Rightarrow> (int \<times> 'k xrdp_channel) option" where
  "xrdp_channel_drdynvc_data_first cr cb self chan_id data total_data_bytes =
     (if chan_id < 0 \<or> chan_id > 255 then Some (1, self)
      else if dv_status (drdynvcs self ! nat chan_id) \<noteq> XRDP_DRDYNVC_STATUS_OPEN then Some (1, self)
      else if length data > 1590 then Some (1, self)
      else do {
        let s = xrdp_channel_init self (init_stream make_stream 8192);
        let cmd_ptr = s_p s;
        s \<leftarrow> out_uint8 s 0;
        (cbChId, s) \<leftarrow> drdynvc_insert_uint_124 s chan_id;
        (cbTotalDataSize, s) \<leftarrow> drdynvc_insert_uint_124 s total_data_bytes;
        s \<leftarrow> out_uint8p s data;
        (r, self) \<leftarrow> dvc_request cr cb self s cmd_ptr ((CMD_DVC_DATA_FIRST OR push_bit 2 cbTotalDataSize) OR cbChId);
        Some (if r \<noteq> 0 then 1 else 0, self) })"

definition xrdp_channel_drdynvc_data ::
  "'k crypto \<Rightarrow> (xrdp_mcs \<Rightarrow> int \<times> xrdp_mcs) option \<Rightarrow> 'k xrdp_channel \<Rightarrow> int \<Rightarrow> byte list \<Rightarrow> (int \<times> 'k xrdp_channel) option" where
  "xrdp_channel_drdynvc_data cr cb self chan_id data =
     (if chan_id < 0 \<or> chan_id > 255 then Some (1, self)
      else if dv_status (drdynvcs self ! nat chan_id) \<noteq> XRDP_DRDYNVC_STATUS_OPEN then Some (1, self)
      else if length data > 1590 then Some (1, self)
      else do {
        let s = xrdp_channel_init self (init_stream make_stream 8192);
        let cmd_ptr = s_p s;
        s \<leftarrow> out_uint8 s 0;
        (cbChId, s) \<leftarrow> drdynvc_insert_uint_124 s chan_id;
        s \<leftarrow> out_uint8p s data;
        (r, self) \<leftarrow> dvc_request cr cb self s cmd_ptr (CMD_DVC_DATA OR cbChId);
        Some (if r \<noteq> 0 then 1 else 0, self) })"

subsection \<open>The channel functions of \<open>libxrdp.c\<close>\<close>

text \<open>\<open>g_strncpy\<close> copies up to eight bytes of the name.\<close>

definition libxrdp_query_channel :: "'k xrdp_channel \<Rightarrow> int \<Rightarrow> int \<times> (byte list \<times> int) option" where
  "libxrdp_query_channel self index =
     (case xrdp_channel_get_item self index of
        None \<Rightarrow> (1, None)
      | Some channel_item \<Rightarrow> (0, Some (take 8 (c_str (ch_name channel_item)), ch_flags channel_item)))"

fun first_named :: "byte list \<Rightarrow> int \<Rightarrow> mcs_channel_item list \<Rightarrow> int" where
  "first_named name index [] = -1"
| "first_named name index (ci # l) = (if strcasecmp_eq name (c_str (ch_name ci)) then index else first_named name (index + 1) l)"

definition libxrdp_get_channel_id :: "'k xrdp_channel \<Rightarrow> byte list \<Rightarrow> int" where
  "libxrdp_get_channel_id self name = first_named name 0 (channel_list (chn_mcs self))"

definition libxrdp_send_to_channel ::
  "'k crypto \<Rightarrow> (xrdp_mcs \<Rightarrow> int \<times> xrdp_mcs) option \<Rightarrow> 'k xrdp_channel \<Rightarrow> int \<Rightarrow> byte list \<Rightarrow> int \<Rightarrow> int
     \<Rightarrow> (int \<times> 'k xrdp_channel) option" where
  "libxrdp_send_to_channel cr cb self channel_id data total_data_len flags = do {
     let s = xrdp_channel_init self (init_stream make_stream (int (length data) + 1024));
     s \<leftarrow> out_uint8p s data;
     (r, self) \<leftarrow> xrdp_channel_send cr cb self (s_mark_end s) channel_id total_data_len flags;
     Some (if r \<noteq> 0 then 1 else 0, self) }"

definition libxrdp_disable_channel :: "'k xrdp_channel \<Rightarrow> int \<Rightarrow> int \<Rightarrow> int \<times> 'k xrdp_channel" where
  "libxrdp_disable_channel self channel_id is_disabled =
     (case xrdp_channel_get_item self channel_id of
        None \<Rightarrow> (1, self)
      | Some channel_item \<Rightarrow>
          (let mcs = chn_mcs self;
               mcs = mcs\<lparr>channel_list := (channel_list mcs)[nat channel_id := channel_item\<lparr>ch_disabled := is_disabled\<rparr>]\<rparr>
           in (1, self\<lparr>chn_sec := upd_mcs mcs (chn_sec self)\<rparr>)))"

end
