(* ===== verification/Mppc.thy ===== *)
theory Mppc
  imports Xrdp_Base
begin

text \<open>
  The bulk compressor of \<open>libxrdp/xrdp_mppc_enc.c\<close>: Microsoft's point-to-point compression
  with the 64K history of RDP 5.0. The server copies every outgoing packet behind the previous
  ones in a history buffer, finds repetitions through a hash table indexed by the CRC of three
  bytes, and writes literals and (offset, length) pairs as a prefix code, most significant bit
  first, into an output buffer it only ever ORs into.

  The history and the output buffer are functions from an index to a byte, both \<open>buf_len\<close>
  bytes long (the 64 bytes the code allocates in front of the output buffer are room for
  headers of the caller). Reading the history or touching the output buffer past
  \<open>buf_len\<close> is a memory fault (\<open>None\<close>). The hash table has \<open>buf_len\<close> entries of
  16 bits and is only used with the 64K history, so that every CRC is an index of it.
  \<open>ctr\<close>, offsets and lengths are \<open>tui32\<close> in the code; they are \<open>nat\<close> here, with the
  wrap-around of a subtraction written out with \<open>u32\<close>.
\<close>

subsection \<open>Constants and the CRC\<close>

definition PROTO_RDP_40 :: int where "PROTO_RDP_40 = 1"
definition PROTO_RDP_50 :: int where "PROTO_RDP_50 = 2"
definition RDP_40_HIST_BUF_LEN :: nat where "RDP_40_HIST_BUF_LEN = 1024 * 8"
definition RDP_50_HIST_BUF_LEN :: nat where "RDP_50_HIST_BUF_LEN = 1024 * 64"
definition PACKET_COMPRESSED :: int where "PACKET_COMPRESSED = 0x20"
definition PACKET_AT_FRONT :: int where "PACKET_AT_FRONT = 0x40"
definition PACKET_FLUSHED :: int where "PACKET_FLUSHED = 0x80"
definition PACKET_COMPR_TYPE_64K :: int where "PACKET_COMPR_TYPE_64K = 0x01"

lemmas mppc_consts = PROTO_RDP_40_def PROTO_RDP_50_def RDP_40_HIST_BUF_LEN_def RDP_50_HIST_BUF_LEN_def
  PACKET_COMPRESSED_def PACKET_AT_FRONT_def PACKET_FLUSHED_def PACKET_COMPR_TYPE_64K_def

definition g_crc_table :: "16 word list" where
  "g_crc_table =
  [0x0000, 0x1189, 0x2312, 0x329b, 0x4624, 0x57ad, 0x6536, 0x74bf,
   0x8c48, 0x9dc1, 0xaf5a, 0xbed3, 0xca6c, 0xdbe5, 0xe97e, 0xf8f7,
   0x1081, 0x0108, 0x3393, 0x221a, 0x56a5, 0x472c, 0x75b7, 0x643e,
   0x9cc9, 0x8d40, 0xbfdb, 0xae52, 0xdaed, 0xcb64, 0xf9ff, 0xe876,
   0x2102, 0x308b, 0x0210, 0x1399, 0x6726, 0x76af, 0x4434, 0x55bd,
   0xad4a, 0xbcc3, 0x8e58, 0x9fd1, 0xeb6e, 0xfae7, 0xc87c, 0xd9f5,
   0x3183, 0x200a, 0x1291, 0x0318, 0x77a7, 0x662e, 0x54b5, 0x453c,
   0xbdcb, 0xac42, 0x9ed9, 0x8f50, 0xfbef, 0xea66, 0xd8fd, 0xc974,
   0x4204, 0x538d, 0x6116, 0x709f, 0x0420, 0x15a9, 0x2732, 0x36bb,
   0xce4c, 0xdfc5, 0xed5e, 0xfcd7, 0x8868, 0x99e1, 0xab7a, 0xbaf3,
   0x5285, 0x430c, 0x7197, 0x601e, 0x14a1, 0x0528, 0x37b3, 0x263a,
   0xdecd, 0xcf44, 0xfddf, 0xec56, 0x98e9, 0x8960, 0xbbfb, 0xaa72,
   0x6306, 0x728f, 0x4014, 0x519d, 0x2522, 0x34ab, 0x0630, 0x17b9,
   0xef4e, 0xfec7, 0xcc5c, 0xddd5, 0xa96a, 0xb8e3, 0x8a78, 0x9bf1,
   0x7387, 0x620e, 0x5095, 0x411c, 0x35a3, 0x242a, 0x16b1, 0x0738,
   0xffcf, 0xee46, 0xdcdd, 0xcd54, 0xb9eb, 0xa862, 0x9af9, 0x8b70,
   0x8408, 0x9581, 0xa71a, 0xb693, 0xc22c, 0xd3a5, 0xe13e, 0xf0b7,
   0x0840, 0x19c9, 0x2b52, 0x3adb, 0x4e64, 0x5fed, 0x6d76, 0x7cff,
   0x9489, 0x8500, 0xb79b, 0xa612, 0xd2ad, 0xc324, 0xf1bf, 0xe036,
   0x18c1, 0x0948, 0x3bd3, 0x2a5a, 0x5ee5, 0x4f6c, 0x7df7, 0x6c7e,
   0xa50a, 0xb483, 0x8618, 0x9791, 0xe32e, 0xf2a7, 0xc03c, 0xd1b5,
   0x2942, 0x38cb, 0x0a50, 0x1bd9, 0x6f66, 0x7eef, 0x4c74, 0x5dfd,
   0xb58b, 0xa402, 0x9699, 0x8710, 0xf3af, 0xe226, 0xd0bd, 0xc134,
   0x39c3, 0x284a, 0x1ad1, 0x0b58, 0x7fe7, 0x6e6e, 0x5cf5, 0x4d7c,
   0xc60c, 0xd785, 0xe51e, 0xf497, 0x8028, 0x91a1, 0xa33a, 0xb2b3,
   0x4a44, 0x5bcd, 0x6956, 0x78df, 0x0c60, 0x1de9, 0x2f72, 0x3efb,
   0xd68d, 0xc704, 0xf59f, 0xe416, 0x90a9, 0x8120, 0xb3bb, 0xa232,
   0x5ac5, 0x4b4c, 0x79d7, 0x685e, 0x1ce1, 0x0d68, 0x3ff3, 0x2e7a,
   0xe70e, 0xf687, 0xc41c, 0xd595, 0xa12a, 0xb0a3, 0x8238, 0x93b1,
   0x6b46, 0x7acf, 0x4854, 0x59dd, 0x2d62, 0x3ceb, 0x0e70, 0x1ff9,
   0xf78f, 0xe606, 0xd49d, 0xc514, 0xb1ab, 0xa022, 0x92b9, 0x8330,
   0x7bc7, 0x6a4e, 0x58d5, 0x495c, 0x3de3, 0x2c6a, 0x1ef1, 0x0f78]"

definition CRC_INIT :: "16 word" where "CRC_INIT = 0xFFFF"

definition CRC :: "16 word \<Rightarrow> byte \<Rightarrow> 16 word" where
  "CRC crcval newchar = drop_bit 8 crcval XOR g_crc_table ! unat ((crcval XOR ucast newchar) AND 0x00ff)"

definition hist_at :: "nat \<Rightarrow> (nat \<Rightarrow> byte) \<Rightarrow> nat \<Rightarrow> byte option" where
  "hist_at L h i = (if i < L then Some (h i) else None)"

text \<open>The CRC of the three bytes from \<open>p\<close> on.\<close>

definition triple_crc :: "nat \<Rightarrow> (nat \<Rightarrow> byte) \<Rightarrow> nat \<Rightarrow> 16 word option" where
  "triple_crc L h p = do {
     b0 \<leftarrow> hist_at L h p;
     b1 \<leftarrow> hist_at L h (p + 1);
     b2 \<leftarrow> hist_at L h (p + 2);
     Some (CRC (CRC (CRC CRC_INIT b0) b1) b2) }"

subsection \<open>The bit writer\<close>

text \<open>
  The output buffer with the two local variables of \<open>compress_rdp_5\<close> that say where the next
  bit goes. \<open>or_byte\<close> is \<open>outputBuffer[opb_index] |= v\<close> with the value truncated to a
  \<open>char\<close>; the bodies of the fifteen \<open>insert_\<close> macros are made of three pieces that write into
  one, two or three bytes.
\<close>

record bitout =
  outbuf :: "nat \<Rightarrow> byte"
  opb_index :: nat
  bits_left :: nat

definition or_byte :: "nat \<Rightarrow> nat \<Rightarrow> bitout \<Rightarrow> bitout option" where
  "or_byte L v w = (if opb_index w < L then
     Some (w\<lparr>outbuf := (outbuf w)(opb_index w := outbuf w (opb_index w) OR word_of_nat v)\<rparr>) else None)"

definition put_one :: "nat \<Rightarrow> nat \<Rightarrow> nat \<Rightarrow> bitout \<Rightarrow> bitout option" where
  "put_one L i v w = do {
     w1 \<leftarrow> or_byte L (push_bit i v) w;
     Some (w1\<lparr>bits_left := i\<rparr>) }"

definition put_two :: "nat \<Rightarrow> nat \<Rightarrow> nat \<Rightarrow> bitout \<Rightarrow> bitout option" where
  "put_two L i v w = (let j = 8 - i in do {
     w1 \<leftarrow> or_byte L (drop_bit i v) w;
     w2 \<leftarrow> or_byte L (push_bit j v) (w1\<lparr>opb_index := opb_index w1 + 1\<rparr>);
     Some (w2\<lparr>bits_left := j\<rparr>) })"

definition put_three :: "nat \<Rightarrow> nat \<Rightarrow> nat \<Rightarrow> bitout \<Rightarrow> bitout option" where
  "put_three L i v w = (let j = i - 8; k = 8 - j in do {
     w1 \<leftarrow> or_byte L (drop_bit i v) w;
     w2 \<leftarrow> or_byte L (drop_bit j v) (w1\<lparr>opb_index := opb_index w1 + 1\<rparr>);
     w3 \<leftarrow> or_byte L (push_bit k v) (w2\<lparr>opb_index := opb_index w2 + 1\<rparr>);
     Some (w3\<lparr>bits_left := k\<rparr>) })"

definition insert_2_bits :: "nat \<Rightarrow> nat \<Rightarrow> bitout \<Rightarrow> bitout option" where
  "insert_2_bits L v w = (if 3 \<le> bits_left w \<and> bits_left w \<le> 8 then put_one L (bits_left w - 2) v w
     else put_two L (2 - bits_left w) v w)"

definition insert_3_bits :: "nat \<Rightarrow> nat \<Rightarrow> bitout \<Rightarrow> bitout option" where
  "insert_3_bits L v w = (if 4 \<le> bits_left w \<and> bits_left w \<le> 8 then put_one L (bits_left w - 3) v w
     else put_two L (3 - bits_left w) v w)"

definition insert_4_bits :: "nat \<Rightarrow> nat \<Rightarrow> bitout \<Rightarrow> bitout option" where
  "insert_4_bits L v w = (if 5 \<le> bits_left w \<and> bits_left w \<le> 8 then put_one L (bits_left w - 4) v w
     else put_two L (4 - bits_left w) v w)"

definition insert_5_bits :: "nat \<Rightarrow> nat \<Rightarrow> bitout \<Rightarrow> bitout option" where
  "insert_5_bits L v w = (if 6 \<le> bits_left w \<and> bits_left w \<le> 8 then put_one L (bits_left w - 5) v w
     else put_two L (5 - bits_left w) v w)"

definition insert_6_bits :: "nat \<Rightarrow> nat \<Rightarrow> bitout \<Rightarrow> bitout option" where
  "insert_6_bits L v w = (if 7 \<le> bits_left w \<and> bits_left w \<le> 8 then put_one L (bits_left w - 6) v w
     else put_two L (6 - bits_left w) v w)"

definition insert_7_bits :: "nat \<Rightarrow> nat \<Rightarrow> bitout \<Rightarrow> bitout option" where
  "insert_7_bits L v w = (if bits_left w = 8 then put_one L 1 v w else put_two L (7 - bits_left w) v w)"

definition insert_8_bits :: "nat \<Rightarrow> nat \<Rightarrow> bitout \<Rightarrow> bitout option" where
  "insert_8_bits L v w = (if bits_left w = 8 then do { w1 \<leftarrow> or_byte L v w; Some (w1\<lparr>opb_index := opb_index w1 + 1, bits_left := 8\<rparr>) }
     else put_two L (8 - bits_left w) v w)"

definition insert_9_bits :: "nat \<Rightarrow> nat \<Rightarrow> bitout \<Rightarrow> bitout option" where
  "insert_9_bits L v w = do { w1 \<leftarrow> put_two L (9 - bits_left w) v w;
     Some (if bits_left w1 = 0 then w1\<lparr>opb_index := opb_index w1 + 1, bits_left := 8\<rparr> else w1) }"

definition insert_10_bits :: "nat \<Rightarrow> nat \<Rightarrow> bitout \<Rightarrow> bitout option" where
  "insert_10_bits L v w = (let i = 10 - bits_left w in
     if 3 \<le> bits_left w \<and> bits_left w \<le> 8 then put_two L i v w else put_three L i v w)"

definition insert_11_bits :: "nat \<Rightarrow> nat \<Rightarrow> bitout \<Rightarrow> bitout option" where
  "insert_11_bits L v w = (let i = 11 - bits_left w in
     if 4 \<le> bits_left w \<and> bits_left w \<le> 8 then put_two L i v w else put_three L i v w)"

definition insert_12_bits :: "nat \<Rightarrow> nat \<Rightarrow> bitout \<Rightarrow> bitout option" where
  "insert_12_bits L v w = (let i = 12 - bits_left w in
     if 5 \<le> bits_left w \<and> bits_left w \<le> 8 then put_two L i v w else put_three L i v w)"

definition insert_13_bits :: "nat \<Rightarrow> nat \<Rightarrow> bitout \<Rightarrow> bitout option" where
  "insert_13_bits L v w = (let i = 13 - bits_left w in
     if 6 \<le> bits_left w \<and> bits_left w \<le> 8 then put_two L i v w else put_three L i v w)"

definition insert_14_bits :: "nat \<Rightarrow> nat \<Rightarrow> bitout \<Rightarrow> bitout option" where
  "insert_14_bits L v w = (let i = 14 - bits_left w in
     if 7 \<le> bits_left w \<and> bits_left w \<le> 8 then put_two L i v w else put_three L i v w)"

definition insert_15_bits :: "nat \<Rightarrow> nat \<Rightarrow> bitout \<Rightarrow> bitout option" where
  "insert_15_bits L v w = (let i = 15 - bits_left w in if bits_left w = 8 then put_two L i v w else put_three L i v w)"

definition insert_16_bits :: "nat \<Rightarrow> nat \<Rightarrow> bitout \<Rightarrow> bitout option" where
  "insert_16_bits L v w = put_three L (16 - bits_left w) v w"

subsection \<open>The prefix code\<close>

text \<open>A byte that is not part of a match.\<close>

definition insert_literal :: "nat \<Rightarrow> nat \<Rightarrow> bitout \<Rightarrow> bitout option" where
  "insert_literal L data w = (if data < 0x80 then insert_8_bits L data w
     else do { w1 \<leftarrow> insert_2_bits L 0x02 w; insert_7_bits L (data AND 0x7f) w1 })"

definition insert_copy_offset :: "nat \<Rightarrow> nat \<Rightarrow> bitout \<Rightarrow> bitout option" where
  "insert_copy_offset L copy_offset w =
    (if copy_offset \<le> 63 then do { w1 \<leftarrow> insert_5_bits L 0x1f w; insert_6_bits L (copy_offset AND 0x3f) w1 }
     else if 64 \<le> copy_offset \<and> copy_offset \<le> 319 then do { w1 \<leftarrow> insert_5_bits L 0x1e w; insert_8_bits L ((copy_offset - 64) mod 256) w1 }
     else if 320 \<le> copy_offset \<and> copy_offset \<le> 2367 then do { w1 \<leftarrow> insert_4_bits L 0x0e w; insert_11_bits L ((copy_offset - 320) mod 65536) w1 }
     else do { w1 \<leftarrow> insert_3_bits L 0x06 w; insert_16_bits L ((copy_offset - 2368) mod 65536) w1 })"

definition insert_lom :: "nat \<Rightarrow> nat \<Rightarrow> bitout \<Rightarrow> bitout option" where
  "insert_lom L lom w =
    (if lom = 3 then Some (if bits_left w - 1 = 0 then w\<lparr>opb_index := opb_index w + 1, bits_left := 8\<rparr>
                           else w\<lparr>bits_left := bits_left w - 1\<rparr>)
     else if 4 \<le> lom \<and> lom \<le> 7 then do { w1 \<leftarrow> insert_2_bits L 0x2 w; insert_2_bits L ((lom - 4) mod 256) w1 }
     else if 8 \<le> lom \<and> lom \<le> 15 then do { w1 \<leftarrow> insert_3_bits L 0x6 w; insert_3_bits L ((lom - 8) mod 256) w1 }
     else if 16 \<le> lom \<and> lom \<le> 31 then do { w1 \<leftarrow> insert_4_bits L 0xe w; insert_4_bits L ((lom - 16) mod 256) w1 }
     else if 32 \<le> lom \<and> lom \<le> 63 then do { w1 \<leftarrow> insert_5_bits L 0x1e w; insert_5_bits L ((lom - 32) mod 256) w1 }
     else if 64 \<le> lom \<and> lom \<le> 127 then do { w1 \<leftarrow> insert_6_bits L 0x3e w; insert_6_bits L ((lom - 64) mod 256) w1 }
     else if 128 \<le> lom \<and> lom \<le> 255 then do { w1 \<leftarrow> insert_7_bits L 0x7e w; insert_7_bits L ((lom - 128) mod 256) w1 }
     else if 256 \<le> lom \<and> lom \<le> 511 then do { w1 \<leftarrow> insert_8_bits L 0xfe w; insert_8_bits L ((lom - 256) mod 256) w1 }
     else if 512 \<le> lom \<and> lom \<le> 1023 then do { w1 \<leftarrow> insert_9_bits L 0x1fe w; insert_9_bits L ((lom - 512) mod 65536) w1 }
     else if 1024 \<le> lom \<and> lom \<le> 2047 then do { w1 \<leftarrow> insert_10_bits L 0x3fe w; insert_10_bits L ((lom - 1024) mod 65536) w1 }
     else if 2048 \<le> lom \<and> lom \<le> 4095 then do { w1 \<leftarrow> insert_11_bits L 0x7fe w; insert_11_bits L ((lom - 2048) mod 65536) w1 }
     else if 4096 \<le> lom \<and> lom \<le> 8191 then do { w1 \<leftarrow> insert_12_bits L 0xffe w; insert_12_bits L ((lom - 4096) mod 65536) w1 }
     else if 8192 \<le> lom \<and> lom \<le> 16383 then do { w1 \<leftarrow> insert_13_bits L 0x1ffe w; insert_13_bits L ((lom - 8192) mod 65536) w1 }
     else if 16384 \<le> lom \<and> lom \<le> 32767 then do { w1 \<leftarrow> insert_14_bits L 0x3ffe w; insert_14_bits L ((lom - 16384) mod 65536) w1 }
     else if 32768 \<le> lom \<and> lom \<le> 65535 then do { w1 \<leftarrow> insert_15_bits L 0x7ffe w; insert_15_bits L ((lom - 32768) mod 65536) w1 }
     else Some w)"

subsection \<open>Finding matches\<close>

text \<open>The loop that extends a match: the bytes at \<open>c1\<close> and \<open>c2\<close> are compared up to the last
  byte of the new data.\<close>

function match_more :: "nat \<Rightarrow> (nat \<Rightarrow> byte) \<Rightarrow> nat \<Rightarrow> nat \<Rightarrow> nat \<Rightarrow> nat \<Rightarrow> nat option" where
  "match_more L h hptr_end c1 c2 lom =
    (if c1 \<le> hptr_end then do {
       a \<leftarrow> hist_at L h c1;
       b \<leftarrow> hist_at L h c2;
       if a = b then match_more L h hptr_end (c1 + 1) (c2 + 1) (lom + 1) else Some lom }
     else Some lom)"
  by pat_completeness auto
termination by (relation "measure (\<lambda>(L, h, e, c1, c2, lom). Suc e - c1)") auto

declare match_more.simps [simp del]

text \<open>The hash entries of the \<open>n\<close> triples from \<open>p\<close> on.\<close>

fun hash_triples :: "nat \<Rightarrow> (nat \<Rightarrow> byte) \<Rightarrow> nat \<Rightarrow> nat \<Rightarrow> (16 word \<Rightarrow> 16 word) \<Rightarrow> (16 word \<Rightarrow> 16 word) option" where
  "hash_triples L h p n hash = (if n = 0 then Some hash else do {
     crc \<leftarrow> triple_crc L h p;
     hash_triples L h (p + 1) (n - 1) (hash(crc := word_of_nat p)) })"

declare hash_triples.simps [simp del]

text \<open>
  One round of the main loop: \<open>base\<close> is the index of \<open>historyPointer\<close>, \<open>hptr_end\<close> that of the
  last byte of the new data. The result is the next \<open>ctr\<close>, the hash table and the writer.
\<close>

definition compress_step :: "nat \<Rightarrow> (nat \<Rightarrow> byte) \<Rightarrow> nat \<Rightarrow> nat \<Rightarrow> int \<Rightarrow> nat \<Rightarrow> (16 word \<Rightarrow> 16 word) \<Rightarrow> bitout
    \<Rightarrow> (nat \<times> (16 word \<Rightarrow> 16 word) \<times> bitout) option" where
  "compress_step L h base hptr_end last_crc_index ctr hash w = (let p = base + ctr in do {
     crc \<leftarrow> triple_crc L h p;
     let q = unat (hash crc);
     let copy_offset = nat (u32 (int p - int q));
     let hash = hash(crc := word_of_nat p);
     a0 \<leftarrow> hist_at L h p; b0 \<leftarrow> hist_at L h q;
     a1 \<leftarrow> hist_at L h (p + 1); b1 \<leftarrow> hist_at L h (q + 1);
     a2 \<leftarrow> hist_at L h (p + 2); b2 \<leftarrow> hist_at L h (q + 2);
     if a0 \<noteq> b0 \<or> a1 \<noteq> b1 \<or> a2 \<noteq> b2 then do {
       w \<leftarrow> insert_literal L (unat a0) w;
       Some (ctr + 1, hash, w) }
     else do {
       lom \<leftarrow> match_more L h hptr_end (p + 3) (q + 3) 3;
       let j = (if int (p + lom) > last_crc_index then nat (u32 (last_crc_index - int p)) else lom - 1);
       hash \<leftarrow> hash_triples L h (p + 1) j hash;
       w \<leftarrow> insert_copy_offset L copy_offset w;
       w \<leftarrow> insert_lom L lom w;
       Some (ctr + lom, hash, w) } })"

lemma match_more_ge: "match_more L h e c1 c2 n = Some m \<Longrightarrow> n \<le> m"
proof (induction L h e c1 c2 n rule: match_more.induct)
  case (1 L h e c1 c2 n)
  from 1(2) have "match_more L h e (c1 + 1) (c2 + 1) (n + 1) = Some m \<and> c1 \<le> e \<and> (\<exists>a. hist_at L h c1 = Some a \<and> hist_at L h c2 = Some a) \<or> n = m"
    by (subst (asm) match_more.simps) (auto simp: bind_eq_Some split: if_splits)
  then show ?case using 1(1) by fastforce
qed

lemma compress_step_progress: "compress_step L h base e lc ctr hash w = Some (ctr', r) \<Longrightarrow> ctr < ctr'"
  by (auto simp: compress_step_def Let_def bind_eq_Some split: if_splits dest: match_more_ge)

function compress_loop :: "nat \<Rightarrow> (nat \<Rightarrow> byte) \<Rightarrow> nat \<Rightarrow> nat \<Rightarrow> int \<Rightarrow> nat \<Rightarrow> nat \<Rightarrow> (16 word \<Rightarrow> 16 word) \<Rightarrow> bitout
    \<Rightarrow> (nat \<times> (16 word \<Rightarrow> 16 word) \<times> bitout) option" where
  "compress_loop L h base hptr_end last_crc_index data_end ctr hash w =
    (if ctr < data_end then do {
       (ctr', hash', w') \<leftarrow> compress_step L h base hptr_end last_crc_index ctr hash w;
       compress_loop L h base hptr_end last_crc_index data_end ctr' hash' w' }
     else Some (ctr, hash, w))"
  by pat_completeness auto
termination
  by (relation "measure (\<lambda>(L, h, base, e, lc, data_end, ctr, hash, w). data_end - ctr)")
    (auto dest: compress_step_progress)

declare compress_loop.simps [simp del]

text \<open>
  The literals behind the last position a match may start at. \<open>len - ctr > 0\<close> compares unsigned
  numbers: the loop ends when \<open>ctr\<close> has become \<open>len\<close>, and a \<open>ctr\<close> beyond it runs into
  the end of the source data.
\<close>

function compress_tail :: "nat \<Rightarrow> byte list \<Rightarrow> nat \<Rightarrow> nat \<Rightarrow> bitout \<Rightarrow> bitout option" where
  "compress_tail L src len ctr w =
    (if len = ctr then Some w
     else if ctr < length src then do { w1 \<leftarrow> insert_literal L (unat (src ! ctr)) w; compress_tail L src len (ctr + 1) w1 }
     else None)"
  by pat_completeness auto
termination by (relation "measure (\<lambda>(L, src, len, ctr, w). length src - ctr)") auto

declare compress_tail.simps [simp del]

subsection \<open>The encoder\<close>

record mppc_enc =
  protocol_type :: int
  historyBuffer :: "nat \<Rightarrow> byte"
  outputBuffer :: "nat \<Rightarrow> byte"
  historyOffset :: nat
  buf_len :: nat
  bytes_in_opb :: nat
  enc_flags :: int
  flagsHold :: int
  hash_table :: "16 word \<Rightarrow> 16 word"

definition mppc_enc_new :: "int \<Rightarrow> mppc_enc option" where
  "mppc_enc_new pt =
    (let enc = \<lparr> protocol_type = pt, historyBuffer = (\<lambda>i. 0), outputBuffer = (\<lambda>i. 0), historyOffset = 0, buf_len = 0,
                 bytes_in_opb = 0, enc_flags = 0, flagsHold = PACKET_AT_FRONT, hash_table = (\<lambda>c. 0) \<rparr>
     in if pt = PROTO_RDP_40 then Some (enc\<lparr>buf_len := RDP_40_HIST_BUF_LEN\<rparr>)
     else if pt = PROTO_RDP_50 then Some (enc\<lparr>buf_len := RDP_50_HIST_BUF_LEN\<rparr>)
     else None)"

definition compress_rdp_4 :: "mppc_enc \<Rightarrow> byte list \<Rightarrow> nat \<Rightarrow> (int \<times> mppc_enc) option" where
  "compress_rdp_4 enc src len = Some (0, enc)"

text \<open>Forgetting the history, before a packet that does not fit and after one that does not shrink.\<close>

definition rewind_history :: "mppc_enc \<Rightarrow> mppc_enc" where
  "rewind_history enc = enc\<lparr>historyOffset := 0, hash_table := (\<lambda>c. 0), historyBuffer := (\<lambda>i. 0),
     flagsHold := flagsHold enc OR (PACKET_AT_FRONT OR PACKET_FLUSHED)\<rparr>"

text \<open>The first two bytes of an empty history are literals; their triples enter the hash table.\<close>

definition insert_first_literal :: "nat \<Rightarrow> nat \<Rightarrow> bitout \<Rightarrow> bitout option" where
  "insert_first_literal L data w = (if data AND 0x80 \<noteq> 0
     then do { w1 \<leftarrow> insert_2_bits L 0x02 w; insert_7_bits L (data AND 0x7f) w1 }
     else insert_8_bits L data w)"

definition compress_first :: "nat \<Rightarrow> (nat \<Rightarrow> byte) \<Rightarrow> (16 word \<Rightarrow> 16 word) \<Rightarrow> bitout \<Rightarrow> ((16 word \<Rightarrow> 16 word) \<times> bitout) option" where
  "compress_first L h hash w = do {
     d0 \<leftarrow> hist_at L h 0;
     w \<leftarrow> insert_first_literal L (unat d0) w;
     d1 \<leftarrow> hist_at L h 1;
     w \<leftarrow> insert_first_literal L (unat d1) w;
     crc \<leftarrow> triple_crc L h 0;
     let hash = hash(crc := 0);
     crc \<leftarrow> triple_crc L h 1;
     let hash = hash(crc := 1);
     Some (hash, w) }"

text \<open>The history with the new data behind the old, as \<open>g_memcpy\<close> leaves it.\<close>

definition append_history :: "mppc_enc \<Rightarrow> byte list \<Rightarrow> nat \<Rightarrow> nat \<Rightarrow> byte" where
  "append_history enc src len = (\<lambda>i. if historyOffset enc \<le> i \<and> i < historyOffset enc + len then src ! (i - historyOffset enc)
     else historyBuffer enc i)"

text \<open>From the first two literals to the last: the encoding of one packet, with the encoder as it is
  before \<open>historyOffset\<close> moves on.\<close>

definition encode_packet :: "mppc_enc \<Rightarrow> byte list \<Rightarrow> nat \<Rightarrow> bitout \<Rightarrow> ((16 word \<Rightarrow> 16 word) \<times> bitout) option" where
  "encode_packet enc src len w = (let L = buf_len enc; base = historyOffset enc; h = append_history enc src len;
       last_crc_index = int (base + len) - 3; data_end = nat (u32 (int len - 2)) in do {
     (ctr, hash, w) \<leftarrow> (if base = 0 then do { (hash, w) \<leftarrow> compress_first L h (hash_table enc) w; Some (2, hash, w) }
                       else Some (0, hash_table enc, w));
     (ctr, hash, w) \<leftarrow> compress_loop L h base (base + len - 1) last_crc_index data_end ctr hash w;
     w \<leftarrow> compress_tail L src len ctr w;
     Some (hash, w) })"

text \<open>The end of \<open>compress_rdp_5\<close>: a packet that did not shrink is given up.\<close>

definition finish_packet :: "mppc_enc \<Rightarrow> nat \<Rightarrow> bitout \<Rightarrow> int \<times> mppc_enc" where
  "finish_packet enc len w = (let n = (if bits_left w \<noteq> 8 then opb_index w + 1 else opb_index w) in
     if n > len then (0, rewind_history enc)
     else (1, enc\<lparr>enc_flags := (enc_flags enc OR PACKET_COMPRESSED) OR flagsHold enc, bytes_in_opb := n, flagsHold := 0\<rparr>))"

definition compress_rdp_5 :: "mppc_enc \<Rightarrow> byte list \<Rightarrow> nat \<Rightarrow> (int \<times> mppc_enc) option" where
  "compress_rdp_5 enc src len =
    (if length src < len then None else do {
     let w = \<lparr> outbuf = (\<lambda>i. if i < len then 0 else outputBuffer enc i), opb_index = 0, bits_left = 8 \<rparr>;
     let enc = enc\<lparr>enc_flags := PACKET_COMPR_TYPE_64K\<rparr>;
     let enc = (if int (historyOffset enc + len) \<ge> int (buf_len enc) - 3 then rewind_history enc else enc);
     (hash, w) \<leftarrow> encode_packet enc src len w;
     Some (finish_packet (enc\<lparr>historyBuffer := append_history enc src len, historyOffset := historyOffset enc + len,
        outputBuffer := outbuf w, hash_table := hash\<rparr>) len w) })"

definition compress_rdp :: "mppc_enc option \<Rightarrow> byte list option \<Rightarrow> int \<Rightarrow> (int \<times> mppc_enc option) option" where
  "compress_rdp enc srcData len = (case (enc, srcData) of
     (Some e, Some src) \<Rightarrow>
       if len \<le> 0 \<or> len > int (buf_len e) then Some (0, enc)
       else if protocol_type e = PROTO_RDP_40 then do { (r, e) \<leftarrow> compress_rdp_4 e src (nat len); Some (r, Some e) }
       else if protocol_type e = PROTO_RDP_50 then do { (r, e) \<leftarrow> compress_rdp_5 e src (nat len); Some (r, Some e) }
       else Some (0, enc)
   | _ \<Rightarrow> Some (0, enc))"

end
