(* ===== verification/Rdp.thy ===== *)
theory Rdp
  imports Channels Mppc
begin

text \<open>
  The RDP layer (\<open>libxrdp/xrdp_rdp.c\<close>): the share-control and share-data headers of the PDUs the server sends and
  receives, the bulk compression of outgoing PDUs, the fragmentation of fast-path updates, and the handlers of the
  data PDUs of a client. \<open>struct xrdp_rdp\<close> owns the channel layer, the security layer below it, the fast path and
  the encoder; the fields of the session and of \<open>client_info\<close> that the layer uses stand next to them (the
  compression flag is the one the logon sets).

  What the code calls outside the library is an environment: the cryptographic routines, the callbacks of the window
  manager (a function on its state \<open>'w\<close>), and those that the transport and the multipoint layer
  make after a packet was sent.
\<close>

abbreviation (input) FASTPATH_FRAG_SIZE :: int where "FASTPATH_FRAG_SIZE \<equiv> 16 * 1024 - 128"
abbreviation (input) PDUTYPE_DEMANDACTIVEPDU :: int where "PDUTYPE_DEMANDACTIVEPDU \<equiv> 0x1"
abbreviation (input) PDUTYPE_CONFIRMACTIVEPDU :: int where "PDUTYPE_CONFIRMACTIVEPDU \<equiv> 0x3"
abbreviation (input) PDUTYPE_DEACTIVATEALLPDU :: int where "PDUTYPE_DEACTIVATEALLPDU \<equiv> 0x6"
abbreviation (input) PDUTYPE_DATAPDU :: int where "PDUTYPE_DATAPDU \<equiv> 0x7"
abbreviation (input) RDP_DATA_PDU_UPDATE :: int where "RDP_DATA_PDU_UPDATE \<equiv> 2"
abbreviation (input) RDP_DATA_PDU_CONTROL :: int where "RDP_DATA_PDU_CONTROL \<equiv> 20"
abbreviation (input) RDP_DATA_PDU_POINTER :: int where "RDP_DATA_PDU_POINTER \<equiv> 27"
abbreviation (input) RDP_DATA_PDU_INPUT :: int where "RDP_DATA_PDU_INPUT \<equiv> 28"
abbreviation (input) RDP_DATA_PDU_SYNCHRONISE :: int where "RDP_DATA_PDU_SYNCHRONISE \<equiv> 31"
abbreviation (input) PDUTYPE2_REFRESH_RECT :: int where "PDUTYPE2_REFRESH_RECT \<equiv> 33"
abbreviation (input) RDP_DATA_PDU_LOGON :: int where "RDP_DATA_PDU_LOGON \<equiv> 38"
abbreviation (input) RDP_DATA_PDU_FONT2 :: int where "RDP_DATA_PDU_FONT2 \<equiv> 39"
abbreviation (input) RDP_CTL_REQUEST_CONTROL :: int where "RDP_CTL_REQUEST_CONTROL \<equiv> 1"
abbreviation (input) RDP_CTL_GRANT_CONTROL :: int where "RDP_CTL_GRANT_CONTROL \<equiv> 2"
abbreviation (input) RDP_CTL_COOPERATE :: int where "RDP_CTL_COOPERATE \<equiv> 4"
abbreviation (input) RDP_UPDATE_SYNCHRONIZE :: int where "RDP_UPDATE_SYNCHRONIZE \<equiv> 3"
abbreviation (input) FASTPATH_UPDATETYPE_SYNCHRONIZE :: int where "FASTPATH_UPDATETYPE_SYNCHRONIZE \<equiv> 0x3"

text \<open>The fields of \<open>client_info\<close> that the capability sets of a client set (\<open>Caps\<close>).\<close>

record codec_info =
  cd_id :: int
  cd_prop_len :: int
  cd_prop :: "byte list"

record client_caps =
  cc_os_major :: int
  cc_os_minor :: int
  cc_op1 :: int
  cc_op2 :: int
  cc_use_compact_packets :: int
  cc_orders :: "byte list"
  cc_order_flags_ex :: int
  cc_bitmap_cache_version :: int
  cc_bitmap_cache_persist_enable :: int
  cc_desktop_cache :: int
  cc_no_orders_supported :: int
  cc_cache1_entries :: int
  cc_cache1_size :: int
  cc_cache2_entries :: int
  cc_cache2_size :: int
  cc_cache3_entries :: int
  cc_cache3_size :: int
  cc_v3_codec_id :: int
  cc_pointer_flags :: int
  cc_pointer_cache_entries :: int
  cc_brush_cache_code :: int
  cc_use_cache_glyph_v2 :: int
  cc_offscreen_support_level :: int
  cc_offscreen_cache_size :: int
  cc_offscreen_cache_entries :: int
  cc_rail_support_level :: int
  cc_wnd_support_level :: int
  cc_wnd_num_icon_caches :: int
  cc_wnd_num_icon_cache_entries :: int
  cc_ns :: codec_info
  cc_rfx :: codec_info
  cc_jpeg :: codec_info
  cc_h264 :: codec_info
  cc_use_frame_acks :: int
  cc_max_unacknowledged_frame_count :: int

record 'k xrdp_rdp =
  rdp_chan :: "'k xrdp_channel"
  rdp_fastpath :: xrdp_fastpath
  share_id :: int
  mcs_channel :: int
  rdp_mppc :: "mppc_enc option"
  up_and_running :: int
  suppress_output :: int
  use_fast_path :: int
  max_frag_bytes :: int
  rdp_caps :: client_caps

record ('k, 'w) rdp_env =
  env_crypto :: "'k crypto"
  env_wcstombs :: "int list \<Rightarrow> byte list option"
  env_junk :: byte
  env_mcs_callback :: "(xrdp_mcs \<Rightarrow> int \<times> xrdp_mcs) option"
  env_fp_callback :: "trans session_callback"
  env_callback :: "'w session_callback"
  env_channel_call :: "chan_call \<Rightarrow> 'w \<Rightarrow> 'w"

abbreviation rdp_sec :: "'k xrdp_rdp \<Rightarrow> 'k xrdp_sec_conn" where
  "rdp_sec self \<equiv> chn_sec (rdp_chan self)"

abbreviation rdp_level :: "'k xrdp_rdp \<Rightarrow> int" where
  "rdp_level self \<equiv> crypt_level (xs_sec (rdp_sec self))"

abbreviation rdp_trans :: "'k xrdp_rdp \<Rightarrow> trans" where
  "rdp_trans self \<equiv> mcs_trans (mcs_layer (xs_sec (rdp_sec self)))"

abbreviation rdp_compression :: "'k xrdp_rdp \<Rightarrow> int" where
  "rdp_compression self \<equiv> li_rdp_compression (xs_logon (rdp_sec self))"

definition upd_sec :: "'k xrdp_sec_conn \<Rightarrow> 'k xrdp_rdp \<Rightarrow> 'k xrdp_rdp" where
  "upd_sec sec self = self\<lparr>rdp_chan := (rdp_chan self)\<lparr>chn_sec := sec\<rparr>\<rparr>"

subsection \<open>Headers\<close>

definition xrdp_rdp_init :: "'k xrdp_rdp \<Rightarrow> stream \<Rightarrow> stream" where
  "xrdp_rdp_init self s = s_push_layer (xrdp_sec_init (rdp_level self) s) rdp_hdr_update 6"

definition xrdp_rdp_init_data :: "'k xrdp_rdp \<Rightarrow> stream \<Rightarrow> stream" where
  "xrdp_rdp_init_data self s = s_push_layer (xrdp_sec_init (rdp_level self) s) rdp_hdr_update 18"

definition xrdp_rdp_send :: "('k, 'w) rdp_env \<Rightarrow> 'k xrdp_rdp \<Rightarrow> stream \<Rightarrow> int \<Rightarrow> (int \<times> 'k xrdp_rdp) option" where
  "xrdp_rdp_send env self s pdu_type = do {
     let s = s_pop_layer s rdp_hdr;
     let len = s_end s - s_p s;
     s \<leftarrow> out_uint16_le s len;
     s \<leftarrow> out_uint16_le s (0x10 OR pdu_type);
     s \<leftarrow> out_uint16_le s (mcs_channel self);
     (r, sec, s) \<leftarrow> xrdp_sec_send (env_crypto env) (env_mcs_callback env) (rdp_sec self) s MCS_GLOBAL_CHANNEL;
     Some (if r \<noteq> 0 then 1 else 0, upd_sec sec self) }"

subsection \<open>Compression\<close>

text \<open>\<open>compress_rdp\<close> on the \<open>n\<close> bytes of a stream from \<open>off\<close> on. Its guards come before the data is read.\<close>

definition compress_at :: "mppc_enc option \<Rightarrow> stream \<Rightarrow> int \<Rightarrow> int \<Rightarrow> (int \<times> mppc_enc option) option" where
  "compress_at enc s off n =
     (if n \<le> 0 \<or> (case enc of None \<Rightarrow> True | Some e \<Rightarrow> n > int (buf_len e)) then compress_rdp enc (Some []) n
      else do { (src, _) \<leftarrow> in_uint8a (s\<lparr>s_p := off\<rparr>) n; compress_rdp enc (Some src) n })"

text \<open>
  A stream on the output buffer of the encoder: its block starts \<open>off\<close> bytes before the compressed data, in the 64
  bytes the encoder allocates for headers, and the layer headers keep the offsets they had. The block ends with the
  output buffer (the code's \<open>size\<close> field is not looked at by the layers below).
\<close>

definition opb_stream :: "mppc_enc \<Rightarrow> int \<Rightarrow> stream \<Rightarrow> int \<Rightarrow> int \<Rightarrow> stream option" where
  "opb_stream e off s p n =
     (if off > 64 then None
      else Some (s\<lparr>s_data := (\<lambda>i. if off \<le> i \<and> i < off + int (buf_len e) then Some (outputBuffer e (nat (i - off))) else None),
             s_size := off + int (buf_len e), s_p := p, s_end := p + n, channel_hdr := 0, next_packet := None\<rparr>))"

text \<open>The layers below encrypt in place: what they leave in the block is in the output buffer.\<close>

definition opb_after :: "mppc_enc \<Rightarrow> int \<Rightarrow> stream \<Rightarrow> mppc_enc" where
  "opb_after e off s = e\<lparr>outputBuffer := (\<lambda>i. case s_data s (off + int i) of Some b \<Rightarrow> b | None \<Rightarrow> outputBuffer e i)\<rparr>"

definition share_data_header :: "'k xrdp_rdp \<Rightarrow> stream \<Rightarrow> int \<Rightarrow> int \<Rightarrow> int \<Rightarrow> int \<Rightarrow> int \<Rightarrow> stream option" where
  "share_data_header self s pdulen dlen data_pdu_type ctype clen = do {
     s \<leftarrow> out_uint16_le s pdulen;
     s \<leftarrow> out_uint16_le s (0x10 OR PDUTYPE_DATAPDU);
     s \<leftarrow> out_uint16_le s (mcs_channel self);
     s \<leftarrow> out_uint32_le s (share_id self);
     s \<leftarrow> out_uint8 s 0;
     s \<leftarrow> out_uint8 s 1;
     s \<leftarrow> out_uint16_le s dlen;
     s \<leftarrow> out_uint8 s data_pdu_type;
     s \<leftarrow> out_uint8 s ctype;
     out_uint16_le s clen }"

definition xrdp_rdp_send_data :: "('k, 'w) rdp_env \<Rightarrow> 'k xrdp_rdp \<Rightarrow> stream \<Rightarrow> int \<Rightarrow> (int \<times> 'k xrdp_rdp) option" where
  "xrdp_rdp_send_data env self s data_pdu_type = do {
     let s = s_pop_layer s rdp_hdr;
     let len = s_end s - s_p s;
     (ok, enc) \<leftarrow> (if rdp_compression self \<noteq> 0 \<and> up_and_running self \<noteq> 0
        then compress_at (rdp_mppc self) s (s_p s + 18) (len - 18) else Some (0, rdp_mppc self));
     let self = self\<lparr>rdp_mppc := enc\<rparr>;
     (case (ok \<noteq> 0, enc) of
        (True, Some e) \<Rightarrow> do {
          let clen = int (bytes_in_opb e) + 18;
          let off = rdp_hdr s + 18;
          s \<leftarrow> opb_stream e off s (rdp_hdr s) clen;
          s \<leftarrow> share_data_header self s clen len data_pdu_type (enc_flags e) clen;
          (r, sec, s) \<leftarrow> xrdp_sec_send (env_crypto env) (env_mcs_callback env) (rdp_sec self) s MCS_GLOBAL_CHANNEL;
          Some (if r \<noteq> 0 then 1 else 0, upd_sec sec (self\<lparr>rdp_mppc := Some (opb_after e off s)\<rparr>)) }
      | _ \<Rightarrow> do {
          s \<leftarrow> share_data_header self s len len data_pdu_type 0 len;
          (r, sec, s) \<leftarrow> xrdp_sec_send (env_crypto env) (env_mcs_callback env) (rdp_sec self) s MCS_GLOBAL_CHANNEL;
          Some (if r \<noteq> 0 then 1 else 0, upd_sec sec self) }) }"

subsection \<open>Fast-path updates\<close>

definition xrdp_rdp_get_fastpath_bytes :: "'k xrdp_rdp \<Rightarrow> int" where
  "xrdp_rdp_get_fastpath_bytes self = (if rdp_compression self \<noteq> 0 then 4 else 3)"

definition xrdp_rdp_init_fastpath :: "'k xrdp_rdp \<Rightarrow> stream \<Rightarrow> stream" where
  "xrdp_rdp_init_fastpath self s =
     s_push_layer (xrdp_sec_init_fastpath (rdp_level self) (max_frag_bytes self) s) rdp_hdr_update (if rdp_compression self \<noteq> 0 then 4 else 3)"

text \<open>The size and the fragmentation flag of the next fragment of \<open>n\<close> remaining bytes, headers included.\<close>

definition next_fragment :: "int \<Rightarrow> int \<Rightarrow> int \<times> int" where
  "next_fragment n fragmentation =
     (if n > FASTPATH_FRAG_SIZE
      then (FASTPATH_FRAG_SIZE, if fragmentation = 0 then 2 else if fragmentation = 2 then 3 else fragmentation)
      else (n, if fragmentation \<noteq> 0 then 1 else fragmentation))"

definition fp_update_header :: "int \<Rightarrow> int \<Rightarrow> int \<Rightarrow> int" where
  "fp_update_header updateCode fragmentation compression =
     (updateCode AND 15) OR push_bit 4 (fragmentation AND 3) OR push_bit 6 (compression AND 3)"

text \<open>The header of a fragment and handing it down; the stream ends behind the \<open>send_len\<close> bytes of the fragment.\<close>

definition send_fragment ::
  "('k, 'w) rdp_env \<Rightarrow> 'k xrdp_rdp \<Rightarrow> int \<Rightarrow> int \<Rightarrow> int \<Rightarrow> int \<Rightarrow> int \<Rightarrow> stream \<Rightarrow> (int \<times> 'k xrdp_rdp \<times> stream) option" where
  "send_fragment env self updateCode fragmentation compression comp_type send_len send_s = do {
     s \<leftarrow> out_uint8 send_s (fp_update_header updateCode fragmentation compression);
     s \<leftarrow> (if compression \<noteq> 0 then out_uint8 s comp_type else Some s);
     let send_len = send_len - (if compression \<noteq> 0 then 4 else 3);
     s \<leftarrow> out_uint16_le s send_len;
     let s = s\<lparr>s_end := s_p s + send_len\<rparr>;
     let sec = rdp_sec self;
     (r, keys, tr, s) \<leftarrow> xrdp_sec_send_fastpath (env_crypto env) (env_fp_callback env) (rdp_level self) (xs_keys sec) (rdp_trans self) s;
     Some (r, upd_sec (upd_mcs (set_trans (mcs_layer (xs_sec sec)) tr) (sec\<lparr>xs_keys := keys\<rparr>)) self, s) }"

text \<open>
  One round of the loop: the fragment \<open>send_s\<close> is the start of \<open>frag_s\<close>, or the encoder's output for it. The two
  share their block, so what the layers below leave there is seen by the next round.
\<close>

definition fragment_round ::
  "('k, 'w) rdp_env \<Rightarrow> 'k xrdp_rdp \<Rightarrow> int \<Rightarrow> int \<Rightarrow> int \<Rightarrow> stream \<Rightarrow> int \<Rightarrow> (int \<times> 'k xrdp_rdp \<times> memory) option" where
  "fragment_round env self updateCode compression rdp_offset frag_s fragmentation =
     (let header_bytes = (if compression \<noteq> 0 then 4 else 3);
          (no_comp_len, fragmentation) = next_fragment (s_end frag_s - s_p frag_s) fragmentation in do {
     (ok, enc) \<leftarrow> (if compression \<noteq> 0 \<and> no_comp_len > header_bytes + 16
        then compress_at (rdp_mppc self) frag_s (s_p frag_s + header_bytes) (no_comp_len - header_bytes) else Some (0, rdp_mppc self));
     let self = self\<lparr>rdp_mppc := enc\<rparr>;
     (case (ok \<noteq> 0, enc) of
        (True, Some e) \<Rightarrow> do {
          let comp_len = int (bytes_in_opb e) + header_bytes;
          let off = rdp_offset + header_bytes;
          s \<leftarrow> opb_stream e off frag_s rdp_offset comp_len;
          (r, self, s) \<leftarrow> send_fragment env self updateCode fragmentation compression (enc_flags e) comp_len s;
          Some (r, self\<lparr>rdp_mppc := Some (opb_after e off s)\<rparr>, s_data frag_s) }
      | _ \<Rightarrow> do {
          (r, self, s) \<leftarrow> send_fragment env self updateCode fragmentation compression 0 no_comp_len frag_s;
          Some (r, self, s_data s) }) })"

text \<open>\<open>frag_s.data = frag_s.sec_hdr\<close>: the block from \<open>d\<close> on, with all offsets taken from there.\<close>

definition stream_from :: "stream \<Rightarrow> int \<Rightarrow> stream" where
  "stream_from s d = s\<lparr>s_data := (\<lambda>i. s_data s (i + d)), s_size := s_size s - d, s_p := s_p s - d, s_end := s_end s - d,
     iso_hdr := iso_hdr s - d, mcs_hdr := mcs_hdr s - d, sec_hdr := sec_hdr s - d, rdp_hdr := rdp_hdr s - d\<rparr>"

function fragment_loop ::
  "('k, 'w) rdp_env \<Rightarrow> 'k xrdp_rdp \<Rightarrow> int \<Rightarrow> int \<Rightarrow> int \<Rightarrow> int \<Rightarrow> stream \<Rightarrow> int \<Rightarrow> (int \<times> 'k xrdp_rdp) option" where
  "fragment_loop env self updateCode compression sec_bytes rdp_offset frag_s fragmentation =
     (let header_bytes = (if compression \<noteq> 0 then 4 else 3);
          (no_comp_len, fragmentation') = next_fragment (s_end frag_s - s_p frag_s) fragmentation in do {
     (r, self, data) \<leftarrow> fragment_round env self updateCode compression rdp_offset frag_s fragmentation;
     if r \<noteq> 0 then Some (1, self)
     else if \<not> s_p frag_s + no_comp_len < s_end frag_s then Some (0, self)
     else do {
       let p = s_p frag_s + no_comp_len - header_bytes;
       let frag_s = frag_s\<lparr>s_data := data, s_p := p, sec_hdr := p - sec_bytes\<rparr>;
       fragment_loop env self updateCode compression sec_bytes rdp_offset (stream_from frag_s (p - sec_bytes)) fragmentation' } })"
  by pat_completeness auto
termination
  by (relation "measure (\<lambda>(env, self, u, c, b, o1, s, f). nat (s_end s - s_p s))")
    (auto simp: next_fragment_def stream_from_def split: if_splits)

declare fragment_loop.simps [simp del]

definition xrdp_rdp_send_fastpath :: "('k, 'w) rdp_env \<Rightarrow> 'k xrdp_rdp \<Rightarrow> stream \<Rightarrow> int \<Rightarrow> (int \<times> 'k xrdp_rdp) option" where
  "xrdp_rdp_send_fastpath env self s data_pdu_type =
     (let s = s_pop_layer s rdp_hdr in
      fragment_loop env self data_pdu_type (if rdp_compression self \<noteq> 0 then 2 else 0)
        (xrdp_sec_get_fastpath_bytes (rdp_level self)) (rdp_hdr s) s 0)"

definition xrdp_rdp_send_data_update_sync :: "('k, 'w) rdp_env \<Rightarrow> 'k xrdp_rdp \<Rightarrow> (int \<times> 'k xrdp_rdp) option" where
  "xrdp_rdp_send_data_update_sync env self =
     (let s = init_stream make_stream 8192 in
      if use_fast_path self AND 1 \<noteq> 0
      then do {
        let s = s_mark_end (xrdp_rdp_init_fastpath self s);
        (r, self) \<leftarrow> xrdp_rdp_send_fastpath env self s FASTPATH_UPDATETYPE_SYNCHRONIZE;
        Some (if r \<noteq> 0 then 1 else 0, self) }
      else do {
        s \<leftarrow> out_uint16_le (xrdp_rdp_init_data self s) RDP_UPDATE_SYNCHRONIZE;
        s \<leftarrow> out_uint16_le s 0;
        (r, self) \<leftarrow> xrdp_rdp_send_data env self (s_mark_end s) RDP_DATA_PDU_UPDATE;
        Some (if r \<noteq> 0 then 1 else 0, self) })"

subsection \<open>Receiving\<close>

text \<open>\<open>fuel\<close> is that of the multipoint layer's receive loop. The result: return value, \<open>*code\<close>, the layer, the window
  manager, the stream. After a packet for a virtual channel the position in the stream is that of the packet's data.\<close>

definition rdp_recv_channel ::
  "('k, 'w) rdp_env \<Rightarrow> 'k xrdp_rdp \<Rightarrow> 'w \<Rightarrow> stream \<Rightarrow> int \<Rightarrow> (int \<times> int \<times> 'k xrdp_rdp \<times> 'w \<times> stream) option" where
  "rdp_recv_channel env self w s chan =
     (if chan > MCS_GLOBAL_CHANNEL
      then do {
        (out, ch) \<leftarrow> xrdp_channel_process (env_callback env \<noteq> None) (rdp_chan self) s chan;
        Some (0, 0, self\<lparr>rdp_chan := ch\<rparr>, (case out of Return _ \<Rightarrow> w | Upcall c \<Rightarrow> env_channel_call env c w), s\<lparr>next_packet := None\<rparr>) }
      else Some (0, 0, self, w, s\<lparr>next_packet := None\<rparr>))"

definition rdp_recv_header :: "'k xrdp_rdp \<Rightarrow> 'w \<Rightarrow> stream \<Rightarrow> (int \<times> int \<times> 'k xrdp_rdp \<times> 'w \<times> stream) option" where
  "rdp_recv_header self w s =
     (if \<not> s_check_rem s 6 then Some (0, 0, self, w, s\<lparr>next_packet := None\<rparr>)
      else do {
        (len, s) \<leftarrow> in_uint16_le s;
        (pdu_code, s) \<leftarrow> in_uint16_le s;
        let s = in_uint8s s 2;
        Some (0, pdu_code AND 0xf, self, w, s\<lparr>next_packet := map_option (\<lambda>n. n + len) (next_packet s)\<rparr>) })"

definition rdp_recv_packet ::
  "('k, 'w) rdp_env \<Rightarrow> nat \<Rightarrow> 'k xrdp_rdp \<Rightarrow> 'w \<Rightarrow> stream \<Rightarrow> int \<Rightarrow> (int \<times> int \<times> 'k xrdp_rdp \<times> 'w \<times> stream) option" where
  "rdp_recv_packet env fuel self w s code = do {
     header0 \<leftarrow> rd8 s (s_p s);
     if header0 \<noteq> 0x3
     then do {
       (r, sec, fp, s) \<leftarrow> xrdp_sec_recv_fastpath (env_crypto env) (rdp_sec self) (rdp_fastpath self) s;
       let self = upd_sec sec (self\<lparr>rdp_fastpath := fp\<rparr>);
       Some (if r \<noteq> 0 then (1, code, self, w, s) else (0, 2, self, w, s)) }
     else do {
       (error, chan, sec, s) \<leftarrow> xrdp_sec_recv (env_crypto env) (env_wcstombs env) (env_junk env) (env_mcs_callback env) fuel (rdp_sec self) s;
       let self = upd_sec sec self;
       if error = -1 then Some (0, -1, self, w, s\<lparr>next_packet := None\<rparr>)
       else if error \<noteq> 0 then Some (1, code, self, w, s)
       else if chan \<noteq> MCS_GLOBAL_CHANNEL \<and> chan > 0 then rdp_recv_channel env self w s chan
       else rdp_recv_header self w (s\<lparr>next_packet := Some (s_p s)\<rparr>) } }"

definition xrdp_rdp_recv ::
  "('k, 'w) rdp_env \<Rightarrow> nat \<Rightarrow> 'k xrdp_rdp \<Rightarrow> 'w \<Rightarrow> stream \<Rightarrow> int \<Rightarrow> (int \<times> int \<times> 'k xrdp_rdp \<times> 'w \<times> stream) option" where
  "xrdp_rdp_recv env fuel self w s code =
     (case next_packet s of
        Some np \<Rightarrow> if np < s_end s then rdp_recv_header self w (s\<lparr>s_p := np\<rparr>) else rdp_recv_packet env fuel self w s code
      | None \<Rightarrow> rdp_recv_packet env fuel self w s code)"
subsection \<open>Data PDUs of the client\<close>

definition rdp_callback :: "('k, 'w) rdp_env \<Rightarrow> session_call \<Rightarrow> 'w \<Rightarrow> 'w" where
  "rdp_callback env call w = (case env_callback env of None \<Rightarrow> w | Some f \<Rightarrow> f call w)"

primrec data_input_loop :: "('k, 'w) rdp_env \<Rightarrow> nat \<Rightarrow> 'w \<Rightarrow> stream \<Rightarrow> (int \<times> 'w \<times> stream) option" where
  "data_input_loop env 0 w s = Some (0, w, s)"
| "data_input_loop env (Suc n) w s =
     (if \<not> s_check_rem s 12 then Some (1, w, s) else do {
      (time, s) \<leftarrow> in_uint32_le s;
      (msg_type, s) \<leftarrow> in_uint16_le s;
      (device_flags, s) \<leftarrow> in_uint16_le s;
      (param1, s) \<leftarrow> in_sint16_le s;
      (param2, s) \<leftarrow> in_sint16_le s;
      data_input_loop env n (rdp_callback env (Session_Call msg_type param1 param2 device_flags (s32 time)) w) s })"

definition xrdp_rdp_process_data_input :: "('k, 'w) rdp_env \<Rightarrow> 'w \<Rightarrow> stream \<Rightarrow> (int \<times> 'w \<times> stream) option" where
  "xrdp_rdp_process_data_input env w s =
     (if \<not> s_check_rem s 4 then Some (1, w, s) else do {
      (num_events, s) \<leftarrow> in_uint16_le s;
      data_input_loop env (nat num_events) w (in_uint8s s 2) })"

definition xrdp_rdp_send_synchronise :: "('k, 'w) rdp_env \<Rightarrow> 'k xrdp_rdp \<Rightarrow> (int \<times> 'k xrdp_rdp) option" where
  "xrdp_rdp_send_synchronise env self = do {
     s \<leftarrow> out_uint16_le (xrdp_rdp_init_data self (init_stream make_stream 8192)) 1;
     s \<leftarrow> out_uint16_le s 1002;
     (r, self) \<leftarrow> xrdp_rdp_send_data env self (s_mark_end s) RDP_DATA_PDU_SYNCHRONISE;
     Some (if r \<noteq> 0 then 1 else 0, self) }"

definition xrdp_rdp_send_control :: "('k, 'w) rdp_env \<Rightarrow> 'k xrdp_rdp \<Rightarrow> int \<Rightarrow> (int \<times> 'k xrdp_rdp) option" where
  "xrdp_rdp_send_control env self action = do {
     s \<leftarrow> out_uint16_le (xrdp_rdp_init_data self (init_stream make_stream 8192)) action;
     s \<leftarrow> out_uint16_le s 0;
     s \<leftarrow> out_uint32_le s 1002;
     (r, self) \<leftarrow> xrdp_rdp_send_data env self (s_mark_end s) RDP_DATA_PDU_CONTROL;
     Some (if r \<noteq> 0 then 1 else 0, self) }"

definition xrdp_rdp_process_data_control :: "('k, 'w) rdp_env \<Rightarrow> 'k xrdp_rdp \<Rightarrow> stream \<Rightarrow> (int \<times> 'k xrdp_rdp \<times> stream) option" where
  "xrdp_rdp_process_data_control env self s = do {
     (action, s) \<leftarrow> in_uint16_le s;
     let s = in_uint8s (in_uint8s s 2) 4;
     if action = RDP_CTL_REQUEST_CONTROL
     then do {
       (_, self) \<leftarrow> xrdp_rdp_send_synchronise env self;
       (_, self) \<leftarrow> xrdp_rdp_send_control env self RDP_CTL_COOPERATE;
       (_, self) \<leftarrow> xrdp_rdp_send_control env self RDP_CTL_GRANT_CONTROL;
       Some (0, self, s) }
     else Some (0, self, s) }"

primrec screen_update_loop :: "('k, 'w) rdp_env \<Rightarrow> nat \<Rightarrow> 'w \<Rightarrow> stream \<Rightarrow> (int \<times> 'w \<times> stream) option" where
  "screen_update_loop env 0 w s = Some (0, w, s)"
| "screen_update_loop env (Suc n) w s =
     (if \<not> s_check_rem s 8 then Some (1, w, s) else do {
      (left, s) \<leftarrow> in_uint16_le s;
      (top, s) \<leftarrow> in_uint16_le s;
      (right, s) \<leftarrow> in_uint16_le s;
      (bottom, s) \<leftarrow> in_uint16_le s;
      screen_update_loop env n (rdp_callback env (Session_Call 0x4444 left top ((right - left) + 1) ((bottom - top) + 1)) w) s })"

definition xrdp_rdp_process_screen_update :: "('k, 'w) rdp_env \<Rightarrow> 'w \<Rightarrow> stream \<Rightarrow> (int \<times> 'w \<times> stream) option" where
  "xrdp_rdp_process_screen_update env w s =
     (if \<not> s_check_rem s 4 then Some (1, w, s) else do {
      (num_rects, s) \<leftarrow> in_uint8 s;
      screen_update_loop env (nat num_rects) w (in_uint8s s 3) })"

definition xrdp_rdp_send_fontmap :: "('k, 'w) rdp_env \<Rightarrow> 'k xrdp_rdp \<Rightarrow> (int \<times> 'k xrdp_rdp) option" where
  "xrdp_rdp_send_fontmap env self = do {
     s \<leftarrow> out_uint16_le (xrdp_rdp_init_data self (init_stream make_stream 8192)) 0;
     s \<leftarrow> out_uint16_le s 0;
     s \<leftarrow> out_uint16_le s 0x3;
     s \<leftarrow> out_uint16_le s 0x4;
     (r, self) \<leftarrow> xrdp_rdp_send_data env self (s_mark_end s) 0x28;
     Some (if r \<noteq> 0 then 1 else 0, self) }"

definition xrdp_rdp_process_data_font :: "('k, 'w) rdp_env \<Rightarrow> 'k xrdp_rdp \<Rightarrow> stream \<Rightarrow> (int \<times> 'k xrdp_rdp \<times> stream) option" where
  "xrdp_rdp_process_data_font env self s = do {
     let s = in_uint8s (in_uint8s s 2) 2;
     (seq, s) \<leftarrow> in_uint16_le s;
     if seq = 2 \<or> seq = 3
     then do {
       (_, self) \<leftarrow> xrdp_rdp_send_fontmap env self;
       let self = self\<lparr>up_and_running := 1\<rparr>;
       (_, self) \<leftarrow> xrdp_rdp_send_data_update_sync env self;
       (_, ch) \<leftarrow> xrdp_channel_drdynvc_start (env_crypto env) (env_mcs_callback env) (rdp_chan self);
       Some (0, self\<lparr>rdp_chan := ch\<rparr>, s) }
     else Some (0, self, s) }"

definition xrdp_rdp_send_disconnect_query_response :: "('k, 'w) rdp_env \<Rightarrow> 'k xrdp_rdp \<Rightarrow> (int \<times> 'k xrdp_rdp) option" where
  "xrdp_rdp_send_disconnect_query_response env self = do {
     (r, self) \<leftarrow> xrdp_rdp_send_data env self (s_mark_end (xrdp_rdp_init_data self (init_stream make_stream 8192))) 37;
     Some (if r \<noteq> 0 then 1 else 0, self) }"

definition xrdp_rdp_process_frame_ack :: "('k, 'w) rdp_env \<Rightarrow> 'w \<Rightarrow> stream \<Rightarrow> (int \<times> 'w \<times> stream) option" where
  "xrdp_rdp_process_frame_ack env w s = do {
     (frame_id, s) \<leftarrow> in_uint32_le s;
     Some (0, rdp_callback env (Session_Call 0x5557 (s32 frame_id) 0 0 0) w, s) }"

definition xrdp_rdp_process_suppress ::
  "('k, 'w) rdp_env \<Rightarrow> 'k xrdp_rdp \<Rightarrow> 'w \<Rightarrow> stream \<Rightarrow> (int \<times> 'k xrdp_rdp \<times> 'w \<times> stream) option" where
  "xrdp_rdp_process_suppress env self w s =
     (if \<not> s_check_rem s 1 then Some (1, self, w, s) else do {
      (allowDisplayUpdates, s) \<leftarrow> in_uint8 s;
      if allowDisplayUpdates = 0
      then Some (0, self\<lparr>suppress_output := 1\<rparr>, rdp_callback env (Session_Call 0x5559 1 0 0 0) w, s)
      else if allowDisplayUpdates = 1
      then do {
        let self = self\<lparr>suppress_output := 0\<rparr>;
        if \<not> s_check_rem s 11 then Some (1, self, w, s) else do {
        (left, s) \<leftarrow> in_uint16_le (in_uint8s s 3);
        (top, s) \<leftarrow> in_uint16_le s;
        (right, s) \<leftarrow> in_uint16_le s;
        (bottom, s) \<leftarrow> in_uint16_le s;
        Some (0, self, rdp_callback env (Session_Call 0x5559 0 (MAKELONG left top) (MAKELONG right bottom) 0) w, s) }}
      else Some (0, self, w, s) })"

text \<open>The handler of a data PDU. The return values of the single handlers are not looked at.\<close>

definition data_pdu_handler ::
  "('k, 'w) rdp_env \<Rightarrow> 'k xrdp_rdp \<Rightarrow> 'w \<Rightarrow> stream \<Rightarrow> int \<Rightarrow> ('k xrdp_rdp \<times> 'w \<times> stream) option" where
  "data_pdu_handler env self w s pduType2 =
     (if pduType2 = RDP_DATA_PDU_POINTER then Some (self, w, s)
      else if pduType2 = RDP_DATA_PDU_INPUT then do { (_, w, s) \<leftarrow> xrdp_rdp_process_data_input env w s; Some (self, w, s) }
      else if pduType2 = RDP_DATA_PDU_CONTROL then do { (_, self, s) \<leftarrow> xrdp_rdp_process_data_control env self s; Some (self, w, s) }
      else if pduType2 = RDP_DATA_PDU_SYNCHRONISE then Some (self, w, s)
      else if pduType2 = PDUTYPE2_REFRESH_RECT then do { (_, w, s) \<leftarrow> xrdp_rdp_process_screen_update env w s; Some (self, w, s) }
      else if pduType2 = 35 then do { (_, self, w, s) \<leftarrow> xrdp_rdp_process_suppress env self w s; Some (self, w, s) }
      else if pduType2 = 36 then do { (_, self) \<leftarrow> xrdp_rdp_send_disconnect_query_response env self; Some (self, w, s) }
      else if pduType2 = RDP_DATA_PDU_FONT2 then do { (_, self, s) \<leftarrow> xrdp_rdp_process_data_font env self s; Some (self, w, s) }
      else if pduType2 = 56 then do { (_, w, s) \<leftarrow> xrdp_rdp_process_frame_ack env w s; Some (self, w, s) }
      else Some (self, w, s))"

definition xrdp_rdp_process_data ::
  "('k, 'w) rdp_env \<Rightarrow> 'k xrdp_rdp \<Rightarrow> 'w \<Rightarrow> stream \<Rightarrow> (int \<times> 'k xrdp_rdp \<times> 'w \<times> stream) option" where
  "xrdp_rdp_process_data env self w s =
     (if \<not> s_check_rem s 12 then Some (1, self, w, s) else do {
      (uncompressedLength, s) \<leftarrow> in_uint16_le (in_uint8s s 6);
      (pduType2, s) \<leftarrow> in_uint8 s;
      (compressedType, s) \<leftarrow> in_uint8 s;
      (compressedLength, s) \<leftarrow> in_uint16_le s;
      if compressedType \<noteq> 0 then Some (1, self, w, s)
      else if compressedLength > uncompressedLength then Some (1, self, w, s)
      else do {
        (self, w, s) \<leftarrow> data_pdu_handler env self w s pduType2;
        Some (0, self, w, s) } })"

subsection \<open>The rest of the layer\<close>

definition xrdp_rdp_incoming ::
    "security_config \<Rightarrow> bool \<times> bool \<Rightarrow> byte list \<Rightarrow> (string \<times> string) list option \<Rightarrow> (int list \<Rightarrow> byte list option)
     \<Rightarrow> (xrdp_client_info \<Rightarrow> xrdp_client_info) \<Rightarrow> 'k xrdp_rdp \<Rightarrow> (int \<times> 'k xrdp_rdp) option" where
  "xrdp_rdp_incoming cfg tls random keys wcstombs load_layout self = do {
     (r, sec) \<leftarrow> xrdp_sec_incoming cfg tls random keys wcstombs load_layout (xs_sec (rdp_sec self));
     let self = upd_sec ((rdp_sec self)\<lparr>xs_sec := sec\<rparr>) self;
     if r \<noteq> 0 then Some (1, self)
     else Some (0, self\<lparr>mcs_channel := userid (mcs_layer sec) + MCS_USERCHANNEL_BASE\<rparr>) }"

definition xrdp_rdp_disconnect :: "int \<Rightarrow> 'k xrdp_rdp \<Rightarrow> (int \<times> 'k xrdp_rdp) option" where
  "xrdp_rdp_disconnect disconnect self = do {
     (rv, mcs) \<leftarrow> xrdp_mcs_disconnect disconnect (mcs_layer (xs_sec (rdp_sec self)));
     Some (rv, upd_sec (upd_mcs mcs (rdp_sec self)) self) }"

definition xrdp_rdp_send_deactivate :: "('k, 'w) rdp_env \<Rightarrow> 'k xrdp_rdp \<Rightarrow> (int \<times> 'k xrdp_rdp) option" where
  "xrdp_rdp_send_deactivate env self = do {
     (r, self) \<leftarrow> xrdp_rdp_send env self (s_mark_end (xrdp_rdp_init self (init_stream make_stream 8192))) PDUTYPE_DEACTIVATEALLPDU;
     Some (if r \<noteq> 0 then 1 else 0, self) }"

definition xrdp_rdp_send_session_info :: "('k, 'w) rdp_env \<Rightarrow> 'k xrdp_rdp \<Rightarrow> byte list \<Rightarrow> (int \<times> 'k xrdp_rdp) option" where
  "xrdp_rdp_send_session_info env self data =
     (let s = xrdp_rdp_init_data self (init_stream make_stream 8192) in
      if s_check_rem_out s (int (length data))
      then do {
        s \<leftarrow> out_uint8p s data;
        (r, self) \<leftarrow> xrdp_rdp_send_data env self (s_mark_end s) RDP_DATA_PDU_LOGON;
        Some (if r \<noteq> 0 then 1 else 0, self) }
      else Some (1, self))"

end
