(* ===== verification/Caps.thy ===== *)
theory Caps
  imports Rdp
begin

text \<open>
  The capability exchange (\<open>libxrdp/xrdp_caps.c\<close>): the demand-active PDU with the sets the server announces, the
  monitor layout, and the handlers of the sets in the client's confirm-active PDU, which fill in \<open>client_info\<close>. A handler
  gets the length of its set; its return value is not looked at, and the next set is found from the announced length.
  \<open>rfx\<close> says whether the program was built with a RemoteFX codec.
\<close>

abbreviation (input) CAPSTYPE_GENERAL :: int where "CAPSTYPE_GENERAL \<equiv> 0x1"
abbreviation (input) CAPSTYPE_BITMAP :: int where "CAPSTYPE_BITMAP \<equiv> 0x2"
abbreviation (input) CAPSTYPE_ORDER :: int where "CAPSTYPE_ORDER \<equiv> 0x3"
abbreviation (input) CAPSTYPE_BITMAPCACHE :: int where "CAPSTYPE_BITMAPCACHE \<equiv> 0x4"
abbreviation (input) CAPSTYPE_POINTER :: int where "CAPSTYPE_POINTER \<equiv> 0x8"
abbreviation (input) CAPSTYPE_SHARE :: int where "CAPSTYPE_SHARE \<equiv> 0x9"
abbreviation (input) CAPSTYPE_COLORCACHE :: int where "CAPSTYPE_COLORCACHE \<equiv> 0xa"
abbreviation (input) CAPSTYPE_INPUT :: int where "CAPSTYPE_INPUT \<equiv> 0xd"
abbreviation (input) CAPSTYPE_FONT :: int where "CAPSTYPE_FONT \<equiv> 0xe"
abbreviation (input) CAPSTYPE_BRUSH :: int where "CAPSTYPE_BRUSH \<equiv> 0xf"
abbreviation (input) CAPSTYPE_GLYPHCACHE :: int where "CAPSTYPE_GLYPHCACHE \<equiv> 0x10"
abbreviation (input) CAPSTYPE_OFFSCREENCACHE :: int where "CAPSTYPE_OFFSCREENCACHE \<equiv> 0x11"
abbreviation (input) CAPSTYPE_BITMAPCACHE_REV2 :: int where "CAPSTYPE_BITMAPCACHE_REV2 \<equiv> 0x13"
abbreviation (input) CAPSTYPE_RAIL :: int where "CAPSTYPE_RAIL \<equiv> 0x17"
abbreviation (input) CAPSTYPE_WINDOW :: int where "CAPSTYPE_WINDOW \<equiv> 0x18"
abbreviation (input) CAPSTYPE_MULTIFRAGMENTUPDATE :: int where "CAPSTYPE_MULTIFRAGMENTUPDATE \<equiv> 0x1a"
abbreviation (input) CAPSTYPE_SURFACE_COMMANDS :: int where "CAPSTYPE_SURFACE_COMMANDS \<equiv> 0x1c"
abbreviation (input) CAPSTYPE_BITMAP_CODECS :: int where "CAPSTYPE_BITMAP_CODECS \<equiv> 0x1d"
abbreviation (input) CAPSTYPE_FRAME_ACKNOWLEDGE :: int where "CAPSTYPE_FRAME_ACKNOWLEDGE \<equiv> 0x1e"
abbreviation (input) NO_BITMAP_COMPRESSION_HDR :: int where "NO_BITMAP_COMPRESSION_HDR \<equiv> 0x0400"
abbreviation (input) FASTPATH_OUTPUT_SUPPORTED :: int where "FASTPATH_OUTPUT_SUPPORTED \<equiv> 0x0001"
abbreviation (input) INPUT_FLAG_FASTPATH_INPUT :: int where "INPUT_FLAG_FASTPATH_INPUT \<equiv> 0x0008"
abbreviation (input) INPUT_FLAG_FASTPATH_INPUT2 :: int where "INPUT_FLAG_FASTPATH_INPUT2 \<equiv> 0x0020"
abbreviation (input) XRDP_MAX_BITMAP_CACHE_IDX :: int where "XRDP_MAX_BITMAP_CACHE_IDX \<equiv> 2000"
abbreviation (input) GLYPH_SUPPORT_ENCODE :: int where "GLYPH_SUPPORT_ENCODE \<equiv> 3"

definition XR_CODEC_GUID_NSCODEC :: "byte list" where
  "XR_CODEC_GUID_NSCODEC = [0xb9, 0x1b, 0x8d, 0xca, 0x0f, 0x00, 0x4f, 0x15, 0x58, 0x9f, 0xae, 0x2d, 0x1a, 0x87, 0xe2, 0xd6]"

definition XR_CODEC_GUID_REMOTEFX :: "byte list" where
  "XR_CODEC_GUID_REMOTEFX = [0x12, 0x2F, 0x77, 0x76, 0x72, 0xBD, 0x63, 0x44, 0xAF, 0xB3, 0xB7, 0x3C, 0x9C, 0x6F, 0x78, 0x86]"

definition XR_CODEC_GUID_IMAGE_REMOTEFX :: "byte list" where
  "XR_CODEC_GUID_IMAGE_REMOTEFX = [0xD4, 0xCC, 0x44, 0x27, 0x8A, 0x9D, 0x74, 0x4E, 0x80, 0x3C, 0x0E, 0xCB, 0xEE, 0xA1, 0x9C, 0x54]"

definition XR_CODEC_GUID_H264 :: "byte list" where
  "XR_CODEC_GUID_H264 = [0x48, 0x32, 0x36, 0x34, 0x00, 0x00, 0x10, 0x00, 0x80, 0x00, 0x00, 0xAA, 0x00, 0x38, 0x9B, 0x71]"

definition XR_CODEC_GUID_JPEG :: "byte list" where
  "XR_CODEC_GUID_JPEG = [0xE6, 0x4C, 0xAF, 0x1B, 0xED, 0x9E, 0x0C, 0x43, 0x86, 0x9A, 0xCB, 0x8B, 0x37, 0xB6, 0x62, 0x37]"

definition upd_caps :: "(client_caps \<Rightarrow> client_caps) \<Rightarrow> 'k xrdp_rdp \<Rightarrow> 'k xrdp_rdp" where
  "upd_caps f self = self\<lparr>rdp_caps := f (rdp_caps self)\<rparr>"

abbreviation rdp_client_info :: "'k xrdp_rdp \<Rightarrow> xrdp_client_info" where
  "rdp_client_info self \<equiv> client_info (xs_sec (rdp_sec self))"

subsection \<open>The sets of the client\<close>

definition xrdp_caps_process_general :: "'k xrdp_rdp \<Rightarrow> stream \<Rightarrow> int \<Rightarrow> (int \<times> 'k xrdp_rdp) option" where
  "xrdp_caps_process_general self s len =
     (if len < 10 + 2 then Some (1, self) else do {
      (major, s) \<leftarrow> in_uint16_le s;
      (minor, s) \<leftarrow> in_uint16_le s;
      (extraFlags, s) \<leftarrow> in_uint16_le (in_uint8s s 6);
      let compact = (if extraFlags \<noteq> 0 then 1 else 0);
      let self = upd_caps (\<lambda>c. c\<lparr>cc_os_major := major, cc_os_minor := minor, cc_op1 := extraFlags AND NO_BITMAP_COMPRESSION_HDR,
         cc_use_compact_packets := compact, cc_op2 := compact\<rparr>) self;
      Some (0, if use_fast_path self AND 1 \<noteq> 0 \<and> extraFlags AND FASTPATH_OUTPUT_SUPPORTED = 0
        then self\<lparr>use_fast_path := use_fast_path self AND NOT 1\<rparr> else self) })"

definition xrdp_caps_process_order :: "'k xrdp_rdp \<Rightarrow> stream \<Rightarrow> int \<Rightarrow> (int \<times> 'k xrdp_rdp) option" where
  "xrdp_caps_process_order self s len =
     (if len < 20 + 2 + 2 + 2 + 2 + 2 + 2 + 32 + 2 + 2 + 4 + 4 + 4 + 4 then Some (1, self) else do {
      (cap_flags, s) \<leftarrow> in_uint16_le (in_uint8s s (20 + 2 + 2 + 2 + 2 + 2));
      (order_caps, s) \<leftarrow> in_uint8a s 32;
      let self = upd_caps (\<lambda>c. c\<lparr>cc_orders := order_caps\<rparr>) self;
      (ex_flags, s) \<leftarrow> in_uint16_le (in_uint8s s 2);
      let self = (if cap_flags AND 0x80 \<noteq> 0
        then upd_caps (\<lambda>c. c\<lparr>cc_order_flags_ex := ex_flags, cc_bitmap_cache_version :=
               (if ex_flags AND 2 \<noteq> 0 then cc_bitmap_cache_version c OR 4 else cc_bitmap_cache_version c)\<rparr>) self
        else self);
      (i, s) \<leftarrow> in_uint32_le (in_uint8s s 4);
      let self = upd_caps (\<lambda>c. c\<lparr>cc_desktop_cache := s32 i\<rparr>) self;
      Some (0, if \<not> (order_caps ! 0 \<noteq> 0 \<and> order_caps ! 1 \<noteq> 0 \<and> order_caps ! 2 \<noteq> 0 \<and> order_caps ! 3 \<noteq> 0)
        then upd_caps (\<lambda>c. c\<lparr>cc_no_orders_supported := 1\<rparr>) self else self) })"

definition cache_idx :: "int \<Rightarrow> int" where
  "cache_idx i = max (min i XRDP_MAX_BITMAP_CACHE_IDX) 0"

definition xrdp_caps_process_bmpcache :: "'k xrdp_rdp \<Rightarrow> stream \<Rightarrow> int \<Rightarrow> (int \<times> 'k xrdp_rdp) option" where
  "xrdp_caps_process_bmpcache self s len =
     (if len < 24 + 2 + 2 + 2 + 2 + 2 + 2 then Some (1, self) else do {
      (e1, s) \<leftarrow> in_uint16_le (in_uint8s s 24);
      (s1, s) \<leftarrow> in_uint16_le s;
      (e2, s) \<leftarrow> in_uint16_le s;
      (s2, s) \<leftarrow> in_uint16_le s;
      (e3, s) \<leftarrow> in_uint16_le s;
      (s3, s) \<leftarrow> in_uint16_le s;
      Some (0, upd_caps (\<lambda>c. c\<lparr>cc_bitmap_cache_version := cc_bitmap_cache_version c OR 1, cc_cache1_entries := cache_idx e1, cc_cache1_size := s1,
         cc_cache2_entries := cache_idx e2, cc_cache2_size := s2, cc_cache3_entries := cache_idx e3, cc_cache3_size := s3\<rparr>) self) })"

text \<open>The division of a C \<open>int\<close> rounds towards zero.\<close>

definition c_div :: "int \<Rightarrow> int \<Rightarrow> int" where
  "c_div a b = (if a < 0 then - ((- a) div b) else a div b)"

definition xrdp_caps_process_bmpcache2 :: "'k xrdp_rdp \<Rightarrow> stream \<Rightarrow> int \<Rightarrow> (int \<times> 'k xrdp_rdp) option" where
  "xrdp_caps_process_bmpcache2 self s len =
     (if len < 2 + 2 + 4 + 4 + 4 then Some (1, self) else do {
      let Bpp = c_div (ci_bpp (rdp_client_info self) + 7) 8;
      (flags, s) \<leftarrow> in_uint16_le s;
      (i1, s) \<leftarrow> in_uint32_le (in_uint8s s 2);
      (i2, s) \<leftarrow> in_uint32_le s;
      (i3, s) \<leftarrow> in_uint32_le s;
      Some (0, upd_caps (\<lambda>c. c\<lparr>cc_bitmap_cache_version := cc_bitmap_cache_version c OR 2, cc_bitmap_cache_persist_enable := flags,
         cc_cache1_entries := cache_idx (s32 i1), cc_cache1_size := 256 * Bpp, cc_cache2_entries := cache_idx (s32 i2), cc_cache2_size := 1024 * Bpp,
         cc_cache3_entries := cache_idx (i3 AND 0x7fffffff), cc_cache3_size := 4096 * Bpp\<rparr>) self) })"

definition xrdp_caps_process_cache_v3_codec_id :: "'k xrdp_rdp \<Rightarrow> stream \<Rightarrow> int \<Rightarrow> (int \<times> 'k xrdp_rdp) option" where
  "xrdp_caps_process_cache_v3_codec_id self s len =
     (if len < 1 then Some (1, self) else do {
      (codec_id, s) \<leftarrow> in_uint8 s;
      Some (0, upd_caps (\<lambda>c. c\<lparr>cc_v3_codec_id := codec_id\<rparr>) self) })"

definition xrdp_caps_process_pointer :: "'k xrdp_rdp \<Rightarrow> stream \<Rightarrow> int \<Rightarrow> (int \<times> 'k xrdp_rdp) option" where
  "xrdp_caps_process_pointer self s len =
     (if len < 2 + 2 + 2 then Some (1, self) else do {
      let no_new_cursor = cc_pointer_flags (rdp_caps self) AND 2;
      (colorPointerFlag, s) \<leftarrow> in_uint16_le s;
      (i, s) \<leftarrow> in_uint16_le s;
      (i, s) \<leftarrow> (if colorPointerFlag AND 1 \<noteq> 0 then in_uint16_le s else Some (i, s));
      Some (0, upd_caps (\<lambda>c. c\<lparr>cc_pointer_flags := (if no_new_cursor \<noteq> 0 then 0 else colorPointerFlag), cc_pointer_cache_entries := min i 32\<rparr>) self) })"

definition xrdp_caps_process_input :: "'k xrdp_rdp \<Rightarrow> stream \<Rightarrow> int \<Rightarrow> (int \<times> 'k xrdp_rdp) option" where
  "xrdp_caps_process_input self s len = do {
     (inputFlags, s) \<leftarrow> in_uint16_le s;
     let fast = inputFlags AND INPUT_FLAG_FASTPATH_INPUT \<noteq> 0 \<or> inputFlags AND INPUT_FLAG_FASTPATH_INPUT2 \<noteq> 0;
     Some (0, if use_fast_path self AND 2 \<noteq> 0 \<and> \<not> fast then self\<lparr>use_fast_path := use_fast_path self AND NOT 2\<rparr> else self) }"

definition xrdp_caps_process_brushcache :: "'k xrdp_rdp \<Rightarrow> stream \<Rightarrow> int \<Rightarrow> (int \<times> 'k xrdp_rdp) option" where
  "xrdp_caps_process_brushcache self s len =
     (if len < 4 then Some (1, self) else do {
      (code, s) \<leftarrow> in_uint32_le s;
      Some (0, upd_caps (\<lambda>c. c\<lparr>cc_brush_cache_code := s32 code\<rparr>) self) })"

definition xrdp_caps_process_glyphcache :: "'k xrdp_rdp \<Rightarrow> stream \<Rightarrow> int \<Rightarrow> (int \<times> 'k xrdp_rdp) option" where
  "xrdp_caps_process_glyphcache self s len =
     (if len < 40 + 4 + 2 + 2 then Some (1, self) else do {
      (level, s) \<leftarrow> in_uint16_le (in_uint8s s (40 + 4));
      Some (0, if level = GLYPH_SUPPORT_ENCODE then upd_caps (\<lambda>c. c\<lparr>cc_use_cache_glyph_v2 := 1\<rparr>) self else self) })"

definition xrdp_caps_process_offscreen_bmpcache :: "'k xrdp_rdp \<Rightarrow> stream \<Rightarrow> int \<Rightarrow> (int \<times> 'k xrdp_rdp) option" where
  "xrdp_caps_process_offscreen_bmpcache self s len =
     (if len < 4 + 2 + 2 then Some (1, self) else do {
      (level, s) \<leftarrow> in_uint32_le s;
      (size, s) \<leftarrow> in_uint16_le s;
      (entries, s) \<leftarrow> in_uint16_le s;
      Some (0, upd_caps (\<lambda>c. c\<lparr>cc_offscreen_support_level := s32 level, cc_offscreen_cache_size := size * 1024, cc_offscreen_cache_entries := entries\<rparr>) self) })"

definition xrdp_caps_process_rail :: "'k xrdp_rdp \<Rightarrow> stream \<Rightarrow> int \<Rightarrow> (int \<times> 'k xrdp_rdp) option" where
  "xrdp_caps_process_rail self s len =
     (if len < 4 then Some (1, self) else do {
      (level, s) \<leftarrow> in_uint32_le s;
      Some (0, upd_caps (\<lambda>c. c\<lparr>cc_rail_support_level := s32 level\<rparr>) self) })"

definition xrdp_caps_process_window :: "'k xrdp_rdp \<Rightarrow> stream \<Rightarrow> int \<Rightarrow> (int \<times> 'k xrdp_rdp) option" where
  "xrdp_caps_process_window self s len =
     (if len < 4 + 1 + 2 then Some (1, self) else do {
      (level, s) \<leftarrow> in_uint32_le s;
      (caches, s) \<leftarrow> in_uint8 s;
      (entries, s) \<leftarrow> in_uint16_le s;
      Some (0, upd_caps (\<lambda>c. c\<lparr>cc_wnd_support_level := s32 level, cc_wnd_num_icon_caches := caches, cc_wnd_num_icon_cache_entries := entries\<rparr>) self) })"

text \<open>
  One codec. The properties are copied over the start of an array of 64 bytes; the first byte of those of JPEG is a
  \<open>char\<close> that must be from 0 to 100. The result: the fields, and the stream behind the properties.
\<close>

definition set_codec :: "int \<Rightarrow> int \<Rightarrow> byte list \<Rightarrow> codec_info \<Rightarrow> codec_info" where
  "set_codec codec_id i1 props cd = cd\<lparr>cd_id := codec_id, cd_prop_len := i1, cd_prop := props @ drop (nat i1) (cd_prop cd)\<rparr>"

definition jpeg_quality :: "codec_info \<Rightarrow> codec_info" where
  "jpeg_quality cd = (if uint (cd_prop cd ! 0) > 100 then cd\<lparr>cd_prop := (cd_prop cd)[0 := 75]\<rparr> else cd)"

definition process_codec :: "'k xrdp_rdp \<Rightarrow> stream \<Rightarrow> byte list \<Rightarrow> int \<Rightarrow> int \<Rightarrow> ('k xrdp_rdp) option" where
  "process_codec self s guid codec_id codec_properties_length =
     (let i1 = min 64 codec_properties_length in
      if guid = XR_CODEC_GUID_NSCODEC then do { (props, _) \<leftarrow> in_uint8a s i1; Some (upd_caps (cc_ns_update (set_codec codec_id i1 props)) self) }
      else if guid = XR_CODEC_GUID_REMOTEFX then do { (props, _) \<leftarrow> in_uint8a s i1; Some (upd_caps (cc_rfx_update (set_codec codec_id i1 props)) self) }
      else if guid = XR_CODEC_GUID_JPEG
      then do { (props, _) \<leftarrow> in_uint8a s i1; Some (upd_caps (cc_jpeg_update (\<lambda>cd. jpeg_quality (set_codec codec_id i1 props cd))) self) }
      else if guid = XR_CODEC_GUID_H264 then do { (props, _) \<leftarrow> in_uint8a s i1; Some (upd_caps (cc_h264_update (set_codec codec_id i1 props)) self) }
      else Some self)"

primrec process_codecs :: "nat \<Rightarrow> 'k xrdp_rdp \<Rightarrow> stream \<Rightarrow> int \<Rightarrow> (int \<times> 'k xrdp_rdp) option" where
  "process_codecs 0 self s len = Some (0, self)"
| "process_codecs (Suc n) self s len =
     (if len < 16 + 1 + 2 then Some (1, self) else do {
      (guid, s) \<leftarrow> in_uint8a s 16;
      (codec_id, s) \<leftarrow> in_uint8 s;
      (codec_properties_length, s) \<leftarrow> in_uint16_le s;
      let len = len - (16 + 1 + 2);
      if len < codec_properties_length then Some (1, self) else do {
      self \<leftarrow> process_codec self s guid codec_id codec_properties_length;
      process_codecs n self (in_uint8s s codec_properties_length) (len - codec_properties_length) } })"

definition xrdp_caps_process_codecs :: "'k xrdp_rdp \<Rightarrow> stream \<Rightarrow> int \<Rightarrow> (int \<times> 'k xrdp_rdp) option" where
  "xrdp_caps_process_codecs self s len =
     (if len < 1 then Some (1, self) else do {
      (codec_count, s) \<leftarrow> in_uint8 s;
      process_codecs (nat codec_count) self s (len - 1) })"

definition xrdp_caps_process_multifragmentupdate :: "'k xrdp_rdp \<Rightarrow> stream \<Rightarrow> int \<Rightarrow> (int \<times> 'k xrdp_rdp) option" where
  "xrdp_caps_process_multifragmentupdate self s len = do {
     (MaxRequestSize, s) \<leftarrow> in_uint32_le s;
     Some (0, self\<lparr>max_frag_bytes := s32 MaxRequestSize\<rparr>) }"

definition xrdp_caps_process_frame_ack :: "'k xrdp_rdp \<Rightarrow> stream \<Rightarrow> int \<Rightarrow> (int \<times> 'k xrdp_rdp) option" where
  "xrdp_caps_process_frame_ack self s len = do {
     (n, s) \<leftarrow> in_uint32_le s;
     Some (0, upd_caps (\<lambda>c. c\<lparr>cc_use_frame_acks := 1, cc_max_unacknowledged_frame_count := (if s32 n < 0 then 0 else s32 n)\<rparr>) self) }"

definition xrdp_caps_process_surface_cmds :: "'k xrdp_rdp \<Rightarrow> stream \<Rightarrow> int \<Rightarrow> (int \<times> 'k xrdp_rdp) option" where
  "xrdp_caps_process_surface_cmds self s len = do {
     (cmdFlags, s) \<leftarrow> in_uint32_le s;
     Some (0, self) }"

subsection \<open>The confirm-active PDU\<close>

definition process_capset :: "int \<Rightarrow> 'k xrdp_rdp \<Rightarrow> stream \<Rightarrow> int \<Rightarrow> (int \<times> 'k xrdp_rdp) option" where
  "process_capset type self s len =
     (if type = CAPSTYPE_GENERAL then xrdp_caps_process_general self s len
      else if type = CAPSTYPE_ORDER then xrdp_caps_process_order self s len
      else if type = CAPSTYPE_BITMAPCACHE then xrdp_caps_process_bmpcache self s len
      else if type = 6 then xrdp_caps_process_cache_v3_codec_id self s len
      else if type = CAPSTYPE_POINTER then xrdp_caps_process_pointer self s len
      else if type = CAPSTYPE_INPUT then xrdp_caps_process_input self s len
      else if type = CAPSTYPE_BRUSH then xrdp_caps_process_brushcache self s len
      else if type = CAPSTYPE_GLYPHCACHE then xrdp_caps_process_glyphcache self s len
      else if type = CAPSTYPE_OFFSCREENCACHE then xrdp_caps_process_offscreen_bmpcache self s len
      else if type = CAPSTYPE_BITMAPCACHE_REV2 then xrdp_caps_process_bmpcache2 self s len
      else if type = CAPSTYPE_RAIL then xrdp_caps_process_rail self s len
      else if type = CAPSTYPE_WINDOW then xrdp_caps_process_window self s len
      else if type = CAPSTYPE_MULTIFRAGMENTUPDATE then xrdp_caps_process_multifragmentupdate self s len
      else if type = CAPSTYPE_SURFACE_COMMANDS then xrdp_caps_process_surface_cmds self s len
      else if type = CAPSTYPE_BITMAP_CODECS then xrdp_caps_process_codecs self s len
      else if type = CAPSTYPE_FRAME_ACKNOWLEDGE then xrdp_caps_process_frame_ack self s len
      else Some (0, self))"

primrec process_capsets :: "nat \<Rightarrow> 'k xrdp_rdp \<Rightarrow> stream \<Rightarrow> (int \<times> 'k xrdp_rdp \<times> stream) option" where
  "process_capsets 0 self s = Some (0, self, s)"
| "process_capsets (Suc n) self s =
     (let p = s_p s in
      if \<not> s_check_rem s 4 then Some (1, self, s) else do {
      (type, s) \<leftarrow> in_uint16_le s;
      (len, s) \<leftarrow> in_uint16_le s;
      if len < 4 \<or> \<not> s_check_rem s (len - 4) then Some (1, self, s) else do {
      (_, self) \<leftarrow> process_capset type self s (len - 4);
      process_capsets n self (s\<lparr>s_p := p + len\<rparr>) } })"

definition xrdp_caps_process_confirm_active :: "'k xrdp_rdp \<Rightarrow> stream \<Rightarrow> (int \<times> 'k xrdp_rdp \<times> stream) option" where
  "xrdp_caps_process_confirm_active self s = do {
     (source_len, s) \<leftarrow> in_uint16_le (in_uint8s s (4 + 2));
     (cap_len, s) \<leftarrow> in_uint16_le s;
     (num_caps, s) \<leftarrow> in_uint16_le (in_uint8s s source_len);
     let s = in_uint8s s 2;
     if cap_len < 0 \<or> cap_len > 1024 * 1024 then Some (1, self, s) else do {
     (r, self, s) \<leftarrow> process_capsets (nat num_caps) self s;
     if r \<noteq> 0 then Some (1, self, s)
     else Some (0, if cc_no_orders_supported (rdp_caps self) \<noteq> 0 \<and> cc_offscreen_support_level (rdp_caps self) \<noteq> 0
       then upd_caps (\<lambda>c. c\<lparr>cc_offscreen_support_level := 0, cc_offscreen_cache_size := 0, cc_offscreen_cache_entries := 0\<rparr>) self else self, s) } }"

subsection \<open>The demand-active PDU\<close>

primrec out_monitors :: "nat \<Rightarrow> nat \<Rightarrow> monitor_info list \<Rightarrow> stream \<Rightarrow> stream option" where
  "out_monitors 0 i minfo s = Some s"
| "out_monitors (Suc n) i minfo s =
     (if i < length minfo then do {
        let m = minfo ! i;
        s \<leftarrow> out_uint32_le s (mi_left m);
        s \<leftarrow> out_uint32_le s (mi_top m);
        s \<leftarrow> out_uint32_le s (mi_right m);
        s \<leftarrow> out_uint32_le s (mi_bottom m);
        s \<leftarrow> out_uint32_le s (mi_is_primary m);
        out_monitors n (Suc i) minfo s }
      else None)"

definition xrdp_caps_send_monitorlayout :: "('k, 'w) rdp_env \<Rightarrow> 'k xrdp_rdp \<Rightarrow> (int \<times> 'k xrdp_rdp) option" where
  "xrdp_caps_send_monitorlayout env self = do {
     let ci = rdp_client_info self;
     s \<leftarrow> out_uint32_le (xrdp_rdp_init_data self (init_stream make_stream 8192)) (ci_monitorCount ci);
     s \<leftarrow> out_monitors (nat (ci_monitorCount ci)) 0 (ci_minfo ci) s;
     (r, self) \<leftarrow> xrdp_rdp_send_data env self (s_mark_end s) 0x37;
     Some (if r \<noteq> 0 then 1 else 0, self) }"

text \<open>
  The sets of the server in the order of the code: type, announced length and what is written behind them. The length of
  the codec set is computed from what was written.
\<close>

definition codec_caps :: "bool \<Rightarrow> byte list" where
  "codec_caps rfx =
     (let nscodec = XR_CODEC_GUID_NSCODEC @ enc8 1 @ enc16_le 3 @ enc8 0x01 @ enc8 0x01 @ enc8 0x03;
          remotefx = XR_CODEC_GUID_REMOTEFX @ enc8 0 @ enc16_le 4 @ enc32_le 0;
          image_remotefx = XR_CODEC_GUID_IMAGE_REMOTEFX @ enc8 0 @ enc16_le 4 @ enc32_le 0;
          jpeg = XR_CODEC_GUID_JPEG @ enc8 0 @ enc16_le 1 @ enc8 75
      in if rfx then enc8 4 @ nscodec @ remotefx @ image_remotefx @ jpeg else enc8 2 @ nscodec @ jpeg)"

definition order_support :: "byte list" where
  "order_support = [1, 1, 1, 1, 0, 0, 0, 0, 1, 0, 1, 0, 0, 0, 0, 0, 0, 0, 1, 0, 0, 0, 0, 0, 0, 0, 0, 1, 0, 0, 0, 0]"

definition server_caps :: "bool \<Rightarrow> 'k xrdp_rdp \<Rightarrow> (int \<times> int \<times> byte list) list" where
  "server_caps rfx self =
     (let ci = rdp_client_info self; fp = use_fast_path self in
      [(CAPSTYPE_SHARE, 0x08, enc16_le (mcs_channel self) @ enc16_be 0xb5e2),
       (CAPSTYPE_GENERAL, 0x18, enc16_le 1 @ enc16_le 3 @ enc16_le 0x200 @ enc16_le 0 @ enc16_le 0
          @ enc16_le (if fp AND 1 \<noteq> 0 then NO_BITMAP_COMPRESSION_HDR OR FASTPATH_OUTPUT_SUPPORTED else NO_BITMAP_COMPRESSION_HDR)
          @ enc16_le 0 @ enc16_le 0 @ enc16_le 0 @ enc8 1 @ enc8 1),
       (CAPSTYPE_BITMAP, 0x1C, enc16_le (ci_bpp ci) @ enc16_le 1 @ enc16_le 1 @ enc16_le 1 @ enc16_le (ci_width ci) @ enc16_le (ci_height ci)
          @ enc16_le 0 @ enc16_le 1 @ enc16_le 1 @ enc16_le 0 @ enc16_le 0 @ enc16_le 0),
       (CAPSTYPE_FONT, 0x04, []),
       (CAPSTYPE_ORDER, 0x58, replicate 16 0 @ enc32_be 0x40420f00 @ enc16_le 1 @ enc16_le 20 @ enc16_le 0 @ enc16_le 1 @ enc16_le 0x2f
          @ enc16_le 0x22 @ order_support @ enc16_le 0x6a1 @ enc16_le 2 @ enc32_le 0x0f4240 @ enc32_le 0x0f4240 @ enc32_le 1 @ enc32_le 0),
       (CAPSTYPE_BITMAP_CODECS, int (length (codec_caps rfx)) + 2 + 2, codec_caps rfx),
       (CAPSTYPE_COLORCACHE, 0x08, enc16_le 6 @ enc16_le 0),
       (CAPSTYPE_POINTER, 0x0a, enc16_le 1 @ enc16_le 0x19 @ enc16_le 0x19),
       (CAPSTYPE_INPUT, 0x58, enc16_le (if fp AND 2 \<noteq> 0 then 0x0001 OR 0x0004 OR 0x0010 OR 0x0100 OR (INPUT_FLAG_FASTPATH_INPUT OR INPUT_FLAG_FASTPATH_INPUT2)
          else 0x0001 OR 0x0004 OR 0x0010 OR 0x0100) @ replicate 82 0)]
      @ (if li_rail_enable (xs_logon (rdp_sec self)) \<noteq> 0
         then [(CAPSTYPE_RAIL, 8, enc32_le 3), (CAPSTYPE_WINDOW, 11, enc32_le 2 @ enc8 3 @ enc16_le 12)] else [])
      @ [(6, 5, enc8 0)]
      @ (if fp AND FASTPATH_OUTPUT_SUPPORTED \<noteq> 0
         then [(CAPSTYPE_MULTIFRAGMENTUPDATE, 0x08, enc32_le (3 * 1024 * 1024)), (CAPSTYPE_FRAME_ACKNOWLEDGE, 0x08, enc32_le 2),
           (CAPSTYPE_SURFACE_COMMANDS, 0x0C, enc32_le (0x2 OR 0x10 OR 0x40) @ enc32_le 0)] else []))"

definition capset_bytes :: "int \<times> int \<times> byte list \<Rightarrow> byte list" where
  "capset_bytes c = (case c of (type, len, body) \<Rightarrow> enc16_le type @ enc16_le len @ body)"

text \<open>The body of the PDU: \<open>caps_size\<close> and \<open>caps_count\<close> are filled in when the sets and the padding have been written.\<close>

definition demand_active_body :: "bool \<Rightarrow> 'k xrdp_rdp \<Rightarrow> byte list" where
  "demand_active_body rfx self =
     (let caps = concat (map capset_bytes (server_caps rfx self)) @ replicate 4 0; caps_size = int (length caps); caps_count = int (length (server_caps rfx self))
      in enc32_le (share_id self) @ enc16_le 4 @ enc16_le caps_size @ [0x52, 0x44, 0x50, 0] @ enc32_le caps_count @ caps)"

definition xrdp_caps_send_demand_active :: "bool \<Rightarrow> ('k, 'w) rdp_env \<Rightarrow> 'k xrdp_rdp \<Rightarrow> (int \<times> 'k xrdp_rdp) option" where
  "xrdp_caps_send_demand_active rfx env self = do {
     s \<leftarrow> out_uint8p (xrdp_rdp_init self (init_stream make_stream 8192)) (demand_active_body rfx self);
     (r, self) \<leftarrow> xrdp_rdp_send env self (s_mark_end s) PDUTYPE_DEMANDACTIVEPDU;
     if r \<noteq> 0 then Some (1, self)
     else if ci_monitorCount (rdp_client_info self) > 0 \<and> ci_multimon (rdp_client_info self) = 1
     then do { (_, self) \<leftarrow> xrdp_caps_send_monitorlayout env self; Some (0, self) }
     else Some (0, self) }"

end
