(* ===== verification/Mppc_Laws.thy ===== *)
theory Mppc_Laws
  imports Mppc Sec_Crypt
begin

text \<open>
  What the bulk compressor of \<open>Mppc\<close> promises: the fifteen \<open>insert_\<close> macros append bits to a
  bit stream, the codes of literals, offsets and lengths form a prefix code that a decoder can
  read back, and a decoder that keeps a history of its own recovers every packet of a session.
\<close>

subsection \<open>The writer appends bits\<close>

text \<open>The \<open>n\<close> low bits of a value, most significant first.\<close>

definition msb_bits :: "nat \<Rightarrow> nat \<Rightarrow> bool list" where
  "msb_bits n v = map (\<lambda>k. bit v (n - 1 - k)) [0..<n]"

text \<open>
  The writer has produced \<open>bs\<close>: the cursor is at the end of \<open>bs\<close>, and the first \<open>Z\<close> bytes of
  the buffer (those that were cleared) hold the bits of \<open>bs\<close> and then zeros.
\<close>

definition wrote :: "nat \<Rightarrow> bitout \<Rightarrow> bool list \<Rightarrow> bool" where
  "wrote Z w bs \<longleftrightarrow> 1 \<le> bits_left w \<and> bits_left w \<le> 8 \<and> 8 * opb_index w + 8 = length bs + bits_left w \<and>
     (\<forall>i r. i < Z \<longrightarrow> r < 8 \<longrightarrow> bit (outbuf w i) (7 - r) = (8 * i + r < length bs \<and> bs ! (8 * i + r)))"

lemma length_msb_bits [simp]: "length (msb_bits n v) = n"
  by (simp add: msb_bits_def)

lemma nth_msb_bits: "k < n \<Longrightarrow> msb_bits n v ! k = bit v (n - 1 - k)"
  by (simp add: msb_bits_def)

lemma bit_beyond: "v < 2 ^ n \<Longrightarrow> n \<le> m \<Longrightarrow> \<not> bit (v :: nat) m"
proof -
  assume "v < 2 ^ n" "n \<le> m"
  then have "v < 2 ^ m" using power_increasing [of n m "2 :: nat"] by (meson one_le_numeral order_less_le_trans)
  then show ?thesis by (simp add: bit_iff_odd)
qed

text \<open>
  The shape all the macros share: byte \<open>m\<close> behind the cursor receives the bits of \<open>v\<close> that
  belong there.
\<close>

lemma wrote_append:
  assumes w: "wrote Z w bs" and v: "v < 2 ^ n"
    and below: "\<And>i. i < opb_index w \<Longrightarrow> outbuf w' i = outbuf w i"
    and bytes: "\<And>m r. r < 8 \<Longrightarrow> bit (outbuf w' (opb_index w + m)) (7 - r) =
      (bit (outbuf w (opb_index w + m)) (7 - r) \<or> (8 * m + r + bits_left w \<le> n + 7 \<and> bit v (n + 7 - bits_left w - r - 8 * m)))"
    and cur: "1 \<le> bits_left w'" "bits_left w' \<le> 8" "8 * opb_index w' + 8 = length bs + n + bits_left w'"
  shows "wrote Z w' (bs @ msb_bits n v)"
  unfolding wrote_def
proof (intro conjI allI impI)
  fix i r :: nat
  assume ir: "i < Z" "r < 8"
  have old: "bit (outbuf w i) (7 - r) = (8 * i + r < length bs \<and> bs ! (8 * i + r))"
    using w ir by (auto simp: wrote_def)
  have len: "8 * opb_index w + 8 = length bs + bits_left w" "1 \<le> bits_left w" "bits_left w \<le> 8"
    using w by (auto simp: wrote_def)
  show "bit (outbuf w' i) (7 - r) = (8 * i + r < length (bs @ msb_bits n v) \<and> (bs @ msb_bits n v) ! (8 * i + r))"
  proof (cases "i < opb_index w")
    case True
    with len ir have "8 * i + r < length bs" by linarith
    with True old below show ?thesis by (simp add: nth_append)
  next
    case False
    define m where "m = i - opb_index w"
    with False have i: "i = opb_index w + m" by simp
    show ?thesis
    proof (cases "8 * i + r < length bs")
      case True
      with len i have "m = 0" "r + bits_left w < 8" by linarith+
      then have "\<not> bit v (n + 7 - bits_left w - r - 8 * m)" by (intro bit_beyond [OF v]) linarith
      with True old bytes [OF ir(2), of m] show ?thesis by (simp add: i nth_append)
    next
      case F: False
      then have idx: "8 * i + r - length bs = 8 * m + r + bits_left w - 8" using len i by linarith
      show ?thesis
      proof (cases "8 * m + r + bits_left w \<le> n + 7")
        case True
        then have lt: "8 * m + r + bits_left w - 8 < n" using F len i by linarith
        then have e: "n - Suc (8 * m + r + bits_left w - 8) = n + 7 - (bits_left w + r + 8 * m)" using F len i by linarith
        have "8 * i + r < length bs + n" using lt idx F by linarith
        then show ?thesis using old bytes [OF ir(2), of m] F True lt by (simp add: i [symmetric] nth_append idx nth_msb_bits e)
      next
        case Fa: False
        then have "\<not> 8 * i + r < length bs + n" using idx F by linarith
        then show ?thesis using old bytes [OF ir(2), of m] F Fa by (simp add: i [symmetric])
      qed
    qed
  qed
qed (use cur in simp_all)

lemma or_byte_ok: "opb_index w < L \<Longrightarrow> or_byte L v w =
   Some (w\<lparr>outbuf := (outbuf w)(opb_index w := outbuf w (opb_index w) OR word_of_nat v)\<rparr>)"
  by (simp add: or_byte_def)

lemma bit_byte_of_nat: "bit (word_of_nat v :: byte) n \<longleftrightarrow> n < 8 \<and> bit v n"
  by transfer (simp add: bit_take_bit_iff bit_of_nat_iff)

lemmas byte_bits = bit_or_iff bit_byte_of_nat bit_push_bit_iff_nat bit_drop_bit_eq

lemma put_one_wrote:
  assumes "wrote Z w bs" "opb_index w + 2 < L" "v < 2 ^ n" "bits_left w = n + i" "1 \<le> i"
  shows "\<exists>w'. put_one L i v w = Some w' \<and> wrote Z w' (bs @ msb_bits n v)"
proof -
  let ?w = "w\<lparr>outbuf := (outbuf w)(opb_index w := outbuf w (opb_index w) OR word_of_nat (push_bit i v)), bits_left := i\<rparr>"
  have "wrote Z ?w (bs @ msb_bits n v)"
  proof (rule wrote_append [OF assms(1,3)])
    fix m r :: nat assume r: "r < 8"
    show "bit (outbuf ?w (opb_index w + m)) (7 - r) = (bit (outbuf w (opb_index w + m)) (7 - r) \<or>
        8 * m + r + bits_left w \<le> n + 7 \<and> bit v (n + 7 - bits_left w - r - 8 * m))"
      using r assms(1,4,5) by (cases "m = 0") (auto simp: wrote_def byte_bits ac_simps)
  qed (use assms in \<open>auto simp: wrote_def\<close>)
  then show ?thesis using assms by (simp add: put_one_def or_byte_ok)
qed

lemma put_two_wrote:
  assumes "wrote Z w bs" "opb_index w + 2 < L" "v < 2 ^ n" "n = bits_left w + i" "i \<le> 8"
  shows "\<exists>w'. put_two L i v w = Some w' \<and> wrote Z (if bits_left w' = 0 then w'\<lparr>opb_index := opb_index w' + 1, bits_left := 8\<rparr> else w') (bs @ msb_bits n v)"
proof -
  let ?b = "(outbuf w)(opb_index w := outbuf w (opb_index w) OR word_of_nat (drop_bit i v),
     opb_index w + 1 := outbuf w (opb_index w + 1) OR word_of_nat (push_bit (8 - i) v))"
  let ?w1 = "w\<lparr>opb_index := opb_index w + 1, outbuf := ?b, bits_left := 8 - i\<rparr>"
  let ?w = "if bits_left ?w1 = 0 then ?w1\<lparr>opb_index := opb_index ?w1 + 1, bits_left := 8\<rparr> else ?w1"
  have "wrote Z ?w (bs @ msb_bits n v)"
  proof (rule wrote_append [OF assms(1,3)])
    fix m r :: nat assume r: "r < 8"
    have beyond: "2 \<le> m \<Longrightarrow> \<not> 8 * m + r + bits_left w \<le> n + 7" using assms(1,4,5) by (auto simp: wrote_def)
    consider "m = 0" | "m = 1" | "2 \<le> m" by linarith
    then show "bit (outbuf ?w (opb_index w + m)) (7 - r) = (bit (outbuf w (opb_index w + m)) (7 - r) \<or>
        8 * m + r + bits_left w \<le> n + 7 \<and> bit v (n + 7 - bits_left w - r - 8 * m))"
      using r assms(1,4,5) beyond by cases (auto simp: wrote_def byte_bits ac_simps)
  qed (use assms in \<open>auto simp: wrote_def\<close>)
  moreover have "put_two L i v w = Some ?w1" using assms by (simp add: put_two_def or_byte_ok Let_def)
  ultimately show ?thesis by blast
qed

lemma put_three_wrote:
  assumes "wrote Z w bs" "opb_index w + 2 < L" "v < 2 ^ n" "n = bits_left w + i" "8 \<le> i" "i < 16"
  shows "\<exists>w'. put_three L i v w = Some w' \<and> wrote Z w' (bs @ msb_bits n v)"
proof -
  let ?b = "(outbuf w)(opb_index w := outbuf w (opb_index w) OR word_of_nat (drop_bit i v),
     opb_index w + 1 := outbuf w (opb_index w + 1) OR word_of_nat (drop_bit (i - 8) v),
     opb_index w + 2 := outbuf w (opb_index w + 2) OR word_of_nat (push_bit (16 - i) v))"
  let ?w = "w\<lparr>opb_index := opb_index w + 2, outbuf := ?b, bits_left := 16 - i\<rparr>"
  have "wrote Z ?w (bs @ msb_bits n v)"
  proof (rule wrote_append [OF assms(1,3)])
    fix m r :: nat assume r: "r < 8"
    have beyond: "3 \<le> m \<Longrightarrow> \<not> 8 * m + r + bits_left w \<le> n + 7" using assms(1,4,5,6) by (auto simp: wrote_def)
    consider "m = 0" | "m = 1" | "m = 2" | "3 \<le> m" by linarith
    then show "bit (outbuf ?w (opb_index w + m)) (7 - r) = (bit (outbuf w (opb_index w + m)) (7 - r) \<or>
        8 * m + r + bits_left w \<le> n + 7 \<and> bit v (n + 7 - bits_left w - r - 8 * m))"
      using r assms(1,4,5,6) beyond by cases (auto simp: wrote_def byte_bits ac_simps)
  qed (use assms in \<open>auto simp: wrote_def\<close>)
  moreover have "8 - (i - 8) = 16 - i" using assms(5) by simp
  ultimately show ?thesis using assms by (simp add: put_three_def or_byte_ok Let_def)
qed


text \<open>Every macro appends the bits of its argument.\<close>

lemma put_two_wp:
  assumes "wrote Z w bs" "opb_index w + 2 < L" "v < 2 ^ n" "n = bits_left w + i" "i < 8"
  shows "wp (put_two L i v w) (\<lambda>w'. wrote Z w' (bs @ msb_bits n v))"
proof -
  from put_two_wrote [OF assms(1-4)] assms(5) obtain w' where
    w': "put_two L i v w = Some w'" "wrote Z (if bits_left w' = 0 then w'\<lparr>opb_index := opb_index w' + 1, bits_left := 8\<rparr> else w') (bs @ msb_bits n v)"
    by auto
  moreover have "bits_left w' \<noteq> 0" using w'(1) assms(5) by (auto simp: put_two_def Let_def bind_eq_Some)
  ultimately show ?thesis by simp
qed

lemma put_one_wp:
  "wrote Z w bs \<Longrightarrow> opb_index w + 2 < L \<Longrightarrow> v < 2 ^ n \<Longrightarrow> bits_left w = n + i \<Longrightarrow> 1 \<le> i \<Longrightarrow>
   wp (put_one L i v w) (\<lambda>w'. wrote Z w' (bs @ msb_bits n v))"
  using put_one_wrote [of Z w bs L v n i] by (auto simp: wp_exists)

lemma put_three_wp:
  "wrote Z w bs \<Longrightarrow> opb_index w + 2 < L \<Longrightarrow> v < 2 ^ n \<Longrightarrow> n = bits_left w + i \<Longrightarrow> 8 \<le> i \<Longrightarrow> i < 16 \<Longrightarrow>
   wp (put_three L i v w) (\<lambda>w'. wrote Z w' (bs @ msb_bits n v))"
  using put_three_wrote [of Z w bs L v n i] by (auto simp: wp_exists)

lemma put_byte_wp:
  assumes "wrote Z w bs" "opb_index w + 2 < L" "v < 2 ^ 8" "bits_left w = 8"
  shows "wp (do { w1 \<leftarrow> or_byte L v w; Some (w1\<lparr>opb_index := opb_index w1 + 1, bits_left := 8\<rparr>) }) (\<lambda>w'. wrote Z w' (bs @ msb_bits 8 v))"
proof -
  let ?w = "w\<lparr>outbuf := (outbuf w)(opb_index w := outbuf w (opb_index w) OR word_of_nat v), opb_index := opb_index w + 1, bits_left := 8\<rparr>"
  have "wrote Z ?w (bs @ msb_bits 8 v)"
  proof (rule wrote_append [OF assms(1,3)])
    fix m r :: nat assume r: "r < 8"
    show "bit (outbuf ?w (opb_index w + m)) (7 - r) = (bit (outbuf w (opb_index w + m)) (7 - r) \<or>
        8 * m + r + bits_left w \<le> 8 + 7 \<and> bit v (8 + 7 - bits_left w - r - 8 * m))"
      using r assms(1,4) by (cases "m = 0") (auto simp: wrote_def byte_bits ac_simps)
  qed (use assms in \<open>auto simp: wrote_def\<close>)
  then show ?thesis using assms by (simp add: or_byte_ok)
qed

text \<open>The writer has room: the bytes the next macro touches are inside the buffer.\<close>

lemma wroteD: "wrote Z w bs \<Longrightarrow> 1 \<le> bits_left w \<and> bits_left w \<le> 8"
  by (simp add: wrote_def)

lemma wrote_room: "wrote Z w bs \<Longrightarrow> length bs + 24 \<le> 8 * L \<Longrightarrow> opb_index w + 2 < L"
  by (auto simp: wrote_def)

definition appends_bits :: "nat \<Rightarrow> (nat \<Rightarrow> nat \<Rightarrow> bitout \<Rightarrow> bitout option) \<Rightarrow> bool" where
  "appends_bits n ins \<longleftrightarrow> (\<forall>L Z v w bs. wrote Z w bs \<longrightarrow> length bs + 24 \<le> 8 * L \<longrightarrow> v < 2 ^ n \<longrightarrow>
     wp (ins L v w) (\<lambda>w'. wrote Z w' (bs @ msb_bits n v)))"

lemma appends_bitsD: "appends_bits n ins \<Longrightarrow> wrote Z w bs \<Longrightarrow> length bs + 24 \<le> 8 * L \<Longrightarrow> v < 2 ^ n \<Longrightarrow>
   wp (ins L v w) (\<lambda>w'. wrote Z w' (bs @ msb_bits n v))"
  by (simp add: appends_bits_def)

lemma insert_9_wp: "appends_bits 9 insert_9_bits"
  unfolding appends_bits_def
proof (intro allI impI)
  fix L Z v :: nat and w :: bitout and bs :: "bool list"
  assume w: "wrote Z w bs" "length bs + 24 \<le> 8 * L" "v < 2 ^ 9"
  have "9 = bits_left w + (9 - bits_left w)" "9 - bits_left w \<le> 8" using wroteD [OF w(1)] by auto
  from put_two_wrote [OF w(1) wrote_room [OF w(1,2)] w(3) this]
  show "wp (insert_9_bits L v w) (\<lambda>w'. wrote Z w' (bs @ msb_bits 9 v))"
    by (auto simp: insert_9_bits_def)
qed

lemma insert_8_wp: "appends_bits 8 insert_8_bits"
  unfolding appends_bits_def
proof (intro allI impI)
  fix L Z v :: nat and w :: bitout and bs :: "bool list"
  assume w: "wrote Z w bs" "length bs + 24 \<le> 8 * L" "v < 2 ^ 8"
  with put_byte_wp [OF w(1) wrote_room [OF w(1,2)] w(3)] put_two_wp [OF w(1) wrote_room [OF w(1,2)] w(3), of "8 - bits_left w"] wroteD [OF w(1)]
  show "wp (insert_8_bits L v w) (\<lambda>w'. wrote Z w' (bs @ msb_bits 8 v))"
    by (auto simp: insert_8_bits_def)
qed

text \<open>The macros for up to seven bits touch one byte or two, those for ten to sixteen bits two or three.\<close>

lemma short_insert:
  assumes "\<And>L v w. 1 \<le> bits_left w \<Longrightarrow> bits_left w \<le> 8 \<Longrightarrow> ins L v w = (if n < bits_left w then put_one L (bits_left w - n) v w else put_two L (n - bits_left w) v w)"
    and "n \<le> 8"
  shows "appends_bits n ins"
  unfolding appends_bits_def
proof (intro allI impI)
  fix L Z v :: nat and w :: bitout and bs :: "bool list"
  assume w: "wrote Z w bs" "length bs + 24 \<le> 8 * L" "v < 2 ^ n"
  with put_one_wp [OF w(1) wrote_room [OF w(1,2)] w(3), of "bits_left w - n"]
    put_two_wp [OF w(1) wrote_room [OF w(1,2)] w(3), of "n - bits_left w"] wroteD [OF w(1)] assms
  show "wp (ins L v w) (\<lambda>w'. wrote Z w' (bs @ msb_bits n v))" by auto
qed

lemma long_insert:
  assumes "\<And>L v w. 1 \<le> bits_left w \<Longrightarrow> bits_left w \<le> 8 \<Longrightarrow> ins L v w = (if n - 7 \<le> bits_left w then put_two L (n - bits_left w) v w else put_three L (n - bits_left w) v w)"
    and "10 \<le> n" "n \<le> 16"
  shows "appends_bits n ins"
  unfolding appends_bits_def
proof (intro allI impI)
  fix L Z v :: nat and w :: bitout and bs :: "bool list"
  assume w: "wrote Z w bs" "length bs + 24 \<le> 8 * L" "v < 2 ^ n"
  with put_three_wp [OF w(1) wrote_room [OF w(1,2)] w(3), of "n - bits_left w"]
    put_two_wp [OF w(1) wrote_room [OF w(1,2)] w(3), of "n - bits_left w"] wroteD [OF w(1)] assms
  show "wp (ins L v w) (\<lambda>w'. wrote Z w' (bs @ msb_bits n v))" by auto
qed

lemma insert_2_wp: "appends_bits 2 insert_2_bits"
  by (rule short_insert) (auto simp: insert_2_bits_def)

lemma insert_3_wp: "appends_bits 3 insert_3_bits"
  by (rule short_insert) (auto simp: insert_3_bits_def)

lemma insert_4_wp: "appends_bits 4 insert_4_bits"
  by (rule short_insert) (auto simp: insert_4_bits_def)

lemma insert_5_wp: "appends_bits 5 insert_5_bits"
  by (rule short_insert) (auto simp: insert_5_bits_def)

lemma insert_6_wp: "appends_bits 6 insert_6_bits"
  by (rule short_insert) (auto simp: insert_6_bits_def)

lemma insert_7_wp: "appends_bits 7 insert_7_bits"
proof (rule short_insert)
  fix L v :: nat and w :: bitout
  assume "1 \<le> bits_left w" "bits_left w \<le> 8"
  then show "insert_7_bits L v w = (if 7 < bits_left w then put_one L (bits_left w - 7) v w else put_two L (7 - bits_left w) v w)"
    by (cases "bits_left w = 8") (auto simp: insert_7_bits_def)
qed simp

lemma insert_10_wp: "appends_bits 10 insert_10_bits"
  by (rule long_insert) (auto simp: insert_10_bits_def Let_def)

lemma insert_11_wp: "appends_bits 11 insert_11_bits"
  by (rule long_insert) (auto simp: insert_11_bits_def Let_def)

lemma insert_12_wp: "appends_bits 12 insert_12_bits"
  by (rule long_insert) (auto simp: insert_12_bits_def Let_def)

lemma insert_13_wp: "appends_bits 13 insert_13_bits"
  by (rule long_insert) (auto simp: insert_13_bits_def Let_def)

lemma insert_14_wp: "appends_bits 14 insert_14_bits"
  by (rule long_insert) (auto simp: insert_14_bits_def Let_def)

lemma insert_15_wp: "appends_bits 15 insert_15_bits"
  by (rule long_insert) (auto simp: insert_15_bits_def Let_def)

lemma insert_16_wp: "appends_bits 16 insert_16_bits"
  by (rule long_insert) (auto simp: insert_16_bits_def Let_def)

lemmas inserts_wp = insert_2_wp insert_3_wp insert_4_wp insert_5_wp insert_6_wp insert_7_wp insert_8_wp insert_9_wp
  insert_10_wp insert_11_wp insert_12_wp insert_13_wp insert_14_wp insert_15_wp insert_16_wp


subsection \<open>A decoder\<close>

text \<open>
  The receiving side, from the description of the format: a token is a literal or a pair of an
  offset and a length, the packet ends where fewer bits are left than a token has. The decoder
  keeps the bytes it has produced as a list.
\<close>

fun lz_copy :: "nat \<Rightarrow> nat \<Rightarrow> byte list \<Rightarrow> byte list" where
  "lz_copy off 0 h = h"
| "lz_copy off (Suc n) h = lz_copy off n (h @ [h ! (length h - off)])"

definition bits_val :: "bool list \<Rightarrow> nat" where
  "bits_val bs = foldl (\<lambda>a b. 2 * a + of_bool b) 0 bs"

definition read_bits :: "nat \<Rightarrow> bool list \<Rightarrow> (nat \<times> bool list) option" where
  "read_bits n bs = (if length bs < n then None else Some (bits_val (take n bs), drop n bs))"

definition read_lom :: "bool list \<Rightarrow> (nat \<times> bool list) option" where
  "read_lom bs = (let k = length (takeWhile (\<lambda>b. b) bs) in
     if length bs \<le> k then None
     else if k = 0 then Some (3, drop 1 bs)
     else do { (v, r) \<leftarrow> read_bits (k + 1) (drop (k + 1) bs); Some (2 ^ (k + 1) + v, r) })"

definition read_copy :: "nat \<Rightarrow> nat \<Rightarrow> bool list \<Rightarrow> byte list \<Rightarrow> (bool list \<times> byte list) option" where
  "read_copy n from bs h = do {
     (v, r) \<leftarrow> read_bits n bs;
     (lom, r) \<leftarrow> read_lom r;
     let off = from + v;
     if off = 0 \<or> length h < off then None else Some (r, lz_copy off lom h) }"

fun read_token :: "bool list \<Rightarrow> byte list \<Rightarrow> (bool list \<times> byte list) option" where
  "read_token (False # bs) h = do { (v, r) \<leftarrow> read_bits 7 bs; Some (r, h @ [word_of_nat v]) }"
| "read_token (True # False # bs) h = do { (v, r) \<leftarrow> read_bits 7 bs; Some (r, h @ [word_of_nat (128 + v)]) }"
| "read_token (True # True # False # bs) h = read_copy 16 2368 bs h"
| "read_token (True # True # True # False # bs) h = read_copy 11 320 bs h"
| "read_token (True # True # True # True # False # bs) h = read_copy 8 64 bs h"
| "read_token (True # True # True # True # True # bs) h = read_copy 6 0 bs h"
| "read_token _ h = None"

fun read_tokens :: "nat \<Rightarrow> bool list \<Rightarrow> byte list \<Rightarrow> byte list option" where
  "read_tokens n bs h = (if length bs < 8 then Some h else (case n of
     0 \<Rightarrow> None
   | Suc m \<Rightarrow> do { (r, h') \<leftarrow> read_token bs h; read_tokens m r h' }))"

declare read_tokens.simps [simp del]

text \<open>\<open>reads h bs h'\<close>: whatever follows, the decoder consumes exactly \<open>bs\<close> and turns \<open>h\<close> into \<open>h'\<close>.\<close>

inductive reads :: "byte list \<Rightarrow> bool list \<Rightarrow> byte list \<Rightarrow> bool" where
  reads_nil: "reads h [] h"
| reads_snoc: "reads h bs h' \<Longrightarrow> \<forall>r. read_token (c @ r) h' = Some (r, h'') \<Longrightarrow> 8 \<le> length c \<Longrightarrow> reads h (bs @ c) h''"

lemma reads_run: "reads h bs h' \<Longrightarrow> \<exists>k \<le> length bs. \<forall>n r. read_tokens (n + k) (bs @ r) h = read_tokens n r h'"
proof (induction rule: reads.induct)
  case (reads_snoc h bs h' c h'')
  then obtain k where k: "k \<le> length bs" "\<forall>n r. read_tokens (n + k) (bs @ r) h = read_tokens n r h'" by blast
  have "read_tokens (n + Suc k) ((bs @ c) @ r) h = read_tokens n r h''" for n r
  proof -
    have "read_tokens (Suc n + k) (bs @ (c @ r)) h = read_tokens (Suc n) (c @ r) h'" using k(2) by blast
    also have "\<dots> = read_tokens n r h''" using reads_snoc(2,3) by (subst read_tokens.simps) simp
    finally show ?thesis by simp
  qed
  moreover have "Suc k \<le> length (bs @ c)" using k(1) reads_snoc(3) by simp
  ultimately show ?case by blast
qed auto

lemma reads_decoded: "reads h bs h' \<Longrightarrow> length pad < 8 \<Longrightarrow> read_tokens (length (bs @ pad)) (bs @ pad) h = Some h'"
proof -
  assume "reads h bs h'" and pad: "length pad < 8"
  then obtain k where k: "k \<le> length bs" "\<forall>n r. read_tokens (n + k) (bs @ r) h = read_tokens n r h'" using reads_run by blast
  have "read_tokens (length (bs @ pad) - k + k) (bs @ pad) h = Some h'"
    using k(2) pad by (simp add: read_tokens.simps [of _ pad])
  with k(1) show ?thesis by simp
qed

subsection \<open>The codes are read back\<close>

lemma bits_val_snoc: "bits_val (bs @ [b]) = 2 * bits_val bs + of_bool b"
  by (simp add: bits_val_def)

lemma msb_bits_Suc: "msb_bits (Suc n) v = msb_bits n (v div 2) @ [odd v]"
proof (rule nth_equalityI)
  fix i assume i: "i < length (msb_bits (Suc n) v)"
  then have "i < n \<Longrightarrow> n - i = Suc (n - Suc i)" by simp
  with i show "msb_bits (Suc n) v ! i = (msb_bits n (v div 2) @ [odd v]) ! i"
    by (cases "i = n") (simp_all add: nth_msb_bits nth_append bit_Suc bit_0)
qed simp

lemma bits_val_msb_bits: "v < 2 ^ n \<Longrightarrow> bits_val (msb_bits n v) = v"
proof (induction n arbitrary: v)
  case (Suc n)
  then have "v div 2 < 2 ^ n" by auto
  with Suc.IH show ?case by (simp add: msb_bits_Suc bits_val_snoc)
qed (simp add: msb_bits_def bits_val_def)

lemma read_bits_msb: "v < 2 ^ n \<Longrightarrow> read_bits n (msb_bits n v @ r) = Some (v, r)"
  by (simp add: read_bits_def bits_val_msb_bits)

definition lom_code :: "nat \<Rightarrow> bool list \<Rightarrow> bool" where
  "lom_code l bs \<longleftrightarrow> l = 3 \<and> bs = [False] \<or>
     (\<exists>k. 1 \<le> k \<and> 2 ^ (k + 1) \<le> l \<and> l < 2 ^ (k + 2) \<and> bs = replicate k True @ False # msb_bits (k + 1) (l - 2 ^ (k + 1)))"

lemma takeWhile_ones: "takeWhile (\<lambda>b. b) (replicate k True @ False # xs) = replicate k True"
  by (induction k) simp_all

lemma read_lom_ones: "1 \<le> k \<Longrightarrow> read_lom (replicate k True @ False # xs) = do { (v, r) \<leftarrow> read_bits (k + 1) xs; Some (2 ^ (k + 1) + v, r) }"
  by (simp add: read_lom_def takeWhile_ones)

lemma lom_code_read: "lom_code l bs \<Longrightarrow> read_lom (bs @ r) = Some (l, r)"
proof -
  assume "lom_code l bs"
  then consider "l = 3" "bs = [False]" | k where "1 \<le> k" "2 ^ (k + 1) \<le> l" "l < 2 ^ (k + 2)"
    "bs = replicate k True @ False # msb_bits (k + 1) (l - 2 ^ (k + 1))" by (auto simp: lom_code_def)
  then show ?thesis
  proof cases
    case 2
    then have "read_bits (k + 1) (msb_bits (k + 1) (l - 2 ^ (k + 1)) @ r) = Some (l - 2 ^ (k + 1), r)"
      by (intro read_bits_msb) simp
    then have "read_lom (replicate k True @ False # msb_bits (k + 1) (l - 2 ^ (k + 1)) @ r) = Some (2 ^ (k + 1) + (l - 2 ^ (k + 1)), r)"
      by (subst read_lom_ones [OF 2(1)]) simp
    then show ?thesis unfolding 2(4) append_assoc append_Cons le_add_diff_inverse [OF 2(2)] .
  qed (simp add: read_lom_def)
qed


lemma msb_bits_Cons: "msb_bits (Suc n) v = bit v n # msb_bits n v"
proof (rule nth_equalityI)
  fix i assume "i < length (msb_bits (Suc n) v)"
  then show "msb_bits (Suc n) v ! i = (bit v n # msb_bits n v) ! i"
    by (cases i) (simp_all add: nth_msb_bits)
qed simp

lemma msb_bits_ones: "msb_bits n (2 ^ n - 1) = replicate n True"
proof (induction n)
  case (Suc n)
  have "(2 ^ Suc n - 1) div 2 = (2 ^ n - 1 :: nat)" "odd (2 ^ Suc n - 1 :: nat)" by auto
  with Suc show ?case by (simp add: msb_bits_Suc replicate_append_same del: power_Suc)
qed (simp add: msb_bits_def)

lemma msb_bits_header: "msb_bits (Suc n) (2 ^ Suc n - 2) = replicate n True @ [False]"
proof -
  have "(2 ^ Suc n - 2) div 2 = (2 ^ n - 1 :: nat)" "even (2 ^ Suc n - 2 :: nat)" by auto
  then show ?thesis using msb_bits_ones [of n] by (simp add: msb_bits_Suc del: power_Suc)
qed

lemma lom_two:
  assumes ins: "appends_bits k ins" and w: "wrote Z w bs" and room: "length bs + 64 \<le> 8 * L"
    and lom: "2 ^ k \<le> lom" "lom < 2 ^ (k + 1)" and k: "2 \<le> k" "k \<le> 15" and hdr: "hdr = 2 ^ k - 2" and low: "low = lom - 2 ^ k"
  shows "wp (do { w1 \<leftarrow> ins L hdr w; ins L low w1 }) (\<lambda>w'. \<exists>c. lom_code lom c \<and> wrote Z w' (bs @ c) \<and> length c + 19 \<le> 9 * lom)"
  unfolding wp_bind
proof (rule wp_mono [OF appends_bitsD [OF ins w]])
  obtain m where m: "k = Suc m" "1 \<le> m" using k by (cases k) auto
  fix w1 assume w1: "wrote Z w1 (bs @ msb_bits k hdr)"
  have "msb_bits k hdr @ msb_bits k low = replicate m True @ False # msb_bits (m + 1) (lom - 2 ^ (m + 1))"
    using msb_bits_header [of m] by (simp add: m hdr low del: power_Suc)
  then have "lom_code lom (msb_bits k hdr @ msb_bits k low)"
    using lom m by (auto simp: lom_code_def)
  moreover have "2 * k + 19 \<le> 9 * 2 ^ k"
    using k(1) by (induction k rule: dec_induct) auto
  ultimately show "wp (ins L low w1) (\<lambda>w'. \<exists>c. lom_code lom c \<and> wrote Z w' (bs @ c) \<and> length c + 19 \<le> 9 * lom)"
    using lom by (intro wp_mono [OF appends_bitsD [OF ins w1]]) (use room k low in auto)
qed (use room k hdr in auto)

lemma insert_lom_wp:
  assumes w: "wrote Z w bs" and room: "length bs + 64 \<le> 8 * L" and lom: "3 \<le> lom" "lom < 65536"
  shows "wp (insert_lom L lom w) (\<lambda>w'. \<exists>c. lom_code lom c \<and> wrote Z w' (bs @ c) \<and> length c + 19 \<le> 9 * lom)"
proof (cases "lom = 3")
  case True
  have zero: "wrote Z (if bits_left w - 1 = 0 then w\<lparr>opb_index := opb_index w + 1, bits_left := 8\<rparr> else w\<lparr>bits_left := bits_left w - 1\<rparr>) (bs @ msb_bits 1 0)"
    by (rule wrote_append [OF w]) (use w in \<open>auto simp: wrote_def\<close>)
  have "msb_bits 1 0 = [False]" by (simp add: msb_bits_def)
  with zero True show ?thesis by (auto simp: insert_lom_def lom_code_def)
next
  case False
  with lom obtain k where k: "2 ^ k \<le> lom" "lom < 2 ^ (k + 1)" using ex_power_ivl1 [of 2 lom] by auto
  have "2 \<le> k"
  proof (rule ccontr)
    assume "\<not> 2 \<le> k"
    then have "k + 1 \<le> 2" by simp
    then have "2 ^ (k + 1) \<le> (2 :: nat) ^ 2" by (rule power_increasing) simp
    with k(2) lom(1) False show False by simp
  qed
  moreover have "k < 16"
  proof (rule ccontr)
    assume "\<not> k < 16"
    then have "(2 :: nat) ^ 16 \<le> 2 ^ k" by (intro power_increasing) simp_all
    with k(1) lom(2) show False by simp
  qed
  ultimately have "k \<in> set [2..<16]" unfolding set_upt atLeastLessThan_iff by blast
  moreover have "set [2..<16] = {2, 3, 4, 5, 6, 7, 8, 9, 10, 11, 12, 13, 14, 15 :: nat}" by code_simp
  ultimately have "k = 2 \<or> k = 3 \<or> k = 4 \<or> k = 5 \<or> k = 6 \<or> k = 7 \<or> k = 8 \<or> k = 9 \<or> k = 10 \<or> k = 11 \<or> k = 12 \<or> k = 13 \<or> k = 14 \<or> k = 15" by blast
  then consider "k = 2" | "k = 3" | "k = 4" | "k = 5" | "k = 6" | "k = 7" | "k = 8" | "k = 9" | "k = 10" | "k = 11" | "k = 12" | "k = 13" | "k = 14" | "k = 15" by blast
  then show ?thesis
  proof cases
    case 1
    with k have b: "4 \<le> lom" "lom \<le> 7" by simp_all
    then have e: "insert_lom L lom w = do { w1 \<leftarrow> insert_2_bits L 0x2 w; insert_2_bits L (lom - 4) w1 }"
      by (simp add: insert_lom_def)
    show ?thesis unfolding e by (rule lom_two [OF insert_2_wp w room]) (use b in simp_all)
  next
    case 2
    with k have b: "8 \<le> lom" "lom \<le> 15" by simp_all
    then have e: "insert_lom L lom w = do { w1 \<leftarrow> insert_3_bits L 0x6 w; insert_3_bits L (lom - 8) w1 }"
      by (simp add: insert_lom_def)
    show ?thesis unfolding e by (rule lom_two [OF insert_3_wp w room]) (use b in simp_all)
  next
    case 3
    with k have b: "16 \<le> lom" "lom \<le> 31" by simp_all
    then have e: "insert_lom L lom w = do { w1 \<leftarrow> insert_4_bits L 0xe w; insert_4_bits L (lom - 16) w1 }"
      by (simp add: insert_lom_def)
    show ?thesis unfolding e by (rule lom_two [OF insert_4_wp w room]) (use b in simp_all)
  next
    case 4
    with k have b: "32 \<le> lom" "lom \<le> 63" by simp_all
    then have e: "insert_lom L lom w = do { w1 \<leftarrow> insert_5_bits L 0x1e w; insert_5_bits L (lom - 32) w1 }"
      by (simp add: insert_lom_def)
    show ?thesis unfolding e by (rule lom_two [OF insert_5_wp w room]) (use b in simp_all)
  next
    case 5
    with k have b: "64 \<le> lom" "lom \<le> 127" by simp_all
    then have e: "insert_lom L lom w = do { w1 \<leftarrow> insert_6_bits L 0x3e w; insert_6_bits L (lom - 64) w1 }"
      by (simp add: insert_lom_def)
    show ?thesis unfolding e by (rule lom_two [OF insert_6_wp w room]) (use b in simp_all)
  next
    case 6
    with k have b: "128 \<le> lom" "lom \<le> 255" by simp_all
    then have e: "insert_lom L lom w = do { w1 \<leftarrow> insert_7_bits L 0x7e w; insert_7_bits L (lom - 128) w1 }"
      by (simp add: insert_lom_def)
    show ?thesis unfolding e by (rule lom_two [OF insert_7_wp w room]) (use b in simp_all)
  next
    case 7
    with k have b: "256 \<le> lom" "lom \<le> 511" by simp_all
    then have e: "insert_lom L lom w = do { w1 \<leftarrow> insert_8_bits L 0xfe w; insert_8_bits L (lom - 256) w1 }"
      by (simp add: insert_lom_def)
    show ?thesis unfolding e by (rule lom_two [OF insert_8_wp w room]) (use b in simp_all)
  next
    case 8
    with k have b: "512 \<le> lom" "lom \<le> 1023" by simp_all
    then have e: "insert_lom L lom w = do { w1 \<leftarrow> insert_9_bits L 0x1fe w; insert_9_bits L (lom - 512) w1 }"
      by (simp add: insert_lom_def)
    show ?thesis unfolding e by (rule lom_two [OF insert_9_wp w room]) (use b in simp_all)
  next
    case 9
    with k have b: "1024 \<le> lom" "lom \<le> 2047" by simp_all
    then have e: "insert_lom L lom w = do { w1 \<leftarrow> insert_10_bits L 0x3fe w; insert_10_bits L (lom - 1024) w1 }"
      by (simp add: insert_lom_def)
    show ?thesis unfolding e by (rule lom_two [OF insert_10_wp w room]) (use b in simp_all)
  next
    case 10
    with k have b: "2048 \<le> lom" "lom \<le> 4095" by simp_all
    then have e: "insert_lom L lom w = do { w1 \<leftarrow> insert_11_bits L 0x7fe w; insert_11_bits L (lom - 2048) w1 }"
      by (simp add: insert_lom_def)
    show ?thesis unfolding e by (rule lom_two [OF insert_11_wp w room]) (use b in simp_all)
  next
    case 11
    with k have b: "4096 \<le> lom" "lom \<le> 8191" by simp_all
    then have e: "insert_lom L lom w = do { w1 \<leftarrow> insert_12_bits L 0xffe w; insert_12_bits L (lom - 4096) w1 }"
      by (simp add: insert_lom_def)
    show ?thesis unfolding e by (rule lom_two [OF insert_12_wp w room]) (use b in simp_all)
  next
    case 12
    with k have b: "8192 \<le> lom" "lom \<le> 16383" by simp_all
    then have e: "insert_lom L lom w = do { w1 \<leftarrow> insert_13_bits L 0x1ffe w; insert_13_bits L (lom - 8192) w1 }"
      by (simp add: insert_lom_def)
    show ?thesis unfolding e by (rule lom_two [OF insert_13_wp w room]) (use b in simp_all)
  next
    case 13
    with k have b: "16384 \<le> lom" "lom \<le> 32767" by simp_all
    then have e: "insert_lom L lom w = do { w1 \<leftarrow> insert_14_bits L 0x3ffe w; insert_14_bits L (lom - 16384) w1 }"
      by (simp add: insert_lom_def)
    show ?thesis unfolding e by (rule lom_two [OF insert_14_wp w room]) (use b in simp_all)
  next
    case 14
    with k have b: "32768 \<le> lom" "lom \<le> 65535" by simp_all
    then have e: "insert_lom L lom w = do { w1 \<leftarrow> insert_15_bits L 0x7ffe w; insert_15_bits L (lom - 32768) w1 }"
      by (simp add: insert_lom_def)
    show ?thesis unfolding e by (rule lom_two [OF insert_15_wp w room]) (use b in simp_all)
  qed
qed


text \<open>
  The writer's bits are what a decoder starting with history \<open>h0\<close> turns into \<open>h\<close>, and they take
  at most nine bits for each of the \<open>n\<close> bytes encoded so far.
\<close>

definition emitted :: "nat \<Rightarrow> byte list \<Rightarrow> bitout \<Rightarrow> byte list \<Rightarrow> nat \<Rightarrow> bool" where
  "emitted Z h0 w h n \<longleftrightarrow> (\<exists>bs. wrote Z w bs \<and> reads h0 bs h \<and> length bs \<le> 9 * n)"

lemma read_literal:
  assumes "v < 256"
  shows "read_token ((if v < 128 then msb_bits 8 v else msb_bits 2 2 @ msb_bits 7 (v AND 127)) @ r) h = Some (r, h @ [word_of_nat v])"
proof (cases "v < 128")
  case True
  then have "msb_bits 8 v = False # msb_bits 7 v" using bit_beyond [of v 7 7] msb_bits_Cons [of 7 v] by simp
  with True show ?thesis by (simp add: read_bits_msb)
next
  case False
  have "msb_bits 2 2 = [True, False]" by code_simp
  moreover have "v AND 127 = v mod 2 ^ 7" using take_bit_eq_mod [of 7 v] take_bit_eq_mask [of 7 v] by (simp add: mask_eq_exp_minus_1)
  moreover have v: "128 + v mod 128 = v" using False assms by (simp add: le_mod_geq)
  have "128 + word_of_nat (v mod 128) = (word_of_nat v :: byte)" by (subst (2) v [symmetric]) simp
  ultimately show ?thesis using False by (simp add: read_bits_msb)
qed

lemma emitted_snoc:
  assumes "emitted Z h0 w h n" "\<And>bs. wrote Z w bs \<Longrightarrow> length bs \<le> 9 * n \<Longrightarrow> wp m (\<lambda>w'. \<exists>c. wrote Z w' (bs @ c) \<and> P c)"
    and "\<And>c r. P c \<Longrightarrow> read_token (c @ r) h = Some (r, h') \<and> 8 \<le> length c \<and> length c + 9 * n \<le> 9 * n'"
  shows "wp m (\<lambda>w'. emitted Z h0 w' h' n')"
proof -
  obtain bs where bs: "wrote Z w bs" "reads h0 bs h" "length bs \<le> 9 * n" using assms(1) by (auto simp: emitted_def)
  show ?thesis
  proof (rule wp_mono [OF assms(2) [OF bs(1,3)]])
    fix w' assume "\<exists>c. wrote Z w' (bs @ c) \<and> P c"
    then obtain c where c: "wrote Z w' (bs @ c)" "P c" by blast
    have "reads h0 (bs @ c) h'" using reads_snoc [OF bs(2)] assms(3) [OF c(2)] by blast
    moreover have "length (bs @ c) \<le> 9 * n'" using bs(3) assms(3) [OF c(2), of "[]"] by simp
    ultimately show "emitted Z h0 w' h' n'" using c(1) unfolding emitted_def by blast
  qed
qed

lemma two_inserts:
  assumes "appends_bits n i1" "appends_bits m i2" "wrote Z w bs" "length bs + n + 24 \<le> 8 * L" "u < 2 ^ n" "v < 2 ^ m"
  shows "wp (do { w1 \<leftarrow> i1 L u w; i2 L v w1 }) (\<lambda>w'. wrote Z w' (bs @ msb_bits n u @ msb_bits m v))"
  unfolding wp_bind
  by (rule wp_mono [OF appends_bitsD [OF assms(1,3)]]; use assms in \<open>auto intro!: wp_mono [OF appends_bitsD [OF assms(2)]]\<close>)

lemma insert_literal_emitted:
  assumes w: "emitted Z h0 w h n" and L: "9 * n + 64 \<le> 8 * L"
  shows "wp (insert_literal L (unat b) w) (\<lambda>w'. emitted Z h0 w' (h @ [b]) (n + 1))"
proof (rule emitted_snoc [OF w, where P = "\<lambda>c. c = (if unat b < 128 then msb_bits 8 (unat b) else msb_bits 2 2 @ msb_bits 7 (unat b AND 127))"])
  fix bs assume bs: "wrote Z w bs" "length bs \<le> 9 * n"
  have "unat b AND 127 < 2 ^ 7" using take_bit_nat_less_exp [of 7 "unat b"] take_bit_eq_mask [of 7 "unat b"] by (simp add: mask_eq_exp_minus_1)
  then show "wp (insert_literal L (unat b) w) (\<lambda>w'. \<exists>c. wrote Z w' (bs @ c) \<and> c = (if unat b < 128 then msb_bits 8 (unat b) else msb_bits 2 2 @ msb_bits 7 (unat b AND 127)))"
    using two_inserts [OF insert_2_wp insert_7_wp bs(1), of L 2 "unat b AND 127"] appends_bitsD [OF insert_8_wp bs(1), of L "unat b"] bs(2) L
    by (simp add: insert_literal_def)
next
  fix c r
  have "unat b < 256" using unsigned_less [of b, where ?'a = nat] by simp
  from read_literal [OF this] show "c = (if unat b < 128 then msb_bits 8 (unat b) else msb_bits 2 2 @ msb_bits 7 (unat b AND 127)) \<Longrightarrow>
     read_token (c @ r) h = Some (r, h @ [b]) \<and> 8 \<le> length c \<and> length c + 9 * n \<le> 9 * (n + 1)"
    by simp
qed

lemma insert_first_literal_eq: "insert_first_literal L (unat (b :: byte)) w = insert_literal L (unat b) w"
proof -
  have "unat b < 256" using unsigned_less [of b, where ?'a = nat] by simp
  moreover have "unat b AND 2 ^ 7 = 0 \<longleftrightarrow> \<not> bit (unat b) 7" by (simp only: and_exp_eq_0_iff_not_bit)
  moreover have "bit (unat b) 7 \<longleftrightarrow> odd (unat b div 128)" by (simp add: bit_iff_odd)
  moreover have "odd (unat b div 128) \<longleftrightarrow> \<not> unat b < 128" if "unat b < 256"
    using that by (cases "unat b < 128") (simp_all add: le_div_geq)
  ultimately show ?thesis by (simp add: insert_first_literal_def insert_literal_def)
qed


text \<open>A copy: the offset and the length are read back, and copying one byte at a time reproduces the match.\<close>

lemma lz_copy_match:
  assumes "\<forall>i < n. f (p + i) = f (q + i)" "q < p"
  shows "lz_copy (p - q) n (map f [0..<p]) = map f [0..<p + n]"
  using assms
proof (induction n arbitrary: p q)
  case (Suc n)
  have "f q = f p" using Suc.prems(1) by (metis add.right_neutral zero_less_Suc)
  then have "map f [0..<p] @ [map f [0..<p] ! (length (map f [0..<p]) - (p - q))] = map f [0..<Suc p]"
    using Suc.prems(2) by simp
  moreover have "\<forall>i < n. f (Suc p + i) = f (Suc q + i)" using Suc.prems(1) by auto
  ultimately show ?case using Suc.IH [of "Suc p" "Suc q"] Suc.prems(2) by simp
qed simp

lemma read_copy_lom:
  assumes "v < 2 ^ n" "lom_code lom c" "0 < from + v" "from + v \<le> length h"
  shows "read_copy n from (msb_bits n v @ c @ r) h = Some (r, lz_copy (from + v) lom h)"
  using assms by (simp add: read_copy_def read_bits_msb lom_code_read)

definition offset_code :: "nat \<Rightarrow> bool list" where
  "offset_code off = (if off \<le> 63 then [True, True, True, True, True] @ msb_bits 6 off
     else if off \<le> 319 then [True, True, True, True, False] @ msb_bits 8 (off - 64)
     else if off \<le> 2367 then [True, True, True, False] @ msb_bits 11 (off - 320)
     else [True, True, False] @ msb_bits 16 (off - 2368))"

lemma headers: "msb_bits 5 31 = [True, True, True, True, True]" "msb_bits 5 30 = [True, True, True, True, False]"
  "msb_bits 4 14 = [True, True, True, False]" "msb_bits 3 6 = [True, True, False]"
  by code_simp+

lemma read_offset:
  assumes "0 < off" "off \<le> length h" "off < 65536" "lom_code lom c"
  shows "read_token ((offset_code off @ c) @ r) h = Some (r, lz_copy off lom h)"
proof -
  consider "off \<le> 63" | "64 \<le> off" "off \<le> 319" | "320 \<le> off" "off \<le> 2367" | "2368 \<le> off" by linarith
  then show ?thesis using assms by cases (simp_all add: offset_code_def read_copy_lom)
qed

lemma insert_copy_offset_wp:
  assumes w: "wrote Z w bs" and L: "length bs + 64 \<le> 8 * L" and off: "off < 65536"
  shows "wp (insert_copy_offset L off w) (\<lambda>w'. wrote Z w' (bs @ offset_code off))"
proof -
  have "off AND 63 = off mod 2 ^ 6" using take_bit_eq_mod [of 6 off] take_bit_eq_mask [of 6 off] by (simp add: mask_eq_exp_minus_1)
  then have m: "off AND 63 = off" if "off \<le> 63" using that by simp
  consider "off \<le> 63" | "64 \<le> off" "off \<le> 319" | "320 \<le> off" "off \<le> 2367" | "2368 \<le> off" by linarith
  then show ?thesis
    using two_inserts [OF insert_5_wp insert_6_wp w, of L 31 off] two_inserts [OF insert_5_wp insert_8_wp w, of L 30 "off - 64"]
      two_inserts [OF insert_4_wp insert_11_wp w, of L 14 "off - 320"] two_inserts [OF insert_3_wp insert_16_wp w, of L 6 "off - 2368"] L off
    by cases (simp_all add: insert_copy_offset_def offset_code_def headers m)
qed

lemma insert_copy_emitted:
  assumes w: "emitted Z h0 w (map f [0..<p]) n" and L: "9 * n + 96 \<le> 8 * L" and lom: "3 \<le> lom" "lom < 65536"
    and q: "q < p" "p < 65536" and eq: "\<forall>i < lom. f (p + i) = f (q + i)"
  shows "wp (do { w1 \<leftarrow> insert_copy_offset L (p - q) w; insert_lom L lom w1 }) (\<lambda>w'. emitted Z h0 w' (map f [0..<p + lom]) (n + lom))"
proof (rule emitted_snoc [OF w, where P = "\<lambda>c. \<exists>c2. c = offset_code (p - q) @ c2 \<and> lom_code lom c2 \<and> length c2 + 19 \<le> 9 * lom"])
  have off: "length (offset_code (p - q)) \<le> 19" "11 \<le> length (offset_code (p - q))" by (auto simp: offset_code_def)
  {
    fix bs assume bs: "wrote Z w bs" "length bs \<le> 9 * n"
    have "wp (insert_copy_offset L (p - q) w) (\<lambda>w1. wrote Z w1 (bs @ offset_code (p - q)))"
      using q L bs(2) by (intro insert_copy_offset_wp [OF bs(1)]) auto
    then show "wp (do { w1 \<leftarrow> insert_copy_offset L (p - q) w; insert_lom L lom w1 })
      (\<lambda>w'. \<exists>c. wrote Z w' (bs @ c) \<and> (\<exists>c2. c = offset_code (p - q) @ c2 \<and> lom_code lom c2 \<and> length c2 + 19 \<le> 9 * lom))"
      unfolding wp_bind
    proof (rule wp_mono)
      fix w1 assume "wrote Z w1 (bs @ offset_code (p - q))"
      from insert_lom_wp [OF this _ lom, of L] L bs(2) off
      show "wp (insert_lom L lom w1) (\<lambda>w'. \<exists>c. wrote Z w' (bs @ c) \<and> (\<exists>c2. c = offset_code (p - q) @ c2 \<and> lom_code lom c2 \<and> length c2 + 19 \<le> 9 * lom))"
        by (auto elim!: wp_mono)
    qed
  next
    fix c r assume "\<exists>c2. c = offset_code (p - q) @ c2 \<and> lom_code lom c2 \<and> length c2 + 19 \<le> 9 * lom"
    then obtain c2 where c: "c = offset_code (p - q) @ c2" "lom_code lom c2" "length c2 + 19 \<le> 9 * lom" by blast
    have "read_token (c @ r) (map f [0..<p]) = Some (r, map f [0..<p + lom])"
      using read_offset [of "p - q" "map f [0..<p]" lom c2 r] lz_copy_match [OF eq q(1)] q c(1,2) by simp
    then show "read_token (c @ r) (map f [0..<p]) = Some (r, map f [0..<p + lom]) \<and> 8 \<le> length c \<and> length c + 9 * n \<le> 9 * (n + lom)"
      using off c by simp
  }
qed


subsection \<open>The encoder's loops\<close>

lemma hist_at_ok: "i < L \<Longrightarrow> hist_at L f i = Some (f i)"
  by (simp add: hist_at_def)

lemma match_more_wp:
  assumes "e < L" "q < p" "p + n \<le> e + 1" "\<forall>i < n. f (p + i) = f (q + i)"
  shows "wp (match_more L f e (p + n) (q + n) n) (\<lambda>m. n \<le> m \<and> p + m \<le> e + 1 \<and> (\<forall>i < m. f (p + i) = f (q + i)))"
  using assms
proof (induction "Suc e - (p + n)" arbitrary: n)
  case 0
  then show ?case by (subst match_more.simps) simp
next
  case (Suc k)
  then have le: "p + n \<le> e" by simp
  show ?case
  proof (cases "f (p + n) = f (q + n)")
    case True
    have "\<forall>i < Suc n. f (p + i) = f (q + i)" using Suc.prems(4) True less_Suc_eq by auto
    then have "wp (match_more L f e (p + Suc n) (q + Suc n) (Suc n)) (\<lambda>m. Suc n \<le> m \<and> p + m \<le> e + 1 \<and> (\<forall>i < m. f (p + i) = f (q + i)))"
      using Suc.hyps le Suc.prems by (intro Suc.hyps(1)) auto
    then show ?thesis using le Suc.prems True
      by (subst match_more.simps) (auto simp: hist_at_ok elim!: wp_mono)
  next
    case False
    then show ?thesis using le Suc.prems by (subst match_more.simps) (simp add: hist_at_ok)
  qed
qed

lemma triple_crc_ok: "p + 2 < L \<Longrightarrow> \<exists>crc. triple_crc L f p = Some crc"
  by (simp add: triple_crc_def hist_at_ok)

lemma unat_pos16: "p < 65536 \<Longrightarrow> unat (word_of_nat p :: 16 word) = p"
  by (simp add: unsigned_of_nat take_bit_nat_eq_self)

lemma hash_triples_wp:
  assumes "p + n + 2 \<le> L" "L \<le> 65536" "\<forall>c. unat (hash c) < P" "p + n \<le> P"
  shows "wp (hash_triples L f p n hash) (\<lambda>hash'. \<forall>c. unat (hash' c) < P)"
  using assms
proof (induction n arbitrary: p hash)
  case 0
  then show ?case by (subst hash_triples.simps) simp
next
  case (Suc n)
  then obtain crc where "triple_crc L f p = Some crc" using triple_crc_ok [of p L f] by auto
  moreover have "wp (hash_triples L f (p + 1) n (hash(crc := word_of_nat p))) (\<lambda>hash'. \<forall>c. unat (hash' c) < P)"
    using Suc.prems by (intro Suc.IH) (auto simp: unat_pos16)
  ultimately show ?case by (subst hash_triples.simps) simp
qed

lemma compress_step_wp:
  assumes L: "L \<le> 65536" "base + len < L" "9 * len + 96 \<le> 8 * L" and lc: "lc = int (base + len) - 3" and ctr: "ctr + 2 < len" "0 < base + ctr"
    and hash: "\<forall>c. unat (hash c) < base + ctr" and w: "emitted Z h0 w (map f [0..<base + ctr]) ctr"
  shows "wp (compress_step L f base (base + len - 1) lc ctr hash w)
    (\<lambda>(ctr', hash', w'). ctr < ctr' \<and> ctr' \<le> len \<and> (\<forall>c. unat (hash' c) < base + ctr') \<and> emitted Z h0 w' (map f [0..<base + ctr']) ctr')"
    (is "wp _ ?Q")
proof -
  define p where "p = base + ctr"
  have p: "p + 2 < base + len" "p < 65536" using L ctr by (auto simp: p_def)
  obtain crc where crc: "triple_crc L f p = Some crc" using triple_crc_ok [of p L f] p L by auto
  define q where "q = unat (hash crc)"
  have q: "q < p" using hash by (simp add: q_def p_def)
  let ?hash = "hash(crc := word_of_nat p)"
  have hash': "\<forall>c. unat (?hash c) < p + k" if "1 \<le> k" for k
    using that hash [folded p_def] p(2) by (auto simp: unat_pos16 intro: trans_less_add1)
  have off: "nat (u32 (int p - int q)) = p - q" using q p by (simp add: u32_id nat_diff_distrib)
  have ra: "p < L" "p + 1 < L" "p + 2 < L" "q < L" "q + 1 < L" "q + 2 < L" using p q L by linarith+
  show ?thesis
  proof (cases "f p \<noteq> f q \<or> f (p + 1) \<noteq> f (q + 1) \<or> f (p + 2) \<noteq> f (q + 2)")
    case True
    have "9 * ctr + 64 \<le> 8 * L" using L(3) ctr(1) by linarith
    from insert_literal_emitted [OF w this, of "f p"]
    have "wp (insert_literal L (unat (f p)) w) (\<lambda>w'. ?Q (ctr + 1, ?hash, w'))"
      using hash' [of 1] ctr by (auto simp: p_def elim!: wp_mono)
    with True ra show ?thesis by (simp add: compress_step_def p_def [symmetric] crc hist_at_ok q_def [symmetric] wp_bind)
  next
    case False
    have "\<forall>i < 3. f (p + i) = f (q + i)" using False by (auto simp: numeral_3_eq_3 less_Suc_eq)
    then have m: "wp (match_more L f (base + len - 1) (p + 3) (q + 3) 3) (\<lambda>m. 3 \<le> m \<and> p + m \<le> base + len \<and> (\<forall>i < m. f (p + i) = f (q + i)))"
      using p q L by (intro wp_mono [OF match_more_wp [of "base + len - 1" L q p 3 f]]) auto
    have rest: "wp (do { hash \<leftarrow> hash_triples L f (p + 1) (if int (p + lom) > lc then nat (u32 (lc - int p)) else lom - 1) ?hash;
          w1 \<leftarrow> insert_copy_offset L (p - q) w; w2 \<leftarrow> insert_lom L lom w1; Some (ctr + lom, hash, w2) }) ?Q"
      if lom: "3 \<le> lom" "p + lom \<le> base + len" "\<forall>i < lom. f (p + i) = f (q + i)" for lom
    proof -
      let ?j = "if int (p + lom) > lc then nat (u32 (lc - int p)) else lom - 1"
      have j: "p + 1 + ?j + 2 \<le> L" "p + 1 + ?j \<le> p + lom"
        using p L lom by (auto simp: lc u32_id)
      have "wp (hash_triples L f (p + 1) ?j ?hash) (\<lambda>hash'. \<forall>c. unat (hash' c) < p + lom)"
        by (rule hash_triples_wp [OF j(1) L(1) hash' j(2)]) (use lom(1) in simp)
      moreover have "wp (do { w1 \<leftarrow> insert_copy_offset L (p - q) w; insert_lom L lom w1 }) (\<lambda>w'. emitted Z h0 w' (map f [0..<p + lom]) (ctr + lom))"
        using insert_copy_emitted [of Z h0 w f p ctr L lom q] w lom p q L ctr by (simp add: p_def)
      ultimately show ?thesis
        using lom ctr by (auto simp: wp_bind p_def algebra_simps elim!: wp_mono)
    qed
    have e: "compress_step L f base (base + len - 1) lc ctr hash w = do { lom \<leftarrow> match_more L f (base + len - 1) (p + 3) (q + 3) 3;
        hash \<leftarrow> hash_triples L f (p + 1) (if int (p + lom) > lc then nat (u32 (lc - int p)) else lom - 1) ?hash;
        w1 \<leftarrow> insert_copy_offset L (p - q) w; w2 \<leftarrow> insert_lom L lom w1; Some (ctr + lom, hash, w2) }"
      using False ra by (simp add: compress_step_def p_def [symmetric] crc hist_at_ok q_def [symmetric] off)
    show ?thesis unfolding e by (rule wp_bindI [OF m]) (elim conjE, rule rest)
  qed
qed


lemma compress_loop_wp:
  assumes L: "L \<le> 65536" "base + len < L" "9 * len + 96 \<le> 8 * L" "2 \<le> len" and lc: "lc = int (base + len) - 3" and ctr: "0 < base + ctr" "ctr \<le> len"
    and hash: "\<forall>c. unat (hash c) < base + ctr" and w: "emitted Z h0 w (map f [0..<base + ctr]) ctr"
  shows "wp (compress_loop L f base (base + len - 1) lc (len - 2) ctr hash w)
    (\<lambda>(ctr', hash', w'). ctr' \<le> len \<and> (\<forall>c. unat (hash' c) < base + len) \<and> emitted Z h0 w' (map f [0..<base + ctr']) ctr')"
  using ctr hash w
proof (induction "len - ctr" arbitrary: ctr hash w rule: less_induct)
  case less
  show ?case
  proof (cases "ctr < len - 2")
    case True
    let ?Q = "\<lambda>(ctr', hash', w'). ctr' \<le> len \<and> (\<forall>c. unat (hash' c) < base + len) \<and> emitted Z h0 w' (map f [0..<base + ctr']) ctr'"
    from True have c: "ctr + 2 < len" by simp
    have "wp (compress_step L f base (base + len - 1) lc ctr hash w)
      (\<lambda>(ctr', hash', w'). wp (compress_loop L f base (base + len - 1) lc (len - 2) ctr' hash' w') ?Q)"
    proof (rule wp_mono [OF compress_step_wp [OF L(1-3) lc c less.prems(1,3,4)]], clarify)
      fix ctr' :: nat and hash' :: "16 word \<Rightarrow> 16 word" and w' :: bitout
      assume "ctr < ctr'" "ctr' \<le> len" "\<forall>c. unat (hash' c) < base + ctr'" "emitted Z h0 w' (map f [0..<base + ctr']) ctr'"
      then show "wp (compress_loop L f base (base + len - 1) lc (len - 2) ctr' hash' w') ?Q"
        using c by (intro less.hyps) auto
    qed
    with True show ?thesis by (subst compress_loop.simps) (simp add: wp_bind case_prod_unfold)
  next
    case False
    have "unat (hash c) < base + len" for c using less.prems(2,3) by (metis add_le_cancel_left order_less_le_trans)
    with False less.prems show ?thesis by (subst compress_loop.simps) simp
  qed
qed

lemma compress_tail_wp:
  assumes L: "9 * len + 64 \<le> 8 * L" and src: "len \<le> length src" "\<forall>i < len. f (base + i) = src ! i"
    and ctr: "ctr \<le> len" and w: "emitted Z h0 w (map f [0..<base + ctr]) ctr"
  shows "wp (compress_tail L src len ctr w) (\<lambda>w'. emitted Z h0 w' (map f [0..<base + len]) len)"
  using ctr w
proof (induction "len - ctr" arbitrary: ctr w)
  case 0
  then show ?case by (subst compress_tail.simps) simp
next
  case (Suc k)
  then have lt: "ctr < len" by simp
  have "wp (insert_literal L (unat (src ! ctr)) w) (\<lambda>w'. emitted Z h0 w' (map f [0..<base + ctr] @ [src ! ctr]) (ctr + 1))"
    using L lt by (intro insert_literal_emitted [OF Suc.prems(2)]) simp
  then have "wp (insert_literal L (unat (src ! ctr)) w) (\<lambda>w'. wp (compress_tail L src len (ctr + 1) w') (\<lambda>w'. emitted Z h0 w' (map f [0..<base + len]) len))"
    by (rule wp_mono) (use Suc lt src in \<open>auto intro!: Suc.hyps(1)\<close>)
  with lt src show ?case by (subst compress_tail.simps) (simp add: wp_bind)
qed

lemma compress_first_wp:
  assumes "4 < L" "9 * 2 + 64 \<le> 8 * L" "wrote Z w []" "\<forall>c. hash c = 0"
  shows "wp (compress_first L f hash w) (\<lambda>(hash', w'). (\<forall>c. unat (hash' c) < 2) \<and> emitted Z [] w' (map f [0..<2]) 2)"
proof -
  have e0: "emitted Z [] w [] 0" using assms(3) reads_nil by (auto simp: emitted_def)
  obtain c0 c1 where "triple_crc L f 0 = Some c0" "triple_crc L f 1 = Some c1" using triple_crc_ok [of 0 L f] triple_crc_ok [of 1 L f] assms(1) by auto
  moreover have "map f [0..<2] = [f 0, f 1]" by (simp add: upt_rec)
  moreover have "wp (insert_literal L (unat (f 0)) w) (\<lambda>w'. wp (insert_literal L (unat (f 1)) w') (\<lambda>w''. emitted Z [] w'' [f 0, f 1] 2))"
    by (rule wp_mono [OF insert_literal_emitted [OF e0]])
      (use assms(2) in \<open>auto dest!: insert_literal_emitted [where b = "f 1" and L = L] simp: numeral_2_eq_2\<close>)
  ultimately show ?thesis using assms(1,4)
    by (auto simp: compress_first_def hist_at_ok insert_first_literal_eq wp_bind elim!: wp_mono)
qed

subsection \<open>Packets\<close>

definition byte_bits_of :: "byte list \<Rightarrow> bool list" where
  "byte_bits_of bytes = concat (map (\<lambda>b. msb_bits 8 (unat b)) bytes)"

lemma length_byte_bits_of [simp]: "length (byte_bits_of xs) = 8 * length xs"
  by (induction xs) (simp_all add: byte_bits_of_def)

lemma nth_byte_bits_of: "i < length xs \<Longrightarrow> r < 8 \<Longrightarrow> byte_bits_of xs ! (8 * i + r) = bit (xs ! i) (7 - r)"
proof (induction xs arbitrary: i)
  case (Cons x xs)
  then show ?case
    by (cases i) (auto simp: byte_bits_of_def nth_append nth_msb_bits bit_unsigned_iff)
qed simp

text \<open>The finished output: rounded up to bytes, it is what was emitted and fewer than eight zeros.\<close>

lemma emitted_bytes:
  assumes "emitted Z h0 w h n" and k: "k = (if bits_left w \<noteq> 8 then opb_index w + 1 else opb_index w)" "k \<le> Z"
  shows "read_tokens (8 * k) (byte_bits_of (map (outbuf w) [0..<k])) h0 = Some h"
proof -
  obtain bs where bs: "wrote Z w bs" "reads h0 bs h" using assms(1) by (auto simp: emitted_def)
  have len: "length bs \<le> 8 * k" "8 * k < length bs + 8" using bs(1) k(1) by (auto simp: wrote_def)
  have "byte_bits_of (map (outbuf w) [0..<k]) = bs @ replicate (8 * k - length bs) False"
  proof (rule nth_equalityI)
    fix q assume "q < length (byte_bits_of (map (outbuf w) [0..<k]))"
    then have i: "q div 8 < k" by auto
    have "byte_bits_of (map (outbuf w) [0..<k]) ! (8 * (q div 8) + q mod 8) = bit (map (outbuf w) [0..<k] ! (q div 8)) (7 - q mod 8)"
      using i by (intro nth_byte_bits_of) auto
    also have "\<dots> = (8 * (q div 8) + q mod 8 < length bs \<and> bs ! (8 * (q div 8) + q mod 8))"
      using bs(1) i k(2) by (auto simp: wrote_def)
    finally show "byte_bits_of (map (outbuf w) [0..<k]) ! q = (bs @ replicate (8 * k - length bs) False) ! q"
      using i len by (auto simp: nth_append)
  qed (use len in simp)
  with reads_decoded [OF bs(2), of "replicate (8 * k - length bs) False"] len show ?thesis by simp
qed


text \<open>
  The encoder between packets, and its agreement with the decoder's history: either the next
  packet will announce that it starts afresh (and the encoder does), or both sides hold the same
  bytes.
\<close>

definition mppc_ok :: "mppc_enc \<Rightarrow> bool" where
  "mppc_ok e \<longleftrightarrow> protocol_type e = PROTO_RDP_50 \<and> buf_len e = 65536 \<and> (\<forall>c. unat (hash_table e c) < max 1 (historyOffset e))
     \<and> 0 \<le> flagsHold e \<and> flagsHold e < 256"

definition synced :: "mppc_enc \<Rightarrow> byte list \<Rightarrow> bool" where
  "synced e h \<longleftrightarrow> mppc_ok e \<and> (if flagsHold e AND PACKET_AT_FRONT = 0 then h = map (historyBuffer e) [0..<historyOffset e]
     else historyOffset e = 0)"

definition packet_fits :: "byte list \<Rightarrow> bool" where
  "packet_fits x \<longleftrightarrow> 2 \<le> length x \<and> length x \<le> 58200"

definition mppc_receive :: "byte list \<Rightarrow> int \<times> byte list \<Rightarrow> byte list \<times> byte list" where
  "mppc_receive h pkt = (case pkt of (fl, bytes) \<Rightarrow>
     if fl AND PACKET_COMPRESSED = 0 then (bytes, h)
     else let h = (if fl AND PACKET_AT_FRONT = 0 then h else []) in
       (case read_tokens (8 * length bytes) (byte_bits_of bytes) h of
          None \<Rightarrow> ([], [])
        | Some h' \<Rightarrow> (drop (length h) h', h')))"

text \<open>What the callers send: the compressed bytes with the encoder's flags, or the packet as it is.\<close>

definition mppc_send :: "mppc_enc \<Rightarrow> byte list \<Rightarrow> (int \<times> byte list) \<times> mppc_enc" where
  "mppc_send e x = (case compress_rdp (Some e) (Some x) (int (length x)) of
     Some (r, Some e') \<Rightarrow> (if r \<noteq> 0 then (enc_flags e', map (outputBuffer e') [0..<bytes_in_opb e']) else (0, x), e')
   | _ \<Rightarrow> ((0, []), e))"

lemma rewind_ok: "mppc_ok e \<Longrightarrow> mppc_ok (rewind_history e)"
  using OR_upper [of "flagsHold e" 8 "PACKET_AT_FRONT OR PACKET_FLUSHED"]
  by (simp add: mppc_ok_def rewind_history_def mppc_consts)

lemma and_or_front: "(x OR (PACKET_AT_FRONT OR PACKET_FLUSHED)) AND PACKET_AT_FRONT \<noteq> 0"
proof -
  have "PACKET_AT_FRONT = 2 ^ 6" by (simp add: mppc_consts)
  moreover have "bit (x OR (PACKET_AT_FRONT OR PACKET_FLUSHED)) 6" by (simp add: bit_or_iff mppc_consts)
  ultimately show ?thesis by (metis and_exp_eq_0_iff_not_bit)
qed

lemma rewind_synced: "mppc_ok e \<Longrightarrow> synced (rewind_history e) h"
  using and_or_front rewind_ok [of e] by (simp add: synced_def rewind_history_def)

text \<open>The packet, from an encoder whose history starts at \<open>base\<close>.\<close>

lemma encode_packet_wp:
  assumes e: "mppc_ok e" and room: "historyOffset e + length x < 65533" and x: "packet_fits x" and w0: "wrote (length x) w0 []"
  shows "wp (encode_packet e x (length x) w0)
     (\<lambda>(hash, w). (\<forall>c. unat (hash c) < historyOffset e + length x) \<and>
        emitted (length x) (map (historyBuffer e) [0..<historyOffset e]) w (map (historyBuffer e) [0..<historyOffset e] @ x) (length x))"
proof -
  let ?b = "historyOffset e" and ?n = "length x" and ?f = "append_history e x (length x)"
  define h0 where "h0 = map (historyBuffer e) [0..<?b]"
  have n: "2 \<le> ?n" "9 * ?n + 96 \<le> 8 * 65536" using x by (auto simp: packet_fits_def)
  have u: "nat (u32 (int ?n - 2)) = ?n - 2" using n by (simp add: u32_id nat_diff_distrib)
  have L: "buf_len e = 65536" using e by (simp add: mppc_ok_def)
  have h0: "map ?f [0..<?b] = h0" "map ?f [0..<?b + ?n] = h0 @ x"
    by (auto simp: h0_def append_history_def intro!: nth_equalityI simp: nth_append)
  have first: "wp (if ?b = 0 then do { (hash, w) \<leftarrow> compress_first 65536 ?f (hash_table e) w0; Some (2, hash, w) } else Some (0, hash_table e, w0))
     (\<lambda>(ctr, hash, w). 0 < ?b + ctr \<and> ctr \<le> ?n \<and> (\<forall>c. unat (hash c) < ?b + ctr) \<and> emitted ?n h0 w (map ?f [0..<?b + ctr]) ctr)"
  proof (cases "?b = 0")
    case True
    then have "\<forall>c. hash_table e c = 0" using e by (auto simp: mppc_ok_def unat_eq_0)
    from compress_first_wp [OF _ _ w0 this, of 65536 ?f] True n show ?thesis
      by (auto simp: wp_bind h0_def elim!: wp_mono)
  next
    case False
    moreover have "emitted ?n h0 w0 h0 0" using w0 reads_nil by (auto simp: emitted_def)
    ultimately show ?thesis using e by (auto simp: mppc_ok_def h0 max_def split: if_splits)
  qed
  show ?thesis
    unfolding encode_packet_def Let_def u L h0_def [symmetric]
  proof (rule wp_bindI [OF first], clarify)
    fix ctr :: nat and hash :: "16 word \<Rightarrow> 16 word" and w :: bitout
    assume pos: "0 < ?b \<or> 0 < ctr" and a: "ctr \<le> ?n" "\<forall>c. unat (hash c) < ?b + ctr" "emitted ?n h0 w (map ?f [0..<?b + ctr]) ctr"
    have loop: "wp (compress_loop 65536 ?f ?b (?b + ?n - 1) (int (?b + ?n) - 3) (?n - 2) ctr hash w)
      (\<lambda>(ctr', hash', w'). ctr' \<le> ?n \<and> (\<forall>c. unat (hash' c) < ?b + ?n) \<and> emitted ?n h0 w' (map ?f [0..<?b + ctr']) ctr')"
      using room n pos by (intro compress_loop_wp [OF _ _ _ _ refl _ a]) auto
    show "wp (do { (ctr, hash, w) \<leftarrow> compress_loop 65536 ?f ?b (?b + ?n - 1) (int (?b + ?n) - 3) (?n - 2) ctr hash w;
       w \<leftarrow> compress_tail 65536 x ?n ctr w; Some (hash, w) })
      (\<lambda>(hash, w). (\<forall>c. unat (hash c) < ?b + ?n) \<and> emitted ?n h0 w (h0 @ x) ?n)"
    proof (rule wp_bindI [OF loop], clarify)
      fix ctr' :: nat and hash' :: "16 word \<Rightarrow> 16 word" and w' :: bitout
      assume b: "ctr' \<le> ?n" "\<forall>c. unat (hash' c) < ?b + ?n" "emitted ?n h0 w' (map ?f [0..<?b + ctr']) ctr'"
      have "wp (compress_tail 65536 x ?n ctr' w') (\<lambda>w'. emitted ?n h0 w' (map ?f [0..<?b + ?n]) ?n)"
        using n by (intro compress_tail_wp [OF _ _ _ b(1,3)]) (auto simp: append_history_def)
      then show "wp (do { w \<leftarrow> compress_tail 65536 x ?n ctr' w'; Some (hash', w) })
        (\<lambda>(hash, w). (\<forall>c. unat (hash c) < ?b + ?n) \<and> emitted ?n h0 w (h0 @ x) ?n)"
        unfolding h0(2) by (rule wp_bindI) (use b(2) in simp)
    qed
  qed
qed

text \<open>\<open>compress_rdp_5\<close> is that core after a possible rewind, and what becomes of its result.\<close>

definition rewound :: "mppc_enc \<Rightarrow> byte list \<Rightarrow> mppc_enc" where
  "rewound e x = (let e = e\<lparr>enc_flags := PACKET_COMPR_TYPE_64K\<rparr> in
     if int (historyOffset e + length x) \<ge> int (buf_len e) - 3 then rewind_history e else e)"

definition compressed :: "mppc_enc \<Rightarrow> byte list \<Rightarrow> mppc_enc \<Rightarrow> bool" where
  "compressed e x e' \<longleftrightarrow> mppc_ok e' \<and> flagsHold e' = 0 \<and> bytes_in_opb e' \<le> length x \<and>
     enc_flags e' = (PACKET_COMPR_TYPE_64K OR PACKET_COMPRESSED) OR flagsHold e \<and>
     map (historyBuffer e') [0..<historyOffset e'] = map (historyBuffer e) [0..<historyOffset e] @ x \<and>
     read_tokens (8 * bytes_in_opb e') (byte_bits_of (map (outputBuffer e') [0..<bytes_in_opb e'])) (map (historyBuffer e) [0..<historyOffset e])
       = Some (map (historyBuffer e) [0..<historyOffset e] @ x)"

lemma rewound_facts:
  assumes "mppc_ok e" "packet_fits x"
  shows "mppc_ok (rewound e x)" "historyOffset (rewound e x) + length x < 65533" "enc_flags (rewound e x) = PACKET_COMPR_TYPE_64K"
    "buf_len (rewound e x) = 65536" "outputBuffer (rewound e x) = outputBuffer e" "synced e h \<Longrightarrow> synced (rewound e x) h"
proof -
  have e: "mppc_ok (e\<lparr>enc_flags := v\<rparr>)" for v using assms(1) by (simp add: mppc_ok_def)
  then show "mppc_ok (rewound e x)" by (simp add: rewound_def Let_def rewind_ok)
  show "synced e h \<Longrightarrow> synced (rewound e x) h"
    using rewind_synced [OF e] by (simp add: rewound_def Let_def synced_def e)
  show "historyOffset (rewound e x) + length x < 65533" "enc_flags (rewound e x) = PACKET_COMPR_TYPE_64K"
    "buf_len (rewound e x) = 65536" "outputBuffer (rewound e x) = outputBuffer e"
    using assms by (auto simp: rewound_def Let_def rewind_history_def mppc_ok_def packet_fits_def)
qed

lemma compress_rdp_5_wp:
  assumes e: "mppc_ok e" and x: "packet_fits x"
  shows "wp (compress_rdp_5 e x (length x)) (\<lambda>(r, e'). r = 0 \<and> mppc_ok e' \<and> (\<forall>h. synced e' h) \<or> r = 1 \<and> compressed (rewound e x) x e')"
proof -
  define e1 where "e1 = rewound e x"
  note e1 = rewound_facts(1-5) [OF e x, folded e1_def]
  define w0 where "w0 = \<lparr> outbuf = (\<lambda>i. if i < length x then 0 else outputBuffer e i), opb_index = 0, bits_left = 8 \<rparr>"
  have w0: "wrote (length x) w0 []" by (simp add: wrote_def w0_def)
  let ?f = "append_history e1 x (length x)"
  have hist: "map ?f [0..<historyOffset e1 + length x] = map (historyBuffer e1) [0..<historyOffset e1] @ x"
    by (auto simp: append_history_def intro!: nth_equalityI simp: nth_append)
  have "compress_rdp_5 e x (length x) = do { (hash, w) \<leftarrow> encode_packet e1 x (length x) w0;
     Some (finish_packet (e1\<lparr>historyBuffer := ?f, historyOffset := historyOffset e1 + length x, outputBuffer := outbuf w, hash_table := hash\<rparr>) (length x) w) }"
    unfolding compress_rdp_5_def Let_def e1_def rewound_def w0_def by simp
  moreover have "wp (do { (hash, w) \<leftarrow> encode_packet e1 x (length x) w0;
      Some (finish_packet (e1\<lparr>historyBuffer := ?f, historyOffset := historyOffset e1 + length x, outputBuffer := outbuf w, hash_table := hash\<rparr>) (length x) w) })
    (\<lambda>(r, e'). r = 0 \<and> mppc_ok e' \<and> (\<forall>h. synced e' h) \<or> r = 1 \<and> compressed e1 x e')"
  proof (rule wp_bindI [OF encode_packet_wp [OF e1(1,2) x w0]], clarify)
    fix hash :: "16 word \<Rightarrow> 16 word" and w :: bitout
    assume hash: "\<forall>c. unat (hash c) < historyOffset e1 + length x"
      and w: "emitted (length x) (map (historyBuffer e1) [0..<historyOffset e1]) w (map (historyBuffer e1) [0..<historyOffset e1] @ x) (length x)"
    let ?enc = "e1\<lparr>historyBuffer := ?f, historyOffset := historyOffset e1 + length x, outputBuffer := outbuf w, hash_table := hash\<rparr>"
    have ok: "mppc_ok ?enc" using e1(1) hash x by (auto simp: mppc_ok_def packet_fits_def less_max_iff_disj)
    then have ok': "mppc_ok (?enc\<lparr>enc_flags := a, bytes_in_opb := b, flagsHold := 0\<rparr>)" for a b by (simp add: mppc_ok_def)
    show "wp (Some (finish_packet ?enc (length x) w)) (\<lambda>(r, e'). r = 0 \<and> mppc_ok e' \<and> (\<forall>h. synced e' h) \<or> r = 1 \<and> compressed e1 x e')"
      using emitted_bytes [OF w refl] rewind_ok [OF ok] rewind_synced [OF ok] ok' hist e1(3)
      by (auto simp: finish_packet_def Let_def compressed_def)
  qed
  ultimately show ?thesis by (simp add: e1_def [symmetric])
qed


subsection \<open>A session\<close>

lemma and_bit_or: "((PACKET_COMPR_TYPE_64K OR PACKET_COMPRESSED) OR v) AND PACKET_COMPRESSED \<noteq> 0"
  "((PACKET_COMPR_TYPE_64K OR PACKET_COMPRESSED) OR v) AND PACKET_AT_FRONT = 0 \<longleftrightarrow> v AND PACKET_AT_FRONT = 0"
proof -
  have c: "PACKET_COMPRESSED = 2 ^ 5" "PACKET_AT_FRONT = 2 ^ 6" by (simp_all add: mppc_consts)
  have "bit ((PACKET_COMPR_TYPE_64K OR PACKET_COMPRESSED) OR v) 5" by (simp add: bit_or_iff mppc_consts)
  then show "((PACKET_COMPR_TYPE_64K OR PACKET_COMPRESSED) OR v) AND PACKET_COMPRESSED \<noteq> 0"
    using c(1) by (metis and_exp_eq_0_iff_not_bit)
  have "bit ((PACKET_COMPR_TYPE_64K OR PACKET_COMPRESSED) OR v) 6 \<longleftrightarrow> bit v 6" by (simp add: bit_or_iff mppc_consts)
  then show "((PACKET_COMPR_TYPE_64K OR PACKET_COMPRESSED) OR v) AND PACKET_AT_FRONT = 0 \<longleftrightarrow> v AND PACKET_AT_FRONT = 0"
    using c(2) by (metis and_exp_eq_0_iff_not_bit)
qed

lemma mppc_send_step:
  assumes s: "synced e h" and x: "packet_fits x"
  shows "fst (mppc_receive h (fst (mppc_send e x))) = x \<and> synced (snd (mppc_send e x)) (snd (mppc_receive h (fst (mppc_send e x))))"
proof -
  have e: "mppc_ok e" using s by (simp add: synced_def)
  have len: "0 < length x" "length x \<le> 65536" using x by (auto simp: packet_fits_def)
  obtain r e' where r: "compress_rdp_5 e x (length x) = Some (r, e')"
    "r = 0 \<and> mppc_ok e' \<and> (\<forall>h. synced e' h) \<or> r = 1 \<and> compressed (rewound e x) x e'"
    using compress_rdp_5_wp [OF e x] by (auto simp: wp_exists)
  have send: "mppc_send e x = (if r \<noteq> 0 then (enc_flags e', map (outputBuffer e') [0..<bytes_in_opb e']) else (0, x), e')"
    using e len r(1) by (simp add: mppc_send_def compress_rdp_def mppc_ok_def mppc_consts)
  show ?thesis
  proof (cases "r = 0")
    case True
    with r(2) show ?thesis by (simp add: send mppc_receive_def)
  next
    case False
    then have c: "r = 1" "compressed (rewound e x) x e'" using r(2) by auto
    have s1: "synced (rewound e x) h" by (rule rewound_facts(6) [OF e x s])
    let ?h0 = "map (historyBuffer (rewound e x)) [0..<historyOffset (rewound e x)]"
    have h0: "(if flagsHold (rewound e x) AND PACKET_AT_FRONT = 0 then h else []) = ?h0"
      using s1 by (auto simp: synced_def)
    have "mppc_receive h (fst (mppc_send e x)) = (x, ?h0 @ x)"
      using c h0 by (auto simp: send mppc_receive_def compressed_def and_bit_or Let_def)
    moreover have "synced e' (?h0 @ x)" using c(2) by (simp add: compressed_def synced_def)
    ultimately show ?thesis by (simp add: send)
  qed
qed

text \<open>The same for callers that use \<open>compress_rdp\<close> directly.\<close>

lemma compress_rdp_wp:
  assumes e: "mppc_ok e" and x: "packet_fits x"
  shows "wp (compress_rdp (Some e) (Some x) (int (length x))) (\<lambda>(r, eo). \<exists>e'. eo = Some e' \<and> mppc_ok e' \<and>
     mppc_send e x = (if r \<noteq> 0 then (enc_flags e', map (outputBuffer e') [0..<bytes_in_opb e']) else (0, x), e') \<and>
     (r = 0 \<or> r = 1 \<and> bytes_in_opb e' \<le> length x \<and> 0 \<le> enc_flags e' \<and> enc_flags e' < 256))"
proof -
  have len: "0 < length x" "length x \<le> 65536" using x by (auto simp: packet_fits_def)
  obtain r e' where r: "compress_rdp_5 e x (length x) = Some (r, e')"
    "r = 0 \<and> mppc_ok e' \<or> r = 1 \<and> compressed (rewound e x) x e'"
    using compress_rdp_5_wp [OF e x] by (auto simp: wp_exists)
  have hold: "0 \<le> flagsHold (rewound e x)" "flagsHold (rewound e x) < 256" using rewound_facts(1) [OF e x] by (auto simp: mppc_ok_def)
  then have flags: "0 \<le> (PACKET_COMPR_TYPE_64K OR PACKET_COMPRESSED) OR flagsHold (rewound e x)"
    "(PACKET_COMPR_TYPE_64K OR PACKET_COMPRESSED) OR flagsHold (rewound e x) < 256"
    using OR_upper [of "PACKET_COMPR_TYPE_64K OR PACKET_COMPRESSED" 8 "flagsHold (rewound e x)"] by (simp_all add: mppc_consts)
  have run: "compress_rdp (Some e) (Some x) (int (length x)) = Some (r, Some e')"
    using e len r(1) by (simp add: compress_rdp_def mppc_ok_def mppc_consts)
  then show ?thesis using r(2) flags by (auto simp: mppc_send_def compressed_def)
qed

interpretation mppc: stream_cipher synced mppc_send mppc_receive packet_fits
  by unfold_locales (rule mppc_send_step)

lemma fresh_synced: "mppc_enc_new PROTO_RDP_50 = Some e \<Longrightarrow> synced e h"
  by (auto simp: mppc_enc_new_def synced_def mppc_ok_def mppc_consts Let_def)

text \<open>C14. A session of the bulk compressor: a decoder that starts with an empty history recovers
  every packet, in order, from what a fresh RDP 5.0 encoder makes of them, whether a packet was
  compressed, given up or came after the history was rewound. No packet of 2 to 58200 bytes makes
  the encoder fault.\<close>

theorem bulk_compression_roundtrip:
  assumes "mppc_enc_new PROTO_RDP_50 = Some e" and "\<forall>x \<in> set packets. packet_fits x"
  shows "fst (through mppc_receive [] (fst (through mppc_send e packets))) = packets"
  using mppc.messages_arrive [OF fresh_synced [OF assms(1)] assms(2)] by simp

theorem bulk_compression_roundtrip_witness:
  "\<exists>e. mppc_enc_new PROTO_RDP_50 = Some e \<and>
     fst (through mppc_receive [] (fst (through mppc_send e [[1, 2, 3, 1, 2, 3, 200], [1, 2, 3, 4]]))) = [[1, 2, 3, 1, 2, 3, 200], [1, 2, 3, 4]]"
proof -
  obtain e where "mppc_enc_new PROTO_RDP_50 = Some e" by (auto simp: mppc_enc_new_def mppc_consts)
  with bulk_compression_roundtrip [OF this, of "[[1, 2, 3, 1, 2, 3, 200], [1, 2, 3, 4]]"] show ?thesis
    by (simp add: packet_fits_def)
qed

text \<open>Every call on a valid encoder ends with a valid encoder, reports success or failure, and on
  success the output is not longer than the packet.\<close>

theorem bulk_compression_keeps_encoder:
  assumes "mppc_ok e" and "packet_fits x"
  shows "\<exists>r e'. compress_rdp (Some e) (Some x) (int (length x)) = Some (r, Some e') \<and> mppc_ok e' \<and>
     (r = 0 \<or> r = 1 \<and> bytes_in_opb e' \<le> length x)"
  using compress_rdp_wp [OF assms] by (auto simp: wp_exists)

theorem bulk_compression_keeps_encoder_witness:
  "\<exists>e r e'. compress_rdp (Some e) (Some [7, 7, 7]) 3 = Some (r, Some e') \<and> mppc_ok e' \<and> (r = 0 \<or> r = 1 \<and> bytes_in_opb e' \<le> 3)"
proof -
  obtain e where "mppc_enc_new PROTO_RDP_50 = Some e" by (auto simp: mppc_enc_new_def mppc_consts)
  then have "mppc_ok e" using fresh_synced [of e "[]"] by (simp add: synced_def)
  from bulk_compression_keeps_encoder [OF this, of "[7, 7, 7]"] show ?thesis by (simp add: packet_fits_def numeral_3_eq_3) blast
qed


subsection \<open>A packet of one byte\<close>

text \<open>
  \<open>compress_rdp\<close> lets a packet of one byte through, and \<open>data_end = len - 2\<close> is then the largest
  \<open>tui32\<close>: the main loop runs on behind the packet until it leaves the history.
\<close>

lemma match_more_past: "e < c1 \<Longrightarrow> match_more L f e c1 c2 n = Some n"
  by (subst match_more.simps) simp

lemma compress_step_past:
  assumes "compress_step L f base base lc ctr hash w = Some (ctr', r)"
  shows "ctr < ctr' \<and> ctr' \<le> ctr + 3 \<and> base + ctr + 2 < L"
  using assms by (auto simp: compress_step_def Let_def bind_eq_Some match_more_past triple_crc_def hist_at_def split: if_splits)

lemma compress_loop_past:
  assumes "L + 3 < n" "ctr \<le> L"
  shows "compress_loop L f base base lc n ctr hash w = None"
  using assms(2)
proof (induction "L - ctr" arbitrary: ctr hash w rule: less_induct)
  case less
  show ?case
  proof (cases "compress_step L f base base lc ctr hash w")
    case None
    then show ?thesis using less.prems assms(1) by (subst compress_loop.simps) simp
  next
    case (Some s)
    obtain ctr' hash' w' where s: "s = (ctr', hash', w')" by (cases s)
    have c: "ctr < ctr'" "ctr' \<le> ctr + 3" "base + ctr + 2 < L" using compress_step_past [OF Some [unfolded s]] by auto
    have "compress_loop L f base base lc n ctr' hash' w' = None"
    proof (cases "ctr' \<le> L")
      case True
      then show ?thesis using c by (intro less.hyps) auto
    next
      case False
      have "compress_step L f base base lc ctr' hash' w' = None"
        using compress_step_past [of L f base lc ctr' hash' w'] False by (cases "compress_step L f base base lc ctr' hash' w'") auto
      with c assms(1) less.prems show ?thesis by (subst compress_loop.simps) simp
    qed
    with Some s less.prems assms(1) show ?thesis by (subst compress_loop.simps) simp
  qed
qed

text \<open>A packet of a single byte makes every RDP 5.0 encoder read outside its history buffer,
  although \<open>compress_rdp\<close> accepts it.\<close>

theorem one_byte_packet_faults:
  assumes "mppc_ok e"
  shows "compress_rdp (Some e) (Some [b]) 1 = None"
proof -
  have n: "nat (u32 (int 1 - 2)) = 4294967295" by (simp add: u32_def)
  have "encode_packet e' [b] 1 w = None" if "buf_len e' = 65536" for e' w
  proof -
    have "compress_loop 65536 f base (base + 1 - 1) lc 4294967295 ctr hash w = None" if "ctr \<le> 2" for f base lc ctr hash w
      using compress_loop_past [of 65536 4294967295 ctr f base lc hash w] that by simp
    then show ?thesis unfolding encode_packet_def Let_def n \<open>buf_len e' = 65536\<close>
      by (cases "compress_first 65536 (append_history e' [b] 1) (hash_table e') w") (auto simp: case_prod_unfold)
  qed
  moreover have "buf_len (rewind_history (e\<lparr>enc_flags := v\<rparr>)) = 65536" "buf_len (e\<lparr>enc_flags := v\<rparr>) = 65536" for v
    using assms by (simp_all add: rewind_history_def mppc_ok_def)
  ultimately have "compress_rdp_5 e [b] 1 = None" by (simp add: compress_rdp_5_def Let_def)
  then show ?thesis using assms by (simp add: compress_rdp_def mppc_ok_def mppc_consts)
qed

theorem one_byte_packet_faults_witness:
  "\<exists>e. mppc_enc_new PROTO_RDP_50 = Some e \<and> compress_rdp (Some e) (Some [65]) 1 = None"
proof -
  obtain e where e: "mppc_enc_new PROTO_RDP_50 = Some e" by (auto simp: mppc_enc_new_def mppc_consts)
  then have "mppc_ok e" using fresh_synced [of e "[]"] by (simp add: synced_def)
  from one_byte_packet_faults [OF this, of 65] e show ?thesis by blast
qed


end
