(* ===== verification/Channel_Laws.thy ===== *)
theory Channel_Laws
  imports Channels
begin

text \<open>
  What the virtual channels guarantee: the bytes of a packet on a static channel, the requests of dynamic channels
  and that the parsers of the other direction read the same format back, the numbers of dynamic channels, and what becomes of messages in several fragments.
\<close>

subsection \<open>Packets on a static channel\<close>

definition channel_pdu :: "int \<Rightarrow> int \<Rightarrow> byte list \<Rightarrow> byte list" where
  "channel_pdu tot flags data = enc32_le tot @ enc32_le flags @ data"

abbreviation chn_level :: "'k xrdp_channel \<Rightarrow> int" where
  "chn_level self \<equiv> crypt_level (xs_sec (chn_sec self))"

text \<open>The stream of a packet with the data \<open>bs\<close> before the headers are filled in.\<close>

abbreviation chn_stream :: "'k xrdp_channel \<Rightarrow> int \<Rightarrow> byte list \<Rightarrow> stream" where
  "chn_stream self n bs \<equiv> emit (xrdp_channel_init self (init_stream make_stream n)) bs"

lemma channel_init_sel:
  "s_p (xrdp_channel_init self s) = 23 + sec_overhead (chn_level self)"
  "channel_hdr (xrdp_channel_init self s) = 15 + sec_overhead (chn_level self)"
  "iso_hdr (xrdp_channel_init self s) = 0" "mcs_hdr (xrdp_channel_init self s) = 7"
  "chn_level self > CRYPT_LEVEL_NONE \<Longrightarrow> sec_hdr (xrdp_channel_init self s) = 15"
  "s_size (xrdp_channel_init self s) = max (s_size s) 32768"
  by (auto simp: xrdp_channel_init_def xrdp_sec_init_def xrdp_mcs_init_def xrdp_iso_init_def s_push_layer_def sec_overhead_def Let_def)

lemma sec_overhead_range: "0 \<le> sec_overhead level" "sec_overhead level \<le> 16"
  by (simp_all add: sec_overhead_def)

lemma channel_header_prepared:
  assumes "length data \<le> 16332"
  shows "\<exists>s. out_uint32_le (s_pop_layer (s_mark_end (chn_stream self n data)) channel_hdr) tot = Some s
     \<and> (\<exists>s'. out_uint32_le s flags = Some s' \<and> sec_prepared (chn_level self) s' (channel_pdu tot flags data))"
proof -
  let ?i = "xrdp_channel_init self (init_stream make_stream n)" let ?H = "15 + sec_overhead (chn_level self)"
  let ?s = "s_pop_layer (s_mark_end (emit ?i data)) channel_hdr"
  have sel: "s_p ?s = ?H" "s_size ?s \<ge> 32768" "s_end ?s = ?H + 8 + int (length data)" "bytes_at (s_data ?s) (?H + 8) data"
    by (simp_all add: s_pop_layer_def s_mark_end_def channel_init_sel bytes_at_write_bytes)
  have room: "room ?s 4" "room (emit ?s (enc32_le tot)) 4"
    using sel(1,2) sec_overhead_range [of "chn_level self"] by (simp_all add: room_def)
  have "bytes_at (write_bytes (s_data ?s) ?H (enc32_le tot @ enc32_le flags)) ?H ((enc32_le tot @ enc32_le flags) @ data)"
    using sel(4) by (simp add: bytes_at_append [of _ _ "enc32_le tot @ enc32_le flags"] bytes_at_write_bytes bytes_at_behind del: append_assoc)
  then have "sec_prepared (chn_level self) (emit ?s (enc32_le tot @ enc32_le flags)) (channel_pdu tot flags data)"
    using sel assms sec_overhead_range [of "chn_level self"]
    by (auto simp: sec_prepared_def channel_pdu_def channel_init_sel) (simp_all add: s_pop_layer_def s_mark_end_def channel_init_sel)
  with room show ?thesis by (simp add: out_emit)
qed

text \<open>What sending did: one frame with the protected channel packet, or an error and nothing.\<close>

definition chn_sent :: "'k crypto \<Rightarrow> 'k xrdp_channel \<Rightarrow> int \<Rightarrow> byte list \<Rightarrow> int \<times> 'k xrdp_channel \<Rightarrow> bool" where
  "chn_sent cr self chan pdu = (\<lambda>(r, self'). (r = 0 \<or> r = 1) \<and> (\<exists>sec. self' = self\<lparr>chn_sec := sec\<rparr>)
     \<and> mcs_sent (chn_mcs self) (sdin_bytes (userid (chn_mcs self)) chan (sec_packet cr (chn_level self) (xs_keys (chn_sec self)) pdu)) (r, chn_mcs self')
     \<and> xs_keys (chn_sec self') = sec_next_keys cr (chn_level self) (xs_keys (chn_sec self)) pdu \<and> chn_level self' = chn_level self)"

definition chn_open :: "'k xrdp_channel \<Rightarrow> int \<Rightarrow> int \<Rightarrow> bool" where
  "chn_open self channel_id chan \<longleftrightarrow> (\<exists>channel. xrdp_channel_get_item self channel_id = Some channel \<and> ch_disabled channel = 0 \<and> ch_chanid channel = chan)
     \<and> chan \<noteq> MCS_GLOBAL_CHANNEL \<and> writer_ok (mcs_trans (chn_mcs self))"

lemma xrdp_channel_send_law:
  assumes ok: "crypto_ok cr dual" and ch: "chn_open self channel_id chan" and len: "length data \<le> 16332"
  shows "wp (xrdp_channel_send cr cb self (s_mark_end (chn_stream self n data)) channel_id tot flags) (chn_sent cr self chan (channel_pdu tot flags data))"
proof -
  let ?s = "s_pop_layer (s_mark_end (chn_stream self n data)) channel_hdr"
  obtain channel where channel: "xrdp_channel_get_item self channel_id = Some channel" "ch_disabled channel = 0" "ch_chanid channel = chan"
    "chan \<noteq> MCS_GLOBAL_CHANNEL" "writer_ok (sec_trans (chn_sec self))" using ch by (auto simp: chn_open_def)
  obtain s1 s2 where s: "out_uint32_le ?s tot = Some s1" "out_uint32_le s1 flags = Some s2"
    "sec_prepared (chn_level self) s2 (channel_pdu tot flags data)"
    using channel_header_prepared [OF len] by blast
  have "wp (xrdp_sec_send cr cb (chn_sec self) s2 chan) (\<lambda>(r, self', s').
     mcs_sent (chn_mcs self) (sdin_bytes (userid (chn_mcs self)) chan
       (sec_packet cr (chn_level self) (xs_keys (chn_sec self)) (channel_pdu tot flags data))) (r, mcs_layer (xs_sec self'))
     \<and> xs_keys self' = sec_next_keys cr (chn_level self) (xs_keys (chn_sec self)) (channel_pdu tot flags data)
     \<and> crypt_level (xs_sec self') = chn_level self)"
    by (rule xrdp_sec_send_law [OF ok s(3) _ channel(5,4)]) (use len in \<open>simp add: channel_pdu_def\<close>)
  then obtain r sec s3 where "xrdp_sec_send cr cb (chn_sec self) s2 chan = Some (r, sec, s3)"
    "mcs_sent (chn_mcs self) (sdin_bytes (userid (chn_mcs self)) chan
       (sec_packet cr (chn_level self) (xs_keys (chn_sec self)) (channel_pdu tot flags data))) (r, mcs_layer (xs_sec sec))"
     "xs_keys sec = sec_next_keys cr (chn_level self) (xs_keys (chn_sec self)) (channel_pdu tot flags data)"
     "crypt_level (xs_sec sec) = chn_level self" by (auto simp: wp_exists)
  with mcs_sent_code [OF this(2)] channel(1-3) s(1,2) show ?thesis
    by (auto simp: xrdp_channel_send_def chn_sent_def)
qed

text \<open>Sending data on a static channel: an unknown channel is an error and a disabled one swallows the data,
  both without any effect; on every other channel exactly one frame leaves, with the identifier under which the
  client joined the channel, the total length, the flags and the data, protected at the security level of the connection.\<close>

theorem channel_data_sent:
  assumes "crypto_ok cr dual" and "writer_ok (mcs_trans (chn_mcs self))" and "length data \<le> 16332"
    and "\<forall>channel\<in>set (channel_list (chn_mcs self)). ch_chanid channel \<noteq> MCS_GLOBAL_CHANNEL"
  shows "case xrdp_channel_get_item self channel_id of
     None \<Rightarrow> libxrdp_send_to_channel cr cb self channel_id data tot flags = Some (1, self)
   | Some channel \<Rightarrow> if ch_disabled channel \<noteq> 0 then libxrdp_send_to_channel cr cb self channel_id data tot flags = Some (0, self)
       else wp (libxrdp_send_to_channel cr cb self channel_id data tot flags) (chn_sent cr self (ch_chanid channel) (channel_pdu tot flags data))"
proof -
  have room: "data = [] \<or> room (xrdp_channel_init self (init_stream make_stream (int (length data) + 1024))) (int (length data))"
    using assms(3) sec_overhead_range [of "chn_level self"] by (auto simp: room_def channel_init_sel)
  show ?thesis
  proof (cases "xrdp_channel_get_item self channel_id")
    case None
    with room show ?thesis by (simp add: libxrdp_send_to_channel_def out_emit xrdp_channel_send_def)
  next
    case (Some channel)
    show ?thesis
    proof (cases "ch_disabled channel = 0")
      case False
      with Some room show ?thesis by (simp add: libxrdp_send_to_channel_def out_emit xrdp_channel_send_def)
    next
      case True
      have "channel \<in> set (channel_list (chn_mcs self))" using Some by (auto simp: xrdp_channel_get_item_def Let_def split: if_splits)
      with assms(2,4) Some True have "chn_open self channel_id (ch_chanid channel)" by (auto simp: chn_open_def)
      from xrdp_channel_send_law [OF assms(1) this assms(3), of cb "int (length data) + 1024" tot flags]
      obtain r self' where "xrdp_channel_send cr cb self (s_mark_end (chn_stream self (int (length data) + 1024) data)) channel_id tot flags = Some (r, self')"
        "chn_sent cr self (ch_chanid channel) (channel_pdu tot flags data) (r, self')" by (auto simp: wp_exists)
      moreover have "chn_sent cr self (ch_chanid channel) (channel_pdu tot flags data) (if r \<noteq> 0 then 1 else 0, self')"
        using calculation(2) by (auto simp: chn_sent_def)
      ultimately show ?thesis using Some True room by (simp add: libxrdp_send_to_channel_def out_emit)
    qed
  qed
qed

subsection \<open>Requests of dynamic channels\<close>

definition enc124 :: "int \<Rightarrow> byte list" where
  "enc124 v = (if u32 v \<le> 0xff then enc8 (u32 v) else if u32 v \<le> 0xffff then enc16_le (u32 v) else enc32_le (u32 v))"

definition code124 :: "int \<Rightarrow> int" where
  "code124 v = (if u32 v \<le> 0xff then 0 else if u32 v \<le> 0xffff then 1 else 2)"

lemma enc124_length: "length (enc124 v) \<le> 4"
  by (simp add: enc124_def)

lemma insert_uint_124: "room s 4 \<Longrightarrow> drdynvc_insert_uint_124 s v = Some (code124 v, emit s (enc124 v))"
  by (auto simp: drdynvc_insert_uint_124_def enc124_def code124_def Let_def out_emit room_def)

lemma wr8_command: "room s (1 + int (length bs)) \<Longrightarrow> wr8 (emit s (enc8 v @ bs)) (s_p s) w = Some (emit s (enc8 w @ bs))"
proof -
  have "(write_bytes ((s_data s)(s_p s \<mapsto> word_of_int v)) (s_p s + 1) bs)(s_p s \<mapsto> word_of_int w)
      = write_bytes ((s_data s)(s_p s \<mapsto> word_of_int w)) (s_p s + 1) bs"
  proof
    fix j
    consider "j < s_p s + 1" | "s_p s + 1 \<le> j" "j < s_p s + 1 + int (length bs)" | "s_p s + 1 + int (length bs) \<le> j" by linarith
    then show "((write_bytes ((s_data s)(s_p s \<mapsto> word_of_int v)) (s_p s + 1) bs)(s_p s \<mapsto> word_of_int w)) j
      = write_bytes ((s_data s)(s_p s \<mapsto> word_of_int w)) (s_p s + 1) bs j"
      by cases (simp_all add: write_bytes_below write_bytes_at write_bytes_above)
  qed
  then show "room s (1 + int (length bs)) \<Longrightarrow> wr8 (emit s (enc8 v @ bs)) (s_p s) w = Some (emit s (enc8 w @ bs))"
    by (simp add: wr8_def emit_def enc8_def room_def)
qed

abbreviation dvc_sent :: "'k crypto \<Rightarrow> 'k xrdp_channel \<Rightarrow> int \<Rightarrow> byte list \<Rightarrow> int \<times> 'k xrdp_channel \<Rightarrow> bool" where
  "dvc_sent cr self chan bs \<equiv> chn_sent cr self chan (channel_pdu (int (length bs)) 3 bs)"

lemma dvc_request_law:
  assumes ok: "crypto_ok cr dual" and ch: "chn_open self (drdynvc_channel_id self) chan" and len: "length bs < 16332"
  shows "wp (dvc_request cr cb self (chn_stream self 8192 (enc8 0 @ bs)) (s_p (xrdp_channel_init self (init_stream make_stream 8192))) cmd)
     (dvc_sent cr self chan (enc8 cmd @ bs))"
proof -
  let ?i = "xrdp_channel_init self (init_stream make_stream 8192)"
  have "room ?i (1 + int (length bs))"
    using len sec_overhead_range [of "chn_level self"] by (auto simp: room_def channel_init_sel)
  from wr8_command [OF this] have w: "wr8 (chn_stream self 8192 (enc8 0 @ bs)) (s_p ?i) cmd = Some (chn_stream self 8192 (enc8 cmd @ bs))" .
  have "(1 :: int) OR 2 = 3" by simp
  with xrdp_channel_send_law [OF ok ch, of "enc8 cmd @ bs" cb 8192 "1 + int (length bs)" 3] len show ?thesis
    by (simp add: dvc_request_def w) (simp add: s_mark_end_def)
qed

lemma channel_room: "length bs + 100 \<le> 16384 \<Longrightarrow> m \<le> 4 \<Longrightarrow> room (chn_stream self 8192 bs) m"
  "room (xrdp_channel_init self (init_stream make_stream 8192)) 1"
  using sec_overhead_range [of "chn_level self"] by (auto simp: room_def channel_init_sel)

lemma chn_room_data: "length bs + length d + 100 \<le> 16384 \<Longrightarrow> room (chn_stream self 8192 bs) (int (length d))"
  using sec_overhead_range [of "chn_level self"] by (auto simp: room_def channel_init_sel)

lemma dvc_sent_code: "chn_sent cr self chan pdu (r, self') \<Longrightarrow> chn_sent cr self chan pdu (if r \<noteq> 0 then 1 else 0, self')"
  by (auto simp: chn_sent_def)

lemma drdynvc_data_law:
  assumes ok: "crypto_ok cr dual" and ch: "chn_open self (drdynvc_channel_id self) chan"
    and id: "0 \<le> chan_id" "chan_id \<le> 255" and st: "dv_status (drdynvcs self ! nat chan_id) = XRDP_DRDYNVC_STATUS_OPEN" and len: "length data \<le> 1590"
  shows "wp (xrdp_channel_drdynvc_data cr cb self chan_id data) (dvc_sent cr self chan (enc8 (0x30 OR code124 chan_id) @ enc124 chan_id @ data))"
proof -
  have rooms: "room (chn_stream self 8192 (enc8 0)) 4" "room (chn_stream self 8192 (enc8 0 @ enc124 chan_id)) (int (length data))"
    using enc124_length [of chan_id] len by (auto intro!: channel_room chn_room_data)
  from dvc_request_law [OF ok ch, of "enc124 chan_id @ data" cb "0x30 OR code124 chan_id"] enc124_length [of chan_id] len
  obtain r self' where "dvc_request cr cb self (chn_stream self 8192 (enc8 0 @ enc124 chan_id @ data)) (s_p (xrdp_channel_init self (init_stream make_stream 8192)))
       (0x30 OR code124 chan_id) = Some (r, self')"
    "dvc_sent cr self chan (enc8 (0x30 OR code124 chan_id) @ enc124 chan_id @ data) (r, self')" by (auto simp: wp_exists)
  with dvc_sent_code [OF this(2)] id st len rooms channel_room(2) [of self] show ?thesis
    by (simp add: xrdp_channel_drdynvc_data_def out_emit insert_uint_124)
qed

lemma drdynvc_data_first_law:
  assumes ok: "crypto_ok cr dual" and ch: "chn_open self (drdynvc_channel_id self) chan"
    and id: "0 \<le> chan_id" "chan_id \<le> 255" and st: "dv_status (drdynvcs self ! nat chan_id) = XRDP_DRDYNVC_STATUS_OPEN" and len: "length data \<le> 1590"
  shows "wp (xrdp_channel_drdynvc_data_first cr cb self chan_id data tot)
     (dvc_sent cr self chan (enc8 ((0x20 OR push_bit 2 (code124 tot)) OR code124 chan_id) @ enc124 chan_id @ enc124 tot @ data))"
proof -
  let ?cmd = "(0x20 OR push_bit 2 (code124 tot)) OR code124 chan_id"
  have rooms: "room (chn_stream self 8192 (enc8 0)) 4" "room (chn_stream self 8192 (enc8 0 @ enc124 chan_id)) 4"
    "room (chn_stream self 8192 (enc8 0 @ enc124 chan_id @ enc124 tot)) (int (length data))"
    using enc124_length [of chan_id] enc124_length [of tot] len by (auto intro!: channel_room chn_room_data)
  from dvc_request_law [OF ok ch, of "enc124 chan_id @ enc124 tot @ data" cb ?cmd] enc124_length [of chan_id] enc124_length [of tot] len
  obtain r self' where "dvc_request cr cb self (chn_stream self 8192 (enc8 0 @ enc124 chan_id @ enc124 tot @ data)) (s_p (xrdp_channel_init self (init_stream make_stream 8192)))
       ?cmd = Some (r, self')"
    "dvc_sent cr self chan (enc8 ?cmd @ enc124 chan_id @ enc124 tot @ data) (r, self')" by (auto simp: wp_exists)
  with dvc_sent_code [OF this(2)] id st len rooms channel_room(2) [of self] show ?thesis
    by (simp add: xrdp_channel_drdynvc_data_first_def out_emit insert_uint_124)
qed

lemma drdynvc_close_law:
  assumes ok: "crypto_ok cr dual" and ch: "chn_open self (drdynvc_channel_id self) chan" and id: "0 \<le> chan_id" "chan_id \<le> 255"
    and st: "dv_status (drdynvcs self ! nat chan_id) \<in> {XRDP_DRDYNVC_STATUS_OPEN, XRDP_DRDYNVC_STATUS_OPEN_SENT}"
  shows "\<exists>r self'. xrdp_channel_drdynvc_close cr cb self chan_id
       = Some (r, if r = 0 then set_status self' chan_id XRDP_DRDYNVC_STATUS_CLOSE_SENT else self')
     \<and> dvc_sent cr self chan (enc8 (0x40 OR code124 chan_id) @ enc124 chan_id) (r, self')"
proof -
  have rooms: "room (chn_stream self 8192 (enc8 0)) 4" by (auto intro!: channel_room)
  from dvc_request_law [OF ok ch, of "enc124 chan_id" cb "0x40 OR code124 chan_id"] enc124_length [of chan_id]
  obtain r self' where "dvc_request cr cb self (chn_stream self 8192 (enc8 0 @ enc124 chan_id)) (s_p (xrdp_channel_init self (init_stream make_stream 8192)))
       (0x40 OR code124 chan_id) = Some (r, self')"
    "dvc_sent cr self chan (enc8 (0x40 OR code124 chan_id) @ enc124 chan_id) (r, self')" by (auto simp: wp_exists)
  with dvc_sent_code [OF this(2)] id st rooms channel_room(2) [of self] show ?thesis
    by (intro exI [of _ "if r \<noteq> 0 then 1 else 0"] exI [of _ self']) (auto simp: xrdp_channel_drdynvc_close_def out_emit insert_uint_124)
qed

text \<open>The search for a number finds the smallest one that is closed.\<close>

lemma free_chan_id_Some:
  "free_chan_id l n = Some k \<Longrightarrow> n \<le> 255 \<Longrightarrow>
     n \<le> k \<and> k \<le> 255 \<and> dv_status (l ! k) = XRDP_DRDYNVC_STATUS_CLOSED \<and> (\<forall>i. n \<le> i \<and> i < k \<longrightarrow> dv_status (l ! i) \<noteq> XRDP_DRDYNVC_STATUS_CLOSED)"
proof (induction l n rule: free_chan_id.induct)
  case (1 l n)
  show ?case
  proof (cases "dv_status (l ! n) = 0")
    case True
    with 1 show ?thesis by (auto simp: free_chan_id.simps [of l n])
  next
    case False
    with 1 have k: "n + 1 \<le> k \<and> k \<le> 255 \<and> dv_status (l ! k) = 0 \<and> (\<forall>i. n + 1 \<le> i \<and> i < k \<longrightarrow> dv_status (l ! i) \<noteq> 0)"
      by (auto simp: free_chan_id.simps [of l n] split: if_splits)
    have "dv_status (l ! i) \<noteq> 0" if "n \<le> i" "i < k" for i using k False that by (cases "i = n") auto
    with k show ?thesis by auto
  qed
qed

lemma free_chan_id_None:
  "free_chan_id l n = None \<Longrightarrow> n \<le> i \<Longrightarrow> i \<le> 255 \<Longrightarrow> dv_status (l ! i) \<noteq> XRDP_DRDYNVC_STATUS_CLOSED"
proof (induction l n arbitrary: i rule: free_chan_id.induct)
  case (1 l n)
  then show ?case by (cases "i = n") (auto simp: free_chan_id.simps [of l n] split: if_splits)
qed

text \<open>Opening a dynamic channel gives it the smallest number from 1 to 255 that is closed, sends exactly the
  open request with this number and the name, and then registers the procedures there with the status \<open>OPEN_SENT\<close>;
  every other dynamic channel keeps its state. When the request cannot be sent, or all numbers are in use, it fails
  and changes no dynamic channel; in the second case nothing is sent.\<close>

theorem dvc_open_allocates:
  assumes "crypto_ok cr dual" and "chn_open self (drdynvc_channel_id self) chan" and "length name \<le> 8000" and "length (drdynvcs self) = 256"
  shows "case free_chan_id (drdynvcs self) 1 of
     None \<Rightarrow> xrdp_channel_drdynvc_open cr cb self name procs = Some (1, None, self) \<and> (\<forall>i\<in>{1..255}. dv_status (drdynvcs self ! i) \<noteq> XRDP_DRDYNVC_STATUS_CLOSED)
   | Some n \<Rightarrow> n \<in> {1..255} \<and> dv_status (drdynvcs self ! n) = XRDP_DRDYNVC_STATUS_CLOSED
       \<and> (\<forall>i\<in>{1..<n}. dv_status (drdynvcs self ! i) \<noteq> XRDP_DRDYNVC_STATUS_CLOSED)
       \<and> (\<exists>r self'. dvc_sent cr self chan (enc8 0x10 @ enc8 (int n) @ name @ [0]) (r, self')
            \<and> xrdp_channel_drdynvc_open cr cb self name procs
              = Some (if r = 0 then (0, Some (int n), self'\<lparr>drdynvcs := (drdynvcs self)[n := procs\<lparr>dv_status := XRDP_DRDYNVC_STATUS_OPEN_SENT\<rparr>]\<rparr>)
                      else (1, None, self')))"
proof (cases "free_chan_id (drdynvcs self) 1")
  case None
  with free_chan_id_None [OF None] channel_room(2) [of self] show ?thesis by (simp add: xrdp_channel_drdynvc_open_def out_emit)
next
  case (Some n)
  from free_chan_id_Some [OF Some] have n: "1 \<le> n" "n \<le> 255" "dv_status (drdynvcs self ! n) = 0" "\<forall>i\<in>{1..<n}. dv_status (drdynvcs self ! i) \<noteq> 0" by auto
  have code: "code124 (int n) = 0" "enc124 (int n) = enc8 (int n)" using n by (simp_all add: code124_def enc124_def u32_def)
  have rooms: "room (chn_stream self 8192 (enc8 0)) 4" "room (chn_stream self 8192 (enc8 0 @ enc8 (int n))) (int (length (name @ [0])))"
    by (rule channel_room; simp) (rule chn_room_data, use assms(3) in simp)
  from dvc_request_law [OF assms(1,2), of "enc8 (int n) @ name @ [0]" cb "0x10"] assms(3)
  obtain r self' where req: "dvc_request cr cb self (chn_stream self 8192 (enc8 0 @ enc8 (int n) @ name @ [0])) (s_p (xrdp_channel_init self (init_stream make_stream 8192)))
       0x10 = Some (r, self')"
    "dvc_sent cr self chan (enc8 0x10 @ enc8 (int n) @ name @ [0]) (r, self')" by (auto simp: wp_exists)
  have same: "drdynvcs self' = drdynvcs self" "r = 0 \<or> r = 1" using req(2) by (auto simp: chn_sent_def)
  have "xrdp_channel_drdynvc_open cr cb self name procs
      = Some (if r = 0 then (0, Some (int n), self'\<lparr>drdynvcs := (drdynvcs self)[n := procs\<lparr>dv_status := XRDP_DRDYNVC_STATUS_OPEN_SENT\<rparr>]\<rparr>) else (1, None, self'))"
    using Some rooms channel_room(2) [of self] req(1) same by (simp add: xrdp_channel_drdynvc_open_def out_emit insert_uint_124 code)
  with Some n req(2) show ?thesis by auto
qed

subsection \<open>Received packets of dynamic channels\<close>

lemma u32_range': "0 \<le> u32 v" "u32 v < 4294967296" "u32 (u32 v) = u32 v"
  by (simp_all add: u32_def)

lemma read32_rest:
  assumes "rest_is s (enc32_le v @ bs)"
  shows "in_uint32_le s = Some (u32 v, in_uint8s s 4) \<and> rest_is (in_uint8s s 4) bs \<and> s_check_rem s 4"
  using rest_is_head [OF assms] by (auto simp: in_pending)

lemma dvc_uint_124_law:
  assumes "rest_is s (enc124 v @ bs)"
  obtains s' where "dvc_uint_124 s (code124 v) = Some (0, u32 v, s')" "rest_is s' bs"
proof -
  consider "u32 v \<le> 255" | "255 < u32 v" "u32 v \<le> 65535" | "65535 < u32 v" by linarith
  then have "\<exists>s'. dvc_uint_124 s (code124 v) = Some (0, u32 v, s') \<and> rest_is s' bs"
  proof cases
    case 1
    with read8_rest [of s "u32 v" bs] assms u32_range' [of v] show ?thesis by (simp add: enc124_def code124_def dvc_uint_124_def)
  next
    case 2
    with read16_rest [of s "u32 v" bs] assms u32_range' [of v] show ?thesis by (simp add: enc124_def code124_def dvc_uint_124_def)
  next
    case 3
    with read32_rest [of s "u32 v" bs] assms u32_range' [of v] show ?thesis by (simp add: enc124_def code124_def dvc_uint_124_def)
  qed
  then show thesis using that by blast
qed

lemma rest_bytes_law: "rest_is s bs \<Longrightarrow> rest_bytes s = Some bs \<and> s_end s - s_p s = int (length bs)"
  using in_uint8a_pending [of s bs] rest_is_pending(1) [of s bs "[]"] by (simp add: rest_bytes_def rest_is_def)

lemma code124_cases: "code124 v = 0 \<or> code124 v = 1 \<or> code124 v = 2"
  by (simp add: code124_def)

lemma dvc_cmd_fields:
  fixes v w :: int
  defines "cmd \<equiv> (0x20 OR push_bit 2 (code124 w)) OR code124 v"
  shows "cmd AND 0xf0 = 0x20" "cmd AND 3 = code124 v" "drop_bit 2 cmd AND 3 = code124 w" "0 \<le> cmd" "cmd < 256"
  unfolding cmd_def using code124_cases [of v] code124_cases [of w] by (elim disjE; simp)+

lemma dvc_data_cmd_fields:
  fixes v :: int
  assumes "c \<in> {0x10, 0x30, 0x40}"
  shows "(c OR code124 v) AND 0xf0 = c" "(c OR code124 v) AND 3 = code124 v" "0 \<le> c OR code124 v" "c OR code124 v < 256"
  using code124_cases [of v] assms by auto

text \<open>A packet in one piece on the channel \<open>drdynvc\<close>.\<close>

lemma process_single:
  assumes s: "rest_is s (channel_pdu tot 3 (enc8 cmd @ bs))" and cmd: "0 \<le> cmd" "cmd < 256"
  obtains s' where "xrdp_channel_process_drdynvc self s = dvc_command self cmd s'" "rest_is s' bs"
proof -
  have a: "in_uint32_le s = Some (u32 tot, in_uint8s s 4)" "rest_is (in_uint8s s 4) (enc32_le 3 @ enc8 cmd @ bs)"
    using read32_rest [of s tot] s by (auto simp: channel_pdu_def)
  have b: "in_uint32_le (in_uint8s s 4) = Some (3, in_uint8s s 8)" "rest_is (in_uint8s s 8) (enc8 cmd @ bs)"
    using read32_rest [OF a(2)] by (auto simp: u32_def)
  have c: "in_uint8 (in_uint8s s 8) = Some (cmd, in_uint8s s 9)" "rest_is (in_uint8s s 9) bs"
    using read8_rest [OF b(2) cmd] by auto
  have "s_check_rem s 8" by (rule rest_is_rem [OF s]) (simp add: channel_pdu_def)
  then show thesis using that [OF _ c(2)] a(1) b(1) c(1) by (simp add: xrdp_channel_process_drdynvc_def)
qed

definition dvc_channel :: "'k xrdp_channel \<Rightarrow> int \<Rightarrow> bool" where
  "dvc_channel self chan \<longleftrightarrow> drdynvc_channel_id self = chan - MCS_GLOBAL_CHANNEL - 1
     \<and> (\<exists>channel. xrdp_channel_get_item self (drdynvc_channel_id self) = Some channel \<and> ch_disabled channel = 0)"

lemma process_dvc: "dvc_channel self chan \<Longrightarrow> xrdp_channel_process hc self s chan = xrdp_channel_process_drdynvc self s"
  by (auto simp: dvc_channel_def xrdp_channel_process_def)

text \<open>C22. Both ends of a dynamic channel speak the same format: at every security level and for every number
  and length, the frame that \<open>xrdp_channel_drdynvc_data\<close> or \<open>xrdp_channel_drdynvc_data_first\<close> sends carries a packet
  which \<open>xrdp_channel_process\<close> of a peer hands, with number, total length and data unchanged, to the procedure
  registered for the channel.\<close>

theorem dvc_data_roundtrip:
  assumes "crypto_ok cr dual" and "chn_open self (drdynvc_channel_id self) chan"
    and "0 \<le> cid" "cid \<le> 255" "dv_status (drdynvcs self ! nat cid) = XRDP_DRDYNVC_STATUS_OPEN" "length data \<le> 1590"
    and "dvc_channel peer chan" "dv_data (drdynvcs peer ! nat cid) = Some p" "dv_data_first (drdynvcs peer ! nat cid) = Some q"
  shows "\<exists>packet first. wp (xrdp_channel_drdynvc_data cr cb self cid data) (chn_sent cr self chan packet)
     \<and> wp (xrdp_channel_drdynvc_data_first cr cb self cid data tot) (chn_sent cr self chan first)
     \<and> (\<forall>s. rest_is s packet \<longrightarrow> xrdp_channel_process hc peer s chan = Some (Upcall (Data p cid (int (length data)) data), peer))
     \<and> (\<forall>s. rest_is s first \<longrightarrow> xrdp_channel_process hc peer s chan = Some (Upcall (Data_First q cid (int (length data)) data (s32 tot)), peer))"
proof -
  have cid: "u32 cid = cid" using assms(3,4) by (simp add: c_int_simps)
  let ?d = "enc8 (0x30 OR code124 cid) @ enc124 cid @ data"
  let ?cmd = "(0x20 OR push_bit 2 (code124 tot)) OR code124 cid" let ?f = "enc8 ?cmd @ enc124 cid @ enc124 tot @ data"
  have data: "xrdp_channel_process hc peer s chan = Some (Upcall (Data p cid (int (length data)) data), peer)"
    if s: "rest_is s (channel_pdu (int (length ?d)) 3 ?d)" for s
  proof -
    from process_single [OF s] dvc_data_cmd_fields [of "0x30" cid] obtain s1 where
      s1: "xrdp_channel_process_drdynvc peer s = dvc_command peer (0x30 OR code124 cid) s1" "rest_is s1 (enc124 cid @ data)" by auto
    from dvc_uint_124_law [OF s1(2)] obtain s2 where s2: "dvc_uint_124 s1 (code124 cid) = Some (0, cid, s2)" "rest_is s2 data"
      unfolding cid by blast
    from rest_bytes_law [OF s2(2)] s1(1) s2(1) dvc_data_cmd_fields [of "0x30" cid] assms(4,8) process_dvc [OF assms(7)] show ?thesis
      by (simp add: dvc_command_def drdynvc_process_data_def drdynvc_get_chan_id_def Let_def)
  qed
  have first: "xrdp_channel_process hc peer s chan = Some (Upcall (Data_First q cid (int (length data)) data (s32 tot)), peer)"
    if s: "rest_is s (channel_pdu (int (length ?f)) 3 ?f)" for s
  proof -
    from process_single [OF s] dvc_cmd_fields [of tot cid] obtain s1 where
      s1: "xrdp_channel_process_drdynvc peer s = dvc_command peer ?cmd s1" "rest_is s1 (enc124 cid @ enc124 tot @ data)" by auto
    from dvc_uint_124_law [OF s1(2)] obtain s2 where s2: "dvc_uint_124 s1 (code124 cid) = Some (0, cid, s2)" "rest_is s2 (enc124 tot @ data)"
      unfolding cid by blast
    from dvc_uint_124_law [OF s2(2)] obtain s3 where s3: "dvc_uint_124 s2 (code124 tot) = Some (0, u32 tot, s3)" "rest_is s3 data" by blast
    have "s32 (u32 tot) = s32 tot" by (simp add: s32_def u32_def mod_add_left_eq)
    with rest_bytes_law [OF s3(2)] s1(1) s2(1) s3(1) dvc_cmd_fields [of tot cid] assms(4,9) process_dvc [OF assms(7)] show ?thesis
      by (simp add: dvc_command_def drdynvc_process_data_first_def drdynvc_get_chan_id_def Let_def)
  qed
  from drdynvc_data_law [OF assms(1-6)] drdynvc_data_first_law [OF assms(1-6)] data first show ?thesis
    by (intro exI [of _ "channel_pdu (int (length ?d)) 3 ?d"] exI [of _ "channel_pdu (int (length ?f)) 3 ?f"]) blast
qed

subsection \<open>The states of the channel layer\<close>

text \<open>Every state the layer can reach: by packets of the client, by the requests of the window manager, and by whatever
  the layers below do to the connection in between.\<close>

inductive chn_run :: "'k crypto \<Rightarrow> 'k xrdp_channel \<Rightarrow> bool" for cr where
  created: "chn_run cr (xrdp_channel_create sec)"
| below: "chn_run cr self \<Longrightarrow> chn_run cr (self\<lparr>chn_sec := sec\<rparr>)"
| packet: "chn_run cr self \<Longrightarrow> xrdp_channel_process hc self s chan = Some (out, self') \<Longrightarrow> chn_run cr self'"
| start: "chn_run cr self \<Longrightarrow> xrdp_channel_drdynvc_start cr cb self = Some (r, self') \<Longrightarrow> chn_run cr self'"
| opened: "chn_run cr self \<Longrightarrow> xrdp_channel_drdynvc_open cr cb self name procs = Some (r, cid, self') \<Longrightarrow> chn_run cr self'"
| closed: "chn_run cr self \<Longrightarrow> xrdp_channel_drdynvc_close cr cb self c = Some (r, self') \<Longrightarrow> chn_run cr self'"
| data: "chn_run cr self \<Longrightarrow> xrdp_channel_drdynvc_data cr cb self c d = Some (r, self') \<Longrightarrow> chn_run cr self'"
| data_first: "chn_run cr self \<Longrightarrow> xrdp_channel_drdynvc_data_first cr cb self c d tot = Some (r, self') \<Longrightarrow> chn_run cr self'"
| sent: "chn_run cr self \<Longrightarrow> libxrdp_send_to_channel cr cb self c d tot fl = Some (r, self') \<Longrightarrow> chn_run cr self'"
| disabled: "chn_run cr self \<Longrightarrow> libxrdp_disable_channel self c dis = (r, self') \<Longrightarrow> chn_run cr self'"

text \<open>256 dynamic channels, each in one of the four states, number 0 without procedures; nothing is written behind
  the position of the reassembly stream.\<close>

definition no_procs :: "xrdp_drdynvc \<Rightarrow> bool" where
  "no_procs d \<longleftrightarrow> dv_open_response d = None \<and> dv_close_response d = None \<and> dv_data_first d = None \<and> dv_data d = None"

definition frag_ok :: "stream option \<Rightarrow> bool" where
  "frag_ok ls \<longleftrightarrow> (case ls of None \<Rightarrow> True | Some ls \<Rightarrow> 0 \<le> s_p ls \<and> (\<forall>i \<ge> s_p ls. s_data ls i = None))"

definition dvcs_ok :: "xrdp_drdynvc list \<Rightarrow> bool" where
  "dvcs_ok ds \<longleftrightarrow> length ds = 256 \<and> (\<forall>d\<in>set ds. dv_status d \<in> {0, 1, 2, 3}) \<and> no_procs (ds ! 0)"

definition chn_ok :: "'k xrdp_channel \<Rightarrow> bool" where
  "chn_ok self \<longleftrightarrow> dvcs_ok (drdynvcs self) \<and> frag_ok (chn_s self)"

lemma dvcs_ok_update:
  assumes "dvcs_ok ds" "dv_status d \<in> {0, 1, 2, 3}" "n = 0 \<Longrightarrow> no_procs d"
  shows "dvcs_ok (ds[n := d])"
proof -
  have "ds \<noteq> []" using assms(1) by (auto simp: dvcs_ok_def)
  with assms show ?thesis
    using set_update_subset_insert [of ds n d] by (cases "n = 0") (auto simp: dvcs_ok_def)
qed

lemma dvcs_ok_status: "dvcs_ok ds \<Longrightarrow> st \<in> {0, 1, 2, 3} \<Longrightarrow> dvcs_ok (ds[n := (ds ! n)\<lparr>dv_status := st\<rparr>])"
  by (rule dvcs_ok_update) (auto simp: dvcs_ok_def no_procs_def)

lemma set_status_ok: "chn_ok self \<Longrightarrow> st \<in> {0, 1, 2, 3} \<Longrightarrow> chn_ok (set_status self n st)"
  using dvcs_ok_status by (auto simp: chn_ok_def set_status_def)

lemma state_ok: "chn_ok (self\<lparr>drdynvc_state := v\<rparr>) \<longleftrightarrow> chn_ok self" "chn_ok (self\<lparr>chn_sec := sec\<rparr>) \<longleftrightarrow> chn_ok self"
  "chn_ok (self\<lparr>drdynvc_channel_id := c\<rparr>) \<longleftrightarrow> chn_ok self"
  by (simp_all add: chn_ok_def)

lemma frag_ok_append: "frag_ok (Some ls) \<Longrightarrow> out_uint8p ls bs = Some ls' \<Longrightarrow> frag_ok (Some ls')"
  by (auto simp: frag_ok_def out_uint8p_emit write_bytes_above split: if_splits)

lemma dvc_append_ok: "chn_ok self \<Longrightarrow> dvc_append self s = Some (self', ls, s') \<Longrightarrow> chn_ok self' \<and> frag_ok (Some ls)"
  by (auto simp: dvc_append_def chn_ok_def bind_eq_Some Let_def dest: frag_ok_append)

lemma dvc_command_ok:
  assumes "chn_ok self" "dvc_command self cmd s = Some (out, self')"
  shows "chn_ok self'"
  using assms
  by (auto simp: dvc_command_def drdynvc_process_capability_response_def drdynvc_process_open_channel_response_def
      drdynvc_process_close_channel_response_def drdynvc_process_data_first_def drdynvc_process_data_def Let_def bind_eq_Some
      set_status_ok state_ok split: if_splits option.splits)

lemma fragment_unread: "frag_ok (Some ls) \<Longrightarrow> in_uint8 ls = None"
  by (simp add: frag_ok_def in_uint8_def rd8_def)

lemma process_drdynvc_ok:
  assumes ok: "chn_ok self" and p: "xrdp_channel_process_drdynvc self s = Some (out, self')"
  shows "chn_ok self'"
proof (cases "s_check_rem s 8")
  case False
  with p ok show ?thesis by (simp add: xrdp_channel_process_drdynvc_def)
next
  case True
  with p obtain tot s1 flags s2 where s: "in_uint32_le s = Some (tot, s1)" "in_uint32_le s1 = Some (flags, s2)"
    by (auto simp: xrdp_channel_process_drdynvc_def bind_eq_Some)
  have new: "chn_ok (self\<lparr>chn_s := Some (init_stream make_stream v)\<rparr>)" for v
    using ok by (simp add: chn_ok_def frag_ok_def init_stream_def make_stream_def Let_def)
  consider "flags AND 3 = 0" | "flags AND 3 = 1" | "flags AND 3 = 2" | "flags AND 3 \<noteq> 0" "flags AND 3 \<noteq> 1" "flags AND 3 \<noteq> 2" by blast
  then show ?thesis
  proof cases
    case 1
    with p True s dvc_append_ok [OF ok] show ?thesis by (auto simp: xrdp_channel_process_drdynvc_def bind_eq_Some)
  next
    case 2
    with p True s dvc_append_ok [OF new] show ?thesis by (auto simp: xrdp_channel_process_drdynvc_def bind_eq_Some)
  next
    case 3
    with p True s obtain self1 ls s3 where "dvc_append self s2 = Some (self1, ls, s3)" "in_uint8 ls \<noteq> None"
      by (auto simp: xrdp_channel_process_drdynvc_def bind_eq_Some)
    with dvc_append_ok [OF ok this(1)] fragment_unread show ?thesis by auto
  next
    case 4
    with p True s dvc_command_ok [OF ok] show ?thesis by (auto simp: xrdp_channel_process_drdynvc_def bind_eq_Some)
  qed
qed

lemma process_ok:
  assumes "chn_ok self" "xrdp_channel_process hc self s chan = Some (out, self')"
  shows "chn_ok self'"
  using assms process_drdynvc_ok [OF assms(1)]
  by (auto simp: xrdp_channel_process_def Let_def bind_eq_Some split: option.splits if_splits)

lemma send_ok: "xrdp_channel_send cr cb self s c tot fl = Some (r, self') \<Longrightarrow> \<exists>sec. self' = self\<lparr>chn_sec := sec\<rparr>"
proof -
  have "\<exists>sec. x = x\<lparr>chn_sec := sec\<rparr>" for x :: "'a xrdp_channel" by (rule exI [of _ "chn_sec x"]) simp
  then show "xrdp_channel_send cr cb self s c tot fl = Some (r, self') \<Longrightarrow> \<exists>sec. self' = self\<lparr>chn_sec := sec\<rparr>"
    by (auto simp: xrdp_channel_send_def Let_def bind_eq_Some split: option.splits if_splits)
qed

lemma request_ok: "chn_ok self \<Longrightarrow> xrdp_channel_send cr cb self s c tot fl = Some (r, self') \<Longrightarrow> chn_ok self'"
  "chn_ok self \<Longrightarrow> dvc_request cr cb self s p cmd = Some (r, self') \<Longrightarrow> chn_ok self'"
  by (auto simp: dvc_request_def bind_eq_Some state_ok Let_def dest!: send_ok)

lemma start_ok: "chn_ok self \<Longrightarrow> xrdp_channel_drdynvc_start cr cb self = Some (r, self') \<Longrightarrow> chn_ok self'"
  by (auto simp: xrdp_channel_drdynvc_start_def xrdp_channel_drdynvc_send_capability_request_def Let_def bind_eq_Some state_ok
      split: option.splits dest!: send_ok)

lemma open_ok:
  assumes ok: "chn_ok self" and run: "xrdp_channel_drdynvc_open cr cb self name procs = Some (r, cid, self')"
  shows "chn_ok self'"
proof (cases "free_chan_id (drdynvcs self) 1")
  case None
  with ok run show ?thesis by (auto simp: xrdp_channel_drdynvc_open_def bind_eq_Some Let_def)
next
  case (Some n)
  from free_chan_id_Some [OF Some] have "n \<noteq> 0" by auto
  with ok run Some show ?thesis
    by (auto simp: xrdp_channel_drdynvc_open_def bind_eq_Some Let_def dest!: request_ok(2) [OF ok] split: if_splits)
      (simp_all add: chn_ok_def dvcs_ok_update)
qed

lemma other_ok:
  "chn_ok self \<Longrightarrow> xrdp_channel_drdynvc_close cr cb self c = Some (r, self') \<Longrightarrow> chn_ok self'"
  "chn_ok self \<Longrightarrow> xrdp_channel_drdynvc_data cr cb self c d = Some (r, self') \<Longrightarrow> chn_ok self'"
  "chn_ok self \<Longrightarrow> xrdp_channel_drdynvc_data_first cr cb self c d tot = Some (r, self') \<Longrightarrow> chn_ok self'"
  "chn_ok self \<Longrightarrow> libxrdp_send_to_channel cr cb self c d tot fl = Some (r, self') \<Longrightarrow> chn_ok self'"
  "chn_ok self \<Longrightarrow> libxrdp_disable_channel self c dis = (r, self') \<Longrightarrow> chn_ok self'"
  by (auto simp: xrdp_channel_drdynvc_close_def xrdp_channel_drdynvc_data_def xrdp_channel_drdynvc_data_first_def libxrdp_send_to_channel_def
      libxrdp_disable_channel_def Let_def bind_eq_Some set_status_ok state_ok split: if_splits option.splits dest: request_ok)

lemma chn_run_ok: "chn_run cr self \<Longrightarrow> chn_ok self"
proof (induction rule: chn_run.induct)
  case (created sec)
  show ?case by (simp add: chn_ok_def xrdp_channel_create_def dvcs_ok_def no_procs_def frag_ok_def)
qed (auto simp: state_ok dest: process_ok start_ok open_ok other_ok)

text \<open>C23. Invariant of the channel layer: in every state reachable by packets of any client and requests of the
  window manager there are 256 dynamic channels, each closed, opening, open or closing, number 0 never
  has procedures, and nothing has been written behind the position of the reassembly stream.\<close>

theorem channel_layer_invariant:
  assumes "chn_run cr self"
  shows "length (drdynvcs self) = 256
     \<and> (\<forall>d\<in>set (drdynvcs self). dv_status d \<in> {XRDP_DRDYNVC_STATUS_CLOSED, XRDP_DRDYNVC_STATUS_OPEN_SENT, XRDP_DRDYNVC_STATUS_OPEN, XRDP_DRDYNVC_STATUS_CLOSE_SENT})
     \<and> no_procs (drdynvcs self ! 0) \<and> (\<forall>ls. chn_s self = Some ls \<longrightarrow> 0 \<le> s_p ls \<and> (\<forall>i \<ge> s_p ls. s_data ls i = None))"
  using chn_run_ok [OF assms] by (auto simp: chn_ok_def dvcs_ok_def frag_ok_def)

subsection \<open>Messages in several fragments\<close>

lemma process_fragment:
  assumes s: "rest_is s (channel_pdu tot flags bs)"
  shows "xrdp_channel_process_drdynvc self s
     = (let f = u32 flags AND 3; s = in_uint8s s 8 in
        if f = 0 then do { (self, _, s) \<leftarrow> dvc_append self s; Some (Return 0, self) }
        else if f = 1 then do {
          (self, _, s) \<leftarrow> dvc_append (self\<lparr>chn_s := Some (init_stream make_stream (s32 tot))\<rparr>) s;
          Some (Return 0, self) }
        else if f = 2 then do {
          (self, ls, s) \<leftarrow> dvc_append self s;
          (cmd, ls) \<leftarrow> in_uint8 ls;
          dvc_command (self\<lparr>chn_s := Some ls\<rparr>) cmd s }
        else do { (cmd, s) \<leftarrow> in_uint8 s; dvc_command self cmd s })" and "rest_is (in_uint8s s 8) bs"
proof -
  have a: "in_uint32_le s = Some (u32 tot, in_uint8s s 4)" "rest_is (in_uint8s s 4) (enc32_le flags @ bs)"
    using read32_rest [of s tot] s by (auto simp: channel_pdu_def)
  have b: "in_uint32_le (in_uint8s s 4) = Some (u32 flags, in_uint8s s 8)" "rest_is (in_uint8s s 8) bs"
    using read32_rest [OF a(2)] by auto
  have "s_check_rem s 8" by (rule rest_is_rem [OF s]) (simp add: channel_pdu_def)
  moreover have "s32 (u32 tot) = s32 tot" by (simp add: s32_def u32_def mod_add_left_eq)
  ultimately show "xrdp_channel_process_drdynvc self s
     = (let f = u32 flags AND 3; s = in_uint8s s 8 in
        if f = 0 then do { (self, _, s) \<leftarrow> dvc_append self s; Some (Return 0, self) }
        else if f = 1 then do {
          (self, _, s) \<leftarrow> dvc_append (self\<lparr>chn_s := Some (init_stream make_stream (s32 tot))\<rparr>) s;
          Some (Return 0, self) }
        else if f = 2 then do {
          (self, ls, s) \<leftarrow> dvc_append self s;
          (cmd, ls) \<leftarrow> in_uint8 ls;
          dvc_command (self\<lparr>chn_s := Some ls\<rparr>) cmd s }
        else do { (cmd, s) \<leftarrow> in_uint8 s; dvc_command self cmd s })" "rest_is (in_uint8s s 8) bs"
    using a(1) b by (simp_all add: xrdp_channel_process_drdynvc_def Let_def)
qed

text \<open>C38. Messages of dynamic channels that the client splits cannot be received, and splitting them is not safe. In
  every reachable state: processing the last of several fragments uses a byte behind the reassembled message, which
  nobody has written; a first fragment with more data than the announced total is written past the end of its
  block; and a continuation without a first fragment uses the null pointer.\<close>

theorem dvc_fragments_fault:
  assumes "chn_run cr self" and "dvc_channel self chan" and "rest_is s (channel_pdu tot flags bs)"
    and "u32 flags AND 3 = 2
       \<or> u32 flags AND 3 = 1 \<and> s32 tot < int (length bs) \<and> bs \<noteq> []
       \<or> u32 flags AND 3 = 0 \<and> chn_s self = None"
  shows "xrdp_channel_process hc self s chan = None"
proof -
  note p = process_fragment(1) [OF assms(3), of self] process_fragment(2) [OF assms(3)] and d = process_dvc [OF assms(2)]
  have ok: "chn_ok self" using chn_run_ok [OF assms(1)] .
  from assms(4) consider "u32 flags AND 3 = 2" | "u32 flags AND 3 = 1" "s32 tot < int (length bs)" "bs \<noteq> []" | "u32 flags AND 3 = 0" "chn_s self = None" by (elim disjE conjE) metis+
  then show ?thesis
  proof cases
    case 1
    have "in_uint8 ls = None" if "dvc_append self (in_uint8s s 8) = Some (self', ls, s')" for self' ls s'
      using dvc_append_ok [OF ok that] fragment_unread by blast
    with 1 show ?thesis by (cases "dvc_append self (in_uint8s s 8)") (auto simp: p(1) d Let_def)
  next
    case 2
    have r: "in_uint8a (in_uint8s s 8) (int (length bs)) = Some (bs, in_uint8s s (8 + int (length bs)))" "s_end s - (s_p s + 8) = int (length bs)"
      using in_uint8a_pending [of "in_uint8s s 8" bs] rest_is_pending(1) [of "in_uint8s s 8" bs "[]"] p(2) by (auto simp: rest_is_def)
    have "out_uint8p (init_stream make_stream (s32 tot)) bs = None"
      using 2 length_greater_0_conv [of bs] by (simp add: out_uint8p_def max_def)
    with 2 r show ?thesis by (simp add: p(1) d Let_def dvc_append_def)
  next
    case 3
    then show ?thesis by (simp add: p(1) d Let_def dvc_append_def)
  qed
qed

subsection \<open>Starting the dynamic channels, and examples\<close>

lemma drdynvc_start_law:
  assumes ok: "crypto_ok cr dual" and ch: "chn_open (self\<lparr>drdynvc_channel_id := c\<rparr>) c chan"
    and dci: "last_named ''drdynvc'' (channel_list (chn_mcs self)) = Some dci" "c = ch_chanid dci - MCS_GLOBAL_CHANNEL - 1"
  shows "\<exists>r self'. xrdp_channel_drdynvc_start cr cb self = Some (0, self')
     \<and> dvc_sent cr (self\<lparr>drdynvc_channel_id := c\<rparr>) chan (enc8 0x50 @ enc8 0 @ enc16_le 2 @ enc16_le 0 @ enc16_le 0 @ enc16_le 0 @ enc16_le 0) (r, self')"
proof -
  let ?self = "self\<lparr>drdynvc_channel_id := c\<rparr>" let ?bs = "enc8 0x50 @ enc8 0 @ enc16_le 2 @ enc16_le 0 @ enc16_le 0 @ enc16_le 0 @ enc16_le 0"
  have rooms: "room (chn_stream ?self 8192 bs) m" if "length bs \<le> 12" "m \<le> 4" for bs m by (rule channel_room) (use that in simp_all)
  from xrdp_channel_send_law [OF ok ch, of ?bs cb 8192 12 3] obtain r self' where
    "xrdp_channel_send cr cb ?self (s_mark_end (chn_stream ?self 8192 ?bs)) c 12 3 = Some (r, self')"
    "chn_sent cr ?self chan (channel_pdu 12 3 ?bs) (r, self')" by (auto simp: wp_exists)
  then show ?thesis using dci rooms channel_room(2) [of ?self]
    by (intro exI [of _ r] exI [of _ self'])
      (simp add: xrdp_channel_drdynvc_start_def xrdp_channel_drdynvc_send_capability_request_def out_emit s_mark_end_def)
qed

definition demo_channel :: "tx_event list \<Rightarrow> byte xrdp_channel" where
  "demo_channel tx = xrdp_channel_create (upd_mcs ((mcs_link [] tx)\<lparr>channel_list := [
     \<lparr>ch_name = c_text ''rdpsnd'', ch_flags = 0, ch_chanid = 1004, ch_disabled = 0\<rparr>,
     \<lparr>ch_name = c_text ''drdynvc'', ch_flags = 0, ch_chanid = 1005, ch_disabled = 0\<rparr>]\<rparr>) (demo_conn tx))"

text \<open>The same after the dynamic channels were started, and with channel 5 open.\<close>

definition demo_dvc :: "tx_event list \<Rightarrow> byte xrdp_channel" where
  "demo_dvc tx = (demo_channel tx)\<lparr>drdynvc_channel_id := 1\<rparr>"

definition demo_open :: "byte xrdp_channel" where
  "demo_open = (demo_dvc [])\<lparr>drdynvcs := (drdynvcs (demo_dvc []))[5 := \<lparr>dv_status = 2, dv_open_response = None, dv_close_response = None,
     dv_data_first = Some 71, dv_data = Some 72\<rparr>]\<rparr>"

lemma demo_sel:
  "chn_mcs (demo_channel tx) = (mcs_link [] tx)\<lparr>channel_list := [
     \<lparr>ch_name = c_text ''rdpsnd'', ch_flags = 0, ch_chanid = 1004, ch_disabled = 0\<rparr>,
     \<lparr>ch_name = c_text ''drdynvc'', ch_flags = 0, ch_chanid = 1005, ch_disabled = 0\<rparr>]\<rparr>"
  "chn_mcs (demo_dvc tx) = chn_mcs (demo_channel tx)" "chn_mcs demo_open = chn_mcs (demo_channel [])"
  "drdynvc_channel_id (demo_dvc tx) = 1" "drdynvc_channel_id demo_open = 1"
  "drdynvcs (demo_dvc tx) = drdynvcs (demo_channel tx)" "length (drdynvcs (demo_channel tx)) = 256"
  by (simp_all add: demo_channel_def demo_dvc_def demo_open_def xrdp_channel_create_def)

lemma demo_chn_open: "chn_open (demo_dvc tx) 1 1005" "chn_open demo_open 1 1005"
  "dvc_channel (demo_dvc tx) 1005" "dvc_channel demo_open 1005"
  by (simp_all add: chn_open_def dvc_channel_def xrdp_channel_get_item_def demo_sel)

lemma demo_dvc_run: "chn_run demo_crypto (demo_dvc tx)"
proof -
  let ?d = "demo_channel tx"
  have dci: "last_named ''drdynvc'' (channel_list (chn_mcs ?d)) = Some \<lparr>ch_name = c_text ''drdynvc'', ch_flags = 0, ch_chanid = 1005, ch_disabled = 0\<rparr>"
    unfolding demo_sel by code_simp
  have "chn_open (?d\<lparr>drdynvc_channel_id := 1\<rparr>) 1 1005" using demo_chn_open(1) [of tx] by (simp add: demo_dvc_def)
  from drdynvc_start_law [OF demo_crypto_ok this dci] obtain r self' where
    run: "xrdp_channel_drdynvc_start demo_crypto None ?d = Some (0, self')" "\<exists>sec. self' = (?d\<lparr>drdynvc_channel_id := 1\<rparr>)\<lparr>chn_sec := sec\<rparr>"
    by (auto simp: chn_sent_def)
  have "chn_run demo_crypto ?d" unfolding demo_channel_def by (rule chn_run.created)
  then have "chn_run demo_crypto (self'\<lparr>chn_sec := chn_sec ?d\<rparr>)" by (intro chn_run.below chn_run.start [OF _ run(1)])
  moreover have "self'\<lparr>chn_sec := chn_sec ?d\<rparr> = demo_dvc tx" using run(2) by (auto simp: demo_dvc_def)
  ultimately show ?thesis by simp
qed

theorem channel_data_sent_witness:
  "wp (libxrdp_send_to_channel demo_crypto None (demo_channel [Tx_Accept 200]) 0 [1, 2, 3] 3 3)
     (chn_sent demo_crypto (demo_channel [Tx_Accept 200]) 1004 (channel_pdu 3 3 [1, 2, 3]))"
  using channel_data_sent [OF demo_crypto_ok, where self = "demo_channel [Tx_Accept 200]" and data = "[1, 2, 3]" and channel_id = 0 and cb = None and tot = 3 and flags = 3]
  by (simp add: demo_sel xrdp_channel_get_item_def)

theorem dvc_open_allocates_witness:
  "\<exists>r self'. dvc_sent demo_crypto (demo_dvc []) 1005 (enc8 0x10 @ enc8 1 @ c_text ''ECHO'' @ [0]) (r, self')"
proof -
  have "free_chan_id (drdynvcs (demo_dvc [])) 1 = Some 1"
    by (subst free_chan_id.simps) (simp add: demo_sel, simp add: demo_channel_def xrdp_channel_create_def)
  with dvc_open_allocates [OF demo_crypto_ok, of "demo_dvc []" 1005 "c_text ''ECHO''" None undefined] show ?thesis
    by (auto simp: demo_chn_open demo_sel c_text_def)
qed

theorem dvc_data_roundtrip_witness:
  "\<exists>packet. wp (xrdp_channel_drdynvc_data demo_crypto None demo_open 5 [1, 2]) (chn_sent demo_crypto demo_open 1005 packet)
     \<and> (\<forall>s. rest_is s packet \<longrightarrow> xrdp_channel_process True demo_open s 1005 = Some (Upcall (Data 72 5 2 [1, 2]), demo_open))"
proof -
  have d: "drdynvcs demo_open ! 5 = \<lparr>dv_status = 2, dv_open_response = None, dv_close_response = None, dv_data_first = Some 71, dv_data = Some 72\<rparr>"
    by (simp add: demo_open_def demo_sel)
  show ?thesis
    using dvc_data_roundtrip [OF demo_crypto_ok, of demo_open 1005 5 "[1, 2]" demo_open 72 71 None 2 True] by (auto simp: d demo_chn_open demo_sel)
qed

theorem channel_layer_invariant_witness:
  "length (drdynvcs (demo_dvc [])) = 256 \<and> no_procs (drdynvcs (demo_dvc []) ! 0)"
  using channel_layer_invariant [OF demo_dvc_run [of "[]"]] by blast

theorem dvc_fragments_fault_witness:
  "xrdp_channel_process True (demo_dvc []) ((stream_of (channel_pdu 2 1 [0x30, 1, 2]))\<lparr>s_p := 0\<rparr>) 1005 = None"
proof -
  have "rest_is ((stream_of (channel_pdu 2 1 [0x30, 1, 2]))\<lparr>s_p := 0\<rparr>) (channel_pdu 2 1 [0x30, 1, 2])"
    by (simp add: rest_is_def stream_of_def s_mark_end_def bytes_at_write_bytes)
  from dvc_fragments_fault [OF demo_dvc_run demo_chn_open(3) this] show ?thesis by (simp add: u32_def s32_def)
qed

end
