(* ===== verification/Rdp_Laws.thy ===== *)
theory Rdp_Laws
  imports Rdp Mppc_Laws Channel_Laws
begin

text \<open>
  What the RDP layer promises: a fast-path update of any size leaves as fragments from which a client that
  decompresses and concatenates them gets the update back, and a data PDU leaves as one packet with the data, or
  its compressed form, behind the share-data header.
\<close>

subsection \<open>The connection below\<close>

lemma upd_sec_sel [simp]:
  "rdp_chan (upd_sec sec self) = (rdp_chan self)\<lparr>chn_sec := sec\<rparr>" "rdp_mppc (upd_sec sec self) = rdp_mppc self"
  "share_id (upd_sec sec self) = share_id self" "mcs_channel (upd_sec sec self) = mcs_channel self"
  "up_and_running (upd_sec sec self) = up_and_running self" "use_fast_path (upd_sec sec self) = use_fast_path self"
  "max_frag_bytes (upd_sec sec self) = max_frag_bytes self" "suppress_output (upd_sec sec self) = suppress_output self"
  by (simp_all add: upd_sec_def)

lemma mcs_trans_set [simp]: "mcs_trans (set_trans m tr) = tr" "set_trans (set_trans m tr) tr' = set_trans m tr'"
  "userid (set_trans m tr) = userid m"
  by (simp_all add: set_trans_def)

text \<open>The same layer on another transport, with other keys and another encoder.\<close>

definition relinked :: "'k xrdp_rdp \<Rightarrow> trans \<Rightarrow> 'k sec_keys \<Rightarrow> mppc_enc option \<Rightarrow> 'k xrdp_rdp" where
  "relinked self tr keys m =
     (upd_sec (upd_mcs (set_trans (mcs_layer (xs_sec (rdp_sec self))) tr) ((rdp_sec self)\<lparr>xs_keys := keys\<rparr>)) self)\<lparr>rdp_mppc := m\<rparr>"

lemma relinked_sel [simp]:
  "rdp_trans (relinked self tr keys m) = tr" "xs_keys (rdp_sec (relinked self tr keys m)) = keys"
  "rdp_level (relinked self tr keys m) = rdp_level self" "xs_logon (rdp_sec (relinked self tr keys m)) = xs_logon (rdp_sec self)"
  "rdp_mppc (relinked self tr keys m) = m" "relinked (relinked self tr keys m) tr' keys' m' = relinked self tr' keys' m'"
  "(relinked self tr keys m)\<lparr>rdp_mppc := m'\<rparr> = relinked self tr keys m'"
  by (simp_all add: relinked_def upd_mcs_def upd_sec_def)

subsection \<open>One fragment\<close>

definition fp_pdu :: "int \<Rightarrow> int \<Rightarrow> int \<Rightarrow> int \<Rightarrow> byte list \<Rightarrow> byte list" where
  "fp_pdu code frag cmp ctype data =
     enc8 (fp_update_header code frag cmp) @ (if cmp \<noteq> 0 then enc8 ctype else []) @ enc16_le (int (length data)) @ data"

definition fp_header_bytes :: "int \<Rightarrow> int" where
  "fp_header_bytes cmp = (if cmp \<noteq> 0 then 4 else 3)"

lemma length_fp_pdu: "int (length (fp_pdu code frag cmp ctype data)) = fp_header_bytes cmp + int (length data)"
  by (simp add: fp_pdu_def fp_header_bytes_def)

text \<open>A stream that waits for the header of a fragment.\<close>

definition frag_ready :: "int \<Rightarrow> int \<Rightarrow> stream \<Rightarrow> byte list \<Rightarrow> bool" where
  "frag_ready level cmp s data \<longleftrightarrow> sec_hdr s = 0 \<and> s_p s = xrdp_sec_get_fastpath_bytes level \<and>
     bytes_at (s_data s) (s_p s + fp_header_bytes cmp) data \<and> s_p s + fp_header_bytes cmp + int (length data) + 7 \<le> s_size s"

lemma fp_bytes_pos: "3 \<le> xrdp_sec_get_fastpath_bytes level" "xrdp_sec_get_fastpath_bytes level \<le> 15"
  by (simp_all add: xrdp_sec_get_fastpath_bytes_def)

definition quiet_fp :: "trans session_callback \<Rightarrow> bool" where
  "quiet_fp cb \<longleftrightarrow> (\<forall>call tr. xrdp_fastpath_session_callback cb call tr = tr)"

lemma send_fragment_law:
  assumes ok: "crypto_ok (env_crypto env) dual" and s: "frag_ready (rdp_level self) cmp s data" and len: "length data \<le> 16300"
    and wr: "writer_ok (rdp_trans self)" and quiet: "quiet_fp (env_fp_callback env)" and n: "n = fp_header_bytes cmp + int (length data)"
  shows "wp (send_fragment env self code frag cmp ctype n s) (\<lambda>(r, self', s'). (r = 0 \<or> r = 1) \<and>
     (\<exists>tr. self' = relinked self tr (fp_sent_keys (env_crypto env) (rdp_level self) (xs_keys (rdp_sec self)) (fp_pdu code frag cmp ctype data)) (rdp_mppc self)
       \<and> outgoing tr = outgoing (rdp_trans self)
           @ (if r = 0 then fp_frame (env_crypto env) (rdp_level self) (xs_keys (rdp_sec self)) (fp_pdu code frag cmp ctype data) else [])
       \<and> (r = 0 \<longrightarrow> writer_ok tr)) \<and>
     (\<forall>i \<ge> s_p s + n. s_data s' i = s_data s i))"
proof -
  let ?level = "rdp_level self" and ?keys = "xs_keys (rdp_sec self)" and ?cr = "env_crypto env" and ?pdu = "fp_pdu code frag cmp ctype data"
  define hb where "hb = enc8 (fp_update_header code frag cmp) @ (if cmp \<noteq> 0 then enc8 ctype else []) @ enc16_le (int (length data))"
  define s1 where "s1 = (emit s hb)\<lparr>s_end := s_p s + n\<rparr>"
  have hb: "int (length hb) = fp_header_bytes cmp" "?pdu = hb @ data" by (simp_all add: hb_def fp_header_bytes_def fp_pdu_def)
  have at: "bytes_at (write_bytes (s_data s) (s_p s) hb) (s_p s) (hb @ data)"
    unfolding bytes_at_append hb(1)
  proof
    have "bytes_at (s_data s) (s_p s + fp_header_bytes cmp) data" using s unfolding frag_ready_def by blast
    then show "bytes_at (write_bytes (s_data s) (s_p s) hb) (s_p s + fp_header_bytes cmp) data"
      by (rule bytes_at_cong) (simp add: hb(1) write_bytes_above)
  qed (rule bytes_at_write_bytes)
  have prep: "fp_prepared ?level s1 ?pdu"
    using s at n hb by (auto simp: fp_prepared_def s1_def frag_ready_def)
  have room: "0 \<le> s_p s" "s_p s + 4 \<le> s_size s" using s fp_bytes_pos(1) [of ?level] by (auto simp: frag_ready_def fp_header_bytes_def split: if_splits)
  have run: "send_fragment env self code frag cmp ctype n s = do {
     (r, keys, tr, s) \<leftarrow> xrdp_sec_send_fastpath ?cr (env_fp_callback env) ?level ?keys (rdp_trans self) s1;
     Some (r, relinked self tr keys (rdp_mppc self), s) }"
    using room n by (simp add: send_fragment_def out_emit room_def s1_def hb_def fp_header_bytes_def relinked_def Let_def upd_sec_def add.assoc)
  have len': "length (fp_frame ?cr ?level ?keys ?pdu) \<le> 16384"
    using fp_frame_length [OF ok, of ?level ?keys ?pdu] len fips_pad_props(1) [of ?pdu] length_fp_pdu [of code frag cmp ctype data] fp_bytes_pos(2) [of ?level]
    by (auto simp: fp_header_bytes_def split: if_splits)
  from hands_over [OF ok prep, of "env_fp_callback env" ?keys "rdp_trans self"] obtain sx fin where
    h: "xrdp_sec_send_fastpath ?cr (env_fp_callback env) ?level ?keys (rdp_trans self) s1
       = do { (error, tr) \<leftarrow> xrdp_fastpath_send (env_fp_callback env) (rdp_trans self) sx;
              Some (if error \<noteq> 0 then 1 else 0, fp_sent_keys ?cr ?level ?keys ?pdu, tr, fin) }"
    "stream_bytes sx = Some (fp_frame ?cr ?level ?keys ?pdu)" "\<forall>i \<ge> s_end s1. s_data fin i = s_data s1 i"
    unfolding fp_hands_over_def by blast
  have keep: "\<forall>i \<ge> s_p s + n. s_data fin i = s_data s i"
    using h(3) n hb(1) by (auto simp: s1_def write_bytes_above)
  from trans_write_copy_s_law [OF wr h(2) forward_ok_packet [OF len']] obtain r tr1 where
    "trans_write_copy_s (rdp_trans self) sx = Some (r, tr1)"
    "outgoing tr1 = outgoing (rdp_trans self) @ (if r = 0 then fp_frame ?cr ?level ?keys ?pdu else [])" "r = 0 \<or> r = 1" "r = 0 \<longrightarrow> writer_ok tr1"
    by (auto simp: wp_exists)
  then show ?thesis
    using keep quiet by (auto simp: run h(1) xrdp_fastpath_send_def quiet_fp_def)
qed


subsection \<open>The client's side\<close>

text \<open>
  A client takes the update code, the fragmentation flag and the compression flag out of the header, decompresses the
  data with its history when the header says that a compression byte is there, and collects what it gets.
\<close>

definition client_pdu :: "byte list \<Rightarrow> byte list \<Rightarrow> (int \<times> int \<times> byte list) \<times> byte list" where
  "client_pdu h pdu = (let b = uint (pdu ! 0) in
     if b div 64 = 0 then ((b mod 16, b div 16 mod 4, drop 3 pdu), h)
     else case mppc_receive h (uint (pdu ! 1), drop 4 pdu) of (x, h') \<Rightarrow> ((b mod 16, b div 16 mod 4, x), h'))"

lemma add_or: "0 \<le> a \<Longrightarrow> a < 2 ^ n \<Longrightarrow> 0 \<le> b \<Longrightarrow> a OR push_bit n b = a + 2 ^ n * (b :: int)"
proof -
  assume a: "0 \<le> a" "a < 2 ^ n"
  have "a AND push_bit n b = 0"
  proof (rule bit_eqI)
    fix k
    have "\<not> bit a k" if "n \<le> k"
    proof -
      have "(2 :: int) ^ n \<le> 2 ^ k" using that by (rule power_increasing) simp
      from order_less_le_trans [OF a(2) this] a(1) have "a div 2 ^ k = 0" by (intro div_pos_pos_trivial)
      then show ?thesis by (simp add: bit_iff_odd)
    qed
    then show "bit (a AND push_bit n b) k = bit (0 :: int) k" by (cases "k < n") (auto simp: bit_and_iff bit_push_bit_iff_int)
  qed
  with plus_and_or [of a "push_bit n b"] show ?thesis by (simp add: push_bit_eq_mult mult.commute)
qed

lemma fp_update_header_sum:
  assumes "0 \<le> f" "f < 4" "c = 0 \<or> c = 2"
  shows "fp_update_header code f c = code mod 16 + 16 * f + 64 * c"
proof -
  have code: "code AND 15 = code mod 16" using take_bit_eq_mask [of 4 code] by (simp add: take_bit_eq_mod mask_eq_exp_minus_1)
  have f: "f AND 3 = f" using take_bit_eq_mask [of 2 f] assms by (simp add: take_bit_eq_mod mask_eq_exp_minus_1)
  have c: "c AND 3 = c" using assms(3) by auto
  have "code mod 16 OR push_bit 4 f = code mod 16 + 16 * f" using add_or [of "code mod 16" 4 f] assms by simp
  moreover have "code mod 16 + 16 * f < 64" using pos_mod_bound [of 16 code] assms(2) by linarith
  moreover have "0 \<le> code mod 16 + 16 * f" using assms(1) by simp
  ultimately show ?thesis using add_or [of "code mod 16 + 16 * f" 6 c] assms(3) by (auto simp: fp_update_header_def code f c or.assoc [symmetric])
qed

lemma header_fields:
  assumes "0 \<le> f" "f < 4" "c = 0 \<or> c = 2" "b = uint (word_of_int (fp_update_header code f c) :: byte)"
  shows "b mod 16 = code mod 16" "b div 16 mod 4 = f" "b div 64 = c"
proof -
  have m: "0 \<le> code mod 16" "code mod 16 < 16" by simp_all
  have b: "b = code mod 16 + 16 * (f + 4 * c)"
    unfolding assms(4) fp_update_header_sum [OF assms(1-3)] uint_byte_of_int
  proof -
    have "code mod 16 + 16 * f + 64 * c < 256" "0 \<le> code mod 16 + 16 * f + 64 * c" using m assms(1-3) by linarith+
    then show "(code mod 16 + 16 * f + 64 * c) mod 256 = code mod 16 + 16 * (f + 4 * c)" by (simp add: mod_pos_pos_trivial)
  qed
  have d: "b div 16 = f + 4 * c" unfolding b using m by simp
  show "b mod 16 = code mod 16" unfolding b by (simp only: mod_mult_self2 mod_mod_trivial)
  show "b div 16 mod 4 = f" unfolding d using assms(1,2) by simp
  have "b div 64 = b div 16 div 4" using zdiv_zmult2_eq [of 4 b 16] by simp
  then show "b div 64 = c" unfolding d using assms(1,2) by simp
qed

lemma fp_pdu_fields:
  "fp_pdu code f c ctype x ! 0 = word_of_int (fp_update_header code f c)"
  "c \<noteq> 0 \<Longrightarrow> fp_pdu code f c ctype x ! 1 = word_of_int ctype"
  "drop (if c \<noteq> 0 then 4 else 3) (fp_pdu code f c ctype x) = x"
  by (simp_all add: fp_pdu_def enc8_def enc16_le_def)

lemma client_pdu_plain:
  assumes "0 \<le> f" "f < 4"
  shows "client_pdu h (fp_pdu code f 0 ctype x) = ((code mod 16, f, x), h)"
proof -
  have c: "(0 :: int) = 0 \<or> (0 :: int) = 2" by simp
  note hf = header_fields [OF assms c refl, of code]
  show ?thesis unfolding client_pdu_def Let_def fp_pdu_fields(1) hf using fp_pdu_fields(3) [of 0] by simp
qed

lemma client_pdu_bulk:
  assumes "0 \<le> f" "f < 4" "0 \<le> ctype" "ctype < 256"
  shows "client_pdu h (fp_pdu code f 2 ctype x) = (case mppc_receive h (ctype, x) of (y, h') \<Rightarrow> ((code mod 16, f, y), h'))"
proof -
  have c: "(2 :: int) = 0 \<or> (2 :: int) = 2" by simp
  note hf = header_fields [OF assms(1,2) c refl, of code]
  have t: "uint (fp_pdu code f 2 ctype x ! 1) = ctype" using fp_pdu_fields(2) [of 2 code f ctype x] assms(3,4) by (simp add: uint_byte_of_int)
  show ?thesis unfolding client_pdu_def Let_def t fp_pdu_fields(1) hf using fp_pdu_fields(3) [of 2] by simp
qed


subsection \<open>A round of the loop\<close>

definition chunk_size :: "int \<Rightarrow> nat" where
  "chunk_size cmp = nat (FASTPATH_FRAG_SIZE - fp_header_bytes cmp)"

lemma chunk_size_pos: "0 < chunk_size cmp" "chunk_size cmp \<le> 16300" "int (chunk_size cmp) = FASTPATH_FRAG_SIZE - fp_header_bytes cmp"
  by (simp_all add: chunk_size_def fp_header_bytes_def)

text \<open>The rest of an update waits in the stream, with room for its padding.\<close>

definition rest_ready :: "int \<Rightarrow> int \<Rightarrow> stream \<Rightarrow> byte list \<Rightarrow> bool" where
  "rest_ready level cmp s u \<longleftrightarrow> frag_ready level cmp s u \<and> s_end s = s_p s + fp_header_bytes cmp + int (length u)"

text \<open>The encoder that is used for updates with a compression byte agrees with the client's history.\<close>

definition bulk_synced :: "'k xrdp_rdp \<Rightarrow> int \<Rightarrow> byte list \<Rightarrow> bool" where
  "bulk_synced self cmp h \<longleftrightarrow> (cmp = 0 \<or> cmp = 2) \<and> (cmp = 2 \<longrightarrow> (\<exists>e. rdp_mppc self = Some e \<and> synced e h))"

text \<open>A fragment has left as the frame of a PDU from which the client gets the chunk.\<close>

definition fragment_sent :: "('k, 'w) rdp_env \<Rightarrow> 'k xrdp_rdp \<Rightarrow> byte list \<Rightarrow> int \<Rightarrow> 'k xrdp_rdp \<Rightarrow> bool" where
  "fragment_sent env self pdu r self' \<longleftrightarrow> (\<exists>tr m.
     self' = relinked self tr (fp_sent_keys (env_crypto env) (rdp_level self) (xs_keys (rdp_sec self)) pdu) m
     \<and> outgoing tr = outgoing (rdp_trans self) @ (if r = 0 then fp_frame (env_crypto env) (rdp_level self) (xs_keys (rdp_sec self)) pdu else [])
     \<and> (r = 0 \<longrightarrow> writer_ok tr))"

lemma fragment_sentI:
  assumes "outgoing tr = outgoing (rdp_trans self) @ (if r = 0 then fp_frame (env_crypto env) (rdp_level self) (xs_keys (rdp_sec self)) pdu else [])"
    and "r = 0 \<longrightarrow> writer_ok tr"
  shows "fragment_sent env self pdu r (relinked self tr (fp_sent_keys (env_crypto env) (rdp_level self) (xs_keys (rdp_sec self)) pdu) m)"
  using assms unfolding fragment_sent_def by blast

lemma bulk_synced_relinked: "bulk_synced self cmp h \<Longrightarrow> bulk_synced (relinked self tr keys (rdp_mppc self)) cmp h"
  by (simp add: bulk_synced_def)

lemma rdp_mppc_same [simp]: "self\<lparr>rdp_mppc := rdp_mppc self\<rparr> = self"
  by simp

lemma synced_opb_after: "synced (opb_after e off s) h = synced e h"
  by (simp add: synced_def mppc_ok_def opb_after_def)

lemma in_uint8a_at:
  assumes "bytes_at (s_data s) off x" "0 \<le> off" "off + int (length x) \<le> s_size s"
  shows "\<exists>s'. in_uint8a (s\<lparr>s_p := off\<rparr>) (int (length x)) = Some (x, s')"
  using assms read_bytes_at [OF assms(1)] by (auto simp: in_uint8a_def)

lemma compress_at_wp:
  assumes e: "mppc_ok e" and x: "packet_fits x" and s: "bytes_at (s_data s) off x" "0 \<le> off" "off + int (length x) \<le> s_size s"
  shows "wp (compress_at (Some e) s off (int (length x))) (\<lambda>(r, eo). \<exists>e'. eo = Some e' \<and> mppc_ok e' \<and>
     mppc_send e x = (if r \<noteq> 0 then (enc_flags e', map (outputBuffer e') [0..<bytes_in_opb e']) else (0, x), e') \<and>
     (r = 0 \<or> r = 1 \<and> bytes_in_opb e' \<le> length x \<and> 0 \<le> enc_flags e' \<and> enc_flags e' < 256))"
proof -
  from in_uint8a_at [OF s] obtain s' where "in_uint8a (s\<lparr>s_p := off\<rparr>) (int (length x)) = Some (x, s')" by blast
  moreover have "0 < int (length x)" "int (length x) \<le> int (buf_len e)" using e x by (auto simp: mppc_ok_def packet_fits_def)
  ultimately have "compress_at (Some e) s off (int (length x)) = compress_rdp (Some e) (Some x) (int (length x))" by (simp add: compress_at_def)
  with compress_rdp_wp [OF e x] show ?thesis by simp
qed

text \<open>The output of the encoder waits for its header in front of the output buffer.\<close>

lemma opb_stream_ready:
  assumes "sec_hdr s = 0" "bytes_in_opb e \<le> 16300" "buf_len e = 65536"
  obtains s' where "opb_stream e (xrdp_sec_get_fastpath_bytes level + fp_header_bytes cmp) s (xrdp_sec_get_fastpath_bytes level) n = Some s'"
    "frag_ready level cmp s' (map (outputBuffer e) [0..<bytes_in_opb e])"
proof -
  have "xrdp_sec_get_fastpath_bytes level + fp_header_bytes cmp \<le> 64" using fp_bytes_pos(2) [of level] by (simp add: fp_header_bytes_def)
  with assms show thesis by (intro that) (auto simp: opb_stream_def frag_ready_def bytes_at_nth)
qed


lemma next_fragment_size:
  assumes "rest_ready level cmp s u" "next_fragment (s_end s - s_p s) frag = (n, f)"
  shows "n = fp_header_bytes cmp + int (length (take (chunk_size cmp) u))" "s_p s + n < s_end s \<longleftrightarrow> chunk_size cmp < length u"
  using assms chunk_size_pos(3) [of cmp] by (auto simp: rest_ready_def next_fragment_def split: if_splits)

lemma frag_ready_take: "frag_ready level cmp s u \<Longrightarrow> frag_ready level cmp s (take n u)"
proof -
  assume s: "frag_ready level cmp s u"
  have "bytes_at (s_data s) (s_p s + fp_header_bytes cmp) (take n u @ drop n u)" using s unfolding frag_ready_def append_take_drop_id by blast
  with s show ?thesis unfolding bytes_at_append by (auto simp: frag_ready_def)
qed

lemma mppc_receive_plain: "mppc_receive h (0, x) = (x, h)"
  by (simp add: mppc_receive_def)

lemma uncompressed_round:
  assumes ok: "crypto_ok (env_crypto env) dual" and quiet: "quiet_fp (env_fp_callback env)" and wr: "writer_ok (rdp_trans self)"
    and s: "frag_ready (rdp_level self) cmp s x" "length x \<le> 16300" and n: "n = fp_header_bytes cmp + int (length x)"
    and f: "0 \<le> f" "f < 4" and bulk: "bulk_synced self cmp h"
  shows "wp (do { (r, self, s') \<leftarrow> send_fragment env self code f cmp 0 n s; Some (r, self, s_data s') })
    (\<lambda>(r, self', data). (r = 0 \<or> r = 1) \<and> (\<exists>pdu. fragment_sent env self pdu r self' \<and> client_pdu h pdu = ((code mod 16, f, x), h))
       \<and> bulk_synced self' cmp h \<and> (\<forall>i \<ge> s_p s + n. data i = s_data s i))"
proof -
  have c: "client_pdu h (fp_pdu code f cmp 0 x) = ((code mod 16, f, x), h)"
    using bulk client_pdu_plain [OF f] client_pdu_bulk [OF f, of 0] by (auto simp: bulk_synced_def mppc_receive_plain)
  show ?thesis unfolding wp_bind
    by (rule wp_mono [OF send_fragment_law [OF ok s wr quiet n]]) (use c bulk in \<open>fastforce intro: fragment_sentI bulk_synced_relinked\<close>)
qed

lemma compressed_round:
  assumes ok: "crypto_ok (env_crypto env) dual" and quiet: "quiet_fp (env_fp_callback env)" and wr: "writer_ok (rdp_trans self)"
    and s: "sec_hdr s = 0" and e: "mppc_ok e" "bytes_in_opb e \<le> 16300" "0 \<le> enc_flags e" "enc_flags e < 256"
    and rcv: "mppc_receive h (enc_flags e, map (outputBuffer e) [0..<bytes_in_opb e]) = (x, h')" "synced e h'"
    and f: "0 \<le> f" "f < 4" and B: "B = xrdp_sec_get_fastpath_bytes (rdp_level self)"
  shows "wp (do { s \<leftarrow> opb_stream e (B + 4) s B (int (bytes_in_opb e) + 4);
       (r, self, s) \<leftarrow> send_fragment env self code f 2 (enc_flags e) (int (bytes_in_opb e) + 4) s;
       Some (r, self\<lparr>rdp_mppc := Some (opb_after e (B + 4) s)\<rparr>, data) })
    (\<lambda>(r, self', data'). (r = 0 \<or> r = 1) \<and> (\<exists>pdu. fragment_sent env self pdu r self' \<and> client_pdu h pdu = ((code mod 16, f, x), h'))
       \<and> bulk_synced self' 2 h' \<and> data' = data)"
proof -
  have "buf_len e = 65536" using e(1) by (simp add: mppc_ok_def)
  from opb_stream_ready [OF s e(2) this, of "rdp_level self" 2 "int (bytes_in_opb e) + 4"] obtain s' where
    s': "opb_stream e (B + 4) s B (int (bytes_in_opb e) + 4) = Some s'" "frag_ready (rdp_level self) 2 s' (map (outputBuffer e) [0..<bytes_in_opb e])"
    by (auto simp: B fp_header_bytes_def)
  let ?pdu = "fp_pdu code f 2 (enc_flags e) (map (outputBuffer e) [0..<bytes_in_opb e])"
  have c: "client_pdu h ?pdu = ((code mod 16, f, x), h')" using client_pdu_bulk [OF f e(3,4)] rcv(1) by simp
  have n: "int (bytes_in_opb e) + 4 = fp_header_bytes 2 + int (length (map (outputBuffer e) [0..<bytes_in_opb e]))" by (simp add: fp_header_bytes_def)
  have l: "length (map (outputBuffer e) [0..<bytes_in_opb e]) \<le> 16300" using e(2) by simp
  have b: "bulk_synced (relinked self tr keys (Some (opb_after e off sx))) 2 h'" for tr keys off sx
    using rcv(2) by (simp add: bulk_synced_def synced_opb_after)
  show ?thesis unfolding s'(1) wp_bind
    by (simp, rule wp_mono [OF send_fragment_law [OF ok s'(2) l wr quiet n]]) (use c b in \<open>fastforce intro: fragment_sentI\<close>)
qed

lemma fragment_round_law:
  assumes ok: "crypto_ok (env_crypto env) dual" and quiet: "quiet_fp (env_fp_callback env)" and wr: "writer_ok (rdp_trans self)"
    and s: "rest_ready (rdp_level self) cmp s u" and nf: "next_fragment (s_end s - s_p s) frag = (n, f)" and f: "0 \<le> f" "f < 4"
    and bulk: "bulk_synced self cmp h" and x: "x = take (chunk_size cmp) u"
  shows "wp (fragment_round env self code cmp (xrdp_sec_get_fastpath_bytes (rdp_level self)) s frag)
    (\<lambda>(r, self', data). (r = 0 \<or> r = 1) \<and> (\<exists>pdu h'. fragment_sent env self pdu r self' \<and> client_pdu h pdu = ((code mod 16, f, x), h')
       \<and> bulk_synced self' cmp h') \<and> (\<forall>i \<ge> s_p s + n. data i = s_data s i))" (is "wp _ ?Q")
proof -
  have n: "n = fp_header_bytes cmp + int (length x)" unfolding x by (rule next_fragment_size(1) [OF s nf])
  have fr: "frag_ready (rdp_level self) cmp s x" using s frag_ready_take unfolding x rest_ready_def by blast
  have lx: "length x \<le> 16300" using chunk_size_pos(2) [of cmp] unfolding x by simp
  show ?thesis
  proof (cases "cmp \<noteq> 0 \<and> n > fp_header_bytes cmp + 16")
    case False
    then have "fragment_round env self code cmp (xrdp_sec_get_fastpath_bytes (rdp_level self)) s frag
        = do { (r, self, s') \<leftarrow> send_fragment env self code f cmp 0 n s; Some (r, self, s_data s') }"
      unfolding fragment_round_def fp_header_bytes_def [symmetric] Let_def nf by (auto split: option.splits)
    with uncompressed_round [OF ok quiet wr fr lx n f bulk, of code] show ?thesis by (auto elim!: wp_mono)
  next
    case True
    then have cmp: "cmp = 2" using bulk by (auto simp: bulk_synced_def)
    obtain e where e: "rdp_mppc self = Some e" "synced e h" using bulk cmp by (auto simp: bulk_synced_def)
    have fits: "packet_fits x" using True lx n by (simp add: packet_fits_def)
    have ok_e: "mppc_ok e" using e(2) by (simp add: synced_def)
    have at: "bytes_at (s_data s) (s_p s + 4) x" "0 \<le> s_p s + 4" "s_p s + 4 + int (length x) \<le> s_size s" "sec_hdr s = 0"
      using fr fp_bytes_pos(1) [of "rdp_level self"] by (auto simp: frag_ready_def cmp fp_header_bytes_def)
    from compress_at_wp [OF ok_e fits at(1-3)] obtain r e' where
      r: "compress_at (Some e) s (s_p s + 4) (int (length x)) = Some (r, Some e')" "mppc_ok e'"
      "mppc_send e x = (if r \<noteq> 0 then (enc_flags e', map (outputBuffer e') [0..<bytes_in_opb e']) else (0, x), e')"
      "r = 0 \<or> r = 1 \<and> bytes_in_opb e' \<le> length x \<and> 0 \<le> enc_flags e' \<and> enc_flags e' < 256"
      by (auto simp: wp_exists)
    obtain h' where h': "mppc_receive h (fst (mppc_send e x)) = (x, h')" "synced e' h'"
      using mppc_send_step [OF e(2) fits] r(3) by (cases "mppc_receive h (fst (mppc_send e x))") auto
    let ?self = "self\<lparr>rdp_mppc := Some e'\<rparr>"
    have fs: "fragment_sent env ?self pdu r' self' \<Longrightarrow> fragment_sent env self pdu r' self'" for pdu r' self'
      by (auto simp: fragment_sent_def relinked_def upd_sec_def)
    show ?thesis
    proof (cases "r = 0")
      case r0: True
      have "fragment_round env self code cmp (xrdp_sec_get_fastpath_bytes (rdp_level self)) s frag
          = do { (r, self, s') \<leftarrow> send_fragment env ?self code f cmp 0 n s; Some (r, self, s_data s') }"
        using True n r(1) r0 unfolding fragment_round_def Let_def nf by (simp add: cmp e(1) fp_header_bytes_def)
      moreover have "bulk_synced ?self cmp h" using h'(1,2) r(3) r0 by (simp add: bulk_synced_def cmp mppc_receive_plain)
      ultimately show ?thesis
        using uncompressed_round [OF ok quiet _ _ lx n f, of ?self s h code] wr fr fs by (auto elim!: wp_mono)
    next
      case r1: False
      let ?B = "xrdp_sec_get_fastpath_bytes (rdp_level self)"
      have "fragment_round env self code cmp ?B s frag = do { s1 \<leftarrow> opb_stream e' (?B + 4) s ?B (int (bytes_in_opb e') + 4);
          (r, self, s2) \<leftarrow> send_fragment env ?self code f 2 (enc_flags e') (int (bytes_in_opb e') + 4) s1;
          Some (r, self\<lparr>rdp_mppc := Some (opb_after e' (?B + 4) s2)\<rparr>, s_data s) }"
        using True n r(1) r1 unfolding fragment_round_def Let_def nf by (simp add: cmp e(1) fp_header_bytes_def)
      moreover have "bytes_in_opb e' \<le> 16300" "0 \<le> enc_flags e'" "enc_flags e' < 256" using r(4) r1 lx by auto
      moreover have "mppc_receive h (enc_flags e', map (outputBuffer e') [0..<bytes_in_opb e']) = (x, h')" using h'(1) r(3) r1 by simp
      ultimately show ?thesis
        using compressed_round [of env dual ?self s e' h x h' f ?B code "s_data s"] ok quiet wr at(4) r(2) h'(2) f fs
        by (auto simp: cmp elim!: wp_mono)
    qed
  qed
qed


subsection \<open>The whole update\<close>

fun chunks :: "nat \<Rightarrow> byte list \<Rightarrow> byte list list" where
  "chunks n u = (if n = 0 \<or> length u \<le> n then [u] else take n u # chunks n (drop n u))"

declare chunks.simps [simp del]

text \<open>The flags of the fragments when the one before had flag \<open>f\<close>.\<close>

fun labelled :: "int \<Rightarrow> byte list list \<Rightarrow> (int \<times> byte list) list" where
  "labelled f [] = []"
| "labelled f [x] = [(if f \<noteq> 0 then 1 else 0, x)]"
| "labelled f (x # y # ys) = (let f' = (if f = 0 then 2 else if f = 2 then 3 else f) in (f', x) # labelled f' (y # ys))"

definition fp_step :: "'k crypto \<Rightarrow> int \<Rightarrow> 'k sec_keys \<Rightarrow> byte list \<Rightarrow> byte list \<times> 'k sec_keys" where
  "fp_step cr level keys pdu = (fp_frame cr level keys pdu, fp_sent_keys cr level keys pdu)"

definition update_sent :: "('k, 'w) rdp_env \<Rightarrow> 'k xrdp_rdp \<Rightarrow> byte list list \<Rightarrow> 'k xrdp_rdp \<Rightarrow> bool" where
  "update_sent env self pdus self' \<longleftrightarrow> (\<exists>tr m.
     self' = relinked self tr (snd (through (fp_step (env_crypto env) (rdp_level self)) (xs_keys (rdp_sec self)) pdus)) m
     \<and> outgoing tr = outgoing (rdp_trans self) @ concat (fst (through (fp_step (env_crypto env) (rdp_level self)) (xs_keys (rdp_sec self)) pdus))
     \<and> writer_ok tr)"

lemma chunks_nonempty: "chunks n u \<noteq> []"
  by (subst chunks.simps) simp

lemma concat_chunks: "concat (chunks n u) = u"
  by (induction n u rule: chunks.induct) (subst chunks.simps, auto)

lemma update_sent_Cons:
  assumes "fragment_sent env self pdu 0 self1" "update_sent env self1 pdus self'"
  shows "update_sent env self (pdu # pdus) self'"
proof -
  let ?step = "fp_step (env_crypto env) (rdp_level self)" and ?k = "xs_keys (rdp_sec self)"
  obtain tr m where 1: "self1 = relinked self tr (fp_sent_keys (env_crypto env) (rdp_level self) ?k pdu) m"
    "outgoing tr = outgoing (rdp_trans self) @ fp_frame (env_crypto env) (rdp_level self) ?k pdu" using assms(1) by (auto simp: fragment_sent_def)
  obtain tr' m' where 2: "self' = relinked self1 tr' (snd (through ?step (fp_sent_keys (env_crypto env) (rdp_level self) ?k pdu) pdus)) m'"
    "outgoing tr' = outgoing tr @ concat (fst (through ?step (fp_sent_keys (env_crypto env) (rdp_level self) ?k pdu) pdus))" "writer_ok tr'"
    using assms(2) unfolding update_sent_def 1(1) by auto
  have "through ?step ?k (pdu # pdus) = (fp_frame (env_crypto env) (rdp_level self) ?k pdu # fst (through ?step (fp_sent_keys (env_crypto env) (rdp_level self) ?k pdu) pdus),
      snd (through ?step (fp_sent_keys (env_crypto env) (rdp_level self) ?k pdu) pdus))"
    by (simp add: fp_step_def case_prod_unfold)
  with 1 2 show ?thesis unfolding update_sent_def by (intro exI [of _ tr'] exI [of _ m']) simp
qed

lemma update_sent_one: "fragment_sent env self pdu 0 self' \<Longrightarrow> update_sent env self [pdu] self'"
  unfolding fragment_sent_def update_sent_def by (auto simp: fp_step_def)

lemma rest_ready_next:
  assumes s: "rest_ready level cmp s u" and n: "n = fp_header_bytes cmp + int (length (take m u))" "m < length u"
    and data: "\<forall>i \<ge> s_p s + n. data i = s_data s i" and p: "p = s_p s + n - fp_header_bytes cmp"
  shows "rest_ready level cmp (stream_from (s\<lparr>s_data := data, s_p := p, sec_hdr := p - xrdp_sec_get_fastpath_bytes level\<rparr>)
     (p - xrdp_sec_get_fastpath_bytes level)) (drop m u)"
proof -
  have fr: "s_p s = xrdp_sec_get_fastpath_bytes level" "bytes_at (s_data s) (s_p s + fp_header_bytes cmp) (take m u @ drop m u)"
    "s_p s + fp_header_bytes cmp + int (length u) + 7 \<le> s_size s" "s_end s = s_p s + fp_header_bytes cmp + int (length u)"
    using s unfolding rest_ready_def frag_ready_def append_take_drop_id by blast+
  have "bytes_at (s_data s) (s_p s + n) (drop m u)" using fr(2) n(1) unfolding bytes_at_append by (simp add: algebra_simps)
  then have "bytes_at data (s_p s + n) (drop m u)" by (rule bytes_at_cong) (use data in auto)
  then have "bytes_at (\<lambda>i. data (i + (p - s_p s))) (s_p s + fp_header_bytes cmp) (drop m u)"
    by (auto simp: bytes_at_nth p algebra_simps)
  with fr n p show ?thesis by (auto simp: rest_ready_def frag_ready_def stream_from_def)
qed

lemma fragment_loop_law:
  assumes ok: "crypto_ok (env_crypto env) dual" and quiet: "quiet_fp (env_fp_callback env)"
    and "writer_ok (rdp_trans self)" "rest_ready (rdp_level self) cmp s u" "frag = 0 \<or> frag = 2 \<or> frag = 3" "bulk_synced self cmp h"
  shows "wp (fragment_loop env self code cmp (xrdp_sec_get_fastpath_bytes (rdp_level self)) (xrdp_sec_get_fastpath_bytes (rdp_level self)) s frag)
    (\<lambda>(r, self'). (r = 0 \<or> r = 1) \<and> (r = 0 \<longrightarrow> (\<exists>pdus h'. update_sent env self pdus self' \<and>
       through client_pdu h pdus = (map (\<lambda>(f, x). (code mod 16, f, x)) (labelled frag (chunks (chunk_size cmp) u)), h') \<and> bulk_synced self' cmp h')))"
  using assms(3-6)
proof (induction "length u" arbitrary: self s u frag h rule: less_induct)
  case less
  let ?B = "xrdp_sec_get_fastpath_bytes (rdp_level self)" and ?c = "chunk_size cmp"
  obtain n f where nf: "next_fragment (s_end s - s_p s) frag = (n, f)" by (cases "next_fragment (s_end s - s_p s) frag")
  have f: "0 \<le> f" "f < 4" using nf less.prems(3) by (auto simp: next_fragment_def split: if_splits)
  note size = next_fragment_size [OF less.prems(2) nf]
  let ?Q = "\<lambda>self h frag u (r, self'). (r = 0 \<or> r = 1) \<and> (r = 0 \<longrightarrow> (\<exists>pdus h'. update_sent env self pdus self' \<and>
       through client_pdu h pdus = (map (\<lambda>(f, x). (code mod 16, f, x)) (labelled frag (chunks ?c u)), h') \<and> bulk_synced self' cmp h'))"
  have run: "fragment_loop env self code cmp ?B ?B s frag = do {
     (r, self, data) \<leftarrow> fragment_round env self code cmp ?B s frag;
     if r \<noteq> 0 then Some (1, self)
     else if \<not> s_p s + n < s_end s then Some (0, self)
     else fragment_loop env self code cmp ?B ?B (stream_from (s\<lparr>s_data := data, s_p := s_p s + n - fp_header_bytes cmp,
         sec_hdr := s_p s + n - fp_header_bytes cmp - ?B\<rparr>) (s_p s + n - fp_header_bytes cmp - ?B)) f }"
    by (subst fragment_loop.simps) (simp only: nf Let_def fp_header_bytes_def [symmetric] prod.case)
  show ?case unfolding run
  proof (rule wp_bindI [OF fragment_round_law [OF ok quiet less.prems(1,2) nf f less.prems(4) refl]], clarify)
    fix r self1 data pdu h1
    assume r: "r = 0 \<or> r = 1" and data: "\<forall>i \<ge> s_p s + n. data i = s_data s i" and b: "bulk_synced self1 cmp h1"
      and sent: "fragment_sent env self pdu r self1" and cl: "client_pdu h pdu = ((code mod 16, f, take ?c u), h1)"
    show "wp (if r \<noteq> 0 then Some (1, self1) else if \<not> s_p s + n < s_end s then Some (0, self1)
      else fragment_loop env self1 code cmp ?B ?B (stream_from (s\<lparr>s_data := data, s_p := s_p s + n - fp_header_bytes cmp,
         sec_hdr := s_p s + n - fp_header_bytes cmp - ?B\<rparr>) (s_p s + n - fp_header_bytes cmp - ?B)) f) (?Q self h frag u)"
    proof (cases "r = 0 \<and> ?c < length u")
      case False
      show ?thesis
      proof (cases "r = 0")
        case r0: True
        with False have short: "length u \<le> ?c" by simp
        then have "chunks ?c u = [u]" by (subst chunks.simps) simp
        moreover have "f = (if frag \<noteq> 0 then 1 else 0)"
          using nf short size(2) less.prems(2,3) chunk_size_pos(3) [of cmp] by (auto simp: next_fragment_def rest_ready_def split: if_splits)
        ultimately have "through client_pdu h [pdu] = (map (\<lambda>(f, x). (code mod 16, f, x)) (labelled frag (chunks ?c u)), h1)"
          using cl short by simp
        with r0 short size(2) update_sent_one [of env self pdu self1] sent b show ?thesis by auto
      qed (use r in simp)
    next
      case True
      then have long: "?c < length u" and r0: "r = 0" by auto
      obtain tr m where s1: "self1 = relinked self tr (fp_sent_keys (env_crypto env) (rdp_level self) (xs_keys (rdp_sec self)) pdu) m" "writer_ok tr"
        using sent r0 by (auto simp: fragment_sent_def)
      have f': "f = (if frag = 0 then 2 else if frag = 2 then 3 else frag)"
        using nf long size less.prems(2) by (auto simp: next_fragment_def split: if_splits)
      have "wp (fragment_loop env self1 code cmp ?B ?B (stream_from (s\<lparr>s_data := data, s_p := s_p s + n - fp_header_bytes cmp,
         sec_hdr := s_p s + n - fp_header_bytes cmp - ?B\<rparr>) (s_p s + n - fp_header_bytes cmp - ?B)) f) (?Q self1 h1 f (drop ?c u))"
      proof -
        have lv: "rdp_level self1 = rdp_level self" and wr1: "writer_ok (rdp_trans self1)" using s1 by simp_all
        have lt: "length (drop ?c u) < length u" using long chunk_size_pos(1) [of cmp] by simp
        have fok: "f = 0 \<or> f = 2 \<or> f = 3" using f' less.prems(3) by auto
        from less.hyps [OF lt wr1 rest_ready_next [OF less.prems(2) size(1) long data refl, folded lv] fok b] show ?thesis unfolding lv .
      qed
      moreover have "chunks ?c u = take ?c u # chunks ?c (drop ?c u)" using long chunk_size_pos(1) [of cmp] by (subst chunks.simps) simp
      moreover from this have "labelled frag (chunks ?c u) = (f, take ?c u) # labelled f (chunks ?c (drop ?c u))"
        using chunks_nonempty [of ?c "drop ?c u"] f' by (cases "chunks ?c (drop ?c u)") (auto simp: Let_def)
      ultimately show ?thesis
        using r0 long size(2) cl update_sent_Cons [OF sent [unfolded r0]]
        by (auto elim!: wp_mono) (metis (no_types, lifting) case_prod_conv through.simps(2))
    qed
  qed
qed


definition fragment_flags :: "nat \<Rightarrow> int list" where
  "fragment_flags n = (if n = 1 then [0] else 2 # replicate (n - 2) 3 @ [1])"

lemma labelled_snd: "map snd (labelled f xs) = xs"
  by (induction f xs rule: labelled.induct) (auto simp: Let_def)

lemma labelled_more: "f = 2 \<or> f = 3 \<Longrightarrow> xs \<noteq> [] \<Longrightarrow> map fst (labelled f xs) = replicate (length xs - 1) 3 @ [1]"
  by (induction f xs rule: labelled.induct) (auto simp: Let_def)

lemma labelled_flags: "xs \<noteq> [] \<Longrightarrow> map fst (labelled 0 xs) = fragment_flags (length xs)"
proof (cases xs)
  case (Cons x ys)
  then show ?thesis
  proof (cases ys)
    case (Cons y zs)
    then show ?thesis using \<open>xs = x # ys\<close> labelled_more [of 2 ys] by (simp add: fragment_flags_def Let_def)
  qed (simp add: fragment_flags_def)
qed simp

lemma init_fastpath_ready:
  assumes "int (length u) + 26 \<le> max (32 * 1024) (max_frag_bytes self)"
    and "cmp = (if rdp_compression self \<noteq> 0 then 2 else 0)"
  shows "rest_ready (rdp_level self) cmp (s_pop_layer (s_mark_end (emit (xrdp_rdp_init_fastpath self s) u)) rdp_hdr) u"
    "rdp_hdr (s_mark_end (emit (xrdp_rdp_init_fastpath self s) u)) = xrdp_sec_get_fastpath_bytes (rdp_level self)"
proof -
  let ?B = "xrdp_sec_get_fastpath_bytes (rdp_level self)"
  have i: "s_p (xrdp_sec_init_fastpath (rdp_level self) m s) = ?B" "sec_hdr (xrdp_sec_init_fastpath (rdp_level self) m s) = 0"
    "s_size (xrdp_sec_init_fastpath (rdp_level self) m s) = max (s_size s) (max (32 * 1024) m)" for m
    by (auto simp: xrdp_sec_init_fastpath_def xrdp_fastpath_init_def xrdp_sec_get_fastpath_bytes_def s_push_layer_def Let_def max_def)
  show "rdp_hdr (s_mark_end (emit (xrdp_rdp_init_fastpath self s) u)) = ?B"
    by (simp add: xrdp_rdp_init_fastpath_def s_push_layer_def s_mark_end_def i)
  show "rest_ready (rdp_level self) cmp (s_pop_layer (s_mark_end (emit (xrdp_rdp_init_fastpath self s) u)) rdp_hdr) u"
    using assms fp_bytes_pos(2) [of "rdp_level self"]
    by (auto simp: rest_ready_def frag_ready_def xrdp_rdp_init_fastpath_def s_push_layer_def s_mark_end_def s_pop_layer_def i
        fp_header_bytes_def bytes_at_write_bytes)
qed

text \<open>The pieces of an update: the same code in all of them, marked as fragments when there are several, and together the update.\<close>

definition pieces_of :: "int \<Rightarrow> byte list \<Rightarrow> (int \<times> int \<times> byte list) list \<Rightarrow> bool" where
  "pieces_of code u pieces \<longleftrightarrow> concat (map (\<lambda>(c, f, x). x) pieces) = u \<and> (\<forall>(c, f, x) \<in> set pieces. c = code mod 16)
     \<and> map (\<lambda>(c, f, x). f) pieces = fragment_flags (length pieces)"

lemma labelled_pieces: "pieces_of code u (map (\<lambda>(f, x). (code mod 16, f, x)) (labelled 0 (chunks n u)))" (is "pieces_of code u ?pieces")
proof -
  let ?l = "labelled 0 (chunks n u)"
  have "map (\<lambda>(c, f, x). x) ?pieces = map snd ?l" "map (\<lambda>(c, f, x). f) ?pieces = map fst ?l" by auto
  moreover have "length ?pieces = length (chunks n u)" using labelled_snd [of 0 "chunks n u"] by (metis length_map)
  ultimately show ?thesis using labelled_flags [OF chunks_nonempty] unfolding pieces_of_def by (simp only: labelled_snd concat_chunks) auto
qed

lemma send_fastpath_pieces:
  assumes "crypto_ok (env_crypto env) dual" and "quiet_fp (env_fp_callback env)" and "writer_ok (rdp_trans self)"
    and "int (length u) + 26 \<le> max (32 * 1024) (max_frag_bytes self)"
    and "cmp = (if rdp_compression self \<noteq> 0 then 2 else 0)" and "bulk_synced self cmp h"
    and "s = s_mark_end (emit (xrdp_rdp_init_fastpath self s0) u)"
  shows "wp (xrdp_rdp_send_fastpath env self s code) (\<lambda>(r, self'). (r = 0 \<or> r = 1) \<and> (r = 0 \<longrightarrow>
     (\<exists>pdus pieces h'. update_sent env self pdus self' \<and> through client_pdu h pdus = (pieces, h') \<and> bulk_synced self' cmp h' \<and> pieces_of code u pieces)))"
proof -
  note ready = init_fastpath_ready [OF assms(4,5), of s0]
  have run: "xrdp_rdp_send_fastpath env self s code = fragment_loop env self code cmp (xrdp_sec_get_fastpath_bytes (rdp_level self))
      (xrdp_sec_get_fastpath_bytes (rdp_level self)) (s_pop_layer s rdp_hdr) 0"
    using ready(2) by (simp add: xrdp_rdp_send_fastpath_def Let_def assms(5,7) s_pop_layer_def)
  let ?pieces = "map (\<lambda>(f, x). (code mod 16, f, x)) (labelled 0 (chunks (chunk_size cmp) u))"
  have "wp (fragment_loop env self code cmp (xrdp_sec_get_fastpath_bytes (rdp_level self)) (xrdp_sec_get_fastpath_bytes (rdp_level self)) (s_pop_layer s rdp_hdr) 0)
    (\<lambda>(r, self'). (r = 0 \<or> r = 1) \<and> (r = 0 \<longrightarrow> (\<exists>pdus h'. update_sent env self pdus self' \<and>
       through client_pdu h pdus = (?pieces, h') \<and> bulk_synced self' cmp h')))"
    using fragment_loop_law [OF assms(1-3) ready(1) _ assms(6), of 0 code] unfolding assms(7) by simp
  then show ?thesis unfolding run by (rule wp_mono) (use labelled_pieces in blast)
qed

text \<open>C15. A fast-path update of any size that fits the stream reaches the client: when \<open>xrdp_rdp_send_fastpath\<close>
  succeeds, the transport was given exactly the frames of a sequence of PDUs, each protected with the keys its
  predecessor left, from which a client that decompresses with its own history collects pieces whose concatenation is
  the update. Each piece carries the update code; a single piece is not marked as a fragment, several are marked first,
  next and last. The encoder and the client's history agree again afterwards.\<close>

theorem fastpath_update_reassembled:
  assumes "crypto_ok (env_crypto env) dual" and "quiet_fp (env_fp_callback env)" and "writer_ok (rdp_trans self)"
    and "int (length u) + 26 \<le> max (32 * 1024) (max_frag_bytes self)"
    and "cmp = (if rdp_compression self \<noteq> 0 then 2 else 0)" and "bulk_synced self cmp h"
    and "s = s_mark_end (emit (xrdp_rdp_init_fastpath self s0) u)"
  shows "wp (xrdp_rdp_send_fastpath env self s code) (\<lambda>(r, self'). (r = 0 \<or> r = 1) \<and> (r = 0 \<longrightarrow>
     (\<exists>pdus pieces h'. update_sent env self pdus self' \<and> through client_pdu h pdus = (pieces, h') \<and> bulk_synced self' cmp h'
        \<and> concat (map (\<lambda>(c, f, x). x) pieces) = u \<and> (\<forall>(c, f, x) \<in> set pieces. c = code mod 16)
        \<and> map (\<lambda>(c, f, x). f) pieces = fragment_flags (length pieces))))"
  using send_fastpath_pieces [OF assms] by (rule wp_mono) (auto simp: pieces_of_def)

text \<open>A layer on a link, at the FIPS level with bulk compression.\<close>

definition demo_caps :: client_caps where
  "demo_caps = (let codec = \<lparr>cd_id = 0, cd_prop_len = 0, cd_prop = replicate 64 0\<rparr> in
     \<lparr>cc_os_major = 0, cc_os_minor = 0, cc_op1 = 0, cc_op2 = 0, cc_use_compact_packets = 0, cc_orders = replicate 32 0, cc_order_flags_ex = 0,
      cc_bitmap_cache_version = 0, cc_bitmap_cache_persist_enable = 0, cc_desktop_cache = 0, cc_no_orders_supported = 0, cc_cache1_entries = 0,
      cc_cache1_size = 0, cc_cache2_entries = 0, cc_cache2_size = 0, cc_cache3_entries = 0, cc_cache3_size = 0, cc_v3_codec_id = 0,
      cc_pointer_flags = 0, cc_pointer_cache_entries = 0, cc_brush_cache_code = 0, cc_use_cache_glyph_v2 = 0, cc_offscreen_support_level = 0,
      cc_offscreen_cache_size = 0, cc_offscreen_cache_entries = 0, cc_rail_support_level = 0, cc_wnd_support_level = 0,
      cc_wnd_num_icon_caches = 0, cc_wnd_num_icon_cache_entries = 0, cc_ns = codec, cc_rfx = codec, cc_jpeg = codec, cc_h264 = codec,
      cc_use_frame_acks = 0, cc_max_unacknowledged_frame_count = 0\<rparr>)"

definition demo_rdp :: "tx_event list \<Rightarrow> byte xrdp_rdp" where
  "demo_rdp tx = \<lparr> rdp_chan = xrdp_channel_create ((demo_conn tx)\<lparr>xs_logon := demo_logon\<lparr>li_rdp_compression := 1\<rparr>\<rparr>),
     rdp_fastpath = \<lparr>numEvents = 0, secFlags = 0\<rparr>, share_id = 66538, mcs_channel = 1002, rdp_mppc = mppc_enc_new PROTO_RDP_50,
     up_and_running = 1, suppress_output = 0, use_fast_path = 3, max_frag_bytes = 0, rdp_caps = demo_caps\<rparr>"

definition demo_env :: "(byte, session_call list) rdp_env" where
  "demo_env = \<lparr> env_crypto = demo_crypto, env_wcstombs = (\<lambda>_. None), env_junk = 0, env_mcs_callback = None, env_fp_callback = None,
     env_callback = Some (\<lambda>c w. w @ [c]), env_channel_call = (\<lambda>c w. w)\<rparr>"

lemma demo_rdp_sel [simp]:
  "rdp_trans (demo_rdp tx) = tcp_link [] tx" "rdp_level (demo_rdp tx) = CRYPT_LEVEL_FIPS" "rdp_compression (demo_rdp tx) = 1"
  "max_frag_bytes (demo_rdp tx) = 0" "rdp_mppc (demo_rdp tx) = mppc_enc_new PROTO_RDP_50" "up_and_running (demo_rdp tx) = 1"
  by (simp_all add: demo_rdp_def xrdp_channel_create_def demo_conn_def sec_link_def)

lemma demo_env_sel [simp]:
  "env_crypto demo_env = demo_crypto" "quiet_fp (env_fp_callback demo_env)" "quiet_callback (env_mcs_callback demo_env)"
  "env_callback demo_env = Some (\<lambda>c w. w @ [c])"
  by (simp_all add: demo_env_def quiet_fp_def quiet_callback_def xrdp_fastpath_session_callback_def xrdp_mcs_call_callback_def)

lemma demo_synced: "bulk_synced (demo_rdp tx) 2 []"
proof -
  obtain e where "mppc_enc_new PROTO_RDP_50 = Some e" by (auto simp: mppc_enc_new_def mppc_consts)
  with fresh_synced [OF this] show ?thesis by (simp add: bulk_synced_def)
qed

theorem fastpath_update_reassembled_witness:
  "wp (xrdp_rdp_send_fastpath demo_env (demo_rdp [Tx_Accept 40000])
      (s_mark_end (emit (xrdp_rdp_init_fastpath (demo_rdp [Tx_Accept 40000]) make_stream) (replicate 30000 7))) 4)
     (\<lambda>(r, self'). r = 0 \<longrightarrow> (\<exists>pdus pieces h'. through client_pdu [] pdus = (pieces, h') \<and> concat (map (\<lambda>(c, f, x). x) pieces) = replicate 30000 7))"
proof -
  have "int (length (replicate 30000 (7 :: byte))) + 26 \<le> max (32 * 1024) (max_frag_bytes (demo_rdp [Tx_Accept 40000]))"
    "writer_ok (rdp_trans (demo_rdp [Tx_Accept 40000]))" "(2 :: int) = (if rdp_compression (demo_rdp [Tx_Accept 40000]) \<noteq> 0 then 2 else 0)"
    "crypto_ok (env_crypto demo_env) (=)" using demo_crypto_ok by simp_all
  from fastpath_update_reassembled [OF this(4) _ this(2) this(1) this(3) demo_synced refl, of make_stream 4]
  show ?thesis by (auto elim!: wp_mono)
qed


subsection \<open>Data PDUs\<close>

definition share_data_bytes :: "'k xrdp_rdp \<Rightarrow> int \<Rightarrow> int \<Rightarrow> int \<Rightarrow> int \<Rightarrow> int \<Rightarrow> byte list" where
  "share_data_bytes self pdulen dlen type ctype clen = enc16_le pdulen @ enc16_le (0x10 OR PDUTYPE_DATAPDU) @ enc16_le (mcs_channel self)
     @ enc32_le (share_id self) @ enc8 0 @ enc8 1 @ enc16_le dlen @ enc8 type @ enc8 ctype @ enc16_le clen"

lemma length_share_data_bytes [simp]: "length (share_data_bytes self pdulen dlen type ctype clen) = 18"
  by (simp add: share_data_bytes_def)

lemma share_data_header_emit:
  "room s 18 \<Longrightarrow> share_data_header self s pdulen dlen type ctype clen = Some (emit s (share_data_bytes self pdulen dlen type ctype clen))"
  by (simp add: share_data_header_def out_emit room_def share_data_bytes_def)

text \<open>What a client makes of the PDU: the lengths, the type, and the data, decompressed when the type of compression is not 0.\<close>

definition client_data :: "byte list \<Rightarrow> byte list \<Rightarrow> (int \<times> int \<times> byte list) \<times> byte list" where
  "client_data h pdu = (case mppc_receive h (uint (pdu ! 15), drop 18 pdu) of
     (x, h') \<Rightarrow> ((uint (pdu ! 0) + 256 * uint (pdu ! 1), uint (pdu ! 14), x), h'))"

lemma client_data_fields:
  assumes "0 \<le> type" "type < 256" "0 \<le> ctype" "ctype < 256" "0 \<le> n" "n < 65536"
  shows "client_data h (share_data_bytes self n dlen type ctype clen @ x) = (case mppc_receive h (ctype, x) of (y, h') \<Rightarrow> ((n, type, y), h'))"
proof -
  let ?pdu = "share_data_bytes self n dlen type ctype clen @ x"
  have "?pdu ! 15 = word_of_int ctype" "?pdu ! 14 = word_of_int type" "?pdu ! 0 = word_of_int n" "?pdu ! 1 = word_of_int (n div 256)"
    by (simp_all add: share_data_bytes_def enc8_def enc16_le_def enc32_le_def)
  moreover have "n mod 256 + 256 * (n div 256 mod 256) = n" using assms(5,6) by (simp add: mod_pos_pos_trivial [of "n div 256"])
  ultimately show ?thesis using assms by (simp add: client_data_def uint_byte_of_int)
qed

text \<open>A data PDU that waits for its header.\<close>

definition data_ready :: "int \<Rightarrow> stream \<Rightarrow> byte list \<Rightarrow> bool" where
  "data_ready level s x \<longleftrightarrow> iso_hdr s = 0 \<and> mcs_hdr s = 7 \<and> (level > CRYPT_LEVEL_NONE \<longrightarrow> sec_hdr s = 15)
     \<and> rdp_hdr s = 15 + sec_overhead level \<and> s_p s = rdp_hdr s \<and> bytes_at (s_data s) (s_p s + 18) x
     \<and> s_end s = s_p s + 18 + int (length x) \<and> s_end s + 8 \<le> s_size s"

definition data_sent :: "('k, 'w) rdp_env \<Rightarrow> 'k xrdp_rdp \<Rightarrow> byte list \<Rightarrow> int \<Rightarrow> 'k xrdp_rdp \<Rightarrow> bool" where
  "data_sent env self pdu r self' \<longleftrightarrow>
     mcs_sent (mcs_layer (xs_sec (rdp_sec self))) (sdin_bytes (userid (mcs_layer (xs_sec (rdp_sec self)))) MCS_GLOBAL_CHANNEL
       (sec_packet (env_crypto env) (rdp_level self) (xs_keys (rdp_sec self)) pdu)) (r, mcs_layer (xs_sec (rdp_sec self')))
     \<and> xs_keys (rdp_sec self') = sec_next_keys (env_crypto env) (rdp_level self) (xs_keys (rdp_sec self)) pdu
     \<and> rdp_level self' = rdp_level self \<and> xs_logon (rdp_sec self') = xs_logon (rdp_sec self)"

lemma data_pdu_out:
  assumes ok: "crypto_ok (env_crypto env) dual" and quiet: "quiet_callback (env_mcs_callback env)" and wr: "writer_ok (rdp_trans self)"
    and s: "data_ready (rdp_level self) s x" and len: "length x \<le> 16300"
  shows "wp (do { s \<leftarrow> share_data_header self s pdulen dlen type ctype clen;
       (r, sec, s) \<leftarrow> xrdp_sec_send (env_crypto env) (env_mcs_callback env) (rdp_sec self) s MCS_GLOBAL_CHANNEL;
       Some (if r \<noteq> 0 then 1 else 0, upd_sec sec (upd s)) })
     (\<lambda>(r, self'). (r = 0 \<or> r = 1) \<and> (\<exists>sec s. self' = upd_sec sec (upd s) \<and>
        data_sent env self (share_data_bytes self pdulen dlen type ctype clen @ x) r (upd_sec sec self)))"
proof -
  let ?h = "share_data_bytes self pdulen dlen type ctype clen"
  have "room s 18" using s sec_overhead_range(1) [of "rdp_level self"] by (auto simp: data_ready_def room_def)
  note h = share_data_header_emit [OF this]
  have "bytes_at (write_bytes (s_data s) (s_p s) ?h) (s_p s) (?h @ x)"
    unfolding bytes_at_append
  proof
    have "bytes_at (s_data s) (s_p s + 18) x" using s unfolding data_ready_def by blast
    then show "bytes_at (write_bytes (s_data s) (s_p s) ?h) (s_p s + int (length ?h)) x"
      by (simp, elim bytes_at_cong) (simp add: write_bytes_above)
  qed (rule bytes_at_write_bytes)
  then have prep: "sec_prepared (rdp_level self) (emit s ?h) (?h @ x)"
    using s by (auto simp: data_ready_def sec_prepared_def)
  have "length (?h @ x) \<le> 16340" using len by simp
  from xrdp_sec_send_quiet [OF ok prep this wr, of MCS_GLOBAL_CHANNEL "env_mcs_callback env"] quiet obtain r sec s' where
    run: "xrdp_sec_send (env_crypto env) (env_mcs_callback env) (rdp_sec self) (emit s ?h) MCS_GLOBAL_CHANNEL = Some (r, sec, s')"
    and sent: "data_sent env self (?h @ x) r (upd_sec sec self)"
    by (auto simp: wp_exists data_sent_def)
  from sent have "r = 0 \<or> r = 1" by (auto simp: data_sent_def mcs_sent_def)
  with run sent show ?thesis by (auto simp: h)
qed

lemma init_data_ready:
  assumes "length x \<le> 16300" "s_size s0 \<le> 32768"
  shows "data_ready (rdp_level self) (s_pop_layer (s_mark_end (emit (xrdp_rdp_init_data self s0) x)) rdp_hdr) x"
  using assms
  by (simp add: data_ready_def xrdp_rdp_init_data_def xrdp_sec_init_def Let_def xrdp_mcs_init_def xrdp_iso_init_def s_push_layer_def
      s_mark_end_def s_pop_layer_def sec_overhead_def bytes_at_write_bytes)

lemma opb_data_ready:
  assumes s: "data_ready level s x" and e: "bytes_in_opb e \<le> 16300" "buf_len e = 65536"
  obtains s' where "opb_stream e (rdp_hdr s + 18) s (rdp_hdr s) (int (bytes_in_opb e) + 18) = Some s'"
    "data_ready level s' (map (outputBuffer e) [0..<bytes_in_opb e])"
proof -
  have "rdp_hdr s + 18 \<le> 64" using s sec_overhead_range(2) [of level] by (auto simp: data_ready_def)
  with assms show thesis by (intro that) (auto simp: opb_stream_def data_ready_def bytes_at_nth)
qed

text \<open>The two ways a data PDU leaves: as it is, and compressed. In both a client with the history \<open>h\<close> reads it back.\<close>

definition data_pdu_run :: "('k, 'w) rdp_env \<Rightarrow> 'k xrdp_rdp \<Rightarrow> stream \<Rightarrow> int \<Rightarrow> int \<Rightarrow> int \<Rightarrow> int \<Rightarrow> int \<Rightarrow> (stream \<Rightarrow> 'k xrdp_rdp)
    \<Rightarrow> (int \<times> 'k xrdp_rdp) option" where
  "data_pdu_run env self s pdulen dlen type ctype clen upd = do { s \<leftarrow> share_data_header self s pdulen dlen type ctype clen;
     (r, sec, s) \<leftarrow> xrdp_sec_send (env_crypto env) (env_mcs_callback env) (rdp_sec self) s MCS_GLOBAL_CHANNEL;
     Some (if r \<noteq> 0 then 1 else 0, upd_sec sec (upd s)) }"

definition data_delivered :: "('k, 'w) rdp_env \<Rightarrow> 'k xrdp_rdp \<Rightarrow> byte list \<Rightarrow> int \<Rightarrow> byte list \<Rightarrow> int \<times> 'k xrdp_rdp \<Rightarrow> bool" where
  "data_delivered env self h type x = (\<lambda>(r, self'). (r = 0 \<or> r = 1) \<and>
     (\<exists>pdu h'. data_sent env self pdu r self' \<and> client_data h pdu = ((int (length pdu), type, x), h')
        \<and> bulk_synced self' (if rdp_compression self \<noteq> 0 then 2 else 0) h'))"

lemma data_pdu_delivered:
  assumes ok: "crypto_ok (env_crypto env) dual" and quiet: "quiet_callback (env_mcs_callback env)" and wr: "writer_ok (rdp_trans self)"
    and s: "data_ready (rdp_level self) s d" and len: "length d \<le> 16300"
    and type: "0 \<le> type" "type < 256" and ctype: "0 \<le> ctype" "ctype < 256"
    and rcv: "mppc_receive h (ctype, d) = (x, h')"
    and upd: "\<And>s. rdp_chan (upd s) = rdp_chan self" "\<And>s. bulk_synced (upd s) (if rdp_compression self \<noteq> 0 then 2 else 0) h'"
    and self1: "self1 = self\<lparr>rdp_mppc := m\<rparr>"
  shows "wp (data_pdu_run env self1 s (18 + int (length d)) dlen type ctype clen upd) (data_delivered env self h type x)"
proof -
  let ?pdu = "share_data_bytes self1 (18 + int (length d)) dlen type ctype clen @ d"
  have "writer_ok (rdp_trans self1)" "data_ready (rdp_level self1) s d" using wr s self1 by simp_all
  note out = data_pdu_out [OF ok quiet this len, of "18 + int (length d)" dlen type ctype clen upd]
  have "client_data h ?pdu = ((int (length ?pdu), type, x), h')"
    using client_data_fields [OF type ctype, of "18 + int (length d)" h self1] len rcv by simp
  moreover have "data_sent env self1 ?pdu r (upd_sec sec self1) \<Longrightarrow> data_sent env self ?pdu r (upd_sec sec (upd s'))" for r sec s'
    using upd(1) self1 by (simp add: data_sent_def upd_sec_def)
  moreover have "bulk_synced (upd_sec sec (upd s')) (if rdp_compression self \<noteq> 0 then 2 else 0) h'" for sec s'
    using upd(2) [of s'] by (simp add: bulk_synced_def)
  ultimately show ?thesis unfolding data_pdu_run_def by (intro wp_mono [OF out]) (fastforce simp: data_delivered_def)
qed

lemma send_data_plain:
  assumes "s_end (s_pop_layer s rdp_hdr) - s_p (s_pop_layer s rdp_hdr) = n"
    and "(if rdp_compression self \<noteq> 0 \<and> up_and_running self \<noteq> 0
       then compress_at (rdp_mppc self) (s_pop_layer s rdp_hdr) (s_p (s_pop_layer s rdp_hdr) + 18) (n - 18) else Some (0, rdp_mppc self)) = Some (0, m)"
  shows "xrdp_rdp_send_data env self s type
     = data_pdu_run env (self\<lparr>rdp_mppc := m\<rparr>) (s_pop_layer s rdp_hdr) n n type 0 n (\<lambda>_. self\<lparr>rdp_mppc := m\<rparr>)"
  using assms(2) unfolding xrdp_rdp_send_data_def Let_def assms(1) by (simp add: data_pdu_run_def split: option.splits)

lemma send_data_bulk:
  assumes "s_end (s_pop_layer s rdp_hdr) - s_p (s_pop_layer s rdp_hdr) = n" "rdp_compression self \<noteq> 0" "up_and_running self \<noteq> 0"
    and "compress_at (rdp_mppc self) (s_pop_layer s rdp_hdr) (s_p (s_pop_layer s rdp_hdr) + 18) (n - 18) = Some (r, Some e)" "r \<noteq> 0"
    and "opb_stream e (rdp_hdr (s_pop_layer s rdp_hdr) + 18) (s_pop_layer s rdp_hdr) (rdp_hdr (s_pop_layer s rdp_hdr)) (int (bytes_in_opb e) + 18) = Some so"
  shows "xrdp_rdp_send_data env self s type = data_pdu_run env (self\<lparr>rdp_mppc := Some e\<rparr>) so (int (bytes_in_opb e) + 18) n type (enc_flags e)
     (int (bytes_in_opb e) + 18) (\<lambda>s'. self\<lparr>rdp_mppc := Some (opb_after e (rdp_hdr (s_pop_layer s rdp_hdr) + 18) s')\<rparr>)"
  using assms(2-) unfolding xrdp_rdp_send_data_def Let_def assms(1) by (simp add: data_pdu_run_def)

lemma data_pdu_compressed:
  assumes hyps: "crypto_ok (env_crypto env) dual" "quiet_callback (env_mcs_callback env)" "writer_ok (rdp_trans self)"
    and len: "length x \<le> 16300" and type: "0 \<le> type" "type < 256"
    and ready: "data_ready (rdp_level self) (s_pop_layer s rdp_hdr) x"
    and on: "rdp_compression self \<noteq> 0" "up_and_running self \<noteq> 0"
    and e: "rdp_mppc self = Some e" "synced e h" and fits: "packet_fits x"
  shows "wp (xrdp_rdp_send_data env self s type) (data_delivered env self h type x)"
proof -
  let ?s = "s_pop_layer s rdp_hdr"
  have n: "s_end ?s - s_p ?s = 18 + int (length x)" using ready by (auto simp: data_ready_def)
  have at: "bytes_at (s_data ?s) (s_p ?s + 18) x" "0 \<le> s_p ?s + 18" "s_p ?s + 18 + int (length x) \<le> s_size ?s"
    using ready sec_overhead_range(1) [of "rdp_level self"] unfolding data_ready_def by auto
  have "mppc_ok e" using e(2) by (simp add: synced_def)
  from compress_at_wp [OF this fits at] obtain r e' where
    r: "compress_at (Some e) ?s (s_p ?s + 18) (int (length x)) = Some (r, Some e')" "mppc_ok e'"
    "mppc_send e x = (if r \<noteq> 0 then (enc_flags e', map (outputBuffer e') [0..<bytes_in_opb e']) else (0, x), e')"
    "r = 0 \<or> r = 1 \<and> bytes_in_opb e' \<le> length x \<and> 0 \<le> enc_flags e' \<and> enc_flags e' < 256"
    by (auto simp: wp_exists)
  obtain h' where h': "mppc_receive h (fst (mppc_send e x)) = (x, h')" "synced e' h'"
    using mppc_send_step [OF e(2) fits] r(3) by (cases "mppc_receive h (fst (mppc_send e x))") auto
  show ?thesis
  proof (cases "r = 0")
    case True
    with h' r(3) have "mppc_receive h (0, x) = (x, h')" by simp
    moreover have "bulk_synced (self\<lparr>rdp_mppc := Some e'\<rparr>) (if rdp_compression self \<noteq> 0 then 2 else 0) h'"
      using h'(2) on(1) by (simp add: bulk_synced_def)
    moreover have "xrdp_rdp_send_data env self s type = data_pdu_run env (self\<lparr>rdp_mppc := Some e'\<rparr>) ?s (18 + int (length x))
        (18 + int (length x)) type 0 (18 + int (length x)) (\<lambda>_. self\<lparr>rdp_mppc := Some e'\<rparr>)"
      by (rule send_data_plain [OF n]) (use True on r(1) e(1) in simp)
    ultimately show ?thesis using data_pdu_delivered [OF hyps ready len type, of 0 h x h' "\<lambda>_. self\<lparr>rdp_mppc := Some e'\<rparr>"] by simp
  next
    case False
    let ?d = "map (outputBuffer e') [0..<bytes_in_opb e']"
    have b: "bytes_in_opb e' \<le> 16300" "length ?d \<le> 16300" "0 \<le> enc_flags e'" "enc_flags e' < 256" "buf_len e' = 65536"
      using r(2,4) False len by (auto simp: mppc_ok_def)
    obtain so where so: "opb_stream e' (rdp_hdr ?s + 18) ?s (rdp_hdr ?s) (int (bytes_in_opb e') + 18) = Some so" "data_ready (rdp_level self) so ?d"
      by (rule opb_data_ready [OF ready b(1,5)])
    have "compress_at (rdp_mppc self) ?s (s_p ?s + 18) (18 + int (length x) - 18) = Some (r, Some e')" using r(1) e(1) by simp
    note run = send_data_bulk [OF n on this False so(1)]
    have "mppc_receive h (enc_flags e', ?d) = (x, h')" using h'(1) r(3) False by simp
    from data_pdu_delivered [OF hyps so(2) b(2) type b(3,4) this _ _ refl,
        of "\<lambda>s'. self\<lparr>rdp_mppc := Some (opb_after e' (rdp_hdr ?s + 18) s')\<rparr>" "Some e'" "18 + int (length x)" "int (bytes_in_opb e') + 18"]
    show ?thesis unfolding run using h'(2) by (simp add: bulk_synced_def synced_opb_after add.commute)
  qed
qed

text \<open>C17. A data PDU leaves as one packet on the global channel: behind the share-data header stands the data, or
  its compressed form when the session is up and the client asked for compression, and a client that decompresses with
  its own history gets the type and the data back; the length in the header is the length of the PDU. The keys advance by
  this packet, and the encoder and the client's history agree again.\<close>

theorem data_pdu_sent:
  assumes "crypto_ok (env_crypto env) dual" and "quiet_callback (env_mcs_callback env)" and "writer_ok (rdp_trans self)"
    and "length x \<le> 16300" "length x \<noteq> 1" and "0 \<le> type" "type < 256" and "s_size s0 \<le> 32768"
    and "s = s_mark_end (emit (xrdp_rdp_init_data self s0) x)"
    and "bulk_synced self (if rdp_compression self \<noteq> 0 then 2 else 0) h"
  shows "wp (xrdp_rdp_send_data env self s type) (\<lambda>(r, self'). (r = 0 \<or> r = 1) \<and>
     (\<exists>pdu h'. data_sent env self pdu r self' \<and> client_data h pdu = ((int (length pdu), type, x), h')
        \<and> bulk_synced self' (if rdp_compression self \<noteq> 0 then 2 else 0) h'))"
proof (fold data_delivered_def)
  let ?s = "s_pop_layer s rdp_hdr"
  have ready: "data_ready (rdp_level self) ?s x" using init_data_ready [OF assms(4,8), of self] unfolding assms(9) .
  have n: "s_end ?s - s_p ?s = 18 + int (length x)" using ready by (auto simp: data_ready_def)
  have plain: "wp (xrdp_rdp_send_data env self s type) (data_delivered env self h type x)"
    if "(if rdp_compression self \<noteq> 0 \<and> up_and_running self \<noteq> 0
       then compress_at (rdp_mppc self) ?s (s_p ?s + 18) (18 + int (length x) - 18) else Some (0, rdp_mppc self)) = Some (0, rdp_mppc self)"
    unfolding send_data_plain [OF n that]
    by (rule data_pdu_delivered [OF assms(1-3) ready assms(4,6,7) _ _ _ _ _ refl]) (use assms(10) mppc_receive_plain in simp_all)
  show "wp (xrdp_rdp_send_data env self s type) (data_delivered env self h type x)"
  proof (cases "rdp_compression self \<noteq> 0 \<and> up_and_running self \<noteq> 0 \<and> x \<noteq> []")
    case False
    then show ?thesis by (intro plain) (cases "rdp_mppc self"; auto simp: compress_at_def compress_rdp_def)
  next
    case True
    then obtain e where e: "rdp_mppc self = Some e" "synced e h" using assms(10) by (auto simp: bulk_synced_def)
    have "packet_fits x" using True assms(4,5) by (cases x; cases "tl x") (auto simp: packet_fits_def)
    with True e show ?thesis by (intro data_pdu_compressed [OF assms(1-4,6,7) ready]) auto
  qed
qed

theorem data_pdu_sent_witness:
  "wp (xrdp_rdp_send_data demo_env (demo_rdp [Tx_Accept 40000])
      (s_mark_end (emit (xrdp_rdp_init_data (demo_rdp [Tx_Accept 40000]) make_stream) (replicate 100 7))) RDP_DATA_PDU_LOGON)
     (\<lambda>(r, self'). \<exists>pdu h'. client_data [] pdu = ((int (length pdu), RDP_DATA_PDU_LOGON, replicate 100 7), h'))"
proof -
  have "bulk_synced (demo_rdp [Tx_Accept 40000]) (if rdp_compression (demo_rdp [Tx_Accept 40000]) \<noteq> 0 then 2 else 0) []"
    using demo_synced by simp
  with data_pdu_sent [OF _ _ _ _ _ _ _ _ refl this, of demo_env "(=)" "replicate 100 7" RDP_DATA_PDU_LOGON make_stream] demo_crypto_ok
  show ?thesis by (auto elim!: wp_mono)
qed

end
