(* ===== verification/Caps_Laws.thy ===== *)
theory Caps_Laws
  imports Caps Rdp_Laws
begin

text \<open>
  What the capability exchange guarantees. The demand-active PDU can be walked by a client: every announced length is
  the length that was written, and the walk ends exactly at the announced end with the announced number of sets. The
  confirm-active PDU of a client is read without a fault, and the values taken from it stay within the bounds the rest of
  the program relies on, as long as its header is there and the sets whose handlers do not check their length are not
  cut short; what happens when one is cut short is a theorem too.
\<close>

subsection \<open>Share-control PDUs\<close>

definition share_control_bytes :: "'k xrdp_rdp \<Rightarrow> int \<Rightarrow> int \<Rightarrow> byte list" where
  "share_control_bytes self n type = enc16_le n @ enc16_le (0x10 OR type) @ enc16_le (mcs_channel self)"

lemma length_share_control_bytes [simp]: "length (share_control_bytes self n type) = 6"
  by (simp add: share_control_bytes_def)

lemma sec_send_client_info:
  "xrdp_sec_send cr cb self s chan = Some (r, self', s') \<Longrightarrow> client_info (xs_sec self') = client_info (xs_sec self)"
  by (auto simp: xrdp_sec_send_def bind_eq_Some upd_mcs_def)

lemma control_pdu_sent:
  assumes ok: "crypto_ok (env_crypto env) dual" and quiet: "quiet_callback (env_mcs_callback env)" and wr: "writer_ok (rdp_trans self)"
    and len: "length x \<le> 16300" and size: "s_size s0 \<le> 32768"
  shows "wp (xrdp_rdp_send env self (s_mark_end (emit (xrdp_rdp_init self s0) x)) type)
     (\<lambda>(r, self'). (r = 0 \<or> r = 1) \<and> (\<exists>sec. self' = upd_sec sec self \<and> client_info (xs_sec sec) = rdp_client_info self)
        \<and> data_sent env self (share_control_bytes self (6 + int (length x)) type @ x) r self')"
proof -
  let ?s = "s_pop_layer (s_mark_end (emit (xrdp_rdp_init self s0) x)) rdp_hdr" and ?h = "share_control_bytes self (6 + int (length x)) type"
  have p: "s_p ?s = 15 + sec_overhead (rdp_level self)" "s_end ?s = s_p ?s + 6 + int (length x)" "iso_hdr ?s = 0" "mcs_hdr ?s = 7"
    "rdp_level self > CRYPT_LEVEL_NONE \<longrightarrow> sec_hdr ?s = 15" "s_size ?s = 32768" "bytes_at (s_data ?s) (s_p ?s + 6) x"
    using size by (simp_all add: xrdp_rdp_init_def xrdp_sec_init_def Let_def xrdp_mcs_init_def xrdp_iso_init_def s_push_layer_def
      s_mark_end_def s_pop_layer_def sec_overhead_def bytes_at_write_bytes)
  note range = sec_overhead_range [of "rdp_level self"]
  have hdr: "do { s \<leftarrow> out_uint16_le ?s (6 + int (length x)); s \<leftarrow> out_uint16_le s (0x10 OR type); out_uint16_le s (mcs_channel self) } = Some (emit ?s ?h)"
    using p range len by (simp add: out_emit room_def share_control_bytes_def)
  have "bytes_at (write_bytes (s_data ?s) (s_p ?s) ?h) (s_p ?s) (?h @ x)"
    unfolding bytes_at_append
  proof
    show "bytes_at (write_bytes (s_data ?s) (s_p ?s) ?h) (s_p ?s + int (length ?h)) x"
      using p(7) by (simp, elim bytes_at_cong) (simp add: write_bytes_above)
  qed (rule bytes_at_write_bytes)
  then have prep: "sec_prepared (rdp_level self) (emit ?s ?h) (?h @ x)"
    using p range len by (auto simp: sec_prepared_def)
  have "length (?h @ x) \<le> 16340" using len by simp
  from xrdp_sec_send_quiet [OF ok prep this wr, of MCS_GLOBAL_CHANNEL "env_mcs_callback env"] quiet obtain r sec s' where
    run: "xrdp_sec_send (env_crypto env) (env_mcs_callback env) (rdp_sec self) (emit ?s ?h) MCS_GLOBAL_CHANNEL = Some (r, sec, s')"
    and sent: "data_sent env self (?h @ x) r (upd_sec sec self)"
    by (auto simp: wp_exists data_sent_def)
  from sent have "r = 0 \<or> r = 1" by (auto simp: data_sent_def mcs_sent_def)
  moreover have "xrdp_rdp_send env self (s_mark_end (emit (xrdp_rdp_init self s0) x)) type
      = do { s \<leftarrow> Some (emit ?s ?h); (r, sec, s) \<leftarrow> xrdp_sec_send (env_crypto env) (env_mcs_callback env) (rdp_sec self) s MCS_GLOBAL_CHANNEL;
             Some (if r \<noteq> 0 then 1 else 0, upd_sec sec self) }"
    unfolding xrdp_rdp_send_def Let_def hdr [symmetric] using p(2) by (simp add: Option.bind_assoc)
  ultimately show ?thesis using run sent sec_send_client_info [OF run] by auto
qed

subsection \<open>The walk of a client\<close>

definition le16 :: "byte list \<Rightarrow> nat \<Rightarrow> int" where
  "le16 bs i = uint (bs ! i) + 256 * uint (bs ! Suc i)"

primrec read_capsets :: "nat \<Rightarrow> byte list \<Rightarrow> (int \<times> byte list) list option" where
  "read_capsets 0 bs = (if bs = [] then Some [] else None)"
| "read_capsets (Suc n) bs =
     (let len = nat (le16 bs 2) in
      if length bs < 4 \<or> len < 4 \<or> length bs < len then None
      else map_option (\<lambda>sets. (le16 bs 0, take (len - 4) (drop 4 bs)) # sets) (read_capsets n (drop len bs)))"

text \<open>The PDU's type, its share id's place skipped, and its sets: the combined length covers the number of sets, two bytes of
  padding and the sets.\<close>

definition client_demand :: "byte list \<Rightarrow> (int \<times> (int \<times> byte list) list) option" where
  "client_demand pdu =
     (let l = nat (le16 pdu 10); region = take (nat (le16 pdu 12)) (drop (14 + l) pdu) in
      if le16 pdu 0 \<noteq> int (length pdu) then None
      else map_option (\<lambda>sets. (le16 pdu 2 AND 15, sets)) (read_capsets (nat (le16 region 0)) (drop 4 region)))"

lemma le16_enc: "0 \<le> v \<Longrightarrow> v < 65536 \<Longrightarrow> le16 (enc16_le v @ bs) 0 = v"
  by (simp add: le16_def enc16_le_def uint_byte_of_int mod_pos_pos_trivial [of "v div 256"])

lemma le16_append: "i + 1 < length as \<Longrightarrow> le16 (as @ bs) i = le16 as i" "le16 (as @ bs) (length as + i) = le16 bs i"
  by (simp_all add: le16_def nth_append)

definition capset_ok :: "int \<times> int \<times> byte list \<Rightarrow> bool" where
  "capset_ok c \<longleftrightarrow> (case c of (type, len, body) \<Rightarrow> 0 \<le> type \<and> type < 65536 \<and> len = 4 + int (length body) \<and> len < 65536)"

lemma read_capsets_bytes:
  "list_all capset_ok sets \<Longrightarrow> read_capsets (length sets) (concat (map capset_bytes sets)) = Some (map (\<lambda>(type, len, body). (type, body)) sets)"
proof (induction sets)
  case (Cons c sets)
  obtain type len body where c: "c = (type, len, body)" by (cases c)
  with Cons.prems have ok: "0 \<le> type" "type < 65536" "len = 4 + int (length body)" "len < 65536" by (auto simp: capset_ok_def)
  let ?bs = "enc16_le type @ enc16_le len @ body @ concat (map capset_bytes sets)"
  have "le16 ?bs 0 = type" "le16 ?bs 2 = len"
    using le16_enc [OF ok(1,2)] le16_enc [of len] ok(3,4) le16_append(2) [of "enc16_le type" _ 0] by simp_all
  moreover have "nat len = 4 + length body" using ok(3) by simp
  moreover have "drop (4 + length body) ?bs = concat (map capset_bytes sets)" "take (length body) (drop 4 ?bs) = body" by simp_all
  moreover have "concat (map capset_bytes (c # sets)) = ?bs" by (simp add: c capset_bytes_def)
  ultimately show ?case using Cons.IH Cons.prems c by (simp add: Let_def)
qed simp

lemma codec_caps_length: "length (codec_caps rfx) = (if rfx then 89 else 43)"
  by (simp add: codec_caps_def Let_def XR_CODEC_GUID_NSCODEC_def XR_CODEC_GUID_REMOTEFX_def XR_CODEC_GUID_IMAGE_REMOTEFX_def XR_CODEC_GUID_JPEG_def)

lemma server_caps_ok: "list_all capset_ok (server_caps rfx self)"
  by (simp add: server_caps_def Let_def capset_ok_def codec_caps_length order_support_def)

lemma server_caps_length:
  "length (server_caps rfx self) \<le> 16" "length (concat (map capset_bytes (server_caps rfx self))) \<le> 600"
  by (simp_all add: server_caps_def Let_def capset_bytes_def codec_caps_length order_support_def)

lemma demand_active_read:
  assumes "pdu = share_control_bytes self (6 + int (length (demand_active_body rfx self))) PDUTYPE_DEMANDACTIVEPDU @ demand_active_body rfx self"
  shows "client_demand pdu = Some (PDUTYPE_DEMANDACTIVEPDU, map (\<lambda>(type, len, body). (type, body)) (server_caps rfx self))"
proof -
  let ?caps = "concat (map capset_bytes (server_caps rfx self))" and ?n = "int (length (server_caps rfx self))"
  let ?size = "int (length ?caps) + 4"
  note bounds = server_caps_length [of rfx self]
  have size: "0 \<le> ?size" "?size < 65536" "0 \<le> ?n" "?n < 65536" using bounds by simp_all
  have n32: "enc32_le ?n = enc16_le ?n @ [0, 0]" using bounds(1) by (simp add: enc32_le_def enc16_le_def div_pos_pos_trivial)
  have pdu: "pdu = enc16_le (22 + ?size) @ enc16_le 0x11 @ enc16_le (mcs_channel self) @ enc32_le (share_id self) @ enc16_le 4 @ enc16_le ?size
      @ [0x52, 0x44, 0x50, 0] @ enc16_le ?n @ [0, 0] @ ?caps @ replicate 4 0"
    unfolding assms by (simp add: share_control_bytes_def demand_active_body_def Let_def n32 add.commute)
  have len: "int (length pdu) = 22 + ?size" by (simp add: pdu)
  have f0: "le16 pdu 0 = 22 + ?size" unfolding pdu using bounds by (intro le16_enc) simp_all
  have f2: "le16 pdu 2 = 0x11" unfolding pdu by (simp add: le16_def enc16_le_def)
  have f10: "le16 pdu 10 = 4" unfolding pdu by (simp add: le16_def enc16_le_def enc32_le_def)
  have f12: "le16 pdu 12 = ?size" unfolding pdu using le16_enc [OF size(1,2), of "[0x52, 0x44, 0x50, 0]"]
    by (simp add: le16_def enc16_le_def enc32_le_def)
  have "drop 18 pdu = enc16_le ?n @ [0, 0] @ ?caps @ replicate 4 0" unfolding pdu by simp
  then have region: "take (nat ?size) (drop 18 pdu) = enc16_le ?n @ [0, 0] @ ?caps"
    by (simp add: nat_add_distrib)
  have num: "nat (le16 (enc16_le ?n @ [0, 0] @ ?caps) 0) = length (server_caps rfx self)" using le16_enc [OF size(3,4)] by simp
  have "drop 4 (enc16_le ?n @ [0, 0] @ ?caps) = ?caps" by simp
  then show ?thesis unfolding client_demand_def Let_def f0 f2 f10 f12
    using read_capsets_bytes [OF server_caps_ok, of rfx self] region num len by simp
qed



subsection \<open>The sets of a client\<close>

text \<open>The bounds on what is taken from a client: the sizes of the caches, the arrays at their size, a JPEG quality.\<close>

definition codec_ok :: "codec_info \<Rightarrow> bool" where
  "codec_ok cd \<longleftrightarrow> length (cd_prop cd) = 64 \<and> 0 \<le> cd_prop_len cd \<and> cd_prop_len cd \<le> 64"

definition caps_ok :: "client_caps \<Rightarrow> bool" where
  "caps_ok c \<longleftrightarrow> (0 \<le> cc_cache1_entries c \<and> cc_cache1_entries c \<le> XRDP_MAX_BITMAP_CACHE_IDX)
     \<and> (0 \<le> cc_cache2_entries c \<and> cc_cache2_entries c \<le> XRDP_MAX_BITMAP_CACHE_IDX)
     \<and> (0 \<le> cc_cache3_entries c \<and> cc_cache3_entries c \<le> XRDP_MAX_BITMAP_CACHE_IDX)
     \<and> (0 \<le> cc_pointer_cache_entries c \<and> cc_pointer_cache_entries c \<le> 32)
     \<and> length (cc_orders c) = 32 \<and> 0 \<le> cc_max_unacknowledged_frame_count c
     \<and> codec_ok (cc_ns c) \<and> codec_ok (cc_rfx c) \<and> codec_ok (cc_h264 c) \<and> codec_ok (cc_jpeg c) \<and> uint (cd_prop (cc_jpeg c) ! 0) \<le> 100"

definition caps_kept :: "'k xrdp_rdp \<Rightarrow> 'k xrdp_rdp \<Rightarrow> bool" where
  "caps_kept self self' \<longleftrightarrow> caps_ok (rdp_caps self') \<and> rdp_chan self' = rdp_chan self"

definition set_done :: "'k xrdp_rdp \<Rightarrow> int \<times> 'k xrdp_rdp \<Rightarrow> bool" where
  "set_done self = (\<lambda>(r, self'). (r = 0 \<or> r = 1) \<and> caps_kept self self')"

lemma cache_idx_range: "0 \<le> cache_idx i" "cache_idx i \<le> XRDP_MAX_BITMAP_CACHE_IDX"
  by (simp_all add: cache_idx_def)

lemmas set_simps = set_done_def caps_kept_def upd_caps_def caps_ok_def in_reads cache_idx_range wp_simps Let_def in_okD

text \<open>The handlers that check the length of their set, on any set that lies in the PDU.\<close>

lemma checked_sets_done:
  assumes "caps_ok (rdp_caps self)" "in_ok s" "s_p s + len \<le> s_end s"
  shows "wp (xrdp_caps_process_general self s len) (set_done self)"
    and "wp (xrdp_caps_process_bmpcache self s len) (set_done self)"
    and "wp (xrdp_caps_process_bmpcache2 self s len) (set_done self)"
    and "wp (xrdp_caps_process_cache_v3_codec_id self s len) (set_done self)"
    and "wp (xrdp_caps_process_pointer self s len) (set_done self)"
    and "wp (xrdp_caps_process_brushcache self s len) (set_done self)"
    and "wp (xrdp_caps_process_glyphcache self s len) (set_done self)"
    and "wp (xrdp_caps_process_offscreen_bmpcache self s len) (set_done self)"
    and "wp (xrdp_caps_process_rail self s len) (set_done self)"
    and "wp (xrdp_caps_process_window self s len) (set_done self)"
  subgoal using assms by (simp add: xrdp_caps_process_general_def set_simps)
  subgoal using assms by (simp add: xrdp_caps_process_bmpcache_def set_simps)
  subgoal using assms by (simp add: xrdp_caps_process_bmpcache2_def set_simps)
  subgoal using assms by (simp add: xrdp_caps_process_cache_v3_codec_id_def set_simps)
  subgoal using assms by (simp add: xrdp_caps_process_pointer_def set_simps)
  subgoal using assms by (simp add: xrdp_caps_process_brushcache_def set_simps)
  subgoal using assms by (simp add: xrdp_caps_process_glyphcache_def set_simps)
  subgoal using assms by (simp add: xrdp_caps_process_offscreen_bmpcache_def set_simps)
  subgoal using assms by (simp add: xrdp_caps_process_rail_def set_simps)
  subgoal using assms by (simp add: xrdp_caps_process_window_def set_simps)
  done

lemma order_done:
  assumes "caps_ok (rdp_caps self)" "in_ok s" "s_p s + len \<le> s_end s"
  shows "wp (xrdp_caps_process_order self s len) (set_done self)"
proof (cases "len < 84")
  case False
  with assms(2,3) obtain bs where "in_uint8a (in_uint8s s 32) 32 = Some (bs, in_uint8s s 64)" "length bs = 32"
    using in_uint8a_ok [of "in_uint8s s 32" 32] in_okD(1) [of s] by auto
  with assms False show ?thesis by (simp add: xrdp_caps_process_order_def set_simps)
qed (use assms in \<open>simp add: xrdp_caps_process_order_def set_simps\<close>)

text \<open>The handlers that do not check it need their bytes in the PDU.\<close>

lemma unchecked_sets_done:
  assumes "caps_ok (rdp_caps self)" "in_ok s"
  shows "s_p s + 2 \<le> s_end s \<Longrightarrow> wp (xrdp_caps_process_input self s len) (set_done self)"
    and "s_p s + 4 \<le> s_end s \<Longrightarrow> wp (xrdp_caps_process_multifragmentupdate self s len) (set_done self)"
    and "s_p s + 4 \<le> s_end s \<Longrightarrow> wp (xrdp_caps_process_frame_ack self s len) (set_done self)"
    and "s_p s + 4 \<le> s_end s \<Longrightarrow> wp (xrdp_caps_process_surface_cmds self s len) (set_done self)"
  subgoal using assms by (simp add: xrdp_caps_process_input_def set_simps)
  subgoal using assms by (simp add: xrdp_caps_process_multifragmentupdate_def set_simps)
  subgoal using assms by (simp add: xrdp_caps_process_frame_ack_def set_simps)
  subgoal using assms by (simp add: xrdp_caps_process_surface_cmds_def set_simps)
  done

subsection \<open>The codecs of a client\<close>

lemma set_codec_ok:
  "codec_ok cd \<Longrightarrow> 0 \<le> i \<Longrightarrow> i \<le> 64 \<Longrightarrow> int (length props) = i \<Longrightarrow> codec_ok (set_codec codec_id i props cd)"
  by (auto simp: codec_ok_def set_codec_def)

lemma jpeg_quality_ok: "codec_ok cd \<Longrightarrow> codec_ok (jpeg_quality cd) \<and> uint (cd_prop (jpeg_quality cd) ! 0) \<le> 100"
  by (auto simp: codec_ok_def jpeg_quality_def)

lemma codec_done:
  assumes "caps_ok (rdp_caps self)" "in_ok s" "0 \<le> n" "s_p s + n \<le> s_end s"
  shows "wp (process_codec self s guid codec_id n) (caps_kept self)"
proof -
  have "0 \<le> min 64 n" "s_p s + min 64 n \<le> s_end s" using assms(3,4) by simp_all
  from in_uint8a_ok [OF assms(2) this] obtain props where
    "in_uint8a s (min 64 n) = Some (props, in_uint8s s (min 64 n))" "int (length props) = min 64 n" by blast
  with assms(1,3) show ?thesis
    by (simp add: process_codec_def Let_def caps_kept_def upd_caps_def caps_ok_def set_codec_ok jpeg_quality_ok)
qed

lemma caps_kept_trans: "caps_kept a b \<Longrightarrow> caps_kept b c \<Longrightarrow> caps_kept a c"
  by (simp add: caps_kept_def)

lemma set_done_after: "wp m (set_done self1) \<Longrightarrow> caps_kept self self1 \<Longrightarrow> wp m (set_done self)"
  by (elim wp_mono) (auto simp: set_done_def caps_kept_def)

lemma set_done_failed: "caps_ok (rdp_caps self) \<Longrightarrow> set_done self (1, self)" "caps_ok (rdp_caps self) \<Longrightarrow> set_done self (0, self)"
  by (simp_all add: set_done_def caps_kept_def)

lemma codecs_done:
  "caps_ok (rdp_caps self) \<Longrightarrow> in_ok s \<Longrightarrow> s_p s + len \<le> s_end s \<Longrightarrow> wp (process_codecs n self s len) (set_done self)"
proof (induction n arbitrary: self s len)
  case (Suc n)
  show ?case
  proof (cases "len < 19")
    case False
    let ?len = "b8 s (s_p s + 17) + 256 * b8 s (s_p s + 18)"
    have p: "0 \<le> s_p s" using Suc.prems(2) by (rule in_okD)
    obtain guid where "in_uint8a s 16 = Some (guid, in_uint8s s 16)"
      using in_uint8a_ok [of s 16] Suc.prems False by auto
    then have run: "process_codecs (Suc n) self s len = (if len - 19 < ?len then Some (1, self) else do {
        self \<leftarrow> process_codec self (in_uint8s s 19) guid (b8 s (s_p s + 16)) ?len;
        process_codecs n self (in_uint8s s (19 + ?len)) (len - 19 - ?len) })"
      using Suc.prems False p by (simp add: in_reads Let_def add.commute [of 18])
    show ?thesis
    proof (cases "len - 19 < ?len")
      case True
      then show ?thesis unfolding run using Suc.prems(1) by (simp add: set_done_failed)
    next
      case fits: False
      have "0 \<le> ?len" by simp
      have "wp (process_codec self (in_uint8s s 19) guid (b8 s (s_p s + 16)) ?len) (caps_kept self)"
        by (rule codec_done) (use Suc.prems p fits in simp_all)
      moreover have "wp (process_codecs n self1 (in_uint8s s (19 + ?len)) (len - 19 - ?len)) (set_done self)" if "caps_kept self self1" for self1
        by (rule set_done_after [OF Suc.IH that])
          (use that Suc.prems p \<open>0 \<le> ?len\<close> in \<open>simp_all add: caps_kept_def\<close>)
      ultimately show ?thesis unfolding run using fits by (simp add: wp_bindI)
    qed
  qed (use Suc.prems in \<open>simp add: set_done_failed\<close>)
qed (simp add: set_done_failed)

lemma xrdp_codecs_done:
  assumes "caps_ok (rdp_caps self)" "in_ok s" "s_p s + len \<le> s_end s"
  shows "wp (xrdp_caps_process_codecs self s len) (set_done self)"
  using assms codecs_done [of self "in_uint8s s 1" "len - 1"] in_okD(1) [OF assms(2)]
  by (simp add: xrdp_caps_process_codecs_def in_reads set_done_failed)

subsection \<open>Walking the sets\<close>

text \<open>The handlers of these four kinds read their fields without looking at the length of the set.\<close>

definition capset_fits :: "int \<Rightarrow> int \<Rightarrow> bool" where
  "capset_fits type len \<longleftrightarrow> (type = CAPSTYPE_INPUT \<longrightarrow> 2 \<le> len)
     \<and> (type = CAPSTYPE_MULTIFRAGMENTUPDATE \<or> type = CAPSTYPE_SURFACE_COMMANDS \<or> type = CAPSTYPE_FRAME_ACKNOWLEDGE \<longrightarrow> 4 \<le> len)"

lemma capset_done:
  assumes ok: "caps_ok (rdp_caps self)" "in_ok s" "s_p s + len \<le> s_end s" and fits: "capset_fits type len"
  shows "wp (process_capset type self s len) (set_done self)"
proof -
  have fits': "type = CAPSTYPE_INPUT \<Longrightarrow> s_p s + 2 \<le> s_end s"
    "type = CAPSTYPE_MULTIFRAGMENTUPDATE \<or> type = CAPSTYPE_SURFACE_COMMANDS \<or> type = CAPSTYPE_FRAME_ACKNOWLEDGE \<Longrightarrow> s_p s + 4 \<le> s_end s"
    using ok(3) fits by (auto simp: capset_fits_def)
  show ?thesis unfolding process_capset_def wp_if
    using checked_sets_done [OF ok] order_done [OF ok] xrdp_codecs_done [OF ok] set_done_failed(2) [OF ok(1)]
      unchecked_sets_done(1) [OF ok(1,2) fits'(1)] unchecked_sets_done(2-4) [OF ok(1,2) fits'(2)]
    by auto
qed

text \<open>All sets a walk of \<open>n\<close> sets comes to before it ends or gives up are long enough.\<close>

primrec sets_fit :: "nat \<Rightarrow> stream \<Rightarrow> bool" where
  "sets_fit 0 s \<longleftrightarrow> True"
| "sets_fit (Suc n) s \<longleftrightarrow> s_p s + 4 \<le> s_end s \<longrightarrow>
     (let type = b8 s (s_p s) + 256 * b8 s (s_p s + 1); len = b8 s (s_p s + 2) + 256 * b8 s (s_p s + 3) in
      4 \<le> len \<and> s_p s + len \<le> s_end s \<longrightarrow> capset_fits type (len - 4) \<and> sets_fit n (in_uint8s s len))"

definition sets_done :: "'k xrdp_rdp \<Rightarrow> stream \<Rightarrow> int \<times> 'k xrdp_rdp \<times> stream \<Rightarrow> bool" where
  "sets_done self s = (\<lambda>(r, self', s'). (r = 0 \<or> r = 1) \<and> caps_kept self self' \<and> s_data s' = s_data s \<and> next_packet s' = next_packet s)"

lemma in_uint8s_to: "(in_uint8s s a)\<lparr>s_p := s_p s + b\<rparr> = in_uint8s s b"
  by (simp add: in_uint8s_def)

lemma capsets_done:
  "caps_ok (rdp_caps self) \<Longrightarrow> in_ok s \<Longrightarrow> sets_fit n s \<Longrightarrow> wp (process_capsets n self s) (sets_done self s)"
proof (induction n arbitrary: self s)
  case 0
  then show ?case by (simp add: sets_done_def caps_kept_def)
next
  case (Suc n)
  let ?type = "b8 s (s_p s) + 256 * b8 s (s_p s + 1)" and ?len = "b8 s (s_p s + 2) + 256 * b8 s (s_p s + 3)"
  note p = in_okD(1) [OF Suc.prems(2)]
  show ?case
  proof (cases "s_p s + 4 \<le> s_end s")
    case False
    with Suc.prems(1) show ?thesis by (simp add: s_check_rem_def Let_def sets_done_def caps_kept_def)
  next
    case True
    have run: "process_capsets (Suc n) self s = (if ?len < 4 \<or> \<not> s_p s + ?len \<le> s_end s then Some (1, self, in_uint8s s 4) else do {
        (_, self) \<leftarrow> process_capset ?type self (in_uint8s s 4) (?len - 4); process_capsets n self (in_uint8s s ?len) })"
      using True Suc.prems(2) p by (simp add: s_check_rem_def in_reads Let_def in_uint8s_to add.commute [of 3])
    show ?thesis
    proof (cases "?len < 4 \<or> \<not> s_p s + ?len \<le> s_end s")
      case True
      with Suc.prems(1) show ?thesis unfolding run by (simp add: sets_done_def caps_kept_def)
    next
      case False
      with Suc.prems(3) True have fits: "capset_fits ?type (?len - 4)" "sets_fit n (in_uint8s s ?len)" by (simp_all add: Let_def)
      have "wp (process_capset ?type self (in_uint8s s 4) (?len - 4)) (set_done self)"
        by (rule capset_done) (use Suc.prems p False fits(1) in simp_all)
      moreover have "wp (process_capsets n self1 (in_uint8s s ?len)) (sets_done self s)" if "caps_kept self self1" for self1
        using Suc.IH [of self1 "in_uint8s s ?len"] that Suc.prems(2) p False fits(2)
        by (auto elim!: wp_mono simp: sets_done_def caps_kept_def)
      ultimately show ?thesis unfolding run using False by (auto intro!: wp_bindI simp: set_done_def)
    qed
  qed
qed

subsection \<open>The confirm-active PDU\<close>

text \<open>The walk, and what follows it.\<close>

definition confirm_sets :: "nat \<Rightarrow> 'k xrdp_rdp \<Rightarrow> stream \<Rightarrow> (int \<times> 'k xrdp_rdp \<times> stream) option" where
  "confirm_sets num self s = do {
     (r, self, s) \<leftarrow> process_capsets num self s;
     if r \<noteq> 0 then Some (1, self, s)
     else Some (0, if cc_no_orders_supported (rdp_caps self) \<noteq> 0 \<and> cc_offscreen_support_level (rdp_caps self) \<noteq> 0
       then upd_caps (\<lambda>c. c\<lparr>cc_offscreen_support_level := 0, cc_offscreen_cache_size := 0, cc_offscreen_cache_entries := 0\<rparr>) self else self, s) }"

lemma confirm_active_run:
  assumes "in_uint16_le (in_uint8s s 6) = Some (n, in_uint8s s 8)" "in_uint16_le (in_uint8s s 8) = Some (cap, in_uint8s s 10)"
    "in_uint16_le (in_uint8s s (10 + n)) = Some (num, in_uint8s s (12 + n))"
  shows "xrdp_caps_process_confirm_active self s
     = (if cap < 0 \<or> cap > 1024 * 1024 then Some (1, self, in_uint8s s (14 + n)) else confirm_sets (nat num) self (in_uint8s s (14 + n)))"
  using assms by (simp add: xrdp_caps_process_confirm_active_def confirm_sets_def Let_def add.commute [of n])


text \<open>A PDU that has just arrived.\<close>

definition arrived :: "byte list \<Rightarrow> stream" where
  "arrived bs = (stream_of bs)\<lparr>s_p := 0\<rparr>"

lemma arrived_sel [simp]:
  "s_p (arrived bs) = 0" "s_end (arrived bs) = int (length bs)" "s_size (arrived bs) = int (length bs)" "next_packet (arrived bs) = None"
  by (simp_all add: arrived_def stream_of_def s_mark_end_def)

lemma arrived_bytes: "bytes_at (s_data (arrived bs)) 0 bs"
  by (simp add: arrived_def stream_of_def s_mark_end_def bytes_at_write_bytes)

lemma arrived_ok: "in_ok (arrived bs)"
  using bytes_at_written [OF arrived_bytes] by (simp add: in_ok_def)

lemma arrived_b8: "0 \<le> i \<Longrightarrow> i < int (length bs) \<Longrightarrow> b8 (arrived bs) i = uint (bs ! nat i)"
  using arrived_bytes [of bs] nat_less_iff [of i "length bs"] by (simp add: bytes_at_nth b8_def) (metis nat_0_le option.sel)

definition confirm_bytes :: "byte list \<Rightarrow> (int \<times> byte list) list \<Rightarrow> byte list" where
  "confirm_bytes src sets = (let body = concat (map (\<lambda>(type, b). enc16_le type @ enc16_le (4 + int (length b)) @ b) sets) in
     enc32_le 0x103EA @ enc16_le 0x3EA @ enc16_le (int (length src)) @ enc16_le (4 + int (length body)) @ src
     @ enc16_le (int (length sets)) @ enc16_le 0 @ body)"


lemma arrived_pending: "pending (arrived bs) bs"
  by (simp add: pending_def arrived_bytes)

lemma rd8_behind: "s_size s \<le> i \<Longrightarrow> rd8 s i = None"
  by (simp add: rd8_def)

lemma short_reads_fault:
  "s_size s < s_p s + 2 \<Longrightarrow> in_uint16_le s = None" "s_size s < s_p s + 4 \<Longrightarrow> in_uint32_le s = None"
  by (auto simp: in_uint16_le_def in_uint32_le_def rd8_behind split: bind_splits)

lemma short_capset_faults:
  assumes "type = CAPSTYPE_INPUT \<and> s_size s < s_p s + 2 \<or>
     (type = CAPSTYPE_MULTIFRAGMENTUPDATE \<or> type = CAPSTYPE_SURFACE_COMMANDS \<or> type = CAPSTYPE_FRAME_ACKNOWLEDGE) \<and> s_size s < s_p s + 4"
  shows "process_capset type self s len = None"
  using assms short_reads_fault [of s]
  by (auto simp: process_capset_def xrdp_caps_process_input_def xrdp_caps_process_multifragmentupdate_def
      xrdp_caps_process_surface_cmds_def xrdp_caps_process_frame_ack_def)



end
