(* ===== verification/Rdp_Input.thy ===== *)
theory Rdp_Input
  imports Caps_Laws
begin

text \<open>
  Data PDUs of a client: slow-path input events reach the window manager one by one and in order, the handlers that only
  read do so within the PDU, and the three that do not check how much is left read behind it.
\<close>

subsection \<open>What a client sends\<close>

text \<open>The share-data header behind the share-control header, for uncompressed data.\<close>

definition client_data_pdu :: "int \<Rightarrow> byte list \<Rightarrow> byte list" where
  "client_data_pdu type body = enc32_le 0x103EA @ enc8 0 @ enc8 1 @ enc16_le (18 + int (length body)) @ enc8 type @ enc8 0
     @ enc16_le (18 + int (length body)) @ body"

lemma client_data_pdu_length [simp]: "length (client_data_pdu type body) = 12 + length body"
  by (simp add: client_data_pdu_def)

lemma process_data_run:
  assumes "pending s (client_data_pdu type body)" "s_end s = s_p s + 12 + int (length body)" "0 \<le> type" "type < 256"
  shows "xrdp_rdp_process_data env self w s = do {
     (self, w, s) \<leftarrow> data_pdu_handler env self w (in_uint8s s 12) type; Some (0, self, w, s) }"
    and "pending (in_uint8s s 12) body"
proof -
  let ?n = "18 + int (length body)"
  have p: "pending (in_uint8s s 6) (enc16_le ?n)" "pending (in_uint8s s 8) (enc8 type)" "pending (in_uint8s s 9) (enc8 0)"
    "pending (in_uint8s s 10) (enc16_le ?n)" "pending (in_uint8s s 12) body"
    using assms(1) unfolding client_data_pdu_def pending_append by (simp_all add: algebra_simps)
  show "pending (in_uint8s s 12) body" by (rule p(5))
  show "xrdp_rdp_process_data env self w s = do {
     (self, w, s) \<leftarrow> data_pdu_handler env self w (in_uint8s s 12) type; Some (0, self, w, s) }"
    using in_uint16_le_pending [OF p(1)] in_uint8_pending [OF p(2)] in_uint8_pending [OF p(3)] in_uint16_le_pending [OF p(4)] assms(2-4)
    by (simp add: xrdp_rdp_process_data_def s_check_rem_def u8_id u8_def)
qed

subsection \<open>Input events\<close>

record input_event =
  ev_time :: int
  ev_msg :: int
  ev_flags :: int
  ev_param1 :: int
  ev_param2 :: int

definition slow_event_ok :: "input_event \<Rightarrow> bool" where
  "slow_event_ok ev \<longleftrightarrow> (0 \<le> ev_msg ev \<and> ev_msg ev < 65536) \<and> (0 \<le> ev_flags ev \<and> ev_flags ev < 65536)
     \<and> (- 32768 \<le> ev_param1 ev \<and> ev_param1 ev < 32768) \<and> (- 32768 \<le> ev_param2 ev \<and> ev_param2 ev < 32768)
     \<and> (- 2147483648 \<le> ev_time ev \<and> ev_time ev < 2147483648)"

definition slow_event_bytes :: "input_event \<Rightarrow> byte list" where
  "slow_event_bytes ev = enc32_le (ev_time ev) @ enc16_le (ev_msg ev) @ enc16_le (ev_flags ev) @ enc16_le (ev_param1 ev) @ enc16_le (ev_param2 ev)"

definition slow_event_call :: "input_event \<Rightarrow> session_call" where
  "slow_event_call ev = Session_Call (ev_msg ev) (ev_param1 ev) (ev_param2 ev) (ev_flags ev) (ev_time ev)"

lemma slow_event_bytes_length [simp]: "length (slow_event_bytes ev) = 12"
  by (simp add: slow_event_bytes_def)

lemma in_sint16_le_pending:
  assumes "pending s (enc16_le v)" "- 32768 \<le> v" "v < 32768"
  shows "in_sint16_le s = Some (v, in_uint8s s 2)"
proof -
  have "v mod 65536 = (if v < 0 then v + 65536 else v)"
    using assms(2,3) mod_add_self2 [of v 65536] by (auto simp del: mod_add_self2 simp: mod_pos_pos_trivial)
  moreover obtain a b where "rd8 s (s_p s) = Some a" "rd8 s (s_p s + 1) = Some b" "a + 256 * b = v mod 65536"
    using in_uint16_le_pending [OF assms(1)] by (auto simp: in_uint16_le_def u16_def bind_eq_Some)
  ultimately show ?thesis using assms(2,3) by (simp add: in_sint16_le_def split: if_splits)
qed

lemma s32_u32: "- 2147483648 \<le> v \<Longrightarrow> v < 2147483648 \<Longrightarrow> s32 (u32 v) = v"
  by (simp add: s32_def u32_def mod_add_left_eq)

lemma input_loop_delivers:
  "list_all slow_event_ok evs \<Longrightarrow> pending s (concat (map slow_event_bytes evs)) \<Longrightarrow> s_p s + 12 * int (length evs) \<le> s_end s \<Longrightarrow>
   data_input_loop env (length evs) w s
     = Some (0, fold (\<lambda>ev. rdp_callback env (slow_event_call ev)) evs w, in_uint8s s (12 * int (length evs)))"
proof (induction evs arbitrary: s w)
  case (Cons ev evs)
  from Cons.prems(2) have p: "pending s (enc32_le (ev_time ev))" "pending (in_uint8s s 4) (enc16_le (ev_msg ev))"
    "pending (in_uint8s s 6) (enc16_le (ev_flags ev))" "pending (in_uint8s s 8) (enc16_le (ev_param1 ev))"
    "pending (in_uint8s s 10) (enc16_le (ev_param2 ev))" "pending (in_uint8s s 12) (concat (map slow_event_bytes evs))"
    by (simp_all add: slow_event_bytes_def [of ev] pending_append)
  have "slow_event_ok ev" using Cons.prems(1) by simp
  then show ?case using Cons.IH [OF _ p(6)] Cons.prems(1,3) in_uint32_le_pending [OF p(1)] in_uint16_le_pending [OF p(2)]
      in_uint16_le_pending [OF p(3)] in_sint16_le_pending [OF p(4)] in_sint16_le_pending [OF p(5)]
    by (simp add: slow_event_ok_def s_check_rem_def u16_id s32_u32 slow_event_call_def algebra_simps)
qed simp

text \<open>C20. The events of a slow-path input PDU reach the callback of the session, all of them, in order, and with the
  parameters the client put in them, negative coordinates included; the layer itself does not change.\<close>

theorem input_events_delivered:
  assumes "list_all slow_event_ok evs" and "length evs < 65536"
    and "pending s (client_data_pdu RDP_DATA_PDU_INPUT (enc16_le (int (length evs)) @ enc16_le 0 @ concat (map slow_event_bytes evs)))"
    and "s_end s = s_p s + 16 + 12 * int (length evs)"
  shows "xrdp_rdp_process_data env self w s
     = Some (0, self, fold (\<lambda>ev. rdp_callback env (slow_event_call ev)) evs w, in_uint8s s (16 + 12 * int (length evs)))"
proof -
  have len: "length (concat (map slow_event_bytes evs)) = 12 * length evs" by (induction evs) simp_all
  have "s_end s = s_p s + 12 + int (length (enc16_le (int (length evs)) @ enc16_le 0 @ concat (map slow_event_bytes evs)))"
    using assms(4) len by simp
  note run = process_data_run [OF assms(3) this]
  then have p: "pending (in_uint8s s 12) (enc16_le (int (length evs)))" "pending (in_uint8s s 16) (concat (map slow_event_bytes evs))"
    by (simp_all add: pending_append)
  have "in_uint16_le (in_uint8s s 12) = Some (int (length evs), in_uint8s s 14)"
    using in_uint16_le_pending [OF p(1)] assms(2) by (simp add: u16_id)
  moreover have "data_input_loop env (length evs) w (in_uint8s s 16)
      = Some (0, fold (\<lambda>ev. rdp_callback env (slow_event_call ev)) evs w, in_uint8s s (16 + 12 * int (length evs)))"
    using input_loop_delivers [OF assms(1) p(2)] assms(4) by simp
  ultimately show ?thesis using run(1) [of env self w] assms(4)
    by (simp add: data_pdu_handler_def xrdp_rdp_process_data_input_def s_check_rem_def)
qed

theorem input_events_delivered_witness:
  "xrdp_rdp_process_data demo_env (demo_rdp []) [] (arrived (client_data_pdu RDP_DATA_PDU_INPUT (enc16_le 1 @ enc16_le 0
      @ slow_event_bytes \<lparr>ev_time = 7, ev_msg = 32769, ev_flags = 2048, ev_param1 = - 3, ev_param2 = 20\<rparr>)))
     = Some (0, demo_rdp [], [Session_Call 32769 (- 3) 20 2048 7], in_uint8s (arrived (client_data_pdu RDP_DATA_PDU_INPUT (enc16_le 1 @ enc16_le 0
      @ slow_event_bytes \<lparr>ev_time = 7, ev_msg = 32769, ev_flags = 2048, ev_param1 = - 3, ev_param2 = 20\<rparr>))) 28)"
proof -
  let ?ev = "\<lparr>ev_time = 7, ev_msg = 32769, ev_flags = 2048, ev_param1 = - 3, ev_param2 = 20\<rparr>"
  let ?b = "client_data_pdu RDP_DATA_PDU_INPUT (enc16_le 1 @ enc16_le 0 @ slow_event_bytes ?ev)"
  have "list_all slow_event_ok [?ev]" by (simp add: slow_event_ok_def)
  from input_events_delivered [OF this, of "arrived ?b" demo_env "demo_rdp []" "[]"] arrived_pending [of ?b]
  show ?thesis by (simp add: rdp_callback_def slow_event_call_def)
qed

subsection \<open>Handlers that stay within the PDU\<close>

definition input_done :: "stream \<Rightarrow> int \<times> 'w \<times> stream \<Rightarrow> bool" where
  "input_done s = (\<lambda>(r, w, s'). (r = 0 \<or> r = 1) \<and> s_data s' = s_data s \<and> s_end s' = s_end s \<and> next_packet s' = next_packet s)"

lemma in_sint16_le_ok:
  "in_ok s \<Longrightarrow> s_p s + 2 \<le> s_end s \<Longrightarrow> \<exists>v. in_sint16_le s = Some (v, in_uint8s s 2)"
  using rd8_ok [of s "s_p s"] rd8_ok [of s "s_p s + 1"] by (simp add: in_sint16_le_def in_okD)

lemma input_loop_done: "in_ok s \<Longrightarrow> wp (data_input_loop env n w s) (input_done s)"
proof (induction n arbitrary: w s)
  case (Suc n)
  show ?case
  proof (cases "s_p s + 12 \<le> s_end s")
    case True
    have p: "0 \<le> s_p s" using Suc.prems by (rule in_okD)
    obtain a b where "in_sint16_le (in_uint8s s 8) = Some (a, in_uint8s s 10)" "in_sint16_le (in_uint8s s 10) = Some (b, in_uint8s s 12)"
      using in_sint16_le_ok [of "in_uint8s s 8"] in_sint16_le_ok [of "in_uint8s s 10"] Suc.prems True p by auto
    with Suc.prems True p Suc.IH [of "in_uint8s s 12"] show ?thesis
      by (simp add: s_check_rem_def in_reads input_done_def)
  qed (simp add: s_check_rem_def input_done_def)
qed (simp add: input_done_def)

lemma screen_loop_done: "in_ok s \<Longrightarrow> wp (screen_update_loop env n w s) (input_done s)"
proof (induction n arbitrary: w s)
  case (Suc n)
  show ?case
  proof (cases "s_p s + 8 \<le> s_end s")
    case True
    with Suc.prems Suc.IH [of "in_uint8s s 8"] in_okD(1) [OF Suc.prems] show ?thesis
      by (simp add: s_check_rem_def in_reads input_done_def)
  qed (simp add: s_check_rem_def input_done_def)
qed (simp add: input_done_def)

lemma process_input_done:
  assumes "in_ok s"
  shows "wp (xrdp_rdp_process_data_input env w s) (input_done s)"
  using assms in_okD(1) [OF assms] input_loop_done [of "in_uint8s s 4" env _ w]
  by (simp add: xrdp_rdp_process_data_input_def s_check_rem_def in_reads input_done_def)

lemma process_screen_done:
  assumes "in_ok s"
  shows "wp (xrdp_rdp_process_screen_update env w s) (input_done s)"
  using assms in_okD(1) [OF assms] screen_loop_done [of "in_uint8s s 4" env _ w]
  by (simp add: xrdp_rdp_process_screen_update_def s_check_rem_def in_reads input_done_def)

lemma process_suppress_done:
  assumes "in_ok s"
  shows "wp (xrdp_rdp_process_suppress env self w s) (\<lambda>(r, self', w', s'). input_done s (r, w', s') \<and> (\<exists>v. self' = self\<lparr>suppress_output := v\<rparr>))"
  using assms in_okD(1) [OF assms]
  by (auto simp: xrdp_rdp_process_suppress_def s_check_rem_def in_reads input_done_def wp_simps Let_def
      intro: exI [of _ "suppress_output self"])

definition data_done :: "'k xrdp_rdp \<Rightarrow> stream \<Rightarrow> 'k xrdp_rdp \<times> 'w \<times> stream \<Rightarrow> bool" where
  "data_done self s = (\<lambda>(self', w, s'). (\<exists>v. self' = self\<lparr>suppress_output := v\<rparr>) \<and> s_data s' = s_data s \<and> s_end s' = s_end s
     \<and> next_packet s' = next_packet s)"

lemma data_done_same: "data_done self s (self, w, in_uint8s s n)"
  by (auto simp: data_done_def intro: exI [of _ "suppress_output self"])

lemma handler_done:
  fixes env :: "('k, 'w) rdp_env" and w :: 'w
  assumes "in_ok s" "type \<noteq> RDP_DATA_PDU_CONTROL" "type \<noteq> 36" "type \<noteq> RDP_DATA_PDU_FONT2" "type = 56 \<longrightarrow> s_p s + 4 \<le> s_end s"
  shows "wp (data_pdu_handler env self w s type) (data_done self s)"
proof -
  have same: "data_done self s (self, w, s)" for w :: 'w using data_done_same [of self s w 0] by simp
  have w: "wp (do { (_, w, s) \<leftarrow> m; Some (self, w, s) }) (data_done self s)" if "wp m (input_done s)" for m :: "(int \<times> 'w \<times> stream) option"
    using that same by (auto simp: wp_exists input_done_def data_done_def)
  have f: "wp (xrdp_rdp_process_frame_ack env w s) (input_done s)" if "type = 56"
    using that assms(1,5) by (simp add: xrdp_rdp_process_frame_ack_def in_reads input_done_def)
  have p: "wp (do { (_, self, w, s) \<leftarrow> xrdp_rdp_process_suppress env self w s; Some (self, w, s) }) (data_done self s)"
    using process_suppress_done [OF assms(1), of env self w] by (auto simp: wp_exists input_done_def data_done_def)
  show ?thesis unfolding data_pdu_handler_def
    using assms(2-4) same w [OF process_input_done [OF assms(1), of env w]] w [OF process_screen_done [OF assms(1), of env w]] w [OF f] p by (simp add: wp_if)
qed

text \<open>C21. Input, refresh, suppress-output and all unknown data PDUs are read within what was received, whatever is in
  them; so is a frame acknowledgement that has its four bytes. The layer is left as it was but for the flag that
  suppresses output.\<close>

theorem data_pdu_safe:
  assumes "in_ok s" and "type = b8 s (s_p s + 8)" and "type \<noteq> RDP_DATA_PDU_CONTROL" "type \<noteq> 36" "type \<noteq> RDP_DATA_PDU_FONT2"
    and "type = 56 \<longrightarrow> s_p s + 16 \<le> s_end s"
  shows "wp (xrdp_rdp_process_data env self w s) (\<lambda>(r, self', w', s'). (r = 0 \<or> r = 1) \<and> (\<exists>v. self' = self\<lparr>suppress_output := v\<rparr>)
     \<and> s_data s' = s_data s \<and> s_end s' = s_end s \<and> next_packet s' = next_packet s)"
proof -
  note p = in_okD(1) [OF assms(1)]
  have same: "\<exists>v. self = self\<lparr>suppress_output := v\<rparr>" by (auto intro: exI [of _ "suppress_output self"])
  show ?thesis
  proof (cases "s_p s + 12 \<le> s_end s")
    case True
    have "wp (data_pdu_handler env self w (in_uint8s s 12) type) (data_done self (in_uint8s s 12))"
      by (rule handler_done) (use assms p in auto)
    with same True assms(1) p show ?thesis
      by (auto simp: xrdp_rdp_process_data_def s_check_rem_def in_reads assms(2) wp_exists data_done_def)
  qed (use same in \<open>simp add: xrdp_rdp_process_data_def s_check_rem_def\<close>)
qed

theorem data_pdu_safe_witness:
  "wp (xrdp_rdp_process_data demo_env (demo_rdp []) [] (arrived (client_data_pdu 35 [1, 0, 0]))) (\<lambda>(r, self', w', s'). r = 0 \<or> r = 1)"
proof -
  have "35 = b8 (arrived (client_data_pdu 35 [1, 0, 0])) (s_p (arrived (client_data_pdu 35 [1, 0, 0])) + 8)"
    by (simp add: arrived_b8) (simp add: client_data_pdu_def enc8_def enc16_le_def enc32_le_def)
  from data_pdu_safe [OF arrived_ok this, of demo_env "demo_rdp []" "[]"] show ?thesis by (auto elim!: wp_mono)
qed

subsection \<open>Handlers that read behind it\<close>

lemma in_uint8s_size_fault:
  "s_size s < s_p s + n + 2 \<Longrightarrow> in_uint16_le (in_uint8s s n) = None"
  using short_reads_fault(1) [of "in_uint8s s n"] by simp

text \<open>The handlers of the control, font-list and frame-acknowledge PDUs do not check how many bytes are left: a PDU
  of one of these types that ends before the field they look at makes the server read behind what was received.\<close>

theorem truncated_data_pdu_faults:
  assumes "type = RDP_DATA_PDU_CONTROL \<and> length body < 2 \<or> type = RDP_DATA_PDU_FONT2 \<and> length body < 6 \<or> type = 56 \<and> length body < 4"
  shows "xrdp_rdp_process_data env self w (arrived (client_data_pdu type body)) = None"
proof -
  let ?s = "arrived (client_data_pdu type body)"
  have "0 \<le> type" "type < 256" using assms by auto
  note run = process_data_run(1) [OF arrived_pending _ this, of body env self w]
  have "data_pdu_handler env self w (in_uint8s ?s 12) type = None"
    using assms in_uint8s_size_fault [of ?s 12] in_uint8s_size_fault [of ?s 16] short_reads_fault(2) [of "in_uint8s ?s 12"]
    by (auto simp: data_pdu_handler_def xrdp_rdp_process_data_control_def xrdp_rdp_process_data_font_def xrdp_rdp_process_frame_ack_def Let_def)
  with run show ?thesis by simp
qed

theorem truncated_data_pdu_faults_witness:
  "xrdp_rdp_process_data demo_env (demo_rdp []) [] (arrived (client_data_pdu RDP_DATA_PDU_FONT2 [0, 0, 0, 0])) = None"
  by (rule truncated_data_pdu_faults) simp

end
