(* ===== verification/Orders.thy ===== *)
theory Orders
  imports Rdp
begin

text \<open>
  The drawing orders (\<open>libxrdp/xrdp_orders.c\<close>). Orders are collected in the stream \<open>out_s\<close> behind a count and leave
  as one update. A primary order only carries the fields that differ from the last order of its kind, which both sides
  remember: \<open>struct xrdp_orders_state\<close> is the server's memory, here one record for each kind of order.

  The stream is the one the update layer wraps, and pointers into it are offsets. The layers below encrypt in place
  when the update is sent; what they leave in \<open>out_s\<close> is never looked at again, so the stream keeps its bytes here.
\<close>

abbreviation (input) TS_STANDARD :: int where "TS_STANDARD \<equiv> 0x01"
abbreviation (input) TS_SECONDARY :: int where "TS_SECONDARY \<equiv> 0x02"
abbreviation (input) TS_BOUNDS :: int where "TS_BOUNDS \<equiv> 0x04"
abbreviation (input) TS_TYPE_CHANGE :: int where "TS_TYPE_CHANGE \<equiv> 0x08"
abbreviation (input) TS_DELTA_COORDINATES :: int where "TS_DELTA_COORDINATES \<equiv> 0x10"
abbreviation (input) TS_ZERO_BOUNDS_DELTAS :: int where "TS_ZERO_BOUNDS_DELTAS \<equiv> 0x20"
abbreviation (input) RDP_ORDER_DESTBLT :: int where "RDP_ORDER_DESTBLT \<equiv> 0"
abbreviation (input) RDP_ORDER_PATBLT :: int where "RDP_ORDER_PATBLT \<equiv> 1"
abbreviation (input) RDP_ORDER_SCREENBLT :: int where "RDP_ORDER_SCREENBLT \<equiv> 2"
abbreviation (input) RDP_ORDER_LINE :: int where "RDP_ORDER_LINE \<equiv> 9"
abbreviation (input) RDP_ORDER_RECT :: int where "RDP_ORDER_RECT \<equiv> 10"
abbreviation (input) RDP_ORDER_MEMBLT :: int where "RDP_ORDER_MEMBLT \<equiv> 13"
abbreviation (input) RDP_ORDER_TEXT2 :: int where "RDP_ORDER_TEXT2 \<equiv> 27"
abbreviation (input) RDP_ORDER_COMPOSITE :: int where "RDP_ORDER_COMPOSITE \<equiv> 37"
abbreviation (input) RDP_UPDATE_ORDERS :: int where "RDP_UPDATE_ORDERS \<equiv> 0"
abbreviation (input) FASTPATH_UPDATETYPE_ORDERS :: int where "FASTPATH_UPDATETYPE_ORDERS \<equiv> 0"

subsection \<open>The memory of both sides\<close>

record xrdp_brush =
  br_x_origin :: int
  br_y_origin :: int
  br_style :: int
  br_pattern :: "int list"

record xrdp_pen =
  pn_style :: int
  pn_width :: int
  pn_color :: int

record xrdp_rect =
  rc_left :: int
  rc_top :: int
  rc_right :: int
  rc_bottom :: int

record rect_state =
  rect_x :: int
  rect_y :: int
  rect_cx :: int
  rect_cy :: int
  rect_color :: int

record scr_blt_state =
  scr_x :: int
  scr_y :: int
  scr_cx :: int
  scr_cy :: int
  scr_rop :: int
  scr_srcx :: int
  scr_srcy :: int

record pat_blt_state =
  pat_x :: int
  pat_y :: int
  pat_cx :: int
  pat_cy :: int
  pat_rop :: int
  pat_bg_color :: int
  pat_fg_color :: int
  pat_brush :: xrdp_brush

record dest_blt_state =
  dest_x :: int
  dest_y :: int
  dest_cx :: int
  dest_cy :: int
  dest_rop :: int

record line_state =
  line_mix_mode :: int
  line_startx :: int
  line_starty :: int
  line_endx :: int
  line_endy :: int
  line_bg_color :: int
  line_rop :: int
  line_pen :: xrdp_pen

record mem_blt_state =
  mem_color_table :: int
  mem_cache_id :: int
  mem_x :: int
  mem_y :: int
  mem_cx :: int
  mem_cy :: int
  mem_rop :: int
  mem_srcx :: int
  mem_srcy :: int
  mem_cache_idx :: int

record text_state =
  text_font :: int
  text_flags :: int
  text_mixmode :: int
  text_fg_color :: int
  text_bg_color :: int
  text_clip :: xrdp_rect
  text_box :: xrdp_rect
  text_x :: int
  text_y :: int

record com_blt_state =
  com_srcidx :: int
  com_srcformat :: int
  com_srcwidth :: int
  com_srcrepeat :: int
  com_srctransform :: "int list"
  com_mskflags :: int
  com_mskidx :: int
  com_mskformat :: int
  com_mskwidth :: int
  com_mskrepeat :: int
  com_op :: int
  com_srcx :: int
  com_srcy :: int
  com_mskx :: int
  com_msky :: int
  com_dstx :: int
  com_dsty :: int
  com_width :: int
  com_height :: int
  com_dstformat :: int

record xrdp_orders_state =
  last_order :: int
  clip :: xrdp_rect
  os_rect :: rect_state
  os_scr :: scr_blt_state
  os_pat :: pat_blt_state
  os_dest :: dest_blt_state
  os_line :: line_state
  os_mem :: mem_blt_state
  os_text :: text_state
  os_com :: com_blt_state

record 'k xrdp_orders =
  out_s :: stream
  ord_rdp :: "'k xrdp_rdp"
  order_count_ptr :: int
  order_count :: int
  order_level :: int
  orders_state :: xrdp_orders_state

text \<open>All values zero, but for the right and bottom of the clip, which are one behind the last column and row.\<close>

definition zero_rect :: xrdp_rect where
  "zero_rect = \<lparr>rc_left = 0, rc_top = 0, rc_right = 0, rc_bottom = 0\<rparr>"

definition blank_brush :: xrdp_brush where
  "blank_brush = \<lparr>br_x_origin = 0, br_y_origin = 0, br_style = 0, br_pattern = replicate 8 0\<rparr>"

definition blank_pen :: xrdp_pen where
  "blank_pen = \<lparr>pn_style = 0, pn_width = 0, pn_color = 0\<rparr>"

definition fresh_orders_state :: xrdp_orders_state where
  "fresh_orders_state = \<lparr>last_order = 0, clip = zero_rect\<lparr>rc_right := 1, rc_bottom := 1\<rparr>,
     os_rect = \<lparr>rect_x = 0, rect_y = 0, rect_cx = 0, rect_cy = 0, rect_color = 0\<rparr>,
     os_scr = \<lparr>scr_x = 0, scr_y = 0, scr_cx = 0, scr_cy = 0, scr_rop = 0, scr_srcx = 0, scr_srcy = 0\<rparr>,
     os_pat = \<lparr>pat_x = 0, pat_y = 0, pat_cx = 0, pat_cy = 0, pat_rop = 0, pat_bg_color = 0, pat_fg_color = 0, pat_brush = blank_brush\<rparr>,
     os_dest = \<lparr>dest_x = 0, dest_y = 0, dest_cx = 0, dest_cy = 0, dest_rop = 0\<rparr>,
     os_line = \<lparr>line_mix_mode = 0, line_startx = 0, line_starty = 0, line_endx = 0, line_endy = 0, line_bg_color = 0, line_rop = 0, line_pen = blank_pen\<rparr>,
     os_mem = \<lparr>mem_color_table = 0, mem_cache_id = 0, mem_x = 0, mem_y = 0, mem_cx = 0, mem_cy = 0, mem_rop = 0, mem_srcx = 0, mem_srcy = 0, mem_cache_idx = 0\<rparr>,
     os_text = \<lparr>text_font = 0, text_flags = 0, text_mixmode = 0, text_fg_color = 0, text_bg_color = 0, text_clip = zero_rect, text_box = zero_rect, text_x = 0, text_y = 0\<rparr>,
     os_com = \<lparr>com_srcidx = 0, com_srcformat = 0, com_srcwidth = 0, com_srcrepeat = 0, com_srctransform = replicate 10 0, com_mskflags = 0, com_mskidx = 0,
        com_mskformat = 0, com_mskwidth = 0, com_mskrepeat = 0, com_op = 0, com_srcx = 0, com_srcy = 0, com_mskx = 0, com_msky = 0, com_dstx = 0, com_dsty = 0,
        com_width = 0, com_height = 0, com_dstformat = 0\<rparr>\<rparr>"

definition xrdp_orders_create :: "'k xrdp_rdp \<Rightarrow> 'k xrdp_orders" where
  "xrdp_orders_create rdp = \<lparr>out_s = init_stream make_stream (32 * 1024), ord_rdp = rdp, order_count_ptr = 0, order_count = 0, order_level = 0,
     orders_state = fresh_orders_state\<rparr>"

subsection \<open>Collecting orders\<close>

definition xrdp_orders_init :: "'k xrdp_orders \<Rightarrow> (int \<times> 'k xrdp_orders) option" where
  "xrdp_orders_init self =
     (let self = self\<lparr>order_level := order_level self + 1\<rparr> in
      if order_level self = 1
      then let self = self\<lparr>order_count := 0\<rparr> in
        if use_fast_path (ord_rdp self) AND 1 \<noteq> 0
        then do {
          let s = xrdp_rdp_init_fastpath (ord_rdp self) (out_s self);
          s' \<leftarrow> out_uint8s s 2;
          Some (0, self\<lparr>out_s := s', order_count_ptr := s_p s\<rparr>) }
        else do {
          s \<leftarrow> out_uint16_le (xrdp_rdp_init_data (ord_rdp self) (out_s self)) RDP_UPDATE_ORDERS;
          s \<leftarrow> out_uint8s s 2;
          s' \<leftarrow> out_uint8s s 2;
          s' \<leftarrow> out_uint8s s' 2;
          Some (0, self\<lparr>out_s := s', order_count_ptr := s_p s\<rparr>) }
      else Some (0, self))"

text \<open>Filling in the count and handing the update down.\<close>

definition send_update :: "('k, 'w) rdp_env \<Rightarrow> 'k xrdp_orders \<Rightarrow> (int \<times> 'k xrdp_orders) option" where
  "send_update env self = do {
     let s = s_mark_end (out_s self);
     s \<leftarrow> wr8 s (order_count_ptr self) (order_count self);
     s \<leftarrow> wr8 s (order_count_ptr self + 1) (order_count self div 256);
     (r, rdp) \<leftarrow> (if use_fast_path (ord_rdp self) AND 1 \<noteq> 0 then xrdp_rdp_send_fastpath env (ord_rdp self) s FASTPATH_UPDATETYPE_ORDERS
        else xrdp_rdp_send_data env (ord_rdp self) s RDP_DATA_PDU_UPDATE);
     Some (r, self\<lparr>out_s := s, ord_rdp := rdp\<rparr>) }"

definition xrdp_orders_send :: "('k, 'w) rdp_env \<Rightarrow> 'k xrdp_orders \<Rightarrow> (int \<times> 'k xrdp_orders) option" where
  "xrdp_orders_send env self =
     (if order_level self > 0
      then let self = self\<lparr>order_level := order_level self - 1\<rparr> in
        if order_level self = 0 \<and> order_count self > 0
        then do {
          (r, self) \<leftarrow> send_update env self;
          Some (if r \<noteq> 0 then 1 else 0, self\<lparr>order_count := 0\<rparr>) }
        else Some (0, self)
      else Some (0, self))"

definition xrdp_orders_force_send :: "('k, 'w) rdp_env \<Rightarrow> 'k xrdp_orders \<Rightarrow> (int \<times> 'k xrdp_orders) option" where
  "xrdp_orders_force_send env self = do {
     (r, self) \<leftarrow> (if order_level self > 0 \<and> order_count self > 0 then send_update env self else Some (0, self));
     if r \<noteq> 0 then Some (1, self)
     else Some (0, self\<lparr>order_count := 0, order_level := 0\<rparr>) }"

definition xrdp_orders_reset :: "('k, 'w) rdp_env \<Rightarrow> 'k xrdp_orders \<Rightarrow> (int \<times> 'k xrdp_orders) option" where
  "xrdp_orders_reset env self = do {
     (r, self) \<leftarrow> xrdp_orders_force_send env self;
     if r \<noteq> 0 then Some (1, self)
     else Some (0, self\<lparr>orders_state := fresh_orders_state, order_count_ptr := 0, order_count := 0, order_level := 0\<rparr>) }"

definition MAX_ORDERS_SIZE :: "'k xrdp_rdp \<Rightarrow> int" where
  "MAX_ORDERS_SIZE rdp = max (max_frag_bytes rdp) (16 * 1024) - 256"

definition xrdp_orders_check :: "('k, 'w) rdp_env \<Rightarrow> 'k xrdp_orders \<Rightarrow> int \<Rightarrow> (int \<times> 'k xrdp_orders) option" where
  "xrdp_orders_check env self max_size =
     (let max_order_size = MAX_ORDERS_SIZE (ord_rdp self); size = s_p (out_s self) - order_count_ptr self in
      if order_level self < 1
      then if max_size > max_order_size then Some (1, self) else do { (_, self) \<leftarrow> xrdp_orders_init self; Some (0, self) }
      else if size < 0 then Some (1, self)
      else if size + max_size + 100 > max_order_size
      then do {
        (_, self) \<leftarrow> xrdp_orders_force_send env self;
        (_, self) \<leftarrow> xrdp_orders_init self;
        Some (0, self) }
      else Some (0, self))"

subsection \<open>Bounds\<close>

definition xrdp_orders_last_bounds :: "xrdp_orders_state \<Rightarrow> xrdp_rect option \<Rightarrow> bool" where
  "xrdp_orders_last_bounds st rect = (case rect of None \<Rightarrow> False | Some r \<Rightarrow>
     rc_left r = rc_left (clip st) \<and> rc_top r = rc_top (clip st) \<and> rc_right r = rc_right (clip st) \<and> rc_bottom r = rc_bottom (clip st))"

primrec xrdp_orders_send_delta :: "(int \<times> int) list \<Rightarrow> bool" where
  "xrdp_orders_send_delta [] \<longleftrightarrow> True"
| "xrdp_orders_send_delta (v # vals) \<longleftrightarrow> \<not> \<bar>fst v - snd v\<bar> \<ge> 128 \<and> xrdp_orders_send_delta vals"

text \<open>The flag of one edge: nothing when it is the same, \<open>small\<close> when it is near the last one, \<open>large\<close> otherwise.\<close>

definition bound_flag :: "int \<Rightarrow> int \<Rightarrow> int \<Rightarrow> int \<Rightarrow> int" where
  "bound_flag v old small large = (if v = old then 0 else if \<bar>v - old\<bar> < 128 then small else large)"

definition out_bound :: "int \<Rightarrow> int \<Rightarrow> int \<Rightarrow> int \<Rightarrow> int \<Rightarrow> int \<Rightarrow> stream \<Rightarrow> stream option" where
  "out_bound bounds_flags small large v old sent s =
     (if bounds_flags AND large \<noteq> 0 then out_uint16_le s sent
      else if bounds_flags AND small \<noteq> 0 then out_uint8 s (v - old) else Some s)"

definition xrdp_orders_out_bounds :: "xrdp_orders_state \<Rightarrow> xrdp_rect \<Rightarrow> stream \<Rightarrow> (xrdp_orders_state \<times> stream) option" where
  "xrdp_orders_out_bounds st r s =
     (let c = clip st; p = s_p s;
        bounds_flags = bound_flag (rc_left r) (rc_left c) 0x10 0x01 OR bound_flag (rc_top r) (rc_top c) 0x20 0x02
          OR bound_flag (rc_right r) (rc_right c) 0x40 0x04 OR bound_flag (rc_bottom r) (rc_bottom c) 0x80 0x08 in do {
      s \<leftarrow> out_uint8s s 1;
      s \<leftarrow> out_bound bounds_flags 0x10 0x01 (rc_left r) (rc_left c) (rc_left r) s;
      s \<leftarrow> out_bound bounds_flags 0x20 0x02 (rc_top r) (rc_top c) (rc_top r) s;
      s \<leftarrow> out_bound bounds_flags 0x40 0x04 (rc_right r) (rc_right c) (rc_right r - 1) s;
      s \<leftarrow> out_bound bounds_flags 0x80 0x08 (rc_bottom r) (rc_bottom c) (rc_bottom r - 1) s;
      s \<leftarrow> wr8 s p bounds_flags;
      Some (st\<lparr>clip := r\<rparr>, s) })"

subsection \<open>Fields\<close>

text \<open>
  The field of an order: its bit among the present flags, how it is written, the value of this order and the one
  that is remembered. It is written when the two differ; a text is always written.
\<close>

datatype field_kind = Coord | U8s | U16 | U24 | U32s | Text

datatype order_field = Field (fd_bit: nat) (fd_kind: field_kind) (fd_val: "int list") (fd_old: "int list")

definition field_changed :: "order_field \<Rightarrow> bool" where
  "field_changed f \<longleftrightarrow> fd_kind f = Text \<or> fd_val f \<noteq> fd_old f"

primrec out_list :: "(stream \<Rightarrow> int \<Rightarrow> stream option) \<Rightarrow> int list \<Rightarrow> stream \<Rightarrow> stream option" where
  "out_list out [] s = Some s"
| "out_list out (v # vs) s = do { s \<leftarrow> out s v; out_list out vs s }"

definition out_value :: "bool \<Rightarrow> order_field \<Rightarrow> stream \<Rightarrow> stream option" where
  "out_value delta f s = (let v = fd_val f in case fd_kind f of
     Coord \<Rightarrow> if delta then out_uint8 s (v ! 0 - fd_old f ! 0) else out_uint16_le s (v ! 0)
   | U8s \<Rightarrow> out_list out_uint8 v s
   | U16 \<Rightarrow> out_uint16_le s (v ! 0)
   | U24 \<Rightarrow> do { s \<leftarrow> out_uint8 s (v ! 0); s \<leftarrow> out_uint8 s (v ! 0 div 256); out_uint8 s (v ! 0 div 65536) }
   | U32s \<Rightarrow> out_list out_uint32_le v s
   | Text \<Rightarrow> do { s \<leftarrow> out_uint8 s (int (length v)); out_list out_uint8 v s })"

primrec out_fields :: "bool \<Rightarrow> order_field list \<Rightarrow> int \<Rightarrow> stream \<Rightarrow> (int \<times> stream) option" where
  "out_fields delta [] present s = Some (present, s)"
| "out_fields delta (f # fs) present s =
     (if field_changed f then do { s \<leftarrow> out_value delta f s; out_fields delta fs (present OR push_bit (fd_bit f) 1) s }
      else out_fields delta fs present s)"

text \<open>Leading zero bytes of the present flags are left out, and what follows moves up.\<close>

primrec move_up_count :: "int \<Rightarrow> nat \<Rightarrow> nat" where
  "move_up_count present 0 = 0"
| "move_up_count present (Suc n) = (if drop_bit (n * 8) present AND 0xff = 0 then Suc (move_up_count present n) else 0)"

primrec put_present :: "int \<Rightarrow> int \<Rightarrow> nat \<Rightarrow> stream \<Rightarrow> stream option" where
  "put_present present_ptr present 0 s = Some s"
| "put_present present_ptr present (Suc n) s = do { s \<leftarrow> wr8 s (present_ptr + int n) (drop_bit (n * 8) present); put_present present_ptr present n s }"

fun move_bytes :: "int \<Rightarrow> int \<Rightarrow> nat \<Rightarrow> stream \<Rightarrow> stream option" where
  "move_bytes dst src 0 s = Some s"
| "move_bytes dst src (Suc n) s = do { v \<leftarrow> rd8 s src; s \<leftarrow> wr8 s dst v; move_bytes (dst + 1) (src + 1) n s }"

definition xrdp_order_pack_small_or_tiny :: "int \<Rightarrow> int \<Rightarrow> int \<Rightarrow> int \<Rightarrow> nat \<Rightarrow> stream \<Rightarrow> stream option" where
  "xrdp_order_pack_small_or_tiny order_flags_ptr orders_flags present_ptr present present_size s = (let n = move_up_count present present_size in do {
     s \<leftarrow> put_present present_ptr present present_size s;
     (orders_flags, s) \<leftarrow> (if n > 0
       then do {
         let size = s_p s - present_ptr - int present_size;
         s \<leftarrow> move_bytes (present_ptr + int (present_size - n)) (present_ptr + int present_size) (nat size) s;
         Some (orders_flags OR push_bit 6 (int n), s\<lparr>s_p := s_p s - int n\<rparr>) }
       else Some (orders_flags, s));
     wr8 s order_flags_ptr orders_flags })"

subsection \<open>Primary orders\<close>

text \<open>
  What every primary order does: the flags, the header, the bounds when a clip is \<open>needed\<close>, the fields and the packing.
  \<open>delta\<close> says whether all coordinates are near the last ones, \<open>upd\<close> remembers the values of this order.
\<close>

definition order_flags :: "xrdp_orders_state \<Rightarrow> int \<Rightarrow> bool \<Rightarrow> xrdp_rect option \<Rightarrow> bool \<Rightarrow> int" where
  "order_flags st type needed rect delta =
     (let flags = (if last_order st \<noteq> type then TS_STANDARD OR TS_TYPE_CHANGE else TS_STANDARD);
          flags = (if rect \<noteq> None \<and> needed then (if xrdp_orders_last_bounds st rect then flags OR TS_BOUNDS OR TS_ZERO_BOUNDS_DELTAS else flags OR TS_BOUNDS)
                   else flags)
      in if delta then flags OR TS_DELTA_COORDINATES else flags)"

definition out_order ::
  "'k xrdp_orders \<Rightarrow> int \<Rightarrow> nat \<Rightarrow> bool \<Rightarrow> xrdp_rect option \<Rightarrow> bool \<Rightarrow> order_field list \<Rightarrow> (xrdp_orders_state \<Rightarrow> xrdp_orders_state) \<Rightarrow> (int \<times> 'k xrdp_orders) option" where
  "out_order self type present_size needed rect delta fs upd = do {
     let self = self\<lparr>order_count := order_count self + 1\<rparr>;
     let st = orders_state self;
     let flags = order_flags st type needed rect delta;
     let st = st\<lparr>last_order := type\<rparr>;
     let order_flags_ptr = s_p (out_s self);
     s \<leftarrow> out_uint8s (out_s self) 1;
     s \<leftarrow> (if flags AND TS_TYPE_CHANGE \<noteq> 0 then out_uint8 s type else Some s);
     let present_ptr = s_p s;
     s \<leftarrow> out_uint8s s (int present_size);
     (st, s) \<leftarrow> (case rect of
        Some r \<Rightarrow> if flags AND TS_BOUNDS \<noteq> 0 \<and> flags AND TS_ZERO_BOUNDS_DELTAS = 0 then xrdp_orders_out_bounds st r s else Some (st, s)
      | None \<Rightarrow> Some (st, s));
     (present, s) \<leftarrow> out_fields (flags AND TS_DELTA_COORDINATES \<noteq> 0) fs 0 s;
     s \<leftarrow> xrdp_order_pack_small_or_tiny order_flags_ptr flags present_ptr present present_size s;
     Some (0, self\<lparr>out_s := s, orders_state := upd st\<rparr>) }"

text \<open>The clip is needed when the rectangle of the order is not inside it.\<close>

definition clip_needed :: "int \<Rightarrow> int \<Rightarrow> int \<Rightarrow> int \<Rightarrow> xrdp_rect option \<Rightarrow> bool" where
  "clip_needed x y cx cy rect = (case rect of None \<Rightarrow> False | Some r \<Rightarrow>
     x < rc_left r \<or> y < rc_top r \<or> x + cx > rc_right r \<or> y + cy > rc_bottom r)"

definition set_rect_color :: "int \<Rightarrow> int \<Rightarrow> int" where
  "set_rect_color color c =
     (let c = (if color AND 0xff \<noteq> c AND 0xff then (c AND 0xffff00) OR (color AND 0xff) else c);
          c = (if color AND 0xff00 \<noteq> c AND 0xff00 then (c AND 0xff00ff) OR (color AND 0xff00) else c)
      in if color AND 0xff0000 \<noteq> c AND 0xff0000 then (c AND 0x00ffff) OR (color AND 0xff0000) else c)"

definition color_byte :: "nat \<Rightarrow> int \<Rightarrow> int" where
  "color_byte n color = drop_bit (8 * n) color AND 0xff"

definition rect_fields :: "rect_state \<Rightarrow> int \<Rightarrow> int \<Rightarrow> int \<Rightarrow> int \<Rightarrow> int \<Rightarrow> order_field list" where
  "rect_fields st x y cx cy color =
     [Field 0 Coord [x] [rect_x st], Field 1 Coord [y] [rect_y st], Field 2 Coord [cx] [rect_cx st], Field 3 Coord [cy] [rect_cy st],
      Field 4 U8s [color_byte 0 color] [color_byte 0 (rect_color st)], Field 5 U8s [color_byte 1 color] [color_byte 1 (rect_color st)],
      Field 6 U8s [color_byte 2 color] [color_byte 2 (rect_color st)]]"

definition xrdp_orders_rect ::
  "('k, 'w) rdp_env \<Rightarrow> 'k xrdp_orders \<Rightarrow> int \<Rightarrow> int \<Rightarrow> int \<Rightarrow> int \<Rightarrow> int \<Rightarrow> xrdp_rect option \<Rightarrow> (int \<times> 'k xrdp_orders) option" where
  "xrdp_orders_rect env self x y cx cy color rect = do {
     (r, self) \<leftarrow> xrdp_orders_check env self 23;
     if r \<noteq> 0 then Some (1, self) else
     let st = os_rect (orders_state self);
         delta = xrdp_orders_send_delta [(x, rect_x st), (y, rect_y st), (cx, rect_cx st), (cy, rect_cy st)] in
     out_order self RDP_ORDER_RECT 1 (clip_needed x y cx cy rect) rect delta (rect_fields st x y cx cy color)
       (\<lambda>os. os\<lparr>os_rect := \<lparr>rect_x = x, rect_y = y, rect_cx = cx, rect_cy = cy, rect_color = set_rect_color color (rect_color st)\<rparr>\<rparr>) }"

definition scr_blt_fields :: "scr_blt_state \<Rightarrow> int \<Rightarrow> int \<Rightarrow> int \<Rightarrow> int \<Rightarrow> int \<Rightarrow> int \<Rightarrow> int \<Rightarrow> order_field list" where
  "scr_blt_fields st x y cx cy srcx srcy rop =
     [Field 0 Coord [x] [scr_x st], Field 1 Coord [y] [scr_y st], Field 2 Coord [cx] [scr_cx st], Field 3 Coord [cy] [scr_cy st],
      Field 4 U8s [rop] [scr_rop st], Field 5 Coord [srcx] [scr_srcx st], Field 6 Coord [srcy] [scr_srcy st]]"

definition xrdp_orders_screen_blt ::
  "('k, 'w) rdp_env \<Rightarrow> 'k xrdp_orders \<Rightarrow> int \<Rightarrow> int \<Rightarrow> int \<Rightarrow> int \<Rightarrow> int \<Rightarrow> int \<Rightarrow> int \<Rightarrow> xrdp_rect option \<Rightarrow> (int \<times> 'k xrdp_orders) option" where
  "xrdp_orders_screen_blt env self x y cx cy srcx srcy rop rect = do {
     (r, self) \<leftarrow> xrdp_orders_check env self 25;
     if r \<noteq> 0 then Some (1, self) else
     let st = os_scr (orders_state self);
         delta = xrdp_orders_send_delta [(x, scr_x st), (y, scr_y st), (cx, scr_cx st), (cy, scr_cy st), (srcx, scr_srcx st), (srcy, scr_srcy st)] in
     out_order self RDP_ORDER_SCREENBLT 1 (clip_needed x y cx cy rect) rect delta (scr_blt_fields st x y cx cy srcx srcy rop)
       (\<lambda>os. os\<lparr>os_scr := \<lparr>scr_x = x, scr_y = y, scr_cx = cx, scr_cy = cy, scr_rop = rop, scr_srcx = srcx, scr_srcy = srcy\<rparr>\<rparr>) }"

definition pat_blt_fields :: "pat_blt_state \<Rightarrow> int \<Rightarrow> int \<Rightarrow> int \<Rightarrow> int \<Rightarrow> int \<Rightarrow> int \<Rightarrow> int \<Rightarrow> xrdp_brush \<Rightarrow> order_field list" where
  "pat_blt_fields st x y cx cy rop bg_color fg_color brush =
     [Field 0 Coord [x] [pat_x st], Field 1 Coord [y] [pat_y st], Field 2 Coord [cx] [pat_cx st], Field 3 Coord [cy] [pat_cy st],
      Field 4 U8s [rop] [pat_rop st], Field 5 U24 [bg_color] [pat_bg_color st], Field 6 U24 [fg_color] [pat_fg_color st],
      Field 7 U8s [br_x_origin brush] [br_x_origin (pat_brush st)], Field 8 U8s [br_y_origin brush] [br_y_origin (pat_brush st)],
      Field 9 U8s [br_style brush] [br_style (pat_brush st)],
      Field 10 U8s (take 1 (br_pattern brush)) (take 1 (br_pattern (pat_brush st))),
      Field 11 U8s (drop 1 (br_pattern brush)) (drop 1 (br_pattern (pat_brush st)))]"

definition xrdp_orders_pat_blt ::
  "('k, 'w) rdp_env \<Rightarrow> 'k xrdp_orders \<Rightarrow> int \<Rightarrow> int \<Rightarrow> int \<Rightarrow> int \<Rightarrow> int \<Rightarrow> int \<Rightarrow> int \<Rightarrow> xrdp_brush option \<Rightarrow> xrdp_rect option
    \<Rightarrow> (int \<times> 'k xrdp_orders) option" where
  "xrdp_orders_pat_blt env self x y cx cy rop bg_color fg_color brush rect = do {
     (r, self) \<leftarrow> xrdp_orders_check env self 39;
     if r \<noteq> 0 then Some (1, self) else
     let st = os_pat (orders_state self);
         delta = xrdp_orders_send_delta [(x, pat_x st), (y, pat_y st), (cx, pat_cx st), (cy, pat_cy st)];
         brush = (case brush of None \<Rightarrow> blank_brush | Some b \<Rightarrow> b) in
     out_order self RDP_ORDER_PATBLT 2 (clip_needed x y cx cy rect) rect delta (pat_blt_fields st x y cx cy rop bg_color fg_color brush)
       (\<lambda>os. os\<lparr>os_pat := \<lparr>pat_x = x, pat_y = y, pat_cx = cx, pat_cy = cy, pat_rop = rop, pat_bg_color = bg_color, pat_fg_color = fg_color, pat_brush = brush\<rparr>\<rparr>) }"

definition dest_blt_fields :: "dest_blt_state \<Rightarrow> int \<Rightarrow> int \<Rightarrow> int \<Rightarrow> int \<Rightarrow> int \<Rightarrow> order_field list" where
  "dest_blt_fields st x y cx cy rop =
     [Field 0 Coord [x] [dest_x st], Field 1 Coord [y] [dest_y st], Field 2 Coord [cx] [dest_cx st], Field 3 Coord [cy] [dest_cy st],
      Field 4 U8s [rop] [dest_rop st]]"

definition xrdp_orders_dest_blt ::
  "('k, 'w) rdp_env \<Rightarrow> 'k xrdp_orders \<Rightarrow> int \<Rightarrow> int \<Rightarrow> int \<Rightarrow> int \<Rightarrow> int \<Rightarrow> xrdp_rect option \<Rightarrow> (int \<times> 'k xrdp_orders) option" where
  "xrdp_orders_dest_blt env self x y cx cy rop rect = do {
     (r, self) \<leftarrow> xrdp_orders_check env self 21;
     if r \<noteq> 0 then Some (1, self) else
     let st = os_dest (orders_state self);
         delta = xrdp_orders_send_delta [(x, dest_x st), (y, dest_y st), (cx, dest_cx st), (cy, dest_cy st)] in
     out_order self RDP_ORDER_DESTBLT 1 (clip_needed x y cx cy rect) rect delta (dest_blt_fields st x y cx cy rop)
       (\<lambda>os. os\<lparr>os_dest := \<lparr>dest_x = x, dest_y = y, dest_cx = cx, dest_cy = cy, dest_rop = rop\<rparr>\<rparr>) }"

definition line_fields :: "line_state \<Rightarrow> int \<Rightarrow> int \<Rightarrow> int \<Rightarrow> int \<Rightarrow> int \<Rightarrow> int \<Rightarrow> int \<Rightarrow> xrdp_pen \<Rightarrow> order_field list" where
  "line_fields st mix_mode startx starty endx endy rop bg_color pen =
     [Field 0 U16 [mix_mode] [line_mix_mode st], Field 1 Coord [startx] [line_startx st], Field 2 Coord [starty] [line_starty st],
      Field 3 Coord [endx] [line_endx st], Field 4 Coord [endy] [line_endy st], Field 5 U24 [bg_color] [line_bg_color st],
      Field 6 U8s [rop] [line_rop st], Field 7 U8s [pn_style pen] [pn_style (line_pen st)], Field 8 U8s [pn_width pen] [pn_width (line_pen st)],
      Field 9 U24 [pn_color pen] [pn_color (line_pen st)]]"

definition line_clip_needed :: "int \<Rightarrow> int \<Rightarrow> int \<Rightarrow> int \<Rightarrow> xrdp_rect option \<Rightarrow> bool" where
  "line_clip_needed startx starty endx endy rect = (case rect of None \<Rightarrow> False | Some r \<Rightarrow>
     min endx startx < rc_left r \<or> min endy starty < rc_top r \<or> max endx startx \<ge> rc_right r \<or> max endy starty \<ge> rc_bottom r)"

definition xrdp_orders_line ::
  "('k, 'w) rdp_env \<Rightarrow> 'k xrdp_orders \<Rightarrow> int \<Rightarrow> int \<Rightarrow> int \<Rightarrow> int \<Rightarrow> int \<Rightarrow> int \<Rightarrow> int \<Rightarrow> xrdp_pen option \<Rightarrow> xrdp_rect option
    \<Rightarrow> (int \<times> 'k xrdp_orders) option" where
  "xrdp_orders_line env self mix_mode startx starty endx endy rop bg_color pen rect =
     (let mix_mode = (if mix_mode < 1 \<or> mix_mode > 2 then 1 else mix_mode); rop = (if rop < 1 \<or> rop > 0x10 then 0x0d else rop) in do {
     (r, self) \<leftarrow> xrdp_orders_check env self 32;
     if r \<noteq> 0 then Some (1, self) else
     let st = os_line (orders_state self);
         delta = xrdp_orders_send_delta [(startx, line_startx st), (starty, line_starty st), (endx, line_endx st), (endy, line_endy st)];
         pen = (case pen of None \<Rightarrow> blank_pen | Some p \<Rightarrow> p) in
     out_order self RDP_ORDER_LINE 2 (line_clip_needed startx starty endx endy rect) rect delta
       (line_fields st mix_mode startx starty endx endy rop bg_color pen)
       (\<lambda>os. os\<lparr>os_line := \<lparr>line_mix_mode = mix_mode, line_startx = startx, line_starty = starty, line_endx = endx, line_endy = endy,
          line_bg_color = bg_color, line_rop = rop, line_pen = pen\<rparr>\<rparr>) })"

definition mem_blt_fields :: "mem_blt_state \<Rightarrow> int \<Rightarrow> int \<Rightarrow> int \<Rightarrow> int \<Rightarrow> int \<Rightarrow> int \<Rightarrow> int \<Rightarrow> int \<Rightarrow> int \<Rightarrow> int \<Rightarrow> order_field list" where
  "mem_blt_fields st cache_id color_table x y cx cy rop srcx srcy cache_idx =
     [Field 0 U8s [cache_id, color_table] [mem_cache_id st, mem_color_table st], Field 1 Coord [x] [mem_x st], Field 2 Coord [y] [mem_y st],
      Field 3 Coord [cx] [mem_cx st], Field 4 Coord [cy] [mem_cy st], Field 5 U8s [rop] [mem_rop st], Field 6 Coord [srcx] [mem_srcx st],
      Field 7 Coord [srcy] [mem_srcy st], Field 8 U16 [cache_idx] [mem_cache_idx st]]"

definition xrdp_orders_mem_blt ::
  "('k, 'w) rdp_env \<Rightarrow> 'k xrdp_orders \<Rightarrow> int \<Rightarrow> int \<Rightarrow> int \<Rightarrow> int \<Rightarrow> int \<Rightarrow> int \<Rightarrow> int \<Rightarrow> int \<Rightarrow> int \<Rightarrow> int \<Rightarrow> xrdp_rect option
    \<Rightarrow> (int \<times> 'k xrdp_orders) option" where
  "xrdp_orders_mem_blt env self cache_id color_table x y cx cy rop srcx srcy cache_idx rect = do {
     (r, self) \<leftarrow> xrdp_orders_check env self 30;
     if r \<noteq> 0 then Some (1, self) else
     let st = os_mem (orders_state self);
         delta = xrdp_orders_send_delta [(x, mem_x st), (y, mem_y st), (cx, mem_cx st), (cy, mem_cy st), (srcx, mem_srcx st), (srcy, mem_srcy st)] in
     out_order self RDP_ORDER_MEMBLT 2 (clip_needed x y cx cy rect) rect delta (mem_blt_fields st cache_id color_table x y cx cy rop srcx srcy cache_idx)
       (\<lambda>os. os\<lparr>os_mem := \<lparr>mem_color_table = color_table, mem_cache_id = cache_id, mem_x = x, mem_y = y, mem_cx = cx, mem_cy = cy, mem_rop = rop,
          mem_srcx = srcx, mem_srcy = srcy, mem_cache_idx = cache_idx\<rparr>\<rparr>) }"

text \<open>A text: coordinates are never sent as deltas, and the text itself is always sent.\<close>

definition text_clip_needed :: "xrdp_rect \<Rightarrow> xrdp_rect \<Rightarrow> xrdp_rect option \<Rightarrow> bool" where
  "text_clip_needed c b rect = (case rect of None \<Rightarrow> False | Some r \<Rightarrow>
     rc_right b - rc_left b > 1 \<and> (rc_left b < rc_left r \<or> rc_top b < rc_top r \<or> rc_right b > rc_right r \<or> rc_bottom b > rc_bottom r)
     \<or> rc_left c < rc_left r \<or> rc_top c < rc_top r \<or> rc_right c > rc_right r \<or> rc_bottom c > rc_bottom r)"

definition text_fields :: "text_state \<Rightarrow> int \<Rightarrow> int \<Rightarrow> int \<Rightarrow> int \<Rightarrow> int \<Rightarrow> xrdp_rect \<Rightarrow> xrdp_rect \<Rightarrow> int \<Rightarrow> int \<Rightarrow> int list \<Rightarrow> order_field list" where
  "text_fields st font flags mixmode fg_color bg_color c b x y data =
     [Field 0 U8s [font] [text_font st], Field 1 U8s [flags] [text_flags st], Field 3 U8s [mixmode] [text_mixmode st],
      Field 4 U24 [fg_color] [text_fg_color st], Field 5 U24 [bg_color] [text_bg_color st],
      Field 6 U16 [rc_left c] [rc_left (text_clip st)], Field 7 U16 [rc_top c] [rc_top (text_clip st)],
      Field 8 U16 [rc_right c] [rc_right (text_clip st)], Field 9 U16 [rc_bottom c] [rc_bottom (text_clip st)],
      Field 10 U16 [rc_left b] [rc_left (text_box st)], Field 11 U16 [rc_top b] [rc_top (text_box st)],
      Field 12 U16 [rc_right b] [rc_right (text_box st)], Field 13 U16 [rc_bottom b] [rc_bottom (text_box st)],
      Field 19 U16 [x] [text_x st], Field 20 U16 [y] [text_y st], Field 21 Text data []]"

definition xrdp_orders_text ::
  "('k, 'w) rdp_env \<Rightarrow> 'k xrdp_orders \<Rightarrow> int \<Rightarrow> int \<Rightarrow> int \<Rightarrow> int \<Rightarrow> int \<Rightarrow> xrdp_rect \<Rightarrow> xrdp_rect \<Rightarrow> int \<Rightarrow> int \<Rightarrow> int list \<Rightarrow> xrdp_rect option
    \<Rightarrow> (int \<times> 'k xrdp_orders) option" where
  "xrdp_orders_text env self font flags mixmode fg_color bg_color c b x y data rect = do {
     (r, self) \<leftarrow> xrdp_orders_check env self (44 + int (length data));
     if r \<noteq> 0 then Some (1, self) else
     let st = os_text (orders_state self) in
     out_order self RDP_ORDER_TEXT2 3 (text_clip_needed c b rect) rect False (text_fields st font flags mixmode fg_color bg_color c b x y data)
       (\<lambda>os. os\<lparr>os_text := \<lparr>text_font = font, text_flags = flags, text_mixmode = mixmode, text_fg_color = fg_color, text_bg_color = bg_color,
          text_clip = c, text_box = b, text_x = x, text_y = y\<rparr>\<rparr>) }"

text \<open>
  A composite order, with its values in the record that remembers them. Of a transformation only the first value is
  remembered; without one it is zero, and the other nine are not sent.
\<close>

definition com_blt_fields :: "com_blt_state \<Rightarrow> com_blt_state \<Rightarrow> int list option \<Rightarrow> order_field list" where
  "com_blt_fields st v srctransform =
     [Field 0 U16 [com_srcidx v] [com_srcidx st], Field 1 U32s [com_srcformat v] [com_srcformat st], Field 2 Coord [com_srcwidth v] [com_srcwidth st],
      Field 3 U8s [com_srcrepeat v] [com_srcrepeat st],
      Field 4 U32s [case srctransform of None \<Rightarrow> 0 | Some t \<Rightarrow> t ! 0] [com_srctransform st ! 0],
      Field 5 U32s (case srctransform of None \<Rightarrow> drop 1 (com_srctransform st) | Some t \<Rightarrow> drop 1 t) (drop 1 (com_srctransform st)),
      Field 6 U8s [com_mskflags v] [com_mskflags st], Field 7 U16 [com_mskidx v] [com_mskidx st], Field 8 U32s [com_mskformat v] [com_mskformat st],
      Field 9 Coord [com_mskwidth v] [com_mskwidth st], Field 10 U8s [com_mskrepeat v] [com_mskrepeat st], Field 11 U8s [com_op v] [com_op st],
      Field 12 Coord [com_srcx v] [com_srcx st], Field 13 Coord [com_srcy v] [com_srcy st], Field 14 Coord [com_mskx v] [com_mskx st],
      Field 15 Coord [com_msky v] [com_msky st], Field 16 Coord [com_dstx v] [com_dstx st], Field 17 Coord [com_dsty v] [com_dsty st],
      Field 18 Coord [com_width v] [com_width st], Field 19 Coord [com_height v] [com_height st], Field 20 U32s [com_dstformat v] [com_dstformat st]]"

definition xrdp_orders_composite_blt ::
  "('k, 'w) rdp_env \<Rightarrow> 'k xrdp_orders \<Rightarrow> com_blt_state \<Rightarrow> int list option \<Rightarrow> xrdp_rect option \<Rightarrow> (int \<times> 'k xrdp_orders) option" where
  "xrdp_orders_composite_blt env self v srctransform rect = do {
     (r, self) \<leftarrow> xrdp_orders_check env self 80;
     if r \<noteq> 0 then Some (1, self) else
     let st = os_com (orders_state self);
         delta = xrdp_orders_send_delta [(com_srcx v, com_srcx st), (com_srcy v, com_srcy st), (com_mskx v, com_mskx st), (com_msky v, com_msky st),
           (com_dstx v, com_dstx st), (com_dsty v, com_dsty st), (com_width v, com_width st), (com_height v, com_height st),
           (com_srcwidth v, com_srcwidth st), (com_mskwidth v, com_mskwidth st)] in
     out_order self RDP_ORDER_COMPOSITE 3 (clip_needed (com_dstx v) (com_dsty v) (com_width v) (com_height v) rect) rect delta (com_blt_fields st v srctransform)
       (\<lambda>os. os\<lparr>os_com := v\<lparr>com_srctransform := (com_srctransform st)[0 := (case srctransform of None \<Rightarrow> 0 | Some t \<Rightarrow> t ! 0)]\<rparr>\<rparr>) }"

end
