(* ===== verification/Order_Laws.thy ===== *)
theory Order_Laws
  imports Orders Rdp_Laws
begin

text \<open>
  A client follows the drawing orders. It keeps a memory of its own (\<open>client_orders\<close>) and reads one order after
  the other; the laws say that from every primary order it gets the kind, the clip and the values the server was called
  with, and that both memories agree again. The first part is about the bytes an order leaves in
  the stream, the second about reading them.
\<close>

subsection \<open>The bytes of fields\<close>

definition value_bytes :: "bool \<Rightarrow> order_field \<Rightarrow> byte list" where
  "value_bytes delta f = (let v = fd_val f in case fd_kind f of
     Coord \<Rightarrow> if delta then enc8 (v ! 0 - fd_old f ! 0) else enc16_le (v ! 0)
   | U8s \<Rightarrow> concat (map enc8 v)
   | U16 \<Rightarrow> enc16_le (v ! 0)
   | U24 \<Rightarrow> enc8 (v ! 0) @ enc8 (v ! 0 div 256) @ enc8 (v ! 0 div 65536)
   | U32s \<Rightarrow> concat (map enc32_le v)
   | Text \<Rightarrow> enc8 (int (length v)) @ concat (map enc8 v))"

definition fields_bytes :: "bool \<Rightarrow> order_field list \<Rightarrow> byte list" where
  "fields_bytes delta fs = concat (map (\<lambda>f. if field_changed f then value_bytes delta f else []) fs)"

primrec present_of :: "order_field list \<Rightarrow> int \<Rightarrow> int" where
  "present_of [] p = p"
| "present_of (f # fs) p = present_of fs (if field_changed f then p OR push_bit (fd_bit f) 1 else p)"

lemma concat_enc_length [simp]: "length (concat (map enc8 v)) = length v" "length (concat (map enc32_le v)) = 4 * length v"
  by (induction v) simp_all

lemma room_emit [simp]: "room (emit s bs) n \<longleftrightarrow> 0 \<le> s_p s + int (length bs) \<and> s_p s + int (length bs) + n \<le> s_size s"
  by (simp add: room_def)

lemma out_list_emit8: "room s (int (length v)) \<Longrightarrow> out_list out_uint8 v s = Some (emit s (concat (map enc8 v)))"
  by (induction v arbitrary: s) (simp_all add: out_emit room_def)

lemma out_list_emit32: "room s (4 * int (length v)) \<Longrightarrow> out_list out_uint32_le v s = Some (emit s (concat (map enc32_le v)))"
  by (induction v arbitrary: s) (simp_all add: out_emit room_def)

lemma out_value_emit: "room s (int (length (value_bytes delta f))) \<Longrightarrow> out_value delta f s = Some (emit s (value_bytes delta f))"
  by (cases "fd_kind f") (simp_all add: out_value_def value_bytes_def Let_def out_emit room_def out_list_emit8 out_list_emit32 split: if_splits)

lemma out_fields_emit:
  "room s (int (length (fields_bytes delta fs))) \<Longrightarrow> out_fields delta fs p s = Some (present_of fs p, emit s (fields_bytes delta fs))"
proof (induction fs arbitrary: p s)
  case (Cons f fs)
  show ?case
  proof (cases "field_changed f")
    case True
    with Cons.prems have "room s (int (length (value_bytes delta f)))" "room (emit s (value_bytes delta f)) (int (length (fields_bytes delta fs)))"
      by (auto simp: fields_bytes_def room_def)
    with True Cons.IH [OF this(2)] show ?thesis by (simp add: out_value_emit fields_bytes_def)
  qed (use Cons in \<open>simp add: fields_bytes_def\<close>)
qed (simp add: fields_bytes_def)

subsection \<open>Patching what was written\<close>

lemma write_bytes_upd:
  "k < length bs \<Longrightarrow> (write_bytes m i bs)(i + int k := Some w) = write_bytes m i (bs[k := w])"
proof
  fix j assume k: "k < length bs"
  consider "j < i" | "i + int (length bs) \<le> j" | "i \<le> j" "j < i + int (length bs)" by linarith
  then show "((write_bytes m i bs)(i + int k := Some w)) j = write_bytes m i (bs[k := w]) j"
    using k by cases (auto simp: write_bytes_below write_bytes_above write_bytes_at nth_list_update)
qed

lemma wr8_emit:
  "k < length bs \<Longrightarrow> room s (int (length bs)) \<Longrightarrow> wr8 (emit s bs) (s_p s + int k) v = Some (emit s (bs[k := word_of_int v]))"
  by (simp add: wr8_def room_def write_bytes_upd [symmetric] emit_def)

lemma wr8_anywhere: "wr8 s i v = Some s' \<Longrightarrow> wr8 (s\<lparr>s_p := q\<rparr>) i v = Some (s'\<lparr>s_p := q\<rparr>)"
  by (auto simp: wr8_def split: if_splits)

lemma rd8_emit: "k < length bs \<Longrightarrow> room s (int (length bs)) \<Longrightarrow> rd8 (emit s bs) (s_p s + int k) = Some (uint (bs ! k))"
  by (simp add: rd8_def room_def write_bytes_at)

definition present_bytes :: "int \<Rightarrow> nat \<Rightarrow> byte list" where
  "present_bytes present n = map (\<lambda>i. word_of_int (drop_bit (i * 8) present)) [0..<n]"

lemma put_present_emit:
  "k + n \<le> length bs \<Longrightarrow> room s (int (length bs)) \<Longrightarrow>
   put_present (s_p s + int k) present n (emit s bs) = Some (emit s (take k bs @ present_bytes present n @ drop (k + n) bs))"
proof (induction n arbitrary: bs)
  case (Suc n)
  let ?bs = "bs[k + n := word_of_int (drop_bit (n * 8) present)]"
  have "wr8 (emit s bs) (s_p s + int k + int n) (drop_bit (n * 8) present) = Some (emit s ?bs)"
    using wr8_emit [of "k + n" bs s] Suc.prems by (simp add: add.assoc)
  moreover have "put_present (s_p s + int k) present n (emit s ?bs) = Some (emit s (take k ?bs @ present_bytes present n @ drop (k + n) ?bs))"
    by (rule Suc.IH) (use Suc.prems in simp_all)
  moreover have "drop (k + n) ?bs = word_of_int (drop_bit (n * 8) present) # drop (k + Suc n) bs"
    using Suc.prems(1) by (simp add: Cons_nth_drop_Suc [symmetric])
  ultimately show ?case by (simp add: present_bytes_def)
qed (simp add: present_bytes_def)

lemma move_bytes_emit:
  "a < b \<Longrightarrow> b + n = length bs \<Longrightarrow> room s (int (length bs)) \<Longrightarrow>
   move_bytes (s_p s + int a) (s_p s + int b) n (emit s bs) = Some (emit s (take a bs @ drop b bs @ drop (a + n) bs))"
proof (induction n arbitrary: a b bs)
  case (Suc n)
  let ?bs = "bs[a := bs ! b]"
  have "rd8 (emit s bs) (s_p s + int b) = Some (uint (bs ! b))" using Suc.prems by (intro rd8_emit) simp_all
  moreover have "wr8 (emit s bs) (s_p s + int a) (uint (bs ! b)) = Some (emit s ?bs)" using wr8_emit [of a bs s "uint (bs ! b)"] Suc.prems by simp
  ultimately have step: "move_bytes (s_p s + int a) (s_p s + int b) (Suc n) (emit s bs)
      = move_bytes (s_p s + int (a + 1)) (s_p s + int (b + 1)) n (emit s ?bs)" by (simp add: algebra_simps)
  have rest: "move_bytes (s_p s + int (a + 1)) (s_p s + int (b + 1)) n (emit s ?bs)
      = Some (emit s (take (a + 1) ?bs @ drop (b + 1) ?bs @ drop (a + 1 + n) ?bs))"
    by (rule Suc.IH) (use Suc.prems in simp_all)
  have "take (a + 1) ?bs @ drop (b + 1) ?bs @ drop (a + 1 + n) ?bs = take a bs @ drop b bs @ drop (a + Suc n) bs"
    using Suc.prems by (simp add: take_Suc_conv_app_nth Cons_nth_drop_Suc [symmetric, of b])
  then show ?case unfolding step rest by (rule arg_cong)
qed simp

text \<open>\<open>bs\<close> was written behind \<open>s\<close>; what stands behind it is of no interest.\<close>

definition laid :: "stream \<Rightarrow> byte list \<Rightarrow> stream \<Rightarrow> bool" where
  "laid s bs s' \<longleftrightarrow> (\<exists>m. s' = s\<lparr>s_data := m, s_p := s_p s + int (length bs)\<rparr> \<and> bytes_at m (s_p s) bs \<and> (\<forall>i < s_p s. m i = s_data s i))"

lemma laid_emit: "laid s bs ((emit s (bs @ g))\<lparr>s_p := s_p s + int (length bs)\<rparr>)"
proof -
  have "bytes_at (write_bytes (s_data s) (s_p s) (bs @ g)) (s_p s) bs" using bytes_at_write_bytes [of _ "s_p s" "bs @ g"] unfolding bytes_at_append by blast
  then show ?thesis by (auto simp: laid_def emit_def write_bytes_below)
qed

lemma laid_Nil: "laid s [] s"
  unfolding laid_def by (rule exI [of _ "s_data s"]) simp

lemma laid_append:
  assumes "laid s as s1" "laid s1 bs s2" shows "laid s (as @ bs) s2"
proof -
  obtain m1 where m1: "s1 = s\<lparr>s_data := m1, s_p := s_p s + int (length as)\<rparr>" "bytes_at m1 (s_p s) as" "\<forall>i < s_p s. m1 i = s_data s i"
    using assms(1) by (auto simp: laid_def)
  obtain m2 where m2: "s2 = s1\<lparr>s_data := m2, s_p := s_p s1 + int (length bs)\<rparr>" "bytes_at m2 (s_p s1) bs" "\<forall>i < s_p s1. m2 i = s_data s1 i"
    using assms(2) by (auto simp: laid_def)
  have "bytes_at m2 (s_p s) as" using m1(2) by (rule bytes_at_cong) (use m1(1) m2(3) in simp)
  moreover have "\<forall>i < s_p s. m2 i = s_data s i" using m1 m2(3) by simp
  ultimately show ?thesis using m1(1) m2(1,2) by (auto simp: laid_def bytes_at_append add.assoc)
qed

lemma move_up_le: "move_up_count present n \<le> n"
  by (induction n) auto

lemma pack_laid:
  assumes "room s (int (length (0 # ty @ replicate n 0 @ body)))"
    and "k = move_up_count present n" and "present_ptr = s_p s + 1 + int (length ty)"
    and "bs = word_of_int (if k > 0 then flags OR push_bit 6 (int k) else flags) # ty @ take (n - k) (present_bytes present n) @ body"
  shows "wp (xrdp_order_pack_small_or_tiny (s_p s) flags present_ptr present n (emit s (0 # ty @ replicate n 0 @ body))) (laid s bs)"
proof -
  let ?w = "0 # ty @ present_bytes present n @ body" and ?p = "s_p s + (1 + int (length ty))"
  have ptr: "present_ptr = ?p" using assms(3) by simp
  have len: "length (present_bytes present n) = n" by (simp add: present_bytes_def)
  have room: "room s (int (length ?w))" using assms(1) len by simp
  have put: "put_present ?p present n (emit s (0 # ty @ replicate n 0 @ body)) = Some (emit s ?w)"
    using put_present_emit [of "Suc (length ty)" n "0 # ty @ replicate n 0 @ body" s present] assms(1) by simp
  have k: "k \<le> n" unfolding assms(2) by (rule move_up_le)
  show ?thesis
  proof (cases "k > 0")
    case False
    have "wr8 (emit s ?w) (s_p s + int 0) flags = Some (emit s (?w[0 := word_of_int flags]))" by (rule wr8_emit) (use room in simp_all)
    then have "xrdp_order_pack_small_or_tiny (s_p s) flags present_ptr present n (emit s (0 # ty @ replicate n 0 @ body)) = Some (emit s bs)"
      using False len by (simp add: xrdp_order_pack_small_or_tiny_def Let_def put ptr assms(2,4))
    then show ?thesis using laid_emit [of s bs "[]"] by (simp add: emit_def)
  next
    case True
    define g where "g = drop (Suc (length ty) + (n - k) + length body) ?w"
    let ?m = "0 # ty @ take (n - k) (present_bytes present n) @ body @ g"
    have "move_bytes (s_p s + int (Suc (length ty) + (n - k))) (s_p s + int (Suc (length ty) + n)) (length body) (emit s ?w)
        = Some (emit s (take (Suc (length ty) + (n - k)) ?w @ drop (Suc (length ty) + n) ?w @ g))"
      unfolding g_def by (rule move_bytes_emit) (use True k len room in simp_all)
    moreover have "take (Suc (length ty) + (n - k)) ?w @ drop (Suc (length ty) + n) ?w @ g = ?m" using k len by simp
    moreover have "s_p s + int (Suc (length ty) + (n - k)) = ?p + int (n - k)" "s_p s + int (Suc (length ty) + n) = ?p + int n" by simp_all
    ultimately have move: "move_bytes (?p + int (n - k)) (?p + int n) (length body) (emit s ?w) = Some (emit s ?m)" by metis
    have m: "length ?m = length ?w" using k len by (simp add: g_def)
    have "wr8 (emit s ?m) (s_p s + int 0) (flags OR push_bit 6 (int k)) = Some (emit s (?m[0 := word_of_int (flags OR push_bit 6 (int k))]))"
      by (rule wr8_emit) (use room in \<open>simp_all only: m\<close>, simp)
    moreover have "bs @ g = ?m[0 := word_of_int (flags OR push_bit 6 (int k))]" using True assms(4) by simp
    ultimately have "wr8 (emit s ?m) (s_p s) (flags OR push_bit 6 (int k)) = Some (emit s (bs @ g))" by simp
    then have w: "wr8 ((emit s ?m)\<lparr>s_p := q\<rparr>) (s_p s) (flags OR push_bit 6 (int k)) = Some ((emit s (bs @ g))\<lparr>s_p := q\<rparr>)" for q
      by (rule wr8_anywhere)
    have size: "s_p (emit s ?w) - ?p - int n = int (length body)" using len by simp
    have "xrdp_order_pack_small_or_tiny (s_p s) flags present_ptr present n (emit s (0 # ty @ replicate n 0 @ body))
        = Some ((emit s (bs @ g))\<lparr>s_p := s_p (emit s ?m) - int k\<rparr>)"
      unfolding xrdp_order_pack_small_or_tiny_def Let_def ptr put assms(2) [symmetric] using True move w by (simp only: bind.bind_lunit size nat_int if_True prod.case)
    moreover have "s_p (emit s ?m) - int k = s_p s + int (length bs)" unfolding emit_sel m using k len assms(4) by simp
    ultimately have "xrdp_order_pack_small_or_tiny (s_p s) flags present_ptr present n (emit s (0 # ty @ replicate n 0 @ body))
        = Some ((emit s (bs @ g))\<lparr>s_p := s_p s + int (length bs)\<rparr>)" by (simp only:)
    then show ?thesis using laid_emit [of s bs g] by simp
  qed
qed

subsection \<open>The bytes of an order\<close>

definition bounds_flags :: "xrdp_rect \<Rightarrow> xrdp_rect \<Rightarrow> int" where
  "bounds_flags c r = bound_flag (rc_left r) (rc_left c) 0x10 0x01 OR bound_flag (rc_top r) (rc_top c) 0x20 0x02
     OR bound_flag (rc_right r) (rc_right c) 0x40 0x04 OR bound_flag (rc_bottom r) (rc_bottom c) 0x80 0x08"

definition edge_bytes :: "int \<Rightarrow> int \<Rightarrow> int \<Rightarrow> byte list" where
  "edge_bytes v old sent = (if v = old then [] else if \<bar>v - old\<bar> < 128 then enc8 (v - old) else enc16_le sent)"

definition bounds_bytes :: "xrdp_rect \<Rightarrow> xrdp_rect \<Rightarrow> byte list" where
  "bounds_bytes c r = word_of_int (bounds_flags c r) # edge_bytes (rc_left r) (rc_left c) (rc_left r) @ edge_bytes (rc_top r) (rc_top c) (rc_top r)
     @ edge_bytes (rc_right r) (rc_right c) (rc_right r - 1) @ edge_bytes (rc_bottom r) (rc_bottom c) (rc_bottom r - 1)"

lemma flag_bits:
  assumes "a = 0 \<or> a = 0x10 \<or> a = 0x01" "b = 0 \<or> b = 0x20 \<or> b = 0x02" "c = 0 \<or> c = 0x40 \<or> c = 0x04" "d = 0 \<or> d = 0x80 \<or> d = (0x08 :: int)"
  shows "(a OR b OR c OR d) AND 0x01 \<noteq> 0 \<longleftrightarrow> a = 0x01" "(a OR b OR c OR d) AND 0x10 \<noteq> 0 \<longleftrightarrow> a = 0x10"
    "(a OR b OR c OR d) AND 0x02 \<noteq> 0 \<longleftrightarrow> b = 0x02" "(a OR b OR c OR d) AND 0x20 \<noteq> 0 \<longleftrightarrow> b = 0x20"
    "(a OR b OR c OR d) AND 0x04 \<noteq> 0 \<longleftrightarrow> c = 0x04" "(a OR b OR c OR d) AND 0x40 \<noteq> 0 \<longleftrightarrow> c = 0x40"
    "(a OR b OR c OR d) AND 0x08 \<noteq> 0 \<longleftrightarrow> d = 0x08" "(a OR b OR c OR d) AND 0x80 \<noteq> 0 \<longleftrightarrow> d = 0x80"
    "0 \<le> (a OR b OR c OR d) \<and> (a OR b OR c OR d) < 256"
  using assms by (elim disjE; simp)+

lemma bound_flag_cases: "bound_flag v old a b = 0 \<or> bound_flag v old a b = a \<or> bound_flag v old a b = b"
  by (simp add: bound_flag_def)

lemma bounds_flag_bits:
  "bounds_flags c r AND 0x01 \<noteq> 0 \<longleftrightarrow> bound_flag (rc_left r) (rc_left c) 0x10 0x01 = 0x01" "bounds_flags c r AND 0x10 \<noteq> 0 \<longleftrightarrow> bound_flag (rc_left r) (rc_left c) 0x10 0x01 = 0x10"
  "bounds_flags c r AND 0x02 \<noteq> 0 \<longleftrightarrow> bound_flag (rc_top r) (rc_top c) 0x20 0x02 = 0x02" "bounds_flags c r AND 0x20 \<noteq> 0 \<longleftrightarrow> bound_flag (rc_top r) (rc_top c) 0x20 0x02 = 0x20"
  "bounds_flags c r AND 0x04 \<noteq> 0 \<longleftrightarrow> bound_flag (rc_right r) (rc_right c) 0x40 0x04 = 0x04" "bounds_flags c r AND 0x40 \<noteq> 0 \<longleftrightarrow> bound_flag (rc_right r) (rc_right c) 0x40 0x04 = 0x40"
  "bounds_flags c r AND 0x08 \<noteq> 0 \<longleftrightarrow> bound_flag (rc_bottom r) (rc_bottom c) 0x80 0x08 = 0x08" "bounds_flags c r AND 0x80 \<noteq> 0 \<longleftrightarrow> bound_flag (rc_bottom r) (rc_bottom c) 0x80 0x08 = 0x80"
  "0 \<le> bounds_flags c r \<and> bounds_flags c r < 256"
  unfolding bounds_flags_def by (rule flag_bits [OF bound_flag_cases bound_flag_cases bound_flag_cases bound_flag_cases])+

lemma out_bound_emit:
  assumes "F AND large \<noteq> 0 \<longleftrightarrow> bound_flag v old small large = large" "F AND small \<noteq> 0 \<longleftrightarrow> bound_flag v old small large = small"
    and "small \<noteq> large" "small \<noteq> 0" "large \<noteq> 0" "room s (int (length (edge_bytes v old sent)))"
  shows "out_bound F small large v old sent s = Some (emit s (edge_bytes v old sent))"
  using assms by (auto simp: out_bound_def edge_bytes_def bound_flag_def out_emit split: if_splits)

lemma edge_bytes_le: "length (edge_bytes v old sent) \<le> 2"
  by (simp add: edge_bytes_def)

lemma bounds_bytes_le: "length (bounds_bytes c r) \<le> 9"
proof -
  have "a \<le> 2 \<Longrightarrow> b \<le> 2 \<Longrightarrow> c \<le> 2 \<Longrightarrow> d \<le> 2 \<Longrightarrow> Suc (a + (b + (c + d))) \<le> 9" for a b c d :: nat by linarith
  from this [OF edge_bytes_le edge_bytes_le edge_bytes_le edge_bytes_le] show ?thesis by (simp add: bounds_bytes_def)
qed

lemma out_bounds_emit:
  assumes "room s (int (length (bounds_bytes (clip st) r)))"
  shows "xrdp_orders_out_bounds st r s = Some (st\<lparr>clip := r\<rparr>, emit s (bounds_bytes (clip st) r))"
proof -
  let ?c = "clip st" and ?F = "bounds_flags (clip st) r"
  let ?l = "edge_bytes (rc_left r) (rc_left ?c) (rc_left r)" and ?t = "edge_bytes (rc_top r) (rc_top ?c) (rc_top r)"
    and ?r = "edge_bytes (rc_right r) (rc_right ?c) (rc_right r - 1)" and ?b = "edge_bytes (rc_bottom r) (rc_bottom ?c) (rc_bottom r - 1)"
  have room: "room s (int (length (0 # ?l @ ?t @ ?r @ ?b)))" using assms by (simp add: bounds_bytes_def)
  have p: "out_uint8s s 1 = Some (emit s [0])" using room by (simp add: out_uint8s_emit room_def)
  have l: "out_bound ?F 0x10 0x01 (rc_left r) (rc_left ?c) (rc_left r) (emit s [0]) = Some (emit s (0 # ?l))"
    using out_bound_emit [OF bounds_flag_bits(1,2), where s = "emit s [0]"] room by (simp add: room_def)
  have t: "out_bound ?F 0x20 0x02 (rc_top r) (rc_top ?c) (rc_top r) (emit s (0 # ?l)) = Some (emit s (0 # ?l @ ?t))"
    using out_bound_emit [OF bounds_flag_bits(3,4), where s = "emit s (0 # ?l)"] room by (simp add: room_def)
  have r: "out_bound ?F 0x40 0x04 (rc_right r) (rc_right ?c) (rc_right r - 1) (emit s (0 # ?l @ ?t)) = Some (emit s (0 # ?l @ ?t @ ?r))"
    using out_bound_emit [OF bounds_flag_bits(5,6), where s = "emit s (0 # ?l @ ?t)"] room by (simp add: room_def)
  have b: "out_bound ?F 0x80 0x08 (rc_bottom r) (rc_bottom ?c) (rc_bottom r - 1) (emit s (0 # ?l @ ?t @ ?r)) = Some (emit s (0 # ?l @ ?t @ ?r @ ?b))"
    using out_bound_emit [OF bounds_flag_bits(7,8), where s = "emit s (0 # ?l @ ?t @ ?r)"] room by (simp add: room_def)
  have w: "wr8 (emit s (0 # ?l @ ?t @ ?r @ ?b)) (s_p s) ?F = Some (emit s (bounds_bytes ?c r))"
    using wr8_emit [of 0 "0 # ?l @ ?t @ ?r @ ?b" s ?F] room by (simp add: bounds_bytes_def)
  show ?thesis unfolding xrdp_orders_out_bounds_def Let_def bounds_flags_def [symmetric] using p l t r b w by simp
qed

text \<open>The clip an order comes with, when it is needed.\<close>

definition order_clip :: "bool \<Rightarrow> xrdp_rect option \<Rightarrow> xrdp_rect option" where
  "order_clip needed rect = (if needed then rect else None)"

definition clip_bytes :: "xrdp_orders_state \<Rightarrow> xrdp_rect option \<Rightarrow> byte list" where
  "clip_bytes st rect = (case rect of None \<Rightarrow> [] | Some r \<Rightarrow> if r = clip st then [] else bounds_bytes (clip st) r)"

definition clip_after :: "xrdp_orders_state \<Rightarrow> xrdp_rect option \<Rightarrow> xrdp_rect" where
  "clip_after st rect = (case rect of None \<Rightarrow> clip st | Some r \<Rightarrow> r)"

definition order_bytes :: "xrdp_orders_state \<Rightarrow> int \<Rightarrow> nat \<Rightarrow> bool \<Rightarrow> xrdp_rect option \<Rightarrow> bool \<Rightarrow> order_field list \<Rightarrow> byte list" where
  "order_bytes st type n needed rect delta fs =
     (let flags = order_flags st type needed rect delta; present = present_of fs 0; k = move_up_count present n in
      word_of_int (if k > 0 then flags OR push_bit 6 (int k) else flags) # (if last_order st \<noteq> type then enc8 type else [])
      @ take (n - k) (present_bytes present n) @ clip_bytes st (order_clip needed rect) @ fields_bytes delta fs)"

lemma last_bounds_iff: "xrdp_orders_last_bounds st rect \<longleftrightarrow> rect = Some (clip st)"
  by (cases rect) (auto simp: xrdp_orders_last_bounds_def)

lemma order_flag_bits:
  assumes "flags = order_flags st type needed rect delta"
  shows "flags AND TS_TYPE_CHANGE \<noteq> 0 \<longleftrightarrow> last_order st \<noteq> type" "flags AND TS_BOUNDS \<noteq> 0 \<longleftrightarrow> order_clip needed rect \<noteq> None"
    "flags AND TS_ZERO_BOUNDS_DELTAS \<noteq> 0 \<longleftrightarrow> order_clip needed rect = Some (clip st)" "flags AND TS_DELTA_COORDINATES \<noteq> 0 \<longleftrightarrow> delta"
    "0 \<le> flags" "flags < 64"
  unfolding assms order_flags_def Let_def order_clip_def last_bounds_iff by auto

lemma clip_emit:
  assumes "room s 9" "clip st = c" "flags = order_flags st0 type needed rect delta" "clip st0 = c" "needed \<longrightarrow> rect \<noteq> None"
  shows "(case rect of Some r \<Rightarrow> if flags AND TS_BOUNDS \<noteq> 0 \<and> flags AND TS_ZERO_BOUNDS_DELTAS = 0 then xrdp_orders_out_bounds st r s else Some (st, s)
      | None \<Rightarrow> Some (st, s)) = Some (st\<lparr>clip := clip_after st0 (order_clip needed rect)\<rparr>, emit s (clip_bytes st0 (order_clip needed rect)))"
proof (cases "order_clip needed rect")
  case None
  with order_flag_bits(2) [OF assms(3)] assms(2,4) show ?thesis by (auto simp: clip_after_def clip_bytes_def split: option.splits)
next
  case (Some r)
  then have "rect = Some r" by (auto simp: order_clip_def split: if_splits)
  moreover have "room s (int (length (bounds_bytes c r)))" using assms(1) bounds_bytes_le [of c r] by (simp add: room_def)
  ultimately show ?thesis using Some order_flag_bits(2,3) [OF assms(3)] out_bounds_emit [of s st r] assms(2,4)
    by (auto simp: clip_after_def clip_bytes_def)
qed

lemma out_order_laid:
  assumes room: "room (out_s self) (12 + int n + int (length (fields_bytes delta fs)))" and n: "0 < n" and "needed \<longrightarrow> rect \<noteq> None"
  shows "wp (out_order self type n needed rect delta fs upd) (\<lambda>(r, self'). r = 0 \<and> (\<exists>s'. self' = self\<lparr>order_count := order_count self + 1, out_s := s',
      orders_state := upd ((orders_state self)\<lparr>last_order := type, clip := clip_after (orders_state self) (order_clip needed rect)\<rparr>)\<rparr>
      \<and> laid (out_s self) (order_bytes (orders_state self) type n needed rect delta fs) s'))"
proof -
  let ?s = "out_s self" and ?st = "orders_state self" and ?clip = "order_clip needed rect"
  define flags where "flags = order_flags ?st type needed rect delta"
  define ty where "ty = (if last_order ?st \<noteq> type then enc8 type else [])"
  note bits = order_flag_bits [OF flags_def]
  let ?h = "0 # ty @ replicate n 0" and ?body = "clip_bytes ?st ?clip @ fields_bytes delta fs"
  have p: "0 \<le> s_p ?s" "s_p ?s + 12 + int n + int (length (fields_bytes delta fs)) \<le> s_size ?s" "length ty \<le> 1" using room by (simp_all add: room_def ty_def)
  have cb: "length (clip_bytes ?st ?clip) \<le> 9" using bounds_bytes_le by (auto simp: clip_bytes_def split: option.split)
  have h1: "out_uint8s ?s 1 = Some (emit ?s [0])" using p n by (simp add: out_uint8s_emit room_def)
  have h2: "(if flags AND TS_TYPE_CHANGE \<noteq> 0 then out_uint8 (emit ?s [0]) type else Some (emit ?s [0])) = Some (emit ?s (0 # ty))"
    unfolding bits(1) ty_def using p n by (simp add: out_uint8_emit)
  have h3: "out_uint8s (emit ?s (0 # ty)) (int n) = Some (emit ?s ?h)" using p n by (simp add: out_uint8s_emit)
  have bounds: "(case rect of Some r \<Rightarrow> if flags AND TS_BOUNDS \<noteq> 0 \<and> flags AND TS_ZERO_BOUNDS_DELTAS = 0
        then xrdp_orders_out_bounds (?st\<lparr>last_order := type\<rparr>) r (emit ?s ?h) else Some (?st\<lparr>last_order := type\<rparr>, emit ?s ?h)
      | None \<Rightarrow> Some (?st\<lparr>last_order := type\<rparr>, emit ?s ?h))
      = Some (?st\<lparr>last_order := type, clip := clip_after ?st ?clip\<rparr>, emit (emit ?s ?h) (clip_bytes ?st ?clip))"
    using clip_emit [OF _ _ flags_def refl assms(3), of "emit ?s ?h" "?st\<lparr>last_order := type\<rparr>"] p by simp
  have flds: "out_fields delta fs 0 (emit ?s (?h @ clip_bytes ?st ?clip)) = Some (present_of fs 0, emit ?s (0 # ty @ replicate n 0 @ ?body))"
    using out_fields_emit [of "emit ?s (?h @ clip_bytes ?st ?clip)" delta fs 0] p cb by simp
  have pack: "wp (xrdp_order_pack_small_or_tiny (s_p ?s) flags (s_p (emit ?s (0 # ty))) (present_of fs 0) n (emit ?s (0 # ty @ replicate n 0 @ ?body)))
      (laid ?s (order_bytes ?st type n needed rect delta fs))"
    unfolding order_bytes_def Let_def flags_def [symmetric] ty_def [symmetric]
    by (rule pack_laid [OF _ refl _ refl]) (use p cb in \<open>simp_all add: room_def\<close>)
  have sel: "orders_state (self\<lparr>order_count := x\<rparr>) = ?st" "out_s (self\<lparr>order_count := x\<rparr>) = ?s" for x by simp_all
  have d: "(flags AND TS_DELTA_COORDINATES \<noteq> 0) = delta" by (rule bits(4))
  from pack obtain s' where
    pack': "xrdp_order_pack_small_or_tiny (s_p ?s) flags (s_p (emit ?s (0 # ty))) (present_of fs 0) n (emit ?s (0 # ty @ replicate n 0 @ ?body)) = Some s'"
    and s': "laid ?s (order_bytes ?st type n needed rect delta fs) s'" by (auto simp: wp_exists)
  have "out_order self type n needed rect delta fs upd = Some (0, self\<lparr>order_count := order_count self + 1, out_s := s',
      orders_state := upd (?st\<lparr>last_order := type, clip := clip_after ?st ?clip\<rparr>)\<rparr>)"
    unfolding out_order_def Let_def sel flags_def [symmetric] h1 bind.bind_lunit h2 h3 bounds emit_emit prod.case d
    using flds pack' by simp
  with s' show ?thesis by auto
qed

subsection \<open>A client\<close>

text \<open>The memory of a client: the last kind of order, the clip with its last column and row, and the last values of each kind.\<close>

record client_orders =
  co_type :: int
  co_clip :: "int \<times> int \<times> int \<times> int"
  co_vals :: "int \<Rightarrow> int list list"

definition signed8 :: "int \<Rightarrow> int" where
  "signed8 v = (if v < 128 then v else v - 256)"

definition signed16 :: "int \<Rightarrow> int" where
  "signed16 v = (if v < 32768 then v else v - 65536)"

primrec le_val :: "byte list \<Rightarrow> int" where
  "le_val [] = 0"
| "le_val (b # bs) = uint b + 256 * le_val bs"

primrec read_u32s :: "nat \<Rightarrow> byte list \<Rightarrow> int list" where
  "read_u32s 0 bs = []"
| "read_u32s (Suc n) bs = s32 (le_val (take 4 bs)) # read_u32s n (drop 4 bs)"

definition read_value :: "bool \<Rightarrow> field_kind \<Rightarrow> int list \<Rightarrow> byte list \<Rightarrow> int list \<times> byte list" where
  "read_value delta kind old bs = (case kind of
     Coord \<Rightarrow> if delta then ([old ! 0 + signed8 (le_val (take 1 bs))], drop 1 bs) else ([signed16 (le_val (take 2 bs))], drop 2 bs)
   | U8s \<Rightarrow> (map uint (take (length old) bs), drop (length old) bs)
   | U16 \<Rightarrow> ([le_val (take 2 bs)], drop 2 bs)
   | U24 \<Rightarrow> ([le_val (take 3 bs)], drop 3 bs)
   | U32s \<Rightarrow> (read_u32s (length old) bs, drop (4 * length old) bs)
   | Text \<Rightarrow> (let n = nat (le_val (take 1 bs)) in (map uint (take n (drop 1 bs)), drop (1 + n) bs)))"

primrec read_fields :: "bool \<Rightarrow> int \<Rightarrow> (nat \<times> field_kind) list \<Rightarrow> int list list \<Rightarrow> byte list \<Rightarrow> int list list \<times> byte list" where
  "read_fields delta present [] olds bs = ([], bs)"
| "read_fields delta present (k # ks) olds bs =
     (case (if bit present (fst k) then read_value delta (snd k) (hd olds) bs else (hd olds, bs)) of
        (v, bs) \<Rightarrow> (case read_fields delta present ks (tl olds) bs of (vs, bs) \<Rightarrow> (v # vs, bs)))"

definition field_ok :: "bool \<Rightarrow> order_field \<Rightarrow> bool" where
  "field_ok delta f \<longleftrightarrow> (case fd_kind f of
     Coord \<Rightarrow> (\<exists>v old. fd_val f = [v] \<and> fd_old f = [old] \<and> - 32768 \<le> v \<and> v < 32768 \<and> (delta \<longrightarrow> \<bar>v - old\<bar> < 128))
   | U8s \<Rightarrow> length (fd_val f) = length (fd_old f) \<and> (\<forall>v \<in> set (fd_val f). 0 \<le> v \<and> v < 256)
   | U16 \<Rightarrow> (\<exists>v. fd_val f = [v] \<and> 0 \<le> v \<and> v < 65536)
   | U24 \<Rightarrow> (\<exists>v. fd_val f = [v] \<and> 0 \<le> v \<and> v < 16777216)
   | U32s \<Rightarrow> length (fd_val f) = length (fd_old f) \<and> (\<forall>v \<in> set (fd_val f). - 2147483648 \<le> v \<and> v < 2147483648)
   | Text \<Rightarrow> length (fd_val f) < 256 \<and> (\<forall>v \<in> set (fd_val f). 0 \<le> v \<and> v < 256))"

lemma le_val_enc: "le_val (enc8 v) = v mod 256" "le_val (enc16_le v) = v mod 65536" "le_val (enc32_le v) = v mod 4294967296"
  "le_val (enc8 v @ enc8 (v div 256) @ enc8 (v div 65536)) = v mod 16777216"
proof -
  show "le_val (enc8 v) = v mod 256" by (simp add: enc8_def uint_byte_of_int)
  show "le_val (enc16_le v) = v mod 65536" by (simp add: enc16_le_def uint_byte_of_int mod_div_256)
  show "le_val (enc32_le v) = v mod 4294967296" unfolding mod_div_65536 [of v, symmetric] by (simp add: enc32_le_def uint_byte_of_int)
  have a: "v mod 16777216 = 256 * (v div 256 mod 65536) + v mod 256" using zmod_zmult2_eq [of 65536 v 256] by simp
  have b: "v div 256 mod 65536 = 256 * (v div 65536 mod 256) + v div 256 mod 256"
    using zmod_zmult2_eq [of 256 "v div 256" 256] zdiv_zmult2_eq [of 256 v 256] by simp
  show "le_val (enc8 v @ enc8 (v div 256) @ enc8 (v div 65536)) = v mod 16777216" unfolding a b by (simp add: enc8_def uint_byte_of_int)
qed

lemma mod_below: "- m \<le> v \<Longrightarrow> v < m \<Longrightarrow> v mod m = (if v < 0 then v + m else v)" for v m :: int
  using mod_add_self2 [of v m] by (auto simp del: mod_add_self2 simp: mod_pos_pos_trivial)

lemma signed_mod: "- 128 \<le> v \<Longrightarrow> v < 128 \<Longrightarrow> signed8 (v mod 256) = v" "- 32768 \<le> v \<Longrightarrow> v < 32768 \<Longrightarrow> signed16 (v mod 65536) = v"
  by (simp_all add: signed8_def signed16_def mod_below)

lemma read_bytes_back: "\<forall>v \<in> set vs. 0 \<le> v \<and> v < 256 \<Longrightarrow> map uint (concat (map enc8 vs)) = vs"
  by (induction vs) (simp_all add: enc8_def uint_byte_of_int)

lemma read_u32s_back: "\<forall>v \<in> set vs. - 2147483648 \<le> v \<and> v < 2147483648 \<Longrightarrow> read_u32s (length vs) (concat (map enc32_le vs) @ rest) = vs"
  by (induction vs) (simp_all add: le_val_enc s32_def mod_add_left_eq)

lemma read_value_back:
  assumes "field_ok delta f" "fd_kind f \<noteq> Text \<longrightarrow> old = fd_old f"
  shows "read_value delta (fd_kind f) old (value_bytes delta f @ rest) = (fd_val f, rest)"
proof (cases "fd_kind f")
  case Coord
  with assms obtain v w where "fd_val f = [v]" "old = [w]" "fd_old f = [w]" "- 32768 \<le> v" "v < 32768" "delta \<longrightarrow> \<bar>v - w\<bar> < 128"
    by (auto simp: field_ok_def)
  with Coord show ?thesis by (auto simp: read_value_def value_bytes_def Let_def le_val_enc signed_mod)
next
  case U8s
  with assms show ?thesis by (simp add: read_value_def value_bytes_def Let_def field_ok_def read_bytes_back)
next
  case U16
  with assms show ?thesis by (auto simp: read_value_def value_bytes_def Let_def field_ok_def le_val_enc)
next
  case U24
  with assms obtain v where "fd_val f = [v]" "0 \<le> v" "v < 16777216" by (auto simp: field_ok_def)
  with U24 show ?thesis using le_val_enc(4) [of v] by (simp add: read_value_def value_bytes_def Let_def)
next
  case U32s
  with assms show ?thesis using read_u32s_back [of "fd_val f" rest] by (simp add: read_value_def value_bytes_def Let_def field_ok_def)
next
  case Text
  with assms show ?thesis by (simp add: read_value_def value_bytes_def Let_def field_ok_def le_val_enc read_bytes_back)
qed

lemma read_fields_back:
  assumes "list_all (field_ok delta) fs" "list_all2 (\<lambda>f old. fd_kind f \<noteq> Text \<longrightarrow> old = fd_old f) fs olds"
    "\<forall>f \<in> set fs. bit present (fd_bit f) = field_changed f"
  shows "read_fields delta present (map (\<lambda>f. (fd_bit f, fd_kind f)) fs) olds (fields_bytes delta fs @ rest) = (map fd_val fs, rest)"
  using assms
proof (induction fs arbitrary: olds)
  case (Cons f fs)
  from Cons.prems(2) obtain old olds' where olds: "olds = old # olds'" "fd_kind f \<noteq> Text \<longrightarrow> old = fd_old f"
    "list_all2 (\<lambda>f old. fd_kind f \<noteq> Text \<longrightarrow> old = fd_old f) fs olds'" by (cases olds) auto
  have rest: "read_fields delta present (map (\<lambda>f. (fd_bit f, fd_kind f)) fs) olds' (fields_bytes delta fs @ rest) = (map fd_val fs, rest)"
    by (rule Cons.IH) (use Cons.prems olds in simp_all)
  have val: "read_value delta (fd_kind f) old (value_bytes delta f @ fields_bytes delta fs @ rest) = (fd_val f, fields_bytes delta fs @ rest)"
    using Cons.prems(1) olds(2) by (intro read_value_back) simp_all
  have b: "bit present (fd_bit f) = field_changed f" using Cons.prems(3) by simp
  show ?case
  proof (cases "field_changed f")
    case True
    with b val rest olds(1) show ?thesis by (simp add: fields_bytes_def)
  next
    case False
    then have "old = fd_val f" using olds(2) by (auto simp: field_changed_def)
    with False b rest olds(1) show ?thesis by (simp add: fields_bytes_def)
  qed
qed (simp add: fields_bytes_def)

subsection \<open>The present flags\<close>

lemma present_of_bit: "bit (present_of fs p) b \<longleftrightarrow> bit p b \<or> (\<exists>f \<in> set fs. field_changed f \<and> fd_bit f = b)"
  by (induction fs arbitrary: p) (auto simp: bit_or_iff bit_push_bit_iff bit_1_iff bit_exp_iff)

lemma and_255: "(x :: int) AND 255 = x mod 256"
  using take_bit_eq_mask [of 8 x] by (simp add: take_bit_eq_mod mask_eq_exp_minus_1)

lemma take_bit_byte: "take_bit (8 + m) (x :: int) = x mod 256 + 256 * take_bit m (drop_bit 8 x)"
  using zmod_zmult2_eq [of "2 ^ m" x 256] by (simp add: take_bit_eq_mod drop_bit_eq_div power_add)

lemma present_bytes_val:
  "le_val (map (\<lambda>i. word_of_int (drop_bit (i * 8) p)) [a..<a + m]) = take_bit (m * 8) (drop_bit (a * 8) p)"
proof (induction m arbitrary: a)
  case (Suc m)
  have "[a..<a + Suc m] = a # [Suc a..<Suc a + m]" by (simp add: upt_conv_Cons)
  moreover have "drop_bit (Suc a * 8) p = drop_bit 8 (drop_bit (a * 8) p)" by (simp add: add.commute)
  ultimately show ?case using Suc.IH [of "Suc a"] take_bit_byte [of "m * 8" "drop_bit (a * 8) p"] by (simp add: uint_byte_of_int del: upt_Suc)
qed simp

lemma move_up_val: "take_bit ((n - move_up_count p n) * 8) p = take_bit (n * 8) p"
proof (induction n)
  case (Suc n)
  show ?case
  proof (cases "drop_bit (n * 8) p AND 0xff = 0")
    case True
    have "take_bit (Suc n * 8) p = take_bit (n * 8) p"
    proof (rule bit_eqI)
      fix i
      have "\<not> bit (drop_bit (n * 8) p AND 0xff) (i - n * 8)" using True by simp
      then have "n * 8 \<le> i \<Longrightarrow> i < Suc n * 8 \<Longrightarrow> \<not> bit p i" unfolding and_255 take_bit_eq_mod [of 8, simplified, symmetric]
        by (simp add: bit_take_bit_iff bit_drop_bit_eq)
      then show "bit (take_bit (Suc n * 8) p) i \<longleftrightarrow> bit (take_bit (n * 8) p) i" by (cases "n * 8 \<le> i") (simp_all add: bit_take_bit_iff)
    qed
    with True Suc show ?thesis by simp
  qed simp
qed simp

lemma present_back:
  assumes "\<forall>f \<in> set fs. fd_bit f < n * 8" "p = present_of fs 0"
  shows "le_val (take (n - move_up_count p n) (present_bytes p n)) = p"
proof -
  have "take_bit (n * 8) p = p"
    by (rule bit_eqI) (use assms in \<open>auto simp: bit_take_bit_iff present_of_bit\<close>)
  moreover have "take (n - move_up_count p n) (present_bytes p n) = map (\<lambda>i. word_of_int (drop_bit (i * 8) p)) [0..<0 + (n - move_up_count p n)]"
    by (simp add: present_bytes_def take_map)
  ultimately show ?thesis using present_bytes_val [of p 0 "n - move_up_count p n"] by (simp add: move_up_val)
qed

subsection \<open>Reading an order\<close>

definition read_edge :: "int \<Rightarrow> int \<Rightarrow> int \<Rightarrow> int \<Rightarrow> byte list \<Rightarrow> int \<times> byte list" where
  "read_edge F small large old bs =
     (if F AND large \<noteq> 0 then (signed16 (le_val (take 2 bs)), drop 2 bs)
      else if F AND small \<noteq> 0 then (old + signed8 (le_val (take 1 bs)), drop 1 bs) else (old, bs))"

definition read_bounds :: "int \<times> int \<times> int \<times> int \<Rightarrow> byte list \<Rightarrow> (int \<times> int \<times> int \<times> int) \<times> byte list" where
  "read_bounds c bs = (case c of (l, t, r, b) \<Rightarrow> let F = uint (hd bs) in
     case read_edge F 0x10 0x01 l (tl bs) of (l, bs) \<Rightarrow> case read_edge F 0x20 0x02 t bs of (t, bs) \<Rightarrow>
     case read_edge F 0x40 0x04 r bs of (r, bs) \<Rightarrow> case read_edge F 0x80 0x08 b bs of (b, bs) \<Rightarrow> ((l, t, r, b), bs))"

definition order_kinds :: "int \<Rightarrow> (nat \<times> field_kind) list" where
  "order_kinds type =
     (if type = RDP_ORDER_RECT then [(0, Coord), (1, Coord), (2, Coord), (3, Coord), (4, U8s), (5, U8s), (6, U8s)]
      else if type = RDP_ORDER_SCREENBLT then [(0, Coord), (1, Coord), (2, Coord), (3, Coord), (4, U8s), (5, Coord), (6, Coord)]
      else if type = RDP_ORDER_PATBLT then [(0, Coord), (1, Coord), (2, Coord), (3, Coord), (4, U8s), (5, U24), (6, U24), (7, U8s), (8, U8s), (9, U8s), (10, U8s), (11, U8s)]
      else if type = RDP_ORDER_DESTBLT then [(0, Coord), (1, Coord), (2, Coord), (3, Coord), (4, U8s)]
      else if type = RDP_ORDER_LINE then [(0, U16), (1, Coord), (2, Coord), (3, Coord), (4, Coord), (5, U24), (6, U8s), (7, U8s), (8, U8s), (9, U24)]
      else if type = RDP_ORDER_MEMBLT then [(0, U8s), (1, Coord), (2, Coord), (3, Coord), (4, Coord), (5, U8s), (6, Coord), (7, Coord), (8, U16)]
      else if type = RDP_ORDER_TEXT2 then [(0, U8s), (1, U8s), (3, U8s), (4, U24), (5, U24), (6, U16), (7, U16), (8, U16), (9, U16), (10, U16), (11, U16),
        (12, U16), (13, U16), (19, U16), (20, U16), (21, Text)]
      else [])"

definition order_size :: "int \<Rightarrow> nat" where
  "order_size type = (if type = RDP_ORDER_RECT \<or> type = RDP_ORDER_SCREENBLT \<or> type = RDP_ORDER_DESTBLT then 1
     else if type = RDP_ORDER_PATBLT \<or> type = RDP_ORDER_LINE \<or> type = RDP_ORDER_MEMBLT then 2 else 3)"

text \<open>What is drawn: the kind, the clip if there is one, and the values.\<close>

type_synonym drawing = "int \<times> (int \<times> int \<times> int \<times> int) option \<times> int list list"

definition client_order :: "client_orders \<Rightarrow> byte list \<Rightarrow> drawing \<times> client_orders \<times> byte list" where
  "client_order cl bs =
     (let flags = uint (hd bs);
          (type, bs) = (if flags AND TS_TYPE_CHANGE \<noteq> 0 then (uint (bs ! 1), drop 2 bs) else (co_type cl, drop 1 bs));
          n = order_size type - nat (drop_bit 6 flags); present = le_val (take n bs);
          (c, bs) = (if flags AND TS_BOUNDS \<noteq> 0 \<and> flags AND TS_ZERO_BOUNDS_DELTAS = 0 then read_bounds (co_clip cl) (drop n bs) else (co_clip cl, drop n bs));
          (vs, bs) = read_fields (flags AND TS_DELTA_COORDINATES \<noteq> 0) present (order_kinds type) (co_vals cl type) bs
      in ((type, if flags AND TS_BOUNDS \<noteq> 0 then Some c else None, vs),
          \<lparr>co_type = type, co_clip = c, co_vals = (co_vals cl)(type := vs)\<rparr>, bs))"

definition client_clip :: "xrdp_rect \<Rightarrow> int \<times> int \<times> int \<times> int" where
  "client_clip r = (rc_left r, rc_top r, rc_right r - 1, rc_bottom r - 1)"

definition clip_ok :: "xrdp_rect \<Rightarrow> bool" where
  "clip_ok r \<longleftrightarrow> (- 32768 \<le> rc_left r \<and> rc_left r < 32768) \<and> (- 32768 \<le> rc_top r \<and> rc_top r < 32768)
     \<and> (- 32767 \<le> rc_right r \<and> rc_right r \<le> 32768) \<and> (- 32767 \<le> rc_bottom r \<and> rc_bottom r \<le> 32768)"

lemma read_edge_back:
  assumes "F AND large \<noteq> 0 \<longleftrightarrow> bound_flag v old small large = large" "F AND small \<noteq> 0 \<longleftrightarrow> bound_flag v old small large = small"
    and "small \<noteq> large" "small \<noteq> 0" "large \<noteq> 0" "- 32768 \<le> v - d" "v - d < 32768"
  shows "read_edge F small large (old - d) (edge_bytes v old (v - d) @ rest) = (v - d, rest)"
  using assms by (auto simp: read_edge_def edge_bytes_def bound_flag_def le_val_enc signed_mod split: if_splits)

lemma read_bounds_back:
  assumes "clip_ok r"
  shows "read_bounds (client_clip c) (bounds_bytes c r @ rest) = (client_clip r, rest)"
proof -
  note b = bounds_flag_bits [of c r]
  have F: "uint (word_of_int (bounds_flags c r) :: byte) = bounds_flags c r" using b(9) by (simp add: uint_byte_of_int)
  show ?thesis unfolding read_bounds_def client_clip_def bounds_bytes_def prod.case Let_def
    using assms F read_edge_back [OF b(1,2), of 0] read_edge_back [OF b(3,4), of 0] read_edge_back [OF b(5,6), of 1] read_edge_back [OF b(7,8), of 1]
    by (simp add: clip_ok_def)
qed

lemma packed_flags:
  assumes "0 \<le> flags" "flags < 64" "k \<le> 3" "F = uint (word_of_int (if 0 < k then flags OR push_bit 6 (int k) else flags) :: byte)"
  shows "nat (drop_bit 6 F) = k" "F AND TS_TYPE_CHANGE = flags AND TS_TYPE_CHANGE" "F AND TS_BOUNDS = flags AND TS_BOUNDS"
    "F AND TS_ZERO_BOUNDS_DELTAS = flags AND TS_ZERO_BOUNDS_DELTAS" "F AND TS_DELTA_COORDINATES = flags AND TS_DELTA_COORDINATES"
proof -
  have sum: "flags OR push_bit 6 (int k) = flags + 64 * int k" using add_or [of flags 6 "int k"] assms(1,2) by simp
  have F: "F = flags OR push_bit 6 (int k)" using assms unfolding sum by (auto simp: uint_byte_of_int)
  have k: "int k = 0 \<or> int k = 1 \<or> int k = 2 \<or> int k = 3" using assms(3) by linarith
  have "drop_bit 6 F = int k" unfolding F sum using assms(1,2) by (simp add: drop_bit_eq_div)
  then show "nat (drop_bit 6 F) = k" by simp
  show "F AND TS_TYPE_CHANGE = flags AND TS_TYPE_CHANGE" "F AND TS_BOUNDS = flags AND TS_BOUNDS"
    "F AND TS_ZERO_BOUNDS_DELTAS = flags AND TS_ZERO_BOUNDS_DELTAS" "F AND TS_DELTA_COORDINATES = flags AND TS_DELTA_COORDINATES"
    unfolding F bit.conj_disj_distrib2 using k by (elim disjE; simp)+
qed

lemma client_order_run:
  assumes bs: "bs = word_of_int F0 # ty @ pres @ cb @ fb" and F: "F = uint (word_of_int F0 :: byte)"
    and ty: "if F AND TS_TYPE_CHANGE \<noteq> 0 then ty = enc8 type \<and> 0 \<le> type \<and> type < 256 else ty = [] \<and> co_type cl = type"
    and pres: "length pres = order_size type - nat (drop_bit 6 F)"
    and cb: "(if F AND TS_BOUNDS \<noteq> 0 \<and> F AND TS_ZERO_BOUNDS_DELTAS = 0 then read_bounds (co_clip cl) (cb @ fb) else (co_clip cl, cb @ fb)) = (c, fb)"
    and fb: "read_fields (F AND TS_DELTA_COORDINATES \<noteq> 0) (le_val pres) (order_kinds type) (co_vals cl type) fb = (vs, rest)"
  shows "client_order cl bs = ((type, if F AND TS_BOUNDS \<noteq> 0 then Some c else None, vs),
      \<lparr>co_type = type, co_clip = c, co_vals = (co_vals cl)(type := vs)\<rparr>, rest)"
proof -
  have head: "(if F AND TS_TYPE_CHANGE \<noteq> 0 then (uint (bs ! 1), drop 2 bs) else (co_type cl, drop 1 bs)) = (type, pres @ cb @ fb)"
    using ty by (auto simp: bs enc8_def uint_byte_of_int split: if_splits)
  have "hd bs = word_of_int F0" by (simp add: bs)
  moreover have "take (order_size type - nat (drop_bit 6 F)) (pres @ cb @ fb) = pres" "drop (order_size type - nat (drop_bit 6 F)) (pres @ cb @ fb) = cb @ fb"
    using pres by simp_all
  ultimately show ?thesis unfolding client_order_def Let_def by (simp only: F [symmetric] head prod.case cb fb)
qed

lemma read_order_back:
  assumes cl: "co_type cl = last_order st" "co_clip cl = client_clip (clip st)"
    and kinds: "order_kinds type = map (\<lambda>f. (fd_bit f, fd_kind f)) fs" and n: "order_size type = n" "n \<le> 3" and type: "0 \<le> type" "type < 256"
    and fs: "list_all (field_ok delta) fs" "list_all2 (\<lambda>f old. fd_kind f \<noteq> Text \<longrightarrow> old = fd_old f) fs (co_vals cl type)"
      "distinct (map fd_bit fs)" "\<forall>f \<in> set fs. fd_bit f < n * 8"
    and clip: "\<And>r. order_clip needed rect = Some r \<Longrightarrow> clip_ok r"
  shows "client_order cl (order_bytes st type n needed rect delta fs @ rest)
     = ((type, map_option client_clip (order_clip needed rect), map fd_val fs),
        \<lparr>co_type = type, co_clip = client_clip (clip_after st (order_clip needed rect)), co_vals = (co_vals cl)(type := map fd_val fs)\<rparr>, rest)"
proof -
  define p where "p = present_of fs 0"
  define k where "k = move_up_count p n"
  define flags where "flags = order_flags st type needed rect delta"
  define F where "F = uint (word_of_int (if 0 < k then flags OR push_bit 6 (int k) else flags) :: byte)"
  note bits = order_flag_bits [OF flags_def]
  have "k \<le> n" unfolding k_def by (rule move_up_le)
  with n(2) have "k \<le> 3" by simp
  note F = packed_flags [OF bits(5,6) this F_def]
  let ?clip = "order_clip needed rect"
  have bytes: "order_bytes st type n needed rect delta fs @ rest = word_of_int (if 0 < k then flags OR push_bit 6 (int k) else flags)
      # (if last_order st \<noteq> type then enc8 type else []) @ take (n - k) (present_bytes p n) @ clip_bytes st ?clip @ (fields_bytes delta fs @ rest)"
    by (simp add: order_bytes_def Let_def p_def k_def flags_def)
  have "bit p (fd_bit f) = field_changed f" if "f \<in> set fs" for f
    using that fs(3) by (auto simp: p_def present_of_bit distinct_map inj_on_def)
  then have read: "read_fields (F AND TS_DELTA_COORDINATES \<noteq> 0) (le_val (take (n - k) (present_bytes p n))) (order_kinds type) (co_vals cl type)
      (fields_bytes delta fs @ rest) = (map fd_val fs, rest)"
    unfolding F(5) bits(4) kinds using read_fields_back [OF fs(1,2)] present_back [OF fs(4) p_def] k_def by simp
  have cb: "(if F AND TS_BOUNDS \<noteq> 0 \<and> F AND TS_ZERO_BOUNDS_DELTAS = 0 then read_bounds (co_clip cl) (clip_bytes st ?clip @ fields_bytes delta fs @ rest)
      else (co_clip cl, clip_bytes st ?clip @ fields_bytes delta fs @ rest)) = (client_clip (clip_after st ?clip), fields_bytes delta fs @ rest)"
    unfolding F(3,4) using bits(2,3) read_bounds_back [OF clip] cl(2) by (auto simp: clip_bytes_def clip_after_def split: option.splits)
  have "client_order cl (order_bytes st type n needed rect delta fs @ rest)
     = ((type, if F AND TS_BOUNDS \<noteq> 0 then Some (client_clip (clip_after st ?clip)) else None, map fd_val fs),
        \<lparr>co_type = type, co_clip = client_clip (clip_after st ?clip), co_vals = (co_vals cl)(type := map fd_val fs)\<rparr>, rest)"
    by (rule client_order_run [OF bytes F_def _ _ cb read])
      (use F bits(1) cl(1) type n(1) in \<open>auto simp: present_bytes_def\<close>)
  then show ?thesis using F(3) bits(2) by (auto simp: clip_after_def split: option.splits)
qed

end
