(* ===== verification/Order_Runs.thy ===== *)
theory Order_Runs
  imports Order_Laws
begin

text \<open>
  Drawing with the orders: the seven primary orders whose memory both sides keep, one after the other, and the
  update that carries them to the client.
\<close>

subsection \<open>The orders\<close>

datatype draw =
    Rect int int int int int
  | Screen_Blt int int int int int int int
  | Pat_Blt int int int int int int int "xrdp_brush option"
  | Dest_Blt int int int int int
  | Draw_Line int int int int int int int "xrdp_pen option"
  | Mem_Blt int int int int int int int int int int
  | Draw_Text int int int int int xrdp_rect xrdp_rect int int "int list"

primrec draw_order :: "('k, 'w) rdp_env \<Rightarrow> 'k xrdp_orders \<Rightarrow> draw \<Rightarrow> xrdp_rect option \<Rightarrow> (int \<times> 'k xrdp_orders) option" where
  "draw_order env self (Rect x y cx cy color) rect = xrdp_orders_rect env self x y cx cy color rect"
| "draw_order env self (Screen_Blt x y cx cy srcx srcy rop) rect = xrdp_orders_screen_blt env self x y cx cy srcx srcy rop rect"
| "draw_order env self (Pat_Blt x y cx cy rop bg fg brush) rect = xrdp_orders_pat_blt env self x y cx cy rop bg fg brush rect"
| "draw_order env self (Dest_Blt x y cx cy rop) rect = xrdp_orders_dest_blt env self x y cx cy rop rect"
| "draw_order env self (Draw_Line mix sx sy ex ey rop bg pen) rect = xrdp_orders_line env self mix sx sy ex ey rop bg pen rect"
| "draw_order env self (Mem_Blt cid table x y cx cy rop srcx srcy idx) rect = xrdp_orders_mem_blt env self cid table x y cx cy rop srcx srcy idx rect"
| "draw_order env self (Draw_Text font flags mix fg bg c b x y data) rect = xrdp_orders_text env self font flags mix fg bg c b x y data rect"

primrec dr_type :: "draw \<Rightarrow> int" where
  "dr_type (Rect x y cx cy color) = RDP_ORDER_RECT"
| "dr_type (Screen_Blt x y cx cy srcx srcy rop) = RDP_ORDER_SCREENBLT"
| "dr_type (Pat_Blt x y cx cy rop bg fg brush) = RDP_ORDER_PATBLT"
| "dr_type (Dest_Blt x y cx cy rop) = RDP_ORDER_DESTBLT"
| "dr_type (Draw_Line mix sx sy ex ey rop bg pen) = RDP_ORDER_LINE"
| "dr_type (Mem_Blt cid table x y cx cy rop srcx srcy idx) = RDP_ORDER_MEMBLT"
| "dr_type (Draw_Text font flags mix fg bg c b x y data) = RDP_ORDER_TEXT2"

primrec dr_size :: "draw \<Rightarrow> int" where
  "dr_size (Rect x y cx cy color) = 23"
| "dr_size (Screen_Blt x y cx cy srcx srcy rop) = 25"
| "dr_size (Pat_Blt x y cx cy rop bg fg brush) = 39"
| "dr_size (Dest_Blt x y cx cy rop) = 21"
| "dr_size (Draw_Line mix sx sy ex ey rop bg pen) = 32"
| "dr_size (Mem_Blt cid table x y cx cy rop srcx srcy idx) = 30"
| "dr_size (Draw_Text font flags mix fg bg c b x y data) = 44 + int (length data)"

primrec dr_needed :: "draw \<Rightarrow> xrdp_rect option \<Rightarrow> bool" where
  "dr_needed (Rect x y cx cy color) rect = clip_needed x y cx cy rect"
| "dr_needed (Screen_Blt x y cx cy srcx srcy rop) rect = clip_needed x y cx cy rect"
| "dr_needed (Pat_Blt x y cx cy rop bg fg brush) rect = clip_needed x y cx cy rect"
| "dr_needed (Dest_Blt x y cx cy rop) rect = clip_needed x y cx cy rect"
| "dr_needed (Draw_Line mix sx sy ex ey rop bg pen) rect = line_clip_needed sx sy ex ey rect"
| "dr_needed (Mem_Blt cid table x y cx cy rop srcx srcy idx) rect = clip_needed x y cx cy rect"
| "dr_needed (Draw_Text font flags mix fg bg c b x y data) rect = text_clip_needed c b rect"

definition the_brush :: "xrdp_brush option \<Rightarrow> xrdp_brush" where
  "the_brush b = (case b of None \<Rightarrow> blank_brush | Some b \<Rightarrow> b)"

definition the_pen :: "xrdp_pen option \<Rightarrow> xrdp_pen" where
  "the_pen p = (case p of None \<Rightarrow> blank_pen | Some p \<Rightarrow> p)"

definition line_mix :: "int \<Rightarrow> int" where "line_mix mix = (if mix < 1 \<or> mix > 2 then 1 else mix)"

definition line_rop2 :: "int \<Rightarrow> int" where "line_rop2 rop = (if rop < 1 \<or> rop > 0x10 then 0x0d else rop)"

primrec dr_fields :: "draw \<Rightarrow> xrdp_orders_state \<Rightarrow> order_field list" where
  "dr_fields (Rect x y cx cy color) st = rect_fields (os_rect st) x y cx cy color"
| "dr_fields (Screen_Blt x y cx cy srcx srcy rop) st = scr_blt_fields (os_scr st) x y cx cy srcx srcy rop"
| "dr_fields (Pat_Blt x y cx cy rop bg fg brush) st = pat_blt_fields (os_pat st) x y cx cy rop bg fg (the_brush brush)"
| "dr_fields (Dest_Blt x y cx cy rop) st = dest_blt_fields (os_dest st) x y cx cy rop"
| "dr_fields (Draw_Line mix sx sy ex ey rop bg pen) st = line_fields (os_line st) (line_mix mix) sx sy ex ey (line_rop2 rop) bg (the_pen pen)"
| "dr_fields (Mem_Blt cid table x y cx cy rop srcx srcy idx) st = mem_blt_fields (os_mem st) cid table x y cx cy rop srcx srcy idx"
| "dr_fields (Draw_Text font flags mix fg bg c b x y data) st = text_fields (os_text st) font flags mix fg bg c b x y data"

primrec dr_delta :: "draw \<Rightarrow> xrdp_orders_state \<Rightarrow> bool" where
  "dr_delta (Rect x y cx cy color) st = (let st = os_rect st in xrdp_orders_send_delta [(x, rect_x st), (y, rect_y st), (cx, rect_cx st), (cy, rect_cy st)])"
| "dr_delta (Screen_Blt x y cx cy srcx srcy rop) st = (let st = os_scr st in
     xrdp_orders_send_delta [(x, scr_x st), (y, scr_y st), (cx, scr_cx st), (cy, scr_cy st), (srcx, scr_srcx st), (srcy, scr_srcy st)])"
| "dr_delta (Pat_Blt x y cx cy rop bg fg brush) st = (let st = os_pat st in xrdp_orders_send_delta [(x, pat_x st), (y, pat_y st), (cx, pat_cx st), (cy, pat_cy st)])"
| "dr_delta (Dest_Blt x y cx cy rop) st = (let st = os_dest st in xrdp_orders_send_delta [(x, dest_x st), (y, dest_y st), (cx, dest_cx st), (cy, dest_cy st)])"
| "dr_delta (Draw_Line mix sx sy ex ey rop bg pen) st = (let st = os_line st in
     xrdp_orders_send_delta [(sx, line_startx st), (sy, line_starty st), (ex, line_endx st), (ey, line_endy st)])"
| "dr_delta (Mem_Blt cid table x y cx cy rop srcx srcy idx) st = (let st = os_mem st in
     xrdp_orders_send_delta [(x, mem_x st), (y, mem_y st), (cx, mem_cx st), (cy, mem_cy st), (srcx, mem_srcx st), (srcy, mem_srcy st)])"
| "dr_delta (Draw_Text font flags mix fg bg c b x y data) st = False"

text \<open>The memory after an order, from the memory \<open>st\<close> before it.\<close>

primrec dr_after :: "draw \<Rightarrow> xrdp_orders_state \<Rightarrow> xrdp_orders_state \<Rightarrow> xrdp_orders_state" where
  "dr_after (Rect x y cx cy color) st os =
     os\<lparr>os_rect := \<lparr>rect_x = x, rect_y = y, rect_cx = cx, rect_cy = cy, rect_color = set_rect_color color (rect_color (os_rect st))\<rparr>\<rparr>"
| "dr_after (Screen_Blt x y cx cy srcx srcy rop) st os =
     os\<lparr>os_scr := \<lparr>scr_x = x, scr_y = y, scr_cx = cx, scr_cy = cy, scr_rop = rop, scr_srcx = srcx, scr_srcy = srcy\<rparr>\<rparr>"
| "dr_after (Pat_Blt x y cx cy rop bg fg brush) st os =
     os\<lparr>os_pat := \<lparr>pat_x = x, pat_y = y, pat_cx = cx, pat_cy = cy, pat_rop = rop, pat_bg_color = bg, pat_fg_color = fg, pat_brush = the_brush brush\<rparr>\<rparr>"
| "dr_after (Dest_Blt x y cx cy rop) st os = os\<lparr>os_dest := \<lparr>dest_x = x, dest_y = y, dest_cx = cx, dest_cy = cy, dest_rop = rop\<rparr>\<rparr>"
| "dr_after (Draw_Line mix sx sy ex ey rop bg pen) st os =
     os\<lparr>os_line := \<lparr>line_mix_mode = line_mix mix, line_startx = sx, line_starty = sy, line_endx = ex, line_endy = ey, line_bg_color = bg,
        line_rop = line_rop2 rop, line_pen = the_pen pen\<rparr>\<rparr>"
| "dr_after (Mem_Blt cid table x y cx cy rop srcx srcy idx) st os =
     os\<lparr>os_mem := \<lparr>mem_color_table = table, mem_cache_id = cid, mem_x = x, mem_y = y, mem_cx = cx, mem_cy = cy, mem_rop = rop, mem_srcx = srcx,
        mem_srcy = srcy, mem_cache_idx = idx\<rparr>\<rparr>"
| "dr_after (Draw_Text font flags mix fg bg c b x y data) st os =
     os\<lparr>os_text := \<lparr>text_font = font, text_flags = flags, text_mixmode = mix, text_fg_color = fg, text_bg_color = bg, text_clip = c, text_box = b,
        text_x = x, text_y = y\<rparr>\<rparr>"

text \<open>All of them are one check of the room and one order.\<close>

lemma draw_order_run:
  "draw_order env self d rect = do {
     (r, self) \<leftarrow> xrdp_orders_check env self (dr_size d);
     if r \<noteq> 0 then Some (1, self)
     else out_order self (dr_type d) (order_size (dr_type d)) (dr_needed d rect) rect (dr_delta d (orders_state self))
       (dr_fields d (orders_state self)) (dr_after d (orders_state self)) }"
  by (cases d) (simp_all add: xrdp_orders_rect_def xrdp_orders_screen_blt_def xrdp_orders_pat_blt_def xrdp_orders_dest_blt_def xrdp_orders_line_def
      xrdp_orders_mem_blt_def xrdp_orders_text_def order_size_def Let_def the_brush_def the_pen_def line_mix_def line_rop2_def dr_after.simps [abs_def] cong: if_cong)

subsection \<open>The values of an order\<close>

text \<open>What the caller asked to draw, value by value and as the client is to read them.\<close>

primrec dr_vals :: "draw \<Rightarrow> int list list" where
  "dr_vals (Rect x y cx cy color) = [[x], [y], [cx], [cy], [color_byte 0 color], [color_byte 1 color], [color_byte 2 color]]"
| "dr_vals (Screen_Blt x y cx cy srcx srcy rop) = [[x], [y], [cx], [cy], [rop], [srcx], [srcy]]"
| "dr_vals (Pat_Blt x y cx cy rop bg fg brush) = (let b = the_brush brush in
     [[x], [y], [cx], [cy], [rop], [bg], [fg], [br_x_origin b], [br_y_origin b], [br_style b], take 1 (br_pattern b), drop 1 (br_pattern b)])"
| "dr_vals (Dest_Blt x y cx cy rop) = [[x], [y], [cx], [cy], [rop]]"
| "dr_vals (Draw_Line mix sx sy ex ey rop bg pen) = (let p = the_pen pen in
     [[line_mix mix], [sx], [sy], [ex], [ey], [bg], [line_rop2 rop], [pn_style p], [pn_width p], [pn_color p]])"
| "dr_vals (Mem_Blt cid table x y cx cy rop srcx srcy idx) = [[cid, table], [x], [y], [cx], [cy], [rop], [srcx], [srcy], [idx]]"
| "dr_vals (Draw_Text font flags mix fg bg c b x y data) =
     [[font], [flags], [mix], [fg], [bg], [rc_left c], [rc_top c], [rc_right c], [rc_bottom c], [rc_left b], [rc_top b], [rc_right b], [rc_bottom b],
      [x], [y], data]"

text \<open>The values that fit the fields of the wire.\<close>

definition coord_ok :: "int \<Rightarrow> bool" where "coord_ok v \<longleftrightarrow> - 32768 \<le> v \<and> v < 32768"
definition byte_ok :: "int \<Rightarrow> bool" where "byte_ok v \<longleftrightarrow> 0 \<le> v \<and> v < 256"
definition short_ok :: "int \<Rightarrow> bool" where "short_ok v \<longleftrightarrow> 0 \<le> v \<and> v < 65536"
definition color_ok :: "int \<Rightarrow> bool" where "color_ok v \<longleftrightarrow> 0 \<le> v \<and> v < 16777216"

definition brush_ok :: "xrdp_brush \<Rightarrow> bool" where
  "brush_ok b \<longleftrightarrow> length (br_pattern b) = 8 \<and> list_all byte_ok ([br_x_origin b, br_y_origin b, br_style b] @ br_pattern b)"

definition pen_ok :: "xrdp_pen \<Rightarrow> bool" where
  "pen_ok p \<longleftrightarrow> list_all byte_ok [pn_style p, pn_width p] \<and> color_ok (pn_color p)"

definition edges :: "xrdp_rect \<Rightarrow> int list" where
  "edges r = [rc_left r, rc_top r, rc_right r, rc_bottom r]"

primrec dr_ok :: "draw \<Rightarrow> bool" where
  "dr_ok (Rect x y cx cy color) \<longleftrightarrow> list_all coord_ok [x, y, cx, cy]"
| "dr_ok (Screen_Blt x y cx cy srcx srcy rop) \<longleftrightarrow> list_all coord_ok [x, y, cx, cy, srcx, srcy] \<and> byte_ok rop"
| "dr_ok (Pat_Blt x y cx cy rop bg fg brush) \<longleftrightarrow> list_all coord_ok [x, y, cx, cy] \<and> byte_ok rop \<and> list_all color_ok [bg, fg] \<and> brush_ok (the_brush brush)"
| "dr_ok (Dest_Blt x y cx cy rop) \<longleftrightarrow> list_all coord_ok [x, y, cx, cy] \<and> byte_ok rop"
| "dr_ok (Draw_Line mix sx sy ex ey rop bg pen) \<longleftrightarrow> list_all coord_ok [sx, sy, ex, ey] \<and> color_ok bg \<and> pen_ok (the_pen pen)"
| "dr_ok (Mem_Blt cid table x y cx cy rop srcx srcy idx) \<longleftrightarrow> list_all byte_ok [cid, table, rop] \<and> list_all coord_ok [x, y, cx, cy, srcx, srcy] \<and> short_ok idx"
| "dr_ok (Draw_Text font flags mix fg bg c b x y data) \<longleftrightarrow> list_all byte_ok ([font, flags, mix] @ data) \<and> list_all color_ok [fg, bg]
     \<and> list_all short_ok (edges c @ edges b @ [x, y]) \<and> length data < 256"

lemmas dr_field_defs = rect_fields_def scr_blt_fields_def pat_blt_fields_def dest_blt_fields_def line_fields_def mem_blt_fields_def text_fields_def
lemmas range_defs = coord_ok_def byte_ok_def short_ok_def color_ok_def brush_ok_def pen_ok_def edges_def

lemma dr_fields_vals: "map fd_val (dr_fields d st) = dr_vals d"
  by (cases d) (simp_all add: dr_field_defs Let_def)

lemma dr_fields_kinds: "order_kinds (dr_type d) = map (\<lambda>f. (fd_bit f, fd_kind f)) (dr_fields d st)"
  by (cases d) (simp_all add: dr_field_defs order_kinds_def)

lemma dr_type_range: "0 \<le> dr_type d" "dr_type d < 256" "0 < order_size (dr_type d)" "order_size (dr_type d) \<le> 3"
  by (cases d; simp add: order_size_def)+

lemma dr_fields_bits: "distinct (map fd_bit (dr_fields d st))" "\<forall>f \<in> set (dr_fields d st). fd_bit f < order_size (dr_type d) * 8"
  by (cases d; simp add: dr_field_defs order_size_def)+

lemma color_byte_range: "0 \<le> color_byte n c" "color_byte n c < 256"
  by (simp_all add: color_byte_def and_255)

abbreviation pattern8 :: "xrdp_orders_state \<Rightarrow> bool" where
  "pattern8 st \<equiv> length (br_pattern (pat_brush (os_pat st))) = 8"

lemma byte_field_ok: "field_ok delta (Field b U8s [v] [w]) \<longleftrightarrow> byte_ok v"
  by (simp add: field_ok_def byte_ok_def)

lemma coord_field_ok: "field_ok delta (Field b Coord [v] [w]) \<longleftrightarrow> coord_ok v \<and> (delta \<longrightarrow> \<bar>v - w\<bar> < 128)"
  by (simp add: field_ok_def coord_ok_def)

lemma wide_field_ok: "field_ok delta (Field b U16 [v] [w]) \<longleftrightarrow> short_ok v" "field_ok delta (Field b U24 [v] [w]) \<longleftrightarrow> color_ok v"
  by (simp_all add: field_ok_def short_ok_def color_ok_def)

lemma bytes_field_ok: "field_ok delta (Field b U8s vs ws) \<longleftrightarrow> length vs = length ws \<and> list_all byte_ok vs"
  "field_ok delta (Field b Text vs ws) \<longleftrightarrow> length vs < 256 \<and> list_all byte_ok vs"
  by (auto simp: field_ok_def byte_ok_def list_all_iff)

lemmas fields_ok = byte_field_ok coord_field_ok wide_field_ok bytes_field_ok

lemma line_norm_range: "short_ok (line_mix m)" "byte_ok (line_rop2 r)"
  by (simp_all add: line_mix_def line_rop2_def range_defs)

lemma list_all_pattern: "list_all P xs \<Longrightarrow> list_all P (take n xs)" "list_all P xs \<Longrightarrow> list_all P (drop n xs)"
  by (auto simp: list_all_iff dest: in_set_takeD in_set_dropD)

lemma dr_fields_ok:
  assumes "dr_ok d" "pattern8 st"
  shows "list_all (field_ok (dr_delta d st)) (dr_fields d st)"
proof (cases d)
  case (Pat_Blt x y cx cy rop bg fg brush)
  with assms list_all_pattern [of byte_ok "br_pattern (the_brush brush)" 1] show ?thesis
    by (simp add: dr_field_defs fields_ok Let_def brush_ok_def list_all_pattern)
qed (use assms color_byte_range line_norm_range in
    \<open>simp_all add: dr_field_defs fields_ok Let_def pen_ok_def edges_def byte_ok_def [of "color_byte _ _"] list_all_iff [of byte_ok]\<close>)

subsection \<open>A client that follows\<close>

text \<open>
  What the server remembers of a kind of order. A client \<open>follows\<close> when it remembers the same kind, the same clip and, of each
  kind of order, the same values; of a text it also remembers the last one.
\<close>

definition order_memory :: "xrdp_orders_state \<Rightarrow> int \<Rightarrow> int list list" where
  "order_memory st type =
     (if type = RDP_ORDER_RECT then let m = os_rect st in
        [[rect_x m], [rect_y m], [rect_cx m], [rect_cy m], [color_byte 0 (rect_color m)], [color_byte 1 (rect_color m)], [color_byte 2 (rect_color m)]]
      else if type = RDP_ORDER_SCREENBLT then let m = os_scr st in
        [[scr_x m], [scr_y m], [scr_cx m], [scr_cy m], [scr_rop m], [scr_srcx m], [scr_srcy m]]
      else if type = RDP_ORDER_PATBLT then let m = os_pat st; b = pat_brush m in
        [[pat_x m], [pat_y m], [pat_cx m], [pat_cy m], [pat_rop m], [pat_bg_color m], [pat_fg_color m], [br_x_origin b], [br_y_origin b], [br_style b],
         take 1 (br_pattern b), drop 1 (br_pattern b)]
      else if type = RDP_ORDER_DESTBLT then let m = os_dest st in [[dest_x m], [dest_y m], [dest_cx m], [dest_cy m], [dest_rop m]]
      else if type = RDP_ORDER_LINE then let m = os_line st; p = line_pen m in
        [[line_mix_mode m], [line_startx m], [line_starty m], [line_endx m], [line_endy m], [line_bg_color m], [line_rop m], [pn_style p], [pn_width p], [pn_color p]]
      else if type = RDP_ORDER_MEMBLT then let m = os_mem st in
        [[mem_cache_id m, mem_color_table m], [mem_x m], [mem_y m], [mem_cx m], [mem_cy m], [mem_rop m], [mem_srcx m], [mem_srcy m], [mem_cache_idx m]]
      else if type = RDP_ORDER_TEXT2 then let m = os_text st in
        [[text_font m], [text_flags m], [text_mixmode m], [text_fg_color m], [text_bg_color m]] @ map (\<lambda>v. [v]) (edges (text_clip m))
        @ map (\<lambda>v. [v]) (edges (text_box m)) @ [[text_x m], [text_y m]]
      else [])"

definition order_types :: "int list" where
  "order_types = [RDP_ORDER_DESTBLT, RDP_ORDER_PATBLT, RDP_ORDER_SCREENBLT, RDP_ORDER_LINE, RDP_ORDER_RECT, RDP_ORDER_MEMBLT, RDP_ORDER_TEXT2]"

definition same_values :: "xrdp_orders_state \<Rightarrow> client_orders \<Rightarrow> int \<Rightarrow> bool" where
  "same_values st cl type \<longleftrightarrow> length (co_vals cl type) = length (order_kinds type)
     \<and> take (length (order_memory st type)) (co_vals cl type) = order_memory st type"

definition follows :: "xrdp_orders_state \<Rightarrow> client_orders \<Rightarrow> bool" where
  "follows st cl \<longleftrightarrow> co_type cl = last_order st \<and> co_clip cl = client_clip (clip st) \<and> pattern8 st \<and> list_all (same_values st cl) order_types"

lemma dr_type_order: "dr_type d \<in> set order_types"
  by (cases d) (simp_all add: order_types_def)

lemma order_memory_fields:
  "order_memory st (dr_type d) = map fd_old (take (length (order_memory st (dr_type d))) (dr_fields d st))"
  "f \<in> set (drop (length (order_memory st (dr_type d))) (dr_fields d st)) \<Longrightarrow> fd_kind f = Text"
  by (cases d; simp add: order_memory_def dr_field_defs Let_def edges_def)+

lemma follows_remembers:
  assumes "follows st cl"
  shows "list_all2 (\<lambda>f old. fd_kind f \<noteq> Text \<longrightarrow> old = fd_old f) (dr_fields d st) (co_vals cl (dr_type d))"
proof -
  let ?fs = "dr_fields d st" and ?xs = "co_vals cl (dr_type d)" and ?n = "length (order_memory st (dr_type d))"
  have "same_values st cl (dr_type d)" using assms dr_type_order by (auto simp: follows_def list_all_iff)
  then have len: "length ?xs = length ?fs" and old: "take ?n ?xs = map fd_old (take ?n ?fs)"
    using order_memory_fields(1) [of st d] by (simp_all add: same_values_def dr_fields_kinds [of d st])
  have "?xs ! i = fd_old (?fs ! i)" if i: "i < length ?fs" "fd_kind (?fs ! i) \<noteq> Text" for i
  proof -
    have "i < ?n"
    proof (rule ccontr)
      assume "\<not> i < ?n"
      with i(1) nth_mem [of "i - ?n" "drop ?n ?fs"] have "?fs ! i \<in> set (drop ?n ?fs)" by simp
      with order_memory_fields(2) i(2) show False by blast
    qed
    with arg_cong [OF old, of "\<lambda>l. l ! i"] i(1) show ?thesis by simp
  qed
  with len show ?thesis by (simp add: list_all2_conv_all_nth)
qed

definition paint :: "int \<Rightarrow> int \<Rightarrow> int \<Rightarrow> int \<Rightarrow> int" where
  "paint m k color c = (if color AND m \<noteq> c AND m then (c AND k) OR (color AND m) else c)"

lemma paint_and:
  "k AND m = 0 \<Longrightarrow> paint m k color c AND m = color AND m" "k AND m' = m' \<Longrightarrow> m AND m' = 0 \<Longrightarrow> paint m k color c AND m' = c AND m'"
  by (simp_all add: paint_def bit.conj_disj_distrib2 and.assoc)

lemma set_rect_color_paint: "set_rect_color color c = paint 0xff0000 0x00ffff color (paint 0xff00 0xff00ff color (paint 0xff 0xffff00 color c))"
  by (simp only: set_rect_color_def Let_def paint_def)

lemma set_rect_color_masks: "set_rect_color color c AND 0xff = color AND 0xff" "set_rect_color color c AND 0xff00 = color AND 0xff00"
  "set_rect_color color c AND 0xff0000 = color AND 0xff0000"
  unfolding set_rect_color_paint by (simp_all add: paint_and)

lemma color_byte_masks: "color_byte 0 v = v AND 0xff" "color_byte 1 v = drop_bit 8 (v AND 0xff00)" "color_byte 2 v = drop_bit 16 (v AND 0xff0000)"
  by (simp_all add: color_byte_def drop_bit_and)

lemma set_rect_color_bytes:
  "color_byte 0 (set_rect_color color c) = color_byte 0 color" "color_byte 1 (set_rect_color color c) = color_byte 1 color"
  "color_byte 2 (set_rect_color color c) = color_byte 2 color"
  unfolding color_byte_masks set_rect_color_masks by (rule refl)+

lemma order_memory_after:
  "order_memory (dr_after d st st') type =
    (if type = dr_type d then take (length (order_memory st type)) (dr_vals d) else order_memory st' type)"
  by (cases d) (auto simp: order_memory_def Let_def edges_def set_rect_color_bytes [simplified])

lemma order_memory_head [simp]:
  "order_memory (st\<lparr>last_order := t, clip := c\<rparr>) type = order_memory st type" "pattern8 (st\<lparr>last_order := t, clip := c\<rparr>) = pattern8 st"
  by (simp_all add: order_memory_def)

lemma dr_after_head: "last_order (dr_after d st st') = last_order st'" "clip (dr_after d st st') = clip st'"
  "dr_ok d \<Longrightarrow> pattern8 st' \<Longrightarrow> pattern8 (dr_after d st st')"
  by (cases d; simp add: brush_ok_def)+

text \<open>The state of the server after an order, its bytes, and what a client shows.\<close>

definition dr_clip :: "draw \<Rightarrow> xrdp_rect option \<Rightarrow> xrdp_rect option" where
  "dr_clip d rect = order_clip (dr_needed d rect) rect"

definition drawn :: "xrdp_orders_state \<Rightarrow> draw \<Rightarrow> xrdp_rect option \<Rightarrow> xrdp_orders_state" where
  "drawn st d rect = dr_after d st (st\<lparr>last_order := dr_type d, clip := clip_after st (dr_clip d rect)\<rparr>)"

definition dr_bytes :: "xrdp_orders_state \<Rightarrow> draw \<Rightarrow> xrdp_rect option \<Rightarrow> byte list" where
  "dr_bytes st d rect = order_bytes st (dr_type d) (order_size (dr_type d)) (dr_needed d rect) rect (dr_delta d st) (dr_fields d st)"

definition shown :: "draw \<Rightarrow> xrdp_rect option \<Rightarrow> drawing" where
  "shown d rect = (dr_type d, map_option client_clip (dr_clip d rect), dr_vals d)"

definition call_ok :: "draw \<Rightarrow> xrdp_rect option \<Rightarrow> bool" where
  "call_ok d rect \<longleftrightarrow> dr_ok d \<and> pred_option clip_ok rect"

lemma client_reads:
  assumes "follows st cl" "call_ok d rect"
  obtains cl' where "\<And>rest. client_order cl (dr_bytes st d rect @ rest) = (shown d rect, cl', rest)" "follows (drawn st d rect) cl'"
proof -
  let ?cl = "\<lparr>co_type = dr_type d, co_clip = client_clip (clip_after st (dr_clip d rect)), co_vals = (co_vals cl)(dr_type d := dr_vals d)\<rparr>"
  have ok: "co_type cl = last_order st" "co_clip cl = client_clip (clip st)" "pattern8 st" "dr_ok d"
    and clip: "order_clip (dr_needed d rect) rect = Some r \<Longrightarrow> clip_ok r" for r
    using assms by (auto simp: follows_def call_ok_def order_clip_def split: if_splits)
  have "client_order cl (dr_bytes st d rect @ rest) = (shown d rect, ?cl, rest)" for rest
    unfolding dr_bytes_def shown_def dr_clip_def dr_fields_vals [of d st, symmetric]
    by (rule read_order_back [OF ok(1,2) dr_fields_kinds refl dr_type_range(4,1,2) dr_fields_ok [OF ok(4,3)] follows_remembers [OF assms(1)] dr_fields_bits clip])
  moreover have "same_values (drawn st d rect) ?cl type" if "type \<in> set order_types" for type
  proof -
    have "same_values st cl type" using assms(1) that by (auto simp: follows_def list_all_iff)
    moreover have "length (dr_vals d) = length (order_kinds (dr_type d))"
      unfolding dr_fields_vals [of d st, symmetric] dr_fields_kinds [of d st] by simp
    moreover have "length (take (length (order_memory st (dr_type d))) (dr_vals d)) = length (order_memory st (dr_type d))"
      by (cases d) (simp_all add: order_memory_def Let_def edges_def)
    ultimately show ?thesis by (auto simp: same_values_def drawn_def order_memory_after)
  qed
  then have "follows (drawn st d rect) ?cl"
    using ok(3,4) by (auto simp: follows_def list_all_iff drawn_def dr_after_head)
  ultimately show thesis by (rule that)
qed

subsection \<open>Orders one after the other\<close>

text \<open>The sizes announced to \<open>xrdp_orders_check\<close> are enough.\<close>

definition field_max :: "order_field \<Rightarrow> nat" where
  "field_max f = (case fd_kind f of Coord \<Rightarrow> 2 | U8s \<Rightarrow> length (fd_val f) | U16 \<Rightarrow> 2 | U24 \<Rightarrow> 3 | U32s \<Rightarrow> 4 * length (fd_val f) | Text \<Rightarrow> 1 + length (fd_val f))"

lemma fields_bytes_le: "length (fields_bytes delta fs) \<le> sum_list (map field_max fs)"
proof (induction fs)
  case (Cons f fs)
  have "length (value_bytes delta f) \<le> field_max f"
    by (cases "fd_kind f") (simp_all add: value_bytes_def field_max_def Let_def)
  with Cons show ?case by (auto simp: fields_bytes_def)
qed (simp add: fields_bytes_def)

lemma dr_fields_room: "dr_ok d \<Longrightarrow> int (length (fields_bytes delta (dr_fields d st))) + 11 + int (order_size (dr_type d)) \<le> dr_size d"
proof -
  assume "dr_ok d"
  then have "int (sum_list (map field_max (dr_fields d st))) + 11 + int (order_size (dr_type d)) \<le> dr_size d"
    by (cases d) (simp_all add: dr_field_defs field_max_def order_size_def brush_ok_def)
  with fields_bytes_le [of delta "dr_fields d st"] show ?thesis by linarith
qed

lemma dr_needed_rect: "dr_needed d rect \<longrightarrow> rect \<noteq> None"
  by (cases d; cases rect) (simp_all add: clip_needed_def line_clip_needed_def text_clip_needed_def)

lemma dr_bytes_le: "dr_ok d \<Longrightarrow> int (length (dr_bytes st d rect)) \<le> dr_size d"
proof -
  assume "dr_ok d"
  let ?n = "order_size (dr_type d)" and ?p = "present_of (dr_fields d st) 0"
  have "length (clip_bytes st (order_clip (dr_needed d rect) rect)) \<le> 9" using bounds_bytes_le by (auto simp: clip_bytes_def split: option.split)
  moreover have "length (take (?n - move_up_count ?p ?n) (present_bytes ?p ?n)) \<le> ?n" by (simp add: present_bytes_def)
  ultimately show ?thesis using dr_fields_room [OF \<open>dr_ok d\<close>, of "dr_delta d st" st] unfolding dr_bytes_def order_bytes_def Let_def by auto
qed

text \<open>An update is being collected: the pointers stand in the stream, which has room for an update of the greatest size.\<close>

definition collecting :: "'k xrdp_orders \<Rightarrow> bool" where
  "collecting self \<longleftrightarrow> 0 < order_level self \<and> 0 \<le> order_count_ptr self \<and> order_count_ptr self \<le> s_p (out_s self)
     \<and> order_count_ptr self + MAX_ORDERS_SIZE (ord_rdp self) \<le> s_size (out_s self)"

definition used :: "'k xrdp_orders \<Rightarrow> int" where
  "used self = s_p (out_s self) - order_count_ptr self"

lemma draw_order_laid:
  assumes "collecting self" "used self + dr_size d + 100 \<le> MAX_ORDERS_SIZE (ord_rdp self)" "dr_ok d"
  shows "wp (draw_order env self d rect) (\<lambda>(r, self'). r = 0 \<and> (\<exists>s'. laid (out_s self) (dr_bytes (orders_state self) d rect) s' \<and>
     self' = self\<lparr>order_count := order_count self + 1, out_s := s', orders_state := drawn (orders_state self) d rect\<rparr>))"
proof -
  have "xrdp_orders_check env self (dr_size d) = Some (0, self)"
    using assms(1,2) by (simp add: xrdp_orders_check_def Let_def collecting_def used_def)
  moreover have "room (out_s self) (12 + int (order_size (dr_type d)) + int (length (fields_bytes (dr_delta d (orders_state self)) (dr_fields d (orders_state self)))))"
    using assms(1,2) dr_fields_room [OF assms(3), of "dr_delta d (orders_state self)" "orders_state self"] by (simp add: room_def collecting_def used_def)
  note out_order_laid [OF this dr_type_range(3) [of d] dr_needed_rect [of d rect], where type = "dr_type d" and upd = "dr_after d (orders_state self)"]
  ultimately show ?thesis unfolding draw_order_run by (auto elim!: wp_mono simp: drawn_def dr_clip_def dr_bytes_def)
qed

primrec draws :: "('k, 'w) rdp_env \<Rightarrow> 'k xrdp_orders \<Rightarrow> (draw \<times> xrdp_rect option) list \<Rightarrow> (int \<times> 'k xrdp_orders) option" where
  "draws env self [] = Some (0, self)"
| "draws env self (x # xs) = do { (r, self) \<leftarrow> draw_order env self (fst x) (snd x); if r \<noteq> 0 then Some (r, self) else draws env self xs }"

primrec client_run :: "nat \<Rightarrow> client_orders \<Rightarrow> byte list \<Rightarrow> drawing list \<times> client_orders \<times> byte list" where
  "client_run 0 cl bs = ([], cl, bs)"
| "client_run (Suc n) cl bs = (case client_order cl bs of (x, cl, bs) \<Rightarrow> case client_run n cl bs of (xs, y) \<Rightarrow> (x # xs, y))"

definition total_size :: "(draw \<times> xrdp_rect option) list \<Rightarrow> int" where
  "total_size xs = sum_list (map (\<lambda>x. dr_size (fst x)) xs)"

lemma dr_size_pos: "0 \<le> dr_size d"
  by (cases d) simp_all

lemma total_size_pos: "0 \<le> total_size xs"
  unfolding total_size_def by (rule sum_list_nonneg) (auto simp: dr_size_pos)

lemma collecting_drawn:
  assumes "collecting self" "laid (out_s self) bs s'" "self' = self\<lparr>order_count := n, out_s := s', orders_state := st\<rparr>"
  shows "collecting self'" "used self' = used self + int (length bs)"
  using assms by (auto simp: collecting_def used_def laid_def)

lemma draws_laid:
  assumes "collecting self" "used self + total_size xs + 100 \<le> MAX_ORDERS_SIZE (ord_rdp self)"
    and "list_all (\<lambda>(d, rect). call_ok d rect) xs" "follows (orders_state self) cl"
  shows "wp (draws env self xs) (\<lambda>(r, self'). r = 0 \<and> (\<exists>bs s' st'. laid (out_s self) bs s' \<and> int (length bs) \<le> total_size xs \<and>
     self' = self\<lparr>order_count := order_count self + int (length xs), out_s := s', orders_state := st'\<rparr> \<and>
     (\<exists>cl'. follows st' cl' \<and> (\<forall>rest. client_run (length xs) cl (bs @ rest) = (map (\<lambda>(d, rect). shown d rect) xs, cl', rest)))))"
  using assms
proof (induction xs arbitrary: self cl)
  case Nil
  then show ?case using laid_Nil [of "out_s self"] by (auto simp: total_size_def intro!: exI [of _ "[]"] exI [of _ cl] exI [of _ "out_s self"] exI [of _ "orders_state self"])
next
  case (Cons x xs)
  obtain d rect where x: "x = (d, rect)" by (cases x)
  let ?st = "orders_state self" let ?bs = "dr_bytes ?st d rect"
  have ok: "dr_ok d" "call_ok d rect" "used self + dr_size d + 100 \<le> MAX_ORDERS_SIZE (ord_rdp self)"
    using Cons.prems(2,3) total_size_pos [of xs] by (auto simp: x call_ok_def total_size_def)
  obtain s1 self1 where run: "draw_order env self d rect = Some (0, self1)" and s1: "laid (out_s self) ?bs s1"
    and self1: "self1 = self\<lparr>order_count := order_count self + 1, out_s := s1, orders_state := drawn ?st d rect\<rparr>"
    using draw_order_laid [OF Cons.prems(1) ok(3,1), of env rect] by (auto simp: wp_exists)
  obtain cl1 where read: "\<And>rest. client_order cl (?bs @ rest) = (shown d rect, cl1, rest)" and cl1: "follows (drawn ?st d rect) cl1"
    using client_reads [OF Cons.prems(4) ok(2)] by blast
  have "wp (draws env self1 xs) (\<lambda>(r, self'). r = 0 \<and> (\<exists>bs s' st'. laid (out_s self1) bs s' \<and> int (length bs) \<le> total_size xs \<and>
     self' = self1\<lparr>order_count := order_count self1 + int (length xs), out_s := s', orders_state := st'\<rparr> \<and>
     (\<exists>cl'. follows st' cl' \<and> (\<forall>rest. client_run (length xs) cl1 (bs @ rest) = (map (\<lambda>(d, rect). shown d rect) xs, cl', rest)))))"
  proof (rule Cons.IH)
    show "collecting self1" by (rule collecting_drawn [OF Cons.prems(1) s1 self1])
    show "used self1 + total_size xs + 100 \<le> MAX_ORDERS_SIZE (ord_rdp self1)"
      using Cons.prems(2) collecting_drawn(2) [OF Cons.prems(1) s1 self1] dr_bytes_le [OF ok(1), of ?st rect] by (simp add: self1 x total_size_def)
  qed (use Cons.prems(3) cl1 in \<open>simp_all add: self1\<close>)
  then obtain bs s' st' cl' where rest: "draws env self1 xs = Some (0, self1\<lparr>order_count := order_count self1 + int (length xs), out_s := s', orders_state := st'\<rparr>)"
    "laid s1 bs s'" "int (length bs) \<le> total_size xs" "follows st' cl'"
    "\<And>rest. client_run (length xs) cl1 (bs @ rest) = (map (\<lambda>(d, rect). shown d rect) xs, cl', rest)"
    by (auto simp: wp_exists self1)
  have "laid (out_s self) (?bs @ bs) s'" by (rule laid_append [OF s1 rest(2)])
  moreover have "int (length (?bs @ bs)) \<le> total_size (x # xs)" using rest(3) dr_bytes_le [OF ok(1), of ?st rect] by (simp add: x total_size_def)
  moreover have "client_run (length (x # xs)) cl ((?bs @ bs) @ r) = (map (\<lambda>(d, rect). shown d rect) (x # xs), cl', r)" for r
    using read [of "bs @ r"] rest(5) [of r] by (simp add: x)
  moreover have "draws env self (x # xs) = Some (0, self\<lparr>order_count := order_count self + int (length (x # xs)), out_s := s', orders_state := st'\<rparr>)"
    using run rest(1) by (simp add: x self1 add.assoc)
  ultimately show ?case using rest(4) unfolding wp_exists by blast
qed

subsection \<open>A whole update\<close>

text \<open>The update of the client: the count, and as many orders.\<close>

definition client_update :: "client_orders \<Rightarrow> byte list \<Rightarrow> drawing list \<times> client_orders \<times> byte list" where
  "client_update cl u = client_run (nat (le_val (take 2 u))) cl (drop 2 u)"

text \<open>What the callers of the orders do (\<open>libxrdp_orders_init\<close>, the drawing calls, \<open>libxrdp_orders_send\<close>).\<close>

definition paint_update :: "('k, 'w) rdp_env \<Rightarrow> 'k xrdp_orders \<Rightarrow> (draw \<times> xrdp_rect option) list \<Rightarrow> (int \<times> 'k xrdp_orders) option" where
  "paint_update env self xs = do {
     (_, self) \<leftarrow> xrdp_orders_init self;
     (r, self) \<leftarrow> draws env self xs;
     if r \<noteq> 0 then Some (r, self) else xrdp_orders_send env self }"

lemma write_bytes_same: "bytes_at m i bs \<Longrightarrow> write_bytes m i bs = m"
  by (induction bs arbitrary: i) (simp_all add: fun_upd_idem)

lemma init_fastpath_sel:
  "0 < s_p (xrdp_rdp_init_fastpath rdp s)" "s_p (xrdp_rdp_init_fastpath rdp s) \<le> 19"
  "s_size (xrdp_rdp_init_fastpath rdp s) = max (s_size s) (max (32 * 1024) (max_frag_bytes rdp))"
  by (auto simp: xrdp_rdp_init_fastpath_def xrdp_sec_init_fastpath_def xrdp_fastpath_init_def init_stream_def s_push_layer_def Let_def max_def)

lemma init_fastpath_again:
  assumes "s = (xrdp_rdp_init_fastpath rdp s0)\<lparr>s_data := m, s_p := p, s_end := p\<rparr>" "p = s_p (xrdp_rdp_init_fastpath rdp s0) + int (length u)"
    and "bytes_at m (s_p (xrdp_rdp_init_fastpath rdp s0)) u"
  shows "s = s_mark_end (emit (xrdp_rdp_init_fastpath rdp s) u)"
proof -
  have "xrdp_rdp_init_fastpath rdp s = (xrdp_rdp_init_fastpath rdp s0)\<lparr>s_data := m\<rparr>"
    unfolding assms(1) by (simp add: xrdp_rdp_init_fastpath_def xrdp_sec_init_fastpath_def xrdp_fastpath_init_def init_stream_def s_push_layer_def Let_def)
  then show ?thesis using assms by (simp add: s_mark_end_def emit_def write_bytes_same)
qed

lemma orders_init_fastpath:
  assumes "order_level self = 0" "use_fast_path (ord_rdp self) AND 1 \<noteq> 0" "s = xrdp_rdp_init_fastpath (ord_rdp self) (out_s self)"
  shows "xrdp_orders_init self = Some (0, self\<lparr>order_level := 1, order_count := 0, out_s := emit s [0, 0], order_count_ptr := s_p s\<rparr>)"
  using assms(1,2) init_fastpath_sel [of "ord_rdp self" "out_s self"]
  by (simp add: xrdp_orders_init_def Let_def out_uint8s_emit room_def assms(3) numeral_2_eq_2)

lemma count_patched:
  assumes "laid (emit s [0, 0]) bs s'" "0 \<le> s_p s" "s_p s + 2 \<le> s_size s"
  obtains m where "(do { t \<leftarrow> wr8 (s_mark_end s') (s_p s) n; wr8 t (s_p s + 1) (n div 256) })
      = Some (s\<lparr>s_data := m, s_p := s_p s + int (length (enc16_le n @ bs)), s_end := s_p s + int (length (enc16_le n @ bs))\<rparr>)"
    "bytes_at m (s_p s) (enc16_le n @ bs)"
proof -
  obtain m where m: "s' = (emit s [0, 0])\<lparr>s_data := m, s_p := s_p s + 2 + int (length bs)\<rparr>" "bytes_at m (s_p s + 2) bs"
    using assms(1) by (auto simp: laid_def)
  let ?m = "m(s_p s := Some (word_of_int n), s_p s + 1 := Some (word_of_int (n div 256)))"
  have "bytes_at ?m (s_p s + 2) bs" using m(2) by (rule bytes_at_cong) simp
  then have "bytes_at ?m (s_p s) (enc16_le n @ bs)" by (simp add: enc16_le_def add.commute)
  then show thesis by (rule that [rotated]) (use assms m(1) in \<open>simp add: wr8_def s_mark_end_def emit_def\<close>)
qed

lemma client_update_run:
  assumes "\<And>rest. client_run n cl (bs @ rest) = (xs, cl', rest)" "n < 65536"
  shows "client_update cl (enc16_le (int n) @ bs) = (xs, cl', [])"
  using assms(1) [of "[]"] assms(2) by (simp add: client_update_def le_val_enc)

lemma send_update_fastpath:
  assumes "crypto_ok (env_crypto env) dual" and "quiet_fp (env_fp_callback env)" and "writer_ok (rdp_trans (ord_rdp self))"
    and "cmp = (if rdp_compression (ord_rdp self) \<noteq> 0 then 2 else 0)" and "bulk_synced (ord_rdp self) cmp h"
    and "use_fast_path (ord_rdp self) AND 1 \<noteq> 0" "s = xrdp_rdp_init_fastpath (ord_rdp self) s0" "order_count_ptr self = s_p s"
    and "laid (emit s [0, 0]) bs (out_s self)" "int (length bs) + 2 \<le> MAX_ORDERS_SIZE (ord_rdp self)" "u = enc16_le (order_count self) @ bs"
  shows "wp (send_update env self) (\<lambda>(r, self'). (r = 0 \<or> r = 1) \<and> (\<exists>s' rdp'. self' = self\<lparr>out_s := s', ord_rdp := rdp'\<rparr>) \<and> (r = 0 \<longrightarrow>
     (\<exists>pdus pieces h'. update_sent env (ord_rdp self) pdus (ord_rdp self') \<and> through client_pdu h pdus = (pieces, h')
        \<and> bulk_synced (ord_rdp self') cmp h' \<and> pieces_of FASTPATH_UPDATETYPE_ORDERS u pieces)))"
proof -
  have "0 \<le> s_p s" "s_p s + 2 \<le> s_size s" using init_fastpath_sel [of "ord_rdp self" s0, folded assms(7)] by simp_all
  from count_patched [OF assms(9) this, of "order_count self", folded assms(11)] obtain m where
    w: "(do { t \<leftarrow> wr8 (s_mark_end (out_s self)) (s_p s) (order_count self); wr8 t (s_p s + 1) (order_count self div 256) })
      = Some (s\<lparr>s_data := m, s_p := s_p s + int (length u), s_end := s_p s + int (length u)\<rparr>)" and m: "bytes_at m (s_p s) u" .
  define t where "t = s\<lparr>s_data := m, s_p := s_p s + int (length u), s_end := s_p s + int (length u)\<rparr>"
  from w [folded t_def] obtain t1 where t1: "wr8 (s_mark_end (out_s self)) (s_p s) (order_count self) = Some t1" "wr8 t1 (s_p s + 1) (order_count self div 256) = Some t"
    by (auto simp: bind_eq_Some_conv)
  have t: "t = s_mark_end (emit (xrdp_rdp_init_fastpath (ord_rdp self) t) u)"
    by (rule init_fastpath_again [OF t_def [unfolded assms(7)] refl m [unfolded assms(7)]])
  have len: "int (length u) + 26 \<le> max (32 * 1024) (max_frag_bytes (ord_rdp self))"
    using assms(10,11) by (simp add: MAX_ORDERS_SIZE_def)
  have run: "send_update env self = do {
      (r, rdp) \<leftarrow> xrdp_rdp_send_fastpath env (ord_rdp self) t FASTPATH_UPDATETYPE_ORDERS; Some (r, self\<lparr>out_s := t, ord_rdp := rdp\<rparr>) }"
    using t1 assms(6) by (simp add: send_update_def assms(8) Let_def)
  show ?thesis unfolding run wp_bind using send_fastpath_pieces [OF assms(1-3) len assms(4,5) t, of FASTPATH_UPDATETYPE_ORDERS]
    by (rule wp_mono) (auto; blast)
qed

text \<open>C16. Drawing reaches the client: a list of drawing calls between \<open>xrdp_orders_init\<close> and \<open>xrdp_orders_send\<close> that together fit one
  update is collected without writing outside the stream and leaves as one update on the fast path, and when that succeeds, a client that
  remembers what the server remembers gets back, from the pieces of that update, exactly the calls: for each its kind, the clip
  when it matters, and every value, although only changes and small differences were written. Afterwards the client follows again.\<close>

theorem drawing_reaches_client:
  assumes "crypto_ok (env_crypto env) dual" and "quiet_fp (env_fp_callback env)" and "writer_ok (rdp_trans (ord_rdp self))"
    and "cmp = (if rdp_compression (ord_rdp self) \<noteq> 0 then 2 else 0)" and "bulk_synced (ord_rdp self) cmp h"
    and "use_fast_path (ord_rdp self) AND 1 \<noteq> 0" and "order_level self = 0" and "follows (orders_state self) cl"
    and "list_all (\<lambda>(d, rect). call_ok d rect) xs" and "xs \<noteq> []" and "length xs < 65536" and "total_size xs + 102 \<le> MAX_ORDERS_SIZE (ord_rdp self)"
  shows "wp (paint_update env self xs) (\<lambda>(r, self'). (r = 0 \<or> r = 1) \<and> order_level self' = 0 \<and> order_count self' = 0 \<and> (r = 0 \<longrightarrow>
     (\<exists>pdus pieces h' u cl'. update_sent env (ord_rdp self) pdus (ord_rdp self') \<and> through client_pdu h pdus = (pieces, h')
        \<and> bulk_synced (ord_rdp self') cmp h' \<and> pieces_of FASTPATH_UPDATETYPE_ORDERS u pieces
        \<and> client_update cl u = (map (\<lambda>(d, rect). shown d rect) xs, cl', []) \<and> follows (orders_state self') cl')))"
proof -
  define s where "s = xrdp_rdp_init_fastpath (ord_rdp self) (out_s self)"
  note sel = init_fastpath_sel [of "ord_rdp self" "out_s self", folded s_def]
  define self1 where "self1 = self\<lparr>order_level := 1, order_count := 0, out_s := emit s [0, 0], order_count_ptr := s_p s\<rparr>"
  have init: "xrdp_orders_init self = Some (0, self1)" unfolding self1_def by (rule orders_init_fastpath [OF assms(7,6) s_def])
  have one: "collecting self1" "used self1 + total_size xs + 100 \<le> MAX_ORDERS_SIZE (ord_rdp self1)"
    using sel assms(12) by (auto simp: collecting_def used_def self1_def MAX_ORDERS_SIZE_def)
  have same: "follows (orders_state self1) cl" using assms(8) by (simp add: self1_def)
  from draws_laid [OF one assms(9) same, of env] obtain bs s' st' cl' where
    run: "draws env self1 xs = Some (0, self1\<lparr>order_count := int (length xs), out_s := s', orders_state := st'\<rparr>)" (is "_ = Some (0, ?self)")
    and bs: "laid (emit s [0, 0]) bs s'" "int (length bs) \<le> total_size xs" and cl': "follows st' cl'"
    and read: "\<And>rest. client_run (length xs) cl (bs @ rest) = (map (\<lambda>(d, rect). shown d rect) xs, cl', rest)"
    by (auto simp: wp_exists self1_def)
  let ?self' = "?self\<lparr>order_level := 0\<rparr>"
  have "wp (send_update env ?self') (\<lambda>(r, self'). (r = 0 \<or> r = 1) \<and> (\<exists>s' rdp'. self' = ?self'\<lparr>out_s := s', ord_rdp := rdp'\<rparr>) \<and> (r = 0 \<longrightarrow>
     (\<exists>pdus pieces h'. update_sent env (ord_rdp ?self') pdus (ord_rdp self') \<and> through client_pdu h pdus = (pieces, h')
        \<and> bulk_synced (ord_rdp self') cmp h' \<and> pieces_of FASTPATH_UPDATETYPE_ORDERS (enc16_le (int (length xs)) @ bs) pieces)))"
    by (rule send_update_fastpath [OF assms(1,2), of _ _ _ s "out_s self"])
      (use assms(3-6,12) bs in \<open>simp_all add: self1_def s_def\<close>)
  moreover have "paint_update env self xs = do {
      (r, self) \<leftarrow> send_update env ?self'; Some (if r \<noteq> 0 then 1 else 0, self\<lparr>order_count := 0\<rparr>) }"
    using assms(10) by (simp add: paint_update_def init run xrdp_orders_send_def Let_def) (simp add: self1_def)
  ultimately show ?thesis using client_update_run [OF read assms(11)] cl'
    by (auto simp: wp_bind self1_def elim!: wp_mono) blast
qed

text \<open>The memory of a client that has not seen any order, and a few orders on a link.\<close>

definition fresh_client :: client_orders where
  "fresh_client = \<lparr>co_type = 0, co_clip = (0, 0, 0, 0),
     co_vals = (\<lambda>t. order_memory fresh_orders_state t @ (if t = RDP_ORDER_TEXT2 then [[]] else []))\<rparr>"

lemma fresh_follows: "follows fresh_orders_state fresh_client"
  by (simp add: follows_def same_values_def fresh_client_def order_types_def order_memory_def order_kinds_def edges_def Let_def
      fresh_orders_state_def client_clip_def zero_rect_def blank_brush_def)

definition demo_orders :: "byte xrdp_orders" where
  "demo_orders = xrdp_orders_create (demo_rdp [Tx_Accept 40000])"

definition demo_calls :: "(draw \<times> xrdp_rect option) list" where
  "demo_calls = [(Rect 10 20 300 400 0x1234ff, Some \<lparr>rc_left = 0, rc_top = 0, rc_right = 200, rc_bottom = 200\<rparr>),
     (Rect 12 18 300 400 0x1234fe, None), (Draw_Line 1 0 0 (- 5) 90 13 0 None, None), (Draw_Text 1 2 0 0xffffff 0 zero_rect zero_rect 4 5 [72, 105], None)]"

theorem drawing_reaches_client_witness:
  "wp (paint_update demo_env demo_orders demo_calls) (\<lambda>(r, self'). r = 0 \<longrightarrow> (\<exists>pdus pieces h' u cl'. through client_pdu [] pdus = (pieces, h')
     \<and> pieces_of FASTPATH_UPDATETYPE_ORDERS u pieces \<and> client_update fresh_client u =
       ([(10, Some (0, 0, 199, 199), [[10], [20], [300], [400], [0xff], [0x34], [0x12]]), (10, None, [[12], [18], [300], [400], [0xfe], [0x34], [0x12]]),
         (9, None, [[1], [0], [0], [- 5], [90], [0], [13], [0], [0], [0]]),
         (27, None, [[1], [2], [0], [0xffffff], [0], [0], [0], [0], [0], [0], [0], [0], [0], [4], [5], [72, 105]])], cl', [])))"
proof -
  have ord: "ord_rdp demo_orders = demo_rdp [Tx_Accept 40000]" "order_level demo_orders = 0" "orders_state demo_orders = fresh_orders_state"
    by (simp_all add: demo_orders_def xrdp_orders_create_def)
  have calls: "list_all (\<lambda>(d, rect). call_ok d rect) demo_calls" "demo_calls \<noteq> []" "length demo_calls < 65536"
    "total_size demo_calls + 102 \<le> MAX_ORDERS_SIZE (demo_rdp [Tx_Accept 40000])"
    by (simp_all add: demo_calls_def call_ok_def range_defs clip_ok_def zero_rect_def the_pen_def blank_pen_def total_size_def MAX_ORDERS_SIZE_def)
  have shown: "map (\<lambda>(d, rect). shown d rect) demo_calls =
     [(10, Some (0, 0, 199, 199), [[10], [20], [300], [400], [0xff], [0x34], [0x12]]), (10, None, [[12], [18], [300], [400], [0xfe], [0x34], [0x12]]),
         (9, None, [[1], [0], [0], [- 5], [90], [0], [13], [0], [0], [0]]),
         (27, None, [[1], [2], [0], [0xffffff], [0], [0], [0], [0], [0], [0], [0], [0], [0], [4], [5], [72, 105]])]"
    by (simp add: demo_calls_def shown_def dr_clip_def order_clip_def clip_needed_def line_clip_needed_def text_clip_needed_def client_clip_def color_byte_def
        the_pen_def blank_pen_def line_mix_def line_rop2_def zero_rect_def)
  have rdp: "writer_ok (rdp_trans (ord_rdp demo_orders))" "2 = (if rdp_compression (ord_rdp demo_orders) \<noteq> 0 then 2 else (0 :: int))"
    "use_fast_path (ord_rdp demo_orders) AND 1 \<noteq> 0" "bulk_synced (ord_rdp demo_orders) 2 []" "crypto_ok (env_crypto demo_env) (=)"
    "follows (orders_state demo_orders) fresh_client" "quiet_fp (env_fp_callback demo_env)"
    using demo_synced fresh_follows demo_crypto_ok by (simp_all add: ord) (simp add: demo_rdp_def)
  from drawing_reaches_client [OF rdp(5,7,1,2,4,3) ord(2) rdp(6) calls(1-3)] calls(4) show ?thesis
    unfolding ord shown by (auto elim!: wp_mono)
qed

subsection \<open>The composite order\<close>

text \<open>
  Of the transformation of a composite order the server only ever remembers the first value. The other nine stay what they
  were at the start, zero, whatever is sent: a transformation whose other values are zero again is taken for the last one, and
  the client goes on with the one it was sent before.
\<close>

lemma orders_check_keeps: "xrdp_orders_check env self n = Some (r, self') \<Longrightarrow> orders_state self' = orders_state self"
  by (auto simp: xrdp_orders_check_def xrdp_orders_init_def xrdp_orders_force_send_def send_update_def Let_def bind_eq_Some_conv
      split: if_splits prod.splits)

lemma out_order_keeps:
  assumes "out_order self type n needed rect delta fs upd = Some (r, self')"
  obtains c where "orders_state self' = upd ((orders_state self)\<lparr>last_order := type, clip := c\<rparr>)"
proof -
  have sel: "orders_state (self\<lparr>order_count := x\<rparr>) = orders_state self" "out_s (self\<lparr>order_count := x\<rparr>) = out_s self" for x by simp_all
  define st where "st = (orders_state self)\<lparr>last_order := type\<rparr>"
  from assms obtain flags s0 st' s1 where
    mid: "(case rect of Some r \<Rightarrow> if flags AND TS_BOUNDS \<noteq> 0 \<and> flags AND TS_ZERO_BOUNDS_DELTAS = 0 then xrdp_orders_out_bounds st r s0 else Some (st, s0)
      | None \<Rightarrow> Some (st, s0)) = Some (st', s1)" and upd: "orders_state self' = upd st'"
    unfolding out_order_def Let_def st_def sel by (auto simp: bind_eq_Some_conv)
  have "\<exists>c. st' = st\<lparr>clip := c\<rparr>"
  proof (cases "st' = st")
    case False
    with mid show ?thesis by (auto simp: xrdp_orders_out_bounds_def Let_def bind_eq_Some_conv split: option.splits if_splits)
  qed (auto intro: exI [of _ "clip st"])
  with upd that show thesis by (auto simp: st_def)
qed

theorem composite_transform_forgotten:
  assumes "xrdp_orders_composite_blt env self v transform rect = Some (r, self')"
    and "drop 1 (com_srctransform (os_com (orders_state self))) = replicate 9 0"
  shows "drop 1 (com_srctransform (os_com (orders_state self'))) = replicate 9 0"
    and "\<not> field_changed (com_blt_fields (os_com (orders_state self')) w (Some (t # replicate 9 0)) ! 5)"
proof -
  show zero: "drop 1 (com_srctransform (os_com (orders_state self'))) = replicate 9 0"
    using assms by (auto simp: xrdp_orders_composite_blt_def bind_eq_Some_conv Let_def drop_update_swap
        dest: orders_check_keeps elim!: out_order_keeps split: if_splits)
  then show "\<not> field_changed (com_blt_fields (os_com (orders_state self')) w (Some (t # replicate 9 0)) ! 5)"
    by (simp add: com_blt_fields_def field_changed_def)
qed

end
