(* ===== verification/Scp_Net.thy ===== *)
theory Scp_Net
  imports Transport_Runs
begin

text \<open>
  The connection of the session control protocol, \<open>sesman/libscp/libscp_tcp.c\<close>,
  \<open>libscp_connection.c\<close> and the data types of \<open>libscp_types.h\<close>. As in the transport, the kernel's
  side of the socket is a pair of scripts; \<open>sc_wire\<close> is what the kernel has accepted. Both loops
  work on the beginning of a stream's block: \<open>scp_tcp_force_recv\<close> stores there without looking at
  the block's size, \<open>scp_tcp_force_send\<close> sends from there without looking at what was written.
  Storing outside the block and sending a byte that was never written are faults.
\<close>

datatype scp_client_state =
    SCP_CLIENT_STATE_OK | SCP_CLIENT_STATE_NETWORK_ERR | SCP_CLIENT_STATE_VERSION_ERR
  | SCP_CLIENT_STATE_SEQUENCE_ERR | SCP_CLIENT_STATE_SIZE_ERR | SCP_CLIENT_STATE_INTERNAL_ERR
  | SCP_CLIENT_STATE_SESSION_LIST | SCP_CLIENT_STATE_LIST_OK | SCP_CLIENT_STATE_RESEND_CREDENTIALS
  | SCP_CLIENT_STATE_CONNECTION_DENIED | SCP_CLIENT_STATE_PWD_CHANGE_REQ | SCP_CLIENT_STATE_RECONNECT_SINGLE
  | SCP_CLIENT_STATE_SELECTION_CANCEL | SCP_CLIENT_STATE_END

datatype scp_server_state =
    SCP_SERVER_STATE_OK | SCP_SERVER_STATE_VERSION_ERR | SCP_SERVER_STATE_NETWORK_ERR
  | SCP_SERVER_STATE_SEQUENCE_ERR | SCP_SERVER_STATE_INTERNAL_ERR | SCP_SERVER_STATE_SESSION_TYPE_ERR
  | SCP_SERVER_STATE_SIZE_ERR | SCP_SERVER_STATE_SELECTION_CANCEL | SCP_SERVER_STATE_START_MANAGE
  | SCP_SERVER_STATE_MNG_LISTREQ | SCP_SERVER_STATE_MNG_ACTION | SCP_SERVER_STATE_END

record scp_connection =
  sc_in_s :: stream
  sc_out_s :: stream
  sc_rx :: "rx_event list"
  sc_tx :: "tx_event list"
  sc_wire :: "byte list"

text \<open>\<open>sc_rx\<close> and \<open>sc_tx\<close> come with the socket.\<close>

definition scp_connection_create :: "rx_event list \<Rightarrow> tx_event list \<Rightarrow> scp_connection" where
  "scp_connection_create rx tx = \<lparr>sc_in_s = init_stream make_stream 8196, sc_out_s = init_stream make_stream 8196,
     sc_rx = rx, sc_tx = tx, sc_wire = []\<rparr>"

text \<open>The stream macros applied to the connection's streams.\<close>

definition sc_get :: "scp_connection \<Rightarrow> (stream \<Rightarrow> ('a \<times> stream) option) \<Rightarrow> ('a \<times> scp_connection) option" where
  "sc_get c f = do { (v, s) \<leftarrow> f (sc_in_s c); Some (v, c\<lparr>sc_in_s := s\<rparr>) }"

definition sc_put :: "scp_connection \<Rightarrow> (stream \<Rightarrow> stream option) \<Rightarrow> scp_connection option" where
  "sc_put c f = do { s \<leftarrow> f (sc_out_s c); Some (c\<lparr>sc_out_s := s\<rparr>) }"

text \<open>\<open>init_stream(c->in_s, c->in_s->size)\<close> and the same for \<open>out_s\<close>.\<close>

definition sc_init_in :: "scp_connection \<Rightarrow> scp_connection" where
  "sc_init_in c = c\<lparr>sc_in_s := init_stream (sc_in_s c) (s_size (sc_in_s c))\<rparr>"

definition sc_init_out :: "scp_connection \<Rightarrow> scp_connection" where
  "sc_init_out c = c\<lparr>sc_out_s := init_stream (sc_out_s c) (s_size (sc_out_s c))\<rparr>"

subsection \<open>Receiving\<close>

text \<open>\<open>i\<close> is the offset of \<open>data\<close> in the block. One turn of the loop meets one event of the script.\<close>

function scp_recv_loop :: "stream \<Rightarrow> int \<Rightarrow> int \<Rightarrow> rx_event list \<Rightarrow> (int \<times> stream \<times> rx_event list) option" where
  "scp_recv_loop s i len rx =
     (if len \<le> 0 then Some (0, s, rx)
      else (case rx of
          [] \<Rightarrow> Some (1, s, [])
        | Rx_Block # r \<Rightarrow> scp_recv_loop s i len r
        | Rx_Error # r \<Rightarrow> Some (1, s, r)
        | Rx_Bytes bs # r \<Rightarrow>
            let n = min (nat len) (length bs); r' = (if n < length bs then Rx_Bytes (drop n bs) # r else r) in
            if n = 0 then Some (1, s, r)
            else if 0 \<le> i \<and> i + int n \<le> s_size s
            then scp_recv_loop (s\<lparr>s_data := write_bytes (s_data s) i (take n bs)\<rparr>) (i + int n) (len - int n) r'
            else None))"
  by pat_completeness auto
termination
  by (relation "measure (\<lambda>(s, i, len, rx). length rx + nat len)") auto

declare scp_recv_loop.simps [simp del]

definition scp_tcp_force_recv :: "scp_connection \<Rightarrow> int \<Rightarrow> (int \<times> scp_connection) option" where
  "scp_tcp_force_recv c len = do {
     (r, s, rx) \<leftarrow> scp_recv_loop (sc_in_s c) 0 len (sc_rx c);
     Some (r, c\<lparr>sc_in_s := s, sc_rx := rx\<rparr>) }"

subsection \<open>Sending\<close>

fun scp_send_loop :: "byte list \<Rightarrow> tx_event list \<Rightarrow> byte list \<Rightarrow> int \<times> tx_event list \<times> byte list" where
  "scp_send_loop data tx wire =
     (if data = [] then (0, tx, wire)
      else (case tx of
          [] \<Rightarrow> (1, [], wire)
        | Tx_Block # r \<Rightarrow> scp_send_loop data r wire
        | Tx_Error # r \<Rightarrow> (1, r, wire)
        | Tx_Accept k # r \<Rightarrow>
            let n = min k (length data) in
            if n = 0 then (1, r, wire) else scp_send_loop (drop n data) r (wire @ take n data)))"

declare scp_send_loop.simps [simp del]

definition scp_tcp_force_send :: "scp_connection \<Rightarrow> int \<Rightarrow> (int \<times> scp_connection) option" where
  "scp_tcp_force_send c len =
     (if len \<le> 0 then Some (0, c)
      else if s_size (sc_out_s c) < len then None
      else do {
        data \<leftarrow> read_bytes (s_data (sc_out_s c)) 0 (nat len);
        let (r, tx, wire) = scp_send_loop data (sc_tx c) (sc_wire c);
        Some (r, c\<lparr>sc_tx := tx, sc_wire := wire\<rparr>) })"

subsection \<open>What the loops do\<close>

text \<open>What a run of the receiving loop may do: succeed exactly when the peer delivers enough
  bytes, and then with the first \<open>len\<close> of them in place and the rest left in the kernel.\<close>

definition received :: "stream \<Rightarrow> int \<Rightarrow> int \<Rightarrow> rx_event list \<Rightarrow> int \<times> stream \<times> rx_event list \<Rightarrow> bool" where
  "received s i len rx = (\<lambda>(r, s', rx').
     (\<exists>m. s' = s\<lparr>s_data := m\<rparr>)
     \<and> (if nat len \<le> length (rx_stream rx)
        then r = 0 \<and> s' = s\<lparr>s_data := write_bytes (s_data s) i (take (nat len) (rx_stream rx))\<rparr>
          \<and> rx_stream rx' = drop (nat len) (rx_stream rx)
        else r = 1))"

lemma stream_data_triv [simp]: "s\<lparr>s_data := s_data s\<rparr> = s"
  by simp

lemma rx_stream_rest:
  "n \<le> length bs \<Longrightarrow> bs \<noteq> [] \<Longrightarrow> rx_stream (if n < length bs then Rx_Bytes (drop n bs) # r else r) = drop n (bs @ rx_stream r)"
  by auto

lemma received_step:
  assumes rec: "received (s\<lparr>s_data := write_bytes (s_data s) i (take n bs)\<rparr>) (i + int n) (len - int n) r' x"
    and rest: "rx_stream r' = drop n (bs @ q)" and n: "n \<le> length bs" "int n \<le> len"
  shows "case x of (r, s', rx') \<Rightarrow> (\<exists>m. s' = s\<lparr>s_data := m\<rparr>)
     \<and> (if nat len \<le> length (bs @ q)
        then r = 0 \<and> s' = s\<lparr>s_data := write_bytes (s_data s) i (take (nat len) (bs @ q))\<rparr>
          \<and> rx_stream rx' = drop (nat len) (bs @ q)
        else r = 1)"
proof -
  obtain r s' rx' where x: "x = (r, s', rx')" by (cases x) auto
  define N where "N = nat len - n"
  have N: "nat len = n + N" "nat (len - int n) = N" using n by (simp_all add: N_def nat_diff_distrib)
  have split: "take (nat len) (bs @ q) = take n bs @ take N (drop n (bs @ q))"
    using n(1) take_add[of n N "bs @ q"] by (simp add: N)
  have len: "nat len \<le> length (bs @ q) \<longleftrightarrow> N \<le> length (rx_stream r')" using n(1) by (auto simp: N rest)
  have "\<exists>m. s' = s\<lparr>s_data := m\<rparr>" using rec by (auto simp: received_def x)
  moreover have "if N \<le> length (rx_stream r')
      then r = 0 \<and> s' = s\<lparr>s_data := write_bytes (write_bytes (s_data s) i (take n bs)) (i + int n) (take N (rx_stream r'))\<rparr>
        \<and> rx_stream rx' = drop N (rx_stream r')
      else r = 1"
    using rec by (simp add: received_def x N(2) split: if_splits)
  moreover have "drop (nat len) (bs @ q) = drop N (rx_stream r')" by (simp only: N(1) rest drop_drop add.commute)
  moreover have "length (take n bs) = n" using n(1) by simp
  ultimately show ?thesis unfolding x prod.case len split rest[symmetric] write_bytes_append by metis
qed

lemma scp_recv_loop_law:
  "0 \<le> i \<Longrightarrow> i + len \<le> s_size s \<Longrightarrow> wp (scp_recv_loop s i len rx) (received s i len rx)"
proof (induction s i len rx rule: scp_recv_loop.induct)
  case (1 s i len rx)
  have triv: "\<exists>m. s = s\<lparr>s_data := m\<rparr>" by (rule exI[of _ "s_data s"]) simp
  show ?case
  proof (cases "0 < len \<and> rx \<noteq> []")
    case False
    then show ?thesis using triv by (subst scp_recv_loop.simps) (auto simp: received_def)
  next
    case True
    then obtain e r where rx: "rx = e # r" and len: "0 < len" by (cases rx) auto
    show ?thesis
    proof (cases e)
      case (Rx_Bytes bs)
      define n where "n = min (nat len) (length bs)"
      define r' where "r' = (if n < length bs then Rx_Bytes (drop n bs) # r else r)"
      show ?thesis
      proof (cases "n = 0")
        case True
        then have "bs = []" using len by (auto simp: n_def min_def split: if_splits)
        then show ?thesis using triv len by (subst scp_recv_loop.simps) (simp add: rx Rx_Bytes received_def)
      next
        case False
        then have bs: "bs \<noteq> []" and n: "n \<le> length bs" "int n \<le> len" using len by (auto simp: n_def)
        define s1 where "s1 = s\<lparr>s_data := write_bytes (s_data s) i (take n bs)\<rparr>"
        have rest: "rx_stream r' = drop n (bs @ rx_stream r)" unfolding r'_def by (rule rx_stream_rest[OF n(1) bs])
        have step: "scp_recv_loop s i len rx = scp_recv_loop s1 (i + int n) (len - int n) r'"
          using False len n "1.prems" by (subst scp_recv_loop.simps) (simp add: rx Rx_Bytes Let_def n_def[symmetric] r'_def s1_def)
        have "wp (scp_recv_loop s1 (i + int n) (len - int n) r') (received s1 (i + int n) (len - int n) r')"
          using "1.IH"(1)[OF _ rx Rx_Bytes n_def r'_def False] False len n "1.prems" by (simp add: s1_def)
        then have "wp (scp_recv_loop s i len rx) (received s1 (i + int n) (len - int n) r')" by (simp add: step)
        moreover have "received s i len rx x" if "received s1 (i + int n) (len - int n) r' x" for x
        proof -
          have "rx_stream rx = bs @ rx_stream r" using bs by (simp add: rx Rx_Bytes)
          then show ?thesis using received_step[OF that[unfolded s1_def] rest n] unfolding received_def by (simp only:)
        qed
        ultimately show ?thesis by (rule wp_mono)
      qed
    next
      case Rx_Block
      have "received s i len rx = received s i len r" by (simp only: received_def rx Rx_Block rx_stream.simps)
      then show ?thesis using "1.IH"(2)[OF _ rx Rx_Block] len "1.prems"
        by (subst scp_recv_loop.simps) (simp add: rx Rx_Block)
    next
      case Rx_Error
      then show ?thesis using triv len by (subst scp_recv_loop.simps) (simp add: rx received_def)
    qed
  qed
qed

text \<open>The bytes a sending script takes in all.\<close>

fun tx_room :: "tx_event list \<Rightarrow> nat" where
  "tx_room [] = 0"
| "tx_room (Tx_Block # r) = tx_room r"
| "tx_room (Tx_Error # r) = 0"
| "tx_room (Tx_Accept k # r) = (if k = 0 then 0 else k + tx_room r)"

lemma scp_send_loop_law:
  "(case scp_send_loop data tx wire of (r, tx', wire') \<Rightarrow>
     (r = 0 \<and> wire' = wire @ data \<or> r = 1 \<and> (\<exists>n < length data. wire' = wire @ take n data))
     \<and> (length data \<le> tx_room tx \<longrightarrow> r = 0))"
proof (induction data tx wire rule: scp_send_loop.induct)
  case (1 data tx wire)
  show ?case
  proof (cases "data = [] \<or> tx = []")
    case True
    then show ?thesis by (subst scp_send_loop.simps) auto
  next
    case False
    then obtain e r where tx: "tx = e # r" and data: "data \<noteq> []" by (cases tx) auto
    show ?thesis
    proof (cases e)
      case (Tx_Accept k)
      define n where "n = min k (length data)"
      show ?thesis
      proof (cases "n = 0")
        case True
        then have "k = 0" using data by (auto simp: n_def min_def split: if_splits)
        then show ?thesis using data by (subst scp_send_loop.simps) (auto simp: tx Tx_Accept)
      next
        case F: False
        then have n: "0 < n" "n \<le> length data" "n \<le> k" by (auto simp: n_def)
        have step: "scp_send_loop data tx wire = scp_send_loop (drop n data) r (wire @ take n data)"
          using data F by (subst scp_send_loop.simps) (simp add: tx Tx_Accept Let_def n_def[symmetric])
        obtain rv tx' wire' where run: "scp_send_loop data tx wire = (rv, tx', wire')"
          by (cases "scp_send_loop data tx wire") auto
        have ih: "(rv = 0 \<and> wire' = wire @ data
            \<or> rv = 1 \<and> (\<exists>j < length data - n. wire' = (wire @ take n data) @ take j (drop n data)))
          \<and> (length data - n \<le> tx_room r \<longrightarrow> rv = 0)"
          using "1.IH"(1)[OF data tx Tx_Accept n_def F] run by (simp add: step[symmetric])
        have cut: "\<exists>m < length data. w = wire @ take m data"
          if "j < length data - n" "w = (wire @ take n data) @ take j (drop n data)" for j w
          using that n by (intro exI[of _ "n + j"]) (simp add: take_add)
        have "length data - n \<le> tx_room r" if "length data \<le> tx_room tx"
          using that n by (auto simp: tx Tx_Accept n_def min_def split: if_splits)
        then show ?thesis using ih cut unfolding run prod.case by blast
      qed
    next
      case Tx_Block
      then show ?thesis using "1.IH"(2)[OF data tx Tx_Block] data by (subst scp_send_loop.simps) (simp add: tx)
    next
      case Tx_Error
      then show ?thesis using data by (subst scp_send_loop.simps) (auto simp: tx)
    qed
  qed
qed

text \<open>The two calls on a connection. A message of \<open>len\<close> bytes that fits the block and that the
  peer delivers whole is stored at the beginning of the block; a longer one is stored past its end.\<close>

lemma scp_tcp_force_recv_law:
  assumes "len \<le> s_size (sc_in_s c)"
  shows "\<exists>s rx. scp_tcp_force_recv c len =
     Some (if nat len \<le> length (rx_stream (sc_rx c)) then 0 else 1, c\<lparr>sc_in_s := s, sc_rx := rx\<rparr>)
     \<and> received (sc_in_s c) 0 len (sc_rx c) (if nat len \<le> length (rx_stream (sc_rx c)) then 0 else 1, s, rx)"
proof -
  obtain x where "scp_recv_loop (sc_in_s c) 0 len (sc_rx c) = Some x" "received (sc_in_s c) 0 len (sc_rx c) x"
    using scp_recv_loop_law[of 0 len "sc_in_s c" "sc_rx c"] assms by (auto simp: wp_exists)
  then show ?thesis by (cases x) (auto simp: scp_tcp_force_recv_def received_def split: if_splits)
qed

lemma scp_tcp_force_recv_ok:
  assumes "len \<le> s_size (sc_in_s c)" and "rx_stream (sc_rx c) = bs @ q" and "int (length bs) = max 0 len"
  shows "\<exists>rx. scp_tcp_force_recv c len =
     Some (0, c\<lparr>sc_in_s := (sc_in_s c)\<lparr>s_data := write_bytes (s_data (sc_in_s c)) 0 bs\<rparr>, sc_rx := rx\<rparr>) \<and> rx_stream rx = q"
proof -
  have "length bs = nat len" using assms(3) by linarith
  then show ?thesis using scp_tcp_force_recv_law[OF assms(1)] by (auto simp: assms(2) received_def)
qed

lemma scp_tcp_force_recv_short:
  assumes "len \<le> s_size (sc_in_s c)" and "length (rx_stream (sc_rx c)) < nat len"
  shows "\<exists>s rx. scp_tcp_force_recv c len = Some (1, c\<lparr>sc_in_s := s, sc_rx := rx\<rparr>) \<and> s_size s = s_size (sc_in_s c)"
  using scp_tcp_force_recv_law[OF assms(1)] assms(2) by (fastforce simp: received_def)

lemma scp_tcp_force_send_law:
  assumes "bytes_at (s_data (sc_out_s c)) 0 bs" "int (length bs) \<le> s_size (sc_out_s c)"
  shows "\<exists>r tx n. scp_tcp_force_send c (int (length bs)) = Some (r, c\<lparr>sc_tx := tx, sc_wire := sc_wire c @ take n bs\<rparr>)
     \<and> (r = 0 \<and> n = length bs \<or> r = 1 \<and> n < length bs) \<and> (length bs \<le> tx_room (sc_tx c) \<longrightarrow> r = 0)"
proof (cases "bs = []")
  case True
  show ?thesis unfolding True
    by (intro exI[of _ 0] exI[of _ "sc_tx c"] exI[of _ 0]) (simp add: scp_tcp_force_send_def)
next
  case False
  obtain r tx wire where run: "scp_send_loop bs (sc_tx c) (sc_wire c) = (r, tx, wire)"
    by (cases "scp_send_loop bs (sc_tx c) (sc_wire c)") auto
  then have law: "(r = 0 \<and> wire = sc_wire c @ bs \<or> r = 1 \<and> (\<exists>n < length bs. wire = sc_wire c @ take n bs))
      \<and> (length bs \<le> tx_room (sc_tx c) \<longrightarrow> r = 0)"
    using scp_send_loop_law[where data = bs and tx = "sc_tx c" and wire = "sc_wire c"] by simp
  have "scp_tcp_force_send c (int (length bs)) = Some (r, c\<lparr>sc_tx := tx, sc_wire := wire\<rparr>)"
    using False assms by (simp add: scp_tcp_force_send_def read_bytes_at run)
  then show ?thesis using law by (auto intro!: exI[of _ r] exI[of _ tx])
qed

text \<open>A message longer than the block: the loop stores past the end as soon as the peer has sent
  more than fits. (The peer's side of the script is one segment here; any other cut does the same.)\<close>

lemma scp_recv_overflow:
  assumes "s_size s < len" "0 \<le> s_size s" "s_size s < int (length bs)"
  shows "scp_recv_loop s 0 len [Rx_Bytes bs] = None"
  using assms by (subst scp_recv_loop.simps) (auto simp: Let_def min_def)

text \<open>A message received into a rewound stream is what the next reads see.\<close>

lemma sc_recv_message:
  assumes "rx_stream (sc_rx c) = bs @ q" "s_p (sc_in_s c) = 0" "int (length bs) \<le> s_size (sc_in_s c)"
  shows "\<exists>m rx. scp_tcp_force_recv c (int (length bs)) = Some (0, c\<lparr>sc_in_s := (sc_in_s c)\<lparr>s_data := m\<rparr>, sc_rx := rx\<rparr>)
     \<and> rx_stream rx = q \<and> (\<forall>e. pending ((sc_in_s c)\<lparr>s_data := m, s_end := e\<rparr>) bs) \<and> pending ((sc_in_s c)\<lparr>s_data := m\<rparr>) bs"
proof -
  obtain rx where run: "scp_tcp_force_recv c (int (length bs)) =
      Some (0, c\<lparr>sc_in_s := (sc_in_s c)\<lparr>s_data := write_bytes (s_data (sc_in_s c)) 0 bs\<rparr>, sc_rx := rx\<rparr>)" "rx_stream rx = q"
    using scp_tcp_force_recv_ok[of "int (length bs)" c bs q] assms by auto
  show ?thesis
    by (rule exI[of _ "write_bytes (s_data (sc_in_s c)) 0 bs"], rule exI[of _ rx])
      (use assms run in \<open>simp add: pending_def bytes_at_write_bytes\<close>)
qed

text \<open>A message written from the beginning of the block is what the wire gets.\<close>

lemma sc_send_message:
  assumes "bytes_at (s_data (sc_out_s c)) 0 bs" "int (length bs) \<le> s_size (sc_out_s c)" "length bs \<le> tx_room (sc_tx c)"
  shows "\<exists>tx. scp_tcp_force_send c (int (length bs)) = Some (0, c\<lparr>sc_tx := tx, sc_wire := sc_wire c @ bs\<rparr>)"
  using scp_tcp_force_send_law[OF assms(1,2)] assms(3) by auto

text \<open>A body written behind a header of \<open>k\<close> bytes that is filled in last.\<close>

lemma bytes_at_header_last:
  "bytes_at (write_bytes (write_bytes m (int (length h)) b) 0 h) 0 (h @ b)"
  by (auto simp: bytes_at_append bytes_at_write_bytes write_bytes_above intro: bytes_at_cong[OF bytes_at_write_bytes])

lemma init_stream_same: "init_stream s (s_size s) = s\<lparr>s_p := 0, s_end := 0, next_packet := None\<rparr>"
  by (simp add: init_stream_def)

subsection \<open>Symbolic execution of a parser\<close>

text \<open>Each rule consumes the field at the read position and hands the rest of the message on.\<close>

definition sc_skip :: "scp_connection \<Rightarrow> int \<Rightarrow> scp_connection" where
  "sc_skip c n = c\<lparr>sc_in_s := in_uint8s (sc_in_s c) n\<rparr>"

lemma sc_skip_sel [simp]:
  "sc_in_s (sc_skip c n) = in_uint8s (sc_in_s c) n" "sc_out_s (sc_skip c n) = sc_out_s c" "sc_rx (sc_skip c n) = sc_rx c"
  "sc_tx (sc_skip c n) = sc_tx c" "sc_wire (sc_skip c n) = sc_wire c"
  by (simp_all add: sc_skip_def)

lemma sc_skip_skip [simp]: "sc_skip (sc_skip c a) b = sc_skip c (a + b)"
  by (simp add: sc_skip_def)

definition upcoming :: "scp_connection \<Rightarrow> byte list \<Rightarrow> bool" where
  "upcoming c bs \<longleftrightarrow> pending (sc_in_s c) bs"

lemma get8_bind:
  assumes "upcoming c (enc8 v @ q)" "0 \<le> v" "v < 256" "upcoming (sc_skip c 1) q \<Longrightarrow> wp (f (v, sc_skip c 1)) Q"
  shows "wp (Option.bind (sc_get c in_uint8) f) Q"
  using assms in_uint8_pending[of "sc_in_s c" v] by (simp add: upcoming_def pending_append sc_get_def sc_skip_def u8_id)

lemma get16_bind:
  assumes "upcoming c (enc16_be v @ q)" "0 \<le> v" "v < 65536" "upcoming (sc_skip c 2) q \<Longrightarrow> wp (f (v, sc_skip c 2)) Q"
  shows "wp (Option.bind (sc_get c in_uint16_be) f) Q"
  using assms in_uint16_be_pending[of "sc_in_s c" v] by (simp add: upcoming_def pending_append sc_get_def sc_skip_def u16_id)

lemma get32_bind:
  assumes "upcoming c (enc32_be v @ q)" "0 \<le> v" "v < 4294967296" "upcoming (sc_skip c 4) q \<Longrightarrow> wp (f (v, sc_skip c 4)) Q"
  shows "wp (Option.bind (sc_get c in_uint32_be) f) Q"
  using assms in_uint32_be_pending[of "sc_in_s c" v] by (simp add: upcoming_def pending_append sc_get_def sc_skip_def u32_id)

lemma get_bytes_bind:
  assumes "upcoming c (bs @ q)" "n = int (length bs)" "upcoming (sc_skip c n) q \<Longrightarrow> wp (f (bs, sc_skip c n)) Q"
  shows "wp (Option.bind (sc_get c (\<lambda>i. in_uint8a i n)) f) Q"
  using assms in_uint8a_pending[of "sc_in_s c" bs] by (simp add: upcoming_def pending_append sc_get_def sc_skip_def)

text \<open>Only the receiving side changed, and its block was not replaced.\<close>

definition only_read :: "scp_connection \<Rightarrow> scp_connection \<Rightarrow> bool" where
  "only_read c c' \<longleftrightarrow> sc_out_s c' = sc_out_s c \<and> sc_tx c' = sc_tx c \<and> sc_wire c' = sc_wire c
     \<and> s_size (sc_in_s c') = s_size (sc_in_s c)"

lemma only_read_refl [simp]: "only_read c c"
  by (simp add: only_read_def)

lemma only_read_trans: "only_read a b \<Longrightarrow> only_read b c \<Longrightarrow> only_read a c"
  by (auto simp: only_read_def)

lemma only_read_skip [simp]: "only_read a (sc_skip c n) \<longleftrightarrow> only_read a c" "only_read (sc_skip c n) b \<longleftrightarrow> only_read c b"
  by (simp_all add: only_read_def)

lemma sc_init_in_sel [simp]:
  "s_p (sc_in_s (sc_init_in c)) = 0" "s_size (sc_in_s (sc_init_in c)) = s_size (sc_in_s c)" "sc_rx (sc_init_in c) = sc_rx c"
  "sc_out_s (sc_init_in c) = sc_out_s c" "sc_tx (sc_init_in c) = sc_tx c" "sc_wire (sc_init_in c) = sc_wire c"
  by (simp_all add: sc_init_in_def)

lemma only_read_init_in [simp]: "only_read a (sc_init_in c) \<longleftrightarrow> only_read a c" "only_read (sc_init_in c) b \<longleftrightarrow> only_read c b"
  by (simp_all add: only_read_def)

lemma recv_bind:
  assumes rx: "rx_stream (sc_rx c) = bs @ q" and p: "s_p (sc_in_s c) = 0" and len: "len = int (length bs)"
    and fits: "int (length bs) \<le> s_size (sc_in_s c)"
    and cont: "\<And>c'. upcoming c' bs \<Longrightarrow> rx_stream (sc_rx c') = q \<Longrightarrow> only_read c c' \<Longrightarrow> s_p (sc_in_s c') = 0 \<Longrightarrow> wp (f (0, c')) Q"
  shows "wp (Option.bind (scp_tcp_force_recv c len) f) Q"
proof -
  obtain m rx1 where run: "scp_tcp_force_recv c len = Some (0, c\<lparr>sc_in_s := (sc_in_s c)\<lparr>s_data := m\<rparr>, sc_rx := rx1\<rparr>)"
      "rx_stream rx1 = q" "pending ((sc_in_s c)\<lparr>s_data := m\<rparr>) bs"
    using sc_recv_message[OF rx p fits] unfolding len by blast
  then show ?thesis using cont[of "c\<lparr>sc_in_s := (sc_in_s c)\<lparr>s_data := m\<rparr>, sc_rx := rx1\<rparr>"] p
    by (simp add: upcoming_def only_read_def)
qed

text \<open>The end of an answer: everything written so far goes to the wire.\<close>

lemma send_bind:
  assumes out: "sc_out_s c = emit out0 bs" and p: "s_p out0 = 0" and fits: "int (length bs) \<le> s_size out0"
    and room: "length bs \<le> tx_room (sc_tx c)" and len: "len = int (length bs)"
    and cont: "\<And>tx. wp (f (0, c\<lparr>sc_tx := tx, sc_wire := sc_wire c @ bs\<rparr>)) Q"
  shows "wp (Option.bind (scp_tcp_force_send c len) f) Q"
  using sc_send_message[of c bs] fits room cont by (auto simp: out p len bytes_at_write_bytes)

lemma put_bind:
  assumes "g (sc_out_s c) = Some s" "wp (f (c\<lparr>sc_out_s := s\<rparr>)) Q"
  shows "wp (Option.bind (sc_put c g) f) Q"
  using assms by (simp add: sc_put_def)

end
