(* ===== verification/Scp_Session.thy ===== *)
theory Scp_Session
  imports Scp_Net C_Strings
begin

text \<open>
  The session description both ends of the session control protocol fill in,
  \<open>sesman/libscp/libscp_session.c\<close> and the structures of \<open>libscp_types.h\<close>. A \<open>char *\<close> field is
  an optional string, the bytes before the terminator; a \<open>char *\<close> argument is the optional
  buffer it points to, of which the C string is the part before the first 0. Allocation succeeds.
  The eight string setters share the contract \<open>string_setter\<close>.
\<close>

subsection \<open>The structures\<close>

abbreviation (input) SCP_SESSION_TYPE_XVNC :: int where "SCP_SESSION_TYPE_XVNC \<equiv> 0"
abbreviation (input) SCP_SESSION_TYPE_XRDP :: int where "SCP_SESSION_TYPE_XRDP \<equiv> 1"
abbreviation (input) SCP_SESSION_TYPE_MANAGE :: int where "SCP_SESSION_TYPE_MANAGE \<equiv> 2"
abbreviation (input) SCP_SESSION_TYPE_XORG :: int where "SCP_SESSION_TYPE_XORG \<equiv> 3"
abbreviation (input) SCP_GW_AUTHENTICATION :: int where "SCP_GW_AUTHENTICATION \<equiv> 4"
abbreviation (input) SCP_ADDRESS_TYPE_IPV4 :: int where "SCP_ADDRESS_TYPE_IPV4 \<equiv> 0"
abbreviation (input) SCP_ADDRESS_TYPE_IPV6 :: int where "SCP_ADDRESS_TYPE_IPV6 \<equiv> 1"

datatype scp_mng_command = SCP_MNG_CMD_KILL | SCP_MNG_CMD_DISCONNECT

record scp_mng_data =
  mng_cmd :: scp_mng_command
  mng_sid :: int

record scp_session =
  ss_type :: int
  ss_version :: int
  ss_height :: int
  ss_width :: int
  ss_bpp :: int
  ss_rsr :: int
  ss_locale :: "byte list"
  ss_username :: "byte list option"
  ss_password :: "byte list option"
  ss_hostname :: "byte list option"
  ss_addr_type :: int
  ss_ipv4addr :: int
  ss_ipv6addr :: "byte list"
  ss_display :: int
  ss_errstr :: "byte list option"
  ss_mng :: "scp_mng_data option"
  ss_domain :: "byte list option"
  ss_program :: "byte list option"
  ss_directory :: "byte list option"
  ss_client_ip :: "byte list option"
  ss_guid :: "byte list"

record scp_disconnected_session =
  ds_SID :: int
  ds_type :: int
  ds_status :: int
  ds_height :: int
  ds_width :: int
  ds_bpp :: int
  ds_idle_days :: int
  ds_idle_hours :: int
  ds_idle_minutes :: int
  ds_conn_year :: int
  ds_conn_month :: int
  ds_conn_day :: int
  ds_conn_hour :: int
  ds_conn_minute :: int
  ds_addr_type :: int
  ds_ipv4addr :: int
  ds_ipv6addr :: "byte list"

subsection \<open>C strings\<close>

text \<open>\<open>g_strlen\<close> of a field.\<close>

definition g_strlen :: "byte list option \<Rightarrow> int" where
  "g_strlen text = (case text of None \<Rightarrow> 0 | Some t \<Rightarrow> int (length t))"

definition is_c_str :: "byte list \<Rightarrow> bool" where
  "is_c_str t \<longleftrightarrow> 0 \<notin> set t"

lemma c_str_id [simp]: "is_c_str t \<Longrightarrow> c_str t = t"
  by (auto simp: c_str_def is_c_str_def takeWhile_eq_all_conv)

lemma c_str_terminated [simp]: "c_str (t @ [0]) = c_str t"
  by (induction t) (simp_all add: c_str_def)

lemma is_c_str_c_str [simp]: "is_c_str (c_str b)"
  by (auto simp: c_str_def is_c_str_def dest: set_takeWhileD)

lemma c_str_replicate: "c_str (t @ replicate (Suc n) 0) = c_str t"
  by (induction t) (simp_all add: c_str_def)

subsection \<open>Creating a session and setting its fields\<close>

definition scp_session_create :: scp_session where
  "scp_session_create = \<lparr>ss_type = 0, ss_version = 0, ss_height = 0, ss_width = 0, ss_bpp = 0, ss_rsr = 0,
     ss_locale = replicate 18 0, ss_username = None, ss_password = None, ss_hostname = None, ss_addr_type = 0,
     ss_ipv4addr = 0, ss_ipv6addr = replicate 16 0, ss_display = 0, ss_errstr = None, ss_mng = None, ss_domain = None,
     ss_program = None, ss_directory = None, ss_client_ip = None, ss_guid = replicate 16 0\<rparr>"

definition scp_session_set_type :: "scp_session \<Rightarrow> int \<Rightarrow> int \<times> scp_session" where
  "scp_session_set_type s type =
     (if type = SCP_SESSION_TYPE_XVNC then (0, s\<lparr>ss_type := SCP_SESSION_TYPE_XVNC\<rparr>)
      else if type = SCP_SESSION_TYPE_XRDP then (0, s\<lparr>ss_type := SCP_SESSION_TYPE_XRDP\<rparr>)
      else if type = SCP_SESSION_TYPE_XORG then (0, s\<lparr>ss_type := SCP_SESSION_TYPE_XORG\<rparr>)
      else if type = SCP_GW_AUTHENTICATION then (0, s\<lparr>ss_type := SCP_GW_AUTHENTICATION\<rparr>)
      else if type = SCP_SESSION_TYPE_MANAGE
      then (0, s\<lparr>ss_type := SCP_SESSION_TYPE_MANAGE, ss_mng := Some \<lparr>mng_cmd = SCP_MNG_CMD_KILL, mng_sid = 0\<rparr>\<rparr>)
      else (1, s))"

definition scp_session_set_version :: "scp_session \<Rightarrow> int \<Rightarrow> int \<times> scp_session" where
  "scp_session_set_version s version =
     (if version = 0 then (0, s\<lparr>ss_version := 0\<rparr>)
      else if version = 1 then (0, s\<lparr>ss_version := 1\<rparr>)
      else (1, s))"

definition scp_session_set_height :: "scp_session \<Rightarrow> int \<Rightarrow> int \<times> scp_session" where
  "scp_session_set_height s h = (0, s\<lparr>ss_height := h\<rparr>)"

definition scp_session_set_width :: "scp_session \<Rightarrow> int \<Rightarrow> int \<times> scp_session" where
  "scp_session_set_width s w = (0, s\<lparr>ss_width := w\<rparr>)"

definition scp_session_set_bpp :: "scp_session \<Rightarrow> int \<Rightarrow> int \<times> scp_session" where
  "scp_session_set_bpp s bpp = (if bpp \<in> {8, 15, 16, 24, 32} then (0, s\<lparr>ss_bpp := bpp\<rparr>) else (1, s))"

text \<open>The test is on the field, not on the argument.\<close>

definition scp_session_set_rsr :: "scp_session \<Rightarrow> int \<Rightarrow> int \<times> scp_session" where
  "scp_session_set_rsr s rsr = (if ss_rsr s \<noteq> 0 then (0, s\<lparr>ss_rsr := 1\<rparr>) else (0, s\<lparr>ss_rsr := 0\<rparr>))"

text \<open>\<open>g_strncpy\<close> of 17 bytes pads with 0; the byte at 17 is the terminator.\<close>

definition scp_session_set_locale :: "scp_session \<Rightarrow> byte list option \<Rightarrow> int \<times> scp_session" where
  "scp_session_set_locale s str = (case str of
     None \<Rightarrow> (1, s\<lparr>ss_locale := (ss_locale s)[0 := 0]\<rparr>)
   | Some b \<Rightarrow> (0, s\<lparr>ss_locale := take 17 (c_str b @ replicate 17 0) @ [0]\<rparr>))"

definition scp_session_set_username :: "scp_session \<Rightarrow> byte list option \<Rightarrow> int \<times> scp_session" where
  "scp_session_set_username s str = (case str of None \<Rightarrow> (1, s) | Some b \<Rightarrow> (0, s\<lparr>ss_username := Some (c_str b)\<rparr>))"

definition scp_session_set_password :: "scp_session \<Rightarrow> byte list option \<Rightarrow> int \<times> scp_session" where
  "scp_session_set_password s str = (case str of None \<Rightarrow> (1, s) | Some b \<Rightarrow> (0, s\<lparr>ss_password := Some (c_str b)\<rparr>))"

definition scp_session_set_domain :: "scp_session \<Rightarrow> byte list option \<Rightarrow> int \<times> scp_session" where
  "scp_session_set_domain s str = (case str of None \<Rightarrow> (1, s) | Some b \<Rightarrow> (0, s\<lparr>ss_domain := Some (c_str b)\<rparr>))"

definition scp_session_set_program :: "scp_session \<Rightarrow> byte list option \<Rightarrow> int \<times> scp_session" where
  "scp_session_set_program s str = (case str of None \<Rightarrow> (1, s) | Some b \<Rightarrow> (0, s\<lparr>ss_program := Some (c_str b)\<rparr>))"

definition scp_session_set_directory :: "scp_session \<Rightarrow> byte list option \<Rightarrow> int \<times> scp_session" where
  "scp_session_set_directory s str = (case str of None \<Rightarrow> (1, s) | Some b \<Rightarrow> (0, s\<lparr>ss_directory := Some (c_str b)\<rparr>))"

definition scp_session_set_client_ip :: "scp_session \<Rightarrow> byte list option \<Rightarrow> int \<times> scp_session" where
  "scp_session_set_client_ip s str = (case str of None \<Rightarrow> (1, s) | Some b \<Rightarrow> (0, s\<lparr>ss_client_ip := Some (c_str b)\<rparr>))"

definition scp_session_set_hostname :: "scp_session \<Rightarrow> byte list option \<Rightarrow> int \<times> scp_session" where
  "scp_session_set_hostname s str = (case str of None \<Rightarrow> (1, s) | Some b \<Rightarrow> (0, s\<lparr>ss_hostname := Some (c_str b)\<rparr>))"

definition scp_session_set_errstr :: "scp_session \<Rightarrow> byte list option \<Rightarrow> int \<times> scp_session" where
  "scp_session_set_errstr s str = (case str of None \<Rightarrow> (1, s) | Some b \<Rightarrow> (0, s\<lparr>ss_errstr := Some (c_str b)\<rparr>))"

definition scp_session_set_display :: "scp_session \<Rightarrow> int \<Rightarrow> int \<times> scp_session" where
  "scp_session_set_display s display = (0, s\<lparr>ss_display := display\<rparr>)"

text \<open>The address is copied bytewise into a 32-bit field of a little-endian host. A buffer shorter
  than the copy is a fault. \<open>addr_type\<close> is not set.\<close>

definition scp_session_set_addr :: "scp_session \<Rightarrow> int \<Rightarrow> byte list \<Rightarrow> (int \<times> scp_session) option" where
  "scp_session_set_addr s type addr =
     (if type = SCP_ADDRESS_TYPE_IPV4
      then (case addr of
          b0 # b1 # b2 # b3 # _ \<Rightarrow> Some (0, s\<lparr>ss_ipv4addr := uint b0 + 256 * uint b1 + 65536 * uint b2 + 16777216 * uint b3\<rparr>)
        | _ \<Rightarrow> None)
      else if type = SCP_ADDRESS_TYPE_IPV6
      then (if length addr < 16 then None else Some (0, s\<lparr>ss_ipv6addr := take 16 addr\<rparr>))
      else Some (1, s))"

definition scp_session_set_guid :: "scp_session \<Rightarrow> byte list option \<Rightarrow> (int \<times> scp_session) option" where
  "scp_session_set_guid s guid = (case guid of None \<Rightarrow> Some (1, s)
   | Some g \<Rightarrow> if length g < 16 then None else Some (0, s\<lparr>ss_guid := take 16 g\<rparr>))"

subsection \<open>The contract of the string setters\<close>

locale string_setter =
  fixes set_str :: "scp_session \<Rightarrow> byte list option \<Rightarrow> int \<times> scp_session"
    and get_str :: "scp_session \<Rightarrow> byte list option"
    and upd_str :: "(byte list option \<Rightarrow> byte list option) \<Rightarrow> scp_session \<Rightarrow> scp_session"
  assumes null_refused: "set_str s None = (1, s)"
    and str_stored: "set_str s (Some b) = (0, upd_str (\<lambda>_. Some (c_str b)) s)"
    and get_upd: "get_str (upd_str f s) = f (get_str s)"
    and upd_upd: "upd_str f (upd_str g s) = upd_str (\<lambda>x. f (g x)) s"
begin

lemma succeeds_iff: "fst (set_str s str) = 0 \<longleftrightarrow> str \<noteq> None"
  by (cases str) (simp_all add: null_refused str_stored)

lemma get_set: "get_str (snd (set_str s (Some b))) = Some (c_str b)"
  by (simp add: str_stored get_upd)

lemma stored_is_string: "get_str s = None \<or> (\<exists>t. get_str s = Some t \<and> is_c_str t) \<Longrightarrow>
    get_str (snd (set_str s str)) = None \<or> (\<exists>t. get_str (snd (set_str s str)) = Some t \<and> is_c_str t)"
  by (cases str) (simp_all add: null_refused get_set)

lemma last_wins: "snd (set_str (snd (set_str s a)) (Some b)) = snd (set_str s (Some b))"
  by (cases a) (simp_all add: null_refused str_stored upd_upd)

end

interpretation username: string_setter scp_session_set_username ss_username ss_username_update
  by unfold_locales (simp_all add: scp_session_set_username_def comp_def)

interpretation password: string_setter scp_session_set_password ss_password ss_password_update
  by unfold_locales (simp_all add: scp_session_set_password_def comp_def)

interpretation domain: string_setter scp_session_set_domain ss_domain ss_domain_update
  by unfold_locales (simp_all add: scp_session_set_domain_def comp_def)

interpretation program: string_setter scp_session_set_program ss_program ss_program_update
  by unfold_locales (simp_all add: scp_session_set_program_def comp_def)

interpretation directory: string_setter scp_session_set_directory ss_directory ss_directory_update
  by unfold_locales (simp_all add: scp_session_set_directory_def comp_def)

interpretation client_ip: string_setter scp_session_set_client_ip ss_client_ip ss_client_ip_update
  by unfold_locales (simp_all add: scp_session_set_client_ip_def comp_def)

interpretation hostname: string_setter scp_session_set_hostname ss_hostname ss_hostname_update
  by unfold_locales (simp_all add: scp_session_set_hostname_def comp_def)

interpretation errstr: string_setter scp_session_set_errstr ss_errstr ss_errstr_update
  by unfold_locales (simp_all add: scp_session_set_errstr_def comp_def)

lemma set_addr_host:
  assumes "0 \<le> v" "v < 4294967296"
  shows "scp_session_set_addr s SCP_ADDRESS_TYPE_IPV4 (enc32_le v) = Some (0, s\<lparr>ss_ipv4addr := v\<rparr>)"
proof -
  have "v mod 4294967296 = v" using assms by simp
  then show ?thesis
    by (simp only: scp_session_set_addr_def enc32_le_def list.case uint_byte_of_int mod_div_65536 simp_thms if_True)
qed

text \<open>The setters, as the accepting code uses them.\<close>

lemmas session_setters = scp_session_set_type_def scp_session_set_version_def scp_session_set_height_def
  scp_session_set_width_def scp_session_set_bpp_def scp_session_set_rsr_def scp_session_set_locale_def
  scp_session_set_display_def
  username.str_stored password.str_stored domain.str_stored program.str_stored directory.str_stored
  client_ip.str_stored hostname.str_stored errstr.str_stored

end
