(* ===== verification/Scp_V0.thy ===== *)
theory Scp_V0
  imports Scp_Session
begin

text \<open>
  Version 0 of the session control protocol, \<open>sesman/libscp/libscp_v0.c\<close>: the request of the
  client (\<open>scp_v0c_connect\<close>), the server that accepts it, and the server's replies. A server call
  returns its state, the session it hands out through its pointer argument if it does, and the
  connection; a client call returns its state, the session it was given, and the connection.
\<close>

subsection \<open>The client\<close>

definition field_bytes :: "byte list option \<Rightarrow> byte list" where
  "field_bytes t = (case t of None \<Rightarrow> [] | Some t \<Rightarrow> t)"

definition v0_code :: "int \<Rightarrow> int option" where
  "v0_code type =
     (if type = SCP_SESSION_TYPE_XVNC then Some 0
      else if type = SCP_SESSION_TYPE_XRDP then Some 10
      else if type = SCP_SESSION_TYPE_XORG then Some 20
      else None)"

text \<open>\<open>sz = g_strlen(str)\<close> into a 16-bit variable, then \<open>sz\<close> and the first \<open>sz\<close> bytes.\<close>

definition v0_put_string :: "scp_connection \<Rightarrow> byte list option \<Rightarrow> scp_connection option" where
  "v0_put_string c str = do {
     let sz = u16 (g_strlen str);
     c \<leftarrow> sc_put c (\<lambda>o'. out_uint16_be o' sz);
     sc_put c (\<lambda>o'. out_uint8p o' (take (nat sz) (field_bytes str))) }"

definition v0c_check_reply :: "scp_connection \<Rightarrow> scp_session \<Rightarrow> (scp_client_state \<times> scp_session \<times> scp_connection) option" where
  "v0c_check_reply c s = do {
     (r, c) \<leftarrow> scp_tcp_force_recv c 8;
     if r \<noteq> 0 then Some (SCP_CLIENT_STATE_NETWORK_ERR, s, c) else do {
     (version, c) \<leftarrow> sc_get c in_uint32_be;
     if version \<noteq> 0 then Some (SCP_CLIENT_STATE_VERSION_ERR, s, c) else do {
     (size, c) \<leftarrow> sc_get c in_uint32_be;
     if size < 14 then Some (SCP_CLIENT_STATE_SIZE_ERR, s, c) else do {
     (r, c) \<leftarrow> scp_tcp_force_recv (sc_init_in c) (s32 (size - 8));
     if r \<noteq> 0 then Some (SCP_CLIENT_STATE_NETWORK_ERR, s, c) else do {
     (sz, c) \<leftarrow> sc_get c in_uint16_be;
     if sz \<noteq> 3 then Some (SCP_CLIENT_STATE_SEQUENCE_ERR, s, c) else do {
     (sz, c) \<leftarrow> sc_get c in_uint16_be;
     if sz \<noteq> 1 then Some (SCP_CLIENT_STATE_CONNECTION_DENIED, s, c) else do {
     (sz, c) \<leftarrow> sc_get c in_uint16_be;
     Some (SCP_CLIENT_STATE_END, s\<lparr>ss_display := sz\<rparr>, c) }}}}}}}"

definition scp_v0c_connect :: "scp_connection \<Rightarrow> scp_session \<Rightarrow> (scp_client_state \<times> scp_session \<times> scp_connection) option" where
  "scp_v0c_connect c s =
     (let c = sc_init_in c;
          c = c\<lparr>sc_out_s := s_push_layer (init_stream (sc_out_s c) (s_size (sc_in_s c))) channel_hdr_update 8\<rparr> in
      case v0_code (ss_type s) of
        None \<Rightarrow> Some (SCP_CLIENT_STATE_INTERNAL_ERR, s, c)
      | Some code \<Rightarrow> do {
          c \<leftarrow> sc_put c (\<lambda>o'. out_uint16_be o' code);
          c \<leftarrow> v0_put_string c (ss_username s);
          c \<leftarrow> v0_put_string c (ss_password s);
          c \<leftarrow> sc_put c (\<lambda>o'. out_uint16_be o' (ss_width s));
          c \<leftarrow> sc_put c (\<lambda>o'. out_uint16_be o' (ss_height s));
          c \<leftarrow> sc_put c (\<lambda>o'. out_uint16_be o' (ss_bpp s));
          let c = c\<lparr>sc_out_s := s_pop_layer (s_mark_end (sc_out_s c)) channel_hdr\<rparr>;
          c \<leftarrow> sc_put c (\<lambda>o'. out_uint32_be o' 0);
          c \<leftarrow> sc_put c (\<lambda>o'. out_uint32_be o' (s_end (sc_out_s c)));
          (r, c) \<leftarrow> scp_tcp_force_send c (s_end (sc_out_s c));
          if r \<noteq> 0 then Some (SCP_CLIENT_STATE_NETWORK_ERR, s, c) else v0c_check_reply c s })"

subsection \<open>The server\<close>

text \<open>\<open>sz\<close>, a zeroed buffer of \<open>sz + 1\<close> bytes, and \<open>sz\<close> bytes copied into it.\<close>

definition v0_get_string :: "scp_connection \<Rightarrow> (byte list \<times> scp_connection) option" where
  "v0_get_string c = do {
     (sz, c) \<leftarrow> sc_get c in_uint16_be;
     (b, c) \<leftarrow> sc_get c (\<lambda>i. in_uint8a i sz);
     Some (b @ [0], c) }"

text \<open>The optional fields at the end of the request.\<close>

definition v0_get_optional ::
  "(scp_session \<Rightarrow> byte list option \<Rightarrow> int \<times> scp_session) \<Rightarrow> scp_session \<Rightarrow> scp_connection \<Rightarrow> (scp_session \<times> scp_connection) option" where
  "v0_get_optional set_str session c =
     (if s_check_rem (sc_in_s c) 2
      then do {
        (sz, c) \<leftarrow> sc_get c in_uint16_be;
        if sz > 0
        then do { (b, c) \<leftarrow> sc_get c (\<lambda>i. in_uint8a i sz); Some (snd (set_str session (Some (b @ [0]))), c) }
        else Some (session, c) }
      else Some (session, c))"

definition v0s_read_login ::
  "int \<Rightarrow> int \<Rightarrow> scp_connection \<Rightarrow> (scp_server_state \<times> scp_session option \<times> scp_connection) option" where
  "v0s_read_login version code c = do {
     let session = snd (scp_session_set_version scp_session_create version);
     let session = snd (scp_session_set_type session
       (if code = 0 then SCP_SESSION_TYPE_XVNC else if code = 10 then SCP_SESSION_TYPE_XRDP else SCP_SESSION_TYPE_XORG));
     (buf, c) \<leftarrow> v0_get_string c;
     let (r, session) = scp_session_set_username session (Some buf);
     if r \<noteq> 0 then Some (SCP_SERVER_STATE_INTERNAL_ERR, None, c) else do {
     (buf, c) \<leftarrow> v0_get_string c;
     let (r, session) = scp_session_set_password session (Some buf);
     if r \<noteq> 0 then Some (SCP_SERVER_STATE_INTERNAL_ERR, None, c) else do {
     (sz, c) \<leftarrow> sc_get c in_uint16_be;
     let session = snd (scp_session_set_width session sz);
     (sz, c) \<leftarrow> sc_get c in_uint16_be;
     let session = snd (scp_session_set_height session sz);
     (sz, c) \<leftarrow> sc_get c in_uint16_be;
     let (r, session) = scp_session_set_bpp session (u8 sz);
     if r \<noteq> 0 then Some (SCP_SERVER_STATE_INTERNAL_ERR, None, c) else do {
     (session, c) \<leftarrow> v0_get_optional scp_session_set_domain session c;
     (session, c) \<leftarrow> v0_get_optional scp_session_set_program session c;
     (session, c) \<leftarrow> v0_get_optional scp_session_set_directory session c;
     (session, c) \<leftarrow> v0_get_optional scp_session_set_client_ip session c;
     Some (SCP_SERVER_STATE_OK, Some session, c) }}}}"

definition v0s_read_gateway ::
  "int \<Rightarrow> scp_connection \<Rightarrow> (scp_server_state \<times> scp_session option \<times> scp_connection) option" where
  "v0s_read_gateway version c = do {
     let session = snd (scp_session_set_version scp_session_create version);
     let session = snd (scp_session_set_type session SCP_GW_AUTHENTICATION);
     (buf, c) \<leftarrow> v0_get_string c;
     let (r, session) = scp_session_set_username session (Some buf);
     if r \<noteq> 0 then Some (SCP_SERVER_STATE_INTERNAL_ERR, None, c) else do {
     (buf, c) \<leftarrow> v0_get_string c;
     let (r, session) = scp_session_set_password session (Some buf);
     if r \<noteq> 0 then Some (SCP_SERVER_STATE_INTERNAL_ERR, None, c)
     else Some (SCP_SERVER_STATE_OK, Some session, c) }}"

text \<open>From the size field on. \<open>size - 8\<close> is computed in 32-bit unsigned arithmetic, becomes the
  signed length of the receive and the unsigned offset of \<open>end\<close>. Nothing compares it with the
  block's size.\<close>

definition v0s_accept_body ::
  "int \<Rightarrow> scp_connection \<Rightarrow> (scp_server_state \<times> scp_session option \<times> scp_connection) option" where
  "v0s_accept_body version c = do {
     (size, c) \<leftarrow> sc_get c in_uint32_be;
     (r, c) \<leftarrow> scp_tcp_force_recv (c\<lparr>sc_in_s := init_stream (sc_in_s c) 8196\<rparr>) (s32 (size - 8));
     if r \<noteq> 0 then Some (SCP_SERVER_STATE_NETWORK_ERR, None, c) else do {
     let c = c\<lparr>sc_in_s := (sc_in_s c)\<lparr>s_end := u32 (size - 8)\<rparr>\<rparr>;
     (code, c) \<leftarrow> sc_get c in_uint16_be;
     if code = 0 \<or> code = 10 \<or> code = 20 then v0s_read_login version code c
     else if code = SCP_GW_AUTHENTICATION then v0s_read_gateway version c
     else Some (SCP_SERVER_STATE_SEQUENCE_ERR, None, c) }}"

definition scp_v0s_accept ::
  "scp_connection \<Rightarrow> bool \<Rightarrow> (scp_server_state \<times> scp_session option \<times> scp_connection) option" where
  "scp_v0s_accept c skipVchk =
     (if \<not> skipVchk
      then do {
        (r, c) \<leftarrow> scp_tcp_force_recv c 8;
        if r = 0
        then do {
          (version, c) \<leftarrow> sc_get (c\<lparr>sc_in_s := (sc_in_s c)\<lparr>s_end := 8\<rparr>\<rparr>) in_uint32_be;
          if version \<noteq> 0 then Some (SCP_SERVER_STATE_VERSION_ERR, None, c) else v0s_accept_body version c }
        else Some (SCP_SERVER_STATE_NETWORK_ERR, None, c) }
      else v0s_accept_body 0 c)"

text \<open>The replies. None of them rewinds \<open>out_s\<close>.\<close>

definition scp_v0s_allow_connection ::
  "scp_connection \<Rightarrow> int \<Rightarrow> byte list option \<Rightarrow> (scp_server_state \<times> scp_connection) option" where
  "scp_v0s_allow_connection c d guid = do {
     let msg_size = (if guid = None then 14 else 14 + 16);
     c \<leftarrow> sc_put c (\<lambda>o'. out_uint32_be o' 0);
     c \<leftarrow> sc_put c (\<lambda>o'. out_uint32_be o' msg_size);
     c \<leftarrow> sc_put c (\<lambda>o'. out_uint16_be o' 3);
     c \<leftarrow> sc_put c (\<lambda>o'. out_uint16_be o' 1);
     c \<leftarrow> sc_put c (\<lambda>o'. out_uint16_be o' d);
     c \<leftarrow> (case guid of None \<Rightarrow> Some c
        | Some g \<Rightarrow> if length g < 16 then None else sc_put c (\<lambda>o'. out_uint8p o' (take 16 g)));
     let c = c\<lparr>sc_out_s := s_mark_end (sc_out_s c)\<rparr>;
     (r, c) \<leftarrow> scp_tcp_force_send c (s_end (sc_out_s c));
     Some (if r \<noteq> 0 then SCP_SERVER_STATE_NETWORK_ERR else SCP_SERVER_STATE_OK, c) }"

definition scp_v0s_deny_connection :: "scp_connection \<Rightarrow> (scp_server_state \<times> scp_connection) option" where
  "scp_v0s_deny_connection c = do {
     c \<leftarrow> sc_put c (\<lambda>o'. out_uint32_be o' 0);
     c \<leftarrow> sc_put c (\<lambda>o'. out_uint32_be o' 14);
     c \<leftarrow> sc_put c (\<lambda>o'. out_uint16_be o' 3);
     c \<leftarrow> sc_put c (\<lambda>o'. out_uint16_be o' 0);
     c \<leftarrow> sc_put c (\<lambda>o'. out_uint16_be o' 0);
     let c = c\<lparr>sc_out_s := s_mark_end (sc_out_s c)\<rparr>;
     (r, c) \<leftarrow> scp_tcp_force_send c (s_end (sc_out_s c));
     Some (if r \<noteq> 0 then SCP_SERVER_STATE_NETWORK_ERR else SCP_SERVER_STATE_OK, c) }"

definition scp_v0s_replyauthentication :: "scp_connection \<Rightarrow> int \<Rightarrow> (scp_server_state \<times> scp_connection) option" where
  "scp_v0s_replyauthentication c value = do {
     c \<leftarrow> sc_put c (\<lambda>o'. out_uint32_be o' 0);
     c \<leftarrow> sc_put c (\<lambda>o'. out_uint32_be o' 14);
     c \<leftarrow> sc_put c (\<lambda>o'. out_uint16_be o' SCP_GW_AUTHENTICATION);
     c \<leftarrow> sc_put c (\<lambda>o'. out_uint16_be o' value);
     c \<leftarrow> sc_put c (\<lambda>o'. out_uint16_be o' 0);
     let c = c\<lparr>sc_out_s := s_mark_end (sc_out_s c)\<rparr>;
     (r, c) \<leftarrow> scp_tcp_force_send c (s_end (sc_out_s c));
     Some (if r \<noteq> 0 then SCP_SERVER_STATE_NETWORK_ERR else SCP_SERVER_STATE_OK, c) }"

subsection \<open>What a version 0 request carries\<close>

text \<open>The request as bytes, header and body.\<close>

definition v0_body :: "int \<Rightarrow> scp_session \<Rightarrow> byte list" where
  "v0_body code s = enc16_be code
     @ enc16_be (g_strlen (ss_username s)) @ field_bytes (ss_username s)
     @ enc16_be (g_strlen (ss_password s)) @ field_bytes (ss_password s)
     @ enc16_be (ss_width s) @ enc16_be (ss_height s) @ enc16_be (ss_bpp s)"

definition v0_message :: "byte list \<Rightarrow> byte list" where
  "v0_message body = enc32_be 0 @ enc32_be (8 + int (length body)) @ body"

text \<open>A session that a version 0 request can carry in a block of \<open>n\<close> bytes.\<close>

definition v0_carries :: "int \<Rightarrow> scp_session \<Rightarrow> bool" where
  "v0_carries n s \<longleftrightarrow> v0_code (ss_type s) \<noteq> None
     \<and> 20 + g_strlen (ss_username s) + g_strlen (ss_password s) \<le> n
     \<and> g_strlen (ss_username s) < 65536 \<and> g_strlen (ss_password s) < 65536"

lemma length_field_bytes [simp]: "int (length (field_bytes t)) = g_strlen t"
  by (simp add: field_bytes_def g_strlen_def split: option.split)

lemma g_strlen_nonneg [simp]: "0 \<le> g_strlen t"
  by (simp add: g_strlen_def split: option.split)

lemma length_v0_body: "int (length (v0_body code s)) = 12 + g_strlen (ss_username s) + g_strlen (ss_password s)"
  by (simp add: v0_body_def)

lemma v0_put_string_emit:
  assumes "g_strlen t < 65536" "room (sc_out_s c) (2 + g_strlen t)"
  shows "v0_put_string c t = Some (c\<lparr>sc_out_s := emit (sc_out_s c) (enc16_be (g_strlen t) @ field_bytes t)\<rparr>)"
proof -
  have "length (field_bytes t) = nat (g_strlen t)" using length_field_bytes[of t] by linarith
  then have "take (nat (g_strlen t)) (field_bytes t) = field_bytes t" by simp
  moreover have "room (sc_out_s c) 2" using assms(2) by (simp add: room_def) (use g_strlen_nonneg[of t] in linarith)
  ultimately show ?thesis using assms by (simp add: v0_put_string_def sc_put_def out_emit u16_id room_def)
qed

text \<open>What \<open>scp_v0c_connect\<close> puts on the wire.\<close>

lemma v0c_connect_sends:
  assumes code: "v0_code (ss_type s) = Some code" and fits: "v0_carries (s_size (sc_in_s c)) s"
    and room: "length (v0_message (v0_body code s)) \<le> tx_room (sc_tx c)"
  shows "\<exists>tx out. scp_v0c_connect c s =
     v0c_check_reply ((sc_init_in c)\<lparr>sc_out_s := out, sc_tx := tx, sc_wire := sc_wire c @ v0_message (v0_body code s)\<rparr>) s"
proof -
  define N where "N = s_size (sc_in_s c)"
  define out0 where "out0 = s_push_layer (init_stream (sc_out_s c) N) channel_hdr_update 8"
  define body where "body = v0_body code s"
  have len: "int (length body) = 12 + g_strlen (ss_username s) + g_strlen (ss_password s)"
    by (simp add: body_def length_v0_body)
  have fit: "8 + int (length body) \<le> N" using fits by (simp add: v0_carries_def len N_def)
  have out0: "s_p out0 = 8" "N \<le> s_size out0" "channel_hdr out0 = 0"
    by (simp_all add: out0_def s_push_layer_def)
  define out1 where "out1 = s_pop_layer (s_mark_end (emit out0 body)) channel_hdr"
  define out2 where "out2 = emit out1 (enc32_be 0 @ enc32_be (8 + int (length body)))"
  have out1: "s_p out1 = 0" "s_end out1 = 8 + int (length body)" "s_size out1 = s_size out0"
    "s_data out1 = write_bytes (s_data out0) 8 body"
    by (simp_all add: out1_def s_pop_layer_def s_mark_end_def out0)
  have bytes: "bytes_at (s_data out2) 0 (v0_message body)"
    using bytes_at_header_last[of "s_data out0" "enc32_be 0 @ enc32_be (8 + int (length body))" body]
    by (simp add: out2_def out1 v0_message_def)
  obtain tx where sent: "scp_tcp_force_send ((sc_init_in c)\<lparr>sc_out_s := out2\<rparr>) (int (length (v0_message body)))
      = Some (0, (sc_init_in c)\<lparr>sc_out_s := out2, sc_tx := tx, sc_wire := sc_wire c @ v0_message body\<rparr>)"
    using sc_send_message[of "(sc_init_in c)\<lparr>sc_out_s := out2\<rparr>" "v0_message body"] bytes fit out0 out1 room
    by (auto simp: out2_def v0_message_def body_def sc_init_in_def)
  have "scp_v0c_connect c s = v0c_check_reply ((sc_init_in c)\<lparr>sc_out_s := out2, sc_tx := tx, sc_wire := sc_wire c @ v0_message body\<rparr>) s"
  proof -
    have g: "g_strlen (ss_username s) < 65536" "g_strlen (ss_password s) < 65536"
      "20 + g_strlen (ss_username s) + g_strlen (ss_password s) \<le> s_size out0"
      using fits out0(2) by (simp_all add: v0_carries_def N_def)
    then have g': "20 + g_strlen (ss_username s) \<le> s_size out0" "20 + g_strlen (ss_password s) \<le> s_size out0" "20 \<le> s_size out0"
      using g_strlen_nonneg[of "ss_username s"] g_strlen_nonneg[of "ss_password s"] by linarith+
    have len8: "s_end out2 = int (length (v0_message body))" by (simp add: out2_def out1 v0_message_def)
    have start: "scp_v0c_connect c s = do {
          c \<leftarrow> sc_put ((sc_init_in c)\<lparr>sc_out_s := emit out0 body\<rparr>) Some;
          let c = c\<lparr>sc_out_s := s_pop_layer (s_mark_end (sc_out_s c)) channel_hdr\<rparr>;
          c \<leftarrow> sc_put c (\<lambda>o'. out_uint32_be o' 0);
          c \<leftarrow> sc_put c (\<lambda>o'. out_uint32_be o' (s_end (sc_out_s c)));
          (r, c) \<leftarrow> scp_tcp_force_send c (s_end (sc_out_s c));
          if r \<noteq> 0 then Some (SCP_CLIENT_STATE_NETWORK_ERR, s, c) else v0c_check_reply c s }"
      using g g' by (simp add: scp_v0c_connect_def code Let_def sc_init_in_def N_def[symmetric] out0_def[symmetric]
        sc_put_def out_emit v0_put_string_emit room_def out0 body_def v0_body_def)
    show ?thesis
      unfolding start using sent g'
      by (simp add: sc_put_def out1_def[symmetric] out_emit room_def out1 out2_def[symmetric] len8[symmetric] sc_init_in_def)
  qed
  then show ?thesis by (auto simp: body_def)
qed

text \<open>What the server reads out of it.\<close>

lemma get_string_bind:
  assumes "upcoming c (enc16_be (g_strlen t) @ field_bytes t @ q)" "g_strlen t < 65536"
    "upcoming (sc_skip c (2 + g_strlen t)) q \<Longrightarrow> wp (f (field_bytes t @ [0], sc_skip c (2 + g_strlen t))) Q"
  shows "wp (Option.bind (v0_get_string c) f) Q"
  unfolding v0_get_string_def bind_assoc
proof (rule get16_bind[OF assms(1) g_strlen_nonneg assms(2)], unfold prod.case bind_assoc)
  assume "upcoming (sc_skip c 2) (field_bytes t @ q)"
  then show "wp (sc_get (sc_skip c 2) (\<lambda>i. in_uint8a i (g_strlen t)) \<bind> (\<lambda>x. (case x of (b, c) \<Rightarrow> Some (b @ [0], c)) \<bind> f)) Q"
    by (rule get_bytes_bind) (use assms(3) in simp_all)
qed

lemma v0_get_optional_none: "s_end (sc_in_s c) = s_p (sc_in_s c) \<Longrightarrow> v0_get_optional f session c = Some (session, c)"
  by (simp add: v0_get_optional_def s_check_rem_def)

text \<open>The session a server makes of the client's, and the fields a request can express.\<close>

definition v0_session :: "scp_session \<Rightarrow> scp_session" where
  "v0_session s = scp_session_create\<lparr>ss_type := ss_type s, ss_username := Some (field_bytes (ss_username s)),
     ss_password := Some (field_bytes (ss_password s)), ss_width := ss_width s, ss_height := ss_height s, ss_bpp := ss_bpp s\<rparr>"

definition v0_wellformed :: "scp_session \<Rightarrow> bool" where
  "v0_wellformed s \<longleftrightarrow> is_c_str (field_bytes (ss_username s)) \<and> is_c_str (field_bytes (ss_password s))
     \<and> 0 \<le> ss_width s \<and> ss_width s < 65536 \<and> 0 \<le> ss_height s \<and> ss_height s < 65536 \<and> ss_bpp s \<in> {8, 15, 16, 24, 32}"

lemma v0_session_type:
  "v0_code type = Some code \<Longrightarrow> (if code = 0 then SCP_SESSION_TYPE_XVNC else if code = 10 then SCP_SESSION_TYPE_XRDP
     else SCP_SESSION_TYPE_XORG) = type \<and> (code = 0 \<or> code = 10 \<or> code = 20) \<and> (type = 0 \<or> type = 1 \<or> type = 3)"
  by (auto simp: v0_code_def split: if_splits)

lemma v0s_read_login_ok:
  assumes pend: "upcoming c (enc16_be (g_strlen (ss_username s)) @ field_bytes (ss_username s)
      @ enc16_be (g_strlen (ss_password s)) @ field_bytes (ss_password s)
      @ enc16_be (ss_width s) @ enc16_be (ss_height s) @ enc16_be (ss_bpp s) @ [])"
    and fin: "s_end (sc_in_s c) = s_p (sc_in_s c) + 10 + g_strlen (ss_username s) + g_strlen (ss_password s)"
    and code: "v0_code (ss_type s) = Some code" and wf: "v0_wellformed s"
    and len: "g_strlen (ss_username s) < 65536" "g_strlen (ss_password s) < 65536"
  shows "wp (v0s_read_login 0 code c) (\<lambda>x. \<exists>n. x = (SCP_SERVER_STATE_OK, Some (v0_session s), sc_skip c n))"
proof -
  have bpp: "0 \<le> ss_bpp s" "ss_bpp s < 65536" "u8 (ss_bpp s) = ss_bpp s"
    using wf unfolding v0_wellformed_def u8_def by fastforce+
  have set_bpp: "scp_session_set_bpp x (ss_bpp s) = (0, x\<lparr>ss_bpp := ss_bpp s\<rparr>)" for x
    using wf unfolding v0_wellformed_def scp_session_set_bpp_def by simp
  have type: "scp_session_set_type x (if code = 0 then SCP_SESSION_TYPE_XVNC else if code = 10 then SCP_SESSION_TYPE_XRDP
      else SCP_SESSION_TYPE_XORG) = (0, x\<lparr>ss_type := ss_type s\<rparr>)" for x
    using v0_session_type[OF code] unfolding scp_session_set_type_def by (elim conjE disjE) simp_all
  have strs: "c_str (field_bytes (ss_username s)) = field_bytes (ss_username s)" "c_str (field_bytes (ss_password s)) = field_bytes (ss_password s)"
    using wf by (simp_all add: v0_wellformed_def)
  note w = wf[unfolded v0_wellformed_def]
  show ?thesis
    unfolding v0s_read_login_def Let_def type
    apply (rule get_string_bind[OF pend len(1)])
    apply (simp only: prod.case username.str_stored if_False simp_thms c_str_terminated strs)
    apply (rule get_string_bind[OF _ len(2)], assumption)
    apply (simp only: prod.case password.str_stored if_False simp_thms c_str_terminated strs)
    apply (rule get16_bind, assumption, use w in blast, use w in blast)
    apply (simp only: prod.case)
    apply (rule get16_bind, assumption, use w in blast, use w in blast)
    apply (simp only: prod.case)
    apply (rule get16_bind, assumption, rule bpp, rule bpp)
    apply (simp only: prod.case set_bpp bpp(3) if_False simp_thms sc_skip_skip)
    using fin
    apply (simp add: v0_get_optional_none session_setters(2,3,4) v0_session_def scp_session_create_def)
    apply blast
    done
qed

lemma v0s_accept_body_ok:
  assumes size: "upcoming c (enc32_be (8 + int (length (v0_body code s))) @ [])"
    and rx: "rx_stream (sc_rx c) = v0_body code s @ q"
    and code: "v0_code (ss_type s) = Some code" and wf: "v0_wellformed s" and fits: "v0_carries 8204 s"
  shows "wp (v0s_accept_body 0 c) (\<lambda>x. \<exists>i rx. x = (SCP_SERVER_STATE_OK, Some (v0_session s), c\<lparr>sc_rx := rx, sc_in_s := i\<rparr>)
     \<and> rx_stream rx = q)"
proof -
  define body where "body = v0_body code s"
  have len: "int (length body) = 12 + g_strlen (ss_username s) + g_strlen (ss_password s)"
    by (simp add: body_def length_v0_body)
  have small: "0 \<le> 8 + int (length body)" "8 + int (length body) < 4294967296" "int (length body) \<le> 8196"
    using fits by (simp_all add: v0_carries_def len)
  have conv: "s32 (8 + int (length body) - 8) = int (length body)" "u32 (8 + int (length body) - 8) = int (length body)"
    using small by (simp_all add: s32_id u32_id)
  have c0: "0 \<le> code" "code < 65536" "code = 0 \<or> code = 10 \<or> code = 20"
    using v0_session_type[OF code] by auto
  define c1 where "c1 = (sc_skip c 4)\<lparr>sc_in_s := init_stream (sc_in_s (sc_skip c 4)) 8196\<rparr>"
  have c1: "rx_stream (sc_rx c1) = body @ q" "s_p (sc_in_s c1) = 0" "int (length body) \<le> s_size (sc_in_s c1)"
    using rx small by (simp_all add: c1_def body_def)
  obtain m rx1 where recv: "scp_tcp_force_recv c1 (int (length body)) = Some (0, c1\<lparr>sc_in_s := (sc_in_s c1)\<lparr>s_data := m\<rparr>, sc_rx := rx1\<rparr>)"
      "rx_stream rx1 = q" and pend: "\<forall>e. pending ((sc_in_s c1)\<lparr>s_data := m, s_end := e\<rparr>) body"
    using sc_recv_message[OF c1] by blast
  define c2 where "c2 = c1\<lparr>sc_rx := rx1, sc_in_s := (sc_in_s c1)\<lparr>s_data := m, s_end := int (length body)\<rparr>\<rparr>"
  have up: "upcoming c2 (enc16_be code @ enc16_be (g_strlen (ss_username s)) @ field_bytes (ss_username s)
      @ enc16_be (g_strlen (ss_password s)) @ field_bytes (ss_password s)
      @ enc16_be (ss_width s) @ enc16_be (ss_height s) @ enc16_be (ss_bpp s) @ [])"
    using pend by (simp add: upcoming_def c2_def body_def v0_body_def)
  have login: "wp (v0s_read_login 0 code (sc_skip c2 2)) (\<lambda>x. \<exists>n. x = (SCP_SERVER_STATE_OK, Some (v0_session s), sc_skip (sc_skip c2 2) n))"
    if "upcoming (sc_skip c2 2) (enc16_be (g_strlen (ss_username s)) @ field_bytes (ss_username s)
      @ enc16_be (g_strlen (ss_password s)) @ field_bytes (ss_password s)
      @ enc16_be (ss_width s) @ enc16_be (ss_height s) @ enc16_be (ss_bpp s) @ [])"
    using fits by (intro v0s_read_login_ok[OF that _ code wf]) (simp_all add: c2_def c1(2) len v0_carries_def)
  have "wp (do { (code', c) \<leftarrow> sc_get c2 in_uint16_be;
       if code' = 0 \<or> code' = 10 \<or> code' = 20 then v0s_read_login 0 code' c
       else if code' = SCP_GW_AUTHENTICATION then v0s_read_gateway 0 c
       else Some (SCP_SERVER_STATE_SEQUENCE_ERR, None, c) })
      (\<lambda>x. \<exists>n. x = (SCP_SERVER_STATE_OK, Some (v0_session s), sc_skip c2 n))"
    by (rule get16_bind[OF up c0(1,2)]) (use login c0(3) in \<open>auto elim!: wp_mono\<close>)
  then show ?thesis unfolding v0s_accept_body_def
    apply (intro get32_bind[OF size[folded body_def] small(1,2)])
    apply (simp only: prod.case c1_def[symmetric] conv recv(1) bind.bind_lunit simp_thms if_False Let_def)
    apply (simp add: c2_def[symmetric])
    apply (erule wp_mono)
    apply (clarsimp simp: sc_skip_def c2_def c1_def)
    apply (use recv(2) in blast)
    done
qed

subsection \<open>The replies\<close>

definition v0_reply :: "int \<Rightarrow> int \<Rightarrow> int \<Rightarrow> byte list \<Rightarrow> byte list" where
  "v0_reply cmd data d extra = v0_message (enc16_be cmd @ enc16_be data @ enc16_be d @ extra)"

lemma v0c_check_reply_ok:
  assumes rx: "rx_stream (sc_rx c) = v0_reply 3 data d extra @ q" and p: "s_p (sc_in_s c) = 0"
    and fits: "8 \<le> s_size (sc_in_s c)" "6 + int (length extra) \<le> s_size (sc_in_s c)" "s_size (sc_in_s c) < 2147483640"
    and vals: "0 \<le> data" "data < 65536" "0 \<le> d" "d < 65536"
  shows "wp (v0c_check_reply c s) (\<lambda>(st, s', c'). only_read c c'
     \<and> (st, s') = (if data = 1 then (SCP_CLIENT_STATE_END, s\<lparr>ss_display := d\<rparr>) else (SCP_CLIENT_STATE_CONNECTION_DENIED, s)))"
proof -
  define body where "body = enc16_be 3 @ enc16_be data @ enc16_be d @ extra"
  have len: "int (length body) = 6 + int (length extra)" by (simp add: body_def)
  have conv: "s32 (8 + int (length body) - 8) = int (length body)" using fits len by (simp add: s32_id)
  have rx': "rx_stream (sc_rx c) = (enc32_be 0 @ enc32_be (8 + int (length body)) @ []) @ body @ q"
    using rx by (simp add: v0_reply_def v0_message_def body_def)
  have size: "0 \<le> 8 + int (length body)" "8 + int (length body) < 4294967296" "\<not> 8 + int (length body) < 14"
    using fits len by simp_all
  show ?thesis unfolding v0c_check_reply_def
    apply (rule recv_bind[OF rx' p], simp, use fits in simp)
    apply (simp only: prod.case simp_thms if_False)
    apply (rule get32_bind, assumption, simp, simp)
    apply (simp only: prod.case simp_thms if_False)
    apply (rule get32_bind, assumption, rule size, rule size)
    apply (simp only: prod.case size if_False conv)
    apply (rule recv_bind[where bs = body and q = q], simp, simp, rule refl, use fits len in \<open>simp add: only_read_def\<close>)
    apply (simp only: prod.case simp_thms if_False body_def)
    apply (rule get16_bind, assumption, simp, simp)
    apply (simp only: prod.case simp_thms if_False)
    apply (rule get16_bind, assumption, use vals in simp, use vals in simp)
    apply (cases "data = 1")
     apply (simp only: prod.case simp_thms if_False)
     apply (rule get16_bind, assumption, use vals in simp, use vals in simp)
     apply (auto intro: only_read_trans)
    done
qed

text \<open>What the server sends for an answer that starts at the beginning of its output block.\<close>

lemma v0s_allow_sends:
  assumes p: "s_p (sc_out_s c) = 0" and size: "30 \<le> s_size (sc_out_s c)" and room: "30 \<le> tx_room (sc_tx c)"
    and guid: "\<forall>g. guid = Some g \<longrightarrow> length g = 16"
  shows "wp (scp_v0s_allow_connection c d guid) (\<lambda>(st, c'). st = SCP_SERVER_STATE_OK
     \<and> sc_wire c' = sc_wire c @ v0_reply 3 1 d (field_bytes guid))"
proof -
  have len: "length (field_bytes guid) \<le> 16" "guid \<noteq> None \<Longrightarrow> length (field_bytes guid) = 16"
    using guid by (auto simp: field_bytes_def split: option.split)
  have glen: "g_strlen guid \<le> 16" using len(1) length_field_bytes[of guid] by linarith
  let ?hdr = "enc32_be 0 @ enc32_be (if guid = None then 14 else 30) @ enc16_be 3 @ enc16_be 1 @ enc16_be d"
  define c1 where "c1 = c\<lparr>sc_out_s := s_mark_end (emit (sc_out_s c) (?hdr @ field_bytes guid))\<rparr>"
  have msg: "?hdr @ field_bytes guid = v0_reply 3 1 d (field_bytes guid)"
    using len by (auto simp: v0_reply_def v0_message_def field_bytes_def)
  have c1: "scp_v0s_allow_connection c d guid = do { (r, c) \<leftarrow> scp_tcp_force_send c1 (s_end (sc_out_s c1));
      Some (if r \<noteq> 0 then SCP_SERVER_STATE_NETWORK_ERR else SCP_SERVER_STATE_OK, c) }"
    using p size guid
    by (cases guid) (auto simp: scp_v0s_allow_connection_def sc_put_def out_emit room_def c1_def field_bytes_def)
  obtain tx where "scp_tcp_force_send c1 (s_end (sc_out_s c1)) = Some (0, c1\<lparr>sc_tx := tx, sc_wire := sc_wire c1 @ ?hdr @ field_bytes guid\<rparr>)"
    using sc_send_message[of c1 "?hdr @ field_bytes guid"] p size room len(1) glen
    by (auto simp: c1_def s_mark_end_def bytes_at_write_bytes)
  then have "scp_tcp_force_send c1 (s_end (sc_out_s c1)) = Some (0, c1\<lparr>sc_tx := tx, sc_wire := sc_wire c1 @ v0_reply 3 1 d (field_bytes guid)\<rparr>)"
    unfolding msg .
  then show ?thesis unfolding c1 by (simp add: c1_def)
qed

lemma v0s_deny_sends:
  assumes p: "s_p (sc_out_s c) = 0" and size: "14 \<le> s_size (sc_out_s c)" and room: "14 \<le> tx_room (sc_tx c)"
  shows "wp (scp_v0s_deny_connection c) (\<lambda>(st, c'). st = SCP_SERVER_STATE_OK \<and> sc_wire c' = sc_wire c @ v0_reply 3 0 0 [])"
proof -
  define c1 where "c1 = c\<lparr>sc_out_s := s_mark_end (emit (sc_out_s c) (v0_reply 3 0 0 []))\<rparr>"
  have c1: "scp_v0s_deny_connection c = do { (r, c) \<leftarrow> scp_tcp_force_send c1 (s_end (sc_out_s c1));
      Some (if r \<noteq> 0 then SCP_SERVER_STATE_NETWORK_ERR else SCP_SERVER_STATE_OK, c) }"
    using p size by (simp add: scp_v0s_deny_connection_def sc_put_def out_emit room_def c1_def v0_reply_def v0_message_def)
  obtain tx where "scp_tcp_force_send c1 (s_end (sc_out_s c1)) = Some (0, c1\<lparr>sc_tx := tx, sc_wire := sc_wire c1 @ v0_reply 3 0 0 []\<rparr>)"
    using sc_send_message[of c1 "v0_reply 3 0 0 []"] p size room
    by (auto simp: c1_def s_mark_end_def bytes_at_write_bytes v0_reply_def v0_message_def)
  then show ?thesis unfolding c1 by (simp add: c1_def)
qed

text \<open>A request that declares more than the block holds: as soon as the peer delivers more than
  8196 bytes of it, the server stores past the end of its block.\<close>

lemma v0s_accept_body_overflow:
  assumes size: "upcoming c (enc32_be n @ [])" and n: "8204 < n" "n < 2147483648"
    and rx: "sc_rx c = [Rx_Bytes bs]" "8196 < length bs" and blk: "s_size (sc_in_s c) \<le> 8196"
  shows "v0s_accept_body version c = None"
proof -
  have "in_uint32_be (sc_in_s c) = Some (n, in_uint8s (sc_in_s c) 4)"
    using in_uint32_be_pending[of "sc_in_s c" n] size n by (simp add: upcoming_def u32_id)
  moreover have "scp_recv_loop (init_stream (in_uint8s (sc_in_s c) 4) 8196) 0 (s32 (n - 8)) [Rx_Bytes bs] = None"
    using n rx blk by (intro scp_recv_overflow) (simp_all add: s32_id)
  ultimately show ?thesis by (simp add: v0s_accept_body_def sc_get_def scp_tcp_force_recv_def rx)
qed

end
