(* ===== verification/Scp_V1.thy ===== *)
theory Scp_V1
  imports Scp_V0
begin

text \<open>
  Version 1 of the session control protocol: the server's side (\<open>libscp_v1s.c\<close>,
  \<open>libscp_v1s_mng.c\<close>), the client's side (\<open>libscp_v1c.c\<close>, \<open>libscp_v1c_mng.c\<close>) and the version
  neutral entry point \<open>scp_vXs_accept\<close> (\<open>libscp_vX.c\<close>), all in \<open>sesman/libscp\<close>. A packet is
  version, size, command set, command and a body. The two session lists are sent by code that
  takes the address fields \<^emph>\<open>out of\<close> the output stream instead of putting them into it; the model
  does the same.
\<close>

abbreviation (input) SCP_COMMAND_SET_DEFAULT :: int where "SCP_COMMAND_SET_DEFAULT \<equiv> 0"
abbreviation (input) SCP_COMMAND_SET_MANAGE :: int where "SCP_COMMAND_SET_MANAGE \<equiv> 1"
abbreviation (input) SCP_COMMAND_SET_RSR :: int where "SCP_COMMAND_SET_RSR \<equiv> 2"
abbreviation (input) SCP_CMD_CONN_ERROR :: int where "SCP_CMD_CONN_ERROR \<equiv> 0xFFFF"
abbreviation (input) SCP_CMD_MNG_LOGIN :: int where "SCP_CMD_MNG_LOGIN \<equiv> 1"
abbreviation (input) SCP_CMD_MNG_LOGIN_ALLOW :: int where "SCP_CMD_MNG_LOGIN_ALLOW \<equiv> 2"
abbreviation (input) SCP_CMD_MNG_LOGIN_DENY :: int where "SCP_CMD_MNG_LOGIN_DENY \<equiv> 3"
abbreviation (input) SCP_CMD_MNG_LIST_REQ :: int where "SCP_CMD_MNG_LIST_REQ \<equiv> 5"
abbreviation (input) SCP_CMD_MNG_LIST :: int where "SCP_CMD_MNG_LIST \<equiv> 6"
abbreviation (input) SCP_CMD_MNG_ACTION :: int where "SCP_CMD_MNG_ACTION \<equiv> 7"
abbreviation (input) SCP_SERVER_MAX_LIST_SIZE :: nat where "SCP_SERVER_MAX_LIST_SIZE \<equiv> 100"

subsection \<open>Packets\<close>

definition v1_put_header :: "scp_connection \<Rightarrow> int \<Rightarrow> int \<Rightarrow> int \<Rightarrow> scp_connection option" where
  "v1_put_header c len cmdset cmd = do {
     c \<leftarrow> sc_put c (\<lambda>o'. out_uint32_be o' 1);
     c \<leftarrow> sc_put c (\<lambda>o'. out_uint32_be o' len);
     c \<leftarrow> sc_put c (\<lambda>o'. out_uint16_be o' cmdset);
     sc_put c (\<lambda>o'. out_uint16_be o' cmd) }"

text \<open>\<open>sz = g_strlen(str)\<close> into an 8-bit variable, \<open>sz\<close> and the first \<open>sz\<close> bytes; and the
  reading of such a string into a buffer.\<close>

definition v1_put_string :: "scp_connection \<Rightarrow> byte list option \<Rightarrow> scp_connection option" where
  "v1_put_string c str = do {
     let sz = u8 (g_strlen str);
     c \<leftarrow> sc_put c (\<lambda>o'. out_uint8 o' sz);
     sc_put c (\<lambda>o'. out_uint8p o' (take (nat sz) (field_bytes str))) }"

definition v1_get_string :: "scp_connection \<Rightarrow> (byte list \<times> scp_connection) option" where
  "v1_get_string c = do {
     (sz, c) \<leftarrow> sc_get c in_uint8;
     (b, c) \<leftarrow> sc_get c (\<lambda>i. in_uint8a i sz);
     Some (b @ [0], c) }"

text \<open>Receiving a packet: header, version check, size check where the caller has one, and the
  rest of the packet into the rewound stream.\<close>

datatype packet_result = Pkt_Ok | Pkt_Network | Pkt_Version | Pkt_Size

definition v1_recv_packet :: "int \<Rightarrow> scp_connection \<Rightarrow> (packet_result \<times> scp_connection) option" where
  "v1_recv_packet min_size c = do {
     (r, c) \<leftarrow> scp_tcp_force_recv (sc_init_in c) 8;
     if r \<noteq> 0 then Some (Pkt_Network, c) else do {
     (version, c) \<leftarrow> sc_get c in_uint32_be;
     if version \<noteq> 1 then Some (Pkt_Version, c) else do {
     (size, c) \<leftarrow> sc_get c in_uint32_be;
     if size < min_size then Some (Pkt_Size, c) else do {
     (r, c) \<leftarrow> scp_tcp_force_recv (sc_init_in c) (s32 (size - 8));
     if r \<noteq> 0 then Some (Pkt_Network, c) else Some (Pkt_Ok, c) }}}}"

fun server_error :: "packet_result \<Rightarrow> scp_server_state" where
  "server_error Pkt_Ok = SCP_SERVER_STATE_OK"
| "server_error Pkt_Network = SCP_SERVER_STATE_NETWORK_ERR"
| "server_error Pkt_Version = SCP_SERVER_STATE_VERSION_ERR"
| "server_error Pkt_Size = SCP_SERVER_STATE_SIZE_ERR"

fun client_error :: "packet_result \<Rightarrow> scp_client_state" where
  "client_error Pkt_Ok = SCP_CLIENT_STATE_OK"
| "client_error Pkt_Network = SCP_CLIENT_STATE_NETWORK_ERR"
| "client_error Pkt_Version = SCP_CLIENT_STATE_VERSION_ERR"
| "client_error Pkt_Size = SCP_CLIENT_STATE_SIZE_ERR"

subsection \<open>Accepting a connection\<close>

definition v1_get_addr :: "scp_session \<Rightarrow> scp_connection \<Rightarrow> (scp_session \<times> scp_connection) option" where
  "v1_get_addr session c = do {
     (sz, c) \<leftarrow> sc_get c in_uint8;
     if sz = SCP_ADDRESS_TYPE_IPV4
     then do {
       (size, c) \<leftarrow> sc_get c in_uint32_be;
       (_, session) \<leftarrow> scp_session_set_addr session sz (enc32_le size);
       Some (session, c) }
     else if sz = SCP_ADDRESS_TYPE_IPV6
     then do {
       (buf, c) \<leftarrow> sc_get c (\<lambda>i. in_uint8a i 16);
       (_, session) \<leftarrow> scp_session_set_addr session sz buf;
       Some (session, c) }
     else Some (session, c) }"

definition scp_v1s_mng_accept :: "scp_connection \<Rightarrow> (scp_server_state \<times> scp_session option \<times> scp_connection) option" where
  "scp_v1s_mng_accept c = do {
     (cmd, c) \<leftarrow> sc_get c in_uint16_be;
     if cmd \<noteq> 1 then Some (SCP_SERVER_STATE_SEQUENCE_ERR, None, c) else do {
     let session = snd (scp_session_set_version scp_session_create 1);
     let session = snd (scp_session_set_type session SCP_SESSION_TYPE_MANAGE);
     (buf, c) \<leftarrow> v1_get_string c;
     let (r, session) = scp_session_set_username session (Some buf);
     if r \<noteq> 0 then Some (SCP_SERVER_STATE_INTERNAL_ERR, None, c) else do {
     (buf, c) \<leftarrow> v1_get_string c;
     let (r, session) = scp_session_set_password session (Some buf);
     if r \<noteq> 0 then Some (SCP_SERVER_STATE_INTERNAL_ERR, None, c) else do {
     (session, c) \<leftarrow> v1_get_addr session c;
     (buf, c) \<leftarrow> v1_get_string c;
     let (r, session) = scp_session_set_hostname session (Some buf);
     if r \<noteq> 0 then Some (SCP_SERVER_STATE_INTERNAL_ERR, None, c)
     else Some (SCP_SERVER_STATE_START_MANAGE, Some session, c) }}}}"

definition v1s_read_login :: "scp_connection \<Rightarrow> (scp_server_state \<times> scp_session option \<times> scp_connection) option" where
  "v1s_read_login c = do {
     (cmd, c) \<leftarrow> sc_get c in_uint16_be;
     if cmd \<noteq> 1 then Some (SCP_SERVER_STATE_SEQUENCE_ERR, None, c) else do {
     let session = snd (scp_session_set_version scp_session_create 1);
     (sz, c) \<leftarrow> sc_get c in_uint8;
     if sz \<noteq> SCP_SESSION_TYPE_XVNC \<and> sz \<noteq> SCP_SESSION_TYPE_XRDP then Some (SCP_SERVER_STATE_SESSION_TYPE_ERR, None, c) else do {
     let session = snd (scp_session_set_type session sz);
     (cmd, c) \<leftarrow> sc_get c in_uint16_be;
     let session = snd (scp_session_set_height session cmd);
     (cmd, c) \<leftarrow> sc_get c in_uint16_be;
     let session = snd (scp_session_set_width session cmd);
     (sz, c) \<leftarrow> sc_get c in_uint8;
     let (r, session) = scp_session_set_bpp session sz;
     if r \<noteq> 0 then Some (SCP_SERVER_STATE_INTERNAL_ERR, None, c) else do {
     (sz, c) \<leftarrow> sc_get c in_uint8;
     let session = snd (scp_session_set_rsr session sz);
     (buf, c) \<leftarrow> sc_get c (\<lambda>i. in_uint8a i 17);
     let session = snd (scp_session_set_locale session (Some (buf @ [0])));
     (session, c) \<leftarrow> v1_get_addr session c;
     (buf, c) \<leftarrow> v1_get_string c;
     let (r, session) = scp_session_set_hostname session (Some buf);
     if r \<noteq> 0 then Some (SCP_SERVER_STATE_INTERNAL_ERR, None, c) else do {
     (buf, c) \<leftarrow> v1_get_string c;
     let (r, session) = scp_session_set_username session (Some buf);
     if r \<noteq> 0 then Some (SCP_SERVER_STATE_INTERNAL_ERR, None, c) else do {
     (buf, c) \<leftarrow> v1_get_string c;
     let (r, session) = scp_session_set_password session (Some buf);
     if r \<noteq> 0 then Some (SCP_SERVER_STATE_INTERNAL_ERR, None, c)
     else Some (SCP_SERVER_STATE_OK, Some session, c) }}}}}}"

definition v1s_accept_body :: "scp_connection \<Rightarrow> (scp_server_state \<times> scp_session option \<times> scp_connection) option" where
  "v1s_accept_body c = do {
     (size, c) \<leftarrow> sc_get c in_uint32_be;
     if size < 12 then Some (SCP_SERVER_STATE_SIZE_ERR, None, c) else do {
     (r, c) \<leftarrow> scp_tcp_force_recv (sc_init_in c) (s32 (size - 8));
     if r \<noteq> 0 then Some (SCP_SERVER_STATE_NETWORK_ERR, None, c) else do {
     (cmdset, c) \<leftarrow> sc_get c in_uint16_be;
     if cmdset = SCP_COMMAND_SET_MANAGE then scp_v1s_mng_accept c
     else if cmdset = SCP_COMMAND_SET_RSR then Some (SCP_SERVER_STATE_SEQUENCE_ERR, None, c)
     else v1s_read_login c }}}"

definition scp_v1s_accept ::
  "scp_connection \<Rightarrow> bool \<Rightarrow> (scp_server_state \<times> scp_session option \<times> scp_connection) option" where
  "scp_v1s_accept c skipVchk =
     (if \<not> skipVchk
      then do {
        (r, c) \<leftarrow> scp_tcp_force_recv c 8;
        if r = 0
        then do {
          (version, c) \<leftarrow> sc_get c in_uint32_be;
          if version \<noteq> 1 then Some (SCP_SERVER_STATE_VERSION_ERR, None, c) else v1s_accept_body c }
        else Some (SCP_SERVER_STATE_NETWORK_ERR, None, c) }
      else v1s_accept_body c)"

definition scp_vXs_accept :: "scp_connection \<Rightarrow> (scp_server_state \<times> scp_session option \<times> scp_connection) option" where
  "scp_vXs_accept c = do {
     (r, c) \<leftarrow> scp_tcp_force_recv c 8;
     if r \<noteq> 0 then Some (SCP_SERVER_STATE_NETWORK_ERR, None, c) else do {
     (version, c) \<leftarrow> sc_get c in_uint32_be;
     if version = 0 then scp_v0s_accept c True
     else if version = 1 then scp_v1s_accept c True
     else Some (SCP_SERVER_STATE_VERSION_ERR, None, c) }}"

subsection \<open>The server's messages\<close>

text \<open>A message that carries a reason: at most 65535 bytes of it, its length first.\<close>

definition v1_put_reason :: "scp_connection \<Rightarrow> int \<Rightarrow> int \<Rightarrow> byte list \<Rightarrow> (int \<times> scp_connection) option" where
  "v1_put_reason c cmdset cmd reason = do {
     let rlen = min 65535 (int (length reason));
     c \<leftarrow> v1_put_header (sc_init_out c) (rlen + 14) cmdset cmd;
     c \<leftarrow> sc_put c (\<lambda>o'. out_uint16_be o' rlen);
     c \<leftarrow> sc_put c (\<lambda>o'. out_uint8p o' (take (nat rlen) reason));
     scp_tcp_force_send c (rlen + 14) }"

definition scp_v1s_deny_connection :: "scp_connection \<Rightarrow> byte list \<Rightarrow> (scp_server_state \<times> scp_connection) option" where
  "scp_v1s_deny_connection c reason = do {
     (r, c) \<leftarrow> v1_put_reason c SCP_COMMAND_SET_DEFAULT 2 reason;
     Some (if r \<noteq> 0 then SCP_SERVER_STATE_NETWORK_ERR else SCP_SERVER_STATE_END, c) }"

definition scp_v1s_mng_deny_connection :: "scp_connection \<Rightarrow> byte list \<Rightarrow> (scp_server_state \<times> scp_connection) option" where
  "scp_v1s_mng_deny_connection c reason = do {
     (r, c) \<leftarrow> v1_put_reason c SCP_COMMAND_SET_MANAGE SCP_CMD_MNG_LOGIN_DENY reason;
     Some (if r \<noteq> 0 then SCP_SERVER_STATE_NETWORK_ERR else SCP_SERVER_STATE_END, c) }"

definition scp_v1s_request_password ::
  "scp_connection \<Rightarrow> scp_session \<Rightarrow> byte list \<Rightarrow> (scp_server_state \<times> scp_session \<times> scp_connection) option" where
  "scp_v1s_request_password c s reason = do {
     (r, c) \<leftarrow> v1_put_reason (sc_init_in c) SCP_COMMAND_SET_DEFAULT 3 reason;
     if r \<noteq> 0 then Some (SCP_SERVER_STATE_NETWORK_ERR, s, c) else do {
     (e, c) \<leftarrow> v1_recv_packet 12 c;
     if e \<noteq> Pkt_Ok then Some (server_error e, s, c) else do {
     (cmdset, c) \<leftarrow> sc_get c in_uint16_be;
     if cmdset \<noteq> SCP_COMMAND_SET_DEFAULT then Some (SCP_SERVER_STATE_SEQUENCE_ERR, s, c) else do {
     (cmd, c) \<leftarrow> sc_get c in_uint16_be;
     if cmd \<noteq> 4 then Some (SCP_SERVER_STATE_SEQUENCE_ERR, s, c) else do {
     (buf, c) \<leftarrow> v1_get_string c;
     let (r, s) = scp_session_set_username s (Some buf);
     if r \<noteq> 0 then Some (SCP_SERVER_STATE_INTERNAL_ERR, s, c) else do {
     (buf, c) \<leftarrow> v1_get_string c;
     let (r, s) = scp_session_set_password s (Some buf);
     Some (if r \<noteq> 0 then SCP_SERVER_STATE_INTERNAL_ERR else SCP_SERVER_STATE_OK, s, c) }}}}}}"

definition scp_v1s_request_pwd_change :: "scp_connection \<Rightarrow> scp_server_state \<times> scp_connection" where
  "scp_v1s_request_pwd_change c = (SCP_SERVER_STATE_INTERNAL_ERR, c)"

definition scp_v1s_pwd_change_error :: "scp_connection \<Rightarrow> scp_server_state \<times> scp_connection" where
  "scp_v1s_pwd_change_error c = (SCP_SERVER_STATE_INTERNAL_ERR, c)"

definition scp_v1s_connect_new_session :: "scp_connection \<Rightarrow> int \<Rightarrow> (scp_server_state \<times> scp_connection) option" where
  "scp_v1s_connect_new_session c d = do {
     c \<leftarrow> v1_put_header (sc_init_out c) 14 SCP_COMMAND_SET_DEFAULT 30;
     c \<leftarrow> sc_put c (\<lambda>o'. out_uint16_be o' d);
     (r, c) \<leftarrow> scp_tcp_force_send c 14;
     Some (if r \<noteq> 0 then SCP_SERVER_STATE_NETWORK_ERR else SCP_SERVER_STATE_OK, c) }"

text \<open>The message's size counts the error text, which is not written.\<close>

definition scp_v1s_connection_error :: "scp_connection \<Rightarrow> byte list \<Rightarrow> (scp_server_state \<times> scp_connection) option" where
  "scp_v1s_connection_error c error = do {
     let len = u16 (int (length error));
     c \<leftarrow> v1_put_header (sc_init_out c) (12 + len) SCP_COMMAND_SET_DEFAULT SCP_CMD_CONN_ERROR;
     (r, c) \<leftarrow> scp_tcp_force_send c (12 + len);
     Some (if r \<noteq> 0 then SCP_SERVER_STATE_NETWORK_ERR else SCP_SERVER_STATE_END, c) }"

definition scp_v1s_reconnect_session :: "scp_connection \<Rightarrow> int \<Rightarrow> (scp_server_state \<times> scp_connection) option" where
  "scp_v1s_reconnect_session c d = do {
     c \<leftarrow> v1_put_header (sc_init_out c) 14 SCP_COMMAND_SET_DEFAULT 46;
     c \<leftarrow> sc_put c (\<lambda>o'. out_uint16_be o' d);
     (r, c) \<leftarrow> scp_tcp_force_send c 14;
     Some (if r \<noteq> 0 then SCP_SERVER_STATE_NETWORK_ERR else SCP_SERVER_STATE_OK, c) }"

subsection \<open>Sending a session list\<close>

text \<open>One session: 20 bytes are written; then the address is \<^emph>\<open>read from\<close> the output stream into
  the caller's entry, which moves the position. The last component is what is added to the size.\<close>

definition v1_put_entry :: "scp_disconnected_session \<Rightarrow> scp_connection \<Rightarrow> scp_connection option" where
  "v1_put_entry cds c = do {
     c \<leftarrow> sc_put c (\<lambda>o'. out_uint32_be o' (ds_SID cds));
     c \<leftarrow> sc_put c (\<lambda>o'. out_uint8 o' (ds_type cds));
     c \<leftarrow> sc_put c (\<lambda>o'. out_uint16_be o' (ds_height cds));
     c \<leftarrow> sc_put c (\<lambda>o'. out_uint16_be o' (ds_width cds));
     c \<leftarrow> sc_put c (\<lambda>o'. out_uint8 o' (ds_bpp cds));
     c \<leftarrow> sc_put c (\<lambda>o'. out_uint8 o' (ds_idle_days cds));
     c \<leftarrow> sc_put c (\<lambda>o'. out_uint8 o' (ds_idle_hours cds));
     c \<leftarrow> sc_put c (\<lambda>o'. out_uint8 o' (ds_idle_minutes cds));
     c \<leftarrow> sc_put c (\<lambda>o'. out_uint16_be o' (ds_conn_year cds));
     c \<leftarrow> sc_put c (\<lambda>o'. out_uint8 o' (ds_conn_month cds));
     c \<leftarrow> sc_put c (\<lambda>o'. out_uint8 o' (ds_conn_day cds));
     c \<leftarrow> sc_put c (\<lambda>o'. out_uint8 o' (ds_conn_hour cds));
     c \<leftarrow> sc_put c (\<lambda>o'. out_uint8 o' (ds_conn_minute cds));
     sc_put c (\<lambda>o'. out_uint8 o' (ds_addr_type cds)) }"

definition v1_put_session ::
  "scp_connection \<Rightarrow> scp_disconnected_session \<Rightarrow> (scp_disconnected_session \<times> scp_connection \<times> int) option" where
  "v1_put_session c cds = do {
     c \<leftarrow> v1_put_entry cds c;
     if ds_addr_type cds = SCP_ADDRESS_TYPE_IPV4
     then do {
       (v, s) \<leftarrow> in_uint32_be (sc_out_s c);
       Some (cds\<lparr>ds_ipv4addr := v\<rparr>, c\<lparr>sc_out_s := s\<rparr>, 24) }
     else if ds_addr_type cds = SCP_ADDRESS_TYPE_IPV6
     then do {
       (b, s) \<leftarrow> in_uint8a (sc_out_s c) 16;
       Some (cds\<lparr>ds_ipv6addr := b\<rparr>, c\<lparr>sc_out_s := s\<rparr>, 36) }
     else Some (cds, c, 20) }"

text \<open>\<open>k\<close> sessions from position \<open>pos\<close> of the caller's array.\<close>

fun v1_put_sessions ::
  "nat \<Rightarrow> nat \<Rightarrow> scp_disconnected_session list \<Rightarrow> scp_connection \<Rightarrow> int
     \<Rightarrow> (scp_disconnected_session list \<times> scp_connection \<times> int) option" where
  "v1_put_sessions pos 0 ds c len = Some (ds, c, len)"
| "v1_put_sessions pos (Suc k) ds c len =
     (if length ds \<le> pos then None
      else do {
        (cds, c, n) \<leftarrow> v1_put_session c (ds ! pos);
        v1_put_sessions (Suc pos) k (ds[pos := cds]) c (len + n) })"

definition v1_put_list_packet ::
  "int \<Rightarrow> int \<Rightarrow> nat \<Rightarrow> nat \<Rightarrow> scp_disconnected_session list \<Rightarrow> scp_connection
     \<Rightarrow> (int \<times> scp_disconnected_session list \<times> scp_connection) option" where
  "v1_put_list_packet cmdset cmd sescnt idx ds c = do {
     let c = sc_init_out c;
     let c = c\<lparr>sc_out_s := s_push_layer (sc_out_s c) channel_hdr_update 8\<rparr>;
     c \<leftarrow> sc_put c (\<lambda>o'. out_uint16_be o' cmdset);
     c \<leftarrow> sc_put c (\<lambda>o'. out_uint16_be o' cmd);
     c \<leftarrow> sc_put c (\<lambda>o'. out_uint32_be o' (int sescnt));
     let last = (sescnt \<le> (idx + 1) * SCP_SERVER_MAX_LIST_SIZE);
     let pidx = (if last then sescnt - idx * SCP_SERVER_MAX_LIST_SIZE else SCP_SERVER_MAX_LIST_SIZE);
     c \<leftarrow> sc_put c (\<lambda>o'. out_uint8 o' (if last then 0 else 1));
     c \<leftarrow> sc_put c (\<lambda>o'. out_uint8 o' (int pidx));
     (ds, c, len) \<leftarrow> v1_put_sessions (idx * SCP_SERVER_MAX_LIST_SIZE) pidx ds c 18;
     let c = c\<lparr>sc_out_s := s_pop_layer (sc_out_s c) channel_hdr\<rparr>;
     c \<leftarrow> sc_put c (\<lambda>o'. out_uint32_be o' 1);
     c \<leftarrow> sc_put c (\<lambda>o'. out_uint32_be o' len);
     (r, c) \<leftarrow> scp_tcp_force_send c len;
     Some (r, ds, c) }"

fun v1_put_list_packets ::
  "int \<Rightarrow> int \<Rightarrow> nat \<Rightarrow> nat \<Rightarrow> nat \<Rightarrow> scp_disconnected_session list \<Rightarrow> scp_connection
     \<Rightarrow> (int \<times> scp_disconnected_session list \<times> scp_connection) option" where
  "v1_put_list_packets cmdset cmd sescnt idx 0 ds c = Some (0, ds, c)"
| "v1_put_list_packets cmdset cmd sescnt idx (Suc k) ds c = do {
     (r, ds, c) \<leftarrow> v1_put_list_packet cmdset cmd sescnt idx ds c;
     if r \<noteq> 0 then Some (r, ds, c) else v1_put_list_packets cmdset cmd sescnt (Suc idx) k ds c }"

definition list_packet_count :: "nat \<Rightarrow> nat" where
  "list_packet_count sescnt = sescnt div SCP_SERVER_MAX_LIST_SIZE + (if sescnt mod SCP_SERVER_MAX_LIST_SIZE \<noteq> 0 then 1 else 0)"

text \<open>What \<open>scp_v1s_list_sessions\<close> makes of the client's choice, and the whole exchange. The
  selected session identifier is stored before it is checked.\<close>

definition v1s_list_choice ::
  "nat \<Rightarrow> scp_disconnected_session list \<Rightarrow> scp_connection
     \<Rightarrow> (scp_server_state \<times> int option \<times> scp_disconnected_session list \<times> scp_connection) option" where
  "v1s_list_choice sescnt ds c = do {
     (e, c) \<leftarrow> v1_recv_packet 12 c;
     if e \<noteq> Pkt_Ok then Some (server_error e, None, ds, c) else do {
     (cmd, c) \<leftarrow> sc_get c in_uint16_be;
     if cmd \<noteq> SCP_COMMAND_SET_DEFAULT then Some (SCP_SERVER_STATE_SEQUENCE_ERR, None, ds, c) else do {
     (cmd, c) \<leftarrow> sc_get c in_uint16_be;
     if cmd = 43
     then do {
       (sid, c) \<leftarrow> sc_get c in_uint32_be;
       Some (if list_ex (\<lambda>d. ds_SID d = sid) (take sescnt ds) then SCP_SERVER_STATE_OK else SCP_SERVER_STATE_INTERNAL_ERR,
         Some sid, ds, c) }
     else if cmd = 44 then Some (SCP_SERVER_STATE_SELECTION_CANCEL, None, ds, c)
     else Some (SCP_SERVER_STATE_SEQUENCE_ERR, None, ds, c) }}}"

definition scp_v1s_list_sessions ::
  "scp_connection \<Rightarrow> nat \<Rightarrow> scp_disconnected_session list
     \<Rightarrow> (scp_server_state \<times> int option \<times> scp_disconnected_session list \<times> scp_connection) option" where
  "scp_v1s_list_sessions c sescnt ds = do {
     c \<leftarrow> v1_put_header (sc_init_out c) 12 SCP_COMMAND_SET_DEFAULT 40;
     (r, c) \<leftarrow> scp_tcp_force_send c 12;
     if r \<noteq> 0 then Some (SCP_SERVER_STATE_NETWORK_ERR, None, ds, c) else do {
     (e, c) \<leftarrow> v1_recv_packet 12 c;
     if e \<noteq> Pkt_Ok then Some (server_error e, None, ds, c) else do {
     (cmd, c) \<leftarrow> sc_get c in_uint16_be;
     if cmd \<noteq> SCP_COMMAND_SET_DEFAULT then Some (SCP_SERVER_STATE_SEQUENCE_ERR, None, ds, c) else do {
     (cmd, c) \<leftarrow> sc_get c in_uint16_be;
     if cmd \<noteq> 41 then Some (SCP_SERVER_STATE_SEQUENCE_ERR, None, ds, c) else do {
     (r, ds, c) \<leftarrow> v1_put_list_packets SCP_COMMAND_SET_DEFAULT 42 sescnt 0 (list_packet_count sescnt) ds c;
     if r \<noteq> 0 then Some (SCP_SERVER_STATE_NETWORK_ERR, None, ds, c) else v1s_list_choice sescnt ds c }}}}}"

subsection \<open>The server's side of a management session\<close>

definition scp_v1s_mng_check_response :: "scp_connection \<Rightarrow> (scp_server_state \<times> scp_connection) option" where
  "scp_v1s_mng_check_response c = do {
     (e, c) \<leftarrow> v1_recv_packet 0 c;
     if e \<noteq> Pkt_Ok then Some (server_error e, c) else do {
     (cmd, c) \<leftarrow> sc_get c in_uint16_be;
     if cmd \<noteq> SCP_COMMAND_SET_MANAGE then Some (SCP_SERVER_STATE_SEQUENCE_ERR, c) else do {
     (cmd, c) \<leftarrow> sc_get c in_uint16_be;
     Some (if cmd = SCP_CMD_MNG_LIST_REQ then SCP_SERVER_STATE_MNG_LISTREQ
       else if cmd = SCP_CMD_MNG_ACTION then SCP_SERVER_STATE_MNG_ACTION
       else SCP_SERVER_STATE_SEQUENCE_ERR, c) }}}"

definition scp_v1s_mng_allow_connection :: "scp_connection \<Rightarrow> (scp_server_state \<times> scp_connection) option" where
  "scp_v1s_mng_allow_connection c = do {
     c \<leftarrow> v1_put_header (sc_init_out c) 12 SCP_COMMAND_SET_MANAGE SCP_CMD_MNG_LOGIN_ALLOW;
     (r, c) \<leftarrow> scp_tcp_force_send c 12;
     if r \<noteq> 0 then Some (SCP_SERVER_STATE_NETWORK_ERR, c) else scp_v1s_mng_check_response c }"

definition scp_v1s_mng_list_sessions ::
  "scp_connection \<Rightarrow> nat \<Rightarrow> scp_disconnected_session list
     \<Rightarrow> (scp_server_state \<times> scp_disconnected_session list \<times> scp_connection) option" where
  "scp_v1s_mng_list_sessions c sescnt ds = do {
     let pktcnt = (if sescnt = 0 then 1 else list_packet_count sescnt);
     (r, ds, c) \<leftarrow> v1_put_list_packets SCP_COMMAND_SET_MANAGE SCP_CMD_MNG_LIST sescnt 0 pktcnt ds c;
     if r \<noteq> 0 then Some (SCP_SERVER_STATE_NETWORK_ERR, ds, c) else do {
     (st, c) \<leftarrow> scp_v1s_mng_check_response c;
     Some (st, ds, c) }}"

end
