(* ===== verification/Scp_V1c.thy ===== *)
theory Scp_V1c
  imports Scp_V1
begin

text \<open>
  The client's side of version 1, \<open>libscp_v1c.c\<close> and \<open>libscp_v1c_mng.c\<close>. A call returns its state,
  the session it was given and the connection. The array of disconnected sessions that
  \<open>scp_v1c_get_session_list\<close> allocates is a function from positions to entries with a capacity;
  \<open>junk\<close> is what the fresh block holds. Storing at or beyond the capacity is a fault.
\<close>

subsection \<open>Requests and responses\<close>

definition v1c_get_errstr :: "scp_session \<Rightarrow> scp_connection \<Rightarrow> (scp_session \<times> scp_connection) option" where
  "v1c_get_errstr s c = do {
     (dim, c) \<leftarrow> sc_get c in_uint16_be;
     (b, c) \<leftarrow> sc_get c (\<lambda>i. in_uint8a i dim);
     Some (s\<lparr>ss_errstr := Some (c_str (b @ [0]))\<rparr>, c) }"

definition scp_v1c_check_response ::
  "scp_connection \<Rightarrow> scp_session \<Rightarrow> (scp_client_state \<times> scp_session \<times> scp_connection) option" where
  "scp_v1c_check_response c s = do {
     (e, c) \<leftarrow> v1_recv_packet 0 c;
     if e \<noteq> Pkt_Ok then Some (client_error e, s, c) else do {
     (cmd, c) \<leftarrow> sc_get c in_uint16_be;
     if cmd \<noteq> SCP_COMMAND_SET_DEFAULT then Some (SCP_CLIENT_STATE_SEQUENCE_ERR, s, c) else do {
     (cmd, c) \<leftarrow> sc_get c in_uint16_be;
     if cmd = 2 then do { (s, c) \<leftarrow> v1c_get_errstr s c; Some (SCP_CLIENT_STATE_CONNECTION_DENIED, s, c) }
     else if cmd = 3 then do { (s, c) \<leftarrow> v1c_get_errstr s c; Some (SCP_CLIENT_STATE_RESEND_CREDENTIALS, s, c) }
     else if cmd = 20 then do { (s, c) \<leftarrow> v1c_get_errstr s c; Some (SCP_CLIENT_STATE_PWD_CHANGE_REQ, s, c) }
     else if cmd = 30 then do {
       (d, c) \<leftarrow> sc_get c in_uint16_be;
       Some (SCP_CLIENT_STATE_OK, s\<lparr>ss_display := d\<rparr>, c) }
     else if cmd = 40 then Some (SCP_CLIENT_STATE_SESSION_LIST, s, c)
     else Some (SCP_CLIENT_STATE_SEQUENCE_ERR, s, c) }}}"

text \<open>The size of the address field of a login: 4 bytes for IPv4, 16 for everything else.\<close>

definition v1_addr_size :: "scp_session \<Rightarrow> int" where
  "v1_addr_size s = (if ss_addr_type s = SCP_ADDRESS_TYPE_IPV4 then 4 else 16)"

text \<open>The body of a login.\<close>

definition v1c_put_login :: "scp_session \<Rightarrow> scp_connection \<Rightarrow> scp_connection option" where
  "v1c_put_login s c = do {
     c \<leftarrow> sc_put c (\<lambda>o'. out_uint8 o' (ss_type s));
     c \<leftarrow> sc_put c (\<lambda>o'. out_uint16_be o' (ss_height s));
     c \<leftarrow> sc_put c (\<lambda>o'. out_uint16_be o' (ss_width s));
     c \<leftarrow> sc_put c (\<lambda>o'. out_uint8 o' (ss_bpp s));
     c \<leftarrow> sc_put c (\<lambda>o'. out_uint8 o' (ss_rsr s));
     c \<leftarrow> sc_put c (\<lambda>o'. out_uint8p o' (take 17 (ss_locale s)));
     c \<leftarrow> sc_put c (\<lambda>o'. out_uint8 o' (ss_addr_type s));
     c \<leftarrow> (if ss_addr_type s = SCP_ADDRESS_TYPE_IPV4 then sc_put c (\<lambda>o'. out_uint32_be o' (ss_ipv4addr s))
        else if ss_addr_type s = SCP_ADDRESS_TYPE_IPV6 then sc_put c (\<lambda>o'. out_uint8p o' (take 16 (ss_ipv6addr s)))
        else Some c);
     c \<leftarrow> v1_put_string c (ss_hostname s);
     c \<leftarrow> v1_put_string c (ss_username s);
     v1_put_string c (ss_password s) }"

definition scp_v1c_connect ::
  "scp_connection \<Rightarrow> scp_session \<Rightarrow> (scp_client_state \<times> scp_session \<times> scp_connection) option" where
  "scp_v1c_connect c s = do {
     let c = sc_init_in (sc_init_out c);
     let size = u32 (40 + g_strlen (ss_hostname s) + g_strlen (ss_username s) + g_strlen (ss_password s) + v1_addr_size s);
     c \<leftarrow> v1_put_header c size SCP_COMMAND_SET_DEFAULT 1;
     c \<leftarrow> v1c_put_login s c;
     (r, c) \<leftarrow> scp_tcp_force_send c (s32 size);
     if r \<noteq> 0 then Some (SCP_CLIENT_STATE_NETWORK_ERR, s, c) else scp_v1c_check_response c s }"

definition scp_v1c_resend_credentials ::
  "scp_connection \<Rightarrow> scp_session \<Rightarrow> (scp_client_state \<times> scp_session \<times> scp_connection) option" where
  "scp_v1c_resend_credentials c s = do {
     let c = sc_init_in (sc_init_out c);
     let size = u32 (14 + g_strlen (ss_username s) + g_strlen (ss_password s));
     c \<leftarrow> v1_put_header c size SCP_COMMAND_SET_DEFAULT 4;
     c \<leftarrow> v1_put_string c (ss_username s);
     c \<leftarrow> v1_put_string c (ss_password s);
     (r, c) \<leftarrow> scp_tcp_force_send c (s32 size);
     if r \<noteq> 0 then Some (SCP_CLIENT_STATE_NETWORK_ERR, s, c) else scp_v1c_check_response c s }"

definition scp_v1c_select_session ::
  "scp_connection \<Rightarrow> scp_session \<Rightarrow> int \<Rightarrow> (scp_client_state \<times> scp_session \<times> scp_connection) option" where
  "scp_v1c_select_session c s sid = do {
     c \<leftarrow> v1_put_header (sc_init_out c) 16 SCP_COMMAND_SET_DEFAULT 43;
     c \<leftarrow> sc_put c (\<lambda>o'. out_uint32_be o' sid);
     (r, c) \<leftarrow> scp_tcp_force_send c 16;
     if r \<noteq> 0 then Some (SCP_CLIENT_STATE_NETWORK_ERR, s, c) else do {
     (e, c) \<leftarrow> v1_recv_packet 12 c;
     if e \<noteq> Pkt_Ok then Some (client_error e, s, c) else do {
     (cmd, c) \<leftarrow> sc_get c in_uint16_be;
     if cmd \<noteq> SCP_COMMAND_SET_DEFAULT then Some (SCP_CLIENT_STATE_SEQUENCE_ERR, s, c) else do {
     (cmd, c) \<leftarrow> sc_get c in_uint16_be;
     if cmd \<noteq> 46 then Some (SCP_CLIENT_STATE_SEQUENCE_ERR, s, c) else do {
     (d, c) \<leftarrow> sc_get c in_uint16_be;
     Some (SCP_CLIENT_STATE_OK, s\<lparr>ss_display := d\<rparr>, c) }}}}}"

definition scp_v1c_select_session_cancel :: "scp_connection \<Rightarrow> (scp_client_state \<times> scp_connection) option" where
  "scp_v1c_select_session_cancel c = do {
     c \<leftarrow> v1_put_header (sc_init_out c) 12 SCP_COMMAND_SET_DEFAULT 44;
     (r, c) \<leftarrow> scp_tcp_force_send c 12;
     Some (if r \<noteq> 0 then SCP_CLIENT_STATE_NETWORK_ERR else SCP_CLIENT_STATE_END, c) }"

subsection \<open>Fetching the session list\<close>

text \<open>One entry of a list packet, stored over what the array holds there.\<close>

definition v1c_get_entry ::
  "scp_disconnected_session \<Rightarrow> scp_connection \<Rightarrow> (scp_disconnected_session \<times> scp_connection) option" where
  "v1c_get_entry d c = do {
     (v, c) \<leftarrow> sc_get c in_uint32_be; let d = d\<lparr>ds_SID := v\<rparr>;
     (v, c) \<leftarrow> sc_get c in_uint8; let d = d\<lparr>ds_type := v\<rparr>;
     (v, c) \<leftarrow> sc_get c in_uint16_be; let d = d\<lparr>ds_height := v\<rparr>;
     (v, c) \<leftarrow> sc_get c in_uint16_be; let d = d\<lparr>ds_width := v\<rparr>;
     (v, c) \<leftarrow> sc_get c in_uint8; let d = d\<lparr>ds_bpp := v\<rparr>;
     (v, c) \<leftarrow> sc_get c in_uint8; let d = d\<lparr>ds_idle_days := v\<rparr>;
     (v, c) \<leftarrow> sc_get c in_uint8; let d = d\<lparr>ds_idle_hours := v\<rparr>;
     (v, c) \<leftarrow> sc_get c in_uint8; let d = d\<lparr>ds_idle_minutes := v\<rparr>;
     (v, c) \<leftarrow> sc_get c in_uint16_be; let d = d\<lparr>ds_conn_year := v\<rparr>;
     (v, c) \<leftarrow> sc_get c in_uint8; let d = d\<lparr>ds_conn_month := v\<rparr>;
     (v, c) \<leftarrow> sc_get c in_uint8; let d = d\<lparr>ds_conn_day := v\<rparr>;
     (v, c) \<leftarrow> sc_get c in_uint8; let d = d\<lparr>ds_conn_hour := v\<rparr>;
     (v, c) \<leftarrow> sc_get c in_uint8; let d = d\<lparr>ds_conn_minute := v\<rparr>;
     (v, c) \<leftarrow> sc_get c in_uint8; let d = d\<lparr>ds_addr_type := v\<rparr>;
     if v = SCP_ADDRESS_TYPE_IPV4 then do { (a, c) \<leftarrow> sc_get c in_uint32_be; Some (d\<lparr>ds_ipv4addr := a\<rparr>, c) }
     else if v = SCP_ADDRESS_TYPE_IPV6 then do { (b, c) \<leftarrow> sc_get c (\<lambda>i. in_uint8a i 16); Some (d\<lparr>ds_ipv6addr := b\<rparr>, c) }
     else Some (d, c) }"

record ses_array =
  sa_cap :: int
  sa_entry :: "nat \<Rightarrow> scp_disconnected_session"

fun v1c_get_entries :: "nat \<Rightarrow> nat \<Rightarrow> ses_array \<Rightarrow> scp_connection \<Rightarrow> (nat \<times> ses_array \<times> scp_connection) option" where
  "v1c_get_entries 0 totalcnt ds c = Some (totalcnt, ds, c)"
| "v1c_get_entries (Suc k) totalcnt ds c =
     (if sa_cap ds \<le> int totalcnt then None
      else do {
        (d, c) \<leftarrow> v1c_get_entry (sa_entry ds totalcnt) c;
        v1c_get_entries k (Suc totalcnt) (ds\<lparr>sa_entry := (sa_entry ds)(totalcnt := d)\<rparr>) c })"

record list_state =
  ls_conn :: scp_connection
  ls_first :: bool
  ls_sescnt :: int
  ls_total :: nat
  ls_ds :: ses_array

text \<open>One turn of the \<open>do\<close> loop: the loop ends with a state and the list, or goes on. The first
  packet allocates the array. The management variant differs in the command set, in the command,
  and in returning at once (with a null list) when the server has no session.\<close>

datatype list_step =
    List_Done scp_client_state "(int \<times> ses_array option) option" scp_connection
  | List_More list_state

definition v1c_list_step :: "bool \<Rightarrow> (nat \<Rightarrow> scp_disconnected_session) \<Rightarrow> list_state \<Rightarrow> list_step option" where
  "v1c_list_step mng junk st = do {
     (e, c) \<leftarrow> v1_recv_packet 12 (ls_conn st);
     if e \<noteq> Pkt_Ok then Some (List_Done (client_error e) None c) else do {
     (cmd, c) \<leftarrow> sc_get c in_uint16_be;
     if cmd \<noteq> (if mng then SCP_COMMAND_SET_MANAGE else SCP_COMMAND_SET_DEFAULT)
     then Some (List_Done SCP_CLIENT_STATE_SEQUENCE_ERR None c) else do {
     (cmd, c) \<leftarrow> sc_get c in_uint16_be;
     if cmd \<noteq> (if mng then SCP_CMD_MNG_LIST else 42)
     then Some (List_Done SCP_CLIENT_STATE_SEQUENCE_ERR None c) else do {
     (cnt, c) \<leftarrow> sc_get c in_uint32_be;
     let sescnt = (if ls_first st then cnt else ls_sescnt st);
     if ls_first st \<and> mng \<and> cnt = 0 then Some (List_Done SCP_CLIENT_STATE_LIST_OK (Some (0, None)) c)
     else do {
       let ds = (if ls_first st then \<lparr>sa_cap = sescnt, sa_entry = junk\<rparr> else ls_ds st);
       (continued, c) \<leftarrow> sc_get c in_uint8;
       (pktcnt, c) \<leftarrow> sc_get c in_uint8;
       (total, ds, c) \<leftarrow> v1c_get_entries (nat pktcnt) (ls_total st) ds c;
       Some (if continued = 0 then List_Done SCP_CLIENT_STATE_LIST_OK (Some (sescnt, Some ds)) c
         else List_More \<lparr>ls_conn = c, ls_first = False, ls_sescnt = sescnt, ls_total = total, ls_ds = ds\<rparr>) } }}}}"

text \<open>Every turn that goes on has taken at least a packet of 12 bytes from the peer.\<close>

definition rx_left :: "scp_connection \<Rightarrow> nat" where
  "rx_left c = length (rx_stream (sc_rx c))"

lemma sc_get_rx: "sc_get c f = Some (v, c') \<Longrightarrow> rx_left c' = rx_left c"
  by (auto simp: sc_get_def rx_left_def bind_eq_Some split: prod.splits)

lemma get_bindE:
  assumes "Option.bind (sc_get c f) (\<lambda>(v, c'). g v c') = Some y"
  obtains v c' where "g v c' = Some y" "rx_left c' = rx_left c"
  using assms sc_get_rx[of c f] by (auto simp: bind_eq_Some split: prod.splits)

lemma rx_left_init_in [simp]: "rx_left (sc_init_in c) = rx_left c"
  by (simp add: rx_left_def)

lemma scp_recv_loop_takes:
  "scp_recv_loop s i len rx = Some (0, s', rx') \<Longrightarrow> length (rx_stream rx') + nat len = length (rx_stream rx)"
proof (induction s i len rx rule: scp_recv_loop.induct)
  case (1 s i len rx)
  show ?case
  proof (cases "0 < len")
    case False
    then show ?thesis using "1.prems" by (subst (asm) scp_recv_loop.simps) simp
  next
    case True
    then obtain e r where rx: "rx = e # r" using "1.prems" by (cases rx) (auto simp: scp_recv_loop.simps)
    show ?thesis
    proof (cases e)
      case (Rx_Bytes bs)
      define n where "n = min (nat len) (length bs)"
      define r' where "r' = (if n < length bs then Rx_Bytes (drop n bs) # r else r)"
      have n0: "n \<noteq> 0" and ok: "0 \<le> i \<and> i + int n \<le> s_size s"
        and run: "scp_recv_loop (s\<lparr>s_data := write_bytes (s_data s) i (take n bs)\<rparr>) (i + int n) (len - int n) r' = Some (0, s', rx')"
        using "1.prems" True scp_recv_loop.simps[of s i len rx]
        by (auto simp: rx Rx_Bytes Let_def n_def[symmetric] r'_def[symmetric] split: if_splits)
      have bs: "bs \<noteq> []" "n \<le> length bs" "n \<le> nat len" using n0 by (auto simp: n_def)
      have "length (rx_stream rx') + nat (len - int n) = length (rx_stream r')"
        using "1.IH"(1)[OF _ rx Rx_Bytes n_def r'_def n0 ok run] True by simp
      then show ?thesis using rx_stream_rest[OF bs(2,1), of r] bs unfolding r'_def[symmetric] by (simp add: rx Rx_Bytes nat_diff_distrib)
    next
      case Rx_Block
      then show ?thesis using "1.prems" "1.IH"(2)[OF _ rx Rx_Block] True scp_recv_loop.simps[of s i len rx]
        by (simp add: rx)
    next
      case Rx_Error
      then show ?thesis using "1.prems" True scp_recv_loop.simps[of s i len rx] by (simp add: rx)
    qed
  qed
qed

lemma scp_tcp_force_recv_takes: "scp_tcp_force_recv c len = Some (0, c') \<Longrightarrow> rx_left c' + nat len = rx_left c"
  by (auto simp: scp_tcp_force_recv_def rx_left_def bind_eq_Some dest!: scp_recv_loop_takes)

lemma v1_recv_packet_takes: "v1_recv_packet n c = Some (Pkt_Ok, c') \<Longrightarrow> rx_left c' < rx_left c"
  unfolding v1_recv_packet_def
  by (auto simp: bind_eq_Some split: if_splits prod.splits dest!: scp_tcp_force_recv_takes sc_get_rx)

lemma v1c_get_entry_rx: "v1c_get_entry d c = Some (d', c') \<Longrightarrow> rx_left c' = rx_left c"
  unfolding v1c_get_entry_def Let_def
  by (elim get_bindE) (auto split: if_splits elim!: get_bindE)

lemma v1c_get_entries_rx: "v1c_get_entries k t ds c = Some (t', ds', c') \<Longrightarrow> rx_left c' = rx_left c"
  by (induction k t ds c rule: v1c_get_entries.induct)
    (auto simp: bind_eq_Some split: if_splits prod.splits dest: v1c_get_entry_rx)

lemma v1c_list_step_takes: "v1c_list_step mng junk st = Some (List_More st') \<Longrightarrow> rx_left (ls_conn st') < rx_left (ls_conn st)"
  unfolding v1c_list_step_def
  by (auto simp: bind_eq_Some Let_def split: if_splits prod.splits dest!: v1_recv_packet_takes sc_get_rx v1c_get_entries_rx)

function v1c_list_loop ::
  "bool \<Rightarrow> (nat \<Rightarrow> scp_disconnected_session) \<Rightarrow> list_state \<Rightarrow> (scp_client_state \<times> (int \<times> ses_array option) option \<times> scp_connection) option" where
  "v1c_list_loop mng junk st = (case v1c_list_step mng junk st of
     None \<Rightarrow> None
   | Some (List_Done e res c) \<Rightarrow> Some (e, res, c)
   | Some (List_More st') \<Rightarrow> v1c_list_loop mng junk st')"
  by pat_completeness auto
termination
  by (relation "measure (\<lambda>(mng, junk, st). rx_left (ls_conn st))") (auto dest: v1c_list_step_takes)

declare v1c_list_loop.simps [simp del]

definition v1c_get_list ::
  "bool \<Rightarrow> (nat \<Rightarrow> scp_disconnected_session) \<Rightarrow> scp_connection \<Rightarrow> (scp_client_state \<times> (int \<times> ses_array option) option \<times> scp_connection) option" where
  "v1c_get_list mng junk c = do {
     c \<leftarrow> v1_put_header (sc_init_out c) 12 (if mng then SCP_COMMAND_SET_MANAGE else SCP_COMMAND_SET_DEFAULT)
       (if mng then SCP_CMD_MNG_LIST_REQ else 41);
     (r, c) \<leftarrow> scp_tcp_force_send c 12;
     if r \<noteq> 0 then Some (SCP_CLIENT_STATE_NETWORK_ERR, None, c)
     else v1c_list_loop mng junk \<lparr>ls_conn = c, ls_first = True, ls_sescnt = 0, ls_total = 0,
       ls_ds = \<lparr>sa_cap = 0, sa_entry = junk\<rparr>\<rparr> }"

definition scp_v1c_get_session_list ::
  "(nat \<Rightarrow> scp_disconnected_session) \<Rightarrow> scp_connection \<Rightarrow> (scp_client_state \<times> (int \<times> ses_array option) option \<times> scp_connection) option" where
  "scp_v1c_get_session_list junk c = v1c_get_list False junk c"

definition scp_v1c_mng_get_session_list ::
  "(nat \<Rightarrow> scp_disconnected_session) \<Rightarrow> scp_connection \<Rightarrow> (scp_client_state \<times> (int \<times> ses_array option) option \<times> scp_connection) option" where
  "scp_v1c_mng_get_session_list junk c = v1c_get_list True junk c"

subsection \<open>The client of a management session\<close>

text \<open>The length of the reason is read as one byte.\<close>

definition scp_v1c_mng_check_response ::
  "scp_connection \<Rightarrow> scp_session \<Rightarrow> (scp_client_state \<times> scp_session \<times> scp_connection) option" where
  "scp_v1c_mng_check_response c s = do {
     (e, c) \<leftarrow> v1_recv_packet 0 c;
     if e \<noteq> Pkt_Ok then Some (client_error e, s, c) else do {
     (cmd, c) \<leftarrow> sc_get c in_uint16_be;
     if cmd \<noteq> SCP_COMMAND_SET_MANAGE then Some (SCP_CLIENT_STATE_SEQUENCE_ERR, s, c) else do {
     (cmd, c) \<leftarrow> sc_get c in_uint16_be;
     if cmd = SCP_CMD_MNG_LOGIN_ALLOW then Some (SCP_CLIENT_STATE_OK, s, c)
     else if cmd = SCP_CMD_MNG_LOGIN_DENY then do {
       (buf, c) \<leftarrow> v1_get_string c;
       Some (SCP_CLIENT_STATE_CONNECTION_DENIED, snd (scp_session_set_errstr s (Some buf)), c) }
     else Some (SCP_CLIENT_STATE_SEQUENCE_ERR, s, c) }}}"

definition scp_v1c_mng_connect ::
  "scp_connection \<Rightarrow> scp_session \<Rightarrow> (scp_client_state \<times> scp_session \<times> scp_connection) option" where
  "scp_v1c_mng_connect c s = do {
     let c = sc_init_in (sc_init_out c);
     let size = u32 (16 + g_strlen (ss_hostname s) + g_strlen (ss_username s) + g_strlen (ss_password s) + v1_addr_size s);
     c \<leftarrow> v1_put_header c size SCP_COMMAND_SET_MANAGE SCP_CMD_MNG_LOGIN;
     c \<leftarrow> v1_put_string c (ss_username s);
     c \<leftarrow> v1_put_string c (ss_password s);
     c \<leftarrow> sc_put c (\<lambda>o'. out_uint8 o' (ss_addr_type s));
     c \<leftarrow> (if ss_addr_type s = SCP_ADDRESS_TYPE_IPV4 then sc_put c (\<lambda>o'. out_uint32_be o' (ss_ipv4addr s))
        else sc_put c (\<lambda>o'. out_uint8p o' (take 16 (ss_ipv6addr s))));
     c \<leftarrow> v1_put_string c (ss_hostname s);
     (r, c) \<leftarrow> scp_tcp_force_send c (s32 size);
     if r \<noteq> 0 then Some (SCP_CLIENT_STATE_NETWORK_ERR, s, c) else scp_v1c_mng_check_response c s }"

end
