(* ===== verification/Scp_Laws.thy ===== *)
theory Scp_Laws
  imports Scp_V1c
begin

text \<open>
  What the two ends of the session control protocol tell each other: the bytes of a version 1
  packet, what the client's calls put on the wire, what the server's calls read out of it, and the
  properties of the whole exchange for both versions.
\<close>

subsection \<open>Version 1 packets as bytes\<close>

definition v1_packet :: "int \<Rightarrow> int \<Rightarrow> byte list \<Rightarrow> byte list" where
  "v1_packet cmdset cmd body = enc32_be 1 @ enc32_be (12 + int (length body)) @ enc16_be cmdset @ enc16_be cmd @ body"

definition v1_string :: "byte list option \<Rightarrow> byte list" where
  "v1_string t = enc8 (g_strlen t) @ field_bytes t"

definition v1_addr :: "scp_session \<Rightarrow> byte list" where
  "v1_addr s = enc8 (ss_addr_type s) @ (if ss_addr_type s = SCP_ADDRESS_TYPE_IPV4 then enc32_be (ss_ipv4addr s) else ss_ipv6addr s)"

definition v1_login :: "scp_session \<Rightarrow> byte list" where
  "v1_login s = enc8 (ss_type s) @ enc16_be (ss_height s) @ enc16_be (ss_width s) @ enc8 (ss_bpp s) @ enc8 (ss_rsr s)
     @ take 17 (ss_locale s) @ v1_addr s @ v1_string (ss_hostname s) @ v1_string (ss_username s) @ v1_string (ss_password s)"

text \<open>A session that a version 1 login can carry: strings shorter than 256 bytes, fields of the C
  types' widths, an address type the protocol knows.\<close>

definition short_string :: "byte list option \<Rightarrow> bool" where
  "short_string t \<longleftrightarrow> g_strlen t < 256 \<and> is_c_str (field_bytes t)"

definition v1_locale_ok :: "byte list \<Rightarrow> bool" where
  "v1_locale_ok l \<longleftrightarrow> l = take 17 (c_str (take 17 l) @ replicate 17 0) @ [0]"

definition v1_wellformed :: "scp_session \<Rightarrow> bool" where
  "v1_wellformed s \<longleftrightarrow> (ss_type s = SCP_SESSION_TYPE_XVNC \<or> ss_type s = SCP_SESSION_TYPE_XRDP)
     \<and> 0 \<le> ss_height s \<and> ss_height s < 65536 \<and> 0 \<le> ss_width s \<and> ss_width s < 65536
     \<and> ss_bpp s \<in> {8, 15, 16, 24, 32} \<and> 0 \<le> ss_rsr s \<and> ss_rsr s < 256 \<and> v1_locale_ok (ss_locale s)
     \<and> (ss_addr_type s = SCP_ADDRESS_TYPE_IPV4 \<or> ss_addr_type s = SCP_ADDRESS_TYPE_IPV6)
     \<and> 0 \<le> ss_ipv4addr s \<and> ss_ipv4addr s < 4294967296 \<and> length (ss_ipv6addr s) = 16
     \<and> short_string (ss_hostname s) \<and> short_string (ss_username s) \<and> short_string (ss_password s)"

lemma v1_wellformedD:
  assumes "v1_wellformed s"
  shows "ss_type s = SCP_SESSION_TYPE_XVNC \<or> ss_type s = SCP_SESSION_TYPE_XRDP" "0 \<le> ss_height s" "ss_height s < 65536"
    "0 \<le> ss_width s" "ss_width s < 65536" "ss_bpp s \<in> {8, 15, 16, 24, 32}" "0 \<le> ss_rsr s" "ss_rsr s < 256"
    "v1_locale_ok (ss_locale s)" "ss_addr_type s = SCP_ADDRESS_TYPE_IPV4 \<or> ss_addr_type s = SCP_ADDRESS_TYPE_IPV6"
    "0 \<le> ss_ipv4addr s" "ss_ipv4addr s < 4294967296" "length (ss_ipv6addr s) = 16"
    "short_string (ss_hostname s)" "short_string (ss_username s)" "short_string (ss_password s)"
  using assms unfolding v1_wellformed_def by argo+

text \<open>What the server makes of it. The resource sharing flag and the address type do not arrive.\<close>

definition v1_session :: "scp_session \<Rightarrow> scp_session" where
  "v1_session s = (let t = scp_session_create\<lparr>ss_version := 1, ss_type := ss_type s, ss_height := ss_height s,
       ss_width := ss_width s, ss_bpp := ss_bpp s, ss_rsr := 0, ss_locale := ss_locale s\<rparr>;
       t = (if ss_addr_type s = SCP_ADDRESS_TYPE_IPV4 then t\<lparr>ss_ipv4addr := ss_ipv4addr s\<rparr> else t\<lparr>ss_ipv6addr := ss_ipv6addr s\<rparr>)
     in t\<lparr>ss_hostname := Some (field_bytes (ss_hostname s)), ss_username := Some (field_bytes (ss_username s)),
       ss_password := Some (field_bytes (ss_password s))\<rparr>)"

lemma length_v1_packet [simp]: "length (v1_packet cmdset cmd body) = 12 + length body"
  by (simp add: v1_packet_def)

lemma length_v1_string [simp]: "int (length (v1_string t)) = 1 + g_strlen t"
  by (simp add: v1_string_def)

lemma short_stringD: "short_string t \<Longrightarrow> g_strlen t < 256" "short_string t \<Longrightarrow> c_str (field_bytes t) = field_bytes t"
  by (simp_all add: short_string_def)

subsection \<open>Writing a packet\<close>

text \<open>\<open>writes c g bs\<close>: with enough room, the operation \<open>g\<close> is the output of \<open>bs\<close>.\<close>

definition writes :: "(scp_connection \<Rightarrow> scp_connection option) \<Rightarrow> byte list \<Rightarrow> bool" where
  "writes g bs \<longleftrightarrow> (\<forall>c :: scp_connection. room (sc_out_s c) (int (length bs)) \<longrightarrow> g c = Some (c\<lparr>sc_out_s := emit (sc_out_s c) bs\<rparr>))"

lemma writes_out:
  "writes (\<lambda>c. sc_put c (\<lambda>o'. out_uint8 o' v)) (enc8 v)"
  "writes (\<lambda>c. sc_put c (\<lambda>o'. out_uint16_be o' v)) (enc16_be v)"
  "writes (\<lambda>c. sc_put c (\<lambda>o'. out_uint32_be o' v)) (enc32_be v)"
  "writes (\<lambda>c. sc_put c (\<lambda>o'. out_uint8p o' bs)) bs"
  by (simp_all add: writes_def sc_put_def out_emit)

lemma writes_bind:
  assumes "writes g as" "writes h bs"
  shows "writes (\<lambda>c. Option.bind (g c) h) (as @ bs)"
proof (unfold writes_def, intro allI impI)
  fix c :: scp_connection assume r: "room (sc_out_s c) (int (length (as @ bs)))"
  then have "room (sc_out_s c) (int (length as))" "room (emit (sc_out_s c) as) (int (length bs))"
    by (simp_all add: room_def)
  then show "Option.bind (g c) h = Some (c\<lparr>sc_out_s := emit (sc_out_s c) (as @ bs)\<rparr>)"
    using assms by (simp add: writes_def)
qed

lemma writes_use:
  fixes c :: scp_connection
  assumes "writes g bs" "room (sc_out_s c) (int (length bs))"
  shows "Option.bind (g c) f = f (c\<lparr>sc_out_s := emit (sc_out_s c) bs\<rparr>)"
  using assms by (simp add: writes_def)

lemma writes_header: "writes (\<lambda>c. v1_put_header c len cmdset cmd) (enc32_be 1 @ enc32_be len @ enc16_be cmdset @ enc16_be cmd)"
  unfolding v1_put_header_def by (intro writes_bind writes_out)

lemma writes_string:
  assumes "g_strlen t < 256"
  shows "writes (\<lambda>c. v1_put_string c t) (v1_string t)"
proof -
  have "length (field_bytes t) = nat (g_strlen t)" using length_field_bytes[of t] by linarith
  then have "take (nat (g_strlen t)) (field_bytes t) = field_bytes t" by simp
  then show ?thesis unfolding v1_put_string_def v1_string_def Let_def
    using writes_bind[OF writes_out(1)[of "g_strlen t"] writes_out(4)[of "field_bytes t"]] assms by (simp add: u8_id)
qed

text \<open>The client's login.\<close>

lemma writes_login:
  assumes "v1_wellformed s"
  shows "writes (v1c_put_login s) (v1_login s)"
proof -
  have addr: "writes (\<lambda>c. if ss_addr_type s = SCP_ADDRESS_TYPE_IPV4 then sc_put c (\<lambda>o'. out_uint32_be o' (ss_ipv4addr s))
      else if ss_addr_type s = SCP_ADDRESS_TYPE_IPV6 then sc_put c (\<lambda>o'. out_uint8p o' (take 16 (ss_ipv6addr s))) else Some c)
      (if ss_addr_type s = SCP_ADDRESS_TYPE_IPV4 then enc32_be (ss_ipv4addr s) else ss_ipv6addr s)"
    using assms writes_out(3)[of "ss_ipv4addr s"] writes_out(4)[of "ss_ipv6addr s"] by (auto simp: v1_wellformed_def)
  have strs: "g_strlen (ss_hostname s) < 256" "g_strlen (ss_username s) < 256" "g_strlen (ss_password s) < 256"
    using assms by (simp_all add: v1_wellformed_def short_string_def)
  have "writes (v1c_put_login s) (enc8 (ss_type s) @ enc16_be (ss_height s) @ enc16_be (ss_width s) @ enc8 (ss_bpp s)
      @ enc8 (ss_rsr s) @ take 17 (ss_locale s) @ enc8 (ss_addr_type s)
      @ (if ss_addr_type s = SCP_ADDRESS_TYPE_IPV4 then enc32_be (ss_ipv4addr s) else ss_ipv6addr s)
      @ v1_string (ss_hostname s) @ v1_string (ss_username s) @ v1_string (ss_password s))"
    unfolding v1c_put_login_def by (intro writes_bind writes_out addr writes_string strs)
  then show ?thesis by (simp add: v1_login_def v1_addr_def)
qed

text \<open>A packet written from the beginning of the output block and sent.\<close>

lemma sc_init_out_sel [simp]:
  "s_p (sc_out_s (sc_init_out c)) = 0" "s_size (sc_out_s (sc_init_out c)) = s_size (sc_out_s c)" "sc_rx (sc_init_out c) = sc_rx c"
  "sc_in_s (sc_init_out c) = sc_in_s c" "sc_tx (sc_init_out c) = sc_tx c" "sc_wire (sc_init_out c) = sc_wire c"
  by (simp_all add: sc_init_out_def)

lemma send_packet:
  assumes body: "writes g body" and p: "s_p (sc_out_s c) = 0"
    and fits: "12 + int (length body) \<le> s_size (sc_out_s c)" and tx: "12 + length body \<le> tx_room (sc_tx c)"
    and len: "len = 12 + int (length body)"
  shows "\<exists>c1. (v1_put_header c len cmdset cmd \<bind> (\<lambda>c. g c \<bind> (\<lambda>c. scp_tcp_force_send c len \<bind> f))) = f (0, c1)
     \<and> sc_wire c1 = sc_wire c @ v1_packet cmdset cmd body \<and> sc_rx c1 = sc_rx c \<and> sc_in_s c1 = sc_in_s c
     \<and> sc_out_s c1 = emit (sc_out_s c) (v1_packet cmdset cmd body)"
proof -
  let ?h = "enc32_be 1 @ enc32_be len @ enc16_be cmdset @ enc16_be cmd"
  let ?c = "c\<lparr>sc_out_s := emit (sc_out_s c) (?h @ body)\<rparr>"
  have msg: "?h @ body = v1_packet cmdset cmd body" by (simp add: v1_packet_def len)
  have w: "writes (\<lambda>c. v1_put_header c len cmdset cmd \<bind> g) (?h @ body)"
    by (rule writes_bind[OF writes_header body])
  have put: "v1_put_header c len cmdset cmd \<bind> (\<lambda>c. g c \<bind> k) = k ?c" for k :: "scp_connection \<Rightarrow> 'a option"
    using writes_use[OF w, of c k] p fits by (simp add: room_def bind_assoc)
  obtain tx where "scp_tcp_force_send ?c (int (length (?h @ body))) = Some (0, ?c\<lparr>sc_tx := tx, sc_wire := sc_wire ?c @ ?h @ body\<rparr>)"
    using sc_send_message[of ?c "?h @ body"] p fits tx by (auto simp: bytes_at_write_bytes)
  moreover have "int (length (?h @ body)) = len" by (simp add: len)
  ultimately have sent: "scp_tcp_force_send ?c len = Some (0, ?c\<lparr>sc_tx := tx, sc_wire := sc_wire ?c @ ?h @ body\<rparr>)" by simp
  show ?thesis unfolding put sent
    by (intro exI[of _ "?c\<lparr>sc_tx := tx, sc_wire := sc_wire ?c @ ?h @ body\<rparr>"]) (simp add: msg[symmetric])
qed

lemma length_padded: "l = take 17 (x @ replicate 17 0) @ [0 :: byte] \<Longrightarrow> length l = 18"
  by simp

lemma v1_locale_length: "v1_locale_ok l \<Longrightarrow> length l = 18"
  by (rule length_padded) (erule v1_locale_ok_def[THEN iffD1])

lemma length_v1_login:
  assumes "v1_wellformed s"
  shows "int (length (v1_login s)) = 28 + v1_addr_size s + g_strlen (ss_hostname s) + g_strlen (ss_username s) + g_strlen (ss_password s)"
proof -
  have "length (ss_locale s) = 18" "length (ss_ipv6addr s) = 16"
    using assms by (simp_all add: v1_wellformed_def v1_locale_length)
  then show ?thesis by (simp add: v1_login_def v1_addr_def v1_addr_size_def)
qed

lemma v1_login_short: "v1_wellformed s \<Longrightarrow> 12 + int (length (v1_login s)) < 900"
  using length_v1_login[of s] v1_wellformedD(14-16)[of s] by (simp add: short_string_def v1_addr_size_def)

lemma v1c_connect_sends:
  assumes wf: "v1_wellformed s" and blk: "900 \<le> s_size (sc_out_s c)"
    and tx: "length (v1_packet 0 1 (v1_login s)) \<le> tx_room (sc_tx c)"
  shows "\<exists>c1. scp_v1c_connect c s = scp_v1c_check_response c1 s \<and> sc_wire c1 = sc_wire c @ v1_packet 0 1 (v1_login s)
     \<and> sc_rx c1 = sc_rx c \<and> sc_in_s c1 = sc_in_s (sc_init_in c)"
proof -
  let ?n = "12 + int (length (v1_login s))"
  have n: "40 + g_strlen (ss_hostname s) + g_strlen (ss_username s) + g_strlen (ss_password s) + v1_addr_size s = ?n" "?n < 900"
    using length_v1_login[OF wf] wf by (auto simp: v1_wellformed_def short_string_def v1_addr_size_def)
  have conv: "u32 ?n = ?n" "s32 ?n = ?n" using n(2) by (simp_all add: u32_id s32_id)
  let ?f = "\<lambda>(r, c). if r \<noteq> (0 :: int) then Some (SCP_CLIENT_STATE_NETWORK_ERR, s, c) else scp_v1c_check_response c s"
  obtain c1 where "(v1_put_header (sc_init_in (sc_init_out c)) ?n 0 1 \<bind> (\<lambda>c. v1c_put_login s c \<bind> (\<lambda>c. scp_tcp_force_send c ?n \<bind> ?f)))
      = ?f (0, c1)"
    "sc_wire c1 = sc_wire c @ v1_packet 0 1 (v1_login s)" "sc_rx c1 = sc_rx c" "sc_in_s c1 = sc_in_s (sc_init_in (sc_init_out c))"
    using send_packet[OF writes_login[OF wf], where c = "sc_init_in (sc_init_out c)" and len = ?n and cmdset = 0 and cmd = 1 and f = ?f] blk n(2) tx
    by auto
  then show ?thesis
    by (intro exI[of _ c1]) (simp add: scp_v1c_connect_def Let_def n(1) conv sc_init_in_def)
qed

subsection \<open>Reading a packet\<close>

lemma v1_string_bind:
  assumes "upcoming c (v1_string t @ q)" "g_strlen t < 256"
    "upcoming (sc_skip c (1 + g_strlen t)) q \<Longrightarrow> wp (f (field_bytes t @ [0], sc_skip c (1 + g_strlen t))) Q"
  shows "wp (Option.bind (v1_get_string c) f) Q"
  unfolding v1_get_string_def bind_assoc
proof (rule get8_bind[OF _ g_strlen_nonneg assms(2)], use assms(1) in \<open>simp add: v1_string_def\<close>, unfold prod.case bind_assoc)
  assume "upcoming (sc_skip c 1) (field_bytes t @ q)"
  then show "wp (sc_get (sc_skip c 1) (\<lambda>i. in_uint8a i (g_strlen t)) \<bind> (\<lambda>x. (case x of (b, c) \<Rightarrow> Some (b @ [0], c)) \<bind> f)) Q"
    by (rule get_bytes_bind) (use assms(3) in simp_all)
qed

lemma v1_addr_bind:
  assumes up: "upcoming c (v1_addr s @ q)" and wf: "v1_wellformed s"
    and cont: "\<And>n. upcoming (sc_skip c n) q \<Longrightarrow>
      wp (f (if ss_addr_type s = SCP_ADDRESS_TYPE_IPV4 then t\<lparr>ss_ipv4addr := ss_ipv4addr s\<rparr> else t\<lparr>ss_ipv6addr := ss_ipv6addr s\<rparr>, sc_skip c n)) Q"
  shows "wp (Option.bind (v1_get_addr t c) f) Q"
proof -
  have v4: "0 \<le> ss_ipv4addr s" "ss_ipv4addr s < 4294967296" and v6: "length (ss_ipv6addr s) = 16"
    and type: "ss_addr_type s = 0 \<or> ss_addr_type s = 1" using wf by (auto simp: v1_wellformed_def)
  have up': "upcoming c (enc8 (ss_addr_type s) @ (if ss_addr_type s = 0 then enc32_be (ss_ipv4addr s) else ss_ipv6addr s) @ q)"
    using up by (simp add: v1_addr_def)
  have set6: "scp_session_set_addr t 1 (ss_ipv6addr s) = Some (0, t\<lparr>ss_ipv6addr := ss_ipv6addr s\<rparr>)"
    using v6 by (simp add: scp_session_set_addr_def)
  show ?thesis unfolding v1_get_addr_def bind_assoc
  proof (rule get8_bind[OF up'])
    show "0 \<le> ss_addr_type s" "ss_addr_type s < 256" using type by auto
    assume up1: "upcoming (sc_skip c 1) ((if ss_addr_type s = 0 then enc32_be (ss_ipv4addr s) else ss_ipv6addr s) @ q)"
    let ?c = "sc_skip c 1"
    have "wp (Option.bind (sc_get ?c in_uint32_be) (\<lambda>(a, c). scp_session_set_addr t 0 (enc32_le a) \<bind> (\<lambda>(_, t). f (t, c)))) Q"
      if "ss_addr_type s = 0"
    proof (rule get32_bind[OF _ v4])
      show "upcoming ?c (enc32_be (ss_ipv4addr s) @ q)" using up1 that by simp
      assume "upcoming (sc_skip ?c 4) q"
      then show "wp (case (ss_ipv4addr s, sc_skip ?c 4) of (a, c) \<Rightarrow> scp_session_set_addr t 0 (enc32_le a) \<bind> (\<lambda>(_, t). f (t, c))) Q"
        using cont[of 5] that set_addr_host[OF v4, of t] by simp
    qed
    moreover have "wp (Option.bind (sc_get ?c (\<lambda>i. in_uint8a i 16)) (\<lambda>(buf, c). scp_session_set_addr t 1 buf \<bind> (\<lambda>(_, t). f (t, c)))) Q"
      if "ss_addr_type s = 1"
    proof (rule get_bytes_bind[where bs = "ss_ipv6addr s" and q = q])
      show "upcoming ?c (ss_ipv6addr s @ q)" "16 = int (length (ss_ipv6addr s))" using up1 that v6 by simp_all
      assume "upcoming (sc_skip ?c 16) q"
      then show "wp (case (ss_ipv6addr s, sc_skip ?c 16) of (buf, c) \<Rightarrow> scp_session_set_addr t 1 buf \<bind> (\<lambda>(_, t). f (t, c))) Q"
        using cont[of 17] that set6 by simp
    qed
    ultimately show "wp ((case (ss_addr_type s, ?c) of (sz, c) \<Rightarrow>
        if sz = 0 then do { (a, c) \<leftarrow> sc_get c in_uint32_be; (_, session) \<leftarrow> scp_session_set_addr t sz (enc32_le a); Some (session, c) }
        else if sz = 1 then do { (buf, c) \<leftarrow> sc_get c (\<lambda>i. in_uint8a i 16); (_, session) \<leftarrow> scp_session_set_addr t sz buf; Some (session, c) }
        else Some (t, c)) \<bind> f) Q"
      using type by (auto simp: bind_assoc case_prod_unfold)
  qed
qed

lemma v1s_read_login_ok:
  assumes up: "upcoming c (enc16_be 1 @ v1_login s @ [])" and wf: "v1_wellformed s"
  shows "wp (v1s_read_login c) (\<lambda>x. \<exists>n. x = (SCP_SERVER_STATE_OK, Some (v1_session s), sc_skip c n))"
proof -
  note w = v1_wellformedD[OF wf]
  note bpp5 = w(6) and ty2 = w(1) and lo = w(9)
  have bpp: "0 \<le> ss_bpp s" "ss_bpp s < 256" using bpp5 by auto
  have set_bpp: "scp_session_set_bpp x (ss_bpp s) = (0, x\<lparr>ss_bpp := ss_bpp s\<rparr>)" for x
    using bpp5 unfolding scp_session_set_bpp_def by simp
  have type: "scp_session_set_type x (ss_type s) = (0, x\<lparr>ss_type := ss_type s\<rparr>)" for x
    using ty2 unfolding scp_session_set_type_def by (elim disjE) simp_all
  have ty: "0 \<le> ss_type s" "ss_type s < 256" "\<not> (ss_type s \<noteq> 0 \<and> ss_type s \<noteq> 1)" using ty2 by auto
  have strs: "g_strlen (ss_hostname s) < 256" "g_strlen (ss_username s) < 256" "g_strlen (ss_password s) < 256"
    "c_str (field_bytes (ss_hostname s)) = field_bytes (ss_hostname s)" "c_str (field_bytes (ss_username s)) = field_bytes (ss_username s)"
    "c_str (field_bytes (ss_password s)) = field_bytes (ss_password s)"
    using w(14-16) by (simp_all add: short_stringD)
  have loc: "length (take 17 (ss_locale s)) = 17" using v1_locale_length[OF lo] by simp
  have loc2: "scp_session_set_locale x (Some (take 17 (ss_locale s) @ [0])) = (0, x\<lparr>ss_locale := ss_locale s\<rparr>)" for x
    unfolding scp_session_set_locale_def option.case c_str_terminated lo[unfolded v1_locale_ok_def, symmetric] by (rule refl)
  show ?thesis
    unfolding v1s_read_login_def Let_def
    apply (rule get16_bind[OF up], simp, simp)
    apply (simp only: prod.case simp_thms if_False v1_login_def append_assoc)
    apply (rule get8_bind, assumption, rule ty, rule ty)
    apply (simp only: prod.case ty if_False type snd_conv)
    apply (rule get16_bind, assumption, rule w, rule w)
    apply (simp only: prod.case)
    apply (rule get16_bind, assumption, rule w, rule w)
    apply (simp only: prod.case)
    apply (rule get8_bind, assumption, rule bpp, rule bpp)
    apply (simp only: prod.case set_bpp simp_thms if_False)
    apply (rule get8_bind, assumption, rule w, rule w)
    apply (simp only: prod.case)
    apply (rule get_bytes_bind, assumption, simp only: loc of_nat_numeral)
    apply (simp only: prod.case)
    apply (rule v1_addr_bind[OF _ wf], assumption)
    apply (simp only: prod.case)
    apply (rule v1_string_bind, assumption, rule strs)
    apply (simp only: prod.case hostname.str_stored simp_thms if_False)
    apply (rule v1_string_bind, assumption, rule strs)
    apply (simp only: prod.case username.str_stored simp_thms if_False)
    apply (rule v1_string_bind, assumption, rule strs)
    apply (simp only: prod.case password.str_stored simp_thms if_False wp_Some c_str_terminated strs sc_skip_skip)
    apply (rule exI, rule arg_cong2[where f = Pair, OF refl], rule arg_cong2[where f = Pair, OF _ refl], rule arg_cong[where f = Some])
    apply (simp add: v1_session_def session_setters(2-4,6) scp_session_create_def loc2 Let_def)
    done
qed

text \<open>The receiving of a packet, as a rule.\<close>

lemma recv_packet_bind:
  assumes rx: "rx_stream (sc_rx c) = v1_packet cmdset cmd body @ q"
    and fits: "8 \<le> s_size (sc_in_s c)" "4 + int (length body) \<le> s_size (sc_in_s c)" "s_size (sc_in_s c) < 2147483640"
    and min: "m \<le> 12"
    and cont: "\<And>c'. upcoming c' (enc16_be cmdset @ enc16_be cmd @ body @ []) \<Longrightarrow> rx_stream (sc_rx c') = q \<Longrightarrow> only_read c c'
      \<Longrightarrow> wp (f (Pkt_Ok, c')) Q"
  shows "wp (Option.bind (v1_recv_packet m c) f) Q"
proof -
  define pay where "pay = enc16_be cmdset @ enc16_be cmd @ body"
  have len: "int (length pay) = 4 + int (length body)" by (simp add: pay_def)
  have rx': "rx_stream (sc_rx (sc_init_in c)) = (enc32_be 1 @ enc32_be (12 + int (length body)) @ []) @ pay @ q"
    using rx by (simp add: v1_packet_def pay_def)
  have size: "0 \<le> 12 + int (length body)" "12 + int (length body) < 4294967296" "\<not> 12 + int (length body) < m"
    "s32 (12 + int (length body) - 8) = int (length pay)"
    using fits min by (simp_all add: len s32_id)
  show ?thesis unfolding v1_recv_packet_def bind_assoc
    apply (rule recv_bind[OF rx'], simp, simp, use fits in simp)
    apply (simp only: prod.case simp_thms if_False bind_assoc)
    apply (rule get32_bind, assumption, simp, simp)
    apply (simp only: prod.case simp_thms if_False bind_assoc)
    apply (rule get32_bind, assumption, rule size, rule size)
    apply (simp only: prod.case size if_False bind_assoc)
    apply (rule recv_bind[where bs = pay and q = q], simp, simp, rule refl, use fits len in \<open>simp add: only_read_def\<close>)
    apply (simp only: prod.case simp_thms if_False bind.bind_lunit)
    apply (rule cont, simp add: pay_def, assumption, auto intro: only_read_trans)
    done
qed

lemma v1s_accept_body_ok:
  assumes up: "upcoming c (enc32_be (12 + int (length (v1_login s))) @ [])" and wf: "v1_wellformed s"
    and rx: "rx_stream (sc_rx c) = enc16_be 0 @ enc16_be 1 @ v1_login s @ q"
    and fits: "900 \<le> s_size (sc_in_s c)" "s_size (sc_in_s c) < 2147483640"
  shows "wp (v1s_accept_body c) (\<lambda>(st, ses, c'). st = SCP_SERVER_STATE_OK \<and> ses = Some (v1_session s)
     \<and> only_read c c' \<and> rx_stream (sc_rx c') = q)"
proof -
  let ?pay = "enc16_be 0 @ enc16_be 1 @ v1_login s @ []"
  note len = v1_login_short[OF wf]
  have size: "0 \<le> 12 + int (length (v1_login s))" "12 + int (length (v1_login s)) < 4294967296" "\<not> 12 + int (length (v1_login s)) < 12"
    "s32 (12 + int (length (v1_login s)) - 8) = int (length ?pay)"
    using len by (simp_all add: s32_id)
  show ?thesis unfolding v1s_accept_body_def
    apply (rule get32_bind[OF up], rule size, rule size)
    apply (simp only: prod.case size if_False)
    apply (rule recv_bind[where bs = ?pay and q = q], simp add: rx, simp, rule refl, use fits len in simp)
    apply (simp only: prod.case simp_thms if_False)
    apply (rule get16_bind, assumption, simp, simp)
    apply (simp only: prod.case)
    apply simp
    apply (rule wp_mono, rule v1s_read_login_ok[OF _ wf], simp)
    apply (auto intro: only_read_trans)
    done
qed

subsection \<open>The entry point of the server\<close>

text \<open>A connection that nothing was read from or written to yet, with blocks of at least \<open>n\<close> bytes.\<close>

definition fresh_connection :: "int \<Rightarrow> scp_connection \<Rightarrow> bool" where
  "fresh_connection n c \<longleftrightarrow> s_p (sc_in_s c) = 0 \<and> s_p (sc_out_s c) = 0 \<and> n \<le> s_size (sc_in_s c) \<and> n \<le> s_size (sc_out_s c)
     \<and> s_size (sc_in_s c) \<le> 8196 \<and> s_size (sc_out_s c) \<le> 8196 \<and> sc_wire c = []"

lemma scp_connection_create_fresh: "fresh_connection 8196 (scp_connection_create rx tx)"
  by (simp add: fresh_connection_def scp_connection_create_def)

lemma vXs_header_bind:
  assumes fresh: "fresh_connection n c" "8 \<le> n" and rx: "rx_stream (sc_rx c) = enc32_be v @ enc32_be len @ q"
    and v: "0 \<le> v" "v < 4294967296"
    and cont: "\<And>c'. upcoming c' (enc32_be len @ []) \<Longrightarrow> rx_stream (sc_rx c') = q \<Longrightarrow> only_read c c'
       \<Longrightarrow> wp (if v = 0 then scp_v0s_accept c' True else if v = 1 then scp_v1s_accept c' True
         else Some (SCP_SERVER_STATE_VERSION_ERR, None, c')) Q"
  shows "wp (scp_vXs_accept c) Q"
  unfolding scp_vXs_accept_def
  apply (rule recv_bind[where bs = "enc32_be v @ enc32_be len @ []" and q = q])
      apply (use rx in simp)
     apply (use fresh in \<open>simp add: fresh_connection_def\<close>)
    apply simp
   apply (use fresh in \<open>simp add: fresh_connection_def\<close>)
  apply (simp only: prod.case simp_thms if_False)
  apply (rule get32_bind, assumption, rule v, rule v)
  apply (simp only: prod.case)
  apply (rule cont)
    apply simp_all
  done

lemma vXs_accept_v0:
  assumes fresh: "fresh_connection n c" "8 \<le> n" and rx: "rx_stream (sc_rx c) = v0_message (v0_body code s) @ q"
    and code: "v0_code (ss_type s) = Some code" and wf: "v0_wellformed s" and fits: "v0_carries 8204 s"
  shows "wp (scp_vXs_accept c) (\<lambda>(st, ses, c'). st = SCP_SERVER_STATE_OK \<and> ses = Some (v0_session s)
     \<and> sc_out_s c' = sc_out_s c \<and> sc_tx c' = sc_tx c \<and> sc_wire c' = sc_wire c \<and> rx_stream (sc_rx c') = q)"
proof (rule vXs_header_bind[OF fresh, where v = 0 and len = "8 + int (length (v0_body code s))" and q = "v0_body code s @ q"])
  show "rx_stream (sc_rx c) = enc32_be 0 @ enc32_be (8 + int (length (v0_body code s))) @ v0_body code s @ q"
    using rx by (simp add: v0_message_def)
  fix c' assume up: "upcoming c' (enc32_be (8 + int (length (v0_body code s))) @ [])" and rx': "rx_stream (sc_rx c') = v0_body code s @ q"
    and ro: "only_read c c'"
  show "wp (if (0 :: int) = 0 then scp_v0s_accept c' True else if (0 :: int) = 1 then scp_v1s_accept c' True
      else Some (SCP_SERVER_STATE_VERSION_ERR, None, c')) (\<lambda>(st, ses, c'). st = SCP_SERVER_STATE_OK \<and> ses = Some (v0_session s)
     \<and> sc_out_s c' = sc_out_s c \<and> sc_tx c' = sc_tx c \<and> sc_wire c' = sc_wire c \<and> rx_stream (sc_rx c') = q)"
    unfolding scp_v0s_accept_def
    by (simp, rule wp_mono[OF v0s_accept_body_ok[OF up rx' code wf fits]]) (use ro in \<open>auto simp: only_read_def\<close>)
qed simp_all

lemma vXs_accept_v1:
  assumes fresh: "fresh_connection n c" "900 \<le> n" and rx: "rx_stream (sc_rx c) = v1_packet 0 1 (v1_login s) @ q" and wf: "v1_wellformed s"
  shows "wp (scp_vXs_accept c) (\<lambda>(st, ses, c'). st = SCP_SERVER_STATE_OK \<and> ses = Some (v1_session s)
     \<and> only_read c c' \<and> rx_stream (sc_rx c') = q)"
proof (rule vXs_header_bind[OF fresh(1), where v = 1 and len = "12 + int (length (v1_login s))" and q = "enc16_be 0 @ enc16_be 1 @ v1_login s @ q"])
  show "rx_stream (sc_rx c) = enc32_be 1 @ enc32_be (12 + int (length (v1_login s))) @ enc16_be 0 @ enc16_be 1 @ v1_login s @ q"
    using rx by (simp add: v1_packet_def)
  fix c' assume up: "upcoming c' (enc32_be (12 + int (length (v1_login s))) @ [])"
    and rx': "rx_stream (sc_rx c') = enc16_be 0 @ enc16_be 1 @ v1_login s @ q" and ro: "only_read c c'"
  show "wp (if (1 :: int) = 0 then scp_v0s_accept c' True else if (1 :: int) = 1 then scp_v1s_accept c' True
      else Some (SCP_SERVER_STATE_VERSION_ERR, None, c')) (\<lambda>(st, ses, c'). st = SCP_SERVER_STATE_OK \<and> ses = Some (v1_session s)
     \<and> only_read c c' \<and> rx_stream (sc_rx c') = q)"
    unfolding scp_v1s_accept_def
    by (simp, rule wp_mono[OF v1s_accept_body_ok[OF up wf rx']])
      (use ro fresh in \<open>auto simp: fresh_connection_def only_read_def\<close>)
qed (use fresh in simp_all)

subsection \<open>The version 0 exchange\<close>

lemma v0c_connect_answered:
  assumes fresh: "fresh_connection 8196 c" and code: "v0_code (ss_type s) = Some code" and fits: "v0_carries 8196 s"
    and tx: "length (v0_message (v0_body code s)) \<le> tx_room (sc_tx c)"
    and rx: "rx_stream (sc_rx c) = v0_reply 3 data d extra" and vals: "0 \<le> data" "data < 65536" "0 \<le> d" "d < 65536" "length extra \<le> 16"
  shows "wp (scp_v0c_connect c s) (\<lambda>(st, s', c'). sc_wire c' = v0_message (v0_body code s)
     \<and> (st, s') = (if data = 1 then (SCP_CLIENT_STATE_END, s\<lparr>ss_display := d\<rparr>) else (SCP_CLIENT_STATE_CONNECTION_DENIED, s)))"
proof -
  have size: "s_size (sc_in_s c) = 8196" using fresh by (simp add: fresh_connection_def)
  obtain tx' out where run: "scp_v0c_connect c s =
      v0c_check_reply ((sc_init_in c)\<lparr>sc_out_s := out, sc_tx := tx', sc_wire := sc_wire c @ v0_message (v0_body code s)\<rparr>) s"
    using v0c_connect_sends[OF code _ tx] fits size by auto
  show ?thesis unfolding run
    by (rule wp_mono[OF v0c_check_reply_ok[where data = data and d = d and extra = extra and q = "[]"]])
      (use vals rx size fresh in \<open>auto simp: only_read_def fresh_connection_def\<close>)
qed

text \<open>The hypotheses of an exchange: what the user asked for, and two connected ends.\<close>

definition v0_exchange :: "scp_session \<Rightarrow> int \<Rightarrow> scp_connection \<Rightarrow> scp_connection \<Rightarrow> bool" where
  "v0_exchange s code c d \<longleftrightarrow> v0_code (ss_type s) = Some code \<and> v0_wellformed s \<and> v0_carries 8196 s
     \<and> fresh_connection 8196 c \<and> length (v0_message (v0_body code s)) \<le> tx_room (sc_tx c)
     \<and> fresh_connection 30 d \<and> 30 \<le> tx_room (sc_tx d) \<and> rx_stream (sc_rx d) = v0_message (v0_body code s)"


definition demo_session :: scp_session where
  "demo_session = scp_session_create\<lparr>ss_username := Some [0x62, 0x6f, 0x62], ss_password := Some [0x70, 0x77],
     ss_hostname := Some [0x68], ss_width := 800, ss_height := 600, ss_bpp := 24\<rparr>"

definition demo_peer :: "byte list \<Rightarrow> scp_connection" where
  "demo_peer bs = scp_connection_create [Rx_Bytes (take 3 bs), Rx_Block, Rx_Bytes (drop 3 bs)] [Tx_Accept 5, Tx_Block, Tx_Accept 2000]"

lemma demo_peer_rx: "4 \<le> length bs \<Longrightarrow> rx_stream (sc_rx (demo_peer bs)) = bs"
  by (auto simp: demo_peer_def scp_connection_create_def)

lemma demo_peer_fresh: "fresh_connection 8196 (demo_peer bs)" "tx_room (sc_tx (demo_peer bs)) = 2005"
  by (simp_all add: demo_peer_def scp_connection_create_fresh) (simp add: scp_connection_create_def)

lemma demo_v0_exchange:
  "v0_exchange demo_session 0 (demo_peer (v0_reply 3 1 7 [])) (demo_peer (v0_message (v0_body 0 demo_session)))"
proof -
  have len: "length (v0_message (v0_body 0 demo_session)) = 25"
    by (simp add: v0_message_def v0_body_def demo_session_def field_bytes_def)
  have "fresh_connection 30 (demo_peer bs)" for bs using demo_peer_fresh(1)[of bs] by (simp add: fresh_connection_def)
  moreover have "v0_wellformed demo_session" "v0_carries 8196 demo_session" "v0_code (ss_type demo_session) = Some 0"
    by (simp_all add: v0_wellformed_def v0_carries_def demo_session_def scp_session_create_def is_c_str_def field_bytes_def g_strlen_def v0_code_def)
  ultimately show ?thesis by (simp add: v0_exchange_def demo_peer_fresh demo_peer_rx len)
qed


subsection \<open>The version 1 exchange\<close>

text \<open>The client's reading of an answer.\<close>

lemma get_errstr_bind:
  assumes "upcoming c (enc16_be (int (length t)) @ t @ [])" "length t < 65536" "is_c_str t"
    "\<And>n. wp (f (s\<lparr>ss_errstr := Some t\<rparr>, sc_skip c n)) Q"
  shows "wp (Option.bind (v1c_get_errstr s c) f) Q"
  unfolding v1c_get_errstr_def bind_assoc
  apply (rule get16_bind[OF assms(1)], simp, use assms(2) in simp)
  apply (simp only: prod.case bind_assoc)
  apply (rule get_bytes_bind, assumption, rule refl)
  apply (use assms(3,4) in simp)
  done

lemma v1c_check_response_display:
  assumes rx: "rx_stream (sc_rx c) = v1_packet 0 30 (enc16_be d) @ q" and size: "8 \<le> s_size (sc_in_s c)" "s_size (sc_in_s c) \<le> 8196"
    and d: "0 \<le> d" "d < 65536"
  shows "wp (scp_v1c_check_response c s) (\<lambda>(st, s', c'). st = SCP_CLIENT_STATE_OK \<and> s' = s\<lparr>ss_display := d\<rparr> \<and> sc_wire c' = sc_wire c)"
  unfolding scp_v1c_check_response_def
  apply (rule recv_packet_bind[OF rx], use size in simp, use size in simp, use size in simp, simp)
  apply (simp only: prod.case simp_thms if_False)
  apply (rule get16_bind, assumption, simp, simp)
  apply (simp only: prod.case simp_thms if_False)
  apply (rule get16_bind, assumption, simp, simp)
  apply simp
  apply (rule get16_bind[where v = d and q = "[]"], simp, rule d, rule d)
  apply (simp add: only_read_def)
  done

lemma v1c_check_response_reason:
  assumes rx: "rx_stream (sc_rx c) = v1_packet 0 cmd (enc16_be (int (length t)) @ t) @ q" and size: "8 \<le> s_size (sc_in_s c)" "s_size (sc_in_s c) \<le> 8196"
    and t: "length t + 6 \<le> nat (s_size (sc_in_s c))" "is_c_str t" and cmd: "cmd = 2 \<or> cmd = 3"
  shows "wp (scp_v1c_check_response c s) (\<lambda>(st, s', c'). st = (if cmd = 2 then SCP_CLIENT_STATE_CONNECTION_DENIED else SCP_CLIENT_STATE_RESEND_CREDENTIALS)
     \<and> s' = s\<lparr>ss_errstr := Some t\<rparr> \<and> sc_wire c' = sc_wire c)"
proof -
  have len: "6 + int (length t) \<le> s_size (sc_in_s c)" "length t < 65536" using t(1) size by linarith+
  show ?thesis unfolding scp_v1c_check_response_def
    apply (rule recv_packet_bind[OF rx], use size in simp, use len in simp, use size in simp, simp)
    apply (simp only: prod.case simp_thms if_False)
    apply (rule get16_bind, assumption, simp, simp)
    apply (simp only: prod.case simp_thms if_False)
    apply (rule get16_bind, assumption, use cmd in force, use cmd in force)
    apply (rule disjE[OF cmd]; simp; rule get_errstr_bind[OF _ len(2) t(2)], simp)
     apply (simp_all add: only_read_def)
    done
qed

text \<open>The server's answers.\<close>

lemma v1s_connect_new_session_sends:
  assumes "14 \<le> s_size (sc_out_s c)" "14 \<le> tx_room (sc_tx c)"
  shows "\<exists>c1. scp_v1s_connect_new_session c d = Some (SCP_SERVER_STATE_OK, c1) \<and> sc_wire c1 = sc_wire c @ v1_packet 0 30 (enc16_be d)"
proof -
  let ?f = "\<lambda>(r, c). Some (if r \<noteq> (0 :: int) then SCP_SERVER_STATE_NETWORK_ERR else SCP_SERVER_STATE_OK, c)"
  have "12 + int (length (enc16_be d)) \<le> s_size (sc_out_s (sc_init_out c))" "12 + length (enc16_be d) \<le> tx_room (sc_tx (sc_init_out c))"
    "14 = 12 + int (length (enc16_be d))" using assms by simp_all
  from send_packet[OF writes_out(2) sc_init_out_sel(1) this, of 0 30 ?f] obtain c1
    where "scp_v1s_connect_new_session c d = ?f (0, c1)" "sc_wire c1 = sc_wire (sc_init_out c) @ v1_packet 0 30 (enc16_be d)"
    unfolding scp_v1s_connect_new_session_def by blast
  then show ?thesis by simp
qed

lemma v1_put_reason_sends:
  assumes "length t + 14 \<le> nat (s_size (sc_out_s c))" "s_size (sc_out_s c) \<le> 8196" "length t + 14 \<le> tx_room (sc_tx c)"
  shows "\<exists>c1. v1_put_reason c cmdset cmd t = Some (0, c1) \<and> sc_wire c1 = sc_wire c @ v1_packet cmdset cmd (enc16_be (int (length t)) @ t)
     \<and> sc_rx c1 = sc_rx c \<and> sc_in_s c1 = sc_in_s c"
proof -
  have r: "min 65535 (int (length t)) = int (length t)" "14 + int (length t) \<le> s_size (sc_out_s c)" using assms(1,2) by linarith+
  have w: "writes (\<lambda>c. sc_put c (\<lambda>o'. out_uint16_be o' (int (length t))) \<bind> (\<lambda>c. sc_put c (\<lambda>o'. out_uint8p o' t))) (enc16_be (int (length t)) @ t)"
    by (intro writes_bind writes_out)
  have bind_id: "m \<bind> Some = m" for m :: "(int \<times> scp_connection) option" by (cases m) auto
  show ?thesis
    using send_packet[OF w, where c = "sc_init_out c" and len = "int (length t) + 14" and cmdset = cmdset and cmd = cmd and f = Some] assms(3) r(2)
    by (simp add: v1_put_reason_def Let_def r(1) bind_assoc bind_id) blast
qed

definition v1_exchange :: "scp_session \<Rightarrow> scp_connection \<Rightarrow> scp_connection \<Rightarrow> bool" where
  "v1_exchange s c d \<longleftrightarrow> v1_wellformed s \<and> fresh_connection 8192 c \<and> 900 \<le> tx_room (sc_tx c)
     \<and> fresh_connection 8192 d \<and> 900 \<le> tx_room (sc_tx d) \<and> rx_stream (sc_rx d) = v1_packet 0 1 (v1_login s)"


lemma demo_v1_exchange:
  "v1_exchange demo_session (demo_peer (v1_packet 0 30 (enc16_be 7))) (demo_peer (v1_packet 0 1 (v1_login demo_session)))"
proof -
  have loc: "v1_locale_ok (ss_locale demo_session)"
    by (simp add: demo_session_def scp_session_create_def v1_locale_ok_def c_str_def numeral_eq_Suc)
  have "fresh_connection 8192 (demo_peer bs)" for bs using demo_peer_fresh(1)[of bs] by (simp add: fresh_connection_def)
  moreover have "v1_wellformed demo_session"
    unfolding v1_wellformed_def using loc
    by (simp add: demo_session_def scp_session_create_def short_string_def is_c_str_def field_bytes_def g_strlen_def)
  ultimately show ?thesis by (simp add: v1_exchange_def demo_peer_fresh demo_peer_rx)
qed


subsection \<open>Where the server leaves its blocks\<close>

lemma recv_exact_segment:
  assumes "bs \<noteq> []" "len = int (length bs)" "len \<le> s_size s"
  shows "scp_recv_loop s 0 len (Rx_Bytes bs # r) = Some (0, s\<lparr>s_data := write_bytes (s_data s) 0 bs\<rparr>, r)"
  using assms by (subst scp_recv_loop.simps) (simp add: scp_recv_loop.simps)

lemma v1s_accept_body_overflow:
  assumes size: "upcoming c (enc32_be n @ [])" and n: "8204 < n" "n < 2147483648"
    and rx: "sc_rx c = [Rx_Bytes bs]" "8196 < length bs" and blk: "s_size (sc_in_s c) \<le> 8196" "0 \<le> s_size (sc_in_s c)"
  shows "v1s_accept_body c = None"
proof -
  have "in_uint32_be (sc_in_s c) = Some (n, in_uint8s (sc_in_s c) 4)"
    using in_uint32_be_pending[of "sc_in_s c" n] size n by (simp add: upcoming_def u32_id)
  moreover have "scp_recv_loop (init_stream (in_uint8s (sc_in_s c) 4) (s_size (sc_in_s c))) 0 (s32 (n - 8)) [Rx_Bytes bs] = None"
    using n rx blk by (intro scp_recv_overflow) (simp_all add: s32_id)
  ultimately show ?thesis using n by (simp add: v1s_accept_body_def sc_get_def scp_tcp_force_recv_def rx sc_init_in_def)
qed

text \<open>C39. The size of a request is not checked against the block it is received into. A client
  that has not authenticated itself, announces a size above 8204 in the header of a version 0 or 1
  request and then sends more than 8196 bytes makes the server store past the end of its input
  block.\<close>

theorem scp_oversized_request_overflows:
  assumes fresh: "fresh_connection 8 d" and v: "v = 0 \<or> v = 1" and n: "8204 < n" "n < 2147483648"
    and rx: "sc_rx d = [Rx_Bytes (enc32_be v @ enc32_be n), Rx_Bytes payload]" and len: "8196 < length payload"
  shows "scp_vXs_accept d = None"
proof -
  define m where "m = write_bytes (s_data (sc_in_s d)) 0 (enc32_be v @ enc32_be n)"
  define d1 where "d1 = d\<lparr>sc_in_s := (sc_in_s d)\<lparr>s_data := m\<rparr>, sc_rx := [Rx_Bytes payload]\<rparr>"
  have p: "s_p (sc_in_s d) = 0" "8 \<le> s_size (sc_in_s d)" "s_size (sc_in_s d) \<le> 8196" using fresh by (simp_all add: fresh_connection_def)
  have recv: "scp_tcp_force_recv d 8 = Some (0, d1)"
    using recv_exact_segment[of "enc32_be v @ enc32_be n" 8 "sc_in_s d" "[Rx_Bytes payload]"] p
    by (simp add: scp_tcp_force_recv_def rx d1_def m_def enc32_be_def)
  have pend: "pending (sc_in_s d1) (enc32_be v)" "upcoming (sc_skip d1 4) (enc32_be n @ [])"
    using p bytes_at_write_bytes[of "s_data (sc_in_s d)" 0 "enc32_be v @ enc32_be n"]
    by (simp_all add: d1_def upcoming_def pending_def m_def[symmetric] bytes_at_append)
  have ver: "sc_get d1 in_uint32_be = Some (v, sc_skip d1 4)"
    using in_uint32_be_pending[OF pend(1)] v by (auto simp: sc_get_def sc_skip_def u32_id)
  have "v0s_accept_body 0 (sc_skip d1 4) = None" "v1s_accept_body (sc_skip d1 4) = None"
    using v0s_accept_body_overflow[OF pend(2) n] v1s_accept_body_overflow[OF pend(2) n] p len by (simp_all add: d1_def)
  then show ?thesis using v by (auto simp: scp_vXs_accept_def recv ver scp_v0s_accept_def scp_v1s_accept_def)
qed

theorem scp_oversized_request_overflows_witness:
  "scp_vXs_accept (scp_connection_create [Rx_Bytes (enc32_be 1 @ enc32_be 10000), Rx_Bytes (replicate 9000 0)] []) = None"
  by (rule scp_oversized_request_overflows[where v = 1 and n = 10000 and payload = "replicate 9000 0"])
    (simp_all add: scp_connection_create_def fresh_connection_def)

subsection \<open>What the server sends without having written it\<close>

lemma recv_packet_ok:
  assumes rx: "rx_stream (sc_rx c) = v1_packet cmdset cmd body @ q"
    and fits: "8 \<le> s_size (sc_in_s c)" "4 + int (length body) \<le> s_size (sc_in_s c)" "s_size (sc_in_s c) < 2147483640" and min: "m \<le> 12"
  shows "\<exists>c'. v1_recv_packet m c = Some (Pkt_Ok, c') \<and> upcoming c' (enc16_be cmdset @ enc16_be cmd @ body @ [])
     \<and> rx_stream (sc_rx c') = q \<and> only_read c c'"
proof -
  have "wp (v1_recv_packet m c \<bind> Some) (\<lambda>x. \<exists>c'. x = (Pkt_Ok, c') \<and> upcoming c' (enc16_be cmdset @ enc16_be cmd @ body @ [])
      \<and> rx_stream (sc_rx c') = q \<and> only_read c c')"
    by (rule recv_packet_bind[OF rx fits min]) simp
  then show ?thesis by (auto simp: wp_exists bind_eq_Some)
qed

text \<open>One entry of a list: twenty bytes, and then a read of the output block where nothing was written.\<close>

lemma writes_entry: "\<exists>bs. length bs = 20 \<and> writes (v1_put_entry cds) bs"
proof (intro exI conjI)
  show "writes (v1_put_entry cds) (enc32_be (ds_SID cds) @ enc8 (ds_type cds) @ enc16_be (ds_height cds) @ enc16_be (ds_width cds)
      @ enc8 (ds_bpp cds) @ enc8 (ds_idle_days cds) @ enc8 (ds_idle_hours cds) @ enc8 (ds_idle_minutes cds)
      @ enc16_be (ds_conn_year cds) @ enc8 (ds_conn_month cds) @ enc8 (ds_conn_day cds) @ enc8 (ds_conn_hour cds)
      @ enc8 (ds_conn_minute cds) @ enc8 (ds_addr_type cds))"
    unfolding v1_put_entry_def by (intro writes_bind writes_out)
qed simp

lemma v1_put_session_unwritten:
  assumes room: "room (sc_out_s c) 20" and addr: "ds_addr_type cds = 0 \<or> ds_addr_type cds = 1"
    and hole: "s_data (sc_out_s c) (s_p (sc_out_s c) + 20) = None"
  shows "v1_put_session c cds = None"
proof -
  obtain bs where bs: "length bs = 20" "writes (v1_put_entry cds) bs" using writes_entry by blast
  define o1 where "o1 = emit (sc_out_s c) bs"
  have put: "v1_put_entry cds c = Some (c\<lparr>sc_out_s := o1\<rparr>)" using bs room by (simp add: writes_def o1_def)
  have hole1: "s_data o1 (s_p o1) = None" using hole bs(1) by (simp add: o1_def write_bytes_above)
  then have "in_uint32_be o1 = None" "in_uint8a o1 16 = None"
    by (simp_all add: in_uint32_be_def rd8_def in_uint8a_def numeral_eq_Suc)
  then show ?thesis using addr by (auto simp: v1_put_session_def put)
qed

lemma v1_put_list_packet_unwritten:
  assumes size: "38 \<le> s_size (sc_out_s c)" and cnt: "0 < sescnt" "sescnt \<le> length ds"
    and addr: "ds_addr_type (ds ! 0) = 0 \<or> ds_addr_type (ds ! 0) = 1" and hole: "s_data (sc_out_s c) 38 = None"
  shows "v1_put_list_packet cmdset cmd sescnt 0 ds c = None"
proof -
  define last where "last = (sescnt \<le> SCP_SERVER_MAX_LIST_SIZE)"
  define pidx where "pidx = (if last then sescnt else SCP_SERVER_MAX_LIST_SIZE)"
  have pidx: "pidx = Suc (pidx - 1)" using cnt(1) by (simp add: pidx_def)
  define o0 where "o0 = s_push_layer (init_stream (sc_out_s c) (s_size (sc_out_s c))) channel_hdr_update 8"
  define o1 where "o1 = emit o0 (enc16_be cmdset @ enc16_be cmd @ enc32_be (int sescnt) @ enc8 (if last then 0 else 1) @ enc8 (int pidx))"
  have o0: "s_p o0 = 8" "s_size o0 = s_size (sc_out_s c)" "s_data o0 = s_data (sc_out_s c)"
    by (simp_all add: o0_def s_push_layer_def init_stream_def)
  have o1: "s_p o1 = 18" "s_size o1 = s_size (sc_out_s c)" "s_data o1 38 = None"
    using hole by (simp_all add: o1_def o0 write_bytes_above)
  have ses: "v1_put_session (c\<lparr>sc_out_s := o1\<rparr>) (ds ! 0) = None"
    using size by (intro v1_put_session_unwritten[OF _ addr]) (simp_all add: o1 room_def)
  have "v1_put_sessions 0 pidx ds (c\<lparr>sc_out_s := o1\<rparr>) 18 = None"
    using cnt by (subst pidx) (simp add: ses)
  then show ?thesis using size unfolding o1_def pidx_def
    by (cases last) (simp_all add: v1_put_list_packet_def Let_def sc_init_out_def o0_def[symmetric] sc_put_def out_emit room_def o0
      last_def[symmetric])
qed

lemma list_packet_count_pos: "0 < sescnt \<Longrightarrow> list_packet_count sescnt \<noteq> 0"
  by (auto simp: list_packet_count_def div_eq_0_iff)

lemma writes_Some: "writes Some []"
  by (simp add: writes_def)

text \<open>The address of a session never reaches the list. \<open>scp_v1s_list_sessions\<close> (and its management
  counterpart) take the address out of the output stream where they should put it in: after the
  client asked for the list, the first entry with an IPv4 or IPv6 address makes the server use bytes
  of its output block that nobody has written.\<close>

theorem scp_list_uses_unwritten_bytes:
  assumes fresh: "fresh_connection 38 c" and clean: "s_data (sc_out_s c) = (\<lambda>_. None)"
    and tx: "12 \<le> tx_room (sc_tx c)" and ack: "rx_stream (sc_rx c) = v1_packet 0 41 [] @ q"
    and cnt: "0 < sescnt" "sescnt \<le> length ds" and addr: "ds_addr_type (ds ! 0) = 0 \<or> ds_addr_type (ds ! 0) = 1"
  shows "scp_v1s_list_sessions c sescnt ds = None \<and> scp_v1s_mng_list_sessions c sescnt ds = None"
proof -
  have c: "38 \<le> s_size (sc_out_s c)" "8 \<le> s_size (sc_in_s c)" "s_size (sc_in_s c) \<le> 8196"
    using fresh by (auto simp: fresh_connection_def)
  have none: "v1_put_list_packets cmdset cmd sescnt 0 (list_packet_count sescnt) ds c' = None"
    if "38 \<le> s_size (sc_out_s c')" "s_data (sc_out_s c') 38 = None" for cmdset cmd c'
    using v1_put_list_packet_unwritten[OF that(1) cnt addr that(2)] list_packet_count_pos[OF cnt(1)]
    by (cases "list_packet_count sescnt") simp_all
  let ?f = "\<lambda>(r, c). if r \<noteq> (0 :: int) then Some (SCP_SERVER_STATE_NETWORK_ERR, None, ds, c) else do {
     (e, c) \<leftarrow> v1_recv_packet 12 c;
     if e \<noteq> Pkt_Ok then Some (server_error e, None, ds, c) else do {
     (cmd, c) \<leftarrow> sc_get c in_uint16_be;
     if cmd \<noteq> SCP_COMMAND_SET_DEFAULT then Some (SCP_SERVER_STATE_SEQUENCE_ERR, None, ds, c) else do {
     (cmd, c) \<leftarrow> sc_get c in_uint16_be;
     if cmd \<noteq> 41 then Some (SCP_SERVER_STATE_SEQUENCE_ERR, None, ds, c) else do {
     (r, ds, c) \<leftarrow> v1_put_list_packets SCP_COMMAND_SET_DEFAULT 42 sescnt 0 (list_packet_count sescnt) ds c;
     if r \<noteq> 0 then Some (SCP_SERVER_STATE_NETWORK_ERR, None, ds, c) else v1s_list_choice sescnt ds c }}}}"
  obtain c1 where c1: "scp_v1s_list_sessions c sescnt ds = ?f (0, c1)" "sc_rx c1 = sc_rx c" "sc_in_s c1 = sc_in_s c"
      "sc_out_s c1 = emit (sc_out_s (sc_init_out c)) (v1_packet 0 40 [])"
    using send_packet[OF writes_Some, where c = "sc_init_out c" and len = 12 and cmdset = 0 and cmd = 40 and f = ?f] c tx
    unfolding scp_v1s_list_sessions_def by auto
  have hole: "38 \<le> s_size (sc_out_s c1)" "s_data (sc_out_s c1) 38 = None"
    using c clean by (simp_all add: c1(4) write_bytes_above) (simp add: sc_init_out_def init_stream_def)
  obtain c2 where c2: "v1_recv_packet 12 c1 = Some (Pkt_Ok, c2)" "upcoming c2 (enc16_be 0 @ enc16_be 41 @ [] @ [])" "only_read c1 c2"
    using recv_packet_ok[of c1 0 41 "[]" q 12] ack c c1(2,3) by auto
  have pend: "pending (sc_in_s c2) (enc16_be 0)" "pending (in_uint8s (sc_in_s c2) 2) (enc16_be 41)"
    using c2(2) by (simp_all add: upcoming_def pending_append)
  have reads: "sc_get c2 in_uint16_be = Some (0, sc_skip c2 2)" "sc_get (sc_skip c2 2) in_uint16_be = Some (41, sc_skip c2 4)"
    using in_uint16_be_pending[OF pend(1)] in_uint16_be_pending[OF pend(2)] by (simp_all add: sc_get_def sc_skip_def u16_def)
  have "v1_put_list_packets 0 42 sescnt 0 (list_packet_count sescnt) ds (sc_skip c2 4) = None"
    using hole c2(3) by (intro none) (simp_all add: only_read_def)
  then have "scp_v1s_list_sessions c sescnt ds = None" by (simp add: c1(1) c2(1) reads)
  moreover have "scp_v1s_mng_list_sessions c sescnt ds = None"
    using none[of c 1 6] c(1) clean cnt(1) by (simp add: scp_v1s_mng_list_sessions_def)
  ultimately show ?thesis ..
qed

definition demo_entry :: scp_disconnected_session where
  "demo_entry = \<lparr>ds_SID = 4711, ds_type = 1, ds_status = 0, ds_height = 600, ds_width = 800, ds_bpp = 24, ds_idle_days = 0,
     ds_idle_hours = 0, ds_idle_minutes = 0, ds_conn_year = 2020, ds_conn_month = 1, ds_conn_day = 1, ds_conn_hour = 0,
     ds_conn_minute = 0, ds_addr_type = 0, ds_ipv4addr = 0x7f000001, ds_ipv6addr = replicate 16 0\<rparr>"

theorem scp_list_uses_unwritten_bytes_witness:
  "scp_v1s_list_sessions (demo_peer (v1_packet 0 41 [])) 1 [demo_entry] = None
     \<and> scp_v1s_mng_list_sessions (demo_peer (v1_packet 0 41 [])) 1 [demo_entry] = None"
proof (rule scp_list_uses_unwritten_bytes[where q = "[]"])
  show "fresh_connection 38 (demo_peer (v1_packet 0 41 []))"
    using demo_peer_fresh(1)[of "v1_packet 0 41 []"] by (simp add: fresh_connection_def)
  show "s_data (sc_out_s (demo_peer (v1_packet 0 41 []))) = (\<lambda>_. None)"
    by (simp add: demo_peer_def scp_connection_create_def init_stream_def)
qed (simp_all add: demo_peer_fresh demo_peer_rx demo_entry_def)

text \<open>An error message announces the length of its text and sends as many bytes that were never
  written.\<close>

lemma scp_connection_error_unwritten:
  assumes fresh: "fresh_connection 12 c" and clean: "s_data (sc_out_s c) = (\<lambda>_. None)" and err: "error \<noteq> []" "length error < 65536"
  shows "scp_v1s_connection_error c error = None"
proof -
  let ?len = "12 + int (length error)"
  define o1 where "o1 = emit (sc_out_s (sc_init_out c)) (enc32_be 1 @ enc32_be ?len @ enc16_be 0 @ enc16_be 0xFFFF)"
  have put: "v1_put_header (sc_init_out c) ?len 0 0xFFFF = Some ((sc_init_out c)\<lparr>sc_out_s := o1\<rparr>)"
    using writes_header[of ?len 0 "0xFFFF"] fresh by (simp add: writes_def o1_def room_def fresh_connection_def)
  have hole: "s_data o1 12 = None"
    using clean by (simp add: o1_def write_bytes_above) (simp add: sc_init_out_def init_stream_def)
  have "read_bytes (s_data o1) 0 (nat ?len) = None"
  proof (rule ccontr)
    assume "read_bytes (s_data o1) 0 (nat ?len) \<noteq> None"
    then obtain bs where "length bs = nat ?len" "bytes_at (s_data o1) 0 bs" using read_bytes_SomeD by blast
    moreover have "12 < nat ?len" using err(1) by (cases error) simp_all
    ultimately have "s_data o1 (0 + int 12) = Some (bs ! 12)" by (intro bytes_at_nth[THEN iffD1, rule_format]) simp_all
    then show False using hole by simp
  qed
  then have "scp_tcp_force_send ((sc_init_out c)\<lparr>sc_out_s := o1\<rparr>) ?len = None"
    by (simp add: scp_tcp_force_send_def)
  then show ?thesis using err(2) by (simp add: scp_v1s_connection_error_def put u16_id)
qed

subsection \<open>Refusing a management login\<close>

text \<open>The reason of a refused management login is lost: \<open>scp_v1s_mng_deny_connection\<close> writes its
  length as two bytes, \<open>_scp_v1c_mng_check_response\<close> reads one, the high byte. For every reason
  shorter than 256 characters the client ends denied with an empty error string.\<close>

theorem mng_denial_loses_reason:
  assumes len: "length reason < 256" and d: "fresh_connection 300 d" "300 \<le> tx_room (sc_tx d)"
    and c: "fresh_connection 300 c" "rx_stream (sc_rx c) = v1_packet 1 3 (enc16_be (int (length reason)) @ reason)"
  shows "\<exists>d' c'. scp_v1s_mng_deny_connection d reason = Some (SCP_SERVER_STATE_END, d')
     \<and> sc_wire d' = rx_stream (sc_rx c)
     \<and> scp_v1c_mng_check_response c s = Some (SCP_CLIENT_STATE_CONNECTION_DENIED, s\<lparr>ss_errstr := Some []\<rparr>, c')"
proof -
  have "length reason + 14 \<le> nat (s_size (sc_out_s d))" "s_size (sc_out_s d) \<le> 8196" "length reason + 14 \<le> tx_room (sc_tx d)"
    using d len by (auto simp: fresh_connection_def)
  from v1_put_reason_sends[OF this, of 1 3] obtain d' where d': "v1_put_reason d 1 3 reason = Some (0, d')"
      "sc_wire d' = v1_packet 1 3 (enc16_be (int (length reason)) @ reason)"
    using d(1) by (auto simp: fresh_connection_def)
  have hi: "enc16_be (int (length reason)) @ reason = enc8 0 @ [] @ enc8 (int (length reason)) @ reason"
    using len by (simp add: enc16_be_def enc8_def)
  have size: "8 \<le> s_size (sc_in_s c)" "4 + int (length (enc16_be (int (length reason)) @ reason)) \<le> s_size (sc_in_s c)"
    "s_size (sc_in_s c) < 2147483640" using c(1) len by (auto simp: fresh_connection_def)
  have "wp (scp_v1c_mng_check_response c s) (\<lambda>x. \<exists>c'. x = (SCP_CLIENT_STATE_CONNECTION_DENIED, s\<lparr>ss_errstr := Some []\<rparr>, c'))"
    unfolding scp_v1c_mng_check_response_def
    apply (rule recv_packet_bind[OF _ size, where q = "[]"], use c(2) in simp, simp)
    apply (simp only: prod.case simp_thms if_False)
    apply (rule get16_bind, assumption, simp, simp)
    apply (simp only: prod.case simp_thms if_False)
    apply (rule get16_bind, assumption, simp, simp)
    apply simp
    apply (rule v1_string_bind[where t = None and q = "enc8 (int (length reason)) @ reason"])
      apply (simp add: hi v1_string_def g_strlen_def field_bytes_def)
     apply (simp add: g_strlen_def)
    apply (simp add: field_bytes_def errstr.str_stored c_str_def)
    done
  then obtain c' where "scp_v1c_mng_check_response c s = Some (SCP_CLIENT_STATE_CONNECTION_DENIED, s\<lparr>ss_errstr := Some []\<rparr>, c')"
    by (auto simp: wp_exists)
  then show ?thesis using d' c(2) by (simp add: scp_v1s_mng_deny_connection_def)
qed

theorem mng_denial_loses_reason_witness:
  "\<exists>d' c'. scp_v1s_mng_deny_connection (demo_peer []) [0x6e, 0x6f] = Some (SCP_SERVER_STATE_END, d')
     \<and> scp_v1c_mng_check_response (demo_peer (v1_packet 1 3 (enc16_be 2 @ [0x6e, 0x6f]))) demo_session
         = Some (SCP_CLIENT_STATE_CONNECTION_DENIED, demo_session\<lparr>ss_errstr := Some []\<rparr>, c')"
  using mng_denial_loses_reason[of "[0x6e, 0x6f]" "demo_peer []" "demo_peer (v1_packet 1 3 (enc16_be 2 @ [0x6e, 0x6f]))" demo_session]
    demo_peer_fresh(1)[of "[]"] demo_peer_fresh(1)[of "v1_packet 1 3 (enc16_be 2 @ [0x6e, 0x6f])"]
  by (auto simp: demo_peer_fresh demo_peer_rx fresh_connection_def)

end
