(* ===== verification/Sesman.thy ===== *)
theory Sesman
  imports Scp_Laws
begin

text \<open>
  The session manager, \<open>sesman/\<close>: its configuration (\<open>config.c\<close>), the access rules (\<open>access.c\<close>),
  the table of sessions (\<open>session.c\<close>), the handling of a connection in both protocol versions and
  for management (\<open>scp.c\<close>, \<open>scp_v0.c\<close>, \<open>scp_v1.c\<close>, \<open>scp_v1_mng.c\<close>) and the end of a session
  (\<open>sig.c\<close>).

  The record \<open>sesman_sys\<close> is what the operating system answers while one connection is handled:
  the authentication module, the user and group data base, the displays in use, the process
  identifier the parent gets from \<open>fork\<close>, the time and the random bytes. The children that become X
  server, window manager and channel server are other processes and not part of the manager's
  state; \<open>sm_auth_ended\<close> and \<open>sm_terminated\<close> record the calls of \<open>auth_end\<close> and \<open>g_sigterm\<close>.
  Using a null pointer is a fault.
\<close>

subsection \<open>Strings\<close>

text \<open>\<open>g_strncmp_d(a, b, delim, n) == 0\<close>: the comparison stops at a delimiter.\<close>

fun strncmp_d_eq :: "byte list \<Rightarrow> byte list \<Rightarrow> byte \<Rightarrow> nat \<Rightarrow> bool" where
  "strncmp_d_eq s1 s2 delim 0 \<longleftrightarrow> True"
| "strncmp_d_eq s1 s2 delim (Suc n) \<longleftrightarrow>
     (let c1 = (case s1 of [] \<Rightarrow> 0 | c # _ \<Rightarrow> c); c2 = (case s2 of [] \<Rightarrow> 0 | c # _ \<Rightarrow> c) in
      if c1 = 0 \<or> c1 \<noteq> c2 \<or> c1 = delim \<or> c2 = delim then c1 = c2
      else strncmp_d_eq (tl s1) (tl s2) delim n)"

subsection \<open>Configuration\<close>

record config_security =
  allow_root :: int
  login_retry :: int
  ts_users_enable :: int
  ts_users :: int
  ts_admins_enable :: int
  ts_admins :: int
  ts_always_group_check :: int
  restrict_outbound_clipboard :: int

record config_sessions =
  x11_display_offset :: int
  max_sessions :: int
  max_idle_time :: int
  max_disc_time :: int
  kill_disconnected :: int
  sess_policy :: int

text \<open>\<open>SESMAN_CFG_SESS_POLICY_D\<close>, \<open>_I\<close> and \<open>_C\<close> are bits of the policy.\<close>

abbreviation (input) POLICY_D :: int where "POLICY_D \<equiv> 1"
abbreviation (input) POLICY_I :: int where "POLICY_I \<equiv> 2"
abbreviation (input) POLICY_C :: int where "POLICY_C \<equiv> 4"

text \<open>\<open>atoi\<close>: white space, a sign, digits; and the boolean words.\<close>

definition is_digit :: "byte \<Rightarrow> bool" where
  "is_digit b \<longleftrightarrow> 48 \<le> b \<and> b \<le> 57"

definition digits_value :: "byte list \<Rightarrow> int" where
  "digits_value ds = foldl (\<lambda>v b. 10 * v + (uint b - 48)) 0 ds"

text \<open>Numbers beyond 64 bits, where \<open>atoi\<close> saturates first, are not distinguished here.\<close>

definition g_atoi :: "byte list \<Rightarrow> int" where
  "g_atoi t = (let t = dropWhile (\<lambda>b. b = 32 \<or> 9 \<le> b \<and> b \<le> 13) t in
     case t of
       [] \<Rightarrow> 0
     | b # r \<Rightarrow> s32 (if b = 45 then - digits_value (takeWhile is_digit r)
         else if b = 43 then digits_value (takeWhile is_digit r)
         else digits_value (takeWhile is_digit t)))"

definition g_text2bool :: "byte list \<Rightarrow> int" where
  "g_text2bool t = (if g_atoi t \<noteq> 0 \<or> strcasecmp_eq t (c_text ''true'') \<or> strcasecmp_eq t (c_text ''on'')
     \<or> strcasecmp_eq t (c_text ''yes'') then 1 else 0)"

text \<open>A section as the pairs of \<open>param_n\<close> and \<open>param_v\<close>; \<open>getgroup\<close> is \<open>g_getgroup_info\<close>. The
  structure was cleared by \<open>config_read\<close>.\<close>

definition security_param :: "(byte list \<Rightarrow> int option) \<Rightarrow> byte list \<times> byte list \<Rightarrow> config_security \<Rightarrow> config_security" where
  "security_param getgroup p sc = (case p of (buf, v) \<Rightarrow>
     let sc = (if strcasecmp_eq buf (c_text ''AllowRootLogin'') then sc\<lparr>allow_root := g_text2bool v\<rparr> else sc);
         sc = (if strcasecmp_eq buf (c_text ''MaxLoginRetry'') then sc\<lparr>login_retry := g_atoi v\<rparr> else sc);
         sc = (if strcasecmp_eq buf (c_text ''TerminalServerUsers'')
               then (case getgroup v of None \<Rightarrow> sc | Some gid \<Rightarrow> sc\<lparr>ts_users_enable := 1, ts_users := gid\<rparr>) else sc);
         sc = (if strcasecmp_eq buf (c_text ''TerminalServerAdmins'')
               then (case getgroup v of None \<Rightarrow> sc | Some gid \<Rightarrow> sc\<lparr>ts_admins_enable := 1, ts_admins := gid\<rparr>) else sc);
         sc = (if strcasecmp_eq buf (c_text ''AlwaysGroupCheck'') then sc\<lparr>ts_always_group_check := g_text2bool v\<rparr> else sc)
     in if strcasecmp_eq buf (c_text ''RestrictOutboundClipboard'') then sc\<lparr>restrict_outbound_clipboard := g_text2bool v\<rparr> else sc)"

definition config_read_security :: "(byte list \<Rightarrow> int option) \<Rightarrow> (byte list \<times> byte list) list \<Rightarrow> config_security" where
  "config_read_security getgroup params = fold (security_param getgroup) params
     \<lparr>allow_root = 0, login_retry = 3, ts_users_enable = 0, ts_users = 0, ts_admins_enable = 0, ts_admins = 0,
      ts_always_group_check = 0, restrict_outbound_clipboard = 0\<rparr>"

definition policy_of_text :: "byte list \<Rightarrow> int" where
  "policy_of_text v =
     (if strcasecmp_eq v (c_text ''Default'') then 0
      else if strcasecmp_eq v (c_text ''UBD'') then POLICY_D
      else if strcasecmp_eq v (c_text ''UBI'') then POLICY_I
      else if strcasecmp_eq v (c_text ''UBC'') then POLICY_C
      else if strcasecmp_eq v (c_text ''UBDI'') then POLICY_D OR POLICY_I
      else if strcasecmp_eq v (c_text ''UBDC'') then POLICY_D OR POLICY_C
      else 0)"

definition sessions_param :: "byte list \<times> byte list \<Rightarrow> config_sessions \<Rightarrow> config_sessions" where
  "sessions_param p se = (case p of (buf, v) \<Rightarrow>
     let se = (if strcasecmp_eq buf (c_text ''X11DisplayOffset'') then se\<lparr>x11_display_offset := g_atoi v\<rparr> else se);
         se = (if strcasecmp_eq buf (c_text ''MaxSessions'') then se\<lparr>max_sessions := g_atoi v\<rparr> else se);
         se = (if strcasecmp_eq buf (c_text ''KillDisconnected'') then se\<lparr>kill_disconnected := g_text2bool v\<rparr> else se);
         se = (if strcasecmp_eq buf (c_text ''IdleTimeLimit'') then se\<lparr>max_idle_time := g_atoi v\<rparr> else se);
         se = (if strcasecmp_eq buf (c_text ''DisconnectedTimeLimit'') then se\<lparr>max_disc_time := g_atoi v\<rparr> else se)
     in if strcasecmp_eq buf (c_text ''Policy'') then se\<lparr>sess_policy := policy_of_text v\<rparr> else se)"

definition config_read_sessions :: "(byte list \<times> byte list) list \<Rightarrow> config_sessions" where
  "config_read_sessions params = fold sessions_param params
     \<lparr>x11_display_offset = 10, max_sessions = 0, max_idle_time = 0, max_disc_time = 0, kill_disconnected = 0, sess_policy = 0\<rparr>"

record config_sesman =
  cfg_sec :: config_security
  cfg_sess :: config_sessions

subsection \<open>The manager's state and the system around it\<close>

record session_date =
  sd_year :: int
  sd_month :: int
  sd_day :: int
  sd_hour :: int
  sd_minute :: int

definition zero_time :: session_date where
  "zero_time = \<lparr>sd_year = 0, sd_month = 0, sd_day = 0, sd_hour = 0, sd_minute = 0\<rparr>"

record session_item =
  si_name :: "byte list"
  si_pid :: int
  si_display :: int
  si_width :: int
  si_height :: int
  si_bpp :: int
  si_data :: int
  si_status :: int
  si_type :: int
  si_connect_time :: session_date
  si_disconnect_time :: session_date
  si_idle_time :: session_date
  si_client_ip :: "byte list"
  si_guid :: "byte list"

text \<open>The chain, newest session first. \<open>None\<close> is an element whose \<open>item\<close> is null.\<close>

record sesman =
  sm_sessions :: "session_item option list"
  sm_count :: int
  sm_auth_ended :: "int list"
  sm_terminated :: "int list"

record sesman_sys =
  sy_auth :: "byte list \<Rightarrow> byte list \<Rightarrow> int \<times> int"
  sy_user_info :: "byte list \<Rightarrow> int option"
  sy_in_group :: "byte list \<Rightarrow> int \<Rightarrow> bool option"
  sy_x_running :: "int \<Rightarrow> bool"
  sy_fork :: int
  sy_time :: session_date
  sy_guid :: "byte list"

abbreviation (input) SESMAN_SESSION_TYPE_XRDP :: int where "SESMAN_SESSION_TYPE_XRDP \<equiv> 1"
abbreviation (input) SESMAN_SESSION_TYPE_XVNC :: int where "SESMAN_SESSION_TYPE_XVNC \<equiv> 2"
abbreviation (input) SESMAN_SESSION_TYPE_XORG :: int where "SESMAN_SESSION_TYPE_XORG \<equiv> 3"
abbreviation (input) SESMAN_SESSION_STATUS_ACTIVE :: int where "SESMAN_SESSION_STATUS_ACTIVE \<equiv> 1"
abbreviation (input) SESMAN_SESSION_STATUS_DISCONNECTED :: int where "SESMAN_SESSION_STATUS_DISCONNECTED \<equiv> 4"
abbreviation (input) SESMAN_SESSION_STATUS_ALL :: int where "SESMAN_SESSION_STATUS_ALL \<equiv> 255"
abbreviation (input) SESMAN_SESSION_KILL_OK :: int where "SESMAN_SESSION_KILL_OK \<equiv> 0"
abbreviation (input) SESMAN_SESSION_KILL_NULLITEM :: int where "SESMAN_SESSION_KILL_NULLITEM \<equiv> 1"
abbreviation (input) SESMAN_SESSION_KILL_NOTFOUND :: int where "SESMAN_SESSION_KILL_NOTFOUND \<equiv> 2"

subsection \<open>Access rules\<close>

text \<open>The common end of both tests: primary group or membership.\<close>

definition in_group_rule :: "sesman_sys \<Rightarrow> byte list \<Rightarrow> int \<Rightarrow> int" where
  "in_group_rule sy user grp = (case sy_user_info sy user of
     None \<Rightarrow> 0
   | Some gid \<Rightarrow> if grp = gid then 1
       else (case sy_in_group sy user grp of None \<Rightarrow> 0 | Some ok \<Rightarrow> if ok then 1 else 0))"

definition access_login_allowed :: "config_security \<Rightarrow> sesman_sys \<Rightarrow> byte list \<Rightarrow> int" where
  "access_login_allowed sec sy user =
     (if strncmp_eq user (c_text ''root'') 5 \<and> allow_root sec = 0 then 0
      else if ts_users_enable sec = 0 \<and> ts_always_group_check sec = 0 then 1
      else in_group_rule sy user (ts_users sec))"

definition access_login_mng_allowed :: "config_security \<Rightarrow> sesman_sys \<Rightarrow> byte list \<Rightarrow> int" where
  "access_login_mng_allowed sec sy user =
     (if strncmp_eq user (c_text ''root'') 5 \<and> allow_root sec = 0 then 0
      else if ts_admins_enable sec = 0 then 1
      else in_group_rule sy user (ts_admins sec))"

subsection \<open>The session table\<close>

text \<open>The type argument of a search, in the name space of the table.\<close>

definition sesman_type :: "int \<Rightarrow> int option" where
  "sesman_type type =
     (if type = SCP_SESSION_TYPE_XVNC then Some SESMAN_SESSION_TYPE_XVNC
      else if type = SCP_SESSION_TYPE_XRDP then Some SESMAN_SESSION_TYPE_XRDP
      else if type = SCP_SESSION_TYPE_XORG then Some SESMAN_SESSION_TYPE_XORG
      else None)"

text \<open>The condition on one element. The address of the client is only looked at when the policy asks
  for it; it may be a null pointer then.\<close>

definition session_matches ::
  "int \<Rightarrow> byte list \<Rightarrow> int \<Rightarrow> int \<Rightarrow> int \<Rightarrow> int \<Rightarrow> byte list option \<Rightarrow> session_item \<Rightarrow> bool option" where
  "session_matches policy name width height bpp type client_ip item =
     (if \<not> strncmp_eq name (si_name item) 255 then Some False
      else if policy AND POLICY_D \<noteq> 0 \<and> \<not> (si_width item = width \<and> si_height item = height) then Some False
      else do {
        i \<leftarrow> (if policy AND POLICY_I = 0 then Some True else map_option (\<lambda>ip. strncmp_d_eq ip (si_client_ip item) 58 255) client_ip);
        if \<not> i then Some False
        else do {
          c \<leftarrow> (if policy AND POLICY_C = 0 then Some True else map_option (\<lambda>ip. strncmp_eq ip (si_client_ip item) 255) client_ip);
          Some (c \<and> si_bpp item = bpp \<and> si_type item = type) }})"

fun session_search ::
  "(session_item \<Rightarrow> bool option) \<Rightarrow> session_item option list \<Rightarrow> session_item option option" where
  "session_search f [] = Some None"
| "session_search f (None # r) = None"
| "session_search f (Some item # r) = do { b \<leftarrow> f item; if b then Some (Some item) else session_search f r }"

definition session_get_bydata ::
  "config_sessions \<Rightarrow> sesman \<Rightarrow> byte list \<Rightarrow> int \<Rightarrow> int \<Rightarrow> int \<Rightarrow> int \<Rightarrow> byte list option \<Rightarrow> session_item option option" where
  "session_get_bydata sess sm name width height bpp type client_ip = (case sesman_type type of
     None \<Rightarrow> Some None
   | Some ty \<Rightarrow>
       let policy = (if type = SCP_SESSION_TYPE_XVNC then sess_policy sess OR POLICY_D else sess_policy sess) in
       session_search (session_matches policy name width height bpp ty client_ip) (sm_sessions sm))"

fun session_is_display_in_chain :: "int \<Rightarrow> session_item option list \<Rightarrow> bool option" where
  "session_is_display_in_chain display [] = Some False"
| "session_is_display_in_chain display (None # r) = None"
| "session_is_display_in_chain display (Some item # r) =
     (if si_display item = display then Some True else session_is_display_in_chain display r)"

text \<open>The loop runs for \<open>display - offset = 0, 1, ..., max_sessions\<close>; the first argument counts the
  turns that are left.\<close>

fun avail_display_loop :: "nat \<Rightarrow> sesman_sys \<Rightarrow> session_item option list \<Rightarrow> int \<Rightarrow> int option" where
  "avail_display_loop 0 sy chain display = Some 0"
| "avail_display_loop (Suc n) sy chain display = do {
     used \<leftarrow> session_is_display_in_chain display chain;
     if \<not> used \<and> \<not> sy_x_running sy display then Some display
     else avail_display_loop n sy chain (display + 1) }"

definition session_get_avail_display_from_chain :: "config_sessions \<Rightarrow> sesman_sys \<Rightarrow> sesman \<Rightarrow> int option" where
  "session_get_avail_display_from_chain sess sy sm =
     avail_display_loop (nat (max_sessions sess + 1)) sy (sm_sessions sm) (x11_display_offset sess)"

text \<open>The element that the parent fills in.\<close>

definition start_item :: "sesman_sys \<Rightarrow> int \<Rightarrow> int \<Rightarrow> int \<Rightarrow> scp_session \<Rightarrow> byte list \<Rightarrow> session_item" where
  "start_item sy display data type s username =
     \<lparr>si_name = take 255 username, si_pid = sy_fork sy, si_display = display, si_width = ss_width s,
      si_height = ss_height s, si_bpp = ss_bpp s, si_data = data, si_status = SESMAN_SESSION_STATUS_ACTIVE,
      si_type = type, si_connect_time = sy_time sy, si_disconnect_time = zero_time, si_idle_time = zero_time,
      si_client_ip = take 255 (field_bytes (ss_client_ip s)), si_guid = ss_guid s\<rparr>"

text \<open>The parent's side of \<open>session_start_fork\<close>. When \<open>fork\<close> fails the element is freed and the
  display is returned all the same.\<close>

definition session_start_fork ::
  "config_sessions \<Rightarrow> sesman_sys \<Rightarrow> sesman \<Rightarrow> int \<Rightarrow> int \<Rightarrow> scp_session \<Rightarrow> (int \<times> sesman) option" where
  "session_start_fork sess sy sm data type s =
     (if max_sessions sess \<le> sm_count sm then Some (0, sm)
      else do {
        display \<leftarrow> session_get_avail_display_from_chain sess sy sm;
        if display = 0 then Some (0, sm)
        else if sy_fork sy = -1 then Some (display, sm)
        else do {
          username \<leftarrow> ss_username s;
          Some (display, sm\<lparr>sm_sessions := Some (start_item sy display data type s username) # sm_sessions sm, sm_count := sm_count sm + 1\<rparr>) } })"

definition session_reconnect_fork :: "sesman \<Rightarrow> int \<Rightarrow> int \<times> sesman" where
  "session_reconnect_fork sm display = (display, sm)"

text \<open>Removing the first element with the process identifier. The null element is removed
  without counting it.\<close>

fun kill_in_chain :: "int \<Rightarrow> session_item option list \<Rightarrow> int \<times> session_item option list" where
  "kill_in_chain pid [] = (SESMAN_SESSION_KILL_NOTFOUND, [])"
| "kill_in_chain pid (None # r) = (SESMAN_SESSION_KILL_NULLITEM, r)"
| "kill_in_chain pid (Some item # r) =
     (if si_pid item = pid then (SESMAN_SESSION_KILL_OK, r)
      else (case kill_in_chain pid r of (e, r') \<Rightarrow> (e, Some item # r')))"

definition session_kill :: "sesman \<Rightarrow> int \<Rightarrow> int \<times> sesman" where
  "session_kill sm pid = (case kill_in_chain pid (sm_sessions sm) of (e, chain) \<Rightarrow>
     (e, sm\<lparr>sm_sessions := chain, sm_count := (if e = SESMAN_SESSION_KILL_OK then sm_count sm - 1 else sm_count sm)\<rparr>))"

definition session_sigkill_all :: "sesman \<Rightarrow> sesman" where
  "session_sigkill_all sm = sm\<lparr>sm_terminated := sm_terminated sm @ [si_pid item. Some item \<leftarrow> sm_sessions sm]\<rparr>"

text \<open>A null element ends the search without a result here.\<close>

fun session_get_bypid :: "int \<Rightarrow> session_item option list \<Rightarrow> session_item option" where
  "session_get_bypid pid [] = None"
| "session_get_bypid pid (None # r) = None"
| "session_get_bypid pid (Some item # r) = (if si_pid item = pid then Some item else session_get_bypid pid r)"

text \<open>The list for the client. Fields that are not assigned are 0, as the array is cleared.\<close>

definition disconnected_of :: "session_item \<Rightarrow> scp_disconnected_session" where
  "disconnected_of item = \<lparr>ds_SID = u32 (si_pid item), ds_type = si_type item, ds_status = 0, ds_height = u16 (si_height item),
     ds_width = u16 (si_width item), ds_bpp = u8 (si_bpp item), ds_idle_days = sd_day (si_idle_time item),
     ds_idle_hours = sd_hour (si_idle_time item), ds_idle_minutes = sd_minute (si_idle_time item),
     ds_conn_year = sd_year (si_connect_time item), ds_conn_month = sd_month (si_connect_time item),
     ds_conn_day = sd_day (si_connect_time item), ds_conn_hour = sd_hour (si_connect_time item),
     ds_conn_minute = sd_minute (si_connect_time item), ds_addr_type = 0, ds_ipv4addr = 0, ds_ipv6addr = replicate 16 0\<rparr>"

fun session_get_byuser :: "byte list option \<Rightarrow> int \<Rightarrow> session_item option list \<Rightarrow> scp_disconnected_session list option" where
  "session_get_byuser user flags [] = Some []"
| "session_get_byuser user flags (None # r) = None"
| "session_get_byuser user flags (Some item # r) = do {
     ds \<leftarrow> session_get_byuser user flags r;
     Some (if (case user of None \<Rightarrow> True | Some u \<Rightarrow> strncasecmp_eq u (si_name item) 256) \<and> si_status item AND flags \<noteq> 0
       then disconnected_of item # ds else ds) }"

definition auth_end :: "sesman \<Rightarrow> int \<Rightarrow> sesman" where
  "auth_end sm data = sm\<lparr>sm_auth_ended := sm_auth_ended sm @ [data]\<rparr>"

definition sig_sesman_session_end :: "sesman \<Rightarrow> int \<Rightarrow> sesman" where
  "sig_sesman_session_end sm pid = (if pid > 0 then snd (session_kill sm pid) else sm)"

end
