(* ===== verification/Sesman_Process.thy ===== *)
theory Sesman_Process
  imports Sesman
begin

text \<open>
  How the session manager serves one connection: \<open>scp_v0_process\<close>, \<open>scp_v1_process\<close>,
  \<open>scp_v1_mng_process\<close> and \<open>scp_process_start\<close>. They compose the protocol library with the access
  rules and the session table. The loop over password attempts ends because every turn takes a
  packet from the peer; the loop of a management session need not end and has fuel.
\<close>

subsection \<open>Version 0\<close>

text \<open>Starting a session of the type the client asked for; a type outside the three starts nothing.\<close>

definition start_by_type ::
  "config_sessions \<Rightarrow> sesman_sys \<Rightarrow> sesman \<Rightarrow> int \<Rightarrow> scp_session \<Rightarrow> (int \<times> sesman) option" where
  "start_by_type sess sy sm data s =
     (if ss_type s = SCP_SESSION_TYPE_XVNC then session_start_fork sess sy sm data SESMAN_SESSION_TYPE_XVNC s
      else if ss_type s = SCP_SESSION_TYPE_XRDP then session_start_fork sess sy sm data SESMAN_SESSION_TYPE_XRDP s
      else if ss_type s = SCP_SESSION_TYPE_XORG then session_start_fork sess sy sm data SESMAN_SESSION_TYPE_XORG s
      else Some (0, sm))"

text \<open>The branch for an authenticated user: reconnect to a matching session, or start one if the
  access rules allow it. The result is the display (0 for none), the session with its identifier,
  and whether the authentication data is to be closed.\<close>

definition v0_find_or_start ::
  "config_sesman \<Rightarrow> sesman_sys \<Rightarrow> sesman \<Rightarrow> int \<Rightarrow> byte list \<Rightarrow> scp_session \<Rightarrow> (int \<times> scp_session \<times> bool \<times> sesman) option" where
  "v0_find_or_start cfg sy sm data user s = do {
     found \<leftarrow> session_get_bydata (cfg_sess cfg) sm user (ss_width s) (ss_height s) (ss_bpp s) (ss_type s) (ss_client_ip s);
     case found of
       Some item \<Rightarrow> Some (si_display item, s\<lparr>ss_guid := si_guid item\<rparr>, True, snd (session_reconnect_fork sm (si_display item)))
     | None \<Rightarrow>
         if access_login_allowed (cfg_sec cfg) sy user = 1
         then do {
           (_, s) \<leftarrow> scp_session_set_guid s (Some (sy_guid sy));
           (display, sm) \<leftarrow> start_by_type (cfg_sess cfg) sy sm data s;
           Some (display, s, display = 0, sm) }
         else Some (0, s, True, sm) }"

definition scp_v0_process ::
  "config_sesman \<Rightarrow> sesman_sys \<Rightarrow> sesman \<Rightarrow> scp_connection \<Rightarrow> scp_session \<Rightarrow> (sesman \<times> scp_connection) option" where
  "scp_v0_process cfg sy sm c s = do {
     user \<leftarrow> ss_username s;
     pass \<leftarrow> ss_password s;
     let (data, errorcode) = sy_auth sy user pass;
     if ss_type s = SCP_GW_AUTHENTICATION
     then do {
       (_, c) \<leftarrow> scp_v0s_replyauthentication c
         (if data \<noteq> 0 then (if access_login_allowed (cfg_sec cfg) sy user = 1 then errorcode else 32 + 3) else errorcode);
       Some (auth_end sm data, c) }
     else if data \<noteq> 0
     then do {
       (display, s, do_auth_end, sm) \<leftarrow> v0_find_or_start cfg sy sm data user s;
       (_, c) \<leftarrow> (if display = 0 then scp_v0s_deny_connection c else scp_v0s_allow_connection c (u16 display) (Some (ss_guid s)));
       Some (if do_auth_end then auth_end sm data else sm, c) }
     else do {
       (_, c) \<leftarrow> scp_v0s_deny_connection c;
       Some (auth_end sm data, c) } }"

subsection \<open>Version 1\<close>

text \<open>A password request that succeeds has taken a packet from the peer.\<close>

lemma sc_put_rx: "sc_put c f = Some c' \<Longrightarrow> rx_left c' = rx_left c"
  by (auto simp: sc_put_def bind_eq_Some rx_left_def)

lemma v1_put_header_rx: "v1_put_header c len cmdset cmd = Some c' \<Longrightarrow> rx_left c' = rx_left c"
  by (auto simp: v1_put_header_def bind_eq_Some dest!: sc_put_rx)

lemma scp_tcp_force_send_rx: "scp_tcp_force_send c len = Some (r, c') \<Longrightarrow> rx_left c' = rx_left c"
  by (auto simp: scp_tcp_force_send_def bind_eq_Some rx_left_def Let_def case_prod_unfold split: if_splits)

lemma rx_left_init_out [simp]: "rx_left (sc_init_out c) = rx_left c"
  by (simp add: rx_left_def)

lemma v1_put_reason_rx: "v1_put_reason c cmdset cmd t = Some (r, c') \<Longrightarrow> rx_left c' = rx_left c"
  by (auto simp: v1_put_reason_def bind_eq_Some Let_def dest!: v1_put_header_rx sc_put_rx scp_tcp_force_send_rx)

lemma v1_get_string_rx: "v1_get_string c = Some (b, c') \<Longrightarrow> rx_left c' = rx_left c"
  unfolding v1_get_string_def by (elim get_bindE) auto

lemma server_error_OK [simp]: "server_error e = SCP_SERVER_STATE_OK \<longleftrightarrow> e = Pkt_Ok"
  by (cases e) simp_all

lemma bind_pairE:
  assumes "Option.bind m (\<lambda>(x, y). g x y) = Some z"
  obtains x y where "m = Some (x, y)" "g x y = Some z"
  using assms by (auto simp: bind_eq_Some)

lemma scp_v1s_request_password_takes:
  "scp_v1s_request_password c s t = Some (SCP_SERVER_STATE_OK, s', c') \<Longrightarrow> rx_left c' < rx_left c"
  unfolding scp_v1s_request_password_def username.str_stored password.str_stored Let_def prod.case
  apply (erule bind_pairE, drule v1_put_reason_rx, simp split: if_splits)
  apply (erule bind_pairE, simp split: if_splits)
  apply (drule v1_recv_packet_takes)
  apply (erule get_bindE, simp split: if_splits)
  apply (erule get_bindE, simp split: if_splits)
  apply (erule bind_pairE, drule v1_get_string_rx)
  apply (erule bind_pairE, drule v1_get_string_rx)
  apply simp
  done

text \<open>The attempts: \<open>Inl\<close> when the connection is given up, \<open>Inr\<close> with the authentication data, 0 for
  a failure.\<close>

function v1_auth_loop ::
  "sesman_sys \<Rightarrow> int \<Rightarrow> int \<Rightarrow> int \<Rightarrow> scp_session \<Rightarrow> scp_connection
     \<Rightarrow> (scp_connection + int \<times> scp_session \<times> scp_connection) option" where
  "v1_auth_loop sy retries current_try data s c =
     (if data = 0 \<and> (retries = 0 \<or> current_try > 0)
      then (case scp_v1s_request_password c s (c_text ''Wrong username and/or password'') of
          None \<Rightarrow> None
        | Some (e, s', c') \<Rightarrow>
            if e = SCP_SERVER_STATE_OK
            then (case (ss_username s', ss_password s') of
                (Some user, Some pass) \<Rightarrow>
                  v1_auth_loop sy retries (if current_try > 0 then current_try - 1 else current_try) (fst (sy_auth sy user pass)) s' c'
              | _ \<Rightarrow> None)
            else Some (Inl c'))
      else Some (Inr (data, s, c)))"
  by pat_completeness auto
termination
  by (relation "measure (\<lambda>(sy, retries, try, data, s, c). rx_left c)") (auto dest: scp_v1s_request_password_takes)

declare v1_auth_loop.simps [simp del]

text \<open>After the login: a new session when the user has no disconnected one, otherwise the list and
  the client's choice.\<close>

definition v1_serve ::
  "config_sesman \<Rightarrow> sesman_sys \<Rightarrow> sesman \<Rightarrow> scp_connection \<Rightarrow> int \<Rightarrow> byte list \<Rightarrow> scp_session \<Rightarrow> (sesman \<times> scp_connection) option" where
  "v1_serve cfg sy sm c data user s = do {
     slist \<leftarrow> session_get_byuser (Some user) SESMAN_SESSION_STATUS_DISCONNECTED (sm_sessions sm);
     if slist = []
     then do {
       (display, sm) \<leftarrow> start_by_type (cfg_sess cfg) sy sm data s;
       (_, c) \<leftarrow> scp_v1s_connect_new_session c (u16 display);
       Some (if display = 0 then auth_end sm data else sm, c) }
     else do {
       (e, sid, _, c) \<leftarrow> scp_v1s_list_sessions c (length slist) slist;
       c \<leftarrow> (case (e, sid) of
           (SCP_SERVER_STATE_OK, Some sid) \<Rightarrow>
             (case session_get_bypid (s32 sid) (sm_sessions sm) of
                None \<Rightarrow> map_option snd (scp_v1s_connection_error c (c_text ''Internal error''))
              | Some item \<Rightarrow> map_option snd (scp_v1s_reconnect_session c (u16 (si_display item))))
         | _ \<Rightarrow> Some c);
       Some (auth_end sm data, c) } }"

definition scp_v1_process ::
  "config_sesman \<Rightarrow> sesman_sys \<Rightarrow> sesman \<Rightarrow> scp_connection \<Rightarrow> scp_session \<Rightarrow> (sesman \<times> scp_connection) option" where
  "scp_v1_process cfg sy sm c s = do {
     user \<leftarrow> ss_username s;
     pass \<leftarrow> ss_password s;
     res \<leftarrow> v1_auth_loop sy (login_retry (cfg_sec cfg)) (login_retry (cfg_sec cfg)) (fst (sy_auth sy user pass)) s c;
     case res of
       Inl c \<Rightarrow> Some (sm, c)
     | Inr (data, s, c) \<Rightarrow> do {
         user \<leftarrow> ss_username s;
         if data = 0 then do { (_, c) \<leftarrow> scp_v1s_deny_connection c (c_text ''Login failed''); Some (sm, c) }
         else if access_login_allowed (cfg_sec cfg) sy user = 0
         then do { (_, c) \<leftarrow> scp_v1s_deny_connection c (c_text ''Access to Terminal Server not allowed.''); Some (sm, c) }
         else v1_serve cfg sy sm c data user s } }"

subsection \<open>Management\<close>

text \<open>The loop of a management session: it has not returned yet, it has faulted, or it has returned.\<close>

datatype 'a outcome = Running | Faulted | Returned 'a

text \<open>A list request sends the list of all sessions and waits for the next request. An action
  request is logged; the state is not changed and no new request is read.\<close>

fun mng_loop :: "nat \<Rightarrow> sesman \<Rightarrow> scp_server_state \<Rightarrow> scp_connection \<Rightarrow> scp_connection outcome" where
  "mng_loop 0 sm e c = Running"
| "mng_loop (Suc n) sm e c =
     (if e = SCP_SERVER_STATE_MNG_ACTION then mng_loop n sm e c
      else if e = SCP_SERVER_STATE_MNG_LISTREQ
      then (case session_get_byuser None SESMAN_SESSION_STATUS_ALL (sm_sessions sm) of
          None \<Rightarrow> Faulted
        | Some slist \<Rightarrow>
            (case scp_v1s_mng_list_sessions c (length slist) slist of
               None \<Rightarrow> Faulted
             | Some (e, _, c) \<Rightarrow> mng_loop n sm e c))
      else Returned c)"

definition scp_v1_mng_process ::
  "nat \<Rightarrow> config_sesman \<Rightarrow> sesman_sys \<Rightarrow> sesman \<Rightarrow> scp_connection \<Rightarrow> scp_session \<Rightarrow> (sesman \<times> scp_connection) outcome" where
  "scp_v1_mng_process fuel cfg sy sm c s = (case (ss_username s, ss_password s) of
     (Some user, Some pass) \<Rightarrow>
       let data = fst (sy_auth sy user pass) in
       if data = 0
       then (case scp_v1s_mng_deny_connection c (c_text ''Login failed'') of
           None \<Rightarrow> Faulted | Some (_, c) \<Rightarrow> Returned (auth_end sm data, c))
       else if access_login_mng_allowed (cfg_sec cfg) sy user = 0
       then (case scp_v1s_mng_deny_connection c (c_text ''Access to Terminal Server not allowed.'') of
           None \<Rightarrow> Faulted | Some (_, c) \<Rightarrow> Returned (auth_end sm data, c))
       else (case scp_v1s_mng_allow_connection c of
           None \<Rightarrow> Faulted
         | Some (e, c) \<Rightarrow>
             (case mng_loop fuel sm e c of
                Running \<Rightarrow> Running | Faulted \<Rightarrow> Faulted | Returned c \<Rightarrow> Returned (auth_end sm data, c)))
   | _ \<Rightarrow> Faulted)"

subsection \<open>One connection\<close>

text \<open>The streams of a connection of the manager have 8192 bytes.\<close>

definition sesman_connection :: "rx_event list \<Rightarrow> tx_event list \<Rightarrow> scp_connection" where
  "sesman_connection rx tx = \<lparr>sc_in_s = init_stream make_stream 8192, sc_out_s = init_stream make_stream 8192,
     sc_rx = rx, sc_tx = tx, sc_wire = []\<rparr>"

definition option_outcome :: "'a option \<Rightarrow> 'a outcome" where
  "option_outcome m = (case m of None \<Rightarrow> Faulted | Some x \<Rightarrow> Returned x)"

definition scp_process_start ::
  "nat \<Rightarrow> config_sesman \<Rightarrow> sesman_sys \<Rightarrow> sesman \<Rightarrow> rx_event list \<Rightarrow> tx_event list \<Rightarrow> (sesman \<times> scp_connection) outcome" where
  "scp_process_start fuel cfg sy sm rx tx = (case scp_vXs_accept (sesman_connection rx tx) of
     None \<Rightarrow> Faulted
   | Some (e, sdata, c) \<Rightarrow>
       if e = SCP_SERVER_STATE_OK
       then (case sdata of
           None \<Rightarrow> Faulted
         | Some s \<Rightarrow> if ss_version s = 0 then option_outcome (scp_v0_process cfg sy sm c s)
             else option_outcome (scp_v1_process cfg sy sm c s))
       else if e = SCP_SERVER_STATE_START_MANAGE
       then (case sdata of None \<Rightarrow> Faulted | Some s \<Rightarrow> scp_v1_mng_process fuel cfg sy sm c s)
       else Returned (sm, c))"

end
