(* ===== verification/Sesman_Laws.thy ===== *)
theory Sesman_Laws
  imports Sesman_Process
begin

text \<open>
  What the session manager guarantees: the invariant of its table over every sequence of connections
  and ended sessions, who is given which display, and where it fails to do what its documentation
  says.
\<close>

subsection \<open>The table as a map\<close>

text \<open>An element of the chain is never null, process identifiers are unique.\<close>

definition chain_ok :: "session_item option list \<Rightarrow> bool" where
  "chain_ok chain \<longleftrightarrow> None \<notin> set chain \<and> distinct (map (si_pid \<circ> the) chain)"

definition chain_items :: "session_item option list \<Rightarrow> session_item list" where
  "chain_items chain = map the chain"

definition chain_map :: "session_item option list \<Rightarrow> int \<rightharpoonup> session_item" where
  "chain_map chain = map_of (map (\<lambda>item. (si_pid item, item)) (chain_items chain))"

text \<open>The contract of a table of sessions indexed by process identifier.\<close>

locale pid_table =
  fixes ok :: "'t \<Rightarrow> bool"
    and abs :: "'t \<Rightarrow> int \<rightharpoonup> session_item"
    and get :: "int \<Rightarrow> 't \<Rightarrow> session_item option"
    and add :: "session_item \<Rightarrow> 't \<Rightarrow> 't"
    and remove :: "int \<Rightarrow> 't \<Rightarrow> 't"
    and empty :: 't
  assumes empty_ok: "ok empty" and empty_abs: "abs empty = Map.empty"
    and get_law: "ok t \<Longrightarrow> get pid t = abs t pid"
    and add_law: "ok t \<Longrightarrow> abs t (si_pid item) = None \<Longrightarrow> ok (add item t) \<and> abs (add item t) = (abs t)(si_pid item \<mapsto> item)"
    and remove_law: "ok t \<Longrightarrow> ok (remove pid t) \<and> abs (remove pid t) = (abs t)(pid := None)"
begin

lemma get_add: "ok t \<Longrightarrow> abs t (si_pid item) = None \<Longrightarrow> get pid (add item t) = (if pid = si_pid item then Some item else get pid t)"
  using add_law[of t item] by (simp add: get_law)

lemma get_remove: "ok t \<Longrightarrow> get pid (remove pid' t) = (if pid = pid' then None else get pid t)"
  using remove_law[of t pid'] by (simp add: get_law)

lemma remove_add: "ok t \<Longrightarrow> abs t (si_pid item) = None \<Longrightarrow> abs (remove (si_pid item) (add item t)) = abs t"
  using add_law[of t item] remove_law[of "add item t" "si_pid item"] by auto

end

lemma chain_ok_simps [simp]:
  "chain_ok []" "chain_ok (None # r) \<longleftrightarrow> False"
  "chain_ok (Some item # r) \<longleftrightarrow> chain_ok r \<and> si_pid item \<notin> si_pid ` set (chain_items r)"
  by (auto simp: chain_ok_def chain_items_def image_comp)

lemma chain_items_simps [simp]: "chain_items [] = []" "chain_items (Some item # r) = item # chain_items r"
  by (simp_all add: chain_items_def)

lemma chain_map_simps [simp]: "chain_map [] = Map.empty" "chain_map (Some item # r) = (chain_map r)(si_pid item \<mapsto> item)"
  by (simp_all add: chain_map_def)

lemma chain_map_None: "chain_map r pid = None \<longleftrightarrow> pid \<notin> si_pid ` set (chain_items r)"
  by (simp add: chain_map_def map_of_eq_None_iff image_comp comp_def)

lemma kill_keeps:
  "chain_ok chain \<Longrightarrow> set (chain_items (snd (kill_in_chain pid chain))) \<subseteq> set (chain_items chain)
     \<and> chain_ok (snd (kill_in_chain pid chain))"
proof (induction pid chain rule: kill_in_chain.induct)
  case (3 pid item r)
  then show ?case by (cases "kill_in_chain pid r") (auto simp: subset_iff image_iff)
qed auto

lemma kill_map: "chain_ok chain \<Longrightarrow> chain_map (snd (kill_in_chain pid chain)) = (chain_map chain)(pid := None)"
proof (induction pid chain rule: kill_in_chain.induct)
  case (3 pid item r)
  then have absent: "chain_map r (si_pid item) = None" by (simp add: chain_map_None)
  show ?case
  proof (cases "si_pid item = pid")
    case True
    then show ?thesis using absent by (simp add: fun_eq_iff)
  next
    case False
    then show ?thesis using 3 by (cases "kill_in_chain pid r") (auto simp: fun_eq_iff)
  qed
qed auto

lemma get_bypid_map: "chain_ok chain \<Longrightarrow> session_get_bypid pid chain = chain_map chain pid"
  by (induction pid chain rule: session_get_bypid.induct) auto

interpretation chain: pid_table chain_ok chain_map session_get_bypid "\<lambda>item t. Some item # t" "\<lambda>pid t. snd (kill_in_chain pid t)" "[]"
  by unfold_locales (simp_all add: get_bypid_map chain_map_None kill_keeps kill_map)

subsection \<open>Starting a session\<close>

lemma display_in_chain: "None \<notin> set chain \<Longrightarrow> session_is_display_in_chain d chain = Some (d \<in> si_display ` set (chain_items chain))"
  by (induction d chain rule: session_is_display_in_chain.induct) auto

lemma avail_display:
  "None \<notin> set chain \<Longrightarrow> avail_display_loop n sy chain d = Some x \<Longrightarrow> x \<noteq> 0 \<Longrightarrow>
     d \<le> x \<and> x < d + int n \<and> x \<notin> si_display ` set (chain_items chain) \<and> \<not> sy_x_running sy x"
  by (induction n sy chain d rule: avail_display_loop.induct) (auto simp: display_in_chain split: if_splits)

lemma avail_display_returns: "None \<notin> set chain \<Longrightarrow> \<exists>x. avail_display_loop n sy chain d = Some x"
  by (induction n sy chain d rule: avail_display_loop.induct) (auto simp: display_in_chain)

text \<open>The user whose credentials the authentication module accepted and whom the rules let in.\<close>

definition authorized :: "config_sesman \<Rightarrow> sesman_sys \<Rightarrow> byte list \<Rightarrow> bool" where
  "authorized cfg sy user \<longleftrightarrow> (\<exists>pass. fst (sy_auth sy user pass) \<noteq> 0) \<and> access_login_allowed (cfg_sec cfg) sy user = 1"

definition new_session :: "config_sesman \<Rightarrow> sesman_sys \<Rightarrow> sesman \<Rightarrow> byte list \<Rightarrow> session_item \<Rightarrow> bool" where
  "new_session cfg sy sm user item \<longleftrightarrow> si_name item = take 255 user \<and> si_pid item = sy_fork sy \<and> sy_fork sy \<noteq> -1
     \<and> si_status item = SESMAN_SESSION_STATUS_ACTIVE \<and> si_display item \<noteq> 0
     \<and> x11_display_offset (cfg_sess cfg) \<le> si_display item
     \<and> si_display item \<le> x11_display_offset (cfg_sess cfg) + max_sessions (cfg_sess cfg)
     \<and> si_display item \<notin> si_display ` set (chain_items (sm_sessions sm)) \<and> sm_count sm < max_sessions (cfg_sess cfg)"

text \<open>What serving a connection may do to the table.\<close>

definition same_table :: "sesman \<Rightarrow> sesman \<Rightarrow> bool" where
  "same_table sm sm' \<longleftrightarrow> sm_sessions sm' = sm_sessions sm \<and> sm_count sm' = sm_count sm"

definition table_step :: "config_sesman \<Rightarrow> sesman_sys \<Rightarrow> sesman \<Rightarrow> sesman \<Rightarrow> bool" where
  "table_step cfg sy sm sm' \<longleftrightarrow> same_table sm sm'
     \<or> (\<exists>item user. sm_sessions sm' = Some item # sm_sessions sm \<and> sm_count sm' = sm_count sm + 1
          \<and> new_session cfg sy sm user item \<and> authorized cfg sy user)"

lemma same_table_refl [simp]: "same_table sm sm"
  by (simp add: same_table_def)

lemma auth_end_table [simp]: "sm_sessions (auth_end sm data) = sm_sessions sm" "sm_count (auth_end sm data) = sm_count sm"
  by (simp_all add: auth_end_def)

lemma same_table_auth_end [simp]: "same_table sm (auth_end sm' data) \<longleftrightarrow> same_table sm sm'"
  by (simp add: same_table_def)

lemma table_step_auth_end [simp]: "table_step cfg sy sm (auth_end sm' data) \<longleftrightarrow> table_step cfg sy sm sm'"
  by (simp add: table_step_def same_table_def)

lemma table_step_refl [simp]: "table_step cfg sy sm sm"
  by (simp add: table_step_def)

text \<open>Starting a session: nothing, a display without a session when \<open>fork\<close> fails, or a session.\<close>

lemma session_start_fork_cases:
  assumes ok: "None \<notin> set (sm_sessions sm)" and run: "session_start_fork (cfg_sess cfg) sy sm data type s = Some (display, sm')"
    and user: "ss_username s = Some user"
  shows "display = 0 \<and> sm' = sm \<or> display \<noteq> 0 \<and> sy_fork sy = -1 \<and> sm' = sm
     \<or> (\<exists>item. sm' = sm\<lparr>sm_sessions := Some item # sm_sessions sm, sm_count := sm_count sm + 1\<rparr>
          \<and> si_display item = display \<and> si_guid item = ss_guid s \<and> new_session cfg sy sm user item)"
proof -
  { assume "sm_count sm < max_sessions (cfg_sess cfg)" "session_get_avail_display_from_chain (cfg_sess cfg) sy sm = Some display" "display \<noteq> 0"
    then have "x11_display_offset (cfg_sess cfg) \<le> display \<and> display \<le> x11_display_offset (cfg_sess cfg) + max_sessions (cfg_sess cfg)
        \<and> display \<notin> si_display ` set (chain_items (sm_sessions sm))"
      using avail_display[OF ok, of "nat (max_sessions (cfg_sess cfg) + 1)" sy "x11_display_offset (cfg_sess cfg)" display]
      by (auto simp: session_get_avail_display_from_chain_def nat_eq_iff2 split: if_splits) }
  then show ?thesis using run user
    by (auto simp: session_start_fork_def start_item_def bind_eq_Some new_session_def split: if_splits)
qed

lemma start_by_type_cases:
  assumes ok: "None \<notin> set (sm_sessions sm)" and run: "start_by_type (cfg_sess cfg) sy sm data s = Some (display, sm')"
    and user: "ss_username s = Some user"
  shows "display = 0 \<and> sm' = sm \<or> display \<noteq> 0 \<and> sy_fork sy = -1 \<and> sm' = sm
     \<or> (\<exists>item. sm' = sm\<lparr>sm_sessions := Some item # sm_sessions sm, sm_count := sm_count sm + 1\<rparr>
          \<and> si_display item = display \<and> si_guid item = ss_guid s \<and> new_session cfg sy sm user item)"
  using run session_start_fork_cases[OF ok _ user] by (auto simp: start_by_type_def split: if_splits)

lemma start_by_type_step:
  assumes "None \<notin> set (sm_sessions sm)" "start_by_type (cfg_sess cfg) sy sm data s = Some (display, sm')" "ss_username s = Some user"
    and "authorized cfg sy user"
  shows "table_step cfg sy sm sm'"
  using start_by_type_cases[OF assms(1-3)] assms(4) by (auto simp: table_step_def)

subsection \<open>Serving a connection\<close>

lemma access_login_allowed_bool: "access_login_allowed sec sy user = 0 \<or> access_login_allowed sec sy user = 1"
  by (auto simp: access_login_allowed_def in_group_rule_def split: option.splits)

lemma set_guid_keeps: "scp_session_set_guid s g = Some (r, s') \<Longrightarrow> ss_username s' = ss_username s \<and> ss_type s' = ss_type s"
  by (auto simp: scp_session_set_guid_def split: option.splits if_splits)

lemma v0_find_or_start_cases:
  assumes "v0_find_or_start cfg sy sm data user s = Some (display, s', e, sm')"
  obtains (reconnect) item where
      "session_get_bydata (cfg_sess cfg) sm user (ss_width s) (ss_height s) (ss_bpp s) (ss_type s) (ss_client_ip s) = Some (Some item)"
      "display = si_display item" "s' = s\<lparr>ss_guid := si_guid item\<rparr>" e "sm' = sm"
  | (start) r where "access_login_allowed (cfg_sec cfg) sy user = 1" "scp_session_set_guid s (Some (sy_guid sy)) = Some (r, s')"
      "start_by_type (cfg_sess cfg) sy sm data s' = Some (display, sm')" "e = (display = 0)"
  | (refuse) "access_login_allowed (cfg_sec cfg) sy user \<noteq> 1" "display = 0" "s' = s" e "sm' = sm"
proof -
  obtain found where found:
    "session_get_bydata (cfg_sess cfg) sm user (ss_width s) (ss_height s) (ss_bpp s) (ss_type s) (ss_client_ip s) = Some found"
    using assms by (auto simp: v0_find_or_start_def bind_eq_Some)
  show thesis
  proof (cases found)
    case None
    note run = assms[unfolded v0_find_or_start_def found None Option.bind.bind_lunit option.case]
    show thesis
    proof (cases "access_login_allowed (cfg_sec cfg) sy user = 1")
      case True
      then obtain r where "scp_session_set_guid s (Some (sy_guid sy)) = Some (r, s')"
        "start_by_type (cfg_sess cfg) sy sm data s' = Some (display, sm')" "e = (display = 0)"
        using run by (auto simp: bind_eq_Some)
      then show thesis using start True by blast
    next
      case False
      then have "display = 0" "s' = s" e "sm' = sm" using run by auto
      then show thesis using refuse False by blast
    qed
  next
    case (Some item)
    have "display = si_display item" "s' = s\<lparr>ss_guid := si_guid item\<rparr>" e "sm' = sm"
      using assms by (auto simp: v0_find_or_start_def found Some session_reconnect_fork_def)
    then show thesis using reconnect found Some by blast
  qed
qed

lemma v0_find_or_start_step:
  assumes ok: "None \<notin> set (sm_sessions sm)" and run: "v0_find_or_start cfg sy sm data user s = Some (display, s', e, sm')"
    and user: "ss_username s = Some user" and auth: "fst (sy_auth sy user pass) \<noteq> 0"
  shows "table_step cfg sy sm sm'"
  using run
proof (cases rule: v0_find_or_start_cases)
  case (start r)
  then have "ss_username s' = Some user" "authorized cfg sy user"
    using user auth set_guid_keeps[OF start(2)] by (auto simp: authorized_def)
  then show ?thesis using start_by_type_step[OF ok start(3)] by blast
qed simp_all

lemma scp_v0_process_cases:
  assumes "scp_v0_process cfg sy sm c s = Some (sm', c')"
  obtains (gateway) user pass r where "ss_username s = Some user" "ss_password s = Some pass" "ss_type s = SCP_GW_AUTHENTICATION"
      "scp_v0s_replyauthentication c (if fst (sy_auth sy user pass) \<noteq> 0 \<and> access_login_allowed (cfg_sec cfg) sy user \<noteq> 1 then 35
         else snd (sy_auth sy user pass)) = Some (r, c')"
      "sm' = auth_end sm (fst (sy_auth sy user pass))"
  | (login) user pass display s' e sm1 r where "ss_username s = Some user" "ss_password s = Some pass" "ss_type s \<noteq> SCP_GW_AUTHENTICATION"
      "fst (sy_auth sy user pass) \<noteq> 0"
      "v0_find_or_start cfg sy sm (fst (sy_auth sy user pass)) user s = Some (display, s', e, sm1)"
      "(if display = 0 then scp_v0s_deny_connection c else scp_v0s_allow_connection c (u16 display) (Some (ss_guid s'))) = Some (r, c')"
      "sm' = (if e then auth_end sm1 (fst (sy_auth sy user pass)) else sm1)"
  | (failed) user pass r where "ss_username s = Some user" "ss_password s = Some pass" "ss_type s \<noteq> SCP_GW_AUTHENTICATION"
      "fst (sy_auth sy user pass) = 0" "scp_v0s_deny_connection c = Some (r, c')" "sm' = auth_end sm 0"
proof -
  obtain user pass where up: "ss_username s = Some user" "ss_password s = Some pass"
    using assms by (auto simp: scp_v0_process_def bind_eq_Some)
  obtain data err where auth: "sy_auth sy user pass = (data, err)" by (cases "sy_auth sy user pass")
  note run = assms[unfolded scp_v0_process_def up auth Option.bind.bind_lunit Let_def prod.case]
  consider "ss_type s = SCP_GW_AUTHENTICATION" | "ss_type s \<noteq> SCP_GW_AUTHENTICATION" "data \<noteq> 0" | "ss_type s \<noteq> SCP_GW_AUTHENTICATION" "data = 0"
    by blast
  then show thesis
  proof cases
    case 1
    then show thesis using run gateway[OF up] auth by (auto simp: bind_eq_Some split: if_splits)
  next
    case 2
    then show thesis using run login[OF up] auth by (auto simp: bind_eq_Some)
  next
    case 3
    then show thesis using run failed[OF up] auth by (auto simp: bind_eq_Some)
  qed
qed

lemma scp_v0_process_step:
  assumes ok: "None \<notin> set (sm_sessions sm)" and run: "scp_v0_process cfg sy sm c s = Some (sm', c')"
  shows "table_step cfg sy sm sm'"
  using run
proof (cases rule: scp_v0_process_cases)
  case (login user pass display s' e sm1 r)
  then show ?thesis using v0_find_or_start_step[OF ok login(5,1,4)] by simp
qed simp_all

lemma v1_auth_loop_sound:
  "v1_auth_loop sy retries n data s c = Some (Inr (data', s', c')) \<Longrightarrow> ss_username s = Some user \<Longrightarrow>
     fst (sy_auth sy user pass) = data \<Longrightarrow> \<exists>user' pass'. ss_username s' = Some user' \<and> fst (sy_auth sy user' pass') = data'"
proof (induction sy retries n data s c arbitrary: user pass rule: v1_auth_loop.induct)
  case (1 sy retries n data s c)
  show ?case
  proof (cases "data = 0 \<and> (retries = 0 \<or> n > 0)")
    case True
    obtain t d user1 pass1 where req: "scp_v1s_request_password c s (c_text ''Wrong username and/or password'') = Some (SCP_SERVER_STATE_OK, t, d)"
      and up: "ss_username t = Some user1" "ss_password t = Some pass1"
      and rest: "v1_auth_loop sy retries (if n > 0 then n - 1 else n) (fst (sy_auth sy user1 pass1)) t d = Some (Inr (data', s', c'))"
      using 1(2) unfolding v1_auth_loop.simps[of sy retries n data s c] if_P[OF True]
      by (auto split: option.splits if_splits prod.splits)
    show ?thesis by (rule 1(1)[OF True req refl refl refl _ refl refl rest up(1) refl]) (simp add: up)
  next
    case False
    then show ?thesis using 1(2-4) unfolding v1_auth_loop.simps[of sy retries n data s c] if_not_P[OF False] by auto
  qed
qed

lemma v1_serve_step:
  assumes "None \<notin> set (sm_sessions sm)" "v1_serve cfg sy sm c data user s = Some (sm', c')"
    and "ss_username s = Some user" "authorized cfg sy user"
  shows "table_step cfg sy sm sm'"
  using assms start_by_type_step[OF assms(1) _ assms(3,4)]
  by (auto simp: v1_serve_def bind_eq_Some split: if_splits)

lemma scp_v1_process_step:
  assumes ok: "None \<notin> set (sm_sessions sm)" and run: "scp_v1_process cfg sy sm c s = Some (sm', c')"
  shows "table_step cfg sy sm sm'"
proof -
  obtain user pass res where start: "ss_username s = Some user"
    "v1_auth_loop sy (login_retry (cfg_sec cfg)) (login_retry (cfg_sec cfg)) (fst (sy_auth sy user pass)) s c = Some res"
    and res: "(case res of Inl c \<Rightarrow> Some (sm, c)
     | Inr (data, s, c) \<Rightarrow> do {
         user \<leftarrow> ss_username s;
         if data = 0 then do { (_, c) \<leftarrow> scp_v1s_deny_connection c (c_text ''Login failed''); Some (sm, c) }
         else if access_login_allowed (cfg_sec cfg) sy user = 0
         then do { (_, c) \<leftarrow> scp_v1s_deny_connection c (c_text ''Access to Terminal Server not allowed.''); Some (sm, c) }
         else v1_serve cfg sy sm c data user s }) = Some (sm', c')"
    using run unfolding scp_v1_process_def bind_eq_Some by blast
  show ?thesis
  proof (cases res)
    case (Inl d)
    then show ?thesis using res by simp
  next
    case (Inr p)
    obtain data t d where p: "p = (data, t, d)" by (cases p)
    obtain user' pass' where auth: "ss_username t = Some user'" "fst (sy_auth sy user' pass') = data"
      using v1_auth_loop_sound[OF start(2)[unfolded Inr p] start(1) refl] by blast
    show ?thesis
    proof (cases "data = 0 \<or> access_login_allowed (cfg_sec cfg) sy user' = 0")
      case True
      then show ?thesis using res auth by (auto simp: Inr p bind_eq_Some split: if_splits)
    next
      case False
      then have "authorized cfg sy user'" using auth access_login_allowed_bool[of "cfg_sec cfg" sy user'] by (auto simp: authorized_def)
      then show ?thesis using res auth False v1_serve_step[OF ok] by (simp add: Inr p)
    qed
  qed
qed

lemma scp_v1_mng_process_same: "scp_v1_mng_process fuel cfg sy sm c s = Returned (sm', c') \<Longrightarrow> same_table sm sm'"
  by (auto simp: scp_v1_mng_process_def Let_def split: option.splits if_splits prod.splits outcome.splits)

lemma scp_process_start_cases:
  assumes "scp_process_start fuel cfg sy sm rx tx = Returned (sm', c')"
  obtains (refused) "sm' = sm"
  | (v0) c s where "scp_v0_process cfg sy sm c s = Some (sm', c')"
  | (v1) c s where "scp_v1_process cfg sy sm c s = Some (sm', c')"
  | (manage) c s where "scp_v1_mng_process fuel cfg sy sm c s = Returned (sm', c')"
proof -
  obtain e sdata c where acc: "scp_vXs_accept (sesman_connection rx tx) = Some (e, sdata, c)"
    using assms by (auto simp: scp_process_start_def split: option.splits)
  note run = assms[unfolded scp_process_start_def acc option.case prod.case]
  show thesis
  proof (cases "e = SCP_SERVER_STATE_OK \<or> e = SCP_SERVER_STATE_START_MANAGE")
    case True
    then obtain s where s: "sdata = Some s" using run by (auto split: option.splits)
    show thesis using True run
      by (auto simp: s option_outcome_def split: if_splits option.splits intro: v0 v1 manage)
  next
    case False
    then show thesis using run refused by simp
  qed
qed

lemma scp_process_start_step:
  assumes ok: "None \<notin> set (sm_sessions sm)" and run: "scp_process_start fuel cfg sy sm rx tx = Returned (sm', c')"
  shows "table_step cfg sy sm sm'"
  using run
proof (cases rule: scp_process_start_cases)
  case (manage c s)
  then show ?thesis by (auto simp: table_step_def dest: scp_v1_mng_process_same)
qed (auto intro: scp_v0_process_step[OF ok] scp_v1_process_step[OF ok])

subsection \<open>Runs of the manager\<close>

text \<open>The manager starts with an empty table, then serves connections one after the other, is told of
  ended children, and passes on a termination. The list collects the environments of the connections
  that were served. The system never gives a child the identifier of one that the table still holds.
  The configuration stays the same.\<close>

definition sesman_start :: sesman where
  "sesman_start = \<lparr>sm_sessions = [], sm_count = 0, sm_auth_ended = [], sm_terminated = []\<rparr>"

inductive sesman_run :: "config_sesman \<Rightarrow> sesman_sys list \<Rightarrow> sesman \<Rightarrow> bool" for cfg where
  run_start: "sesman_run cfg [] sesman_start"
| run_connection: "sesman_run cfg h sm \<Longrightarrow> scp_process_start fuel cfg sy sm rx tx = Returned (sm', c)
    \<Longrightarrow> sy_fork sy = -1 \<or> 0 < sy_fork sy \<and> session_get_bypid (sy_fork sy) (sm_sessions sm) = None
    \<Longrightarrow> sesman_run cfg (sy # h) sm'"
| run_child: "sesman_run cfg h sm \<Longrightarrow> sesman_run cfg h (sig_sesman_session_end sm pid)"
| run_terminate: "sesman_run cfg h sm \<Longrightarrow> sesman_run cfg h (session_sigkill_all sm)"

text \<open>What holds of one session: active, its display in the configured range, and its owner was
  authenticated and allowed by the rules.\<close>

definition session_ok :: "config_sesman \<Rightarrow> sesman_sys list \<Rightarrow> session_item \<Rightarrow> bool" where
  "session_ok cfg h item \<longleftrightarrow> 0 < si_pid item \<and> si_status item = SESMAN_SESSION_STATUS_ACTIVE \<and> si_display item \<noteq> 0
     \<and> x11_display_offset (cfg_sess cfg) \<le> si_display item
     \<and> si_display item \<le> x11_display_offset (cfg_sess cfg) + max_sessions (cfg_sess cfg)
     \<and> (\<exists>sy\<in>set h. \<exists>user. si_name item = take 255 user \<and> authorized cfg sy user)"

definition sesman_inv :: "config_sesman \<Rightarrow> sesman_sys list \<Rightarrow> sesman \<Rightarrow> bool" where
  "sesman_inv cfg h sm \<longleftrightarrow> chain_ok (sm_sessions sm) \<and> sm_count sm = int (length (sm_sessions sm))
     \<and> length (sm_sessions sm) \<le> nat (max_sessions (cfg_sess cfg)) \<and> distinct (map si_display (chain_items (sm_sessions sm)))
     \<and> (\<forall>item\<in>set (chain_items (sm_sessions sm)). session_ok cfg h item)"

lemma chain_ok_no_null: "chain_ok chain \<Longrightarrow> None \<notin> set chain"
  by (simp add: chain_ok_def)

lemma session_ok_more: "session_ok cfg h item \<Longrightarrow> session_ok cfg (sy # h) item"
  by (auto simp: session_ok_def)

lemma kill_length:
  "chain_ok chain \<Longrightarrow> int (length (snd (kill_in_chain pid chain)))
     = int (length chain) - (if fst (kill_in_chain pid chain) = SESMAN_SESSION_KILL_OK then 1 else 0)
   \<and> (fst (kill_in_chain pid chain) = SESMAN_SESSION_KILL_OK \<longleftrightarrow> chain_map chain pid \<noteq> None)"
proof (induction pid chain rule: kill_in_chain.induct)
  case (3 pid item r)
  then show ?case by (cases "kill_in_chain pid r") auto
qed auto

lemma kill_displays:
  "chain_ok chain \<Longrightarrow> distinct (map si_display (chain_items chain)) \<Longrightarrow>
     distinct (map si_display (chain_items (snd (kill_in_chain pid chain))))"
proof (induction pid chain rule: kill_in_chain.induct)
  case (3 pid item r)
  then show ?case using kill_keeps[of r pid] by (cases "kill_in_chain pid r") (auto simp: subset_iff image_iff)
qed auto

lemma sesman_inv_start: "sesman_inv cfg [] sesman_start"
  by (simp add: sesman_inv_def sesman_start_def)

lemma sesman_inv_kill:
  assumes "sesman_inv cfg h sm"
  shows "sesman_inv cfg h (snd (session_kill sm pid))"
proof -
  have ok: "chain_ok (sm_sessions sm)" using assms by (simp add: sesman_inv_def)
  obtain e r where k: "kill_in_chain pid (sm_sessions sm) = (e, r)" by (cases "kill_in_chain pid (sm_sessions sm)")
  have "chain_ok r" "set (chain_items r) \<subseteq> set (chain_items (sm_sessions sm))" using kill_keeps[OF ok, of pid] k by auto
  moreover have "distinct (map si_display (chain_items r))" using kill_displays[OF ok, of pid] assms k by (simp add: sesman_inv_def)
  moreover have "int (length r) = int (length (sm_sessions sm)) - (if e = SESMAN_SESSION_KILL_OK then 1 else 0)"
    using kill_length[OF ok, of pid] k by simp
  ultimately show ?thesis using assms by (auto simp: sesman_inv_def session_kill_def k subset_iff split: if_splits)
qed

lemma sesman_inv_step:
  assumes inv: "sesman_inv cfg h sm" and step: "table_step cfg sy sm sm'"
    and pid: "sy_fork sy = -1 \<or> 0 < sy_fork sy \<and> session_get_bypid (sy_fork sy) (sm_sessions sm) = None"
  shows "sesman_inv cfg (sy # h) sm'"
  using step unfolding table_step_def
proof (elim disjE exE conjE)
  assume "same_table sm sm'"
  then show ?thesis using inv by (auto simp: sesman_inv_def same_table_def session_ok_more)
next
  fix item user
  assume new: "sm_sessions sm' = Some item # sm_sessions sm" "sm_count sm' = sm_count sm + 1"
    "new_session cfg sy sm user item" "authorized cfg sy user"
  have fresh: "0 < sy_fork sy" "si_pid item \<notin> si_pid ` set (chain_items (sm_sessions sm))"
    using pid new(3) inv by (auto simp: new_session_def sesman_inv_def get_bypid_map chain_map_None)
  have "session_ok cfg (sy # h) item" using new(3,4) fresh(1) by (auto simp: session_ok_def new_session_def)
  moreover have "sm_count sm < max_sessions (cfg_sess cfg)" "si_display item \<notin> si_display ` set (chain_items (sm_sessions sm))"
    using new(3) by (simp_all add: new_session_def)
  ultimately show ?thesis using inv new(1,2) fresh(2) by (auto simp: sesman_inv_def session_ok_more)
qed

lemma sesman_run_inv: "sesman_run cfg h sm \<Longrightarrow> sesman_inv cfg h sm"
proof (induction rule: sesman_run.induct)
  case (run_connection h sm fuel sy rx tx sm' c)
  then have "None \<notin> set (sm_sessions sm)" by (auto simp: sesman_inv_def dest: chain_ok_no_null)
  then show ?case using run_connection sesman_inv_step scp_process_start_step by blast
next
  case (run_child h sm pid)
  then show ?case by (simp add: sig_sesman_session_end_def sesman_inv_kill)
next
  case run_start
  show ?case by (rule sesman_inv_start)
qed (simp add: sesman_inv_def session_sigkill_all_def)

end
