(* ===== verification/Sesman_Runs.thy ===== *)
theory Sesman_Runs
  imports Sesman_Laws
begin

text \<open>
  The properties of the session manager over its runs, with the runs on concrete connections that
  show their hypotheses can hold.
\<close>

subsection \<open>A manager to try\<close>

text \<open>Room for two sessions from display 10 on, one user with one password.\<close>

definition demo_cfg :: config_sesman where
  "demo_cfg = \<lparr>cfg_sec = config_read_security (\<lambda>_. None) [],
     cfg_sess = config_read_sessions [(c_text ''MaxSessions'', c_text ''2'')]\<rparr>"

definition demo_sys :: "int \<Rightarrow> sesman_sys" where
  "demo_sys pid = \<lparr>sy_auth = (\<lambda>user pass. if user = [0x62, 0x6f, 0x62] \<and> pass = [0x70, 0x77] then (1, 0) else (0, 7)),
     sy_user_info = (\<lambda>_. None), sy_in_group = (\<lambda>_ _. None), sy_x_running = (\<lambda>_. False), sy_fork = pid,
     sy_time = zero_time, sy_guid = replicate 16 0xab\<rparr>"

definition demo_rx :: "rx_event list" where
  "demo_rx = [Rx_Bytes (v0_message (v0_body 0 demo_session))]"

definition demo_item :: session_item where
  "demo_item = \<lparr>si_name = [0x62, 0x6f, 0x62], si_pid = 5, si_display = 10, si_width = 800, si_height = 600, si_bpp = 24,
     si_data = 1, si_status = 1, si_type = 2, si_connect_time = zero_time, si_disconnect_time = zero_time,
     si_idle_time = zero_time, si_client_ip = [], si_guid = replicate 16 0xab\<rparr>"

definition demo_manager :: sesman where
  "demo_manager = \<lparr>sm_sessions = [Some demo_item], sm_count = 1, sm_auth_ended = [], sm_terminated = []\<rparr>"

text \<open>The connection of version 0 that starts the first session.\<close>

lemma demo_connection:
  obtains c where "scp_process_start 0 demo_cfg (demo_sys 5) sesman_start demo_rx [Tx_Accept 100] = Returned (demo_manager, c)"
proof -
  have "case scp_process_start 0 demo_cfg (demo_sys 5) sesman_start demo_rx [Tx_Accept 100] of
      Returned (sm, c) \<Rightarrow> sm = demo_manager | _ \<Rightarrow> False"
    by code_simp
  then show thesis using that by (auto split: outcome.splits)
qed

lemma demo_run: "sesman_run demo_cfg [demo_sys 5] demo_manager"
proof -
  obtain c where c: "scp_process_start 0 demo_cfg (demo_sys 5) sesman_start demo_rx [Tx_Accept 100] = Returned (demo_manager, c)"
    by (rule demo_connection)
  show ?thesis by (rule run_connection[OF run_start c]) (simp add: sesman_start_def demo_sys_def)
qed

subsection \<open>The table\<close>



text \<open>C30. Seen as a map from process identifiers to sessions, ending a child removes exactly its
  session: \<open>session_kill\<close> reports success if and only if there was one, the count stays the number of
  sessions, and a search by process identifier gives what it gave before for every other child.\<close>

theorem session_kill_refines:
  assumes "sesman_run cfg h sm"
  shows "chain_map (sm_sessions (snd (session_kill sm pid))) = (chain_map (sm_sessions sm))(pid := None)
     \<and> (fst (session_kill sm pid) = SESMAN_SESSION_KILL_OK \<longleftrightarrow> session_get_bypid pid (sm_sessions sm) \<noteq> None)
     \<and> sm_count (snd (session_kill sm pid)) = int (length (sm_sessions (snd (session_kill sm pid))))
     \<and> session_get_bypid pid' (sm_sessions (snd (session_kill sm pid)))
         = (if pid' = pid then None else session_get_bypid pid' (sm_sessions sm))"
proof -
  have inv: "sesman_inv cfg h sm" by (rule sesman_run_inv[OF assms])
  then have ok: "chain_ok (sm_sessions sm)" by (simp add: sesman_inv_def)
  have chain: "sm_sessions (snd (session_kill sm pid)) = snd (kill_in_chain pid (sm_sessions sm))"
    and res: "fst (session_kill sm pid) = fst (kill_in_chain pid (sm_sessions sm))"
    by (simp_all add: session_kill_def case_prod_unfold)
  have "sm_count (snd (session_kill sm pid)) = int (length (sm_sessions (snd (session_kill sm pid))))"
    using sesman_inv_kill[OF inv, of pid] by (simp add: sesman_inv_def)
  then show ?thesis
    unfolding chain res using chain.remove_law[OF ok, of pid] chain.get_remove[OF ok] kill_length[OF ok, of pid] get_bypid_map[OF ok, of pid]
    by simp
qed

theorem session_kill_refines_witness:
  "fst (session_kill demo_manager 5) = SESMAN_SESSION_KILL_OK \<and> session_get_bypid 5 (sm_sessions (snd (session_kill demo_manager 5))) = None"
  using session_kill_refines[OF demo_run, of 5 5] by (simp add: demo_manager_def demo_item_def)

subsection \<open>Who is given a display\<close>

lemma session_search_found: "session_search f chain = Some (Some item) \<Longrightarrow> Some item \<in> set chain \<and> f item = Some True"
proof (induction chain)
  case (Cons x r)
  then show ?case by (cases x) (auto simp: bind_eq_Some split: if_splits)
qed simp

lemma session_get_bydata_found:
  assumes "session_get_bydata sess sm name width height bpp type client_ip = Some (Some item)"
  shows "Some item \<in> set (sm_sessions sm) \<and> strncmp_eq name (si_name item) 255 \<and> si_bpp item = bpp \<and> sesman_type type = Some (si_type item)"
proof -
  obtain ty policy where ty: "sesman_type type = Some ty"
    and found: "session_search (session_matches policy name width height bpp ty client_ip) (sm_sessions sm) = Some (Some item)"
    using assms by (auto simp: session_get_bydata_def Let_def split: option.splits)
  from session_search_found[OF found] have "Some item \<in> set (sm_sessions sm)"
    and "session_matches policy name width height bpp ty client_ip item = Some True" by simp_all
  then show ?thesis using ty by (auto simp: session_matches_def bind_eq_Some split: if_splits)
qed

definition own_session :: "sesman \<Rightarrow> byte list \<Rightarrow> int \<Rightarrow> byte list \<Rightarrow> bool" where
  "own_session sm user display guid \<longleftrightarrow> (\<exists>item. Some item \<in> set (sm_sessions sm) \<and> strncmp_eq user (si_name item) 255
     \<and> si_display item = display \<and> si_guid item = guid)"

lemma v0_find_or_start_display:
  assumes ok: "None \<notin> set (sm_sessions sm)" and run: "v0_find_or_start cfg sy sm data user s = Some (display, s', e, sm')"
    and display: "display \<noteq> 0" and user: "ss_username s = Some user"
  shows "own_session sm user display (ss_guid s') \<and> sm' = sm
     \<or> access_login_allowed (cfg_sec cfg) sy user = 1 \<and> (sm' = sm \<and> sy_fork sy = -1
        \<or> (\<exists>item. sm' = sm\<lparr>sm_sessions := Some item # sm_sessions sm, sm_count := sm_count sm + 1\<rparr>
             \<and> si_display item = display \<and> si_guid item = ss_guid s' \<and> new_session cfg sy sm user item))"
  using run
proof (cases rule: v0_find_or_start_cases)
  case (reconnect item)
  then show ?thesis using session_get_bydata_found[OF reconnect(1)] by (auto simp: own_session_def)
next
  case (start r)
  then have "ss_username s' = Some user" using user set_guid_keeps[OF start(2)] by simp
  then show ?thesis using start_by_type_cases[OF ok start(3)] start(1) display by blast
qed (use display in simp)


definition demo_login :: scp_session where
  "demo_login = scp_session_create\<lparr>ss_username := Some [0x62, 0x6f, 0x62], ss_password := Some [0x70, 0x77],
     ss_width := 800, ss_height := 600, ss_bpp := 24\<rparr>"

lemma demo_reconnects:
  obtains c where "scp_v0_process demo_cfg (demo_sys 6) demo_manager (sesman_connection [] [Tx_Accept 100]) demo_login
     = Some (auth_end demo_manager 1, c)"
proof -
  have "case scp_v0_process demo_cfg (demo_sys 6) demo_manager (sesman_connection [] [Tx_Accept 100]) demo_login of
      Some (sm, c) \<Rightarrow> sm = auth_end demo_manager 1 | None \<Rightarrow> False"
    by code_simp
  then show thesis using that by (auto split: option.splits)
qed


subsection \<open>Where the manager departs from what is meant\<close>

text \<open>A child that cannot be made is reported as a session: when \<open>fork\<close> fails, the client of an
  allowed user is told the free display and the identifier as if a session ran there, the table has
  no session for it, and the authentication data is not closed.\<close>

theorem failed_fork_is_reported_as_success:
  assumes "sy_fork sy = -1" and "sm_count sm < max_sessions (cfg_sess cfg)"
    and "session_get_avail_display_from_chain (cfg_sess cfg) sy sm = Some display" "display \<noteq> 0"
    and "ss_username s = Some user" "ss_password s = Some pass" "fst (sy_auth sy user pass) \<noteq> 0" "sesman_type (ss_type s) \<noteq> None"
    and "session_get_bydata (cfg_sess cfg) sm user (ss_width s) (ss_height s) (ss_bpp s) (ss_type s) (ss_client_ip s) = Some None"
    and "access_login_allowed (cfg_sec cfg) sy user = 1" "length (sy_guid sy) = 16"
  shows "scp_v0_process cfg sy sm c s
     = map_option (\<lambda>(r, c'). (sm, c')) (scp_v0s_allow_connection c (u16 display) (Some (sy_guid sy)))"
proof -
  have start: "session_start_fork (cfg_sess cfg) sy sm data type t = Some (display, sm)" for data type t
    using assms(1-4) by (simp add: session_start_fork_def)
  have type: "ss_type s \<noteq> SCP_GW_AUTHENTICATION" "start_by_type (cfg_sess cfg) sy sm data (s\<lparr>ss_guid := sy_guid sy\<rparr>) = Some (display, sm)" for data
    using assms(8) by (auto simp: sesman_type_def start_by_type_def start split: if_splits)
  have "v0_find_or_start cfg sy sm data user s = Some (display, s\<lparr>ss_guid := sy_guid sy\<rparr>, False, sm)" for data
    using assms(4,9-11) type(2) by (simp add: v0_find_or_start_def scp_session_set_guid_def)
  then show ?thesis using assms(4-7) type(1)
    by (cases "scp_v0s_allow_connection c (u16 display) (Some (sy_guid sy))") (auto simp: scp_v0_process_def case_prod_unfold)
qed

theorem failed_fork_is_reported_as_success_witness:
  "scp_v0_process demo_cfg (demo_sys (-1)) sesman_start (sesman_connection [] []) demo_login
     = map_option (\<lambda>(r, c'). (sesman_start, c')) (scp_v0s_allow_connection (sesman_connection [] []) (u16 10) (Some (replicate 16 0xab)))"
proof -
  have facts: "sy_fork (demo_sys (-1)) = -1" "sm_count sesman_start < max_sessions (cfg_sess demo_cfg)"
    "session_get_avail_display_from_chain (cfg_sess demo_cfg) (demo_sys (-1)) sesman_start = Some 10" "(10 :: int) \<noteq> 0"
    "ss_username demo_login = Some [0x62, 0x6f, 0x62]" "ss_password demo_login = Some [0x70, 0x77]"
    "fst (sy_auth (demo_sys (-1)) [0x62, 0x6f, 0x62] [0x70, 0x77]) \<noteq> 0" "sesman_type (ss_type demo_login) \<noteq> None"
    "session_get_bydata (cfg_sess demo_cfg) sesman_start [0x62, 0x6f, 0x62] (ss_width demo_login) (ss_height demo_login) (ss_bpp demo_login)
       (ss_type demo_login) (ss_client_ip demo_login) = Some None"
    "access_login_allowed (cfg_sec demo_cfg) (demo_sys (-1)) [0x62, 0x6f, 0x62] = 1" "length (sy_guid (demo_sys (-1))) = 16"
    by code_simp+
  show ?thesis using failed_fork_is_reported_as_success[OF facts] by (simp add: demo_sys_def)
qed

text \<open>\<open>MaxSessions\<close> left out or 0 means no session at all, although the manual says that the number
  is then unlimited: the configuration without it has the limit 0, and a manager whose limit is 0
  never holds a session and starts none.\<close>

theorem unset_limit_starts_no_session:
  assumes "sesman_run cfg h sm" and "cfg_sess cfg = config_read_sessions params"
    and "\<forall>p\<in>set params. \<not> strcasecmp_eq (fst p) (c_text ''MaxSessions'')"
  shows "max_sessions (cfg_sess cfg) = 0 \<and> sm_sessions sm = [] \<and> start_by_type (cfg_sess cfg) sy sm data s = Some (0, sm)"
proof -
  have keep: "max_sessions (sessions_param p se) = max_sessions se" if "\<not> strcasecmp_eq (fst p) (c_text ''MaxSessions'')" for p se
    using that by (cases p) (simp add: sessions_param_def Let_def)
  have "max_sessions (fold sessions_param ps se) = max_sessions se"
    if "\<forall>p\<in>set ps. \<not> strcasecmp_eq (fst p) (c_text ''MaxSessions'')" for ps se
    using that by (induction ps arbitrary: se) (simp_all add: keep)
  then have zero: "max_sessions (cfg_sess cfg) = 0" using assms(2,3) by (simp add: config_read_sessions_def)
  then show ?thesis using sesman_run_inv[OF assms(1)]
    by (auto simp: sesman_inv_def start_by_type_def session_start_fork_def)
qed

theorem unset_limit_starts_no_session_witness:
  "start_by_type (config_read_sessions []) (demo_sys 5) sesman_start 1 demo_login = Some (0, sesman_start)"
  using unset_limit_starts_no_session[of "\<lparr>cfg_sec = config_read_security (\<lambda>_. None) [], cfg_sess = config_read_sessions []\<rparr>"
      "[]" sesman_start "[]" "demo_sys 5" 1 demo_login]
  by (simp add: run_start)

lemma active_sessions_not_listed:
  "\<forall>item\<in>set (chain_items chain). si_status item = SESMAN_SESSION_STATUS_ACTIVE \<Longrightarrow> None \<notin> set chain \<Longrightarrow>
     session_get_byuser user SESMAN_SESSION_STATUS_DISCONNECTED chain = Some []"
proof (induction chain)
  case (Cons x r)
  then show ?case by (cases x) auto
qed simp

text \<open>No session is ever marked as disconnected, so the version 1 server never lists sessions to a
  client and never reconnects one: after the login it always starts another session.\<close>

theorem v1_never_reconnects:
  assumes "sesman_run cfg h sm"
  shows "v1_serve cfg sy sm c data user s = do {
     (display, sm) \<leftarrow> start_by_type (cfg_sess cfg) sy sm data s;
     (_, c) \<leftarrow> scp_v1s_connect_new_session c (u16 display);
     Some (if display = 0 then auth_end sm data else sm, c) }"
proof -
  have "\<forall>item\<in>set (chain_items (sm_sessions sm)). si_status item = SESMAN_SESSION_STATUS_ACTIVE" "None \<notin> set (sm_sessions sm)"
    using sesman_run_inv[OF assms] by (auto simp: sesman_inv_def session_ok_def dest: chain_ok_no_null)
  from active_sessions_not_listed[OF this] show ?thesis by (simp add: v1_serve_def)
qed

theorem v1_never_reconnects_witness:
  "v1_serve demo_cfg (demo_sys 6) demo_manager (sesman_connection [] [Tx_Accept 100]) 1 [0x62, 0x6f, 0x62] demo_login = do {
     (display, sm) \<leftarrow> start_by_type (cfg_sess demo_cfg) (demo_sys 6) demo_manager 1 demo_login;
     (_, c) \<leftarrow> scp_v1s_connect_new_session (sesman_connection [] [Tx_Accept 100]) (u16 display);
     Some (if display = 0 then auth_end sm 1 else sm, c) }"
  by (rule v1_never_reconnects[OF demo_run])

subsection \<open>Management sessions\<close>

lemma v1_put_entry_rx: "v1_put_entry d c = Some c' \<Longrightarrow> rx_left c' = rx_left c"
  unfolding v1_put_entry_def by (auto simp: bind_eq_Some dest!: sc_put_rx)

lemma rx_left_out [simp]: "rx_left (c\<lparr>sc_out_s := o'\<rparr>) = rx_left c"
  by (simp add: rx_left_def)

lemma v1_put_session_rx: "v1_put_session c d = Some (d', c', n) \<Longrightarrow> rx_left c' = rx_left c"
  unfolding v1_put_session_def by (auto simp: bind_eq_Some split: if_splits dest!: v1_put_entry_rx)

lemma v1_put_sessions_rx: "v1_put_sessions pos k ds c len = Some (ds', c', len') \<Longrightarrow> rx_left c' = rx_left c"
  by (induction k arbitrary: pos ds c len) (auto simp: bind_eq_Some split: if_splits dest!: v1_put_session_rx)

lemma v1_put_list_packet_rx: "v1_put_list_packet cmdset cmd n idx ds c = Some (r, ds', c') \<Longrightarrow> rx_left c' = rx_left c"
  unfolding v1_put_list_packet_def Let_def
  by (auto simp: bind_eq_Some dest!: sc_put_rx v1_put_sessions_rx scp_tcp_force_send_rx)

lemma v1_put_list_packets_rx: "v1_put_list_packets cmdset cmd n idx k ds c = Some (r, ds', c') \<Longrightarrow> rx_left c' = rx_left c"
  by (induction k arbitrary: idx ds c) (auto simp: bind_eq_Some split: if_splits dest!: v1_put_list_packet_rx)

definition mng_request :: "scp_server_state \<Rightarrow> bool" where
  "mng_request e \<longleftrightarrow> e = SCP_SERVER_STATE_MNG_ACTION \<or> e = SCP_SERVER_STATE_MNG_LISTREQ"

lemma mng_check_response_takes:
  assumes "scp_v1s_mng_check_response c = Some (e, c')" "mng_request e"
  shows "rx_left c' < rx_left c"
proof -
  obtain r d where r: "v1_recv_packet 0 c = Some (r, d)" using assms(1) by (auto simp: scp_v1s_mng_check_response_def bind_eq_Some)
  show ?thesis
  proof (cases "r = Pkt_Ok")
    case True
    then show ?thesis using assms v1_recv_packet_takes[of 0 c d]
      by (auto simp: scp_v1s_mng_check_response_def r bind_eq_Some mng_request_def split: if_splits dest!: sc_get_rx)
  next
    case False
    then show ?thesis using assms by (cases r) (auto simp: scp_v1s_mng_check_response_def r mng_request_def)
  qed
qed

lemma mng_list_takes:
  assumes "scp_v1s_mng_list_sessions c n ds = Some (e, ds', c')" "mng_request e"
  shows "rx_left c' < rx_left c"
  using assms unfolding scp_v1s_mng_list_sessions_def Let_def
  by (auto simp: bind_eq_Some mng_request_def split: if_splits dest!: v1_put_list_packet_rx v1_put_list_packets_rx mng_check_response_takes)

lemma mng_action_loops: "mng_loop n sm SCP_SERVER_STATE_MNG_ACTION c = Running"
  by (induction n) simp_all

lemma mng_loop_running:
  "rx_left c < n \<Longrightarrow> mng_loop (Suc n) sm e c = Running \<Longrightarrow> mng_loop m sm e c = Running"
proof (induction n arbitrary: e c m)
  case (Suc n)
  consider "e = SCP_SERVER_STATE_MNG_ACTION" | "m = 0" | m' where "m = Suc m'" "e = SCP_SERVER_STATE_MNG_LISTREQ"
    using Suc.prems(2) by (cases m) (auto split: if_splits)
  then show ?case
  proof cases
    case 3
    then obtain slist e' ds c' where step: "session_get_byuser None SESMAN_SESSION_STATUS_ALL (sm_sessions sm) = Some slist"
      "scp_v1s_mng_list_sessions c (length slist) slist = Some (e', ds, c')" "mng_loop (Suc n) sm e' c' = Running"
      using Suc.prems(2) by (auto split: option.splits)
    then have "mng_request e'" by (auto simp: mng_request_def split: if_splits)
    then have "rx_left c' < rx_left c" by (rule mng_list_takes[OF step(2)])
    then show ?thesis using Suc.IH[of c' e' m'] Suc.prems(1) step 3 by simp
  qed (simp_all add: mng_action_loops)
qed simp


text \<open>C40. One action request of an accepted administrator blocks the session manager for good: whatever
  the fuel, serving the connection has not returned.\<close>

theorem mng_action_blocks_manager:
  assumes "scp_vXs_accept (sesman_connection rx tx) = Some (SCP_SERVER_STATE_START_MANAGE, Some s, c)"
    and "ss_username s = Some user" "ss_password s = Some pass" "fst (sy_auth sy user pass) \<noteq> 0"
    and "access_login_mng_allowed (cfg_sec cfg) sy user \<noteq> 0"
    and "scp_v1s_mng_allow_connection c = Some (SCP_SERVER_STATE_MNG_ACTION, c')"
  shows "scp_process_start fuel cfg sy sm rx tx = Running"
  using assms by (simp add: scp_process_start_def scp_v1_mng_process_def mng_action_loops)

definition demo_admin_rx :: "rx_event list" where
  "demo_admin_rx = [Rx_Bytes (v1_packet 1 1 [3, 0x62, 0x6f, 0x62, 2, 0x70, 0x77, 0, 127, 0, 0, 1, 1, 0x68]),
     Rx_Bytes (v1_packet 1 7 [])]"

lemma demo_admin:
  obtains s c c' where "scp_vXs_accept (sesman_connection demo_admin_rx [Tx_Accept 100]) = Some (SCP_SERVER_STATE_START_MANAGE, Some s, c)"
    "ss_username s = Some [0x62, 0x6f, 0x62]" "ss_password s = Some [0x70, 0x77]"
    "scp_v1s_mng_allow_connection c = Some (SCP_SERVER_STATE_MNG_ACTION, c')"
proof -
  have "case scp_vXs_accept (sesman_connection demo_admin_rx [Tx_Accept 100]) of
      Some (e, Some s, c) \<Rightarrow> e = SCP_SERVER_STATE_START_MANAGE \<and> ss_username s = Some [0x62, 0x6f, 0x62] \<and> ss_password s = Some [0x70, 0x77]
        \<and> (case scp_v1s_mng_allow_connection c of Some (e', _) \<Rightarrow> e' = SCP_SERVER_STATE_MNG_ACTION | None \<Rightarrow> False)
    | _ \<Rightarrow> False"
    by code_simp
  then show thesis using that by (auto split: option.splits)
qed

theorem mng_action_blocks_manager_witness:
  "\<forall>fuel. scp_process_start fuel demo_cfg (demo_sys 6) demo_manager demo_admin_rx [Tx_Accept 100] = Running"
proof
  fix fuel
  obtain s c c' where demo: "scp_vXs_accept (sesman_connection demo_admin_rx [Tx_Accept 100]) = Some (SCP_SERVER_STATE_START_MANAGE, Some s, c)"
    "ss_username s = Some [0x62, 0x6f, 0x62]" "ss_password s = Some [0x70, 0x77]"
    "scp_v1s_mng_allow_connection c = Some (SCP_SERVER_STATE_MNG_ACTION, c')"
    by (rule demo_admin)
  have "fst (sy_auth (demo_sys 6) [0x62, 0x6f, 0x62] [0x70, 0x77]) \<noteq> 0"
    "access_login_mng_allowed (cfg_sec demo_cfg) (demo_sys 6) [0x62, 0x6f, 0x62] \<noteq> 0"
    by code_simp+
  with demo show "scp_process_start fuel demo_cfg (demo_sys 6) demo_manager demo_admin_rx [Tx_Accept 100] = Running"
    by (intro mng_action_blocks_manager)
qed

end
